(* ===== verification/Prelude.thy ===== *)
theory Prelude
  imports Main "HOL-Library.Word"
begin

text \<open>
  Shared vocabulary of the uperf development: the machine integers and constants of
  \<open>src/uperf.h\<close>, the result type of operations that can stop the process, and the
  parts of the C string library the sources call (\<open>strlcpy\<close>, \<open>strcasecmp\<close>,
  \<open>strncmp\<close>, \<open>strtok\<close>, \<open>tolower\<close>) as functions on \<^typ>\<open>string\<close>.

  A C string is the list of its characters before the terminating NUL. A C \<open>int\<close> is an
  \<^typ>\<open>int\<close>; where a value is converted to 32 bits the conversion is written out
  (\<open>wrap32\<close>). \<open>strlcpy\<close> is the real one (the HAVE_STRLCPY configuration).
\<close>

section \<open>Integers\<close>

type_synonym u16 = "16 word"
type_synonym u32 = "32 word"
type_synonym u64 = "64 word"

definition wrap32 :: "int \<Rightarrow> int" where
  \<comment> \<open>the value an \<open>int\<close> holds after it is assigned \<open>x\<close> (two's complement)\<close>
  "wrap32 x = sint (word_of_int x :: u32)"

lemma wrap32_id: "- (2 ^ 31) \<le> x \<Longrightarrow> x < 2 ^ 31 \<Longrightarrow> wrap32 x = x"
  by (simp add: wrap32_def sint_sbintrunc' signed_take_bit_int_eq_self)

lemma wrap32_bounds: "- (2 ^ 31) \<le> wrap32 x" "wrap32 x < 2 ^ 31"
  using sint_ge [of "word_of_int x :: u32"] sint_lt [of "word_of_int x :: u32"]
  by (simp_all add: wrap32_def)

lemma sint_small: "unat (n::u32) < 2 ^ 31 \<Longrightarrow> sint n = int (unat n)"
proof -
  assume "unat n < 2 ^ 31"
  then have "int (unat n) < int (2 ^ 31)" by (simp only: of_nat_less_iff)
  then have "uint n < 2 ^ 31" by simp
  moreover have "- (2 ^ 31) \<le> uint n" by (rule order_trans [of _ 0]) simp_all
  ultimately show ?thesis using wrap32_id [of "uint n"] by (simp add: wrap32_def)
qed

lemma uint_le_nat: "uint (n::u32) \<le> int k \<longleftrightarrow> unat n \<le> k"
proof -
  have "int (unat n) \<le> int k \<longleftrightarrow> unat n \<le> k" by (rule of_nat_le_iff)
  then show ?thesis by simp
qed

text \<open>An \<open>int\<close> stored in a \<open>uint32_t\<close> or \<open>uint64_t\<close>: the value modulo the width.\<close>

abbreviation to_u16 :: "int \<Rightarrow> u16" where "to_u16 \<equiv> word_of_int"
abbreviation to_u32 :: "int \<Rightarrow> u32" where "to_u32 \<equiv> word_of_int"
abbreviation to_u64 :: "int \<Rightarrow> u64" where "to_u64 \<equiv> word_of_int"

section \<open>Result codes (\<open>uperf.h\<close>)\<close>

definition UPERF_SUCCESS :: int where [simp]: "UPERF_SUCCESS = 0"
definition UPERF_FAILURE :: int where [simp]: "UPERF_FAILURE = - 1"
definition UPERF_DURATION_EXPIRED :: int where [simp]: "UPERF_DURATION_EXPIRED = 4"

definition UPERF_ANY_CONNECTION :: u32 where "UPERF_ANY_CONNECTION = 0"
definition DEFAULT_BUFFER_SIZE :: nat where "DEFAULT_BUFFER_SIZE = 8192"
definition MAXHOSTNAME :: nat where "MAXHOSTNAME = 256"
definition MAXTHREADGROUPS :: nat where "MAXTHREADGROUPS = 1024"
definition UPERF_NAME_LEN :: nat where "UPERF_NAME_LEN = 32"
definition NAMELEN :: nat where "NAMELEN = 128"
definition PATHMAX :: nat where "PATHMAX = 128"

text \<open>\<open>errno\<close> values the sources test.\<close>

definition EINTR :: int where "EINTR = 4"
definition EAGAIN :: int where "EAGAIN = 11"
definition ETIMEDOUT :: int where "ETIMEDOUT = 110"

section \<open>Operations that may not return\<close>

text \<open>
  \<open>Exited n\<close>: the code called \<open>exit(n)\<close>. \<open>Aborted\<close>: a failed \<open>assert\<close> or
  \<open>abort()\<close>. \<open>Undefined\<close>: an access outside an object or through a null pointer, or
  another C operation without defined behaviour.
\<close>

datatype c_stop = Exited int | Aborted | Undefined

definition cbind :: "c_stop + 'a \<Rightarrow> ('a \<Rightarrow> c_stop + 'b) \<Rightarrow> c_stop + 'b" where
  "cbind m f = (case m of Inl e \<Rightarrow> Inl e | Inr x \<Rightarrow> f x)"

lemma cbind_simps [simp]:
  "cbind (Inl e) f = Inl e"
  "cbind (Inr x) f = f x"
  by (simp_all add: cbind_def)

lemma cbind_Inr: "cbind m f = Inr y \<longleftrightarrow> (\<exists>x. m = Inr x \<and> f x = Inr y)"
  by (cases m) auto

lemma cbind_cong [fundef_cong]:
  "m = m' \<Longrightarrow> (\<And>x. m' = Inr x \<Longrightarrow> f x = f' x) \<Longrightarrow> cbind m f = cbind m' f'"
  by (cases m') auto

section \<open>Characters and strings\<close>

definition c_code :: "char \<Rightarrow> nat" where
  "c_code c = of_char c"

abbreviation NUL :: char where "NUL \<equiv> CHR 0x00"

definition c_isupper :: "char \<Rightarrow> bool" where
  "c_isupper c = (65 \<le> c_code c \<and> c_code c \<le> 90)"
definition c_islower :: "char \<Rightarrow> bool" where
  "c_islower c = (97 \<le> c_code c \<and> c_code c \<le> 122)"
definition c_isalpha :: "char \<Rightarrow> bool" where
  "c_isalpha c = (c_isupper c \<or> c_islower c)"
definition c_isspace :: "char \<Rightarrow> bool" where
  "c_isspace c = (c_code c = 32 \<or> 9 \<le> c_code c \<and> c_code c \<le> 13)"

definition c_isdigit :: "char \<Rightarrow> bool" where
  "c_isdigit c = (48 \<le> c_code c \<and> c_code c \<le> 57)"

definition c_tolower :: "char \<Rightarrow> char" where
  "c_tolower c = (if c_isupper c then char_of (c_code c + 32) else c)"
definition c_toupper :: "char \<Rightarrow> char" where
  "c_toupper c = (if c_islower c then char_of (c_code c - 32) else c)"

lemma c_code_tolower: "c_code (c_tolower c) = (if c_isupper c then c_code c + 32 else c_code c)"
  by (auto simp: c_tolower_def c_code_def c_isupper_def)

lemma c_tolower_not_upper: "\<not> c_isupper (c_tolower c)"
  using c_code_tolower [of c] by (auto simp: c_isupper_def split: if_splits)

lemma c_tolower_idem [simp]: "c_tolower (c_tolower c) = c_tolower c"
  using c_tolower_not_upper [of c] by (simp add: c_tolower_def [of "c_tolower c"])

definition strcaseeq :: "string \<Rightarrow> string \<Rightarrow> bool" where
  \<comment> \<open>\<open>strcasecmp(a, b) == 0\<close>\<close>
  "strcaseeq a b = (map c_tolower a = map c_tolower b)"

definition strneq0 :: "nat \<Rightarrow> string \<Rightarrow> string \<Rightarrow> bool" where
  \<comment> \<open>\<open>strncmp(a, b, n) == 0\<close> on strings without NUL\<close>
  "strneq0 n a b = (take n a = take n b)"

definition strncaseeq :: "nat \<Rightarrow> string \<Rightarrow> string \<Rightarrow> bool" where
  "strncaseeq n a b = (map c_tolower (take n a) = map c_tolower (take n b))"

definition strlcpy :: "nat \<Rightarrow> string \<Rightarrow> string" where
  \<comment> \<open>what a destination of \<open>n\<close> bytes holds after \<open>strlcpy(dst, src, n)\<close>;
     \<open>snprintf(dst, n, "%s", src)\<close> stores the same\<close>
  "strlcpy n s = take (n - 1) s"

lemma strlcpy_short: "length s < n \<Longrightarrow> strlcpy n s = s"
  by (simp add: strlcpy_def)

lemma length_strlcpy: "0 < n \<Longrightarrow> length (strlcpy n s) < n"
  by (auto simp: strlcpy_def)

lemma strcaseeq_refl [simp]: "strcaseeq s s"
  by (simp add: strcaseeq_def)

lemma strcaseeq_sym: "strcaseeq a b \<Longrightarrow> strcaseeq b a"
  by (simp add: strcaseeq_def)

lemma strcaseeq_trans: "strcaseeq a b \<Longrightarrow> strcaseeq b c \<Longrightarrow> strcaseeq a c"
  by (simp add: strcaseeq_def)

text \<open>
  One call of \<open>strtok(NULL, delims)\<close> with the saved position \<open>s\<close>: skip delimiters, take
  the token, save the position after the delimiter that ended it. \<open>None\<close> is the null
  pointer.
\<close>

definition strtok :: "string \<Rightarrow> string \<Rightarrow> (string \<times> string) option" where
  "strtok delims s =
     (let s' = dropWhile (\<lambda>c. c \<in> set delims) s in
      if s' = [] then None
      else Some (takeWhile (\<lambda>c. c \<notin> set delims) s',
                 drop 1 (dropWhile (\<lambda>c. c \<notin> set delims) s')))"

lemma strtok_decreases: "strtok d s = Some (t, r) \<Longrightarrow> length r < length s"
proof -
  assume a: "strtok d s = Some (t, r)"
  let ?s = "dropWhile (\<lambda>c. c \<in> set d) s"
  from a have "?s \<noteq> []" and r: "r = drop 1 (dropWhile (\<lambda>c. c \<notin> set d) ?s)"
    by (auto simp: strtok_def Let_def split: if_splits)
  moreover have "length ?s \<le> length s" by (simp add: length_dropWhile_le)
  moreover have "length (dropWhile (\<lambda>c. c \<notin> set d) ?s) \<le> length ?s"
    by (rule length_dropWhile_le)
  ultimately show ?thesis by (cases ?s) auto
qed

lemma strtok_token: "strtok d s = Some (t, r) \<Longrightarrow> t \<noteq> [] \<and> set t \<inter> set d = {}"
proof -
  assume a: "strtok d s = Some (t, r)"
  let ?s = "dropWhile (\<lambda>c. c \<in> set d) s"
  from a have ne: "?s \<noteq> []" and t: "t = takeWhile (\<lambda>c. c \<notin> set d) ?s"
    by (auto simp: strtok_def Let_def split: if_splits)
  from ne have "hd ?s \<notin> set d" by (rule hd_dropWhile)
  with ne have "t \<noteq> []" unfolding t by (cases ?s) auto
  moreover have "set t \<inter> set d = {}" unfolding t by (auto dest: set_takeWhileD)
  ultimately show ?thesis by simp
qed

function strtok_all :: "string \<Rightarrow> string \<Rightarrow> string list" where
  \<comment> \<open>the tokens a \<open>for (t = strtok(s, d); t; t = strtok(NULL, d))\<close> loop sees\<close>
  "strtok_all d s =
     (case strtok d s of None \<Rightarrow> [] | Some (t, r) \<Rightarrow> t # strtok_all d r)"
  by pat_completeness auto
termination
  by (relation "measure (\<lambda>(d, s). length s)") (auto dest: strtok_decreases)

declare strtok_all.simps [simp del]

lemma strtok_split: "k \<noteq> [] \<Longrightarrow> set k \<inter> set d = {} \<Longrightarrow> c \<in> set d \<Longrightarrow> strtok d (k @ c # v) = Some (k, v)"
proof -
  assume k: "k \<noteq> []" "set k \<inter> set d = {}" and c: "c \<in> set d"
  have "dropWhile (\<lambda>c. c \<in> set d) (k @ c # v) = k @ c # v" using k by (cases k) auto
  moreover have "takeWhile (\<lambda>c. c \<notin> set d) (k @ c # v) = k" using k c by (simp add: takeWhile_append disjoint_iff)
  moreover have "dropWhile (\<lambda>c. c \<notin> set d) (k @ c # v) = c # v" using k c by (simp add: dropWhile_append disjoint_iff)
  ultimately show ?thesis using k by (simp add: strtok_def)
qed

lemma strtok_last: "k \<noteq> [] \<Longrightarrow> set k \<inter> set d = {} \<Longrightarrow> strtok d k = Some (k, [])"
proof -
  assume k: "k \<noteq> []" "set k \<inter> set d = {}"
  have "dropWhile (\<lambda>c. c \<in> set d) k = k" using k by (cases k) auto
  moreover have "takeWhile (\<lambda>c. c \<notin> set d) k = k" "dropWhile (\<lambda>c. c \<notin> set d) k = []"
    using k by (auto simp: disjoint_iff)
  ultimately show ?thesis using k by (simp add: strtok_def del: dropWhile_eq_Nil_conv takeWhile_eq_all_conv)
qed

lemma strtok_skip: "set b \<subseteq> set d \<Longrightarrow> strtok d (b @ s) = strtok d s"
  by (simp add: strtok_def dropWhile_append subset_iff)

lemma strtok_all_skip: "set b \<subseteq> set d \<Longrightarrow> strtok_all d (b @ s) = strtok_all d s"
  by (subst (1 2) strtok_all.simps) (simp add: strtok_skip)

lemma strtok_all_word:
  "k \<noteq> [] \<Longrightarrow> set k \<inter> set d = {} \<Longrightarrow> c \<in> set d \<Longrightarrow> strtok_all d (k @ c # s) = k # strtok_all d s"
  by (subst strtok_all.simps) (simp add: strtok_split)

lemma strtok_all_last: "k \<noteq> [] \<Longrightarrow> set k \<inter> set d = {} \<Longrightarrow> strtok_all d k = [k]"
proof -
  assume "k \<noteq> []" "set k \<inter> set d = {}"
  moreover have "strtok_all d [] = []" by (subst strtok_all.simps) (simp add: strtok_def)
  ultimately show ?thesis by (subst strtok_all.simps) (simp add: strtok_last)
qed

section \<open>Table lookups\<close>

text \<open>
  Several components search a static array for the first row that matches
  (\<open>for (i = 0; i < n; i++) if (match(tab[i])) return tab[i]\<close>); that is \<^const>\<open>find\<close>.
\<close>

lemma find_Some_in_set: "find P xs = Some x \<Longrightarrow> x \<in> set xs \<and> P x"
  by (induction xs) (auto split: if_splits)

lemma find_None: "find P xs = None \<longleftrightarrow> (\<forall>x \<in> set xs. \<not> P x)"
  by (induction xs) auto

lemma takeWhile_short: "\<exists>x \<in> set xs. \<not> P x \<Longrightarrow> length (takeWhile P xs) < length xs"
  by (induction xs) auto

section \<open>Updating the end of a list\<close>

definition map_last :: "('a \<Rightarrow> 'a) \<Rightarrow> 'a list \<Rightarrow> 'a list" where
  "map_last f xs = (if xs = [] then [] else butlast xs @ [f (last xs)])"

lemma length_map_last [simp]: "length (map_last f xs) = length xs"
  by (cases xs rule: rev_cases) (auto simp: map_last_def)

lemma map_last_Nil [simp]: "map_last f [] = []"
  by (simp add: map_last_def)

lemma map_last_snoc [simp]: "map_last f (xs @ [x]) = xs @ [f x]"
  by (simp add: map_last_def)

lemma map_last_eq_Nil [simp]: "map_last f xs = [] \<longleftrightarrow> xs = []"
  by (simp add: map_last_def)

lemma set_map_last: "set (map_last f xs) \<subseteq> set xs \<union> f ` set xs"
  by (cases xs rule: rev_cases) (auto simp: map_last_def)

section \<open>Printing numbers\<close>

function dec_nat :: "nat \<Rightarrow> string" where
  \<comment> \<open>\<open>%u\<close>\<close>
  "dec_nat n = (if n < 10 then [char_of (48 + n)] else dec_nat (n div 10) @ [char_of (48 + n mod 10)])"
  by pat_completeness auto
termination by (relation "measure id") auto

declare dec_nat.simps [simp del]

lemma length_dec_nat: "n < 10 ^ k \<Longrightarrow> 0 < k \<Longrightarrow> length (dec_nat n) \<le> k"
proof (induction n arbitrary: k rule: dec_nat.induct)
  case (1 n)
  show ?case
  proof (cases "n < 10")
    case True
    with 1 show ?thesis by (subst dec_nat.simps) simp
  next
    case False
    with "1.prems" obtain j where j: "k = Suc j" by (cases k) auto
    with False "1.prems" have "n div 10 < 10 ^ j" "0 < j" by (auto simp: less_mult_imp_div_less) (cases j; simp)
    with 1 False j show ?thesis by (subst dec_nat.simps) simp
  qed
qed

definition dec_int :: "int \<Rightarrow> string" where
  \<comment> \<open>\<open>%d\<close>\<close>
  "dec_int i = (if i < 0 then CHR ''-'' # dec_nat (nat (- i)) else dec_nat (nat i))"

lemma dec_nat_nonempty [simp]: "dec_nat n \<noteq> []"
  by (subst dec_nat.simps) simp

lemma dec_int_nonempty [simp]: "dec_int i \<noteq> []"
  by (simp add: dec_int_def)

section \<open>Counting loops\<close>

fun for_down :: "nat \<Rightarrow> ('s \<Rightarrow> c_stop + 's) \<Rightarrow> 's \<Rightarrow> c_stop + 's" where
  \<comment> \<open>a body run \<open>n\<close> times, stopping where it stops\<close>
  "for_down 0 body s = Inr s"
| "for_down (Suc n) body s = cbind (body s) (for_down n body)"

section \<open>Transition systems\<close>

text \<open>
  The contract between a component's steps and the invariant its properties rest on:
  \<open>invariant_system\<close> is interpreted on every step relation of the development.
\<close>

locale invariant_system =
  fixes start :: "'s \<Rightarrow> bool"
    and step :: "'s \<Rightarrow> 's \<Rightarrow> bool"
    and inv :: "'s \<Rightarrow> bool"
  assumes start_inv: "start s \<Longrightarrow> inv s"
    and step_inv: "inv s \<Longrightarrow> step s s' \<Longrightarrow> inv s'"
begin

lemma steps_inv: "step\<^sup>*\<^sup>* s s' \<Longrightarrow> inv s \<Longrightarrow> inv s'"
  by (induction rule: rtranclp_induct) (auto intro: step_inv)

lemma reachable_inv: "start s \<Longrightarrow> step\<^sup>*\<^sup>* s s' \<Longrightarrow> inv s'"
  by (auto intro: steps_inv start_inv)

end

end
