(* ===== verification/Bytes.thy ===== *)
theory Bytes
  imports Prelude
begin

text \<open>
  Bytes on the wire. uperf sends its C structs as they lie in memory, so a peer of the
  other byte order reads every integer with its bytes reversed and repairs it with the
  \<open>BSWAP\<close> macros of \<open>src/uperf.h\<close>. A byte is a \<^typ>\<open>char\<close>; \<open>put_word\<close> and
  \<open>get_word\<close> are an integer's bytes in memory and back, for a host of either byte order.
  The locale \<open>codec\<close> is the interface between the struct layouts and the transfer code:
  what one host puts, another gets, up to the view its byte order gives it.
\<close>

unbundle bit_operations_syntax

type_synonym byte = char

section \<open>The BSWAP macros\<close>

definition BSWAP_8 :: "'a::len word \<Rightarrow> 'a word" where
  "BSWAP_8 x = x AND 0xff"
definition BSWAP_16 :: "'a::len word \<Rightarrow> 'a word" where
  "BSWAP_16 x = push_bit 8 (BSWAP_8 x) OR BSWAP_8 (drop_bit 8 x)"
definition BSWAP_32 :: "'a::len word \<Rightarrow> 'a word" where
  "BSWAP_32 x = push_bit 16 (BSWAP_16 x) OR BSWAP_16 (drop_bit 16 x)"
definition BSWAP_64 :: "'a::len word \<Rightarrow> 'a word" where
  "BSWAP_64 x = push_bit 32 (BSWAP_32 x) OR BSWAP_32 (drop_bit 32 x)"

lemma bit_BSWAP_8: "bit (BSWAP_8 x) n \<longleftrightarrow> n < 8 \<and> bit x n"
proof -
  have "BSWAP_8 x = take_bit 8 x"
    by (simp add: BSWAP_8_def take_bit_eq_mask mask_eq_exp_minus_1)
  then show ?thesis by (simp add: bit_simps)
qed

lemma bit_BSWAP_16:
  "bit (BSWAP_16 x) n \<longleftrightarrow> n < LENGTH('a) \<and>
     (if n < 8 then bit x (n + 8) else n < 16 \<and> bit x (n - 8))"
  for x :: "'a::len word"
  by (auto simp: BSWAP_16_def bit_simps bit_BSWAP_8 add.commute dest: bit_imp_le_length)

lemma bit_BSWAP_32:
  "bit (BSWAP_32 x) n \<longleftrightarrow> n < LENGTH('a) \<and>
     (if n < 8 then bit x (n + 24) else if n < 16 then bit x (n + 8)
      else if n < 24 then bit x (n - 8) else n < 32 \<and> bit x (n - 24))"
  for x :: "'a::len word"
  by (auto simp: BSWAP_32_def bit_simps bit_BSWAP_16 add.commute dest: bit_imp_le_length)

lemma bit_BSWAP_64:
  "bit (BSWAP_64 x) n \<longleftrightarrow> n < LENGTH('a) \<and>
     (if n < 32 then bit (BSWAP_32 (drop_bit 32 x)) n
      else n < 64 \<and> bit (BSWAP_32 x) (n - 32))"
  for x :: "'a::len word"
  by (auto simp: BSWAP_64_def bit_simps bit_BSWAP_32 dest: bit_imp_le_length)

section \<open>Integers in memory\<close>

datatype endian = LittleEndian | BigEndian

fun le_bytes :: "nat \<Rightarrow> nat \<Rightarrow> byte list" where
  "le_bytes 0 v = []"
| "le_bytes (Suc k) v = char_of v # le_bytes k (drop_bit 8 v)"

fun le_val :: "byte list \<Rightarrow> nat" where
  "le_val [] = 0"
| "le_val (c # cs) = of_char c + 256 * le_val cs"

lemma length_le_bytes [simp]: "length (le_bytes k v) = k"
  by (induction k arbitrary: v) auto

lemma le_val_le_bytes: "v < 256 ^ k \<Longrightarrow> le_val (le_bytes k v) = v"
  by (induction k arbitrary: v) (auto simp: drop_bit_eq_div)

lemma of_char_less_256: "of_char c < (256::nat)"
  by (metis of_char_of char_of_char mod_less_divisor zero_less_numeral)

lemma le_bytes_le_val: "le_bytes (length bs) (le_val bs) = bs"
proof (induction bs)
  case (Cons c cs)
  have "char_of (of_char c + 256 * le_val cs) = c"
    by (metis char_of_char of_char_of mod_mult_self2 of_char_mod_256)
  moreover have "drop_bit 8 (of_char c + 256 * le_val cs) = le_val cs"
    using of_char_less_256 [of c] by (simp add: drop_bit_eq_div)
  ultimately show ?case using Cons by simp
qed simp

lemma le_val_less: "le_val bs < 256 ^ length bs"
proof (induction bs)
  case (Cons c cs)
  from Cons have "Suc (le_val cs) \<le> 256 ^ length cs" by simp
  then have le: "256 * Suc (le_val cs) \<le> 256 * 256 ^ length cs" by (rule mult_le_mono2)
  have "of_char c + 256 * le_val cs < 256 + 256 * le_val cs"
    by (rule add_strict_right_mono) (rule of_char_less_256)
  also have "\<dots> \<le> 256 * 256 ^ length cs" using le by simp
  finally show ?case by simp
qed simp

definition host_order :: "endian \<Rightarrow> byte list \<Rightarrow> byte list" where
  "host_order e bs = (if e = LittleEndian then bs else rev bs)"

definition put_word :: "endian \<Rightarrow> 'a::len word \<Rightarrow> byte list" where
  "put_word e w = host_order e (le_bytes (LENGTH('a) div 8) (unat w))"

definition get_word :: "endian \<Rightarrow> byte list \<Rightarrow> 'a::len word \<times> byte list" where
  "get_word e bs =
     (let n = LENGTH('a) div 8
      in (of_nat (le_val (host_order e (take n bs))), drop n bs))"

definition bswap :: "'a::len word \<Rightarrow> 'a word" where
  \<comment> \<open>the integer with its bytes in the other order: what the macros compute\<close>
  "bswap w = of_nat (le_val (rev (le_bytes (LENGTH('a) div 8) (unat w))))"

definition wview :: "endian \<Rightarrow> endian \<Rightarrow> 'a::len word \<Rightarrow> 'a word" where
  \<comment> \<open>the integer a host of order \<open>e'\<close> reads where one of order \<open>e\<close> wrote \<open>w\<close>\<close>
  "wview e e' w = (if e = e' then w else bswap w)"

lemma wview_same [simp]: "wview e e w = w"
  by (simp add: wview_def)

lemma wview_cross: "e \<noteq> e' \<Longrightarrow> wview e e' w = bswap w"
  by (simp add: wview_def)

lemma length_put_word [simp]: "length (put_word e (w::'a::len word)) = LENGTH('a) div 8"
  by (simp add: put_word_def host_order_def)

lemma two_power_bytes: "8 dvd n \<Longrightarrow> (2::nat) ^ n = 256 ^ (n div 8)"
proof -
  assume "8 dvd n"
  then have "(2::nat) ^ n = 2 ^ (8 * (n div 8))" by simp
  then show ?thesis by (simp only: power_mult) simp
qed

lemma unat_less_bytes: "8 dvd LENGTH('a) \<Longrightarrow> unat (w::'a::len word) < 256 ^ (LENGTH('a) div 8)"
  by (simp flip: two_power_bytes)

lemma get_put_word:
  fixes w :: "'a::len word"
  assumes "8 dvd LENGTH('a)"
  shows "get_word e' (put_word e w @ r) = (wview e e' w, r)"
proof -
  let ?n = "LENGTH('a) div 8"
  have v: "le_val (le_bytes ?n (unat w)) = unat w"
    by (rule le_val_le_bytes) (rule unat_less_bytes [OF assms])
  show ?thesis
    by (cases e; cases e')
      (simp_all add: get_word_def put_word_def host_order_def wview_def bswap_def Let_def v)
qed

lemma le_bytes_2: "le_bytes 2 v = [char_of v, char_of (drop_bit 8 v)]"
  by (simp add: eval_nat_numeral)
lemma le_bytes_4: "le_bytes 4 v = [char_of v, char_of (drop_bit 8 v),
    char_of (drop_bit 16 v), char_of (drop_bit 24 v)]"
  using le_bytes.simps(2) [of 3 v] le_bytes.simps(2) [of 2 "drop_bit 8 v"]
  by (simp add: le_bytes_2)
lemma le_bytes_8: "le_bytes 8 v = le_bytes 4 v @ le_bytes 4 (drop_bit 32 v)"
  using le_bytes.simps(2) [of 7 v] le_bytes.simps(2) [of 6 "drop_bit 8 v"]
    le_bytes.simps(2) [of 5 "drop_bit 16 v"] le_bytes.simps(2) [of 4 "drop_bit 24 v"]
  by (simp add: le_bytes_4)

lemma char_of_bits: "char_of (v::nat) = Char (bit v 0) (bit v 1) (bit v 2) (bit v 3)
    (bit v 4) (bit v 5) (bit v 6) (bit v 7)"
  by (simp add: char_of_def bit_0)

lemma le_bytes_BSWAP_16: "le_bytes 2 (unat (BSWAP_16 (x::u16))) = rev (le_bytes 2 (unat x))"
  by (simp add: le_bytes_2 char_of_bits bit_simps bit_BSWAP_16)
lemma le_bytes_BSWAP_32: "le_bytes 4 (unat (BSWAP_32 (x::u32))) = rev (le_bytes 4 (unat x))"
  by (simp add: le_bytes_4 char_of_bits bit_simps bit_BSWAP_32)
lemma le_bytes_BSWAP_64: "le_bytes 8 (unat (BSWAP_64 (x::u64))) = rev (le_bytes 8 (unat x))"
  by (simp add: le_bytes_8 le_bytes_4 char_of_bits bit_simps bit_BSWAP_64 bit_BSWAP_32)

lemma bswap_eqI:
  fixes w w' :: "'a::len word"
  assumes "8 dvd LENGTH('a)"
    and "le_bytes (LENGTH('a) div 8) (unat w') = rev (le_bytes (LENGTH('a) div 8) (unat w))"
  shows "w' = bswap w"
proof -
  have "unat w' < 256 ^ (LENGTH('a) div 8)"
    by (rule unat_less_bytes [OF assms(1)])
  then have "le_val (rev (le_bytes (LENGTH('a) div 8) (unat w))) = unat w'"
    by (simp flip: assms(2) add: le_val_le_bytes)
  then show ?thesis by (simp add: bswap_def)
qed

lemma BSWAP_16_bswap: "BSWAP_16 (x::u16) = bswap x"
  by (rule bswap_eqI) (simp_all add: le_bytes_BSWAP_16)
lemma BSWAP_32_bswap: "BSWAP_32 (x::u32) = bswap x"
  by (rule bswap_eqI) (simp_all add: le_bytes_BSWAP_32)
lemma BSWAP_64_bswap: "BSWAP_64 (x::u64) = bswap x"
  by (rule bswap_eqI) (simp_all add: le_bytes_BSWAP_64)

lemma le_bytes_bswap:
  fixes w :: "'a::len word"
  assumes "8 dvd LENGTH('a)"
  shows "le_bytes (LENGTH('a) div 8) (unat (bswap w)) = rev (le_bytes (LENGTH('a) div 8) (unat w))"
proof -
  let ?bs = "rev (le_bytes (LENGTH('a) div 8) (unat w))"
  have "le_val ?bs < 2 ^ LENGTH('a)"
    using le_val_less [of ?bs] by (simp add: two_power_bytes [OF assms])
  then have "unat (bswap w) = le_val ?bs"
    by (simp add: bswap_def unsigned_of_nat take_bit_nat_eq_self)
  then show ?thesis
    using le_bytes_le_val [of ?bs] by simp
qed

lemma bswap_bswap:
  fixes w :: "'a::len word"
  assumes "8 dvd LENGTH('a)"
  shows "bswap (bswap w) = w"
  using bswap_eqI [OF assms, of w "bswap w"] le_bytes_bswap [OF assms, of w] by simp

lemma bswap_0 [simp]: "bswap (0::'a::len word) = 0"
proof -
  have "le_val (rev (le_bytes n 0)) = 0" for n
  proof -
    have "le_bytes n 0 = replicate n NUL" by (induction n) (auto simp: char_of_bits)
    moreover have "le_val (replicate n NUL) = 0" by (induction n) auto
    ultimately show ?thesis by simp
  qed
  then show ?thesis by (simp add: bswap_def)
qed

section \<open>Character arrays\<close>

text \<open>
  A \<open>char a[n]\<close> that was zeroed and then written with a string shorter than \<open>n\<close> holds
  the string and NULs; read as a string it ends at the first NUL.
\<close>

definition put_chars :: "nat \<Rightarrow> string \<Rightarrow> byte list" where
  "put_chars n s = take n (s @ replicate n NUL)"

definition get_chars :: "nat \<Rightarrow> byte list \<Rightarrow> string \<times> byte list" where
  "get_chars n bs = (takeWhile (\<lambda>c. c \<noteq> NUL) (take n bs), drop n bs)"

definition c_string :: "nat \<Rightarrow> string \<Rightarrow> bool" where
  \<comment> \<open>fits a \<open>char\<close> array of \<open>n\<close> bytes with its NUL\<close>
  "c_string n s = (length s < n \<and> NUL \<notin> set s)"

lemma length_put_chars [simp]: "length (put_chars n s) = n"
  by (simp add: put_chars_def)

lemma get_put_chars: "c_string n s \<Longrightarrow> get_chars n (put_chars n s @ r) = (s, r)"
proof -
  assume "c_string n s"
  then have l: "length s < n" and nul: "\<forall>c \<in> set s. c \<noteq> NUL"
    by (auto simp: c_string_def)
  from l obtain k where n: "n = length s + Suc k"
    using less_imp_Suc_add by auto
  have "put_chars n s = s @ NUL # replicate k NUL"
    by (simp add: put_chars_def n take_replicate add.commute min_def)
  then show ?thesis
    using nul by (simp add: get_chars_def n takeWhile_append2)
qed

section \<open>The codec interface\<close>

locale codec =
  fixes put :: "'a \<Rightarrow> byte list"
    and get :: "byte list \<Rightarrow> 'a \<times> byte list"
    and width :: nat
    and wf :: "'a \<Rightarrow> bool"
    and view :: "'a \<Rightarrow> 'a"
  assumes get_put: "wf x \<Longrightarrow> get (put x @ r) = (view x, r)"
    and length_put: "length (put x) = width"
begin

lemma get_put_exact: "wf x \<Longrightarrow> fst (get (put x)) = view x"
  using get_put [of x "[]"] by simp

lemma put_inj: "wf x \<Longrightarrow> wf y \<Longrightarrow> put x = put y \<Longrightarrow> view x = view y"
  using get_put_exact by metis

lemma length_concat_put: "length (concat (map put xs)) = width * length xs"
  by (induction xs) (auto simp: length_put)

end

interpretation u16_codec: codec "put_word e :: u16 \<Rightarrow> byte list" "get_word e'" 2 "\<lambda>_. True" "wview e e'"
  for e e'
  by unfold_locales (simp_all add: get_put_word)

interpretation u32_codec: codec "put_word e :: u32 \<Rightarrow> byte list" "get_word e'" 4 "\<lambda>_. True" "wview e e'"
  for e e'
  by unfold_locales (simp_all add: get_put_word)

interpretation u64_codec: codec "put_word e :: u64 \<Rightarrow> byte list" "get_word e'" 8 "\<lambda>_. True" "wview e e'"
  for e e'
  by unfold_locales (simp_all add: get_put_word)

interpretation chars_codec: codec "put_chars n" "get_chars n" n "c_string n" "\<lambda>s. s" for n
  by unfold_locales (simp_all add: get_put_chars)

lemmas wire_simps =
  u16_codec.get_put u32_codec.get_put u64_codec.get_put chars_codec.get_put

end
