(* ===== verification/Flowops.thy ===== *)
theory Flowops
  imports Prelude
begin

text \<open>
  Flowop types (\<open>src/flowops.h\<close>, \<open>src/flowops.c\<close>): the enum, the table of names the
  parser looks up, and the table of opposites that turns the master's work into the
  slave's; and the routine each type is executed by (\<open>flowop_get_execute_func\<close> of
  \<open>src/flowops_library.c\<close>).
\<close>

section \<open>The enum\<close>

text \<open>
  A C enum variable can hold any integer; one that came over the wire may be outside the
  enum. \<open>FLOWOP_INVALID\<close> is such a value.
\<close>

datatype flowop_type =
    FLOWOP_ERROR | FLOWOP_READ | FLOWOP_WRITE | FLOWOP_CONNECT | FLOWOP_DISCONNECT
  | FLOWOP_ACCEPT | FLOWOP_NOP | FLOWOP_THINK | FLOWOP_SEND | FLOWOP_RECV
  | FLOWOP_SENDFILEV | FLOWOP_SENDFILE | FLOWOP_INVALID u32

fun flowop_code :: "flowop_type \<Rightarrow> u32" where
  "flowop_code FLOWOP_ERROR = 0"
| "flowop_code FLOWOP_READ = 1"
| "flowop_code FLOWOP_WRITE = 2"
| "flowop_code FLOWOP_CONNECT = 3"
| "flowop_code FLOWOP_DISCONNECT = 4"
| "flowop_code FLOWOP_ACCEPT = 5"
| "flowop_code FLOWOP_NOP = 6"
| "flowop_code FLOWOP_THINK = 7"
| "flowop_code FLOWOP_SEND = 8"
| "flowop_code FLOWOP_RECV = 9"
| "flowop_code FLOWOP_SENDFILEV = 10"
| "flowop_code FLOWOP_SENDFILE = 11"
| "flowop_code (FLOWOP_INVALID n) = n"

definition flowop_of_code :: "u32 \<Rightarrow> flowop_type" where
  "flowop_of_code n =
     (if n = 0 then FLOWOP_ERROR else if n = 1 then FLOWOP_READ
      else if n = 2 then FLOWOP_WRITE else if n = 3 then FLOWOP_CONNECT
      else if n = 4 then FLOWOP_DISCONNECT else if n = 5 then FLOWOP_ACCEPT
      else if n = 6 then FLOWOP_NOP else if n = 7 then FLOWOP_THINK
      else if n = 8 then FLOWOP_SEND else if n = 9 then FLOWOP_RECV
      else if n = 10 then FLOWOP_SENDFILEV else if n = 11 then FLOWOP_SENDFILE
      else FLOWOP_INVALID n)"

definition flowop_type_ok :: "flowop_type \<Rightarrow> bool" where
  "flowop_type_ok t = (case t of FLOWOP_INVALID n \<Rightarrow> \<not> n \<le> 11 | _ \<Rightarrow> True)"

lemma flowop_code_of_code [simp]: "flowop_code (flowop_of_code n) = n"
  by (auto simp: flowop_of_code_def)

lemma flowop_of_code_code [simp]: "flowop_type_ok t \<Longrightarrow> flowop_of_code (flowop_code t) = t"
  by (cases t) (auto simp: flowop_of_code_def flowop_type_ok_def)

section \<open>The tables\<close>

definition flowops :: "(string \<times> flowop_type) list" where
  "flowops =
     [(''error'', FLOWOP_ERROR), (''Read'', FLOWOP_READ), (''Write'', FLOWOP_WRITE),
      (''Connect'', FLOWOP_CONNECT), (''Disconnect'', FLOWOP_DISCONNECT),
      (''Accept'', FLOWOP_ACCEPT), (''Nop'', FLOWOP_NOP), (''Think'', FLOWOP_THINK),
      (''send'', FLOWOP_SEND), (''recv'', FLOWOP_RECV),
      (''sendfile'', FLOWOP_SENDFILE), (''sendfilev'', FLOWOP_SENDFILEV)]"

definition opp_flowopsp :: "(flowop_type \<times> flowop_type) list" where
  "opp_flowopsp =
     [(FLOWOP_READ, FLOWOP_WRITE), (FLOWOP_SEND, FLOWOP_RECV),
      (FLOWOP_ACCEPT, FLOWOP_CONNECT), (FLOWOP_SENDFILE, FLOWOP_READ),
      (FLOWOP_SENDFILEV, FLOWOP_READ)]"

fun opposite_in :: "(flowop_type \<times> flowop_type) list \<Rightarrow> flowop_type \<Rightarrow> flowop_type" where
  \<comment> \<open>the loop of \<open>flowop_opposite\<close>: a row is tried from the left, then from the right\<close>
  "opposite_in [] t = t"
| "opposite_in ((a, b) # rows) t =
     (if t = a then b else if t = b then a else opposite_in rows t)"

definition flowop_opposite :: "flowop_type \<Rightarrow> flowop_type" where
  "flowop_opposite t = opposite_in opp_flowopsp t"

definition flowop_type_of_name :: "string \<Rightarrow> flowop_type" where
  \<comment> \<open>\<open>flowop_type(char *)\<close>\<close>
  "flowop_type_of_name s =
     (case find (\<lambda>(n, t). strcaseeq s n) flowops of
        None \<Rightarrow> FLOWOP_ERROR | Some (n, t) \<Rightarrow> t)"

lemmas flowop_opposite_eval = flowop_opposite_def opp_flowopsp_def

lemma flowop_opposite_simps [simp]:
  "flowop_opposite FLOWOP_ERROR = FLOWOP_ERROR"
  "flowop_opposite FLOWOP_READ = FLOWOP_WRITE"
  "flowop_opposite FLOWOP_WRITE = FLOWOP_READ"
  "flowop_opposite FLOWOP_CONNECT = FLOWOP_ACCEPT"
  "flowop_opposite FLOWOP_ACCEPT = FLOWOP_CONNECT"
  "flowop_opposite FLOWOP_DISCONNECT = FLOWOP_DISCONNECT"
  "flowop_opposite FLOWOP_NOP = FLOWOP_NOP"
  "flowop_opposite FLOWOP_THINK = FLOWOP_THINK"
  "flowop_opposite FLOWOP_SEND = FLOWOP_RECV"
  "flowop_opposite FLOWOP_RECV = FLOWOP_SEND"
  "flowop_opposite FLOWOP_SENDFILE = FLOWOP_READ"
  "flowop_opposite FLOWOP_SENDFILEV = FLOWOP_READ"
  "flowop_opposite (FLOWOP_INVALID n) = FLOWOP_INVALID n"
  by (simp_all add: flowop_opposite_eval)

lemma flowop_opposite_ok: "flowop_type_ok t \<Longrightarrow> flowop_type_ok (flowop_opposite t)"
  by (cases t) (simp_all add: flowop_type_ok_def)

section \<open>Which routine executes a flowop\<close>

datatype execute_func =
    Flowop_unknown | Flowop_rw | Flowop_connect | Flowop_disconnect | Flowop_accept
  | Flowop_nop | Flowop_think | Flowop_sendfilev

fun flowop_get_execute_func :: "flowop_type \<Rightarrow> execute_func" where
  "flowop_get_execute_func FLOWOP_WRITE = Flowop_rw"
| "flowop_get_execute_func FLOWOP_READ = Flowop_rw"
| "flowop_get_execute_func FLOWOP_SEND = Flowop_rw"
| "flowop_get_execute_func FLOWOP_RECV = Flowop_rw"
| "flowop_get_execute_func FLOWOP_CONNECT = Flowop_connect"
| "flowop_get_execute_func FLOWOP_DISCONNECT = Flowop_disconnect"
| "flowop_get_execute_func FLOWOP_ACCEPT = Flowop_accept"
| "flowop_get_execute_func FLOWOP_NOP = Flowop_nop"
| "flowop_get_execute_func FLOWOP_THINK = Flowop_think"
| "flowop_get_execute_func FLOWOP_SENDFILEV = Flowop_sendfilev"
| "flowop_get_execute_func FLOWOP_SENDFILE = Flowop_sendfilev"
| "flowop_get_execute_func _ = Flowop_unknown"

section \<open>Properties\<close>

text \<open>
  Taking the opposite twice gives the flowop back for every type but the two sendfile
  types, whose opposite is a plain read: the slave's side of a transfer is the mirror of the
  master's.
\<close>

lemma flowop_opposite_involution:
  "flowop_opposite (flowop_opposite t) =
     (if t = FLOWOP_SENDFILE \<or> t = FLOWOP_SENDFILEV then FLOWOP_WRITE else t)"
  by (cases t) simp_all

end
