(* ===== verification/Protocols.thy ===== *)
theory Protocols
  imports Prelude
begin

text \<open>
  The protocol registry (\<open>src/protocol.c\<close>, \<open>src/protocol.h\<close>): the table of compiled-in
  protocols, its lookups by name and by type, the dispatch to a protocol's constructor and
  destructor, and the constructors themselves (\<open>protocol_tcp_create\<close> of \<open>src/tcp.c\<close> and its
  siblings), which fix what a fresh \<open>protocol_t\<close> looks like before any system call.

  Which protocols are compiled in is decided by the build; it is the parameter
  \<open>build_config\<close>.
\<close>

section \<open>Types\<close>

definition PROTOCOL_TCP :: u32 where "PROTOCOL_TCP = 1"
definition PROTOCOL_UDAPL :: u32 where "PROTOCOL_UDAPL = 2"
definition PROTOCOL_UDP :: u32 where "PROTOCOL_UDP = 3"
definition PROTOCOL_RDS :: u32 where "PROTOCOL_RDS = 4"
definition PROTOCOL_SSL :: u32 where "PROTOCOL_SSL = 5"
definition PROTOCOL_SCTP :: u32 where "PROTOCOL_SCTP = 6"
definition PROTOCOL_VSOCK :: u32 where "PROTOCOL_VSOCK = 7"
definition PROTOCOL_UNSUPPORTED :: u32 where "PROTOCOL_UNSUPPORTED = 8"

definition NUM_PROTOCOLS :: nat where "NUM_PROTOCOLS = 8"

lemmas proto_consts = PROTOCOL_TCP_def PROTOCOL_UDAPL_def PROTOCOL_UDP_def PROTOCOL_RDS_def
  PROTOCOL_SSL_def PROTOCOL_SCTP_def PROTOCOL_VSOCK_def PROTOCOL_UNSUPPORTED_def

text \<open>
  A \<open>protocol_t\<close>: its plain fields, and whether its \<open>send\<close> and \<open>recv\<close> operations are set
  (only TCP sets them; the other constructors leave them null).
\<close>

record protocol =
  p_type :: u32
  p_port :: int
  p_conn :: int
  p_fd :: int
  p_host :: string
  p_sendrecv :: bool

datatype destroy_func = Generic_fini | Udp_fini | Rds_fini | Ssl_fini

record proto_row =
  pr_name :: string
  pr_type :: u32
  pr_init :: bool   \<comment> \<open>has an \<open>init\<close> function (only ssl)\<close>
  pr_destroy :: destroy_func

record build_config =
  have_rds :: bool
  have_sctp :: bool
  have_ssl :: bool
  have_vsock :: bool

definition plist :: "build_config \<Rightarrow> proto_row list" where
  "plist cfg =
     [\<lparr>pr_name = ''tcp'', pr_type = PROTOCOL_TCP, pr_init = False, pr_destroy = Generic_fini\<rparr>,
      \<lparr>pr_name = ''udp'', pr_type = PROTOCOL_UDP, pr_init = False, pr_destroy = Udp_fini\<rparr>] @
     (if have_rds cfg then
      [\<lparr>pr_name = ''rds'', pr_type = PROTOCOL_RDS, pr_init = False, pr_destroy = Rds_fini\<rparr>] else []) @
     (if have_sctp cfg then
      [\<lparr>pr_name = ''sctp'', pr_type = PROTOCOL_SCTP, pr_init = False, pr_destroy = Generic_fini\<rparr>] else []) @
     (if have_ssl cfg then
      [\<lparr>pr_name = ''ssl'', pr_type = PROTOCOL_SSL, pr_init = True, pr_destroy = Ssl_fini\<rparr>] else []) @
     (if have_vsock cfg then
      [\<lparr>pr_name = ''vsock'', pr_type = PROTOCOL_VSOCK, pr_init = False, pr_destroy = Generic_fini\<rparr>] else [])"

section \<open>Lookups\<close>

definition find_protocol_by_name :: "build_config \<Rightarrow> string \<Rightarrow> proto_row option" where
  "find_protocol_by_name cfg name = find (\<lambda>r. strcaseeq name (pr_name r)) (plist cfg)"

definition find_protocol_by_type :: "build_config \<Rightarrow> u32 \<Rightarrow> proto_row option" where
  "find_protocol_by_type cfg t = find (\<lambda>r. t = pr_type r) (plist cfg)"

definition protocol_type :: "build_config \<Rightarrow> string \<Rightarrow> u32" where
  "protocol_type cfg s =
     (case find_protocol_by_name cfg s of Some r \<Rightarrow> pr_type r | None \<Rightarrow> PROTOCOL_UNSUPPORTED)"

definition valid_protocol :: "build_config \<Rightarrow> u32 \<Rightarrow> int" where
  "valid_protocol cfg t = (case find_protocol_by_type cfg t of Some r \<Rightarrow> 1 | None \<Rightarrow> - 1)"

definition protocol_to_str :: "u32 \<Rightarrow> string" where
  "protocol_to_str t =
     (if t = PROTOCOL_TCP then ''TCP'' else if t = PROTOCOL_UDAPL then ''uDAPL''
      else if t = PROTOCOL_UDP then ''UDP'' else if t = PROTOCOL_SSL then ''SSL''
      else if t = PROTOCOL_SCTP then ''SCTP'' else if t = PROTOCOL_VSOCK then ''VSOCK''
      else ''Unknown'')"

fun protocol_init_rows :: "(u32 \<Rightarrow> int) \<Rightarrow> proto_row list \<Rightarrow> int" where
  "protocol_init_rows init [] = UPERF_SUCCESS"
| "protocol_init_rows init (r # rs) =
     (if pr_init r \<and> init (pr_type r) = UPERF_FAILURE then UPERF_FAILURE
      else protocol_init_rows init rs)"

definition protocol_init :: "build_config \<Rightarrow> (u32 \<Rightarrow> int) \<Rightarrow> int" where
  \<comment> \<open>\<open>init\<close>: what the row's \<open>init\<close> function (\<open>ssl_init\<close>, over OpenSSL) returns\<close>
  "protocol_init cfg init = protocol_init_rows init (plist cfg)"

section \<open>Constructors\<close>

definition protocol_tcp_create :: "string \<Rightarrow> int \<Rightarrow> protocol" where
  "protocol_tcp_create host port =
     \<lparr>p_type = PROTOCOL_TCP, p_port = port, p_conn = 0, p_fd = - 1,
      p_host = (if host = [] then ''localhost'' else strlcpy MAXHOSTNAME host),
      p_sendrecv = True\<rparr>"

definition protocol_udp_create :: "string \<Rightarrow> int \<Rightarrow> protocol" where
  \<comment> \<open>host and port go to the private data; the common fields keep \<open>calloc\<close>'s zeros\<close>
  "protocol_udp_create host port =
     \<lparr>p_type = PROTOCOL_UDP, p_port = 0, p_conn = 0, p_fd = 0, p_host = [],
      p_sendrecv = False\<rparr>"

definition protocol_rds_create :: "string \<Rightarrow> int \<Rightarrow> protocol" where
  "protocol_rds_create host port =
     \<lparr>p_type = PROTOCOL_RDS, p_port = port, p_conn = 0, p_fd = 0,
      p_host = (if host = [] then ''localhost'' else strlcpy MAXHOSTNAME host),
      p_sendrecv = False\<rparr>"

definition protocol_sctp_create :: "string \<Rightarrow> int \<Rightarrow> protocol" where
  "protocol_sctp_create host port =
     \<lparr>p_type = PROTOCOL_SCTP, p_port = port, p_conn = 0, p_fd = - 1,
      p_host = (if host = [] then ''localhost'' else strlcpy MAXHOSTNAME host),
      p_sendrecv = False\<rparr>"

definition protocol_ssl_create :: "string \<Rightarrow> int \<Rightarrow> protocol" where
  "protocol_ssl_create host port =
     \<lparr>p_type = PROTOCOL_SSL, p_port = port, p_conn = 0, p_fd = 0,
      p_host = (if host = [] then ''lOcAlHoSt'' else strlcpy MAXHOSTNAME host),
      p_sendrecv = False\<rparr>"

definition protocol_vsock_create :: "string \<Rightarrow> int \<Rightarrow> protocol" where
  \<comment> \<open>\<open>VMADDR_CID_LOCAL\<close> is 1\<close>
  "protocol_vsock_create host port =
     \<lparr>p_type = PROTOCOL_VSOCK, p_port = port, p_conn = 0, p_fd = - 1,
      p_host = (if host = [] then ''1'' else strlcpy MAXHOSTNAME host),
      p_sendrecv = False\<rparr>"

definition protocol_row_create :: "proto_row \<Rightarrow> string \<Rightarrow> int \<Rightarrow> protocol" where
  \<comment> \<open>the \<open>create\<close> column of \<open>plist\<close>\<close>
  "protocol_row_create r =
     (if pr_type r = PROTOCOL_TCP then protocol_tcp_create
      else if pr_type r = PROTOCOL_UDP then protocol_udp_create
      else if pr_type r = PROTOCOL_RDS then protocol_rds_create
      else if pr_type r = PROTOCOL_SCTP then protocol_sctp_create
      else if pr_type r = PROTOCOL_SSL then protocol_ssl_create
      else protocol_vsock_create)"

definition create_protocol :: "build_config \<Rightarrow> u32 \<Rightarrow> string \<Rightarrow> int \<Rightarrow> c_stop + protocol" where
  "create_protocol cfg t host port =
     (case find_protocol_by_type cfg t of
        None \<Rightarrow> Inl Aborted
      | Some r \<Rightarrow> Inr (protocol_row_create r host port))"

definition destroy_protocol :: "build_config \<Rightarrow> u32 \<Rightarrow> c_stop + destroy_func" where
  \<comment> \<open>which destructor is called, if the assertions hold\<close>
  "destroy_protocol cfg t =
     (case find_protocol_by_type cfg t of
        None \<Rightarrow> Inl Aborted
      | Some r \<Rightarrow> if t > 0 then Inr (pr_destroy r) else Inl Aborted)"

section \<open>Properties of the registry\<close>

lemma plist_types: "r \<in> set (plist cfg) \<Longrightarrow>
    pr_type r \<in> {PROTOCOL_TCP, PROTOCOL_UDP, PROTOCOL_RDS, PROTOCOL_SCTP, PROTOCOL_SSL, PROTOCOL_VSOCK}"
  by (auto simp: plist_def split: if_splits)

lemma plist_type_index: "r \<in> set (plist cfg) \<Longrightarrow> 0 < unat (pr_type r) \<and> unat (pr_type r) < NUM_PROTOCOLS"
  by (auto simp: plist_def NUM_PROTOCOLS_def proto_consts split: if_splits)

lemma plist_distinct: "distinct (map pr_type (plist cfg))"
  by (simp add: plist_def proto_consts)

lemma find_by_type_row: "r \<in> set (plist cfg) \<Longrightarrow> find_protocol_by_type cfg (pr_type r) = Some r"
proof -
  assume r: "r \<in> set (plist cfg)"
  then have "find_protocol_by_type cfg (pr_type r) \<noteq> None"
    by (auto simp: find_protocol_by_type_def find_None)
  then obtain r' where f: "find_protocol_by_type cfg (pr_type r) = Some r'" by auto
  then have "r' \<in> set (plist cfg)" and "pr_type r' = pr_type r"
    by (auto simp: find_protocol_by_type_def dest: find_Some_in_set)
  with r have "r' = r"
    using plist_distinct [of cfg] by (auto simp: distinct_map inj_on_def)
  with f show ?thesis by simp
qed

lemma protocol_row_create_type: "r \<in> set (plist cfg) \<Longrightarrow> p_type (protocol_row_create r h p) = pr_type r"
  using plist_types [of r cfg]
  by (auto simp: protocol_row_create_def proto_consts protocol_tcp_create_def protocol_udp_create_def
      protocol_rds_create_def protocol_sctp_create_def protocol_ssl_create_def
      protocol_vsock_create_def)

lemma valid_protocol_iff: "valid_protocol cfg t = 1 \<longleftrightarrow> t \<in> pr_type ` set (plist cfg)"
proof (cases "find_protocol_by_type cfg t")
  case None
  then have "\<forall>r \<in> set (plist cfg). t \<noteq> pr_type r"
    by (simp add: find_protocol_by_type_def find_None)
  with None show ?thesis by (auto simp: valid_protocol_def)
next
  case (Some r)
  then have "r \<in> set (plist cfg) \<and> t = pr_type r"
    by (auto simp: find_protocol_by_type_def dest: find_Some_in_set)
  with Some show ?thesis by (auto simp: valid_protocol_def)
qed

text \<open>
  A protocol name the parser accepts can be used: its type has a row, so the slave's
  check of the handshake accepts it, the index into the per-protocol arrays is in range,
  \<open>create_protocol\<close> returns an object of that type without failing an assertion, and
  \<open>destroy_protocol\<close> finds its destructor.
\<close>

lemma protocol_name_usable:
  assumes "protocol_type cfg s \<noteq> PROTOCOL_UNSUPPORTED"
  shows "valid_protocol cfg (protocol_type cfg s) = 1
    \<and> 0 < unat (protocol_type cfg s) \<and> unat (protocol_type cfg s) < NUM_PROTOCOLS
    \<and> (\<exists>p. create_protocol cfg (protocol_type cfg s) h n = Inr p
           \<and> p_type p = protocol_type cfg s)
    \<and> (\<exists>d. destroy_protocol cfg (protocol_type cfg s) = Inr d)"
proof -
  from assms obtain r where n: "find_protocol_by_name cfg s = Some r"
      and t: "protocol_type cfg s = pr_type r"
    by (auto simp: protocol_type_def split: option.splits)
  then have r: "r \<in> set (plist cfg)"
    by (auto simp: find_protocol_by_name_def dest: find_Some_in_set)
  then have "0 < unat (pr_type r) \<and> unat (pr_type r) < NUM_PROTOCOLS"
    by (rule plist_type_index)
  then show ?thesis
    using r by (auto simp: t valid_protocol_iff create_protocol_def destroy_protocol_def
        find_by_type_row protocol_row_create_type word_less_nat_alt)
qed

lemma protocol_name_usable_witness:
  "protocol_type \<lparr>have_rds = False, have_sctp = True, have_ssl = False, have_vsock = False\<rparr> ''SCTP''
     = PROTOCOL_SCTP \<and>
   valid_protocol \<lparr>have_rds = False, have_sctp = True, have_ssl = False, have_vsock = False\<rparr>
     PROTOCOL_SCTP = 1"
proof -
  let ?c = "\<lparr>have_rds = False, have_sctp = True, have_ssl = False, have_vsock = False\<rparr>"
  have t: "protocol_type ?c ''SCTP'' = PROTOCOL_SCTP"
    by code_simp
  then have "protocol_type ?c ''SCTP'' \<noteq> PROTOCOL_UNSUPPORTED" by (simp add: proto_consts)
  from protocol_name_usable [OF this, of "[]" 0] t show ?thesis by simp
qed

end
