(* ===== verification/Workorder.thy ===== *)
theory Workorder
  imports Bytes Flowops Protocols
begin

text \<open>
  The work order (\<open>src/workorder.h\<close>, \<open>src/workorder.c\<close>): groups of strands, their
  transactions and flowops as records with the fields of the C structs, and the pure
  operations on them: sizes and counts, the slave's mirror of a group
  (\<open>group_opposite\<close>), its byte-order repair (\<open>group_bitswap\<close>).

  The linked lists \<open>tlist\<close> and \<open>flist\<close> are lists; the counters \<open>ntxn\<close> and \<open>nflowop\<close> are
  fields of their own, as in C, and \<open>group_counts\<close> says when they agree with the lists. A
  statistics pointer is an index into the shared array, a connection pointer the number of
  the connection.
\<close>

section \<open>The structs\<close>

record flowop_options =
  fo_size :: u32  fo_rand_sz_min :: u32  fo_rand_sz_max :: u32  fo_rsize :: u32
  fo_protocol :: u32  fo_port :: u32  fo_flag :: u32  fo_nfiles :: u32
  fo_duration :: u64  fo_wndsz :: u64  fo_count :: u64  fo_repeat :: u64
  fo_batch_size :: u64  fo_poll_timeout :: u64
  fo_encaps_port :: u32  fo_bblog :: u32
  fo_sctp_rto_min :: u32  fo_sctp_rto_max :: u32  fo_sctp_rto_initial :: u32
  fo_sctp_sack_delay :: u32  fo_sctp_sack_frequency :: u32
  fo_sctp_max_burst_size :: u32  fo_sctp_max_fragment_size :: u32
  fo_sctp_hb_interval :: u32  fo_sctp_path_mtu :: u32
  fo_sctp_out_streams :: u16  fo_sctp_in_streams :: u16
  fo_sctp_stream_id :: u16  fo_sctp_padding :: u16
  fo_sctp_pr_value :: u32  fo_sctp_pr_policy :: string
  fo_cc :: string  fo_stack :: string  fo_dir :: string
  fo_remotehost :: string  fo_localhost :: string
  fo_engine :: string  fo_cipher :: string  fo_method :: string  fo_padding :: string

record flowop =
  f_options :: flowop_options
  f_type :: flowop_type
  f_p_id :: u32
  f_statid1 :: u32
  f_errors :: u32
  f_execute :: "execute_func option"
  f_stats :: "nat option"
  f_connection :: "nat option"
  f_id :: u32
  f_name :: string

record txn =
  t_nflowop :: u32
  t_txnid :: u32
  t_statid1 :: u32
  t_unused :: u32
  t_rate_count :: u32
  t_dummy :: u32
  t_iter :: u64
  t_duration :: u64
  t_rate_str :: string
  t_flist :: "flowop list"
  t_stats :: "nat option"
  t_name :: string

record group =
  g_endian :: u32
  g_strand_flag :: u32
  g_nthreads :: u32
  g_ntxn :: u32
  g_max_async :: u32
  g_groupid :: u32
  g_tlist :: "txn list"
  g_control :: "protocol list"
  g_protocols :: "int list"
  g_stats :: "nat option"
  g_statid1 :: u32
  g_name :: string

record workorder =
  w_name :: string
  w_grp :: "group list"

definition UPERF_ENDIAN_VALUE :: u32 where "UPERF_ENDIAN_VALUE = 0xBADC"
definition UPERF_SLAVE_READ_SIZE :: u32 where "UPERF_SLAVE_READ_SIZE = 64 * 1024"

definition O_TCP_NODELAY :: u32 where "O_TCP_NODELAY = 2"
definition O_CANFAIL :: u32 where "O_CANFAIL = 4"
definition O_NONBLOCKING :: u32 where "O_NONBLOCKING = 8"
definition O_THINK_IDLE :: u32 where "O_THINK_IDLE = 16"
definition O_THINK_BUSY :: u32 where "O_THINK_BUSY = 32"
definition O_SIZE_RAND :: u32 where "O_SIZE_RAND = 64"
definition O_SCTP_UNORDERED :: u32 where "O_SCTP_UNORDERED = 128"
definition O_SCTP_NODELAY :: u32 where "O_SCTP_NODELAY = 256"

definition fo_is :: "u32 \<Rightarrow> flowop_options \<Rightarrow> bool" where
  \<comment> \<open>the \<open>FO_...\<close> macros\<close>
  "fo_is flag fo = (fo_flag fo AND flag \<noteq> 0)"

definition STRAND_TYPE_PROCESS :: u32 where "STRAND_TYPE_PROCESS = 2"
definition STRAND_TYPE_THREAD :: u32 where "STRAND_TYPE_THREAD = 4"

text \<open>What \<open>calloc\<close> and \<open>bzero\<close> leave in a struct.\<close>

definition zero_options :: flowop_options where
  "zero_options = \<lparr>
     fo_size = 0, fo_rand_sz_min = 0, fo_rand_sz_max = 0, fo_rsize = 0,
     fo_protocol = 0, fo_port = 0, fo_flag = 0, fo_nfiles = 0,
     fo_duration = 0, fo_wndsz = 0, fo_count = 0, fo_repeat = 0,
     fo_batch_size = 0, fo_poll_timeout = 0,
     fo_encaps_port = 0, fo_bblog = 0,
     fo_sctp_rto_min = 0, fo_sctp_rto_max = 0, fo_sctp_rto_initial = 0,
     fo_sctp_sack_delay = 0, fo_sctp_sack_frequency = 0,
     fo_sctp_max_burst_size = 0, fo_sctp_max_fragment_size = 0,
     fo_sctp_hb_interval = 0, fo_sctp_path_mtu = 0,
     fo_sctp_out_streams = 0, fo_sctp_in_streams = 0,
     fo_sctp_stream_id = 0, fo_sctp_padding = 0,
     fo_sctp_pr_value = 0, fo_sctp_pr_policy = [],
     fo_cc = [], fo_stack = [], fo_dir = [],
     fo_remotehost = [], fo_localhost = [],
     fo_engine = [], fo_cipher = [], fo_method = [], fo_padding = []\<rparr>"

definition zero_flowop :: flowop where
  "zero_flowop = \<lparr>f_options = zero_options, f_type = FLOWOP_ERROR, f_p_id = 0, f_statid1 = 0,
     f_errors = 0, f_execute = None, f_stats = None, f_connection = None, f_id = 0, f_name = []\<rparr>"

definition zero_txn :: txn where
  "zero_txn = \<lparr>t_nflowop = 0, t_txnid = 0, t_statid1 = 0, t_unused = 0, t_rate_count = 0,
     t_dummy = 0, t_iter = 0, t_duration = 0, t_rate_str = [], t_flist = [], t_stats = None,
     t_name = []\<rparr>"

definition zero_group :: group where
  "zero_group = \<lparr>g_endian = 0, g_strand_flag = 0, g_nthreads = 0, g_ntxn = 0, g_max_async = 0,
     g_groupid = 0, g_tlist = [], g_control = [], g_protocols = replicate NUM_PROTOCOLS 0,
     g_stats = None, g_statid1 = 0, g_name = []\<rparr>"

definition txn_counts :: "txn \<Rightarrow> bool" where
  "txn_counts t = (length (t_flist t) < 2 ^ 32 \<and> t_nflowop t = of_nat (length (t_flist t)))"

definition group_counts :: "group \<Rightarrow> bool" where
  "group_counts g = (length (g_tlist g) < 2 ^ 32 \<and> g_ntxn g = of_nat (length (g_tlist g)) \<and>
     list_all txn_counts (g_tlist g))"

section \<open>Counts and sizes\<close>

definition workorder_num_strands :: "workorder \<Rightarrow> int" where
  "workorder_num_strands w =
     fold (\<lambda>g count. wrap32 (count + uint (g_nthreads g))) (w_grp w) 0"

definition group_num_stats :: "group \<Rightarrow> int" where
  "group_num_stats g =
     fold (\<lambda>t count. wrap32 (count + 1 + uint (t_nflowop t))) (g_tlist g) 1"

definition workorder_num_stats :: "workorder \<Rightarrow> int" where
  "workorder_num_stats w =
     fold (\<lambda>g count. wrap32 (count + group_num_stats g)) (w_grp w) 0"

definition workorder_num_strands_bytype :: "workorder \<Rightarrow> u32 \<Rightarrow> int" where
  "workorder_num_strands_bytype w type =
     fold (\<lambda>g count. if g_strand_flag g AND type \<noteq> 0
                     then wrap32 (count + uint (g_nthreads g)) else count) (w_grp w) 0"

definition workorder_max_txn :: "workorder \<Rightarrow> int" where
  \<comment> \<open>\<open>MAX(no, ntxn)\<close> compares as unsigned: \<open>no\<close> is kept as the bits of the \<open>int\<close>\<close>
  "workorder_max_txn w =
     sint (fold (\<lambda>g no. if no > g_ntxn g then no else g_ntxn g) (w_grp w) (0 :: u32))"

fun open_connections_step :: "txn \<Rightarrow> flowop \<Rightarrow> int \<Rightarrow> int" where
  "open_connections_step t f local_count =
     (if f_type f = FLOWOP_CONNECT \<or> f_type f = FLOWOP_ACCEPT
      then wrap32 (local_count + uint (t_iter t))
      else if f_type f = FLOWOP_DISCONNECT then wrap32 (local_count - uint (t_iter t))
      else local_count)"

definition group_max_open_connections :: "group \<Rightarrow> int" where
  "group_max_open_connections g =
     fold (\<lambda>t count. max count (fold (open_connections_step t) (t_flist t) 1)) (g_tlist g) 0"

definition workorder_num_connections :: "workorder \<Rightarrow> int" where
  "workorder_num_connections w =
     fold (\<lambda>g count. wrap32 (count + uint (g_nthreads g) * group_max_open_connections g))
       (w_grp w) 0"

definition group_max_dto_size :: "group \<Rightarrow> u32" where
  \<comment> \<open>the comparison with the \<open>int\<close> count is unsigned: the result is its bits\<close>
  "group_max_dto_size g =
     fold (\<lambda>t count. fold (\<lambda>f count. if fo_size (f_options f) > count
                                      then fo_size (f_options f) else count) (t_flist t) count)
       (g_tlist g) (of_nat DEFAULT_BUFFER_SIZE)"

section \<open>The slave's side of a group\<close>

fun optimize_flowop :: "flowop \<Rightarrow> int \<Rightarrow> flowop \<times> int" where
  \<comment> \<open>one turn of the loop of \<open>optimize_txn_for_slave\<close>\<close>
  "optimize_flowop f optimized =
     (let o' = f_options f in
      if fo_rsize o' > fo_size o' then
        (if fo_count o' > 1 then
           (f\<lparr>f_options := o'\<lparr>
              fo_count := (ucast (fo_size o') * fo_count o') div ucast (fo_rsize o'),
              fo_size := fo_rsize o'\<rparr>\<rparr>, optimized)
         else (f\<lparr>f_options := o'\<lparr>fo_size := fo_rsize o'\<rparr>\<rparr>, sint (fo_size o' div fo_rsize o')))
      else (f, optimized))"

fun optimize_flowops :: "flowop list \<Rightarrow> int \<Rightarrow> flowop list \<times> int" where
  "optimize_flowops [] optimized = ([], optimized)"
| "optimize_flowops (f # fs) optimized =
     (let (f', opt') = optimize_flowop f optimized; (fs', opt'') = optimize_flowops fs opt'
      in (f' # fs', opt''))"

definition optimize_txn_for_slave :: "txn \<Rightarrow> txn" where
  "optimize_txn_for_slave t =
     (let (fs, optimized) = optimize_flowops (t_flist t) 0; t' = t\<lparr>t_flist := fs\<rparr> in
      if optimized = 0 \<or> t_duration t > 0 then t'
      else t'\<lparr>t_iter := t_iter t div to_u64 optimized\<rparr>)"

definition option_oposite :: "flowop_options \<Rightarrow> flowop_options" where
  "option_oposite fo = fo\<lparr>fo_sctp_in_streams := fo_sctp_out_streams fo,
                          fo_sctp_out_streams := fo_sctp_in_streams fo\<rparr>"

definition flowop_opp :: "flowop \<Rightarrow> flowop" where
  \<comment> \<open>the body of \<open>group_opposite\<close>'s inner loop\<close>
  "flowop_opp f =
     (let f1 = (if f_type f = FLOWOP_SENDFILEV \<or> f_type f = FLOWOP_SENDFILE
                then f\<lparr>f_options := (f_options f)\<lparr>fo_size := UPERF_SLAVE_READ_SIZE\<rparr>\<rparr> else f)
      in f1\<lparr>f_type := flowop_opposite (f_type f1), f_options := option_oposite (f_options f1)\<rparr>)"

definition group_opposite :: "group \<Rightarrow> group" where
  "group_opposite g =
     g\<lparr>g_tlist := map (\<lambda>t. optimize_txn_for_slave (t\<lparr>t_flist := map flowop_opp (t_flist t)\<rparr>))
                      (g_tlist g)\<rparr>"

section \<open>Byte-order repair\<close>

definition options_bitswap :: "flowop_options \<Rightarrow> flowop_options" where
  "options_bitswap fo = fo\<lparr>
     fo_size := BSWAP_32 (fo_size fo),
     fo_rand_sz_min := BSWAP_32 (fo_rand_sz_min fo),
     fo_rand_sz_max := BSWAP_32 (fo_rand_sz_max fo),
     fo_rsize := BSWAP_32 (fo_rsize fo),
     fo_protocol := BSWAP_32 (fo_protocol fo),
     fo_port := BSWAP_32 (fo_port fo),
     fo_flag := BSWAP_32 (fo_flag fo),
     fo_nfiles := BSWAP_32 (fo_nfiles fo),
     fo_duration := BSWAP_64 (fo_duration fo),
     fo_wndsz := BSWAP_64 (fo_wndsz fo),
     fo_count := BSWAP_64 (fo_count fo),
     fo_repeat := BSWAP_64 (fo_repeat fo),
     fo_batch_size := BSWAP_64 (fo_batch_size fo),
     fo_poll_timeout := BSWAP_64 (fo_poll_timeout fo),
     fo_encaps_port := BSWAP_32 (fo_encaps_port fo),
     fo_sctp_rto_min := BSWAP_32 (fo_sctp_rto_min fo),
     fo_sctp_rto_max := BSWAP_32 (fo_sctp_rto_max fo),
     fo_sctp_rto_initial := BSWAP_32 (fo_sctp_rto_initial fo),
     fo_sctp_sack_delay := BSWAP_32 (fo_sctp_sack_delay fo),
     fo_sctp_sack_frequency := BSWAP_32 (fo_sctp_sack_frequency fo),
     fo_sctp_max_burst_size := BSWAP_32 (fo_sctp_max_burst_size fo),
     fo_sctp_max_fragment_size := BSWAP_32 (fo_sctp_max_fragment_size fo),
     fo_sctp_hb_interval := BSWAP_32 (fo_sctp_hb_interval fo),
     fo_sctp_path_mtu := BSWAP_32 (fo_sctp_path_mtu fo),
     fo_sctp_out_streams := BSWAP_16 (fo_sctp_out_streams fo),
     fo_sctp_in_streams := BSWAP_16 (fo_sctp_in_streams fo),
     fo_sctp_stream_id := BSWAP_16 (fo_sctp_stream_id fo),
     fo_sctp_padding := BSWAP_16 (fo_sctp_padding fo),
     fo_sctp_pr_value := BSWAP_32 (fo_sctp_pr_value fo)\<rparr>"

definition txn_bitswap :: "txn \<Rightarrow> txn" where
  "txn_bitswap t = t\<lparr>
     t_iter := BSWAP_64 (t_iter t),
     t_txnid := BSWAP_32 (t_txnid t),
     t_duration := BSWAP_64 (t_duration t),
     t_rate_count := BSWAP_32 (t_rate_count t),
     t_flist := map (\<lambda>f. f\<lparr>f_options := options_bitswap (f_options f)\<rparr>) (t_flist t)\<rparr>"

definition group_bitswap :: "group \<Rightarrow> group" where
  "group_bitswap g = g\<lparr>
     g_nthreads := BSWAP_32 (g_nthreads g),
     g_max_async := BSWAP_32 (g_max_async g),
     g_tlist := map txn_bitswap (g_tlist g)\<rparr>"

section \<open>Lemmas on the slave's side\<close>

lemma word_div_small: "x < y \<Longrightarrow> x div y = 0" for x y :: "'a::len word"
  by (simp add: word_less_nat_alt word_arith_nat_div)

lemma optimize_flowop_dead:
  "snd (optimize_flowop f n) =
     (if fo_rsize (f_options f) > fo_size (f_options f) \<and> \<not> fo_count (f_options f) > 1 then 0 else n)"
  by (simp add: Let_def word_div_small)

lemma optimize_flowops_dead: "snd (optimize_flowops fs 0) = 0"
proof (induction fs)
  case (Cons f fs)
  have "snd (optimize_flowop f 0) = 0" by (simp only: optimize_flowop_dead) simp
  with Cons show ?case by (simp add: case_prod_beta del: optimize_flowop.simps)
qed simp

lemma optimize_flowops_map:
  "fst (optimize_flowops fs 0) = map (\<lambda>f. fst (optimize_flowop f 0)) fs"
proof (induction fs)
  case (Cons f fs)
  have "snd (optimize_flowop f 0) = 0" by (simp only: optimize_flowop_dead) simp
  with Cons show ?case by (simp add: case_prod_beta del: optimize_flowop.simps)
qed simp

lemma optimize_txn_eq:
  "optimize_txn_for_slave t = t\<lparr>t_flist := map (\<lambda>f. fst (optimize_flowop f 0)) (t_flist t)\<rparr>"
  by (simp add: optimize_txn_for_slave_def case_prod_beta optimize_flowops_dead optimize_flowops_map)

lemma group_opposite_eq:
  "group_opposite g = g\<lparr>g_tlist := map (\<lambda>t. t\<lparr>t_flist :=
     map (\<lambda>f. fst (optimize_flowop (flowop_opp f) 0)) (t_flist t)\<rparr>) (g_tlist g)\<rparr>"
  by (simp add: group_opposite_def optimize_txn_eq comp_def)

lemma group_opposite_counts: "group_counts (group_opposite g) = group_counts g"
  by (simp add: group_counts_def group_opposite_eq list_all_iff txn_counts_def)

text \<open>
  The slave runs every transaction as many times as the master: whatever sizes the
  optimisation rewrites, it never divides the iteration count, because the quotient it would
  divide by is the smaller of two sizes over the larger, which is 0.
\<close>

lemma slave_iterations_unchanged:
  "map t_iter (g_tlist (group_opposite g)) = map t_iter (g_tlist g)"
  by (simp add: group_opposite_eq)

text \<open>No size is rewritten for a flowop whose slave size is not larger than its size.\<close>

lemma optimize_flowop_id: "\<not> fo_rsize (f_options f) > fo_size (f_options f) \<Longrightarrow> optimize_flowop f n = (f, n)"
  by simp

definition mirrorable :: "flowop \<Rightarrow> bool" where
  "mirrorable f = (f_type f \<noteq> FLOWOP_SENDFILE \<and> f_type f \<noteq> FLOWOP_SENDFILEV \<and>
     fo_rsize (f_options f) \<le> fo_size (f_options f))"

lemma flowop_opp_opp: "mirrorable f \<Longrightarrow> flowop_opp (flowop_opp f) = f"
  by (cases "f_type f") (simp_all add: mirrorable_def flowop_opp_def option_oposite_def)

lemma flowop_opp_mirrorable: "mirrorable f \<Longrightarrow> mirrorable (flowop_opp f)"
  by (cases "f_type f") (simp_all add: mirrorable_def flowop_opp_def option_oposite_def)

lemma optimize_mirrorable: "mirrorable f \<Longrightarrow> fst (optimize_flowop f n) = f"
  by (auto simp: mirrorable_def Let_def not_less)

text \<open>
  C19. Mirroring a group twice gives the group back when it has no sendfile flowop and no
  slave size above the size: the slave's view of the slave's view is the master's work.
\<close>

theorem group_opposite_mirror:
  assumes "\<forall>t \<in> set (g_tlist g). \<forall>f \<in> set (t_flist t). mirrorable f"
  shows "group_opposite (group_opposite g) = g"
proof -
  have "map (\<lambda>f. fst (optimize_flowop (flowop_opp (fst (optimize_flowop (flowop_opp f) 0))) 0)) (t_flist t)
      = t_flist t" if "t \<in> set (g_tlist g)" for t
    using assms that
    by (intro map_idI) (auto simp: optimize_mirrorable flowop_opp_mirrorable flowop_opp_opp
        simp del: optimize_flowop.simps)
  then have "map (\<lambda>t. t\<lparr>t_flist := map (\<lambda>f. fst (optimize_flowop (flowop_opp (fst (optimize_flowop (flowop_opp f) 0))) 0))
      (t_flist t)\<rparr>) (g_tlist g) = g_tlist g"
    by (intro map_idI) simp
  then show ?thesis by (simp add: group_opposite_eq comp_def del: optimize_flowop.simps)
qed

lemma group_opposite_mirror_witness:
  "let f = zero_flowop\<lparr>f_type := FLOWOP_WRITE\<rparr>;
       g = zero_group\<lparr>g_tlist := [zero_txn\<lparr>t_flist := [f]\<rparr>]\<rparr>
   in group_opposite g \<noteq> g \<and> group_opposite (group_opposite g) = g"
proof -
  let ?f = "zero_flowop\<lparr>f_type := FLOWOP_WRITE\<rparr>"
  let ?g = "zero_group\<lparr>g_tlist := [zero_txn\<lparr>t_flist := [?f]\<rparr>]\<rparr>"
  have "group_opposite (group_opposite ?g) = ?g"
    by (rule group_opposite_mirror) (simp add: mirrorable_def zero_flowop_def zero_options_def)
  moreover have "group_opposite ?g \<noteq> ?g"
  proof
    assume "group_opposite ?g = ?g"
    then have "map (\<lambda>t. map f_type (t_flist t)) (g_tlist (group_opposite ?g)) = [[FLOWOP_WRITE]]"
      by simp
    then show False
      by (simp add: group_opposite_eq Let_def flowop_opp_def option_oposite_def zero_flowop_def
          zero_options_def)
  qed
  ultimately show ?thesis by (simp add: Let_def)
qed

lemma unat_ucast_32_64: "unat (ucast (x::u32) :: u64) = unat x"
  by transfer (simp add: take_bit_take_bit)

text \<open>
  Where the slave reads in larger pieces, it asks for no more bytes than the master
  sends, and for less than one piece less.
\<close>

lemma slave_reads_no_more:
  assumes "fo_rsize (f_options f) > fo_size (f_options f)" and "fo_count (f_options f) > 1"
    and "unat (fo_size (f_options f)) * unat (fo_count (f_options f)) < 2 ^ 64"
  shows "let o' = f_options (fst (optimize_flowop f 0)) in
    fo_size o' = fo_rsize (f_options f) \<and>
    unat (fo_size o') * unat (fo_count o') \<le> unat (fo_size (f_options f)) * unat (fo_count (f_options f)) \<and>
    unat (fo_size (f_options f)) * unat (fo_count (f_options f)) < unat (fo_size o') * (unat (fo_count o') + 1)"
proof -
  let ?s = "unat (fo_size (f_options f))" and ?r = "unat (fo_rsize (f_options f))"
    and ?c = "unat (fo_count (f_options f))"
  have r: "0 < ?r" using assms(1) by (simp add: word_less_nat_alt)
  have m: "unat (ucast (fo_size (f_options f)) * fo_count (f_options f)) = ?s * ?c"
    using assms(3) by (simp add: unat_mult_lem unat_ucast_32_64 unat_word_ariths)
  then have "unat ((ucast (fo_size (f_options f)) * fo_count (f_options f)) div
      (ucast (fo_rsize (f_options f)) :: u64)) = (?s * ?c) div ?r"
    by (simp add: unat_div unat_ucast_32_64)
  moreover have "?s * ?c < ?r * ((?s * ?c) div ?r + 1)"
    using dividend_less_times_div [OF r, of "?s * ?c"] by simp
  ultimately show ?thesis using assms(1,2) by (simp add: Let_def)
qed


lemma slave_reads_no_more_witness:
  "let f = zero_flowop\<lparr>f_options := zero_options\<lparr>fo_size := 100, fo_rsize := 512, fo_count := 11\<rparr>\<rparr>;
       o' = f_options (fst (optimize_flowop f 0))
   in unat (fo_size o') * unat (fo_count o') \<le> 1100 \<and> fo_count o' = 2"
proof -
  let ?f = "zero_flowop\<lparr>f_options := zero_options\<lparr>fo_size := 100, fo_rsize := 512, fo_count := 11\<rparr>\<rparr>"
  have "let o' = f_options (fst (optimize_flowop ?f 0)) in
      unat (fo_size o') * unat (fo_count o') \<le> 1100"
    using slave_reads_no_more [of ?f] by simp
  moreover have "fo_count (f_options (fst (optimize_flowop ?f 0))) = 2" by simp
  ultimately show ?thesis by (simp add: Let_def del: optimize_flowop.simps)
qed

section \<open>Byte-order repair\<close>

lemma BSWAP_twice [simp]:
  "BSWAP_16 (BSWAP_16 (a::u16)) = a" "BSWAP_32 (BSWAP_32 (b::u32)) = b"
  "BSWAP_64 (BSWAP_64 (c::u64)) = c"
  by (simp_all add: BSWAP_16_bswap BSWAP_32_bswap BSWAP_64_bswap bswap_bswap)

lemma options_bitswap_twice [simp]: "options_bitswap (options_bitswap fo) = fo"
  by (simp add: options_bitswap_def)

lemma txn_bitswap_twice [simp]: "txn_bitswap (txn_bitswap t) = t"
  by (simp add: txn_bitswap_def comp_def)

text \<open>
  The byte-order repair is an involution: a work order repaired twice is unchanged.
\<close>

lemma group_bitswap_twice: "group_bitswap (group_bitswap g) = g"
  by (simp add: group_bitswap_def comp_def)

section \<open>The strand's buffer\<close>

lemma dto_flowops_mono:
  "c \<le> fold (\<lambda>f count. if fo_size (f_options f) > count then fo_size (f_options f) else count) fs (c::u32)"
  by (induction fs arbitrary: c) (auto intro: order_trans less_imp_le)

lemma dto_flowops_ge: "f \<in> set fs \<Longrightarrow> fo_size (f_options f) \<le>
  fold (\<lambda>f count. if fo_size (f_options f) > count then fo_size (f_options f) else count) fs (c::u32)"
proof (induction fs arbitrary: c)
  case (Cons g gs)
  let ?c' = "if fo_size (f_options g) > c then fo_size (f_options g) else c"
  have "fo_size (f_options g) \<le> ?c'" by auto
  with Cons dto_flowops_mono [of ?c' gs] show ?case by (auto intro: order_trans)
qed simp

text \<open>
  The buffer a strand allocates before it runs a group (\<open>group_max_dto_size\<close> bytes)
  holds the \<open>size\<close> of every flowop of the group, and at least 8192 bytes.
\<close>

lemma buffer_covers_sizes:
  assumes "t \<in> set (g_tlist g)" and "f \<in> set (t_flist t)"
  shows "fo_size (f_options f) \<le> group_max_dto_size g \<and> 8192 \<le> unat (group_max_dto_size g)"
proof -
  let ?in = "\<lambda>t c. fold (\<lambda>f count. if fo_size (f_options f) > count then fo_size (f_options f) else count) (t_flist t) (c::u32)"
  have mono: "c \<le> fold ?in ts c" for ts c
    by (induction ts arbitrary: c) (auto intro: order_trans [OF dto_flowops_mono])
  have "t \<in> set ts \<Longrightarrow> f \<in> set (t_flist t) \<Longrightarrow> fo_size (f_options f) \<le> fold ?in ts c" for ts c
  proof (induction ts arbitrary: c)
    case (Cons u us)
    then show ?case using mono [of "?in u c" us] by (auto intro: order_trans [OF dto_flowops_ge])
  qed simp
  moreover have "(of_nat DEFAULT_BUFFER_SIZE :: u32) \<le> group_max_dto_size g"
    by (simp add: group_max_dto_size_def mono)
  then have "8192 \<le> unat (group_max_dto_size g)"
    by (simp add: DEFAULT_BUFFER_SIZE_def word_le_nat_alt)
  ultimately show ?thesis using assms by (simp add: group_max_dto_size_def)
qed

lemma buffer_covers_sizes_witness:
  "let f = zero_flowop\<lparr>f_options := zero_options\<lparr>fo_size := 65536\<rparr>\<rparr>;
       g = zero_group\<lparr>g_tlist := [zero_txn\<lparr>t_flist := [f]\<rparr>]\<rparr>
   in 65536 \<le> unat (group_max_dto_size g)"
proof -
  let ?f = "zero_flowop\<lparr>f_options := zero_options\<lparr>fo_size := 65536\<rparr>\<rparr>"
  let ?t = "zero_txn\<lparr>t_flist := [?f]\<rparr>"
  let ?g = "zero_group\<lparr>g_tlist := [?t]\<rparr>"
  have "fo_size (f_options ?f) \<le> group_max_dto_size ?g"
    using buffer_covers_sizes [of ?t ?g ?f] by simp
  then show ?thesis by (simp add: Let_def word_le_nat_alt)
qed

end
