(* ===== verification/Barriers.thy ===== *)
theory Barriers
  imports Workorder
begin

text \<open>
  The barriers strands meet at before each transaction (\<open>src/sync.c\<close>), and their setup from
  the work order (\<open>shm_init_barriers_master\<close> and \<open>shm_init_barriers_slave\<close> of
  \<open>src/shm.c\<close>). A barrier is a counter, a threshold and a reader-writer lock that the main
  thread holds for writing from the start until it releases the barrier; the pthread calls
  themselves succeed.
\<close>

record barrier =
  b_count :: u32
  b_limit :: u32
  b_locked :: bool

definition NUM_BARRIER :: nat where "NUM_BARRIER = 100"

definition init_barrier :: "int \<Rightarrow> barrier" where
  "init_barrier threshold = \<lparr>b_count = 0, b_limit = to_u32 threshold, b_locked = True\<rparr>"

definition unlock_barrier :: "barrier \<Rightarrow> barrier" where
  "unlock_barrier bar = bar\<lparr>b_locked := False\<rparr>"

definition barrier_notreached :: "barrier \<Rightarrow> int" where
  "barrier_notreached bar = sint (b_limit bar - b_count bar)"

lemma barrier_notreached_0: "barrier_notreached bar = 0 \<longleftrightarrow> b_limit bar = b_count bar"
  by (simp add: barrier_notreached_def signed_eq_0_iff)

definition wait_barrier_arrive :: "barrier \<Rightarrow> c_stop + barrier" where
  \<comment> \<open>\<open>wait_barrier\<close> up to the \<open>rdlock\<close>: the assertion and the atomic increment\<close>
  "wait_barrier_arrive bar =
     (if b_limit bar > 0 then Inr (bar\<lparr>b_count := b_count bar + 1\<rparr>) else Inl Aborted)"

definition wait_barrier_pass :: "barrier \<Rightarrow> int option" where
  \<comment> \<open>the \<open>rdlock\<close> and \<open>unlock\<close> that follow: blocked while the lock is held for writing\<close>
  "wait_barrier_pass bar = (if b_locked bar then None else Some 0)"

section \<open>Setup\<close>

fun add_threads :: "nat \<Rightarrow> u32 \<Rightarrow> int list \<Rightarrow> c_stop + int list" where
  \<comment> \<open>\<open>for (j = 0; j < ntxn; j++) strand_per_txn[j] += nthreads\<close>\<close>
  "add_threads 0 nthreads ps = Inr ps"
| "add_threads (Suc k) nthreads [] = Inl Undefined"
| "add_threads (Suc k) nthreads (p # ps) =
     cbind (add_threads k nthreads ps) (\<lambda>ps'. Inr (wrap32 (p + uint nthreads) # ps'))"

fun count_strands :: "group list \<Rightarrow> u32 \<times> int list \<Rightarrow> c_stop + u32 \<times> int list" where
  \<comment> \<open>the loop over the groups; \<open>n\<close> is compared as unsigned\<close>
  "count_strands [] s = Inr s"
| "count_strands (g # gs) (n, ps) =
     cbind (add_threads (unat (g_ntxn g)) (g_nthreads g) ps)
       (\<lambda>ps'. count_strands gs (if n > g_ntxn g then n else g_ntxn g, ps'))"

definition shm_init_barriers_master :: "workorder \<Rightarrow> c_stop + int \<times> barrier list" where
  \<comment> \<open>the return value and the barriers set up (\<open>nobarrier\<close> of them)\<close>
  "shm_init_barriers_master w =
     cbind (count_strands (w_grp w) (0, replicate NUM_BARRIER 0))
       (\<lambda>(n, ps). if sint n > int NUM_BARRIER then Inr (- 1, [])
                  else Inr (0, map init_barrier (take (nat (sint n)) ps)))"

definition shm_init_barriers_slave :: "group \<Rightarrow> int \<times> barrier list" where
  "shm_init_barriers_slave g =
     (if sint (g_ntxn g) > int NUM_BARRIER then (- 1, [])
      else (0, map (\<lambda>_. init_barrier (uint (g_nthreads g))) [0..<nat (sint (g_ntxn g))]))"

section \<open>Thresholds\<close>

definition threads_upto :: "group list \<Rightarrow> nat \<Rightarrow> nat" where
  \<comment> \<open>how many strands have a transaction number \<open>j\<close>\<close>
  "threads_upto gs j = sum_list (map (\<lambda>g. if j < unat (g_ntxn g) then unat (g_nthreads g) else 0) gs)"

lemma add_threads_ok:
  assumes "k \<le> length ps"
  shows "add_threads k nthr ps = Inr (map (\<lambda>p. wrap32 (p + uint nthr)) (take k ps) @ drop k ps)"
  using assms
proof (induction k arbitrary: ps)
  case (Suc k)
  then show ?case by (cases ps) auto
qed simp

lemma add_threads_overrun: "length ps < k \<Longrightarrow> add_threads k nthr ps = Inl Undefined"
proof (induction k arbitrary: ps)
  case (Suc k)
  then show ?case by (cases ps) auto
qed simp

lemma count_strands_nth:
  assumes "count_strands gs (n, ps) = Inr (n', ps')"
    and "\<forall>j < length ps. 0 \<le> ps ! j \<and> ps ! j + int (threads_upto gs j) < 2 ^ 31"
  shows "length ps' = length ps \<and> (\<forall>j < length ps. ps' ! j = ps ! j + int (threads_upto gs j)) \<and>
    n \<le> n' \<and> (\<forall>g \<in> set gs. g_ntxn g \<le> n' \<and> unat (g_ntxn g) \<le> length ps) \<and>
    (n' = n \<or> (\<exists>g \<in> set gs. n' = g_ntxn g))"
  using assms
proof (induction gs arbitrary: n ps)
  case (Cons g gs)
  let ?k = "unat (g_ntxn g)" and ?n = "if n > g_ntxn g then n else g_ntxn g"
  have k: "?k \<le> length ps"
    using Cons.prems(1) add_threads_overrun [of ps ?k "g_nthreads g"] by (cases "?k \<le> length ps") auto
  define qs where "qs = map (\<lambda>p. wrap32 (p + uint (g_nthreads g))) (take ?k ps) @ drop ?k ps"
  have r: "count_strands gs (?n, qs) = Inr (n', ps')"
    using Cons.prems(1) add_threads_ok [OF k, of "g_nthreads g"] by (simp add: qs_def)
  have qs: "qs ! j = ps ! j + (if j < ?k then uint (g_nthreads g) else 0)"
    if "j < length ps" for j
  proof (cases "j < ?k")
    case True
    have "0 \<le> ps ! j" and "ps ! j + int (threads_upto (g # gs) j) < 2 ^ 31"
      using Cons.prems(2) that by auto
    moreover from True have "uint (g_nthreads g) \<le> int (threads_upto (g # gs) j)"
      by (simp add: threads_upto_def)
    ultimately have "wrap32 (ps ! j + uint (g_nthreads g)) = ps ! j + uint (g_nthreads g)"
      by (intro wrap32_id) (simp_all add: add_nonneg_nonneg order_trans [of _ 0])
    with True k that show ?thesis by (simp add: qs_def nth_append)
  qed (use k that in \<open>simp add: qs_def nth_append\<close>)
  have len: "length qs = length ps" using k by (simp add: qs_def)
  have "\<forall>j < length qs. 0 \<le> qs ! j \<and> qs ! j + int (threads_upto gs j) < 2 ^ 31"
    using Cons.prems(2) qs len by (auto simp: threads_upto_def)
  from Cons.IH [OF r this] k qs len show ?case
    by (auto simp: threads_upto_def split: if_splits)
qed (simp add: threads_upto_def)

lemma shm_init_barriers_master_ok:
  assumes "shm_init_barriers_master w = Inr (r, bars)"
    and "\<forall>j. int (threads_upto (w_grp w) j) < 2 ^ 31"
  shows "r = 0 \<and> length bars \<le> NUM_BARRIER \<and>
    (\<forall>g \<in> set (w_grp w). unat (g_ntxn g) \<le> length bars) \<and>
    (\<forall>j < length bars. b_limit (bars ! j) = of_nat (threads_upto (w_grp w) j) \<and>
       b_count (bars ! j) = 0 \<and> b_locked (bars ! j))"
proof -
  obtain n ps where c: "count_strands (w_grp w) (0, replicate NUM_BARRIER 0) = Inr (n, ps)"
    and b: "(if sint n > int NUM_BARRIER then Inr (- 1, [])
             else Inr (0, map init_barrier (take (nat (sint n)) ps))) = (Inr (r, bars) :: c_stop + _)"
    using assms(1) by (auto simp: shm_init_barriers_master_def cbind_Inr)
  from count_strands_nth [OF c] assms(2)
  have l: "length ps = NUM_BARRIER" and p: "\<forall>j < NUM_BARRIER. ps ! j = int (threads_upto (w_grp w) j)"
    and n: "\<forall>g \<in> set (w_grp w). g_ntxn g \<le> n \<and> unat (g_ntxn g) \<le> NUM_BARRIER"
    and m: "n = 0 \<or> (\<exists>g \<in> set (w_grp w). n = g_ntxn g)" by auto
  have "unat n \<le> NUM_BARRIER" using m n by auto
  then have un: "sint n = int (unat n)"
    by (intro sint_small) (simp add: NUM_BARRIER_def)
  moreover from un \<open>unat n \<le> NUM_BARRIER\<close> have "\<not> sint n > int NUM_BARRIER" by (simp add: not_less uint_le_nat)
  ultimately have "r = 0" and "bars = map init_barrier (take (unat n) ps)"
    using b by simp_all
  with l p n \<open>unat n \<le> NUM_BARRIER\<close> show ?thesis
    by (auto simp: init_barrier_def word_le_nat_alt)
qed

lemma workorder_max_txn_le:
  assumes "\<forall>g \<in> set (w_grp w). unat (g_ntxn g) \<le> m" and "m < 2 ^ 31"
  shows "nat (workorder_max_txn w) \<le> m"
proof -
  let ?f = "\<lambda>g no. if no > g_ntxn g then no else g_ntxn g"
  have *: "unat (fold ?f gs n) \<le> m" if "unat n \<le> m" and "\<forall>g \<in> set gs. unat (g_ntxn g) \<le> m" for gs and n :: u32
    using that by (induction gs arbitrary: n) auto
  then have "unat (fold ?f (w_grp w) 0) \<le> m" using assms(1) by (simp add: *)
  then show ?thesis using assms(2) by (simp add: workorder_max_txn_def sint_small)
qed

lemma workorder_max_txn_ge:
  assumes "\<forall>g \<in> set (w_grp w). unat (g_ntxn g) \<le> m" and "m < 2 ^ 31" and "g \<in> set (w_grp w)"
  shows "unat (g_ntxn g) \<le> nat (workorder_max_txn w)"
proof -
  let ?f = "\<lambda>g no. if no > g_ntxn g then no else g_ntxn g"
  have upper: "unat (fold ?f gs n) \<le> m" if "unat n \<le> m" and "\<forall>g \<in> set gs. unat (g_ntxn g) \<le> m" for gs and n :: u32
    using that by (induction gs arbitrary: n) auto
  have mono: "n \<le> fold ?f gs n" for gs and n :: u32
  proof (induction gs arbitrary: n)
    case (Cons h gs)
    have "n \<le> ?f h n" by auto
    with Cons [of "?f h n"] show ?case by (auto intro: order_trans)
  qed simp
  have "g \<in> set gs \<Longrightarrow> g_ntxn g \<le> fold ?f gs n" for gs and n :: u32
  proof (induction gs arbitrary: n)
    case (Cons h gs)
    have "g_ntxn h \<le> ?f h n" by auto
    with Cons mono [of "?f h n" gs] show ?case by (auto intro: order_trans)
  qed simp
  then have "unat (g_ntxn g) \<le> unat (fold ?f (w_grp w) 0)"
    using assms(3) by (simp add: word_le_nat_alt)
  moreover have "unat (fold ?f (w_grp w) 0) \<le> m" using upper [of 0 "w_grp w"] assms(1) by simp
  ultimately show ?thesis using assms(2) by (simp add: workorder_max_txn_def sint_small)
qed

text \<open>
  The master sets up a barrier for every transaction of every group, and the threshold of
  the barrier of a transaction is the number of strands that have such a transaction.
\<close>

lemma master_barrier_thresholds:
  assumes "shm_init_barriers_master w = Inr (r, bars)"
    and "\<forall>j. int (threads_upto (w_grp w) j) < 2 ^ 31"
  shows "r = 0 \<and> length bars \<le> NUM_BARRIER \<and>
    (\<forall>g \<in> set (w_grp w). unat (g_ntxn g) \<le> length bars) \<and>
    (\<forall>j < length bars. b_limit (bars ! j) = of_nat (threads_upto (w_grp w) j) \<and>
       b_count (bars ! j) = 0 \<and> b_locked (bars ! j))"
  using assms by (rule shm_init_barriers_master_ok)

definition two_groups :: workorder where
  \<comment> \<open>an example: 3 strands with 1 transaction, 2 strands with 2\<close>
  "two_groups = \<lparr>w_name = ''two'', w_grp =
     [zero_group\<lparr>g_nthreads := 3, g_ntxn := 1, g_tlist := [zero_txn]\<rparr>,
      zero_group\<lparr>g_nthreads := 2, g_ntxn := 2, g_tlist := [zero_txn, zero_txn]\<rparr>]\<rparr>"

lemma two_groups_barriers: "shm_init_barriers_master two_groups =
    Inr (0, [\<lparr>b_count = 0, b_limit = 5, b_locked = True\<rparr>, \<lparr>b_count = 0, b_limit = 2, b_locked = True\<rparr>])"
  by code_simp

lemma threads_upto_two_groups: "int (threads_upto (w_grp two_groups) j) < 2 ^ 31"
  by (simp add: two_groups_def threads_upto_def zero_group_def)

lemma master_barrier_thresholds_witness:
  "\<exists>bars. shm_init_barriers_master two_groups = Inr (0, bars) \<and> length bars = 2 \<and> b_limit (bars ! 0) = 5"
proof -
  let ?bars = "[\<lparr>b_count = 0, b_limit = 5, b_locked = True\<rparr>, \<lparr>b_count = 0, b_limit = 2, b_locked = True\<rparr>]"
  from master_barrier_thresholds [OF two_groups_barriers] threads_upto_two_groups
  have "b_limit (?bars ! 0) = of_nat (threads_upto (w_grp two_groups) 0)" by blast
  also have "\<dots> = 5" by (simp add: two_groups_def threads_upto_def zero_group_def)
  finally show ?thesis using two_groups_barriers by simp
qed

end
