(* ===== verification/Lockstep.thy ===== *)
theory Lockstep
  imports Barriers
begin

text \<open>
  The strands and the main thread at the barriers, as a step relation: each strand runs the
  loop of \<open>group_execute\<close> (\<open>src/execute.c\<close>) around \<open>wait_barrier\<close> (\<open>src/sync.c\<close>), the main
  thread releases the barriers in order as \<open>master_poll\<close> (\<open>src/master.c\<close>) does. Steps of
  different strands interleave freely; the increment of the barrier's counter is atomic, as
  the sources make it.

  \<open>Arriving k\<close>: before \<open>wait_barrier\<close> of transaction \<open>k\<close>; \<open>Blocked k\<close>: in its \<open>rdlock\<close>;
  \<open>Executing k\<close>: in \<open>txn_execute\<close>; \<open>Finished k\<close>: out of the loop, having left the first \<open>k\<close>
  barriers behind.
\<close>

datatype pc = Arriving nat | Blocked nat | Executing nat | Finished nat

record lk =
  lk_bar :: "barrier list"
  lk_pc :: "pc list"
  lk_txn :: nat   \<comment> \<open>\<open>curr_txn\<close> of the main thread\<close>

fun arrived :: "pc \<Rightarrow> nat" where
  \<comment> \<open>how many barriers the strand has been counted at\<close>
  "arrived (Arriving k) = k"
| "arrived (Blocked k) = Suc k"
| "arrived (Executing k) = Suc k"
| "arrived (Finished k) = k"

definition strand_ntxns :: "workorder \<Rightarrow> nat list" where
  \<comment> \<open>the number of transactions of each strand, in the order the strands are numbered\<close>
  "strand_ntxns w = concat (map (\<lambda>g. replicate (unat (g_nthreads g)) (unat (g_ntxn g))) (w_grp w))"

definition next_pc :: "nat \<Rightarrow> nat \<Rightarrow> pc" where
  \<comment> \<open>the loop test of \<open>group_execute\<close> before transaction \<open>k\<close> of \<open>n\<close>\<close>
  "next_pc n k = (if k < n then Arriving k else Finished k)"

inductive lk_step :: "nat list \<Rightarrow> nat \<Rightarrow> lk \<Rightarrow> lk \<Rightarrow> bool" for ns :: "nat list" and no_txn :: nat where
  arrive: "i < length (lk_pc s) \<Longrightarrow> lk_pc s ! i = Arriving k \<Longrightarrow>
    wait_barrier_arrive (lk_bar s ! k) = Inr b \<Longrightarrow>
    lk_step ns no_txn s (s\<lparr>lk_bar := (lk_bar s)[k := b], lk_pc := (lk_pc s)[i := Blocked k]\<rparr>)"
| pass: "i < length (lk_pc s) \<Longrightarrow> lk_pc s ! i = Blocked k \<Longrightarrow>
    wait_barrier_pass (lk_bar s ! k) = Some r \<Longrightarrow>
    lk_step ns no_txn s (s\<lparr>lk_pc := (lk_pc s)[i := Executing k]\<rparr>)"
| give_up: "i < length (lk_pc s) \<Longrightarrow> lk_pc s ! i = Blocked k \<Longrightarrow>
    wait_barrier_pass (lk_bar s ! k) = Some r \<Longrightarrow>
    lk_step ns no_txn s (s\<lparr>lk_pc := (lk_pc s)[i := Finished (Suc k)]\<rparr>)"
| complete: "i < length (lk_pc s) \<Longrightarrow> lk_pc s ! i = Executing k \<Longrightarrow>
    lk_step ns no_txn s (s\<lparr>lk_pc := (lk_pc s)[i := next_pc (ns ! i) (Suc k)]\<rparr>)"
| fail: "i < length (lk_pc s) \<Longrightarrow> lk_pc s ! i = Executing k \<Longrightarrow>
    lk_step ns no_txn s (s\<lparr>lk_pc := (lk_pc s)[i := Finished (Suc k)]\<rparr>)"
| release: "lk_txn s < no_txn \<Longrightarrow> barrier_notreached (lk_bar s ! lk_txn s) = 0 \<Longrightarrow>
    lk_step ns no_txn s (s\<lparr>lk_bar := (lk_bar s)[lk_txn s := unlock_barrier (lk_bar s ! lk_txn s)],
                           lk_txn := Suc (lk_txn s)\<rparr>)"

inductive_cases lk_stepE: "lk_step ns no_txn s s'"

definition lk_start :: "workorder \<Rightarrow> lk \<Rightarrow> bool" where
  \<comment> \<open>the barriers as the master sets them up, the strands at their first transaction\<close>
  "lk_start w s = (shm_init_barriers_master w = Inr (0, lk_bar s) \<and>
     lk_pc s = map (\<lambda>n. next_pc n 0) (strand_ntxns w) \<and> lk_txn s = 0)"

definition lk_steps :: "workorder \<Rightarrow> lk \<Rightarrow> lk \<Rightarrow> bool" where
  "lk_steps w = lk_step (strand_ntxns w) (nat (workorder_max_txn w))"

section \<open>The invariant\<close>

definition have_txn :: "nat list \<Rightarrow> nat \<Rightarrow> nat set" where
  "have_txn ns j = {i. i < length ns \<and> j < ns ! i}"

definition have_arrived :: "pc list \<Rightarrow> nat \<Rightarrow> nat set" where
  "have_arrived pcs j = {i. i < length pcs \<and> j < arrived (pcs ! i)}"

fun pc_ok :: "nat \<Rightarrow> nat \<Rightarrow> pc \<Rightarrow> bool" where
  "pc_ok n txn (Arriving k) = (k < n)"
| "pc_ok n txn (Blocked k) = (k < n)"
| "pc_ok n txn (Executing k) = (k < n \<and> k < txn)"
| "pc_ok n txn (Finished k) = (k \<le> n)"

definition bar_ok :: "nat list \<Rightarrow> lk \<Rightarrow> nat \<Rightarrow> bool" where
  "bar_ok ns s j =
     (b_limit (lk_bar s ! j) = of_nat (card (have_txn ns j)) \<and>
      b_count (lk_bar s ! j) = of_nat (card (have_arrived (lk_pc s) j)) \<and>
      b_locked (lk_bar s ! j) = (lk_txn s \<le> j))"

definition lk_inv :: "nat list \<Rightarrow> nat \<Rightarrow> lk \<Rightarrow> bool" where
  "lk_inv ns no_txn s =
     (length (lk_pc s) = length ns \<and> length ns < 2 ^ 31 \<and> no_txn \<le> length (lk_bar s) \<and>
      (\<forall>i < length ns. ns ! i \<le> length (lk_bar s) \<and> pc_ok (ns ! i) (lk_txn s) (lk_pc s ! i)) \<and>
      (\<forall>j < length (lk_bar s). bar_ok ns s j) \<and>
      (\<forall>j < lk_txn s. have_txn ns j \<subseteq> have_arrived (lk_pc s) j) \<and> lk_txn s \<le> length (lk_bar s))"

lemma pc_ok_arrived: "pc_ok n txn p \<Longrightarrow> arrived p \<le> n"
  by (cases p) auto

lemma pc_ok_mono: "pc_ok n txn p \<Longrightarrow> txn \<le> txn' \<Longrightarrow> pc_ok n txn' p"
  by (cases p) auto

lemma arrived_next_pc [simp]: "arrived (next_pc n k) = k"
  by (simp add: next_pc_def)

lemma pc_ok_next_pc: "k \<le> n \<Longrightarrow> pc_ok n txn (next_pc n k)"
  by (simp add: next_pc_def)

lemma have_arrived_same:
  "i < length pcs \<Longrightarrow> arrived p = arrived (pcs ! i) \<Longrightarrow> have_arrived (pcs[i := p]) j = have_arrived pcs j"
  by (auto simp: have_arrived_def nth_list_update)

lemma have_arrived_next:
  assumes "i < length pcs" and "pcs ! i = Arriving k"
  shows "have_arrived (pcs[i := Blocked k]) j =
    (if j = k then insert i (have_arrived pcs j) else have_arrived pcs j)"
  using assms by (auto simp: have_arrived_def nth_list_update split: if_splits)

lemma finite_have_arrived [simp]: "finite (have_arrived pcs j)" "finite (have_txn ns j)"
  by (simp_all add: have_arrived_def have_txn_def)

text \<open>The four steps of a strand past the barrier leave what the barriers have counted.\<close>

lemma lk_inv_move:
  assumes "lk_inv ns no_txn s" and "i < length (lk_pc s)" and "arrived p = arrived (lk_pc s ! i)"
    and "pc_ok (ns ! i) (lk_txn s) p"
  shows "lk_inv ns no_txn (s\<lparr>lk_pc := (lk_pc s)[i := p]\<rparr>)"
  using assms by (auto simp: lk_inv_def bar_ok_def have_arrived_same nth_list_update)

lemma lk_inv_arrive:
  assumes "lk_inv ns no_txn s" and i: "i < length (lk_pc s)" and p: "lk_pc s ! i = Arriving k"
    and "wait_barrier_arrive (lk_bar s ! k) = Inr b"
  shows "lk_inv ns no_txn (s\<lparr>lk_bar := (lk_bar s)[k := b], lk_pc := (lk_pc s)[i := Blocked k]\<rparr>)"
proof -
  have b: "b = (lk_bar s ! k)\<lparr>b_count := b_count (lk_bar s ! k) + 1\<rparr>"
    using assms(4) by (simp add: wait_barrier_arrive_def split: if_splits)
  have "pc_ok (ns ! i) (lk_txn s) (Arriving k)" and nsi: "ns ! i \<le> length (lk_bar s)"
    using assms(1) i p by (auto simp: lk_inv_def)
  then have k: "k < ns ! i" "k < length (lk_bar s)" by auto
  have new: "i \<notin> have_arrived (lk_pc s) k" using p by (simp add: have_arrived_def)
  have "bar_ok ns (s\<lparr>lk_bar := (lk_bar s)[k := b], lk_pc := (lk_pc s)[i := Blocked k]\<rparr>) j"
    if "j < length (lk_bar s)" for j
  proof -
    have "bar_ok ns s j" using assms(1) that by (simp add: lk_inv_def)
    then show ?thesis
      using k new by (auto simp: bar_ok_def b have_arrived_next [OF i p] nth_list_update add.commute)
  qed
  then show ?thesis
    using assms(1) i k by (auto simp: lk_inv_def have_arrived_next [OF i p] nth_list_update)
qed

lemma count_reaches_limit:
  assumes "lk_inv ns no_txn s" and "j < length (lk_bar s)"
  shows "barrier_notreached (lk_bar s ! j) = 0 \<longleftrightarrow> have_txn ns j \<subseteq> have_arrived (lk_pc s) j"
proof -
  have sub: "have_arrived (lk_pc s) j \<subseteq> have_txn ns j"
  proof
    fix i assume "i \<in> have_arrived (lk_pc s) j"
    then have i: "i < length ns" "j < arrived (lk_pc s ! i)"
      using assms(1) by (auto simp: lk_inv_def have_arrived_def)
    then have "pc_ok (ns ! i) (lk_txn s) (lk_pc s ! i)" using assms(1) by (simp add: lk_inv_def)
    from pc_ok_arrived [OF this] i show "i \<in> have_txn ns j" by (simp add: have_txn_def)
  qed
  have small: "card (have_txn ns j) < 2 ^ 32"
  proof -
    have "card (have_txn ns j) \<le> card {i. i < length ns}"
      by (rule card_mono) (auto simp: have_txn_def)
    moreover have "length ns < 2 ^ 31" using assms(1) by (simp only: lk_inv_def)
    ultimately show ?thesis by simp
  qed
  have smaller: "card (have_arrived (lk_pc s) j) \<le> card (have_txn ns j)"
    using sub by (intro card_mono) simp_all
  have "barrier_notreached (lk_bar s ! j) = 0 \<longleftrightarrow>
      (of_nat (card (have_txn ns j)) :: u32) = of_nat (card (have_arrived (lk_pc s) j))"
    using assms by (simp add: lk_inv_def bar_ok_def barrier_notreached_0)
  also have "\<dots> \<longleftrightarrow> card (have_txn ns j) = card (have_arrived (lk_pc s) j)"
    using small smaller by (simp add: word_of_nat_eq_iff take_bit_nat_eq_self)
  also have "\<dots> \<longleftrightarrow> have_arrived (lk_pc s) j = have_txn ns j"
    using card_subset_eq [OF finite_have_arrived(2) sub] by auto
  finally show ?thesis using sub by auto
qed

lemma lk_inv_release:
  assumes "lk_inv ns no_txn s" and "lk_txn s < no_txn"
    and "barrier_notreached (lk_bar s ! lk_txn s) = 0"
  shows "lk_inv ns no_txn (s\<lparr>lk_bar := (lk_bar s)[lk_txn s := unlock_barrier (lk_bar s ! lk_txn s)],
                            lk_txn := Suc (lk_txn s)\<rparr>)"
proof -
  have t: "lk_txn s < length (lk_bar s)" using assms(1,2) by (simp add: lk_inv_def)
  have all: "have_txn ns (lk_txn s) \<subseteq> have_arrived (lk_pc s) (lk_txn s)"
    using count_reaches_limit [OF assms(1) t] assms(3) by simp
  have "bar_ok ns (s\<lparr>lk_bar := (lk_bar s)[lk_txn s := unlock_barrier (lk_bar s ! lk_txn s)],
                     lk_txn := Suc (lk_txn s)\<rparr>) j" if "j < length (lk_bar s)" for j
  proof -
    have "bar_ok ns s j" using assms(1) that by (simp add: lk_inv_def)
    then show ?thesis
      using t by (auto simp: bar_ok_def unlock_barrier_def nth_list_update)
  qed
  then show ?thesis
    using assms(1) t all
    by (auto simp: lk_inv_def less_Suc_eq intro: pc_ok_mono)
qed

lemma lk_step_inv:
  assumes "lk_inv ns no_txn s" and "lk_step ns no_txn s s'"
  shows "lk_inv ns no_txn s'"
  using assms(2)
proof cases
  case (arrive i k b)
  with assms(1) show ?thesis by (simp add: lk_inv_arrive)
next
  case (pass i k r)
  have ok: "pc_ok (ns ! i) (lk_txn s) (Blocked k)" "ns ! i \<le> length (lk_bar s)"
    using assms(1) pass by (auto simp: lk_inv_def)
  moreover have "bar_ok ns s k" using assms(1) ok by (auto simp: lk_inv_def)
  ultimately have "k < lk_txn s"
    using pass by (auto simp: bar_ok_def wait_barrier_pass_def split: if_splits)
  with assms(1) ok pass show ?thesis by (auto intro!: lk_inv_move)
next
  case (give_up i k r)
  have "pc_ok (ns ! i) (lk_txn s) (Blocked k)" using assms(1) give_up by (auto simp: lk_inv_def)
  with assms(1) give_up show ?thesis by (auto intro!: lk_inv_move)
next
  case (complete i k)
  have "pc_ok (ns ! i) (lk_txn s) (Executing k)" using assms(1) complete by (auto simp: lk_inv_def)
  with assms(1) complete show ?thesis by (auto intro!: lk_inv_move pc_ok_next_pc)
next
  case (fail i k)
  have "pc_ok (ns ! i) (lk_txn s) (Executing k)" using assms(1) fail by (auto simp: lk_inv_def)
  with assms(1) fail show ?thesis by (auto intro!: lk_inv_move)
next
  case release
  with assms(1) show ?thesis by (simp add: lk_inv_release)
qed

section \<open>The start\<close>

lemma card_have_txn: "card (have_txn ns j) = length (filter (\<lambda>n. j < n) ns)"
  by (simp add: have_txn_def length_filter_conv_card)

lemma card_have_txn_strands: "card (have_txn (strand_ntxns w) j) = threads_upto (w_grp w) j"
proof -
  have "length (filter (\<lambda>n. j < n) (concat (map (\<lambda>g. replicate (unat (g_nthreads g)) (unat (g_ntxn g))) gs)))
      = threads_upto gs j" for gs :: "group list"
    by (induction gs) (simp_all add: threads_upto_def)
  then show ?thesis by (simp add: strand_ntxns_def card_have_txn)
qed

lemma threads_upto_le: "threads_upto (w_grp w) j \<le> length (strand_ntxns w)"
proof -
  have "card (have_txn (strand_ntxns w) j) \<le> card {i. i < length (strand_ntxns w)}"
    by (rule card_mono) (auto simp: have_txn_def)
  then show ?thesis by (simp add: card_have_txn_strands)
qed

lemma set_strand_ntxns: "n \<in> set (strand_ntxns w) \<Longrightarrow> \<exists>g \<in> set (w_grp w). n = unat (g_ntxn g)"
  by (auto simp: strand_ntxns_def)

lemma lk_start_bars:
  assumes "lk_start w s" and "length (strand_ntxns w) < 2 ^ 31"
  shows "length (lk_bar s) \<le> NUM_BARRIER" and "\<forall>g \<in> set (w_grp w). unat (g_ntxn g) \<le> length (lk_bar s)"
    and "\<forall>j < length (lk_bar s). b_limit (lk_bar s ! j) = of_nat (threads_upto (w_grp w) j) \<and>
      b_count (lk_bar s ! j) = 0 \<and> b_locked (lk_bar s ! j)"
proof -
  have "\<forall>j. int (threads_upto (w_grp w) j) < 2 ^ 31"
    using threads_upto_le assms(2) by (metis le_less_trans of_nat_less_numeral_power_cancel_iff)
  from shm_init_barriers_master_ok [of w 0 "lk_bar s", OF _ this] assms(1)
  show "length (lk_bar s) \<le> NUM_BARRIER" and "\<forall>g \<in> set (w_grp w). unat (g_ntxn g) \<le> length (lk_bar s)"
    and "\<forall>j < length (lk_bar s). b_limit (lk_bar s ! j) = of_nat (threads_upto (w_grp w) j) \<and>
      b_count (lk_bar s ! j) = 0 \<and> b_locked (lk_bar s ! j)"
    by (simp_all add: lk_start_def)
qed

lemma lk_start_max:
  assumes "lk_start w s" and "length (strand_ntxns w) < 2 ^ 31"
  shows "\<forall>g \<in> set (w_grp w). unat (g_ntxn g) \<le> nat (workorder_max_txn w)"
proof
  fix g assume "g \<in> set (w_grp w)"
  with lk_start_bars [OF assms] show "unat (g_ntxn g) \<le> nat (workorder_max_txn w)"
    by (intro workorder_max_txn_ge [of w "length (lk_bar s)"]) (simp_all add: NUM_BARRIER_def)
qed

lemma lk_start_inv:
  assumes "lk_start w s" and "length (strand_ntxns w) < 2 ^ 31"
  shows "lk_inv (strand_ntxns w) (nat (workorder_max_txn w)) s"
proof -
  note bars = lk_start_bars [OF assms]
  have "nat (workorder_max_txn w) \<le> length (lk_bar s)"
    using bars by (intro workorder_max_txn_le) (simp_all add: NUM_BARRIER_def)
  moreover have "strand_ntxns w ! i \<le> length (lk_bar s)" if "i < length (strand_ntxns w)" for i
    using set_strand_ntxns [OF nth_mem [OF that]] bars(2) by auto
  moreover have "have_arrived (lk_pc s) j = {}" for j
    using assms(1) by (auto simp: lk_start_def have_arrived_def)
  ultimately show ?thesis
    using assms bars(3) by (auto simp: lk_inv_def lk_start_def bar_ok_def card_have_txn_strands pc_ok_next_pc)
qed

interpretation lockstep: invariant_system
    "\<lambda>s. lk_start w s \<and> length (strand_ntxns w) < 2 ^ 31" "lk_steps w"
    "lk_inv (strand_ntxns w) (nat (workorder_max_txn w))" for w
  by unfold_locales (auto simp: lk_steps_def intro: lk_start_inv lk_step_inv)

section \<open>Lockstep\<close>

text \<open>
  C8. Lockstep: while a strand executes its transaction \<open>k\<close>, every strand that has a
  transaction \<open>k\<close>, of any group, has been counted at barrier \<open>k\<close>; so none of them is still
  executing an earlier transaction.
\<close>

theorem strands_in_lockstep:
  assumes "lk_start w s0" and "length (strand_ntxns w) < 2 ^ 31" and "(lk_steps w)\<^sup>*\<^sup>* s0 s"
    and "i < length (strand_ntxns w)" and "lk_pc s ! i = Executing k"
    and "i' < length (strand_ntxns w)" and "k < strand_ntxns w ! i'"
  shows "k < arrived (lk_pc s ! i') \<and> (\<forall>j < k. lk_pc s ! i' \<noteq> Executing j)"
proof -
  have inv: "lk_inv (strand_ntxns w) (nat (workorder_max_txn w)) s"
    using assms(1-3) by (blast intro: lockstep.reachable_inv)
  then have "pc_ok (strand_ntxns w ! i) (lk_txn s) (Executing k)"
    using assms(4,5) by (auto simp: lk_inv_def)
  with inv have "have_txn (strand_ntxns w) k \<subseteq> have_arrived (lk_pc s) k"
    by (auto simp: lk_inv_def)
  then have "k < arrived (lk_pc s ! i')"
    using assms(6,7) by (auto simp: have_txn_def have_arrived_def)
  then show ?thesis by auto
qed

lemma lk_enabled:
  assumes inv: "lk_inv ns no_txn s"
    and ok: "\<forall>i < length ns. \<forall>k. lk_pc s ! i = Finished k \<longrightarrow> k = ns ! i"
    and maxt: "\<forall>i < length ns. ns ! i \<le> no_txn"
    and stuck: "\<nexists>s'. lk_step ns no_txn s s'"
  shows "lk_txn s = no_txn \<or> no_txn < lk_txn s" and "\<forall>i < length ns. lk_pc s ! i = Finished (ns ! i)"
proof -
  have len: "length (lk_pc s) = length ns" using inv by (simp add: lk_inv_def)
  have no_exec: "lk_pc s ! i \<noteq> Executing k" if "i < length ns" for i k
    using stuck lk_step.fail [of i s k ns no_txn] len that by auto
  have no_arr: "lk_pc s ! i \<noteq> Arriving k" if "i < length ns" for i k
  proof
    assume a: "lk_pc s ! i = Arriving k"
    then have "pc_ok (ns ! i) (lk_txn s) (Arriving k)" and "ns ! i \<le> length (lk_bar s)"
      using inv that by (auto simp: lk_inv_def)
    then have k: "k < ns ! i" "k < length (lk_bar s)" by auto
    then have "i \<in> have_txn ns k" using that by (simp add: have_txn_def)
    then have "0 < card (have_txn ns k)" by (auto simp: card_gt_0_iff)
    moreover have "card (have_txn ns k) \<le> card {i. i < length ns}"
      by (rule card_mono) (auto simp: have_txn_def)
    moreover have "length ns < 2 ^ 31" using inv by (simp only: lk_inv_def)
    ultimately have "(of_nat (card (have_txn ns k)) :: u32) > 0"
      by (simp add: word_less_nat_alt unsigned_of_nat take_bit_nat_eq_self)
    then have "\<exists>b. wait_barrier_arrive (lk_bar s ! k) = Inr b"
      using inv k by (simp add: wait_barrier_arrive_def lk_inv_def bar_ok_def)
    then show False using stuck lk_step.arrive [of i s k _ ns no_txn] a len that by auto
  qed
  have blocked: "lk_txn s \<le> k" if "i < length ns" "lk_pc s ! i = Blocked k" for i k
  proof (rule ccontr)
    assume n: "\<not> lk_txn s \<le> k"
    have "pc_ok (ns ! i) (lk_txn s) (Blocked k)" and "ns ! i \<le> length (lk_bar s)"
      using inv that by (auto simp: lk_inv_def)
    then have "bar_ok ns s k" using inv by (simp add: lk_inv_def)
    with n have "wait_barrier_pass (lk_bar s ! k) = Some 0"
      by (simp add: bar_ok_def wait_barrier_pass_def)
    then show False using stuck lk_step.pass [of i s k _ ns no_txn] that len by auto
  qed
  have all: "have_txn ns (lk_txn s) \<subseteq> have_arrived (lk_pc s) (lk_txn s)"
  proof
    fix i assume "i \<in> have_txn ns (lk_txn s)"
    then have i: "i < length ns" "lk_txn s < ns ! i" by (auto simp: have_txn_def)
    then have "lk_txn s < arrived (lk_pc s ! i)"
      using no_exec no_arr blocked ok by (cases "lk_pc s ! i") (auto simp: less_Suc_eq_le)
    then show "i \<in> have_arrived (lk_pc s) (lk_txn s)" using i len by (simp add: have_arrived_def)
  qed
  show "lk_txn s = no_txn \<or> no_txn < lk_txn s"
  proof (rule ccontr)
    assume "\<not> ?thesis"
    then have t: "lk_txn s < no_txn" by simp
    then have "lk_txn s < length (lk_bar s)" using inv by (simp add: lk_inv_def)
    then have "barrier_notreached (lk_bar s ! lk_txn s) = 0"
      using all count_reaches_limit [OF inv] by simp
    then show False using stuck t lk_step.release [of s no_txn ns] by auto
  qed
  then show "\<forall>i < length ns. lk_pc s ! i = Finished (ns ! i)"
  proof (intro allI impI)
    fix i assume t: "lk_txn s = no_txn \<or> no_txn < lk_txn s" and i: "i < length ns"
    have "pc_ok (ns ! i) (lk_txn s) (lk_pc s ! i)" using inv i by (simp add: lk_inv_def)
    with i t no_exec no_arr blocked ok maxt show "lk_pc s ! i = Finished (ns ! i)"
      by (cases "lk_pc s ! i") force+
  qed
qed

text \<open>
  C12. The barriers cannot deadlock a run in which no strand fails: from every state the
  system can reach, as long as each strand that left did so after its last transaction,
  there is a step to take until all strands have left and all barriers are released.
\<close>

theorem barriers_do_not_deadlock:
  assumes "lk_start w s0" and "length (strand_ntxns w) < 2 ^ 31" and "(lk_steps w)\<^sup>*\<^sup>* s0 s"
    and "\<forall>i < length (strand_ntxns w). \<forall>k. lk_pc s ! i = Finished k \<longrightarrow> k = strand_ntxns w ! i"
  shows "(\<exists>s'. lk_steps w s s') \<or>
    (nat (workorder_max_txn w) \<le> lk_txn s \<and>
     (\<forall>i < length (strand_ntxns w). lk_pc s ! i = Finished (strand_ntxns w ! i)))"
proof -
  have inv: "lk_inv (strand_ntxns w) (nat (workorder_max_txn w)) s"
    using assms(1-3) by (blast intro: lockstep.reachable_inv)
  have "\<forall>i < length (strand_ntxns w). strand_ntxns w ! i \<le> nat (workorder_max_txn w)"
    using lk_start_max [OF assms(1,2)] set_strand_ntxns by (metis nth_mem)
  from lk_enabled [OF inv assms(4) this] show ?thesis
    by (auto simp: lk_steps_def)
qed

section \<open>A run\<close>

definition pair_of_strands :: workorder where
  \<comment> \<open>an example: a group of two strands with one transaction\<close>
  "pair_of_strands = \<lparr>w_name = ''pair'',
     w_grp = [zero_group\<lparr>g_nthreads := 2, g_ntxn := 1, g_tlist := [zero_txn]\<rparr>]\<rparr>"

definition pair_state :: "u32 \<Rightarrow> bool \<Rightarrow> pc \<Rightarrow> pc \<Rightarrow> nat \<Rightarrow> lk" where
  "pair_state n l p q t = \<lparr>lk_bar = [\<lparr>b_count = n, b_limit = 2, b_locked = l\<rparr>], lk_pc = [p, q], lk_txn = t\<rparr>"

lemma pair_start: "lk_start pair_of_strands (pair_state 0 True (Arriving 0) (Arriving 0) 0)"
  and pair_ntxns: "strand_ntxns pair_of_strands = [1, 1]"
  and pair_max: "workorder_max_txn pair_of_strands = 1"
proof -
  have "shm_init_barriers_master pair_of_strands = Inr (0, [\<lparr>b_count = 0, b_limit = 2, b_locked = True\<rparr>])"
    by code_simp
  moreover show n: "strand_ntxns pair_of_strands = [1, 1]"
    by code_simp
  ultimately show "lk_start pair_of_strands (pair_state 0 True (Arriving 0) (Arriving 0) 0)"
    by (simp add: lk_start_def pair_state_def next_pc_def)
  show "workorder_max_txn pair_of_strands = 1" by code_simp
qed

lemma pair_run: "(lk_steps pair_of_strands)\<^sup>*\<^sup>* (pair_state 0 True (Arriving 0) (Arriving 0) 0)
    (pair_state 2 False (Executing 0) (Blocked 0) 1)"
proof -
  let ?st = "lk_steps pair_of_strands"
  note [simp] = lk_steps_def pair_ntxns pair_max pair_state_def wait_barrier_arrive_def
    wait_barrier_pass_def barrier_notreached_def unlock_barrier_def
  have "?st (pair_state 0 True (Arriving 0) (Arriving 0) 0) (pair_state 1 True (Blocked 0) (Arriving 0) 0)"
    using lk_step.arrive [of 0 "pair_state 0 True (Arriving 0) (Arriving 0) 0" 0] by simp
  also have "?st\<^sup>*\<^sup>* \<dots> (pair_state 2 True (Blocked 0) (Blocked 0) 0)"
    using lk_step.arrive [of 1 "pair_state 1 True (Blocked 0) (Arriving 0) 0" 0] by (intro r_into_rtranclp) simp
  also have "?st \<dots> (pair_state 2 False (Blocked 0) (Blocked 0) 1)"
    using lk_step.release [of "pair_state 2 True (Blocked 0) (Blocked 0) 0" 1 "[1, 1]"] by simp
  also have "?st \<dots> (pair_state 2 False (Executing 0) (Blocked 0) 1)"
    using lk_step.pass [of 0 "pair_state 2 False (Blocked 0) (Blocked 0) 1" 0 0] by simp
  finally show ?thesis by simp
qed

lemma strands_in_lockstep_witness:
  "0 < arrived (lk_pc (pair_state 2 False (Executing 0) (Blocked 0) 1) ! 1)"
  using strands_in_lockstep [OF pair_start _ pair_run, of 0 0 1]
  by (simp add: pair_ntxns) (simp add: pair_state_def)

lemma barriers_do_not_deadlock_witness:
  "\<exists>s'. lk_steps pair_of_strands (pair_state 2 False (Executing 0) (Blocked 0) 1) s'"
proof -
  let ?s = "pair_state 2 False (Executing 0) (Blocked 0) 1"
  have "\<forall>i < length (strand_ntxns pair_of_strands). \<forall>k. lk_pc ?s ! i = Finished k \<longrightarrow>
      k = strand_ntxns pair_of_strands ! i"
    by (auto simp: pair_ntxns pair_state_def less_Suc_eq nth_Cons split: nat.splits)
  then have "(\<exists>s'. lk_steps pair_of_strands ?s s') \<or>
      (\<forall>i < length (strand_ntxns pair_of_strands). lk_pc ?s ! i = Finished (strand_ntxns pair_of_strands ! i))"
    using barriers_do_not_deadlock [OF pair_start _ pair_run] by (auto simp: pair_ntxns)
  then show ?thesis by (auto simp: pair_ntxns pair_state_def)
qed

end
