(* ===== verification/Stats.thy ===== *)
theory Stats
  imports Prelude "HOL-Library.Multiset"
begin

unbundle bit_operations_syntax

text \<open>
  Statistics (\<open>src/stats.h\<close>, \<open>src/stats.c\<close>): the counters of a flowop, transaction, group or
  strand, their update at the begin and the end of each, their aggregation, and the history
  buffer. The clock is the environment: \<open>clk n\<close> is the answer to the \<open>n\<close>th reading, and a
  counter of readings is threaded through. \<open>GETHRVTIME\<close> is 0, as where there is no
  \<open>gethrvtime\<close>; the hardware counters (\<open>USE_CPC\<close>), which are not compiled in here,
  are added in \<open>Hwcounter\<close>.
\<close>

section \<open>The counters\<close>

datatype stats_type = NSTAT_FLOWOP | NSTAT_TXN | NSTAT_GROUP | NSTAT_APP | NSTAT_STRAND

record newstats =
  ns_start_time :: u64
  ns_end_time :: u64
  ns_time_used_start :: u64
  ns_cpu_time_start :: u64
  ns_max :: u64
  ns_min :: u64
  ns_size :: u64
  ns_count :: u64
  ns_time_used :: u64
  ns_cpu_time :: u64
  ns_pic0 :: u64
  ns_pic1 :: u64
  ns_type :: stats_type
  ns_sid :: u32
  ns_gid :: u32
  ns_tid :: u32
  ns_fid :: u32
  ns_name :: string

definition zero_stats :: newstats where
  "zero_stats = \<lparr>ns_start_time = 0, ns_end_time = 0, ns_time_used_start = 0, ns_cpu_time_start = 0,
     ns_max = 0, ns_min = 0, ns_size = 0, ns_count = 0, ns_time_used = 0, ns_cpu_time = 0,
     ns_pic0 = 0, ns_pic1 = 0, ns_type = NSTAT_FLOWOP, ns_sid = 0, ns_gid = 0, ns_tid = 0,
     ns_fid = 0, ns_name = []\<rparr>"

definition FLOWOP_STATS :: u32 where "FLOWOP_STATS = 1"
definition TXN_STATS :: u32 where "TXN_STATS = 2"
definition PACKET_STATS :: u32 where "PACKET_STATS = 8"
definition THREAD_STATS :: u32 where "THREAD_STATS = 16"
definition ERROR_STATS :: u32 where "ERROR_STATS = 32"
definition HISTORY_STATS :: u32 where "HISTORY_STATS = 256"
definition GROUP_STATS :: u32 where "GROUP_STATS = 512"
definition UTILIZATION_STATS :: u32 where "UTILIZATION_STATS = 2048"
definition NO_STATS :: u32 where "NO_STATS = 4096"

definition enabled :: "u32 \<Rightarrow> u32 \<Rightarrow> bool" where
  \<comment> \<open>the \<open>ENABLED_...\<close> macros on \<open>options.copt\<close>\<close>
  "enabled flag copt = (copt AND flag \<noteq> 0)"

lemmas stats_flags = FLOWOP_STATS_def TXN_STATS_def GROUP_STATS_def HISTORY_STATS_def NO_STATS_def
  UTILIZATION_STATS_def ERROR_STATS_def THREAD_STATS_def PACKET_STATS_def

definition newstat_begin :: "u32 \<Rightarrow> (nat \<Rightarrow> u64) \<Rightarrow> newstats option \<times> nat \<Rightarrow> newstats option \<times> nat" where
  \<comment> \<open>a null pointer is left alone\<close>
  "newstat_begin copt clk x =
     (case x of
        (None, t) \<Rightarrow> (None, t)
      | (Some ns, t) \<Rightarrow>
          let (ns1, t1) = (if ns_start_time ns = 0 then (ns\<lparr>ns_start_time := clk t\<rparr>, t + 1) else (ns, t));
              ns2 = (if ns_min ns1 = 0 then ns1\<lparr>ns_min := - 1\<rparr> else ns1);
              ns3 = ns2\<lparr>ns_time_used_start := clk t1\<rparr>;
              ns4 = (if enabled UTILIZATION_STATS copt then ns3\<lparr>ns_cpu_time_start := 0\<rparr> else ns3)
          in (Some ns4, t1 + 1))"

definition newstat_end ::
  "u32 \<Rightarrow> (nat \<Rightarrow> u64) \<Rightarrow> u64 \<Rightarrow> u64 \<Rightarrow> newstats option \<times> nat \<Rightarrow> newstats option \<times> nat" where
  "newstat_end copt clk sz cnt x =
     (case x of
        (None, t) \<Rightarrow> (None, t)
      | (Some ns, t) \<Rightarrow>
          let ns1 = ns\<lparr>ns_end_time := clk t\<rparr>;
              ns2 = (if enabled UTILIZATION_STATS copt then ns1\<lparr>ns_cpu_time_start := 0\<rparr> else ns1);
              ns3 = ns2\<lparr>ns_size := ns_size ns2 + sz, ns_count := ns_count ns2 + cnt\<rparr>;
              delta = ns_end_time ns3 - ns_time_used_start ns3
          in (Some (ns3\<lparr>ns_time_used := ns_time_used ns3 + delta,
                        ns_max := (if ns_max ns3 > delta then ns_max ns3 else delta),
                        ns_min := (if ns_min ns3 < delta then ns_min ns3 else delta)\<rparr>), t + 1))"

definition add_stats :: "newstats \<Rightarrow> newstats \<Rightarrow> newstats" where
  \<comment> \<open>\<open>s1 = s1 + s2\<close>\<close>
  "add_stats s1 s2 = s1\<lparr>
     ns_count := ns_count s1 + ns_count s2,
     ns_time_used := ns_time_used s1 + ns_time_used s2,
     ns_cpu_time := ns_cpu_time s1 + ns_cpu_time s2,
     ns_size := ns_size s1 + ns_size s2,
     ns_pic0 := ns_pic0 s1 + ns_pic0 s2,
     ns_pic1 := ns_pic1 s1 + ns_pic1 s2,
     ns_start_time := min (ns_start_time s1) (ns_start_time s2),
     ns_end_time := max (ns_end_time s1) (ns_end_time s2),
     ns_max := max (ns_max s1) (ns_max s2),
     ns_min := min (ns_min s1) (ns_min s2)\<rparr>"

definition update_aggr_stat :: "newstats list \<Rightarrow> newstats \<Rightarrow> newstats" where
  \<comment> \<open>over the strands' counters, in order\<close>
  "update_aggr_stat nss agg =
     fold (\<lambda>ns a. a\<lparr>ns_size := ns_size a + ns_size ns, ns_count := ns_count a + ns_count ns\<rparr>) nss
       (agg\<lparr>ns_size := 0, ns_count := 0\<rparr>)"

section \<open>History\<close>

definition HISTORY_PER_STRAND :: nat where "HISTORY_PER_STRAND = 8192"

record hist =
  h_type :: stats_type
  h_etime :: u64
  h_delta :: u64

record history =
  hi_buf :: "hist list"       \<comment> \<open>the \<open>hsize\<close> entries of the buffer\<close>
  hi_file :: "hist list"      \<comment> \<open>the entries printed to the history file\<close>

definition flush_history :: "history \<Rightarrow> history" where
  "flush_history h = \<lparr>hi_buf = [], hi_file = hi_file h @ hi_buf h\<rparr>"

definition history_record :: "stats_type \<Rightarrow> u64 \<Rightarrow> u64 \<Rightarrow> history \<Rightarrow> history" where
  "history_record type etime delta h =
     (let h1 = (if length (hi_buf h) \<ge> HISTORY_PER_STRAND then flush_history h else h)
      in h1\<lparr>hi_buf := hi_buf h1 @ [\<lparr>h_type = type, h_etime = etime, h_delta = delta\<rparr>]\<rparr>)"

section \<open>Events\<close>

datatype stat_event = FLOWOP_BEGIN | FLOWOP_END | TXN_BEGIN | TXN_END | GROUP_BEGIN | GROUP_END

record stat_ctx =
  sc_strand :: newstats             \<comment> \<open>\<open>STRAND_STAT(s)\<close>\<close>
  sc_history :: "history option"    \<comment> \<open>null before \<open>history_init\<close>\<close>
  sc_stat :: "newstats option"      \<comment> \<open>the counters the event is about, or null\<close>
  sc_tick :: nat

definition flowop_timed :: "u32 \<Rightarrow> bool" where
  "flowop_timed copt = (enabled FLOWOP_STATS copt \<or> enabled GROUP_STATS copt \<or> enabled HISTORY_STATS copt)"

definition sc_begin :: "u32 \<Rightarrow> (nat \<Rightarrow> u64) \<Rightarrow> stat_ctx \<Rightarrow> stat_ctx" where
  "sc_begin copt clk c =
     (let (ns, t) = newstat_begin copt clk (sc_stat c, sc_tick c) in c\<lparr>sc_stat := ns, sc_tick := t\<rparr>)"

definition sc_end :: "u32 \<Rightarrow> (nat \<Rightarrow> u64) \<Rightarrow> u64 \<Rightarrow> u64 \<Rightarrow> stat_ctx \<Rightarrow> stat_ctx" where
  "sc_end copt clk sz cnt c =
     (let (ns, t) = newstat_end copt clk sz cnt (sc_stat c, sc_tick c)
      in c\<lparr>sc_stat := ns, sc_tick := t\<rparr>)"

definition sc_record :: "u32 \<Rightarrow> stat_ctx \<Rightarrow> c_stop + stat_ctx" where
  \<comment> \<open>the history entry at the end of a flowop; \<open>stats\<close> and the buffer are dereferenced\<close>
  "sc_record copt c =
     (if enabled HISTORY_STATS copt then
        (case (sc_stat c, sc_history c) of
           (Some ns, Some h) \<Rightarrow>
             Inr (c\<lparr>sc_history := Some (history_record NSTAT_FLOWOP (ns_end_time ns)
                       (ns_end_time ns - ns_time_used_start ns) h)\<rparr>)
         | _ \<Rightarrow> Inl Undefined)
      else Inr c)"

definition stats_update ::
  "u32 \<Rightarrow> (nat \<Rightarrow> u64) \<Rightarrow> stat_event \<Rightarrow> u64 \<Rightarrow> u64 \<Rightarrow> stat_ctx \<Rightarrow> c_stop + stat_ctx" where
  "stats_update copt clk ev sz cnt c =
     (if enabled NO_STATS copt then Inr c
      else case ev of
        FLOWOP_BEGIN \<Rightarrow> Inr (if flowop_timed copt then sc_begin copt clk c else c)
      | FLOWOP_END \<Rightarrow>
          (let c1 = c\<lparr>sc_strand := (sc_strand c)\<lparr>ns_size := ns_size (sc_strand c) + sz * cnt,
                                                ns_count := ns_count (sc_strand c) + cnt\<rparr>\<rparr>
           in if flowop_timed copt then sc_record copt (sc_end copt clk sz cnt c1) else Inr c1)
      | TXN_BEGIN \<Rightarrow> Inr (if enabled TXN_STATS copt then sc_begin copt clk c else c)
      | GROUP_BEGIN \<Rightarrow> Inr (if enabled GROUP_STATS copt then sc_begin copt clk c else c)
      | TXN_END \<Rightarrow> Inr (if enabled TXN_STATS copt then sc_end copt clk 0 cnt c else c)
      | GROUP_END \<Rightarrow> Inr (if enabled GROUP_STATS copt then sc_end copt clk 0 cnt c else c))"

section \<open>Aggregation\<close>

text \<open>An aggregation whose result does not depend on the order of its items.\<close>

locale aggregation =
  fixes add :: "'s \<Rightarrow> 'a \<Rightarrow> 's"
  assumes add_swap: "add (add s a) b = add (add s b) a"
begin

lemma foldl_snoc_swap: "foldl add (add s a) xs = add (foldl add s xs) a"
  by (induction xs arbitrary: s) (simp_all add: add_swap)

lemma foldl_remove: "x \<in> set xs \<Longrightarrow> foldl add s xs = foldl add (add s x) (remove1 x xs)"
  by (induction xs arbitrary: s) (auto simp: add_swap)

lemma foldl_order: "mset xs = mset ys \<Longrightarrow> foldl add s xs = foldl add s ys"
proof (induction xs arbitrary: s ys)
  case (Cons x xs)
  then have "x \<in> set ys" using mset_eq_setD by fastforce
  moreover from Cons.prems have "mset xs = mset (remove1 x ys)"
    by (metis mset_remove1 mset.simps(2) add_mset_remove_trivial)
  ultimately show ?case using Cons.IH foldl_remove by simp
qed simp

end

interpretation stats_sum: aggregation add_stats
  by unfold_locales (simp add: add_stats_def add.commute add.left_commute min.commute min.left_commute
      max.commute max.left_commute)

text \<open>
  Adding up the counters of several strands gives the same total in any order.
\<close>

lemma add_stats_any_order:
  assumes "mset nss = mset nss'"
  shows "foldl add_stats s nss = foldl add_stats s nss'"
  using assms by (rule stats_sum.foldl_order)

lemma add_stats_any_order_witness:
  "foldl add_stats zero_stats [zero_stats\<lparr>ns_size := 3\<rparr>, zero_stats\<lparr>ns_size := 4\<rparr>] =
   foldl add_stats zero_stats [zero_stats\<lparr>ns_size := 4\<rparr>, zero_stats\<lparr>ns_size := 3\<rparr>]"
  by (rule add_stats_any_order) simp

lemma update_aggr_stat_sums:
  "update_aggr_stat nss agg =
     agg\<lparr>ns_size := sum_list (map ns_size nss), ns_count := sum_list (map ns_count nss)\<rparr>"
proof -
  have "fold (\<lambda>ns a. a\<lparr>ns_size := ns_size a + ns_size ns, ns_count := ns_count a + ns_count ns\<rparr>) nss a =
      a\<lparr>ns_size := ns_size a + sum_list (map ns_size nss), ns_count := ns_count a + sum_list (map ns_count nss)\<rparr>"
    for a :: newstats
    by (induction nss arbitrary: a) (simp_all add: add.assoc)
  then show ?thesis by (simp add: update_aggr_stat_def)
qed

section \<open>A run of events\<close>

fun flowop_run :: "u32 \<Rightarrow> (nat \<Rightarrow> u64) \<Rightarrow> (u64 \<times> u64) list \<Rightarrow> stat_ctx \<Rightarrow> c_stop + stat_ctx" where
  \<comment> \<open>the begin and end events of successive executions of a flowop, each with the size and the
     count it reports\<close>
  "flowop_run copt clk [] c = Inr c"
| "flowop_run copt clk ((sz, n) # xs) c =
     cbind (stats_update copt clk FLOWOP_BEGIN 0 0 c) (\<lambda>c1.
     cbind (stats_update copt clk FLOWOP_END sz n c1) (flowop_run copt clk xs))"

lemma sc_begin_strand [simp]: "sc_strand (sc_begin copt clk c) = sc_strand c"
  by (simp add: sc_begin_def split: prod.splits)
lemma sc_end_strand [simp]: "sc_strand (sc_end copt clk sz n c) = sc_strand c"
  by (simp add: sc_end_def split: prod.splits)

lemma sc_record_strand: "sc_record copt c = Inr c' \<Longrightarrow> sc_strand c' = sc_strand c"
  by (auto simp: sc_record_def split: option.splits if_splits)

lemma stats_update_begin_strand:
  "stats_update copt clk FLOWOP_BEGIN sz n c = Inr c' \<Longrightarrow> sc_strand c' = sc_strand c"
  by (auto simp: stats_update_def split: if_splits)

lemma stats_update_end_strand:
  assumes "stats_update copt clk FLOWOP_END sz n c = Inr c'" and "\<not> enabled NO_STATS copt"
  shows "ns_size (sc_strand c') = ns_size (sc_strand c) + sz * n \<and>
    ns_count (sc_strand c') = ns_count (sc_strand c) + n"
  using assms by (auto simp: stats_update_def Let_def dest!: sc_record_strand split: if_splits)

text \<open>
  C21. Unless statistics are off, a strand's counters are the sums of what its flowops report:
  of the counts, and of the sizes times the counts, modulo \<open>2 ^ 64\<close>, whatever kinds of
  statistics are collected.
\<close>

theorem strand_totals:
  assumes "flowop_run copt clk xs c = Inr c'" and "\<not> enabled NO_STATS copt"
  shows "ns_count (sc_strand c') = ns_count (sc_strand c) + sum_list (map snd xs) \<and>
    ns_size (sc_strand c') = ns_size (sc_strand c) + sum_list (map (\<lambda>(sz, n). sz * n) xs)"
  using assms(1)
proof (induction xs arbitrary: c)
  case (Cons x xs)
  obtain sz n where x: "x = (sz, n)" by (cases x)
  from Cons.prems x obtain c1 c2 where c1: "stats_update copt clk FLOWOP_BEGIN 0 0 c = Inr c1"
    and c2: "stats_update copt clk FLOWOP_END sz n c1 = Inr c2" and r: "flowop_run copt clk xs c2 = Inr c'"
    by (auto simp: cbind_Inr)
  from Cons.IH [OF r] stats_update_end_strand [OF c2 assms(2)] stats_update_begin_strand [OF c1]
  show ?case by (simp add: x add.assoc)
qed simp

definition sample_ctx :: stat_ctx where
  "sample_ctx = \<lparr>sc_strand = zero_stats, sc_history = None, sc_stat = Some zero_stats, sc_tick = 0\<rparr>"

lemma strand_totals_witness:
  "\<exists>c'. flowop_run FLOWOP_STATS (\<lambda>n. of_nat (100 * n)) [(8, 3), (10, 2)] sample_ctx = Inr c' \<and>
     ns_size (sc_strand c') = 44 \<and> ns_count (sc_strand c') = 5"
proof -
  let ?run = "flowop_run FLOWOP_STATS (\<lambda>n. of_nat (100 * n)) [(8, 3), (10, 2)] sample_ctx"
  have on: "\<not> enabled NO_STATS FLOWOP_STATS" by (simp add: enabled_def stats_flags)
  have "\<exists>c'. ?run = Inr c'"
    by (simp add: stats_update_def enabled_def stats_flags Let_def sc_record_def)
  then obtain c' where "?run = Inr c'" by blast
  with strand_totals [OF this on] show ?thesis
    by (simp add: sample_ctx_def zero_stats_def)
qed

section \<open>Times\<close>

text \<open>The begin and the end of successive executions, on one object's counters alone.\<close>

fun timed_run :: "u32 \<Rightarrow> (nat \<Rightarrow> u64) \<Rightarrow> (u64 \<times> u64) list \<Rightarrow> newstats \<times> nat \<Rightarrow> newstats \<times> nat" where
  "timed_run copt clk [] x = x"
| "timed_run copt clk ((sz, n) # xs) (ns, t) =
     (case newstat_end copt clk sz n (newstat_begin copt clk (Some ns, t)) of
        (Some ns', t') \<Rightarrow> timed_run copt clk xs (ns', t')
      | (None, t') \<Rightarrow> (ns, t'))"

fun durations :: "u32 \<Rightarrow> (nat \<Rightarrow> u64) \<Rightarrow> (u64 \<times> u64) list \<Rightarrow> newstats \<times> nat \<Rightarrow> u64 list" where
  \<comment> \<open>the time from the begin to the end of each\<close>
  "durations copt clk [] x = []"
| "durations copt clk ((sz, n) # xs) (ns, t) =
     (case newstat_end copt clk sz n (newstat_begin copt clk (Some ns, t)) of
        (Some ns', t') \<Rightarrow> (ns_end_time ns' - ns_time_used_start ns') # durations copt clk xs (ns', t')
      | (None, t') \<Rightarrow> [])"

lemma newstat_begin_Some:
  "\<exists>ns' t'. newstat_begin copt clk (Some ns, t) = (Some ns', t') \<and> ns_time_used ns' = ns_time_used ns \<and>
    ns_max ns' = ns_max ns \<and> ns_min ns' = (if ns_min ns = 0 then - 1 else ns_min ns)"
  by (cases "ns_start_time ns = 0"; cases "enabled UTILIZATION_STATS copt")
    (simp_all add: newstat_begin_def Let_def)

lemma newstat_end_Some:
  "\<exists>ns' t'. newstat_end copt clk sz n (Some ns, t) = (Some ns', t') \<and>
    (let d = ns_end_time ns' - ns_time_used_start ns' in
     ns_time_used ns' = ns_time_used ns + d \<and> ns_max ns' = max (ns_max ns) d \<and> ns_min ns' = min (ns_min ns) d)"
  by (cases "enabled UTILIZATION_STATS copt")
    (auto simp: newstat_end_def Let_def max_def min_def)

lemma sample_updates:
  assumes "newstat_end copt clk sz n (newstat_begin copt clk (Some ns, t)) = (Some ns', t')"
  shows "let d = ns_end_time ns' - ns_time_used_start ns' in
    ns_time_used ns' = ns_time_used ns + d \<and> ns_max ns' = max (ns_max ns) d \<and>
    ns_min ns' = min (if ns_min ns = 0 then - 1 else ns_min ns) d"
proof -
  obtain ns1 t1 where b: "newstat_begin copt clk (Some ns, t) = (Some ns1, t1)"
      "ns_time_used ns1 = ns_time_used ns" "ns_max ns1 = ns_max ns"
      "ns_min ns1 = (if ns_min ns = 0 then - 1 else ns_min ns)"
    using newstat_begin_Some by blast
  with newstat_end_Some [of copt clk sz n ns1 t1] assms show ?thesis by (simp add: Let_def)
qed

lemma sample_some: "\<exists>ns' t'. newstat_end copt clk sz n (newstat_begin copt clk (Some ns, t)) = (Some ns', t')"
  using newstat_begin_Some newstat_end_Some by metis

lemma timed_run_durations:
  assumes "0 \<notin> set (durations copt clk xs (ns, t))" and "xs \<noteq> []"
  shows "let ds = durations copt clk xs (ns, t); ns' = fst (timed_run copt clk xs (ns, t)) in
    ns_time_used ns' = ns_time_used ns + sum_list ds \<and> ns_max ns' = fold max ds (ns_max ns) \<and>
    ns_min ns' = fold min ds (if ns_min ns = 0 then - 1 else ns_min ns)"
  using assms
proof (induction xs arbitrary: ns t)
  case (Cons x xs)
  obtain sz n where x: "x = (sz, n)" by (cases x)
  obtain ns1 t1 where s: "newstat_end copt clk sz n (newstat_begin copt clk (Some ns, t)) = (Some ns1, t1)"
    using sample_some by blast
  note u = sample_updates [OF s]
  show ?case
  proof (cases "xs = []")
    case True
    with x s u show ?thesis by (simp add: Let_def max.commute min.commute)
  next
    case False
    have ne: "ns_min ns1 \<noteq> 0"
      using u Cons.prems(1) by (auto simp: x s Let_def min_def split: if_splits)
    from Cons.IH [of ns1 t1] False Cons.prems(1) ne u x s show ?thesis
      by (simp add: Let_def max.commute min.commute add.assoc)
  qed
qed simp

text \<open>
  The times a flowop reports are those of its executions: the time used is their sum,
  the maximum and the minimum are the longest and the shortest, as long as none took no time
  at all (a minimum of 0 is taken for an unset one and forgotten).
\<close>

lemma reported_times:
  assumes "0 \<notin> set (durations copt clk xs (zero_stats, t))" and "xs \<noteq> []"
  shows "let ds = durations copt clk xs (zero_stats, t); ns = fst (timed_run copt clk xs (zero_stats, t)) in
    ns_time_used ns = sum_list ds \<and> ns_max ns = Max (set ds) \<and> ns_min ns = Min (set ds)"
proof -
  obtain d ds where ds: "durations copt clk xs (zero_stats, t) = d # ds"
  proof -
    obtain sz n xs' where "xs = (sz, n) # xs'" using assms(2) by (cases xs) auto
    moreover obtain ns' t' where
      "newstat_end copt clk sz n (newstat_begin copt clk (Some zero_stats, t)) = (Some ns', t')"
      using sample_some by blast
    ultimately show thesis using that by simp
  qed
  have "fold max (d # ds) 0 = Max (set (d # ds))"
    using Max.set_eq_fold [of d ds] by (simp add: max_absorb2)
  moreover have "fold min (d # ds) (- 1) = Min (set (d # ds))"
    using Min.set_eq_fold [of d ds] by (simp add: min_absorb1)
  moreover have "ns_time_used zero_stats = 0" "ns_max zero_stats = 0" "ns_min zero_stats = 0"
    by (simp_all add: zero_stats_def)
  ultimately show ?thesis
    using timed_run_durations [OF assms] by (simp add: Let_def ds)
qed

lemma reported_times_witness:
  "let ns = fst (timed_run FLOWOP_STATS (\<lambda>n. of_nat (n * n + 5)) [(8, 1), (8, 1)] (zero_stats, 0))
   in ns_min ns \<le> ns_max ns"
proof -
  let ?clk = "(\<lambda>n. of_nat (n * n + 5)) :: nat \<Rightarrow> u64"
  have d: "durations FLOWOP_STATS ?clk [(8, 1), (8, 1)] (zero_stats, 0) = [3, 7]"
    by (simp add: newstat_begin_def newstat_end_def Let_def zero_stats_def enabled_def stats_flags)
  have "0 \<notin> set (durations FLOWOP_STATS ?clk [(8, 1), (8, 1)] (zero_stats, 0))"
    unfolding d by simp
  from reported_times [OF this] show ?thesis
    unfolding d Let_def by (simp del: timed_run.simps)
qed

section \<open>History\<close>

definition hist_lines :: "history \<Rightarrow> hist list" where
  \<comment> \<open>everything recorded so far\<close>
  "hist_lines h = hi_file h @ hi_buf h"

text \<open>
  The history loses nothing and never overruns its buffer: after any records, the file
  and the buffer together hold them in order, and a final flush prints them all.
\<close>

lemma history_complete:
  "let h = fold (\<lambda>(ty, e, d) h. history_record ty e d h) xs \<lparr>hi_buf = [], hi_file = []\<rparr> in
     hist_lines h = map (\<lambda>(ty, e, d). \<lparr>h_type = ty, h_etime = e, h_delta = d\<rparr>) xs \<and>
     length (hi_buf h) \<le> HISTORY_PER_STRAND \<and> hi_file (flush_history h) = hist_lines h"
proof -
  have "hist_lines (fold (\<lambda>(ty, e, d) h. history_record ty e d h) xs h) =
      hist_lines h @ map (\<lambda>(ty, e, d). \<lparr>h_type = ty, h_etime = e, h_delta = d\<rparr>) xs \<and>
      length (hi_buf (fold (\<lambda>(ty, e, d) h. history_record ty e d h) xs h)) \<le> HISTORY_PER_STRAND"
    if "length (hi_buf h) \<le> HISTORY_PER_STRAND" for h
    using that
  proof (induction xs arbitrary: h)
    case (Cons x xs)
    obtain ty e d where x: "x = (ty, e, d)" by (cases x)
    have "length (hi_buf (history_record ty e d h)) \<le> HISTORY_PER_STRAND"
      using Cons.prems by (auto simp: history_record_def Let_def flush_history_def HISTORY_PER_STRAND_def)
    moreover have "hist_lines (history_record ty e d h) =
        hist_lines h @ [\<lparr>h_type = ty, h_etime = e, h_delta = d\<rparr>]"
      by (simp add: history_record_def Let_def flush_history_def hist_lines_def)
    ultimately show ?case using Cons.IH by (simp add: x)
  qed simp
  from this [of "\<lparr>hi_buf = [], hi_file = []\<rparr>"] show ?thesis
    by (simp add: Let_def flush_history_def hist_lines_def)
qed

end
