(* ===== verification/Pool.thy ===== *)
theory Pool
  imports Protocols
begin

text \<open>
  A strand's connections (\<open>strand_add_connection\<close>, \<open>strand_delete_connection\<close>,
  \<open>strand_get_connection\<close> and its cache, \<open>src/strand.c\<close>), at the level of pointers: a store
  maps addresses to protocol objects, \<open>cpool\<close> heads a doubly-linked list of them, and
  \<open>ccache\<close> is an array of eight pointers into it. An access through a pointer to a freed or
  missing object is \<^const>\<open>Undefined\<close>; a walk of the list need not end, so it is a partial
  function.

  The locale \<open>conn_store\<close> is what the flowop library relies on: a list of connections and
  their ids. The pointer structure provides it (\<open>pool\<close>), which gives that the walks end, that
  the cache never holds a pointer to a freed object, and that it never changes an answer.
\<close>

record pnode = protocol +
  p_next :: "nat option"
  p_prev :: "nat option"

type_synonym pstore = "nat \<Rightarrow> pnode option"

record pool =
  po_store :: pstore
  po_cpool :: "nat option"
  po_ccache :: "nat option list"
  po_ccache_size :: nat
  po_replacement :: nat   \<comment> \<open>the static \<open>current_replacement\<close>\<close>

definition STRAND_CONNECTION_CACHE_SIZE :: nat where "STRAND_CONNECTION_CACHE_SIZE = 8"

definition set_prev :: "nat option \<Rightarrow> nat option \<Rightarrow> pstore \<Rightarrow> c_stop + pstore" where
  \<comment> \<open>\<open>if (p) p->prev = v\<close>\<close>
  "set_prev p v h =
     (case p of None \<Rightarrow> Inr h
      | Some a \<Rightarrow> (case h a of None \<Rightarrow> Inl Undefined | Some n \<Rightarrow> Inr (h(a \<mapsto> n\<lparr>p_prev := v\<rparr>))))"

definition set_next :: "nat option \<Rightarrow> nat option \<Rightarrow> pstore \<Rightarrow> c_stop + pstore" where
  "set_next p v h =
     (case p of None \<Rightarrow> Inr h
      | Some a \<Rightarrow> (case h a of None \<Rightarrow> Inl Undefined | Some n \<Rightarrow> Inr (h(a \<mapsto> n\<lparr>p_next := v\<rparr>))))"

definition strand_add_connection :: "nat \<Rightarrow> pool \<Rightarrow> c_stop + int \<times> pool" where
  "strand_add_connection a s =
     cbind (set_next (Some a) (po_cpool s) (po_store s)) (\<lambda>h1.
     cbind (set_prev (po_cpool s) (Some a) h1) (\<lambda>h2.
       Inr (0, s\<lparr>po_store := h2, po_cpool := Some a\<rparr>)))"

partial_function (option) find_conn :: "pstore \<Rightarrow> int \<Rightarrow> nat option \<Rightarrow> (c_stop + nat option) option" where
  \<comment> \<open>\<open>while (ptr) { if (ptr->p_id == id) ...; ptr = ptr->next; }\<close>\<close>
  "find_conn h i ptr =
     (case ptr of
        None \<Rightarrow> Some (Inr None)
      | Some a \<Rightarrow>
          (case h a of
             None \<Rightarrow> Some (Inl Undefined)
           | Some n \<Rightarrow> if p_conn n = i then Some (Inr (Some a)) else find_conn h i (p_next n)))"

definition unlink_conn :: "build_config \<Rightarrow> nat \<Rightarrow> pool \<Rightarrow> c_stop + pool" where
  \<comment> \<open>the body of \<open>strand_delete_connection\<close> once the connection is found; an object is gone
     after its destructor\<close>
  "unlink_conn cfg a s =
     (case po_store s a of
        None \<Rightarrow> Inl Undefined
      | Some n \<Rightarrow>
          cbind (set_next (p_prev n) (p_next n) (po_store s)) (\<lambda>h1.
          cbind (set_prev (p_next n) (p_prev n) h1) (\<lambda>h2.
          cbind (destroy_protocol cfg (p_type n)) (\<lambda>_.
            Inr (s\<lparr>po_store := h2(a := None),
                   po_cpool := (if po_cpool s = Some a then p_next n else po_cpool s),
                   po_ccache_size := 0\<rparr>)))))"

definition strand_delete_connection ::
  "build_config \<Rightarrow> int \<Rightarrow> pool \<Rightarrow> (c_stop + int \<times> pool) option" where
  "strand_delete_connection cfg i s =
     (case find_conn (po_store s) i (po_cpool s) of
        None \<Rightarrow> None
      | Some (Inl e) \<Rightarrow> Some (Inl e)
      | Some (Inr None) \<Rightarrow> Some (Inr (1, s))
      | Some (Inr (Some a)) \<Rightarrow> Some (cbind (unlink_conn cfg a s) (\<lambda>s'. Inr (0, s'))))"

definition strand_put_connection_in_cache :: "nat \<Rightarrow> pool \<Rightarrow> pool" where
  "strand_put_connection_in_cache a s =
     (if po_ccache_size s = STRAND_CONNECTION_CACHE_SIZE - 1 then
        s\<lparr>po_ccache := (po_ccache s)[po_replacement s := Some a],
          po_replacement := (po_replacement s + 1) mod STRAND_CONNECTION_CACHE_SIZE\<rparr>
      else s\<lparr>po_ccache := (po_ccache s)[po_ccache_size s := Some a],
             po_ccache_size := po_ccache_size s + 1\<rparr>)"

fun check_cache :: "pstore \<Rightarrow> int \<Rightarrow> nat option list \<Rightarrow> c_stop + nat option" where
  "check_cache h i [] = Inr None"
| "check_cache h i (None # cs) = check_cache h i cs"
| "check_cache h i (Some a # cs) =
     (case h a of None \<Rightarrow> Inl Undefined
      | Some n \<Rightarrow> if p_conn n = i \<or> i = - 1 then Inr (Some a) else check_cache h i cs)"

definition strand_get_connection :: "int \<Rightarrow> pool \<Rightarrow> (c_stop + nat option \<times> pool) option" where
  "strand_get_connection i s =
     (if po_cpool s = None then Some (Inr (None, s))
      else case check_cache (po_store s) i (take (po_ccache_size s) (po_ccache s)) of
        Inl e \<Rightarrow> Some (Inl e)
      | Inr (Some a) \<Rightarrow> Some (Inr (Some a, s))
      | Inr None \<Rightarrow>
          (case find_conn (po_store s) i (po_cpool s) of
             None \<Rightarrow> None
           | Some (Inl e) \<Rightarrow> Some (Inl e)
           | Some (Inr None) \<Rightarrow> Some (Inr (None, s))
           | Some (Inr (Some a)) \<Rightarrow> Some (Inr (Some a, strand_put_connection_in_cache a s))))"

definition open_connection :: "nat \<Rightarrow> protocol \<Rightarrow> pool \<Rightarrow> c_stop + int \<times> pool" where
  \<comment> \<open>a new object, its pointers zeroed by \<open>calloc\<close>, added to the strand\<close>
  "open_connection a p s =
     strand_add_connection a (s\<lparr>po_store := (po_store s)(a \<mapsto> protocol.extend p \<lparr>p_next = None, p_prev = None\<rparr>)\<rparr>)"

definition empty_pool :: pool where
  \<comment> \<open>after \<open>strand_init_group\<close>\<close>
  "empty_pool = \<lparr>po_store = Map.empty, po_cpool = None,
     po_ccache = replicate STRAND_CONNECTION_CACHE_SIZE None, po_ccache_size = 0, po_replacement = 0\<rparr>"

section \<open>The interface\<close>

fun remove_first :: "int \<Rightarrow> (nat \<times> int) list \<Rightarrow> (nat \<times> int) list" where
  "remove_first i [] = []"
| "remove_first i ((a, j) # cs) = (if j = i then cs else (a, j) # remove_first i cs)"

locale conn_store =
  fixes rep :: "'s \<Rightarrow> (nat \<times> int) list \<Rightarrow> bool"
    and fresh :: "nat \<Rightarrow> 's \<Rightarrow> bool"
    and usable :: "'p \<Rightarrow> bool"
    and ident :: "'p \<Rightarrow> int"
    and add :: "nat \<Rightarrow> 'p \<Rightarrow> 's \<Rightarrow> c_stop + int \<times> 's"
    and del :: "int \<Rightarrow> 's \<Rightarrow> (c_stop + int \<times> 's) option"
    and get :: "int \<Rightarrow> 's \<Rightarrow> (c_stop + nat option \<times> 's) option"
  assumes add_rep: "rep s cs \<Longrightarrow> fresh a s \<Longrightarrow> usable p \<Longrightarrow>
      \<exists>s'. add a p s = Inr (0, s') \<and> rep s' ((a, ident p) # cs)"
    and del_rep: "rep s cs \<Longrightarrow>
      \<exists>s'. del i s = Some (Inr (if i \<in> snd ` set cs then 0 else 1, s')) \<and> rep s' (remove_first i cs)"
    and get_rep: "rep s cs \<Longrightarrow> i \<noteq> - 1 \<Longrightarrow>
      \<exists>r s'. get i s = Some (Inr (r, s')) \<and> rep s' cs \<and>
        (case r of None \<Rightarrow> i \<notin> snd ` set cs | Some a \<Rightarrow> (a, i) \<in> set cs)"
begin

text \<open>A connection that was added is found, and it is the only one if its id is new.\<close>

lemma add_get:
  assumes "rep s cs" and "fresh a s" and "usable p" and "ident p \<noteq> - 1" and "ident p \<notin> snd ` set cs"
  shows "\<exists>s1 s2. add a p s = Inr (0, s1) \<and> get (ident p) s1 = Some (Inr (Some a, s2)) \<and>
    rep s2 ((a, ident p) # cs)"
proof -
  obtain s1 where s1: "add a p s = Inr (0, s1)" "rep s1 ((a, ident p) # cs)"
    using add_rep [OF assms(1-3)] by auto
  obtain r s2 where r: "get (ident p) s1 = Some (Inr (r, s2))" "rep s2 ((a, ident p) # cs)"
      "case r of None \<Rightarrow> ident p \<notin> snd ` set ((a, ident p) # cs) | Some b \<Rightarrow> (b, ident p) \<in> set ((a, ident p) # cs)"
    using get_rep [OF s1(2) assms(4)] by auto
  have "r = Some a" using r(3) assms(5) by (cases r) force+
  with s1 r show ?thesis by auto
qed

text \<open>A connection that was deleted is not found again, unless another has its id.\<close>

lemma del_get:
  assumes "rep s cs" and "i \<noteq> - 1" and "distinct (map snd cs)"
  shows "\<exists>n s1 s2. del i s = Some (Inr (n, s1)) \<and> get i s1 = Some (Inr (None, s2)) \<and>
    rep s2 (remove_first i cs)"
proof -
  obtain s1 where s1: "del i s = Some (Inr (if i \<in> snd ` set cs then 0 else 1, s1))"
      "rep s1 (remove_first i cs)"
    using del_rep [OF assms(1)] by blast
  have gone: "i \<notin> snd ` set (remove_first i cs)"
    using assms(3) by (induction cs rule: remove_first.induct) auto
  obtain r s2 where r: "get i s1 = Some (Inr (r, s2))" "rep s2 (remove_first i cs)"
      "case r of None \<Rightarrow> i \<notin> snd ` set (remove_first i cs) | Some b \<Rightarrow> (b, i) \<in> set (remove_first i cs)"
    using get_rep [OF s1(2) assms(2)] by auto
  have "r = None" using r(3) gone by (cases r) force+
  with s1 r show ?thesis by blast
qed

end

section \<open>The pointer structure\<close>

fun dll :: "pstore \<Rightarrow> nat option \<Rightarrow> nat list \<Rightarrow> nat option \<Rightarrow> bool" where
  \<comment> \<open>a doubly-linked list of these addresses from a head, its first \<open>prev\<close> given\<close>
  "dll h pv [] fst_ptr \<longleftrightarrow> fst_ptr = None"
| "dll h pv (a # as) fst_ptr \<longleftrightarrow> fst_ptr = Some a \<and>
     (\<exists>n. h a = Some n \<and> p_prev n = pv \<and> dll h (Some a) as (p_next n))"

definition conn_at :: "pstore \<Rightarrow> nat \<Rightarrow> nat \<times> int" where
  "conn_at h a = (a, case h a of Some n \<Rightarrow> p_conn n | None \<Rightarrow> 0)"

definition pool_inv :: "build_config \<Rightarrow> pool \<Rightarrow> nat list \<Rightarrow> bool" where
  "pool_inv cfg s as =
     (dll (po_store s) None as (po_cpool s) \<and> distinct as \<and> dom (po_store s) = set as \<and>
      (\<forall>a \<in> set as. \<forall>n. po_store s a = Some n \<longrightarrow> valid_protocol cfg (p_type n) = 1) \<and>
      length (po_ccache s) = STRAND_CONNECTION_CACHE_SIZE \<and>
      po_ccache_size s < STRAND_CONNECTION_CACHE_SIZE \<and>
      po_replacement s < STRAND_CONNECTION_CACHE_SIZE \<and>
      (\<forall>c \<in> set (take (po_ccache_size s) (po_ccache s)). \<exists>a \<in> set as. c = Some a))"

definition pool_rep :: "build_config \<Rightarrow> pool \<Rightarrow> (nat \<times> int) list \<Rightarrow> bool" where
  "pool_rep cfg s cs = (\<exists>as. pool_inv cfg s as \<and> cs = map (conn_at (po_store s)) as)"

lemma dll_alloc: "dll h pv as fst_ptr \<Longrightarrow> a \<in> set as \<Longrightarrow> \<exists>n. h a = Some n"
  by (induction as arbitrary: pv fst_ptr) auto

lemma dll_cong: "dll h pv as fst_ptr \<Longrightarrow> \<forall>a \<in> set as. h' a = h a \<Longrightarrow> dll h' pv as fst_ptr"
  by (induction as arbitrary: pv fst_ptr) auto

lemma find_conn_dll:
  assumes "dll h pv as fst_ptr"
  shows "find_conn h i fst_ptr = Some (Inr (map_option fst (find (\<lambda>c. snd c = i) (map (conn_at h) as))))"
  using assms
proof (induction as arbitrary: pv fst_ptr)
  case Nil
  then show ?case by (simp add: find_conn.simps [of h i None])
next
  case (Cons a as)
  then obtain n where n: "fst_ptr = Some a" "h a = Some n" "dll h (Some a) as (p_next n)" by auto
  with Cons.IH [OF n(3)] show ?case
    by (simp add: find_conn.simps [of h i "Some a"] conn_at_def)
qed

lemma check_cache_ok:
  assumes "\<forall>c \<in> set cs. \<exists>a \<in> set as. c = Some a" and "\<forall>a \<in> set as. h a \<noteq> None" and "i \<noteq> - 1"
  shows "\<exists>r. check_cache h i cs = Inr r \<and> (\<forall>a. r = Some a \<longrightarrow> a \<in> set as \<and> snd (conn_at h a) = i)"
  using assms
proof (induction h i cs rule: check_cache.induct)
  case (3 h i a cs)
  then obtain n where "h a = Some n" by auto
  with 3 show ?case by (auto simp: conn_at_def)
qed auto

section \<open>Adding\<close>

lemma dll_set_prev:
  assumes "dll h pv (b # as) fst_ptr" and "h b = Some n" and "distinct (b # as)"
  shows "dll (h(b \<mapsto> n\<lparr>p_prev := v\<rparr>)) v (b # as) fst_ptr"
  using assms by (auto elim!: dll_cong)

lemma pool_add:
  assumes inv: "pool_inv cfg s as" and "po_store s a = None" and "valid_protocol cfg (p_type p) = 1"
  shows "\<exists>s'. open_connection a p s = Inr (0, s') \<and> pool_inv cfg s' (a # as) \<and>
    map (conn_at (po_store s')) (a # as) = (a, p_conn p) # map (conn_at (po_store s)) as"
proof -
  let ?new = "protocol.extend p \<lparr>p_next = None, p_prev = None\<rparr>"
  have d: "dll (po_store s) None as (po_cpool s)" and dist: "distinct as"
    using inv by (auto simp: pool_inv_def)
  have new: "a \<notin> set as" using dll_alloc [OF d, of a] assms(2) by auto
  show ?thesis
  proof (cases as)
    case Nil
    with d inv assms show ?thesis
      by (auto simp: open_connection_def strand_add_connection_def set_next_def set_prev_def pool_inv_def
          conn_at_def protocol.defs)
  next
    case (Cons b bs)
    with d obtain n where b: "po_cpool s = Some b" "po_store s b = Some n" by auto
    have ne: "a \<noteq> b" using new Cons by auto
    let ?h = "(po_store s)(a \<mapsto> ?new\<lparr>p_next := Some b\<rparr>, b \<mapsto> n\<lparr>p_prev := Some a\<rparr>)"
    have "dll ((po_store s)(b \<mapsto> n\<lparr>p_prev := Some a\<rparr>)) (Some a) as (po_cpool s)"
      using dll_set_prev [of "po_store s" None b bs "po_cpool s" n "Some a"] d b dist Cons by simp
    then have "dll ?h (Some a) as (Some b)"
      using new b by (auto elim!: dll_cong)
    then have "dll ?h None (a # as) (Some a)"
      using ne by (simp add: protocol.defs)
    moreover have "open_connection a p s = Inr (0, s\<lparr>po_store := ?h, po_cpool := Some a\<rparr>)"
      using b ne by (simp add: open_connection_def strand_add_connection_def set_next_def set_prev_def)
    ultimately show ?thesis
      using inv new b ne assms(3) by (auto simp: pool_inv_def conn_at_def protocol.defs)
  qed
qed

section \<open>Deleting\<close>

definition same_conns :: "pstore \<Rightarrow> pstore \<Rightarrow> bool" where
  \<comment> \<open>only links differ\<close>
  "same_conns h h' = (\<forall>c. map_option (\<lambda>n. (p_conn n, p_type n)) (h' c) = map_option (\<lambda>n. (p_conn n, p_type n)) (h c))"

lemma same_conns_trans: "same_conns h h1 \<Longrightarrow> same_conns h1 h2 \<Longrightarrow> same_conns h h2"
  by (simp add: same_conns_def)

lemma same_conns_conn_at: "same_conns h h' \<Longrightarrow> conn_at h' c = conn_at h c"
  by (auto simp: same_conns_def conn_at_def dest!: spec [of _ c] split: option.splits)

lemma same_conns_type: "same_conns h h' \<Longrightarrow> h' c = Some n' \<Longrightarrow> \<exists>n. h c = Some n \<and> p_type n = p_type n'"
  by (cases "h c") (auto simp: same_conns_def dest!: spec [of _ c])

lemma same_conns_dom: "same_conns h h' \<Longrightarrow> dom h' = dom h"
proof -
  assume s: "same_conns h h'"
  have "h' c = None \<longleftrightarrow> h c = None" for c
  proof -
    have "map_option (\<lambda>n. (p_conn n, p_type n)) (h' c) = map_option (\<lambda>n. (p_conn n, p_type n)) (h c)"
      using s unfolding same_conns_def by blast
    then show ?thesis by (cases "h' c"; cases "h c") simp_all
  qed
  then show ?thesis by (simp add: dom_def)
qed

lemma relink_prev:
  assumes "dll h v ys p" and "distinct ys"
  shows "\<exists>h'. set_prev p w h = Inr h' \<and> dll h' w ys p \<and> (\<forall>c. c \<notin> set ys \<longrightarrow> h' c = h c) \<and> same_conns h h'"
proof (cases ys)
  case (Cons b bs)
  then obtain n where n: "p = Some b" "h b = Some n" using assms(1) by auto
  have "dll (h(b \<mapsto> n\<lparr>p_prev := w\<rparr>)) w (b # bs) p"
    using assms Cons n by (intro dll_set_prev) auto
  then show ?thesis using Cons n by (auto simp: set_prev_def same_conns_def)
qed (use assms in \<open>simp add: set_prev_def same_conns_def\<close>)

lemma relink_mid:
  assumes "dll h pv (zs @ b # a # ys) p" and "distinct (zs @ b # a # ys)" and "h a = Some n"
  shows "p_prev n = Some b \<and> (\<exists>h1 h2. set_next (Some b) (p_next n) h = Inr h1 \<and>
    set_prev (p_next n) (Some b) h1 = Inr h2 \<and> dll h2 pv (zs @ b # ys) p \<and> same_conns h h2)"
  using assms
proof (induction zs arbitrary: pv p)
  case Nil
  then obtain m where m: "p = Some b" "h b = Some m" "p_prev m = pv" "p_next m = Some a"
      "p_prev n = Some b" "dll h (Some a) ys (p_next n)" by auto
  let ?h1 = "h(b \<mapsto> m\<lparr>p_next := p_next n\<rparr>)"
  have "dll ?h1 (Some a) ys (p_next n)"
    using m(6) Nil.prems(2) by (auto elim!: dll_cong)
  then obtain h2 where "set_prev (p_next n) (Some b) ?h1 = Inr h2" "dll h2 (Some b) ys (p_next n)"
      "\<forall>c. c \<notin> set ys \<longrightarrow> h2 c = ?h1 c" "same_conns ?h1 h2"
    using relink_prev [of ?h1 "Some a" ys "p_next n" "Some b"] Nil.prems(2) by auto
  moreover have "same_conns h ?h1" using m(2) by (auto simp: same_conns_def)
  ultimately show ?case
    using m Nil.prems(2) by (auto simp: set_next_def intro: same_conns_trans)
next
  case (Cons z zs)
  then obtain k where k: "p = Some z" "h z = Some k" "p_prev k = pv"
      "dll h (Some z) (zs @ b # a # ys) (p_next k)" by auto
  from Cons.IH [OF k(4)] Cons.prems obtain h1 h2 where h: "p_prev n = Some b"
      "set_next (Some b) (p_next n) h = Inr h1" "set_prev (p_next n) (Some b) h1 = Inr h2"
      "dll h2 (Some z) (zs @ b # ys) (p_next k)" "same_conns h h2" by auto
  have "p_next n = None \<or> (\<exists>c \<in> set ys. p_next n = Some c)"
  proof -
    have "dll h (Some b) (a # ys) (Some a)"
      using k(4) Cons.prems(3) by (induction zs arbitrary: z k) auto
    with Cons.prems(3) show ?thesis by (cases ys) auto
  qed
  with Cons.prems(2) h(2,3) have "h2 z = h z"
    by (auto simp: set_next_def set_prev_def split: option.splits if_splits)
  with h k show ?case by auto
qed

lemma remove_first_notin: "i \<notin> snd ` set cs \<Longrightarrow> remove_first i cs = cs"
  by (induction i cs rule: remove_first.induct) auto

lemma remove_first_split:
  "\<forall>c \<in> set cs. snd c \<noteq> i \<Longrightarrow> remove_first i (cs @ (a, i) # ds) = cs @ ds"
  by (induction i cs rule: remove_first.induct) auto

lemma find_split: "\<forall>c \<in> set cs. \<not> P c \<Longrightarrow> P d \<Longrightarrow> find P (cs @ d # ds) = Some d"
  by (induction cs) auto

lemma unlink_ok:
  assumes inv: "pool_inv cfg s (xs @ a # ys)"
  shows "\<exists>s'. unlink_conn cfg a s = Inr s' \<and> pool_inv cfg s' (xs @ ys) \<and>
    map (conn_at (po_store s')) (xs @ ys) = map (conn_at (po_store s)) (xs @ ys)"
proof -
  let ?h = "po_store s"
  have d: "dll ?h None (xs @ a # ys) (po_cpool s)" and dist: "distinct (xs @ a # ys)"
    using inv by (auto simp: pool_inv_def)
  obtain n where n: "?h a = Some n" using dll_alloc [OF d, of a] by auto
  have "valid_protocol cfg (p_type n) = 1" using inv n by (auto simp: pool_inv_def)
  then obtain r where r: "r \<in> set (plist cfg)" "p_type n = pr_type r"
    by (auto simp: valid_protocol_iff)
  then have t: "\<exists>f. destroy_protocol cfg (p_type n) = Inr f"
    using plist_type_index [OF r(1)] by (simp add: destroy_protocol_def find_by_type_row word_less_nat_alt)
  have "\<exists>h1 h2. set_next (p_prev n) (p_next n) ?h = Inr h1 \<and> set_prev (p_next n) (p_prev n) h1 = Inr h2 \<and>
      dll h2 None (xs @ ys) (if po_cpool s = Some a then p_next n else po_cpool s) \<and> same_conns ?h h2"
  proof (cases xs rule: rev_cases)
    case Nil
    then have "po_cpool s = Some a" "p_prev n = None" "dll ?h (Some a) ys (p_next n)"
      using d n by auto
    with relink_prev [of ?h "Some a" ys "p_next n" None] dist Nil show ?thesis
      by (auto simp: set_next_def)
  next
    case (snoc zs b)
    then have "po_cpool s \<noteq> Some a" using d dist by (cases zs) auto
    with relink_mid [of ?h None zs b a ys "po_cpool s" n] d dist n snoc show ?thesis by auto
  qed
  then obtain h1 h2 where h: "set_next (p_prev n) (p_next n) ?h = Inr h1"
      "set_prev (p_next n) (p_prev n) h1 = Inr h2"
      "dll h2 None (xs @ ys) (if po_cpool s = Some a then p_next n else po_cpool s)" "same_conns ?h h2"
    by auto
  have "dll (h2(a := None)) None (xs @ ys) (if po_cpool s = Some a then p_next n else po_cpool s)"
    using h(3) dist by (auto elim!: dll_cong)
  moreover have "conn_at (h2(a := None)) c = conn_at ?h c" if "c \<in> set (xs @ ys)" for c
    using same_conns_conn_at [OF h(4), of c] dist that by (auto simp: conn_at_def)
  moreover have "valid_protocol cfg (p_type m) = 1" if "c \<in> set (xs @ ys)" "(h2(a := None)) c = Some m" for c m
  proof -
    have "c \<noteq> a" and "h2 c = Some m" using that(2) by (auto split: if_splits)
    then obtain k where k: "po_store s c = Some k" "p_type k = p_type m"
      using same_conns_type [OF h(4)] by blast
    have "\<forall>b \<in> set (xs @ a # ys). \<forall>n. po_store s b = Some n \<longrightarrow> valid_protocol cfg (p_type n) = 1"
      using inv unfolding pool_inv_def by blast
    then have "valid_protocol cfg (p_type k) = 1" using that(1) k(1) by auto
    then show ?thesis using k(2) by simp
  qed
  moreover have "dom (h2(a := None)) = set (xs @ ys)"
    using same_conns_dom [OF h(4)] inv dist by (auto simp: pool_inv_def)
  ultimately show ?thesis
    using t h n inv dist by (auto simp: unlink_conn_def pool_inv_def STRAND_CONNECTION_CACHE_SIZE_def)
qed

lemma pool_del:
  assumes inv: "pool_inv cfg s as"
  shows "\<exists>s' as'. strand_delete_connection cfg i s =
      Some (Inr (if i \<in> snd ` set (map (conn_at (po_store s)) as) then 0 else 1, s')) \<and>
    pool_inv cfg s' as' \<and>
    map (conn_at (po_store s')) as' = remove_first i (map (conn_at (po_store s)) as)"
proof -
  let ?c = "conn_at (po_store s)"
  have d: "dll (po_store s) None as (po_cpool s)" using inv by (simp add: pool_inv_def)
  note f = find_conn_dll [OF d, of i]
  show ?thesis
  proof (cases "\<exists>a \<in> set as. snd (?c a) = i")
    case False
    then have "find (\<lambda>c. snd c = i) (map ?c as) = None" by (auto simp: find_None)
    moreover have "i \<notin> snd ` set (map ?c as)" using False by auto
    ultimately show ?thesis
      using f inv by (auto simp: strand_delete_connection_def remove_first_notin)
  next
    case True
    then obtain xs a ys where as: "as = xs @ a # ys" "snd (?c a) = i" "\<forall>x \<in> set xs. snd (?c x) \<noteq> i"
      using split_list_first_prop [of as "\<lambda>a. snd (?c a) = i"] by auto
    have ca: "?c a = (a, i)" using as(2) by (simp add: conn_at_def)
    have "find (\<lambda>c. snd c = i) (map ?c as) = Some (?c a)"
      unfolding as(1) map_append list.map using as by (intro find_split) auto
    moreover obtain s' where s': "unlink_conn cfg a s = Inr s'" "pool_inv cfg s' (xs @ ys)"
        "map (conn_at (po_store s')) (xs @ ys) = map ?c (xs @ ys)"
      using unlink_ok [of cfg s xs a ys] inv as(1) by auto
    moreover have "remove_first i (map ?c as) = map ?c (xs @ ys)"
      using remove_first_split [of "map ?c xs" i a "map ?c ys"] as ca by simp
    moreover have "i \<in> snd ` set (map ?c as)" using as by force
    ultimately show ?thesis
      using f ca s' by (auto simp: strand_delete_connection_def)
  qed
qed

section \<open>Looking up\<close>

lemma put_in_cache_inv:
  assumes "pool_inv cfg s as" and "a \<in> set as"
  shows "pool_inv cfg (strand_put_connection_in_cache a s) as"
proof (cases "po_ccache_size s = STRAND_CONNECTION_CACHE_SIZE - 1")
  case True
  with assms have "set (take 7 ((po_ccache s)[po_replacement s := Some a])) \<subseteq>
      insert (Some a) (set (take 7 (po_ccache s)))"
    by (auto simp: take_update_swap pool_inv_def dest: subsetD [OF set_update_subset_insert])
  with True assms show ?thesis
    by (auto simp: strand_put_connection_in_cache_def pool_inv_def STRAND_CONNECTION_CACHE_SIZE_def)
next
  case False
  with assms have "take (po_ccache_size s + 1) ((po_ccache s)[po_ccache_size s := Some a]) =
      take (po_ccache_size s) (po_ccache s) @ [Some a]"
    by (simp add: take_Suc_conv_app_nth pool_inv_def)
  with False assms show ?thesis
    by (auto simp: strand_put_connection_in_cache_def pool_inv_def STRAND_CONNECTION_CACHE_SIZE_def)
qed

lemma put_in_cache_store [simp]: "po_store (strand_put_connection_in_cache a s) = po_store s"
  by (simp add: strand_put_connection_in_cache_def)

lemma pool_get:
  assumes inv: "pool_inv cfg s as" and i: "i \<noteq> - 1"
  shows "\<exists>r s'. strand_get_connection i s = Some (Inr (r, s')) \<and> pool_inv cfg s' as \<and>
    po_store s' = po_store s \<and>
    (case r of None \<Rightarrow> i \<notin> snd ` set (map (conn_at (po_store s)) as)
     | Some a \<Rightarrow> (a, i) \<in> set (map (conn_at (po_store s)) as))"
proof -
  let ?c = "conn_at (po_store s)"
  have d: "dll (po_store s) None as (po_cpool s)" using inv by (simp add: pool_inv_def)
  note f = find_conn_dll [OF d, of i]
  have mem: "a \<in> set as \<Longrightarrow> snd (?c a) = i \<Longrightarrow> (a, i) \<in> set (map ?c as)" for a
    by (force simp: conn_at_def)
  obtain r where r: "check_cache (po_store s) i (take (po_ccache_size s) (po_ccache s)) = Inr r"
      "\<forall>a. r = Some a \<longrightarrow> a \<in> set as \<and> snd (?c a) = i"
    using check_cache_ok [of "take (po_ccache_size s) (po_ccache s)" as "po_store s" i] inv i dll_alloc [OF d]
    by (fastforce simp: pool_inv_def)
  show ?thesis
  proof (cases "po_cpool s = None")
    case True
    then have "as = []" using d by (cases as) auto
    with True inv show ?thesis by (simp add: strand_get_connection_def)
  next
    case False
    show ?thesis
    proof (cases r)
      case (Some a)
      with False r inv mem show ?thesis by (auto simp: strand_get_connection_def)
    next
      case None
      show ?thesis
      proof (cases "find (\<lambda>c. snd c = i) (map ?c as)")
        case None
        then have "i \<notin> snd ` set (map ?c as)" by (auto simp: find_None)
        with \<open>r = None\<close> None False r f inv show ?thesis by (simp add: strand_get_connection_def)
      next
        case (Some p)
        then have p: "p \<in> set (map ?c as)" "snd p = i" by (auto dest: find_Some_in_set)
        then have "fst p \<in> set as" "(fst p, i) \<in> set (map ?c as)" by (auto simp: conn_at_def)
        with \<open>r = None\<close> Some False r f inv show ?thesis
          by (auto simp: strand_get_connection_def put_in_cache_inv)
      qed
    qed
  qed
qed

interpretation strand_pool: conn_store "pool_rep cfg" "\<lambda>a s. po_store s a = None"
    "\<lambda>p. valid_protocol cfg (p_type p) = 1" p_conn
    open_connection "strand_delete_connection cfg" strand_get_connection for cfg
proof
  show "\<exists>s'. open_connection a p s = Inr (0, s') \<and> pool_rep cfg s' ((a, p_conn p) # cs)"
    if "pool_rep cfg s cs" and "po_store s a = None" and "valid_protocol cfg (p_type p) = 1" for s cs a p
    using that pool_add [of cfg s _ a p] by (fastforce simp: pool_rep_def)
  show "\<exists>s'. strand_delete_connection cfg i s = Some (Inr (if i \<in> snd ` set cs then 0 else 1, s')) \<and>
      pool_rep cfg s' (remove_first i cs)" if r: "pool_rep cfg s cs" for s cs i
  proof -
    obtain as where as: "pool_inv cfg s as" "cs = map (conn_at (po_store s)) as"
      using r by (auto simp: pool_rep_def)
    from pool_del [OF as(1), of i] as(2) show ?thesis
      unfolding pool_rep_def by metis
  qed
  show "\<exists>r s'. strand_get_connection i s = Some (Inr (r, s')) \<and> pool_rep cfg s' cs \<and>
      (case r of None \<Rightarrow> i \<notin> snd ` set cs | Some a \<Rightarrow> (a, i) \<in> set cs)"
    if "pool_rep cfg s cs" and "i \<noteq> - 1" for s cs i
    using that pool_get [of cfg s _ i] by (force simp: pool_rep_def)
qed

section \<open>Properties\<close>

text \<open>
  A connection a strand opens under a new id is the one \<open>strand_get_connection\<close> returns
  for that id, from the cache or from the pool, and no other connection is lost.
\<close>

lemma opened_connection_found:
  assumes "pool_rep cfg s cs" and "po_store s a = None" and "valid_protocol cfg (p_type p) = 1"
    and "p_conn p \<noteq> - 1" and "p_conn p \<notin> snd ` set cs"
  shows "\<exists>s1 s2. open_connection a p s = Inr (0, s1) \<and>
    strand_get_connection (p_conn p) s1 = Some (Inr (Some a, s2)) \<and>
    pool_rep cfg s2 ((a, p_conn p) # cs)"
  using assms by (rule strand_pool.add_get)

text \<open>
  Once a connection is deleted its id is not found any more, although the cache may have
  held it: deleting flushes the cache.
\<close>

lemma deleted_connection_gone:
  assumes "pool_rep cfg s cs" and "i \<noteq> - 1" and "distinct (map snd cs)"
  shows "\<exists>n s1 s2. strand_delete_connection cfg i s = Some (Inr (n, s1)) \<and>
    strand_get_connection i s1 = Some (Inr (None, s2)) \<and> pool_rep cfg s2 (remove_first i cs)"
  using assms by (rule strand_pool.del_get)

datatype pool_op = Open nat protocol | Close int | Find int

fun pool_run :: "build_config \<Rightarrow> pool_op list \<Rightarrow> pool \<Rightarrow> (c_stop + pool) option" where
  "pool_run cfg [] s = Some (Inr s)"
| "pool_run cfg (Open a p # ops) s =
     (case open_connection a p s of Inl e \<Rightarrow> Some (Inl e) | Inr (r, s') \<Rightarrow> pool_run cfg ops s')"
| "pool_run cfg (Close i # ops) s =
     (case strand_delete_connection cfg i s of
        None \<Rightarrow> None | Some (Inl e) \<Rightarrow> Some (Inl e) | Some (Inr (r, s')) \<Rightarrow> pool_run cfg ops s')"
| "pool_run cfg (Find i # ops) s =
     (case strand_get_connection i s of
        None \<Rightarrow> None | Some (Inl e) \<Rightarrow> Some (Inl e) | Some (Inr (r, s')) \<Rightarrow> pool_run cfg ops s')"

fun list_run :: "pool_op list \<Rightarrow> (nat \<times> int) list \<Rightarrow> (nat \<times> int) list" where
  \<comment> \<open>the specification: a list of connections\<close>
  "list_run [] cs = cs"
| "list_run (Open a p # ops) cs = list_run ops ((a, p_conn p) # cs)"
| "list_run (Close i # ops) cs = list_run ops (remove_first i cs)"
| "list_run (Find i # ops) cs = list_run ops cs"

fun ops_ok :: "build_config \<Rightarrow> pool_op list \<Rightarrow> (nat \<times> int) list \<Rightarrow> bool" where
  \<comment> \<open>\<open>malloc\<close> returns an address that is not in use; types are of the table; ids are asked
     for one at a time\<close>
  "ops_ok cfg [] cs = True"
| "ops_ok cfg (Open a p # ops) cs =
     (a \<notin> fst ` set cs \<and> valid_protocol cfg (p_type p) = 1 \<and> ops_ok cfg ops ((a, p_conn p) # cs))"
| "ops_ok cfg (Close i # ops) cs = ops_ok cfg ops (remove_first i cs)"
| "ops_ok cfg (Find i # ops) cs = (i \<noteq> - 1 \<and> ops_ok cfg ops cs)"

lemma pool_rep_fresh: "pool_rep cfg s cs \<Longrightarrow> a \<notin> fst ` set cs \<Longrightarrow> po_store s a = None"
proof -
  assume "pool_rep cfg s cs" and a: "a \<notin> fst ` set cs"
  then obtain as where "dom (po_store s) = set as" and cs: "cs = map (conn_at (po_store s)) as"
    by (auto simp: pool_rep_def pool_inv_def)
  moreover have "fst ` set cs = set as" by (force simp: cs conn_at_def)
  ultimately show ?thesis using a by (auto simp: dom_def)
qed

lemma pool_run_rep:
  "pool_rep cfg s cs \<Longrightarrow> ops_ok cfg ops cs \<Longrightarrow>
   \<exists>s'. pool_run cfg ops s = Some (Inr s') \<and> pool_rep cfg s' (list_run ops cs)"
proof (induction cfg ops cs arbitrary: s rule: ops_ok.induct)
  case (2 cfg a p ops cs)
  from strand_pool.add_rep [OF 2(2) pool_rep_fresh [OF 2(2)], of a p] 2(3)
  obtain s' where "open_connection a p s = Inr (0, s')" "pool_rep cfg s' ((a, p_conn p) # cs)" by auto
  with 2 show ?case by simp
next
  case (3 cfg i ops cs)
  from strand_pool.del_rep [OF 3(2), of i] 3 show ?case by auto
next
  case (4 cfg i ops cs)
  from strand_pool.get_rep [OF 4(2), of i] 4 show ?case by auto
qed auto


definition tcp_only :: build_config where
  "tcp_only = \<lparr>have_rds = False, have_sctp = False, have_ssl = False, have_vsock = False\<rparr>"

lemma tcp_only_tcp: "valid_protocol tcp_only (p_type ((protocol_tcp_create h n)\<lparr>p_conn := i\<rparr>)) = 1"
  by (simp add: tcp_only_def protocol_tcp_create_def valid_protocol_iff plist_def)


lemma empty_pool_rep: "pool_rep tcp_only empty_pool []"
  by (simp add: pool_rep_def pool_inv_def empty_pool_def STRAND_CONNECTION_CACHE_SIZE_def)

lemma opened_connection_found_witness:
  "\<exists>s1 s2. open_connection 1 ((protocol_tcp_create ''h'' 5)\<lparr>p_conn := 7\<rparr>) empty_pool = Inr (0, s1) \<and>
     strand_get_connection 7 s1 = Some (Inr (Some 1, s2))"
  using opened_connection_found [OF empty_pool_rep, of 1 "(protocol_tcp_create ''h'' 5)\<lparr>p_conn := 7\<rparr>"]
    tcp_only_tcp by (auto simp: empty_pool_def)

lemma deleted_connection_gone_witness:
  "\<exists>s n s1 s2. pool_rep tcp_only s [(1, 7)] \<and> strand_delete_connection tcp_only 7 s = Some (Inr (n, s1)) \<and>
     strand_get_connection 7 s1 = Some (Inr (None, s2))"
proof -
  from strand_pool.add_rep [OF empty_pool_rep, of 1 "(protocol_tcp_create ''h'' 5)\<lparr>p_conn := 7\<rparr>"] tcp_only_tcp
  obtain s where "pool_rep tcp_only s [(1, 7)]" by (auto simp: empty_pool_def)
  with deleted_connection_gone [OF this, of 7] show ?thesis by auto
qed

end
