(* ===== verification/Layout.thy ===== *)
theory Layout
  imports Workorder
begin

text \<open>
  The structs uperf puts on the wire, byte for byte: the flowop options, and the prefixes of
  \<open>flowop_t\<close>, \<open>txn_t\<close> and \<open>group_t\<close> that are sent (\<open>SIZEOF_FLOWOP_T\<close>, \<open>SIZEOF_TXN_T\<close> and
  \<open>SIZEOF_GROUP_T\<close> of \<open>src/workorder.h\<close>, each the offset of the first member that is not
  sent). Every member of these prefixes is aligned to its own size at its place, so the
  structs have no padding but the explicit one.

  Each layout is an interpretation of \<^const>\<open>codec\<close>: its view is what a host of the other byte
  order finds in the integers, and the members that are not sent read as zeros.
\<close>

lemmas c_sizes = PATHMAX_def MAXHOSTNAME_def NAMELEN_def

section \<open>Options\<close>

definition put_options :: "endian \<Rightarrow> flowop_options \<Rightarrow> byte list" where
  "put_options e fo =
     put_word e (fo_size fo) @ put_word e (fo_rand_sz_min fo) @
     put_word e (fo_rand_sz_max fo) @ put_word e (fo_rsize fo) @
     put_word e (fo_protocol fo) @ put_word e (fo_port fo) @
     put_word e (fo_flag fo) @ put_word e (fo_nfiles fo) @
     put_word e (fo_duration fo) @ put_word e (fo_wndsz fo) @
     put_word e (fo_count fo) @ put_word e (fo_repeat fo) @
     put_word e (fo_batch_size fo) @ put_word e (fo_poll_timeout fo) @
     put_word e (fo_encaps_port fo) @ put_word e (fo_bblog fo) @
     put_word e (fo_sctp_rto_min fo) @ put_word e (fo_sctp_rto_max fo) @
     put_word e (fo_sctp_rto_initial fo) @ put_word e (fo_sctp_sack_delay fo) @
     put_word e (fo_sctp_sack_frequency fo) @ put_word e (fo_sctp_max_burst_size fo) @
     put_word e (fo_sctp_max_fragment_size fo) @ put_word e (fo_sctp_hb_interval fo) @
     put_word e (fo_sctp_path_mtu fo) @ put_word e (fo_sctp_out_streams fo) @
     put_word e (fo_sctp_in_streams fo) @ put_word e (fo_sctp_stream_id fo) @
     put_word e (fo_sctp_padding fo) @ put_word e (fo_sctp_pr_value fo) @
     put_chars 8 (fo_sctp_pr_policy fo) @ put_chars 32 (fo_cc fo) @
     put_chars 32 (fo_stack fo) @ put_chars PATHMAX (fo_dir fo) @
     put_chars MAXHOSTNAME (fo_remotehost fo) @ put_chars MAXHOSTNAME (fo_localhost fo) @
     put_chars 20 (fo_engine fo) @ put_chars 50 (fo_cipher fo) @
     put_chars 5 (fo_method fo) @ put_chars 5 (fo_padding fo)"

definition get_options :: "endian \<Rightarrow> byte list \<Rightarrow> flowop_options \<times> byte list" where
  "get_options e bs =
     (let
        (x_size, bs) = get_word e bs;
        (x_rand_sz_min, bs) = get_word e bs;
        (x_rand_sz_max, bs) = get_word e bs;
        (x_rsize, bs) = get_word e bs;
        (x_protocol, bs) = get_word e bs;
        (x_port, bs) = get_word e bs;
        (x_flag, bs) = get_word e bs;
        (x_nfiles, bs) = get_word e bs;
        (x_duration, bs) = get_word e bs;
        (x_wndsz, bs) = get_word e bs;
        (x_count, bs) = get_word e bs;
        (x_repeat, bs) = get_word e bs;
        (x_batch_size, bs) = get_word e bs;
        (x_poll_timeout, bs) = get_word e bs;
        (x_encaps_port, bs) = get_word e bs;
        (x_bblog, bs) = get_word e bs;
        (x_sctp_rto_min, bs) = get_word e bs;
        (x_sctp_rto_max, bs) = get_word e bs;
        (x_sctp_rto_initial, bs) = get_word e bs;
        (x_sctp_sack_delay, bs) = get_word e bs;
        (x_sctp_sack_frequency, bs) = get_word e bs;
        (x_sctp_max_burst_size, bs) = get_word e bs;
        (x_sctp_max_fragment_size, bs) = get_word e bs;
        (x_sctp_hb_interval, bs) = get_word e bs;
        (x_sctp_path_mtu, bs) = get_word e bs;
        (x_sctp_out_streams, bs) = get_word e bs;
        (x_sctp_in_streams, bs) = get_word e bs;
        (x_sctp_stream_id, bs) = get_word e bs;
        (x_sctp_padding, bs) = get_word e bs;
        (x_sctp_pr_value, bs) = get_word e bs;
        (x_sctp_pr_policy, bs) = get_chars 8 bs;
        (x_cc, bs) = get_chars 32 bs;
        (x_stack, bs) = get_chars 32 bs;
        (x_dir, bs) = get_chars PATHMAX bs;
        (x_remotehost, bs) = get_chars MAXHOSTNAME bs;
        (x_localhost, bs) = get_chars MAXHOSTNAME bs;
        (x_engine, bs) = get_chars 20 bs;
        (x_cipher, bs) = get_chars 50 bs;
        (x_method, bs) = get_chars 5 bs;
        (x_padding, bs) = get_chars 5 bs
      in (\<lparr>fo_size = x_size, fo_rand_sz_min = x_rand_sz_min, fo_rand_sz_max = x_rand_sz_max,
            fo_rsize = x_rsize, fo_protocol = x_protocol, fo_port = x_port, fo_flag = x_flag,
            fo_nfiles = x_nfiles, fo_duration = x_duration, fo_wndsz = x_wndsz,
            fo_count = x_count, fo_repeat = x_repeat, fo_batch_size = x_batch_size,
            fo_poll_timeout = x_poll_timeout, fo_encaps_port = x_encaps_port,
            fo_bblog = x_bblog, fo_sctp_rto_min = x_sctp_rto_min,
            fo_sctp_rto_max = x_sctp_rto_max, fo_sctp_rto_initial = x_sctp_rto_initial,
            fo_sctp_sack_delay = x_sctp_sack_delay,
            fo_sctp_sack_frequency = x_sctp_sack_frequency,
            fo_sctp_max_burst_size = x_sctp_max_burst_size,
            fo_sctp_max_fragment_size = x_sctp_max_fragment_size,
            fo_sctp_hb_interval = x_sctp_hb_interval, fo_sctp_path_mtu = x_sctp_path_mtu,
            fo_sctp_out_streams = x_sctp_out_streams, fo_sctp_in_streams = x_sctp_in_streams,
            fo_sctp_stream_id = x_sctp_stream_id, fo_sctp_padding = x_sctp_padding,
            fo_sctp_pr_value = x_sctp_pr_value, fo_sctp_pr_policy = x_sctp_pr_policy,
            fo_cc = x_cc, fo_stack = x_stack, fo_dir = x_dir, fo_remotehost = x_remotehost,
            fo_localhost = x_localhost, fo_engine = x_engine, fo_cipher = x_cipher,
            fo_method = x_method, fo_padding = x_padding\<rparr>, bs))"

definition options_view :: "endian \<Rightarrow> endian \<Rightarrow> flowop_options \<Rightarrow> flowop_options" where
  "options_view e e' fo = fo\<lparr>
     fo_size := wview e e' (fo_size fo),
     fo_rand_sz_min := wview e e' (fo_rand_sz_min fo),
     fo_rand_sz_max := wview e e' (fo_rand_sz_max fo),
     fo_rsize := wview e e' (fo_rsize fo),
     fo_protocol := wview e e' (fo_protocol fo),
     fo_port := wview e e' (fo_port fo),
     fo_flag := wview e e' (fo_flag fo),
     fo_nfiles := wview e e' (fo_nfiles fo),
     fo_duration := wview e e' (fo_duration fo),
     fo_wndsz := wview e e' (fo_wndsz fo),
     fo_count := wview e e' (fo_count fo),
     fo_repeat := wview e e' (fo_repeat fo),
     fo_batch_size := wview e e' (fo_batch_size fo),
     fo_poll_timeout := wview e e' (fo_poll_timeout fo),
     fo_encaps_port := wview e e' (fo_encaps_port fo),
     fo_bblog := wview e e' (fo_bblog fo),
     fo_sctp_rto_min := wview e e' (fo_sctp_rto_min fo),
     fo_sctp_rto_max := wview e e' (fo_sctp_rto_max fo),
     fo_sctp_rto_initial := wview e e' (fo_sctp_rto_initial fo),
     fo_sctp_sack_delay := wview e e' (fo_sctp_sack_delay fo),
     fo_sctp_sack_frequency := wview e e' (fo_sctp_sack_frequency fo),
     fo_sctp_max_burst_size := wview e e' (fo_sctp_max_burst_size fo),
     fo_sctp_max_fragment_size := wview e e' (fo_sctp_max_fragment_size fo),
     fo_sctp_hb_interval := wview e e' (fo_sctp_hb_interval fo),
     fo_sctp_path_mtu := wview e e' (fo_sctp_path_mtu fo),
     fo_sctp_out_streams := wview e e' (fo_sctp_out_streams fo),
     fo_sctp_in_streams := wview e e' (fo_sctp_in_streams fo),
     fo_sctp_stream_id := wview e e' (fo_sctp_stream_id fo),
     fo_sctp_padding := wview e e' (fo_sctp_padding fo),
     fo_sctp_pr_value := wview e e' (fo_sctp_pr_value fo)\<rparr>"

definition options_wf :: "flowop_options \<Rightarrow> bool" where
  "options_wf fo =
    (c_string 8 (fo_sctp_pr_policy fo) \<and>
     c_string 32 (fo_cc fo) \<and>
     c_string 32 (fo_stack fo) \<and>
     c_string PATHMAX (fo_dir fo) \<and>
     c_string MAXHOSTNAME (fo_remotehost fo) \<and>
     c_string MAXHOSTNAME (fo_localhost fo) \<and>
     c_string 20 (fo_engine fo) \<and>
     c_string 50 (fo_cipher fo) \<and>
     c_string 5 (fo_method fo) \<and>
     c_string 5 (fo_padding fo))"

definition SIZEOF_OPTIONS :: nat where "SIZEOF_OPTIONS = 928"

lemma length_put_options: "length (put_options e fo) = SIZEOF_OPTIONS"
  by (simp add: put_options_def SIZEOF_OPTIONS_def c_sizes)

lemma get_put_options:
  "options_wf fo \<Longrightarrow> get_options e' (put_options e fo @ r) = (options_view e e' fo, r)"
  by (simp add: get_options_def put_options_def options_view_def options_wf_def wire_simps)

interpretation options_codec: codec "put_options e" "get_options e'" SIZEOF_OPTIONS options_wf
    "options_view e e'" for e e'
  by unfold_locales (simp_all add: get_put_options length_put_options)

section \<open>Flowops\<close>

definition SIZEOF_FLOWOP_T :: nat where "SIZEOF_FLOWOP_T = 944"

definition put_flowop :: "endian \<Rightarrow> flowop \<Rightarrow> byte list" where
  "put_flowop e f =
     put_options e (f_options f) @ put_word e (flowop_code (f_type f)) @
     put_word e (f_p_id f) @ put_word e (f_statid1 f) @ put_word e (f_errors f)"

definition get_flowop :: "endian \<Rightarrow> byte list \<Rightarrow> flowop \<times> byte list" where
  "get_flowop e bs =
     (let (o', bs) = get_options e bs;
          (x_type, bs) = get_word e bs;
          (x_p_id, bs) = get_word e bs;
          (x_statid1, bs) = get_word e bs;
          (x_errors, bs) = get_word e bs
      in (zero_flowop\<lparr>f_options := o', f_type := flowop_of_code x_type, f_p_id := x_p_id,
                       f_statid1 := x_statid1, f_errors := x_errors\<rparr>, bs))"

definition flowop_view :: "endian \<Rightarrow> endian \<Rightarrow> flowop \<Rightarrow> flowop" where
  "flowop_view e e' f =
     zero_flowop\<lparr>f_options := options_view e e' (f_options f),
       f_type := flowop_of_code (wview e e' (flowop_code (f_type f))),
       f_p_id := wview e e' (f_p_id f), f_statid1 := wview e e' (f_statid1 f),
       f_errors := wview e e' (f_errors f)\<rparr>"

interpretation flowop_codec: codec "put_flowop e" "get_flowop e'" SIZEOF_FLOWOP_T
    "\<lambda>f. options_wf (f_options f)" "flowop_view e e'" for e e'
  by unfold_locales
    (simp_all add: put_flowop_def get_flowop_def flowop_view_def get_put_options wire_simps
      length_put_options SIZEOF_OPTIONS_def SIZEOF_FLOWOP_T_def)

section \<open>Transactions\<close>

definition SIZEOF_TXN_T :: nat where "SIZEOF_TXN_T = 168"

definition put_txn :: "endian \<Rightarrow> txn \<Rightarrow> byte list" where
  "put_txn e t =
     put_word e (t_nflowop t) @ put_word e (t_txnid t) @
     put_word e (t_statid1 t) @ put_word e (t_unused t) @
     put_word e (t_rate_count t) @ put_word e (t_dummy t) @
     put_word e (t_iter t) @ put_word e (t_duration t) @
     put_chars NAMELEN (t_rate_str t)"

definition get_txn :: "endian \<Rightarrow> byte list \<Rightarrow> txn \<times> byte list" where
  "get_txn e bs =
     (let
        (x_nflowop, bs) = get_word e bs;
        (x_txnid, bs) = get_word e bs;
        (x_statid1, bs) = get_word e bs;
        (x_unused, bs) = get_word e bs;
        (x_rate_count, bs) = get_word e bs;
        (x_dummy, bs) = get_word e bs;
        (x_iter, bs) = get_word e bs;
        (x_duration, bs) = get_word e bs;
        (x_rate_str, bs) = get_chars NAMELEN bs
      in (zero_txn\<lparr>t_nflowop := x_nflowop, t_txnid := x_txnid, t_statid1 := x_statid1,
         t_unused := x_unused, t_rate_count := x_rate_count, t_dummy := x_dummy,
         t_iter := x_iter, t_duration := x_duration, t_rate_str := x_rate_str\<rparr>, bs))"

definition txn_view :: "endian \<Rightarrow> endian \<Rightarrow> txn \<Rightarrow> txn" where
  "txn_view e e' t =
     zero_txn\<lparr>t_nflowop := wview e e' (t_nflowop t), t_txnid := wview e e' (t_txnid t),
       t_statid1 := wview e e' (t_statid1 t), t_unused := wview e e' (t_unused t),
       t_rate_count := wview e e' (t_rate_count t), t_dummy := wview e e' (t_dummy t),
       t_iter := wview e e' (t_iter t), t_duration := wview e e' (t_duration t),
       t_rate_str := t_rate_str t\<rparr>"

interpretation txn_codec: codec "put_txn e" "get_txn e'" SIZEOF_TXN_T
    "\<lambda>t. c_string NAMELEN (t_rate_str t)" "txn_view e e'" for e e'
  by unfold_locales
    (simp_all add: put_txn_def get_txn_def txn_view_def wire_simps SIZEOF_TXN_T_def c_sizes)

section \<open>Groups\<close>

definition SIZEOF_GROUP_T :: nat where "SIZEOF_GROUP_T = 24"

definition put_group :: "endian \<Rightarrow> group \<Rightarrow> byte list" where
  "put_group e g =
     put_word e (g_endian g) @ put_word e (g_strand_flag g) @
     put_word e (g_nthreads g) @ put_word e (g_ntxn g) @
     put_word e (g_max_async g) @ put_word e (g_groupid g)"

definition get_group :: "endian \<Rightarrow> byte list \<Rightarrow> group \<times> byte list" where
  "get_group e bs =
     (let
        (x_endian, bs) = get_word e bs;
        (x_strand_flag, bs) = get_word e bs;
        (x_nthreads, bs) = get_word e bs;
        (x_ntxn, bs) = get_word e bs;
        (x_max_async, bs) = get_word e bs;
        (x_groupid, bs) = get_word e bs
      in (zero_group\<lparr>g_endian := x_endian, g_strand_flag := x_strand_flag, g_nthreads := x_nthreads,
         g_ntxn := x_ntxn, g_max_async := x_max_async, g_groupid := x_groupid\<rparr>, bs))"

definition group_view :: "endian \<Rightarrow> endian \<Rightarrow> group \<Rightarrow> group" where
  "group_view e e' g =
     zero_group\<lparr>g_endian := wview e e' (g_endian g), g_strand_flag := wview e e' (g_strand_flag g),
       g_nthreads := wview e e' (g_nthreads g), g_ntxn := wview e e' (g_ntxn g),
       g_max_async := wview e e' (g_max_async g), g_groupid := wview e e' (g_groupid g)\<rparr>"

interpretation group_codec: codec "put_group e" "get_group e'" SIZEOF_GROUP_T
    "\<lambda>_. True" "group_view e e'" for e e'
  by unfold_locales
    (simp_all add: put_group_def get_group_def group_view_def wire_simps SIZEOF_GROUP_T_def c_sizes)

section \<open>Repairing a view\<close>

lemma bswap_wview:
  "e \<noteq> e' \<Longrightarrow> BSWAP_16 (wview e e' a) = (a::u16)" "e \<noteq> e' \<Longrightarrow> BSWAP_32 (wview e e' b) = (b::u32)"
  "e \<noteq> e' \<Longrightarrow> BSWAP_64 (wview e e' c) = (c::u64)"
  by (simp_all add: wview_cross BSWAP_16_bswap BSWAP_32_bswap BSWAP_64_bswap bswap_bswap)

lemma options_view_same [simp]: "options_view e e fo = fo"
  by (simp add: options_view_def)

lemma options_bitswap_view:
  "e \<noteq> e' \<Longrightarrow> options_bitswap (options_view e e' fo) = fo\<lparr>fo_bblog := wview e e' (fo_bblog fo)\<rparr>"
  by (simp add: options_bitswap_def options_view_def bswap_wview)

end
