(* ===== verification/Netio.thy ===== *)
theory Netio
  imports Bytes
begin

text \<open>
  Complete transfers over a stream socket (\<open>ensure_read\<close> and \<open>ensure_write\<close> of
  \<open>src/common.c\<close>). The kernel is the environment: \<open>ch_rd\<close> and \<open>ch_wr\<close> are its answers to
  the coming \<open>read(2)\<close> and \<open>write(2)\<close> calls, each the number of bytes it is willing to
  move, or an answer \<open>\<le> 0\<close> for a hangup or an error; \<open>ch_in\<close> are the bytes the peer has
  sent and \<open>ch_out\<close> the bytes sent to it. A socket whose answers are used up has hung up.

  The locale \<open>transfer\<close> is the contract the handshake relies on; \<open>ensure_read\<close> and
  \<open>ensure_write\<close> provide it.
\<close>

record chan =
  ch_rd :: "int list"
  ch_in :: "byte list"
  ch_wr :: "int list"
  ch_out :: "byte list"

definition sys_read :: "nat \<Rightarrow> chan \<Rightarrow> int \<times> byte list \<times> chan" where
  \<comment> \<open>\<open>read(fd, buf, n)\<close>\<close>
  "sys_read n c =
     (case ch_rd c of
        [] \<Rightarrow> (0, [], c)
      | a # as \<Rightarrow>
          if a \<le> 0 then (a, [], c\<lparr>ch_rd := as\<rparr>)
          else let k = min (nat a) (min n (length (ch_in c)))
               in (int k, take k (ch_in c), c\<lparr>ch_rd := as, ch_in := drop k (ch_in c)\<rparr>))"

definition sys_write :: "byte list \<Rightarrow> chan \<Rightarrow> int \<times> chan" where
  \<comment> \<open>\<open>write(fd, bs, length bs)\<close>\<close>
  "sys_write bs c =
     (case ch_wr c of
        [] \<Rightarrow> (- 1, c)
      | a # as \<Rightarrow>
          if a \<le> 0 then (a, c\<lparr>ch_wr := as\<rparr>)
          else let k = min (nat a) (length bs)
               in (int k, c\<lparr>ch_wr := as, ch_out := ch_out c @ take k bs\<rparr>))"

function ensure_read_loop :: "nat \<Rightarrow> byte list \<Rightarrow> nat \<Rightarrow> chan \<Rightarrow> int \<times> byte list \<times> chan" where
  "ensure_read_loop want buf sz c =
     (if sz < want then
        (let (n, bs, c') = sys_read (want - sz) c in
         if n \<le> 0 then (n, buf, c') else ensure_read_loop want (buf @ bs) (sz + nat n) c')
      else (int sz, buf, c))"
  by pat_completeness auto
termination
  by (relation "measure (\<lambda>(want, buf, sz, c). want - sz)") auto

definition ensure_read :: "nat \<Rightarrow> chan \<Rightarrow> int \<times> byte list \<times> chan" where
  \<comment> \<open>the return value, the bytes stored in the buffer, the socket afterwards\<close>
  "ensure_read want c = ensure_read_loop want [] 0 c"

function ensure_write_loop :: "byte list \<Rightarrow> nat \<Rightarrow> chan \<Rightarrow> int \<times> chan" where
  "ensure_write_loop buf sz c =
     (if sz < length buf then
        (let (n, c') = sys_write (drop sz buf) c in
         if n \<le> 0 then (n, c') else ensure_write_loop buf (sz + nat n) c')
      else (int sz, c))"
  by pat_completeness auto
termination
  by (relation "measure (\<lambda>(buf, sz, c). length buf - sz)") auto

definition ensure_write :: "byte list \<Rightarrow> chan \<Rightarrow> int \<times> chan" where
  "ensure_write buf c = ensure_write_loop buf 0 c"

declare ensure_read_loop.simps [simp del] ensure_write_loop.simps [simp del]

lemma ensure_read_loop_simps:
  "want \<le> sz \<Longrightarrow> ensure_read_loop want buf sz c = (int sz, buf, c)"
  "sz < want \<Longrightarrow> sys_read (want - sz) c = (n, bs, c') \<Longrightarrow>
     ensure_read_loop want buf sz c =
       (if n \<le> 0 then (n, buf, c') else ensure_read_loop want (buf @ bs) (sz + nat n) c')"
  by (simp_all add: ensure_read_loop.simps [of want buf sz c])

lemma ensure_write_loop_simps:
  "length buf \<le> sz \<Longrightarrow> ensure_write_loop buf sz c = (int sz, c)"
  "sz < length buf \<Longrightarrow> sys_write (drop sz buf) c = (n, c') \<Longrightarrow>
     ensure_write_loop buf sz c = (if n \<le> 0 then (n, c') else ensure_write_loop buf (sz + nat n) c')"
  by (simp_all add: ensure_write_loop.simps [of buf sz c])

section \<open>The contract\<close>

locale transfer =
  fixes send :: "byte list \<Rightarrow> 'c \<Rightarrow> int \<times> 'c"
    and recv :: "nat \<Rightarrow> 'c \<Rightarrow> int \<times> byte list \<times> 'c"
    and incoming :: "'c \<Rightarrow> byte list"
    and outgoing :: "'c \<Rightarrow> byte list"
    and will_send :: "nat \<Rightarrow> 'c \<Rightarrow> bool"
    and will_recv :: "nat \<Rightarrow> 'c \<Rightarrow> bool"
  assumes recv_whole: "recv n c = (r, bs, c') \<Longrightarrow> 0 < r \<Longrightarrow>
      length bs = n \<and> incoming c = bs @ incoming c' \<and> outgoing c' = outgoing c"
    and send_whole: "send bs c = (r, c') \<Longrightarrow> 0 < r \<Longrightarrow>
      outgoing c' = outgoing c @ bs \<and> incoming c' = incoming c"
    and recv_progress: "will_recv (n + m) c \<Longrightarrow> 0 < n \<Longrightarrow> n \<le> length (incoming c) \<Longrightarrow>
      \<exists>bs c'. recv n c = (int n, bs, c') \<and> will_recv m c'"
    and send_progress: "will_send (length bs + m) c \<Longrightarrow> bs \<noteq> [] \<Longrightarrow>
      \<exists>c'. send bs c = (int (length bs), c') \<and> will_send m c'"
begin

lemma recv_prefix:
  assumes "incoming c = bs @ rest" and "will_recv (length bs + m) c" and "bs \<noteq> []"
  obtains c' where "recv (length bs) c = (int (length bs), bs, c')" and "incoming c' = rest"
    and "will_recv m c'" and "outgoing c' = outgoing c"
proof -
  from assms have "0 < length bs" and "length bs \<le> length (incoming c)" by simp_all
  with assms(2) obtain bs' c' where
    r: "recv (length bs) c = (int (length bs), bs', c')" and w: "will_recv m c'"
    using recv_progress by blast
  from recv_whole [OF r] assms(3) have "length bs' = length bs"
    and "incoming c = bs' @ incoming c'" and "outgoing c' = outgoing c" by simp_all
  with assms(1) have "bs' = bs" and "incoming c' = rest" by simp_all
  with r w \<open>outgoing c' = outgoing c\<close> show thesis by (intro that [of c']) simp_all
qed

lemma send_all:
  assumes "will_send (length bs + m) c" and "bs \<noteq> []"
  obtains c' where "send bs c = (int (length bs), c')" and "outgoing c' = outgoing c @ bs"
    and "will_send m c'" and "incoming c' = incoming c"
proof -
  from assms obtain c' where s: "send bs c = (int (length bs), c')" and w: "will_send m c'"
    using send_progress by blast
  with send_whole [OF s] assms(2) show thesis by (intro that [OF s]) simp_all
qed

end

section \<open>The sockets keep the contract\<close>

definition will_read :: "nat \<Rightarrow> chan \<Rightarrow> bool" where
  \<comment> \<open>the next \<open>n\<close> calls of \<open>read\<close> are answered with data\<close>
  "will_read n c = (n \<le> length (ch_rd c) \<and> (\<forall>a \<in> set (take n (ch_rd c)). 0 < a))"

definition will_write :: "nat \<Rightarrow> chan \<Rightarrow> bool" where
  "will_write n c = (n \<le> length (ch_wr c) \<and> (\<forall>a \<in> set (take n (ch_wr c)). 0 < a))"

lemma sys_read_pos: "sys_read n c = (k, bs, c') \<Longrightarrow> 0 < k \<Longrightarrow>
    length bs = nat k \<and> ch_in c = bs @ ch_in c' \<and> ch_out c' = ch_out c \<and> nat k \<le> n"
  by (auto simp: sys_read_def Let_def split: list.splits if_splits)

lemma ensure_read_loop_whole:
  "ensure_read_loop want buf sz c = (r, bs, c') \<Longrightarrow> 0 < r \<Longrightarrow> sz = length buf \<Longrightarrow> sz \<le> want \<Longrightarrow>
   length bs = want \<and> buf @ ch_in c = bs @ ch_in c' \<and> ch_out c' = ch_out c"
proof (induction want buf sz c rule: ensure_read_loop.induct)
  case (1 want buf sz c)
  obtain n xs c1 where s: "sys_read (want - sz) c = (n, xs, c1)" by (cases "sys_read (want - sz) c")
  show ?case
  proof (cases "sz < want \<and> 0 < n")
    case True
    with s sys_read_pos [OF s] have p: "length xs = nat n" "ch_in c = xs @ ch_in c1"
      "ch_out c1 = ch_out c" "sz + nat n \<le> want" by auto
    have "ensure_read_loop want (buf @ xs) (sz + nat n) c1 = (r, bs, c')"
      using "1.prems"(1) True s by (simp add: ensure_read_loop_simps(2))
    with "1.IH" [OF _ s [symmetric]] True p "1.prems" show ?thesis by auto
  next
    case False
    then consider (all) "want \<le> sz" | (bad) "sz < want" "n \<le> 0" by linarith
    then show ?thesis
    proof cases
      case all
      with "1.prems" show ?thesis by (auto simp: ensure_read_loop_simps(1))
    next
      case bad
      with ensure_read_loop_simps(2) [OF bad(1) s] "1.prems" show ?thesis by simp
    qed
  qed
qed

lemma sys_write_pos: "sys_write bs c = (k, c') \<Longrightarrow> 0 < k \<Longrightarrow>
    nat k \<le> length bs \<and> ch_out c' = ch_out c @ take (nat k) bs \<and> ch_in c' = ch_in c"
  by (auto simp: sys_write_def Let_def split: list.splits if_splits)

lemma ensure_write_loop_whole:
  "ensure_write_loop buf sz c = (r, c') \<Longrightarrow> 0 < r \<Longrightarrow> sz \<le> length buf \<Longrightarrow>
   ch_out c' = ch_out c @ drop sz buf \<and> ch_in c' = ch_in c"
proof (induction buf sz c rule: ensure_write_loop.induct)
  case (1 buf sz c)
  obtain n c1 where s: "sys_write (drop sz buf) c = (n, c1)" by (cases "sys_write (drop sz buf) c")
  show ?case
  proof (cases "sz < length buf \<and> 0 < n")
    case True
    with sys_write_pos [OF s] have p: "sz + nat n \<le> length buf"
      "ch_out c1 = ch_out c @ take (nat n) (drop sz buf)" "ch_in c1 = ch_in c" by auto
    have "ensure_write_loop buf (sz + nat n) c1 = (r, c')"
      using "1.prems"(1) True s by (simp add: ensure_write_loop_simps(2))
    with "1.IH" [OF _ s [symmetric]] True p "1.prems" 
    have "ch_out c' = ch_out c @ take (nat n) (drop sz buf) @ drop (sz + nat n) buf \<and> ch_in c' = ch_in c" by simp
    moreover have "take (nat n) (drop sz buf) @ drop (sz + nat n) buf = drop sz buf"
      by (metis add.commute append_take_drop_id drop_drop)
    ultimately show ?thesis by simp
  next
    case False
    then consider (all) "length buf \<le> sz" | (bad) "sz < length buf" "n \<le> 0" by linarith
    then show ?thesis
    proof cases
      case all
      with "1.prems" show ?thesis by (auto simp: ensure_write_loop_simps(1))
    next
      case bad
      with ensure_write_loop_simps(2) [OF bad(1) s] "1.prems" show ?thesis by simp
    qed
  qed
qed

lemma sys_read_progress:
  assumes "will_read (n + m) c" and "0 < n" and "n \<le> length (ch_in c)"
  obtains k bs c' where "sys_read n c = (int k, bs, c')" "0 < k" "k \<le> n" "will_read (n - k + m) c'"
    "length (ch_in c') = length (ch_in c) - k"
proof -
  from assms(1,2) obtain a as where rd: "ch_rd c = a # as" and a: "0 < a"
    by (cases "ch_rd c"; cases n) (auto simp: will_read_def)
  let ?k = "min (nat a) n"
  let ?c' = "c\<lparr>ch_rd := as, ch_in := drop ?k (ch_in c)\<rparr>"
  have k: "0 < ?k" using a assms(2) by simp
  then have "n - ?k + m \<le> n + m - 1" by linarith
  then have sub: "set (take (n - ?k + m) as) \<subseteq> set (take (n + m - 1) as)"
    by (rule set_take_subset_set_take)
  have "set (take (n + m - 1) as) \<subseteq> set (take (n + m) (ch_rd c))"
    using assms(2) by (cases "n + m") (auto simp: rd)
  with sub assms(1) \<open>n - ?k + m \<le> n + m - 1\<close> have "will_read (n - ?k + m) ?c'"
    by (auto simp: will_read_def rd)
  moreover have "sys_read n c = (int ?k, take ?k (ch_in c), ?c')"
    using a assms(3) by (simp add: sys_read_def rd Let_def min_def)
  ultimately show thesis using that k assms(3) by simp
qed

lemma ensure_read_loop_progress:
  "will_read (want - sz + m) c \<Longrightarrow> sz \<le> want \<Longrightarrow> want - sz \<le> length (ch_in c) \<Longrightarrow>
   \<exists>bs c'. ensure_read_loop want buf sz c = (int want, bs, c') \<and> will_read m c'"
proof (induction want buf sz c rule: ensure_read_loop.induct)
  case (1 want buf sz c)
  show ?case
  proof (cases "sz < want")
    case True
    with "1.prems" obtain k xs c1 where s: "sys_read (want - sz) c = (int k, xs, c1)" "0 < k"
        "k \<le> want - sz" "will_read (want - sz - k + m) c1" "length (ch_in c1) = length (ch_in c) - k"
      using sys_read_progress [of "want - sz" m c] by auto
    then have "want - (sz + k) = want - sz - k" by simp
    moreover have "ensure_read_loop want buf sz c = ensure_read_loop want (buf @ xs) (sz + k) c1"
      using ensure_read_loop_simps(2) [OF True s(1)] s(2) by simp
    ultimately show ?thesis
      using "1.IH" [OF True s(1) [symmetric] refl] s "1.prems" by simp
  next
    case False
    with "1.prems" show ?thesis by (simp add: ensure_read_loop_simps(1))
  qed
qed

lemma sys_write_progress:
  assumes "will_write (length bs + m) c" and "bs \<noteq> []"
  obtains k c' where "sys_write bs c = (int k, c')" "0 < k" "k \<le> length bs"
    "will_write (length bs - k + m) c'"
proof -
  from assms obtain a as where wr: "ch_wr c = a # as" and a: "0 < a"
    by (cases "ch_wr c"; cases bs) (auto simp: will_write_def)
  let ?k = "min (nat a) (length bs)"
  let ?c' = "c\<lparr>ch_wr := as, ch_out := ch_out c @ take ?k bs\<rparr>"
  have k: "0 < ?k" using a assms(2) by simp
  then have le: "length bs - ?k + m \<le> length bs + m - 1" by linarith
  then have sub: "set (take (length bs - ?k + m) as) \<subseteq> set (take (length bs + m - 1) as)"
    by (rule set_take_subset_set_take)
  have "set (take (length bs + m - 1) as) \<subseteq> set (take (length bs + m) (ch_wr c))"
    using assms(2) by (cases "length bs + m") (auto simp: wr)
  with sub assms(1) le have "will_write (length bs - ?k + m) ?c'"
    by (auto simp: will_write_def wr)
  moreover have "sys_write bs c = (int ?k, ?c')"
    using a by (simp add: sys_write_def wr Let_def min_def)
  ultimately show thesis using that k by simp
qed

lemma ensure_write_loop_progress:
  "will_write (length buf - sz + m) c \<Longrightarrow> sz \<le> length buf \<Longrightarrow>
   \<exists>c'. ensure_write_loop buf sz c = (int (length buf), c') \<and> will_write m c'"
proof (induction buf sz c rule: ensure_write_loop.induct)
  case (1 buf sz c)
  show ?case
  proof (cases "sz < length buf")
    case True
    with "1.prems" obtain k c1 where s: "sys_write (drop sz buf) c = (int k, c1)" "0 < k"
        "k \<le> length buf - sz" "will_write (length buf - sz - k + m) c1"
      using sys_write_progress [of "drop sz buf" m c] by auto
    moreover have "ensure_write_loop buf sz c = ensure_write_loop buf (sz + k) c1"
      using ensure_write_loop_simps(2) [OF True s(1)] s(2) by simp
    ultimately show ?thesis
      using "1.IH" [OF True s(1) [symmetric]] s "1.prems" by simp
  next
    case False
    with "1.prems" show ?thesis by (simp add: ensure_write_loop_simps(1))
  qed
qed

interpretation sock: transfer ensure_write ensure_read ch_in ch_out will_write will_read
proof unfold_locales
  show "length bs = n \<and> ch_in c = bs @ ch_in c' \<and> ch_out c' = ch_out c"
    if "ensure_read n c = (r, bs, c')" and "0 < r" for n c r bs c'
    using ensure_read_loop_whole [of n "[]" 0 c r bs c'] that by (simp add: ensure_read_def)
  show "ch_out c' = ch_out c @ bs \<and> ch_in c' = ch_in c"
    if "ensure_write bs c = (r, c')" and "0 < r" for bs c r c'
    using ensure_write_loop_whole [of bs 0 c r c'] that by (simp add: ensure_write_def)
  show "\<exists>bs c'. ensure_read n c = (int n, bs, c') \<and> will_read m c'"
    if "will_read (n + m) c" and "0 < n" and "n \<le> length (ch_in c)" for n m c
    using ensure_read_loop_progress [of n 0 m c "[]"] that by (simp add: ensure_read_def)
  show "\<exists>c'. ensure_write bs c = (int (length bs), c') \<and> will_write m c'"
    if "will_write (length bs + m) c" and "bs \<noteq> []" for bs m c
    using ensure_write_loop_progress [of bs 0 m c] that by (simp add: ensure_write_def)
qed

section \<open>Calls the kernel answers at once\<close>

lemma ensure_write_once:
  assumes "bs \<noteq> []" and "int (length bs) \<le> a"
  shows "ensure_write bs \<lparr>ch_rd = r, ch_in = i, ch_wr = a # as, ch_out = out\<rparr> =
     (int (length bs), \<lparr>ch_rd = r, ch_in = i, ch_wr = as, ch_out = out @ bs\<rparr>)"
proof -
  have "0 < a" and "min (nat a) (length bs) = length bs" and "\<not> int (length bs) \<le> 0"
    using assms by (cases bs; simp)+
  then show ?thesis
    by (simp add: ensure_write_def ensure_write_loop.simps [of bs 0] sys_write_def assms(1) Let_def
        ensure_write_loop_simps(1))
qed

lemma ensure_read_once:
  assumes "0 < n" and "int n \<le> a" and "n \<le> length i"
  shows "ensure_read n \<lparr>ch_rd = a # r, ch_in = i, ch_wr = w, ch_out = out\<rparr> =
     (int n, take n i, \<lparr>ch_rd = r, ch_in = drop n i, ch_wr = w, ch_out = out\<rparr>)"
proof -
  have "0 < a" and "min (nat a) (min n (length i)) = n"
    using assms by simp_all
  then show ?thesis
    using assms by (simp add: ensure_read_def ensure_read_loop.simps [of n "[]" 0] sys_read_def Let_def
        ensure_read_loop_simps(1))
qed

end
