(* ===== verification/Headers.thy ===== *)
theory Headers
  imports Layout Netio
begin

text \<open>
  The structs of the control protocol on the wire: the handshake header and its
  acknowledgement (\<open>src/handshake.h\<close>), the ports of a slave (\<open>slave_info_t\<close>,
  \<open>src/strand.h\<close>), the command (\<open>src/common.h\<close>) and the goodbye (\<open>src/goodbye.h\<close>), each
  an interpretation of \<^const>\<open>codec\<close>. A \<open>char\<close> array that came without a NUL is read up to
  its end.
\<close>

section \<open>Arrays of integers\<close>

definition put_words :: "nat \<Rightarrow> endian \<Rightarrow> u32 list \<Rightarrow> byte list" where
  "put_words n e ws = concat (map (put_word e) (take n (ws @ replicate n 0)))"

fun get_words :: "nat \<Rightarrow> endian \<Rightarrow> byte list \<Rightarrow> u32 list \<times> byte list" where
  "get_words 0 e bs = ([], bs)"
| "get_words (Suc n) e bs =
     (let (w, bs) = get_word e bs; (ws, bs) = get_words n e bs in (w # ws, bs))"

lemma length_concat_put_word: "length (concat (map (put_word e) (ws :: u32 list))) = 4 * length ws"
  by (induction ws) simp_all

lemma get_concat_put_word:
  "get_words (length ws) e' (concat (map (put_word e) ws) @ r) = (map (wview e e') ws, r)"
  by (induction ws) (simp_all add: u32_codec.get_put)

interpretation words_codec: codec "put_words n e" "get_words n e'" "4 * n" "\<lambda>ws. length ws = n"
    "map (wview e e')" for n e e'
proof
  show "get_words n e' (put_words n e ws @ r) = (map (wview e e') ws, r)" if "length ws = n" for ws r
    using get_concat_put_word [of ws e' e r] that by (simp add: put_words_def)
  show "length (put_words n e ws) = 4 * n" for ws
    by (simp only: put_words_def length_concat_put_word) simp
qed

section \<open>The handshake header\<close>

definition UPERF_VERSION_LEN :: nat where "UPERF_VERSION_LEN = 16"
definition UPERF_MAGIC :: string where "UPERF_MAGIC = ''0xbadcafedeadbeef''"
definition UPERF_DATA_VERSION :: string where "UPERF_DATA_VERSION = ''0.3.1''"
definition UPERF_OK :: string where "UPERF_OK = ''OK''"
definition UPERF_NOT_OK :: string where "UPERF_NOT_OK = ''Not OK''"
definition HANDSHAKE_PHASE_1 :: u32 where "HANDSHAKE_PHASE_1 = 1"
definition HANDSHAKE_PHASE_2 :: u32 where "HANDSHAKE_PHASE_2 = 2"

lemmas hs_consts = UPERF_VERSION_LEN_def UPERF_MAGIC_def UPERF_DATA_VERSION_def UPERF_OK_def
  UPERF_NOT_OK_def HANDSHAKE_PHASE_1_def HANDSHAKE_PHASE_2_def

record hs_phase1 =
  hp_magic :: string
  hp_endian :: u32
  hp_phase :: u32
  hp_no_slave_info :: u32
  hp_padding :: u32
  hp_protocol :: "u32 list"
  hp_version :: string
  hp_host :: string

definition SIZEOF_HS_PHASE1 :: nat where "SIZEOF_HS_PHASE1 = 352"

definition put_hs_phase1 :: "endian \<Rightarrow> hs_phase1 \<Rightarrow> byte list" where
  "put_hs_phase1 e h =
     put_chars 32 (hp_magic h) @ put_word e (hp_endian h) @ put_word e (hp_phase h) @
     put_word e (hp_no_slave_info h) @ put_word e (hp_padding h) @
     put_words NUM_PROTOCOLS e (hp_protocol h) @
     put_chars UPERF_VERSION_LEN (hp_version h) @ put_chars MAXHOSTNAME (hp_host h)"

definition get_hs_phase1 :: "endian \<Rightarrow> byte list \<Rightarrow> hs_phase1 \<times> byte list" where
  "get_hs_phase1 e bs =
     (let (magic, bs) = get_chars 32 bs; (en, bs) = get_word e bs; (ph, bs) = get_word e bs;
          (no, bs) = get_word e bs; (pad, bs) = get_word e bs;
          (prot, bs) = get_words NUM_PROTOCOLS e bs;
          (ver, bs) = get_chars UPERF_VERSION_LEN bs; (host, bs) = get_chars MAXHOSTNAME bs
      in (\<lparr>hp_magic = magic, hp_endian = en, hp_phase = ph, hp_no_slave_info = no, hp_padding = pad,
           hp_protocol = prot, hp_version = ver, hp_host = host\<rparr>, bs))"

definition hs_phase1_wf :: "hs_phase1 \<Rightarrow> bool" where
  "hs_phase1_wf h = (c_string 32 (hp_magic h) \<and> c_string UPERF_VERSION_LEN (hp_version h) \<and>
     c_string MAXHOSTNAME (hp_host h) \<and> length (hp_protocol h) = NUM_PROTOCOLS)"

definition hs_phase1_view :: "endian \<Rightarrow> endian \<Rightarrow> hs_phase1 \<Rightarrow> hs_phase1" where
  "hs_phase1_view e e' h = h\<lparr>hp_endian := wview e e' (hp_endian h), hp_phase := wview e e' (hp_phase h),
     hp_no_slave_info := wview e e' (hp_no_slave_info h), hp_padding := wview e e' (hp_padding h),
     hp_protocol := map (wview e e') (hp_protocol h)\<rparr>"

interpretation hs_phase1_codec: codec "put_hs_phase1 e" "get_hs_phase1 e'" SIZEOF_HS_PHASE1 hs_phase1_wf
    "hs_phase1_view e e'" for e e'
  by unfold_locales
    (simp_all add: put_hs_phase1_def get_hs_phase1_def hs_phase1_view_def hs_phase1_wf_def wire_simps
      words_codec.get_put words_codec.length_put SIZEOF_HS_PHASE1_def c_sizes UPERF_VERSION_LEN_def
      NUM_PROTOCOLS_def)

section \<open>Acknowledgements\<close>

record hs_ack =
  ha_status :: string
  ha_message :: string

definition SIZEOF_HS_ACK :: nat where "SIZEOF_HS_ACK = 192"

definition put_hs_ack :: "hs_ack \<Rightarrow> byte list" where
  "put_hs_ack a = put_chars 64 (ha_status a) @ put_chars 128 (ha_message a)"

definition get_hs_ack :: "byte list \<Rightarrow> hs_ack \<times> byte list" where
  "get_hs_ack bs =
     (let (st, bs) = get_chars 64 bs; (msg, bs) = get_chars 128 bs
      in (\<lparr>ha_status = st, ha_message = msg\<rparr>, bs))"

definition hs_ack_wf :: "hs_ack \<Rightarrow> bool" where
  "hs_ack_wf a = (c_string 64 (ha_status a) \<and> c_string 128 (ha_message a))"

interpretation hs_ack_codec: codec put_hs_ack get_hs_ack SIZEOF_HS_ACK hs_ack_wf "\<lambda>a. a"
  by unfold_locales
    (simp_all add: put_hs_ack_def get_hs_ack_def hs_ack_wf_def wire_simps SIZEOF_HS_ACK_def)

record hs_ack2 = hs_ack +
  ha_no_slave_info :: u32

definition SIZEOF_HS_ACK2 :: nat where "SIZEOF_HS_ACK2 = 196"

definition put_hs_ack2 :: "endian \<Rightarrow> hs_ack2 \<Rightarrow> byte list" where
  "put_hs_ack2 e a = put_chars 64 (ha_status a) @ put_chars 128 (ha_message a) @ put_word e (ha_no_slave_info a)"

definition get_hs_ack2 :: "endian \<Rightarrow> byte list \<Rightarrow> hs_ack2 \<times> byte list" where
  "get_hs_ack2 e bs =
     (let (st, bs) = get_chars 64 bs; (msg, bs) = get_chars 128 bs; (no, bs) = get_word e bs
      in (\<lparr>ha_status = st, ha_message = msg, ha_no_slave_info = no\<rparr>, bs))"

interpretation hs_ack2_codec: codec "put_hs_ack2 e" "get_hs_ack2 e'" SIZEOF_HS_ACK2
    "\<lambda>a. c_string 64 (ha_status a) \<and> c_string 128 (ha_message a)"
    "\<lambda>a. a\<lparr>ha_no_slave_info := wview e e' (ha_no_slave_info a)\<rparr>" for e e'
  by unfold_locales
    (simp_all add: put_hs_ack2_def get_hs_ack2_def wire_simps SIZEOF_HS_ACK2_def)

section \<open>The ports of a slave\<close>

record slave_info =
  si_host :: string
  si_port :: "u32 list"     \<comment> \<open>\<open>int port[NUM_PROTOCOLS]\<close>, as 32 bits each\<close>

definition zero_slave_info :: slave_info where
  "zero_slave_info = \<lparr>si_host = [], si_port = replicate NUM_PROTOCOLS 0\<rparr>"

definition SIZEOF_SLAVE_INFO :: nat where "SIZEOF_SLAVE_INFO = 288"

definition put_slave_info :: "endian \<Rightarrow> slave_info \<Rightarrow> byte list" where
  "put_slave_info e si = put_chars MAXHOSTNAME (si_host si) @ put_words NUM_PROTOCOLS e (si_port si)"

definition get_slave_info :: "endian \<Rightarrow> byte list \<Rightarrow> slave_info \<times> byte list" where
  "get_slave_info e bs =
     (let (h, bs) = get_chars MAXHOSTNAME bs; (ps, bs) = get_words NUM_PROTOCOLS e bs
      in (\<lparr>si_host = h, si_port = ps\<rparr>, bs))"

definition slave_info_wf :: "slave_info \<Rightarrow> bool" where
  "slave_info_wf si = (c_string MAXHOSTNAME (si_host si) \<and> length (si_port si) = NUM_PROTOCOLS)"

definition slave_info_view :: "endian \<Rightarrow> endian \<Rightarrow> slave_info \<Rightarrow> slave_info" where
  "slave_info_view e e' si = si\<lparr>si_port := map (wview e e') (si_port si)\<rparr>"

interpretation slave_info_codec: codec "put_slave_info e" "get_slave_info e'" SIZEOF_SLAVE_INFO slave_info_wf
    "slave_info_view e e'" for e e'
  by unfold_locales
    (simp_all add: put_slave_info_def get_slave_info_def slave_info_wf_def slave_info_view_def wire_simps
      words_codec.get_put words_codec.length_put SIZEOF_SLAVE_INFO_def c_sizes NUM_PROTOCOLS_def)

fun get_slave_infos :: "nat \<Rightarrow> endian \<Rightarrow> byte list \<Rightarrow> slave_info list" where
  \<comment> \<open>the array of \<open>n\<close> entries a buffer was filled as\<close>
  "get_slave_infos 0 e bs = []"
| "get_slave_infos (Suc n) e bs =
     (let (si, bs) = get_slave_info e bs in si # get_slave_infos n e bs)"

lemma get_put_slave_infos:
  "\<forall>si \<in> set sis. slave_info_wf si \<Longrightarrow>
   get_slave_infos (length sis) e' (concat (map (put_slave_info e) sis) @ r) = map (slave_info_view e e') sis"
  by (induction sis) (simp_all add: slave_info_codec.get_put)

section \<open>Commands\<close>

definition UPERF_COMMAND_MAGIC :: string where "UPERF_COMMAND_MAGIC = ''uperf_command''"
definition UPERF_CMD_NEXT_TXN :: u32 where "UPERF_CMD_NEXT_TXN = 0"
definition UPERF_CMD_ABORT :: u32 where "UPERF_CMD_ABORT = 1"
definition UPERF_CMD_SEND_STATS :: u32 where "UPERF_CMD_SEND_STATS = 2"
definition UPERF_CMD_ERROR :: u32 where "UPERF_CMD_ERROR = 3"

record uperf_command =
  uc_magic :: string
  uc_command :: u32
  uc_value :: u32

definition SIZEOF_COMMAND :: nat where "SIZEOF_COMMAND = 72"

definition put_command :: "endian \<Rightarrow> uperf_command \<Rightarrow> byte list" where
  "put_command e uc = put_chars 64 (uc_magic uc) @ put_word e (uc_command uc) @ put_word e (uc_value uc)"

definition get_command :: "endian \<Rightarrow> byte list \<Rightarrow> uperf_command \<times> byte list" where
  "get_command e bs =
     (let (m, bs) = get_chars 64 bs; (cm, bs) = get_word e bs; (v, bs) = get_word e bs
      in (\<lparr>uc_magic = m, uc_command = cm, uc_value = v\<rparr>, bs))"

definition command_view :: "endian \<Rightarrow> endian \<Rightarrow> uperf_command \<Rightarrow> uperf_command" where
  "command_view e e' uc = uc\<lparr>uc_command := wview e e' (uc_command uc), uc_value := wview e e' (uc_value uc)\<rparr>"

interpretation command_codec: codec "put_command e" "get_command e'" SIZEOF_COMMAND
    "\<lambda>uc. c_string 64 (uc_magic uc)" "command_view e e'" for e e'
  by unfold_locales
    (simp_all add: put_command_def get_command_def command_view_def wire_simps SIZEOF_COMMAND_def)

section \<open>Goodbyes\<close>

definition GOODBYE_MESSAGE_LEN :: nat where "GOODBYE_MESSAGE_LEN = 512"
definition GOODBYE_MAGIC :: string where "GOODBYE_MAGIC = ''So Long, and Thanks for All the Fish''"
definition MESSAGE_ERROR :: u64 where "MESSAGE_ERROR = 0xaa"
definition MESSAGE_WARNING :: u64 where "MESSAGE_WARNING = 0xbb"
definition MESSAGE_INFO :: u64 where "MESSAGE_INFO = 0xcc"
definition MESSAGE_NONE :: u64 where "MESSAGE_NONE = 0xdd"

record goodbye_stat =
  gs_elapsed_time :: u64
  gs_error :: u64
  gs_bytes_xfer :: u64
  gs_count :: u64

record goodbye =
  gb_magic :: string
  gb_msg_type :: u64
  gb_gstat :: goodbye_stat
  gb_message :: string

definition zero_goodbye :: goodbye where
  "zero_goodbye = \<lparr>gb_magic = [], gb_msg_type = 0,
     gb_gstat = \<lparr>gs_elapsed_time = 0, gs_error = 0, gs_bytes_xfer = 0, gs_count = 0\<rparr>, gb_message = []\<rparr>"

definition SIZEOF_GOODBYE :: nat where "SIZEOF_GOODBYE = 616"

definition put_goodbye :: "endian \<Rightarrow> goodbye \<Rightarrow> byte list" where
  "put_goodbye e g =
     put_chars 64 (gb_magic g) @ put_word e (gb_msg_type g) @
     put_word e (gs_elapsed_time (gb_gstat g)) @ put_word e (gs_error (gb_gstat g)) @
     put_word e (gs_bytes_xfer (gb_gstat g)) @ put_word e (gs_count (gb_gstat g)) @
     put_chars GOODBYE_MESSAGE_LEN (gb_message g)"

definition get_goodbye :: "endian \<Rightarrow> byte list \<Rightarrow> goodbye \<times> byte list" where
  "get_goodbye e bs =
     (let (m, bs) = get_chars 64 bs; (ty, bs) = get_word e bs; (el, bs) = get_word e bs;
          (er, bs) = get_word e bs; (by', bs) = get_word e bs; (co, bs) = get_word e bs;
          (msg, bs) = get_chars GOODBYE_MESSAGE_LEN bs
      in (\<lparr>gb_magic = m, gb_msg_type = ty,
           gb_gstat = \<lparr>gs_elapsed_time = el, gs_error = er, gs_bytes_xfer = by', gs_count = co\<rparr>,
           gb_message = msg\<rparr>, bs))"

definition goodbye_view :: "endian \<Rightarrow> endian \<Rightarrow> goodbye \<Rightarrow> goodbye" where
  "goodbye_view e e' g = g\<lparr>gb_msg_type := wview e e' (gb_msg_type g),
     gb_gstat := \<lparr>gs_elapsed_time = wview e e' (gs_elapsed_time (gb_gstat g)),
       gs_error = wview e e' (gs_error (gb_gstat g)),
       gs_bytes_xfer = wview e e' (gs_bytes_xfer (gb_gstat g)),
       gs_count = wview e e' (gs_count (gb_gstat g))\<rparr>\<rparr>"

definition goodbye_wf :: "goodbye \<Rightarrow> bool" where
  "goodbye_wf g = (c_string 64 (gb_magic g) \<and> c_string GOODBYE_MESSAGE_LEN (gb_message g))"

interpretation goodbye_codec: codec "put_goodbye e" "get_goodbye e'" SIZEOF_GOODBYE goodbye_wf
    "goodbye_view e e'" for e e'
  by unfold_locales
    (simp_all add: put_goodbye_def get_goodbye_def goodbye_view_def goodbye_wf_def wire_simps
      SIZEOF_GOODBYE_def GOODBYE_MESSAGE_LEN_def)

end
