(* ===== verification/Shm.thy ===== *)
theory Shm
  imports Barriers Stats Pool Headers
begin

text \<open>
  The shared region (\<open>src/shm.h\<close>, \<open>src/shm.c\<close>) and the strands in it (\<open>src/strand.h\<close>,
  the setup part of \<open>src/strand.c\<close>): who is where, the list of peers a strand connects to,
  the array of counters and who gets which entry of it, and how the master and a slave start
  their strands (\<open>spawn_strands_group\<close> of \<open>src/master.c\<close>, \<open>slave_spawn_strands\<close> of
  \<open>src/slave.c\<close>).

  An \<open>int\<close> that travels over the wire is kept as its 32 bits.
\<close>

section \<open>Strands\<close>

datatype strand_state = STRAND_STATE_AT_BARRIER | STRAND_STATE_EXECUTING | STRAND_STATE_EXIT

datatype role = MASTER | SLAVE

record strand =
  s_pool :: pool
  s_listen :: "protocol option list"
  s_slaves :: "slave_info list"
  s_pid :: int
  s_role :: role
  s_flag :: u32
  s_signalled :: bool
  s_state :: strand_state
  s_worklist :: "group option"
  s_nstats :: newstats
  s_history :: "history option"

definition STRAND_LEADER :: u32 where "STRAND_LEADER = 1"

definition zero_strand :: strand where
  \<comment> \<open>after \<open>bzero\<close>\<close>
  "zero_strand = \<lparr>s_pool = empty_pool, s_listen = replicate NUM_PROTOCOLS None, s_slaves = [],
     s_pid = 0, s_role = MASTER, s_flag = 0, s_signalled = False, s_state = STRAND_STATE_AT_BARRIER,
     s_worklist = None, s_nstats = zero_stats, s_history = None\<rparr>"

definition strand_add_slave :: "slave_info \<Rightarrow> strand \<Rightarrow> strand" where
  "strand_add_slave si s = s\<lparr>s_slaves := si # s_slaves s\<rparr>"

definition strand_get_port :: "strand \<Rightarrow> string \<Rightarrow> nat \<Rightarrow> int" where
  \<comment> \<open>\<open>protocol\<close> below \<open>NUM_PROTOCOLS\<close>\<close>
  "strand_get_port s host protocol =
     (case find (\<lambda>q. si_host q = host) (s_slaves s) of
        Some q \<Rightarrow> sint (si_port q ! protocol)
      | None \<Rightarrow> - 1)"

section \<open>The region\<close>

record shm =
  sh_strands :: "strand list"
  sh_no_strands :: int
  sh_role :: role
  sh_bitswap :: bool
  sh_tx_no_slave_info :: u32
  sh_rx_no_slave_info :: u32
  sh_current_time :: u64
  sh_nstats :: "newstats list"
  sh_nstat_count :: nat
  sh_agg_stat :: newstats
  sh_workorder :: "workorder option"
  sh_worklist :: "group option"
  sh_global_error :: int
  sh_finished :: u32
  sh_callouts :: "u64 list"
  sh_txn_begin :: u64
  sh_bar :: "barrier list"

definition shm_init :: "workorder \<Rightarrow> shm" where
  \<comment> \<open>the region \<open>mmap\<close> returns, zeroed and filled in; the role is set by \<open>master_init\<close>\<close>
  "shm_init w =
     \<lparr>sh_strands = replicate (nat (workorder_num_strands w)) zero_strand,
      sh_no_strands = workorder_num_strands w,
      sh_role = MASTER, sh_bitswap = False, sh_tx_no_slave_info = 0, sh_rx_no_slave_info = 0,
      sh_current_time = 0,
      sh_nstats = replicate (nat (workorder_num_strands w * workorder_num_stats w)) zero_stats,
      sh_nstat_count = 0,
      sh_agg_stat = zero_stats\<lparr>ns_name := ''Total''\<rparr>,
      sh_workorder = None, sh_worklist = None, sh_global_error = 0, sh_finished = 0,
      sh_callouts = replicate MAXTHREADGROUPS 0, sh_txn_begin = 0,
      sh_bar = replicate NUM_BARRIER \<lparr>b_count = 0, b_limit = 0, b_locked = False\<rparr>\<rparr>"

definition shm_get_strand :: "shm \<Rightarrow> nat \<Rightarrow> c_stop + strand" where
  "shm_get_strand shm i = (if i < length (sh_strands shm) then Inr (sh_strands shm ! i) else Inl Undefined)"

definition shm_set_strand :: "nat \<Rightarrow> strand \<Rightarrow> shm \<Rightarrow> shm" where
  "shm_set_strand i s shm = shm\<lparr>sh_strands := (sh_strands shm)[i := s]\<rparr>"

definition shm_update_strand_exit :: "shm \<Rightarrow> shm" where
  "shm_update_strand_exit shm = shm\<lparr>sh_finished := sh_finished shm + 1\<rparr>"

definition flag_error :: "shm \<Rightarrow> shm" where
  "flag_error shm = shm\<lparr>sh_global_error := wrap32 (sh_global_error shm + 1)\<rparr>"

section \<open>Setting up strands\<close>

fun strand_init_loop :: "nat \<Rightarrow> nat \<Rightarrow> nat \<Rightarrow> shm \<Rightarrow> c_stop + shm" where
  \<comment> \<open>\<open>n\<close> turns left from \<open>j\<close>\<close>
  "strand_init_loop 0 j ssid shm = Inr shm"
| "strand_init_loop (Suc n) j ssid shm =
     cbind (shm_get_strand shm (j + ssid)) (\<lambda>_.
       let st = zero_strand\<lparr>s_nstats := zero_stats\<lparr>
                  ns_name := strlcpy UPERF_NAME_LEN (''Thr'' @ dec_nat j), ns_type := NSTAT_STRAND\<rparr>\<rparr>;
           st' = (if j = 0 then st\<lparr>s_flag := s_flag st OR STRAND_LEADER\<rparr> else st)
       in strand_init_loop n (j + 1) ssid (shm_set_strand (j + ssid) st' shm))"

definition strand_init_group :: "shm \<Rightarrow> group \<Rightarrow> nat \<Rightarrow> c_stop + shm" where
  "strand_init_group shm g ssid = strand_init_loop (unat (g_nthreads g)) 0 ssid shm"

fun strand_init_groups :: "group list \<Rightarrow> nat \<Rightarrow> shm \<Rightarrow> c_stop + shm" where
  "strand_init_groups [] cnt shm = Inr shm"
| "strand_init_groups (g # gs) cnt shm =
     cbind (strand_init_group shm g cnt) (strand_init_groups gs (cnt + unat (g_nthreads g)))"

definition strand_init_all :: "shm \<Rightarrow> workorder \<Rightarrow> c_stop + shm" where
  "strand_init_all shm w = strand_init_groups (w_grp w) 0 shm"

section \<open>Counters\<close>

definition malloc_newstats ::
  "stats_type \<Rightarrow> u32 \<Rightarrow> u32 \<Rightarrow> u32 \<Rightarrow> u32 \<Rightarrow> string \<Rightarrow> shm \<Rightarrow> c_stop + nat \<times> shm" where
  \<comment> \<open>the index of the entry; past the end of the array is \<^const>\<open>Undefined\<close>\<close>
  "malloc_newstats type sid gid tid fid name shm =
     (let k = sh_nstat_count shm in
      if k < length (sh_nstats shm) then
        Inr (k, shm\<lparr>sh_nstat_count := k + 1,
                    sh_nstats := (sh_nstats shm)[k := zero_stats\<lparr>ns_type := type, ns_sid := sid,
                      ns_gid := gid, ns_tid := tid, ns_fid := fid,
                      ns_name := strlcpy UPERF_NAME_LEN name\<rparr>]\<rparr>)
      else Inl Undefined)"

fun assign_flowops :: "u32 \<Rightarrow> u32 \<Rightarrow> u32 \<Rightarrow> flowop list \<Rightarrow> shm \<Rightarrow> c_stop + flowop list \<times> shm" where
  "assign_flowops sid gid tid [] shm = Inr ([], shm)"
| "assign_flowops sid gid tid (f # fs) shm =
     cbind (malloc_newstats NSTAT_FLOWOP sid gid tid (f_id f) (f_name f) shm) (\<lambda>(k, shm1).
     cbind (assign_flowops sid gid tid fs shm1) (\<lambda>(fs', shm2).
       Inr (f\<lparr>f_stats := Some k\<rparr> # fs', shm2)))"

fun assign_txns :: "u32 \<Rightarrow> u32 \<Rightarrow> txn list \<Rightarrow> shm \<Rightarrow> c_stop + txn list \<times> shm" where
  "assign_txns sid gid [] shm = Inr ([], shm)"
| "assign_txns sid gid (t # ts) shm =
     cbind (malloc_newstats NSTAT_TXN sid gid (t_txnid t) (- 1) (t_name t) shm) (\<lambda>(k, shm1).
     cbind (assign_flowops sid gid (t_txnid t) (t_flist t) shm1) (\<lambda>(fs', shm2).
     cbind (assign_txns sid gid ts shm2) (\<lambda>(ts', shm3).
       Inr (t\<lparr>t_stats := Some k, t_flist := fs'\<rparr> # ts', shm3))))"

definition group_assign_stat :: "group \<Rightarrow> u32 \<Rightarrow> shm \<Rightarrow> c_stop + group \<times> shm" where
  "group_assign_stat g sid shm =
     cbind (malloc_newstats NSTAT_GROUP sid (g_groupid g) (- 1) (- 1) (g_name g) shm) (\<lambda>(k, shm1).
     cbind (assign_txns sid (g_groupid g) (g_tlist g) shm1) (\<lambda>(ts', shm2).
       Inr (g\<lparr>g_stats := Some k, g_tlist := ts'\<rparr>, shm2)))"

section \<open>Starting strands\<close>

text \<open>
  \<open>create i\<close> is what \<open>fork\<close> or \<open>pthread_create\<close> returns for strand \<open>i\<close>, seen by the parent.
\<close>

fun spawn_strands_loop :: "(nat \<Rightarrow> int) \<Rightarrow> group \<Rightarrow> nat \<Rightarrow> nat \<Rightarrow> shm \<Rightarrow> c_stop + int \<times> shm" where
  "spawn_strands_loop create gp 0 i shm = Inr (0, shm)"
| "spawn_strands_loop create gp (Suc n) i shm =
     cbind (shm_get_strand shm i) (\<lambda>s.
     cbind (group_assign_stat gp (of_nat i) shm) (\<lambda>(wl, shm1).
       let s1 = s\<lparr>s_worklist := Some wl, s_role := MASTER\<rparr> in
       if g_strand_flag gp AND STRAND_TYPE_PROCESS \<noteq> 0 then
         (if create i > 0 then
            spawn_strands_loop create gp n (i + 1)
              (shm_set_strand i (s1\<lparr>s_flag := s_flag s1 OR STRAND_TYPE_PROCESS, s_pid := create i\<rparr>) shm1)
          else Inr (1, shm_set_strand i (s1\<lparr>s_flag := s_flag s1 OR STRAND_TYPE_PROCESS\<rparr>) shm1))
       else
         let shm2 = shm_set_strand i (s1\<lparr>s_flag := s_flag s1 OR STRAND_TYPE_THREAD\<rparr>) shm1 in
         if create i \<noteq> 0 then Inr (1, shm2) else spawn_strands_loop create gp n (i + 1) shm2))"

definition spawn_strands_group :: "(nat \<Rightarrow> int) \<Rightarrow> shm \<Rightarrow> group \<Rightarrow> nat \<Rightarrow> c_stop + int \<times> shm" where
  "spawn_strands_group create shm gp i = spawn_strands_loop create gp (unat (g_nthreads gp)) i shm"

fun spawn_groups :: "(nat \<Rightarrow> int) \<Rightarrow> group list \<Rightarrow> nat \<Rightarrow> nat \<Rightarrow> shm \<Rightarrow> c_stop + shm" where
  \<comment> \<open>the loop of \<open>master\<close>: \<open>k\<close> is the number of the group, \<open>i\<close> of its first strand\<close>
  "spawn_groups create [] k i shm = Inr shm"
| "spawn_groups create (g # gs) k i shm =
     (let g' = g\<lparr>g_groupid := of_nat k\<rparr> in
      if sh_global_error shm > 0 then Inr shm
      else cbind (spawn_strands_group create shm g' i) (\<lambda>(r, shm1).
             spawn_groups create gs (k + 1) (i + unat (g_nthreads g))
               (if r \<noteq> 0 then shm1\<lparr>sh_global_error := wrap32 (sh_global_error shm1 + 1)\<rparr> else shm1)))"

fun slave_spawn_loop :: "(nat \<Rightarrow> int) \<Rightarrow> group \<Rightarrow> nat \<Rightarrow> nat \<Rightarrow> shm \<Rightarrow> c_stop + shm" where
  "slave_spawn_loop create wl 0 i shm = Inr shm"
| "slave_spawn_loop create wl (Suc n) i shm =
     cbind (shm_get_strand shm i) (\<lambda>s.
       let shm1 = shm_set_strand i (s\<lparr>s_role := SLAVE, s_worklist := Some wl\<rparr>) shm in
       if create i \<noteq> 0 then Inl (Exited 1) else slave_spawn_loop create wl n (i + 1) shm1)"

definition slave_spawn_strands :: "(nat \<Rightarrow> int) \<Rightarrow> shm \<Rightarrow> c_stop + shm" where
  \<comment> \<open>a failure is reported to the master (\<open>slave_handshake_p2_failure\<close>) and is fatal\<close>
  "slave_spawn_strands create shm =
     (case sh_worklist shm of
        None \<Rightarrow> Inl Undefined
      | Some wl \<Rightarrow> cbind (slave_spawn_loop create wl (unat (g_nthreads wl)) 0 shm)
                     (\<lambda>shm1. Inr (shm1\<lparr>sh_no_strands := sint (g_nthreads wl)\<rparr>)))"

section \<open>The counters suffice\<close>

definition group_entries :: "group \<Rightarrow> nat" where
  \<comment> \<open>entries \<open>group_assign_stat\<close> takes\<close>
  "group_entries g = 1 + sum_list (map (\<lambda>t. 1 + length (t_flist t)) (g_tlist g))"

lemma malloc_newstats_ok:
  assumes "sh_nstat_count shm < length (sh_nstats shm)"
  shows "\<exists>k shm'. malloc_newstats ty sid gid tid fid name shm = Inr (k, shm') \<and>
    sh_nstat_count shm' = sh_nstat_count shm + 1 \<and> length (sh_nstats shm') = length (sh_nstats shm) \<and>
    sh_strands shm' = sh_strands shm \<and> sh_global_error shm' = sh_global_error shm"
  using assms by (simp add: malloc_newstats_def Let_def)

lemma assign_flowops_ok:
  assumes "sh_nstat_count shm + length fs \<le> length (sh_nstats shm)"
  shows "\<exists>fs' shm'. assign_flowops sid gid tid fs shm = Inr (fs', shm') \<and>
    sh_nstat_count shm' = sh_nstat_count shm + length fs \<and> length (sh_nstats shm') = length (sh_nstats shm) \<and>
    sh_strands shm' = sh_strands shm \<and> sh_global_error shm' = sh_global_error shm"
  using assms
proof (induction fs arbitrary: shm)
  case (Cons f fs)
  have "sh_nstat_count shm < length (sh_nstats shm)" using Cons.prems by simp
  then obtain k shm1 where m: "malloc_newstats NSTAT_FLOWOP sid gid tid (f_id f) (f_name f) shm = Inr (k, shm1)"
      "sh_nstat_count shm1 = sh_nstat_count shm + 1" "length (sh_nstats shm1) = length (sh_nstats shm)"
      "sh_strands shm1 = sh_strands shm" "sh_global_error shm1 = sh_global_error shm"
    using malloc_newstats_ok by blast
  with Cons.prems have "sh_nstat_count shm1 + length fs \<le> length (sh_nstats shm1)" by simp
  from Cons.IH [OF this] m show ?case by auto
qed simp

lemma assign_txns_ok:
  assumes "sh_nstat_count shm + sum_list (map (\<lambda>t. 1 + length (t_flist t)) ts) \<le> length (sh_nstats shm)"
  shows "\<exists>ts' shm'. assign_txns sid gid ts shm = Inr (ts', shm') \<and>
    sh_nstat_count shm' = sh_nstat_count shm + sum_list (map (\<lambda>t. 1 + length (t_flist t)) ts) \<and>
    length (sh_nstats shm') = length (sh_nstats shm) \<and>
    sh_strands shm' = sh_strands shm \<and> sh_global_error shm' = sh_global_error shm"
  using assms
proof (induction ts arbitrary: shm)
  case (Cons t ts)
  have "sh_nstat_count shm < length (sh_nstats shm)" using Cons.prems by simp
  then obtain k shm1 where m: "malloc_newstats NSTAT_TXN sid gid (t_txnid t) (- 1) (t_name t) shm = Inr (k, shm1)"
      "sh_nstat_count shm1 = sh_nstat_count shm + 1" "length (sh_nstats shm1) = length (sh_nstats shm)"
      "sh_strands shm1 = sh_strands shm" "sh_global_error shm1 = sh_global_error shm"
    using malloc_newstats_ok by blast
  with Cons.prems have "sh_nstat_count shm1 + length (t_flist t) \<le> length (sh_nstats shm1)" by simp
  then obtain fs' shm2 where f: "assign_flowops sid gid (t_txnid t) (t_flist t) shm1 = Inr (fs', shm2)"
      "sh_nstat_count shm2 = sh_nstat_count shm1 + length (t_flist t)"
      "length (sh_nstats shm2) = length (sh_nstats shm1)"
      "sh_strands shm2 = sh_strands shm1" "sh_global_error shm2 = sh_global_error shm1"
    using assign_flowops_ok by blast
  with m Cons.prems have "sh_nstat_count shm2 + sum_list (map (\<lambda>t. 1 + length (t_flist t)) ts) \<le> length (sh_nstats shm2)"
    by simp
  from Cons.IH [OF this] m f show ?case by auto
qed simp

lemma group_assign_stat_ok:
  assumes "sh_nstat_count shm + group_entries g \<le> length (sh_nstats shm)"
  shows "\<exists>g' shm'. group_assign_stat g sid shm = Inr (g', shm') \<and>
    sh_nstat_count shm' = sh_nstat_count shm + group_entries g \<and>
    length (sh_nstats shm') = length (sh_nstats shm) \<and>
    sh_strands shm' = sh_strands shm \<and> sh_global_error shm' = sh_global_error shm"
proof -
  have "sh_nstat_count shm < length (sh_nstats shm)" using assms by (simp add: group_entries_def)
  then obtain k shm1 where m: "malloc_newstats NSTAT_GROUP sid (g_groupid g) (- 1) (- 1) (g_name g) shm = Inr (k, shm1)"
      "sh_nstat_count shm1 = sh_nstat_count shm + 1" "length (sh_nstats shm1) = length (sh_nstats shm)"
      "sh_strands shm1 = sh_strands shm" "sh_global_error shm1 = sh_global_error shm"
    using malloc_newstats_ok by blast
  with assms have "sh_nstat_count shm1 + sum_list (map (\<lambda>t. 1 + length (t_flist t)) (g_tlist g)) \<le> length (sh_nstats shm1)"
    by (simp add: group_entries_def)
  from assign_txns_ok [OF this, of sid "g_groupid g"] m show ?thesis
    by (auto simp: group_assign_stat_def group_entries_def)
qed

lemma spawn_loop_ok:
  assumes "sh_nstat_count shm + n * group_entries gp \<le> length (sh_nstats shm)"
    and "i + n \<le> length (sh_strands shm)"
  shows "\<exists>r shm'. spawn_strands_loop create gp n i shm = Inr (r, shm') \<and>
    sh_nstat_count shm' \<le> sh_nstat_count shm + n * group_entries gp \<and>
    length (sh_nstats shm') = length (sh_nstats shm) \<and>
    length (sh_strands shm') = length (sh_strands shm)"
  using assms
proof (induction n arbitrary: i shm)
  case (Suc n)
  have i: "i < length (sh_strands shm)" using Suc.prems(2) by simp
  have "sh_nstat_count shm + group_entries gp \<le> length (sh_nstats shm)" using Suc.prems(1) by simp
  then obtain wl shm1 where a: "group_assign_stat gp (of_nat i) shm = Inr (wl, shm1)"
      "sh_nstat_count shm1 = sh_nstat_count shm + group_entries gp"
      "length (sh_nstats shm1) = length (sh_nstats shm)" "sh_strands shm1 = sh_strands shm"
    using group_assign_stat_ok by blast
  have step: "\<exists>r shm'. spawn_strands_loop create gp n (i + 1) (shm_set_strand i s shm1) = Inr (r, shm') \<and>
      sh_nstat_count shm' \<le> sh_nstat_count shm + Suc n * group_entries gp \<and>
      length (sh_nstats shm') = length (sh_nstats shm) \<and> length (sh_strands shm') = length (sh_strands shm)" for s
    using Suc.IH [of "shm_set_strand i s shm1" "i + 1"] a Suc.prems by (auto simp: shm_set_strand_def)
  show ?case
    using i a step
    by (simp add: shm_get_strand_def Let_def shm_set_strand_def)
qed simp

lemma spawn_groups_ok:
  assumes "sh_nstat_count shm + sum_list (map (\<lambda>g. unat (g_nthreads g) * group_entries g) gs) \<le> length (sh_nstats shm)"
    and "i + sum_list (map (\<lambda>g. unat (g_nthreads g)) gs) \<le> length (sh_strands shm)"
  shows "\<exists>shm'. spawn_groups create gs k i shm = Inr shm'"
  using assms
proof (induction gs arbitrary: k i shm)
  case (Cons g gs)
  have e: "group_entries (g\<lparr>g_groupid := of_nat k\<rparr>) = group_entries g" by (simp add: group_entries_def)
  obtain r shm1 where s: "spawn_strands_group create shm (g\<lparr>g_groupid := of_nat k\<rparr>) i = Inr (r, shm1)"
      "sh_nstat_count shm1 \<le> sh_nstat_count shm + unat (g_nthreads g) * group_entries g"
      "length (sh_nstats shm1) = length (sh_nstats shm)" "length (sh_strands shm1) = length (sh_strands shm)"
    using spawn_loop_ok [of shm "unat (g_nthreads g)" "g\<lparr>g_groupid := of_nat k\<rparr>" i create] Cons.prems
    by (auto simp: spawn_strands_group_def e)
  show ?case
    using Cons.IH s Cons.prems by (simp add: Let_def)
qed simp

lemma strand_init_loop_ok:
  assumes "j + n + ssid \<le> length (sh_strands shm)"
  shows "\<exists>shm'. strand_init_loop n j ssid shm = Inr shm' \<and> length (sh_strands shm') = length (sh_strands shm) \<and>
    sh_nstats shm' = sh_nstats shm \<and> sh_nstat_count shm' = sh_nstat_count shm"
  using assms
proof (induction n arbitrary: j shm)
  case (Suc n)
  have step: "\<exists>shm'. strand_init_loop n (j + 1) ssid (shm_set_strand (j + ssid) s shm) = Inr shm' \<and>
      length (sh_strands shm') = length (sh_strands shm) \<and>
      sh_nstats shm' = sh_nstats shm \<and> sh_nstat_count shm' = sh_nstat_count shm" for s
    using Suc.IH [of "j + 1" "shm_set_strand (j + ssid) s shm"] Suc.prems by (simp add: shm_set_strand_def)
  have "j + ssid < length (sh_strands shm)" using Suc.prems by simp
  with step show ?case by (simp add: shm_get_strand_def Let_def)
qed simp

lemma strand_init_groups_ok:
  assumes "cnt + sum_list (map (\<lambda>g. unat (g_nthreads g)) gs) \<le> length (sh_strands shm)"
  shows "\<exists>shm'. strand_init_groups gs cnt shm = Inr shm' \<and> length (sh_strands shm') = length (sh_strands shm) \<and>
    sh_nstats shm' = sh_nstats shm \<and> sh_nstat_count shm' = sh_nstat_count shm"
  using assms
proof (induction gs arbitrary: cnt shm)
  case (Cons g gs)
  obtain shm1 where i: "strand_init_group shm g cnt = Inr shm1" "length (sh_strands shm1) = length (sh_strands shm)"
      "sh_nstats shm1 = sh_nstats shm" "sh_nstat_count shm1 = sh_nstat_count shm"
    using strand_init_loop_ok [of 0 "unat (g_nthreads g)" cnt shm] Cons.prems
    by (auto simp: strand_init_group_def)
  with Cons.IH [of "cnt + unat (g_nthreads g)" shm1] Cons.prems show ?case by simp
qed simp

lemma fold_wrap32_sum:
  assumes "\<forall>x \<in> set xs. 0 \<le> f x" and "0 \<le> c" and "c + sum_list (map f xs) < 2 ^ 31"
  shows "fold (\<lambda>x c. wrap32 (c + f x)) xs c = c + sum_list (map f xs)"
  using assms
proof (induction xs arbitrary: c)
  case (Cons x xs)
  have "0 \<le> sum_list (map f xs)" using Cons.prems(1) by (intro sum_list_nonneg) auto
  then have "wrap32 (c + f x) = c + f x"
    using Cons.prems by (intro wrap32_id) (auto intro: order_trans [of _ 0])
  with Cons show ?case by simp
qed simp

lemma int_sum_list: "int (sum_list (map f xs)) = sum_list (map (\<lambda>x. int (f x)) xs)"
  by (induction xs) simp_all

lemma num_strands_sum:
  assumes "sum_list (map (\<lambda>g. unat (g_nthreads g)) (w_grp w)) < 2 ^ 31"
  shows "workorder_num_strands w = int (sum_list (map (\<lambda>g. unat (g_nthreads g)) (w_grp w)))"
proof -
  have e: "int (sum_list (map (\<lambda>g. unat (g_nthreads g)) (w_grp w))) = sum_list (map (\<lambda>g. uint (g_nthreads g)) (w_grp w))"
    by (simp add: int_sum_list)
  from assms have "int (sum_list (map (\<lambda>g. unat (g_nthreads g)) (w_grp w))) < int (2 ^ 31)"
    by (simp only: of_nat_less_iff)
  then have "sum_list (map (\<lambda>g. uint (g_nthreads g)) (w_grp w)) < 2 ^ 31" by (simp add: e)
  then show ?thesis
    using fold_wrap32_sum [of "w_grp w" "\<lambda>g. uint (g_nthreads g)" 0] by (simp add: workorder_num_strands_def e)
qed

lemma group_num_stats_entries:
  assumes "group_counts g" and "group_entries g < 2 ^ 31"
  shows "group_num_stats g = int (group_entries g)"
proof -
  let ?f = "\<lambda>t. 1 + uint (t_nflowop t)"
  have n: "uint (t_nflowop t) = int (length (t_flist t))" if "t \<in> set (g_tlist g)" for t
    using assms(1) that
    by (auto simp: group_counts_def list_all_iff txn_counts_def unsigned_of_nat take_bit_nat_eq_self
        simp flip: uint_nat dest!: bspec)
  have m: "map ?f (g_tlist g) = map (\<lambda>t. int (1 + length (t_flist t))) (g_tlist g)"
    using n by simp
  have s: "sum_list (map ?f (g_tlist g)) = int (sum_list (map (\<lambda>t. 1 + length (t_flist t)) (g_tlist g)))"
    unfolding m by (simp only: int_sum_list)
  have "int (group_entries g) < int (2 ^ 31)" using assms(2) by (simp only: of_nat_less_iff)
  then have "1 + sum_list (map ?f (g_tlist g)) < 2 ^ 31" by (simp add: s group_entries_def)
  then have "fold (\<lambda>t c. wrap32 (c + ?f t)) (g_tlist g) 1 = 1 + sum_list (map ?f (g_tlist g))"
    by (intro fold_wrap32_sum) auto
  then show ?thesis by (simp add: group_num_stats_def s group_entries_def add.assoc)
qed

lemma num_stats_sum:
  assumes "\<forall>g \<in> set (w_grp w). group_counts g" and "sum_list (map group_entries (w_grp w)) < 2 ^ 31"
  shows "workorder_num_stats w = int (sum_list (map group_entries (w_grp w)))"
proof -
  have "group_entries g \<le> sum_list (map group_entries (w_grp w))" if "g \<in> set (w_grp w)" for g
    using that by (intro member_le_sum_list) auto
  then have e: "group_num_stats g = int (group_entries g)" if "g \<in> set (w_grp w)" for g
    using assms that by (intro group_num_stats_entries) (auto intro: le_less_trans)
  then have m: "sum_list (map group_num_stats (w_grp w)) = int (sum_list (map group_entries (w_grp w)))"
    unfolding int_sum_list by (intro arg_cong [of _ _ sum_list] map_cong) auto
  have "int (sum_list (map group_entries (w_grp w))) < int (2 ^ 31)"
    using assms(2) by (simp only: of_nat_less_iff)
  then have "0 + sum_list (map group_num_stats (w_grp w)) < 2 ^ 31" by (simp add: m)
  then have "fold (\<lambda>g c. wrap32 (c + group_num_stats g)) (w_grp w) 0 = 0 + sum_list (map group_num_stats (w_grp w))"
    using e by (intro fold_wrap32_sum) auto
  then show ?thesis by (simp add: workorder_num_stats_def m)
qed

lemma sum_prod_le:
  "sum_list (map (\<lambda>x. f x * g x) xs) \<le> sum_list (map f xs) * sum_list (map g xs)" for f g :: "'a \<Rightarrow> nat"
proof (induction xs)
  case (Cons x xs)
  have "f x * g x + sum_list (map f xs) * sum_list (map g xs) \<le>
      (f x + sum_list (map f xs)) * (g x + sum_list (map g xs))"
    by (simp add: algebra_simps)
  with Cons show ?case by simp
qed simp



end
