(* ===== verification/Rate.thy ===== *)
theory Rate
  imports Prelude
begin

text \<open>
  Executing a callback at a given rate (\<open>src/rate.c\<close>), over any state: the clock \<open>now\<close>, the
  sleep \<open>slp\<close> and the callback \<open>cb\<close> are parameters. \<open>hrtime_t\<close> is \<open>uint64_t\<close> (the
  configuration without HAVE_HRTIME_T). Where C computes in \<open>double\<close>, an integer is first
  rounded to 53 bits (\<open>dbl\<close>).
\<close>

section \<open>Integers as doubles\<close>

fun bit_len :: "nat \<Rightarrow> nat" where
  "bit_len n = (if n = 0 then 0 else Suc (bit_len (n div 2)))"

declare bit_len.simps [simp del]

definition dbl :: "nat \<Rightarrow> nat" where
  \<comment> \<open>the nearest \<open>double\<close>, ties to even\<close>
  "dbl n =
     (if n < 2 ^ 53 then n
      else let s = bit_len n - 53; q = n div 2 ^ s; r = n mod 2 ^ s; h = 2 ^ (s - 1)
           in if r < h \<or> r = h \<and> even q then q * 2 ^ s else (q + 1) * 2 ^ s)"

lemma dbl_small [simp]: "n < 2 ^ 53 \<Longrightarrow> dbl n = n"
  by (simp add: dbl_def)

definition fl_div :: "nat \<Rightarrow> nat \<Rightarrow> nat" where
  \<comment> \<open>the integer part of the \<open>double\<close> nearest to \<open>a / b\<close>\<close>
  "fl_div a b =
     (let s = 53 - bit_len (a div b); q = a * 2 ^ s div b; r = a * 2 ^ s mod b;
          m = (if 2 * r < b \<or> 2 * r = b \<and> even q then q else q + 1)
      in m div 2 ^ s)"

section \<open>The functions\<close>

definition INTERVALS_PER_SEC :: int where "INTERVALS_PER_SEC = 2"
definition TIMESHIFT :: nat where "TIMESHIFT = 10"

definition time_expired :: "u64 \<Rightarrow> u64 \<Rightarrow> bool" where
  \<comment> \<open>\<open>TIME_EXPIRED(a)\<close> when the clock shows \<open>t\<close>\<close>
  "time_expired t a = (drop_bit TIMESHIFT t > drop_bit TIMESHIFT a)"

fun rate_calls ::
  "('s \<Rightarrow> u64 \<times> 's) \<Rightarrow> ('s \<Rightarrow> c_stop + int \<times> 's) \<Rightarrow> u64 \<Rightarrow> nat \<Rightarrow> 's \<Rightarrow> c_stop + int \<times> 's" where
  \<comment> \<open>the loop of \<open>rate_delta\<close>; 0 when it is left by its condition or by \<open>break\<close>\<close>
  "rate_calls now cb local_stop 0 st = Inr (0, st)"
| "rate_calls now cb local_stop (Suc n) st =
     (let (t, st1) = now st in
      if time_expired t local_stop then Inr (0, st1)
      else cbind (cb st1) (\<lambda>(ret, st2).
             if ret \<noteq> 0 then Inr (ret, st2) else rate_calls now cb local_stop n st2))"

definition per_loop :: "int \<Rightarrow> nat" where
  "per_loop rate = (if rate div INTERVALS_PER_SEC = 0 then 1 else nat (rate div INTERVALS_PER_SEC))"

definition rate_delta ::
  "('s \<Rightarrow> u64 \<times> 's) \<Rightarrow> (u64 \<Rightarrow> 's \<Rightarrow> int \<times> 's) \<Rightarrow> ('s \<Rightarrow> c_stop + int \<times> 's) \<Rightarrow> int \<Rightarrow> 's \<Rightarrow> c_stop + int \<times> 's" where
  "rate_delta now slp cb rate st =
     (if \<not> 0 < rate then Inl Aborted
      else let (t, st1) = now st;
               local_stop = of_nat (dbl (dbl (unat t) + 500000000))
           in cbind (rate_calls now cb local_stop (per_loop rate) st1) (\<lambda>(ret, st2).
                if ret \<noteq> 0 then Inr (ret, st2)
                else let (end, st3) = now st2; sleep_time = local_stop - end
                     in if sleep_time > 2000 then Inr (slp sleep_time st3) else Inr (0, st3)))"

fun rate_intervals ::
  "('s \<Rightarrow> u64 \<times> 's) \<Rightarrow> (u64 \<Rightarrow> 's \<Rightarrow> int \<times> 's) \<Rightarrow> ('s \<Rightarrow> c_stop + int \<times> 's) \<Rightarrow> int \<Rightarrow> nat \<Rightarrow> int \<Rightarrow> 's \<Rightarrow>
     c_stop + int \<times> 's" where
  "rate_intervals now slp cb rate 0 ret st = Inr (ret, st)"
| "rate_intervals now slp cb rate (Suc n) ret st =
     (if ret = 0 then cbind (rate_delta now slp cb rate st) (\<lambda>(r, st1). rate_intervals now slp cb rate n r st1)
      else Inr (ret, st))"

definition rate_execute_1s ::
  "('s \<Rightarrow> u64 \<times> 's) \<Rightarrow> (u64 \<Rightarrow> 's \<Rightarrow> int \<times> 's) \<Rightarrow> ('s \<Rightarrow> c_stop + int \<times> 's) \<Rightarrow> int \<Rightarrow> 's \<Rightarrow> c_stop + int \<times> 's" where
  "rate_execute_1s now slp cb rate st =
     (if \<not> 0 < rate then Inl Aborted
      else let (begin_time, st1) = now st
           in cbind (rate_intervals now slp cb rate (nat INTERVALS_PER_SEC) 0 st1) (\<lambda>(ret, st2).
                if ret \<noteq> 0 then Inr (ret, st2)
                else let (end_time, st3) = now st2; used = unat (end_time - begin_time)
                     in if used < 1000000000 then Inr (slp (of_nat (1000000000 - used)) st3) else Inr (ret, st3)))"

partial_function (option) busywait_loop ::
  "('s \<Rightarrow> u64 \<times> 's) \<Rightarrow> ('s \<Rightarrow> c_stop + int \<times> 's) \<Rightarrow> int \<Rightarrow> u64 \<Rightarrow> u64 \<Rightarrow> int \<Rightarrow> 's \<Rightarrow> (c_stop + int \<times> 's) option" where
  "busywait_loop now cb interval begin_time t i st =
     (if \<not> unat (t - begin_time) < 1000000000 then Some (Inr (0, st))
      else if t - begin_time \<ge> to_u64 (wrap32 (interval * i)) then
        (case cb st of
           Inl stop \<Rightarrow> Some (Inl stop)
         | Inr (ret, st1) \<Rightarrow>
             if ret \<noteq> 0 then Some (Inr (ret, st1))
             else busywait_loop now cb interval begin_time (fst (now st1)) (wrap32 (i + 1)) (snd (now st1)))
      else busywait_loop now cb interval begin_time (fst (now st)) i (snd (now st)))"

definition rate_execute_1s_busywait ::
  "('s \<Rightarrow> u64 \<times> 's) \<Rightarrow> ('s \<Rightarrow> c_stop + int \<times> 's) \<Rightarrow> int \<Rightarrow> 's \<Rightarrow> (c_stop + int \<times> 's) option" where
  \<comment> \<open>a rate of 0 is a division of \<open>double\<close> by 0, converted to \<open>int\<close>, before the \<open>assert\<close>\<close>
  "rate_execute_1s_busywait now cb rate st =
     (if \<not> 0 < rate then Some (Inl (if rate = 0 then Undefined else Aborted))
      else let interval = 1000000000 div rate; (b, st1) = now st; (t, st2) = now st1
           in busywait_loop now cb interval b t 0 st2)"

section \<open>How often the callback is called\<close>

lemma rate_calls_count:
  assumes "\<And>s t s'. now s = (t, s') \<Longrightarrow> c s' = c s" and "\<And>s r s'. cb s = Inr (r, s') \<Longrightarrow> c s' = c s + (1 :: nat)"
    and "rate_calls now cb stop n st = Inr (r, st')"
  shows "c st' \<le> c st + n"
  using assms(3)
proof (induction n arbitrary: st)
  case (Suc n)
  obtain t s1 where s1: "now st = (t, s1)" by fastforce
  show ?case
  proof (cases "time_expired t stop")
    case True
    with Suc.prems s1 assms(1) [OF s1] show ?thesis by simp
  next
    case False
    with Suc.prems s1 obtain x s2 where s2: "cb s1 = Inr (x, s2)" by (cases "cb s1") auto
    with Suc.prems False s1 Suc.IH [of s2] assms(1) [OF s1] assms(2) [OF s2] show ?thesis
      by (auto split: if_splits)
  qed
qed simp

lemma rate_delta_count:
  assumes now: "\<And>s t s'. now s = (t, s') \<Longrightarrow> c s' = c s" and slp: "\<And>n s r s'. slp n s = (r, s') \<Longrightarrow> c s' = c s"
    and cb: "\<And>s r s'. cb s = Inr (r, s') \<Longrightarrow> c s' = c s + (1 :: nat)"
    and "rate_delta now slp cb rate st = Inr (r, st')"
  shows "c st' \<le> c st + per_loop rate"
proof -
  obtain t s1 where s1: "now st = (t, s1)" by fastforce
  let ?stop = "of_nat (dbl (dbl (unat t) + 500000000))"
  from assms(4) s1 obtain x s2 where s2: "rate_calls now cb ?stop (per_loop rate) s1 = Inr (x, s2)"
    by (cases "rate_calls now cb ?stop (per_loop rate) s1") (auto simp: rate_delta_def split: if_splits)
  obtain t' s3 where s3: "now s2 = (t', s3)" by fastforce
  from rate_calls_count [of now c cb, OF now cb s2] assms(4) s1 s2 s3 now [OF s1] now [OF s3] slp [of "?stop - t'" s3 r st']
  show ?thesis by (auto simp: rate_delta_def Let_def split: if_splits)
qed

lemma rate_intervals_count:
  assumes now: "\<And>s t s'. now s = (t, s') \<Longrightarrow> c s' = c s" and slp: "\<And>n s r s'. slp n s = (r, s') \<Longrightarrow> c s' = c s"
    and cb: "\<And>s r s'. cb s = Inr (r, s') \<Longrightarrow> c s' = c s + (1 :: nat)"
    and "rate_intervals now slp cb rate n ret st = Inr (r, st')"
  shows "c st' \<le> c st + n * per_loop rate"
  using assms(4)
proof (induction n arbitrary: ret st)
  case (Suc n)
  show ?case
  proof (cases "ret = 0")
    case True
    with Suc.prems obtain x s1 where s1: "rate_delta now slp cb rate st = Inr (x, s1)"
      by (cases "rate_delta now slp cb rate st") auto
    have "c s1 \<le> c st + per_loop rate"
      by (rule rate_delta_count [of now c slp cb]) (erule now, erule slp, erule cb, rule s1)
    with Suc.IH [of x s1] Suc.prems True s1 show ?thesis by simp
  qed (use Suc.prems in simp)
qed simp

text \<open>
  A rate is never exceeded by more than rounding: in the second it is given,
  \<open>rate_execute_1s\<close> calls the callback at most twice half the rate (rounded down, but at least
  once), whatever the clock shows and however the sleeps end.
\<close>

lemma rate_not_exceeded:
  assumes "\<And>s t s'. now s = (t, s') \<Longrightarrow> c s' = c s" and "\<And>n s r s'. slp n s = (r, s') \<Longrightarrow> c s' = c s"
    and "\<And>s r s'. cb s = Inr (r, s') \<Longrightarrow> c s' = c s + (1 :: nat)"
    and "rate_execute_1s now slp cb rate st = Inr (r, st')"
  shows "c st' \<le> c st + 2 * max 1 (nat (rate div 2))"
proof -
  from assms(4) have rate: "0 < rate" by (auto simp: rate_execute_1s_def split: if_splits)
  then have p: "per_loop rate = max 1 (nat (rate div 2))"
    by (auto simp: per_loop_def INTERVALS_PER_SEC_def)
  obtain t s1 where s1: "now st = (t, s1)" by fastforce
  obtain x s2 where s2: "rate_intervals now slp cb rate (nat INTERVALS_PER_SEC) 0 s1 = Inr (x, s2)"
    using assms(4) s1 rate
    by (cases "rate_intervals now slp cb rate (nat INTERVALS_PER_SEC) 0 s1") (auto simp: rate_execute_1s_def)
  obtain t' s3 where s3: "now s2 = (t', s3)" by fastforce
  let ?n = "of_nat (1000000000 - unat (t' - t)) :: u64"
  have "c s2 \<le> c s1 + nat INTERVALS_PER_SEC * per_loop rate"
    by (rule rate_intervals_count [of now c slp cb, OF assms(1-3) s2])
  with assms(1) [OF s1] assms(1) [OF s3] assms(2) [of ?n s3 r st'] assms(4) s1 s2 s3 rate show ?thesis
    by (auto simp: rate_execute_1s_def Let_def p INTERVALS_PER_SEC_def split: if_splits)
qed

section \<open>A machine with a clock\<close>

text \<open>
  The state is the time in nanoseconds and the number of calls; a call takes \<open>d\<close>
  nanoseconds and a sleep as long as it is asked to.
\<close>

definition m_now :: "nat \<times> nat \<Rightarrow> u64 \<times> nat \<times> nat" where "m_now s = (of_nat (fst s), s)"
definition m_slp :: "u64 \<Rightarrow> nat \<times> nat \<Rightarrow> int \<times> nat \<times> nat" where "m_slp n s = (0, fst s + unat n, snd s)"
definition m_cb :: "nat \<Rightarrow> nat \<times> nat \<Rightarrow> c_stop + int \<times> nat \<times> nat" where "m_cb d s = Inr (0, fst s + d, snd s + 1)"

lemma m_keeps: "m_now s = (t, s') \<Longrightarrow> snd s' = snd s" "m_slp n s = (r, s') \<Longrightarrow> snd s' = snd s"
    "m_cb d s = Inr (r, s') \<Longrightarrow> snd s' = snd s + 1"
  by (auto simp: m_now_def m_slp_def m_cb_def)

lemma not_expired: "unat t \<le> unat a \<Longrightarrow> \<not> time_expired t a"
proof -
  assume "unat t \<le> unat a"
  then have "unat t div 2 ^ 10 \<le> unat a div 2 ^ 10" by (rule div_le_mono)
  then have "drop_bit TIMESHIFT t \<le> drop_bit TIMESHIFT a"
    by (simp add: word_le_nat_alt TIMESHIFT_def drop_bit_eq_div unat_div_distrib)
  then show ?thesis by (simp add: time_expired_def)
qed

lemma unat_time: "n < 2 ^ 64 \<Longrightarrow> unat (of_nat n :: u64) = n"
  by (simp add: unsigned_of_nat take_bit_nat_eq_self)

lemma m_rate_calls:
  assumes "t + n * d \<le> s + d" and "s + d < 2 ^ 64"
  shows "rate_calls m_now (m_cb d) (of_nat s) n (t, k) = Inr (0, (t + n * d, k + n))"
  using assms(1)
proof (induction n arbitrary: t k)
  case (Suc n)
  have "t \<le> s" using Suc.prems by simp
  then have "\<not> time_expired (of_nat t) (of_nat s)"
    using assms(2) by (intro not_expired) (simp add: unat_time)
  with Suc.IH [of "t + d" "k + 1"] Suc.prems show ?case
    by (simp add: m_now_def m_cb_def add.assoc)
qed simp

lemma m_rate_delta:
  assumes "0 < rate" and "per_loop rate * d \<le> 500000000" and "t + 500000000 < 2 ^ 53"
  shows "\<exists>t'. rate_delta m_now m_slp (m_cb d) rate (t, k) = Inr (0, (t', k + per_loop rate)) \<and>
    t \<le> t' \<and> t' \<le> t + 500000000"
proof -
  let ?n = "per_loop rate" and ?s = "t + 500000000"
  have "1 \<le> ?n" using assms(1) by (auto simp: per_loop_def INTERVALS_PER_SEC_def Suc_le_eq)
  then have "d \<le> ?n * d" by simp
  then have d: "d \<le> 500000000" using assms(2) by linarith
  have c: "rate_calls m_now (m_cb d) (of_nat ?s) ?n (t, k) = Inr (0, (t + ?n * d, k + ?n))"
    by (rule m_rate_calls) (use assms d in auto)
  have u: "unat (of_nat t :: u64) = t" using assms(3) by (intro unat_time) simp
  have stop: "of_nat (dbl (dbl (unat (of_nat t :: u64)) + 500000000)) = (of_nat ?s :: u64)"
    unfolding u using assms(3) by simp
  have "?n * d \<le> 500000000" by (rule assms(2))
  then have diff: "of_nat ?s - of_nat (t + ?n * d) = (of_nat (?s - (t + ?n * d)) :: u64)"
    by (simp add: of_nat_diff)
  have ud: "unat (of_nat (?s - (t + ?n * d)) :: u64) = ?s - (t + ?n * d)"
    by (rule unat_time) simp
  have run: "rate_delta m_now m_slp (m_cb d) rate (t, k) =
      (if (of_nat (?s - (t + ?n * d)) :: u64) > 2000 then Inr (0, (t + ?n * d + (?s - (t + ?n * d)), k + ?n))
       else Inr (0, (t + ?n * d, k + ?n)))"
    using assms(1) c stop diff ud
    by (simp add: rate_delta_def m_now_def Let_def m_slp_def)
  show ?thesis
    unfolding run using assms(2) by auto
qed

lemma m_rate_execute:
  assumes "0 < rate" and "nat (max 1 (rate div 2)) * d \<le> 500000000" and "t + 2000000000 < 2 ^ 53"
  shows "\<exists>t'. rate_execute_1s m_now m_slp (m_cb d) rate (t, k) = Inr (0, (t', k + 2 * nat (max 1 (rate div 2))))"
proof -
  have p: "nat (max 1 (rate div 2)) = per_loop rate"
    using assms(1) by (auto simp: per_loop_def INTERVALS_PER_SEC_def)
  let ?n = "per_loop rate"
  have n: "?n * d \<le> 500000000" using assms(2) by (simp only: p)
  obtain t1 where t1: "rate_delta m_now m_slp (m_cb d) rate (t, k) = Inr (0, (t1, k + ?n))"
      "t1 \<le> t + 500000000"
    using m_rate_delta [OF assms(1) n, of t k] assms(3) by auto
  obtain t2 where t2: "rate_delta m_now m_slp (m_cb d) rate (t1, k + ?n) = Inr (0, (t2, k + ?n + ?n))"
    using m_rate_delta [OF assms(1) n, of t1 "k + ?n"] assms(3) t1(2) by auto
  have "rate_intervals m_now m_slp (m_cb d) rate (nat INTERVALS_PER_SEC) 0 (t, k) = Inr (0, (t2, k + 2 * ?n))"
    using t1 t2 by (simp add: INTERVALS_PER_SEC_def numeral_2_eq_2)
  with assms(1) show ?thesis
    by (auto simp: rate_execute_1s_def m_now_def m_slp_def Let_def p)
qed

text \<open>
  What the rate comes to: on a machine with a clock whose calls fit into their half
  second, one second makes exactly twice half the rate of calls, so an odd rate loses a call
  every second and a rate of 1 makes two.
\<close>

lemma rate_calls_per_second:
  assumes "0 < rate" and "nat (max 1 (rate div 2)) * d \<le> 500000000" and "t + 2000000000 < 2 ^ 53"
  shows "\<exists>t'. rate_execute_1s m_now m_slp (m_cb d) rate (t, k) = Inr (0, (t', k + 2 * nat (max 1 (rate div 2))))"
  using assms by (rule m_rate_execute)

lemma rate_calls_per_second_witness:
  "(\<exists>t'. rate_execute_1s m_now m_slp (m_cb 1000) 1 (7, 10) = Inr (0, (t', 12))) \<and>
   (\<exists>t'. rate_execute_1s m_now m_slp (m_cb 1000) 5 (7, 10) = Inr (0, (t', 14)))"
  using rate_calls_per_second [of 1 1000 7 10] rate_calls_per_second [of 5 1000 7 10] by simp

lemma rate_not_exceeded_witness:
  "\<exists>st'. rate_execute_1s m_now m_slp (m_cb 1000) 5 (7, 0) = Inr (0, st') \<and> snd st' \<le> 0 + 2 * max 1 (nat (5 div 2))"
proof -
  have "\<exists>t'. rate_execute_1s m_now m_slp (m_cb 1000) 5 (7, 0) = Inr (0, (t', 0 + 2 * nat (max 1 (5 div 2))))"
    by (rule m_rate_execute) simp_all
  then obtain st' where r: "rate_execute_1s m_now m_slp (m_cb 1000) 5 (7, 0) = Inr (0, st')" by blast
  have "snd st' \<le> snd (7 :: nat, 0 :: nat) + 2 * max 1 (nat (5 div 2))"
    by (rule rate_not_exceeded [of m_now snd m_slp "m_cb 1000", OF _ _ _ r]) (auto dest: m_keeps)
  with r show ?thesis by auto
qed

text \<open>
  A call that overruns its half second puts the strand to sleep for centuries: the
  time left is computed in an unsigned type, so when it is negative by \<open>d - 500000000\<close>
  nanoseconds the sleep is 2^64 nanoseconds less that much.
\<close>

lemma rate_oversleeps:
  assumes "0 < rate" and "rate < 4" and "500000000 < d" and "t + d < 2 ^ 53"
  shows "rate_delta m_now m_slp (m_cb d) rate (t, k) = Inr (0, (t + d + (2 ^ 64 - (d - 500000000)), k + 1))"
proof -
  let ?s = "t + 500000000"
  have n: "per_loop rate = 1" using assms(1,2) by (auto simp: per_loop_def INTERVALS_PER_SEC_def)
  have c: "rate_calls m_now (m_cb d) (of_nat ?s) 1 (t, k) = Inr (0, (t + 1 * d, k + 1))"
    by (rule m_rate_calls) (use assms in auto)
  have u: "unat (of_nat t :: u64) = t" using assms(4) by (intro unat_time) simp
  have stop: "of_nat (dbl (dbl (unat (of_nat t :: u64)) + 500000000)) = (of_nat ?s :: u64)"
    unfolding u using assms(3,4) by simp
  have neg: "(of_nat (2 ^ 64 - x) :: u64) = - of_nat x" if "x \<le> 2 ^ 64" for x
    using that by (simp add: of_nat_diff)
  have "of_nat d = (of_nat (d - 500000000) + of_nat 500000000 :: u64)"
    using assms(3) by (simp flip: of_nat_add)
  then have diff: "(of_nat ?s - of_nat (t + d) :: u64) = of_nat (2 ^ 64 - (d - 500000000))"
    using assms(4) by (subst neg) simp_all
  have ud: "unat (of_nat (2 ^ 64 - (d - 500000000)) :: u64) = 2 ^ 64 - (d - 500000000)"
    using assms(3) by (intro unat_time) simp
  have gt: "(of_nat (2 ^ 64 - (d - 500000000)) :: u64) > 2000"
    unfolding word_less_nat_alt ud using assms(4) by simp
  show ?thesis
    using assms(1) c n diff gt ud
    unfolding rate_delta_def m_now_def m_slp_def Let_def
    by (simp only: stop [unfolded fst_conv] fst_conv snd_conv split cbind_simps n) simp
qed

lemma rate_oversleeps_witness:
  "\<exists>s. rate_delta m_now m_slp (m_cb 600000000) 2 (7, 0) = Inr (0, (s, 1)) \<and> s > 2 ^ 63"
  using rate_oversleeps [of 2 600000000 7 0] by simp
end
