(* ===== verification/Execute.thy ===== *)
theory Execute
  imports Shm Rate
begin

text \<open>
  How a strand executes its group (\<open>src/execute.c\<close> and \<open>strand_run\<close> of \<open>src/strand.c\<close>).
  The state is the shared region as the strand sees it, with the strand's number, the number of
  clock readings made, \<open>errno\<close> and the rest of the world. The environment is a parameter: the
  clock, what other threads did to the region since (\<open>e_async\<close>, applied before the flag
  \<open>signalled\<close> is read), the flowop library (\<open>e_run\<close>), \<open>uperf_sleep\<close> and
  \<open>wait_barrier\<close>.
\<close>

section \<open>The state of a strand\<close>

record 'w xs =
  x_shm :: shm
  x_id :: nat
  x_tick :: nat
  x_errno :: int
  x_world :: 'w

record 'w xenv =
  e_copt :: u32
  e_clk :: "nat \<Rightarrow> u64"
  e_async :: "'w xs \<Rightarrow> 'w xs"
  e_run :: "flowop \<Rightarrow> 'w xs \<Rightarrow> c_stop + int \<times> 'w xs"
  e_sleep :: "u64 \<Rightarrow> 'w xs \<Rightarrow> int \<times> 'w xs"
  e_wait :: "nat \<Rightarrow> 'w xs \<Rightarrow> 'w xs"

definition x_strand :: "'w xs \<Rightarrow> strand" where
  "x_strand st = sh_strands (x_shm st) ! x_id st"

definition set_strand :: "strand \<Rightarrow> 'w xs \<Rightarrow> 'w xs" where
  "set_strand s st = st\<lparr>x_shm := shm_set_strand (x_id st) s (x_shm st)\<rparr>"

definition x_now :: "'w xenv \<Rightarrow> 'w xs \<Rightarrow> u64 \<times> 'w xs" where
  "x_now env st = (e_clk env (x_tick st), st\<lparr>x_tick := x_tick st + 1\<rparr>)"

definition record_stat :: "'w xenv \<Rightarrow> stat_event \<Rightarrow> nat option \<Rightarrow> u64 \<Rightarrow> u64 \<Rightarrow> 'w xs \<Rightarrow> c_stop + 'w xs" where
  \<comment> \<open>\<open>stats_update\<close> on the strand and the entry the pointer names\<close>
  "record_stat env ev ptr sz n st =
     (let s = x_strand st; nss = sh_nstats (x_shm st) in
      if ptr \<noteq> None \<and> length nss \<le> the ptr then Inl Undefined
      else cbind (stats_update (e_copt env) (e_clk env) ev sz n
             \<lparr>sc_strand = s_nstats s, sc_history = s_history s, sc_stat = map_option (\<lambda>k. nss ! k) ptr,
              sc_tick = x_tick st\<rparr>)
           (\<lambda>c. let st1 = set_strand (s\<lparr>s_nstats := sc_strand c, s_history := sc_history c\<rparr>) st;
                    nss' = (case (ptr, sc_stat c) of (Some k, Some ns) \<Rightarrow> nss[k := ns] | _ \<Rightarrow> nss)
                in Inr (st1\<lparr>x_shm := (x_shm st1)\<lparr>sh_nstats := nss'\<rparr>, x_tick := sc_tick c\<rparr>)))"

section \<open>Flowops and transactions\<close>

fun flowop_loop ::
  "'w xenv \<Rightarrow> flowop \<Rightarrow> nat \<Rightarrow> int \<Rightarrow> nat \<Rightarrow> 'w xs \<Rightarrow> c_stop + bool \<times> int \<times> nat \<times> 'w xs" where
  \<comment> \<open>whether the strand was signalled, \<open>ret\<close> and \<open>i\<close>; the second argument counts what is left\<close>
  "flowop_loop env f 0 ret i st = Inr (False, ret, i, st)"
| "flowop_loop env f (Suc n) ret i st =
     (let st1 = e_async env st in
      if s_signalled (x_strand st1) then Inr (True, ret, i, st1)
      else cbind (e_run env f st1) (\<lambda>(r, st2).
             if fo_is O_CANFAIL (f_options f) \<and> r < 0 then flowop_loop env f n 0 (i + 1) st2
             else if r < 0 then Inr (False, r, i, st2)
             else flowop_loop env f n r (i + 1) st2))"

definition flowop_execute :: "'w xenv \<Rightarrow> flowop \<Rightarrow> 'w xs \<Rightarrow> c_stop + int \<times> 'w xs" where
  "flowop_execute env f st =
     cbind (record_stat env FLOWOP_BEGIN (f_stats f) 0 0 st) (\<lambda>st0.
     cbind (flowop_loop env f (unat (fo_count (f_options f))) 0 0 st0) (\<lambda>(signalled, ret, i, st1).
       if signalled then Inr (UPERF_DURATION_EXPIRED, st1)
       else let save_errno = x_errno st1 in
         cbind (record_stat env FLOWOP_END (f_stats f) (to_u64 ret) (of_nat i) st1) (\<lambda>st2.
           let st3 = e_async env st2 in
           if save_errno = EINTR \<or> s_signalled (x_strand st3) then Inr (UPERF_DURATION_EXPIRED, st3)
           else Inr (if ret \<ge> 0 then UPERF_SUCCESS else UPERF_FAILURE, st3))))"

fun txn_flowops :: "'w xenv \<Rightarrow> flowop list \<Rightarrow> int \<Rightarrow> 'w xs \<Rightarrow> c_stop + int \<times> 'w xs" where
  "txn_flowops env [] ret st = Inr (ret, st)"
| "txn_flowops env (f # fs) ret st =
     (if ret = UPERF_SUCCESS then
        cbind (flowop_execute env f st) (\<lambda>(r, st1). txn_flowops env fs r st1)
      else Inr (ret, st))"

definition txn_execute_once :: "'w xenv \<Rightarrow> txn \<Rightarrow> 'w xs \<Rightarrow> c_stop + int \<times> 'w xs" where
  "txn_execute_once env t st =
     (let timed = enabled TXN_STATS (e_copt env) in
      cbind (if timed then record_stat env TXN_BEGIN (t_stats t) 0 0 st else Inr st) (\<lambda>st1.
      cbind (txn_flowops env (t_flist t) UPERF_SUCCESS st1) (\<lambda>(ret, st2).
      cbind (if timed then record_stat env TXN_END (t_stats t) 0 1 st2 else Inr st2) (\<lambda>st3.
        Inr (ret, st3)))))"

definition txn_execute_rate :: "'w xenv \<Rightarrow> txn \<Rightarrow> 'w xs \<Rightarrow> (c_stop + int \<times> 'w xs) option" where
  \<comment> \<open>\<open>rate_count\<close> is passed as an \<open>int\<close>\<close>
  "txn_execute_rate env t st =
     (if t_rate_count t = 0 then Some (Inl Aborted)
      else if sh_role (x_shm st) = MASTER then
        Some (rate_execute_1s (x_now env) (e_sleep env) (txn_execute_once env t) (sint (t_rate_count t)) st)
      else rate_execute_1s_busywait (x_now env) (txn_execute_once env t) (sint (t_rate_count t)) st)"

section \<open>Until the time is up\<close>

definition ONE_SEC :: nat where "ONE_SEC = 1000000000"

definition in_seconds :: "u64 \<Rightarrow> u64" where
  \<comment> \<open>\<open>(hrtime_t) t/CALLOUT_GRANURALITY\<close>, a division of \<open>double\<close>s\<close>
  "in_seconds t = of_nat (fl_div (dbl (unat t)) ONE_SEC)"

definition shm_callout_register :: "shm \<Rightarrow> u64 \<Rightarrow> u32 \<Rightarrow> c_stop + int \<times> shm" where
  "shm_callout_register shm stop group_id =
     (let g = unat group_id in
      if length (sh_callouts shm) \<le> g then Inl Undefined
      else if sh_callouts shm ! g = 0 then
        Inr (0, shm\<lparr>sh_callouts := (sh_callouts shm)[g := in_seconds stop]\<rparr>)
      else Inr (- 1, shm))"

partial_function (option) call_until ::
  "('w xs \<Rightarrow> (c_stop + int \<times> 'w xs) option) \<Rightarrow> 'w xs \<Rightarrow> (c_stop + int \<times> 'w xs) option" where
  \<comment> \<open>\<open>while (error == 0) error = callback(sp, b)\<close>\<close>
  "call_until cb st =
     (case cb st of
        None \<Rightarrow> None
      | Some (Inl stop) \<Rightarrow> Some (Inl stop)
      | Some (Inr (r, st1)) \<Rightarrow> if r = 0 then call_until cb st1 else Some (Inr (r, st1)))"

definition duration_execute ::
  "('w xs \<Rightarrow> (c_stop + int \<times> 'w xs) option) \<Rightarrow> u64 \<Rightarrow> 'w xs \<Rightarrow> (c_stop + int \<times> 'w xs) option" where
  "duration_execute cb stop st =
     (if s_flag (x_strand st) AND STRAND_LEADER \<noteq> 0 then
        (case s_worklist (x_strand st) of
           None \<Rightarrow> Some (Inl Undefined)
         | Some wl \<Rightarrow>
             (case shm_callout_register (x_shm st) stop (g_groupid wl) of
                Inl e \<Rightarrow> Some (Inl e)
              | Inr (r, shm1) \<Rightarrow> call_until cb (st\<lparr>x_shm := shm1\<rparr>)))
      else call_until cb st)"

definition txn_duration :: "'w xenv \<Rightarrow> txn \<Rightarrow> 'w xs \<Rightarrow> (c_stop + int \<times> 'w xs) option" where
  "txn_duration env t st =
     duration_execute
       (if t_rate_count t = 0 then (\<lambda>s. Some (txn_execute_once env t s)) else txn_execute_rate env t)
       (sh_txn_begin (x_shm st) + t_duration t) st"

fun txn_iter_loop :: "'w xenv \<Rightarrow> txn \<Rightarrow> nat \<Rightarrow> int \<Rightarrow> 'w xs \<Rightarrow> c_stop + int \<times> 'w xs" where
  "txn_iter_loop env t 0 err st = Inr (err, st)"
| "txn_iter_loop env t (Suc n) err st =
     (if err = UPERF_SUCCESS then cbind (txn_execute_once env t st) (\<lambda>(r, st1). txn_iter_loop env t n r st1)
      else Inr (err, st))"

definition txn_iterations :: "'w xenv \<Rightarrow> txn \<Rightarrow> 'w xs \<Rightarrow> c_stop + int \<times> 'w xs" where
  \<comment> \<open>\<open>iter\<close> below 2^31, as \<open>i\<close> is an \<open>int\<close>\<close>
  "txn_iterations env t st = txn_iter_loop env t (unat (t_iter t)) UPERF_SUCCESS st"

definition txn_execute :: "'w xenv \<Rightarrow> txn \<Rightarrow> 'w xs \<Rightarrow> (c_stop + int \<times> 'w xs) option" where
  "txn_execute env t st =
     (if t_duration t > 0 then txn_duration env t st else Some (txn_iterations env t st))"

section \<open>The group\<close>

fun group_txns :: "'w xenv \<Rightarrow> txn list \<Rightarrow> int \<Rightarrow> 'w xs \<Rightarrow> (c_stop + int \<times> 'w xs) option" where
  "group_txns env [] err st = Some (Inr (err, st))"
| "group_txns env (t # ts) err st =
     (let st1 = e_wait env (unat (t_txnid t)) (set_strand ((x_strand st)\<lparr>s_state := STRAND_STATE_AT_BARRIER\<rparr>) st) in
      if sh_global_error (x_shm st1) > 1 then Some (Inr (err, st1))
      else
        (case txn_execute env t (set_strand ((x_strand st1)\<lparr>s_state := STRAND_STATE_EXECUTING\<rparr>) st1) of
           None \<Rightarrow> None
         | Some (Inl stop) \<Rightarrow> Some (Inl stop)
         | Some (Inr (r, st2)) \<Rightarrow>
             let st3 = set_strand ((x_strand st2)\<lparr>s_signalled := False\<rparr>) st2 in
             if r = UPERF_FAILURE then Some (Inr (r, st3)) else group_txns env ts r st3))"

definition group_execute :: "'w xenv \<Rightarrow> group \<Rightarrow> 'w xs \<Rightarrow> (c_stop + int \<times> 'w xs) option" where
  "group_execute env g st =
     (let timed = enabled GROUP_STATS (e_copt env) in
      case (if timed then record_stat env GROUP_BEGIN (g_stats g) 0 0 st else Inr st) of
        Inl stop \<Rightarrow> Some (Inl stop)
      | Inr st1 \<Rightarrow>
          (case group_txns env (g_tlist g) 0 st1 of
             None \<Rightarrow> None
           | Some (Inl stop) \<Rightarrow> Some (Inl stop)
           | Some (Inr (err, st2)) \<Rightarrow>
               let st3 = set_strand ((x_strand st2)\<lparr>s_state := STRAND_STATE_EXIT\<rparr>) st2 in
               Some (cbind (if timed then record_stat env GROUP_END (g_stats g) 0 1 st3 else Inr st3)
                       (\<lambda>st4. Inr (err, st4)))))"

section \<open>The strand\<close>

partial_function (option) close_all :: "build_config \<Rightarrow> nat option \<Rightarrow> pstore \<Rightarrow> (c_stop + pstore) option" where
  \<comment> \<open>\<open>while (p) { ptmp = p->next; destroy_protocol(p->type, p); p = ptmp; }\<close>\<close>
  "close_all cfg p h =
     (case p of
        None \<Rightarrow> Some (Inr h)
      | Some a \<Rightarrow>
          (case h a of
             None \<Rightarrow> Some (Inl Undefined)
           | Some n \<Rightarrow>
               (case destroy_protocol cfg (p_type n) of
                  Inl stop \<Rightarrow> Some (Inl stop)
                | Inr _ \<Rightarrow> close_all cfg (p_next n) (h(a := None)))))"

fun close_listen :: "build_config \<Rightarrow> protocol option list \<Rightarrow> c_stop + protocol option list" where
  "close_listen cfg [] = Inr []"
| "close_listen cfg (c # cs) =
     cbind (case c of None \<Rightarrow> Inr () | Some p \<Rightarrow> cbind (destroy_protocol cfg (p_type p)) (\<lambda>_. Inr ())) (\<lambda>_.
     cbind (close_listen cfg cs) (\<lambda>cs'. Inr (None # cs')))"

definition strand_fini :: "build_config \<Rightarrow> strand \<Rightarrow> (c_stop + strand) option" where
  "strand_fini cfg s =
     (case close_listen cfg (s_listen s) of
        Inl stop \<Rightarrow> Some (Inl stop)
      | Inr ls \<Rightarrow>
          (case close_all cfg (po_cpool (s_pool s)) (po_store (s_pool s)) of
             None \<Rightarrow> None
           | Some (Inl stop) \<Rightarrow> Some (Inl stop)
           | Some (Inr h) \<Rightarrow>
               Some (Inr (s\<lparr>s_listen := ls, s_pool := (s_pool s)\<lparr>po_store := h\<rparr>, s_slaves := [],
                            s_worklist := None\<rparr>))))"

definition strand_stat_begin :: "'w xenv \<Rightarrow> 'w xs \<Rightarrow> 'w xs" where
  "strand_stat_begin env st =
     (let (ns, t) = newstat_begin (e_copt env) (e_clk env) (Some (s_nstats (x_strand st)), x_tick st)
      in (set_strand ((x_strand st)\<lparr>s_nstats := the ns\<rparr>) st)\<lparr>x_tick := t\<rparr>)"

definition strand_stat_end :: "'w xenv \<Rightarrow> 'w xs \<Rightarrow> 'w xs" where
  "strand_stat_end env st =
     (let (ns, t) = newstat_end (e_copt env) (e_clk env) 0 1 (Some (s_nstats (x_strand st)), x_tick st)
      in (set_strand ((x_strand st)\<lparr>s_nstats := the ns\<rparr>) st)\<lparr>x_tick := t\<rparr>)"

definition strand_leave :: "build_config \<Rightarrow> 'w xenv \<Rightarrow> 'w xs \<Rightarrow> (c_stop + 'w xs) option" where
  "strand_leave cfg env st =
     (let s = x_strand st;
          s1 = (if enabled HISTORY_STATS (e_copt env) then s\<lparr>s_history := map_option flush_history (s_history s)\<rparr> else s)
      in (case strand_fini cfg s1 of
            None \<Rightarrow> None
          | Some (Inl stop) \<Rightarrow> Some (Inl stop)
          | Some (Inr s2) \<Rightarrow> Some (Inr (set_strand s2 st))))"

definition strand_finish :: "'w xenv \<Rightarrow> int \<Rightarrow> 'w xs \<Rightarrow> 'w xs" where
  \<comment> \<open>the strand's counters, the error flag and the count of finished strands\<close>
  "strand_finish env error st =
     (let st1 = strand_stat_end env st;
          shm1 = (if error \<noteq> UPERF_SUCCESS \<and> error \<noteq> EINTR then flag_error (x_shm st1) else x_shm st1)
      in st1\<lparr>x_shm := shm_update_strand_exit shm1\<rparr>)"

definition strand_exit :: "build_config \<Rightarrow> 'w xenv \<Rightarrow> int \<Rightarrow> 'w xs \<Rightarrow> (c_stop + 'w xs) option" where
  \<comment> \<open>after \<open>group_execute\<close>\<close>
  "strand_exit cfg env error st = strand_leave cfg env (strand_finish env error st)"

definition strand_run :: "build_config \<Rightarrow> 'w xenv \<Rightarrow> bool \<Rightarrow> int \<Rightarrow> 'w xs \<Rightarrow> (c_stop + 'w xs) option" where
  \<comment> \<open>\<open>signals\<close>: \<open>setup_strand_signal\<close> succeeds; \<open>pid\<close>: what \<open>getpid\<close> returns\<close>
  "strand_run cfg env signals pid st =
     (if sh_global_error (x_shm st) > 0 \<or> \<not> signals then Some (Inr st)
      else
        let s = (x_strand st)\<lparr>s_pid := pid\<rparr>;
            s1 = (if sh_role (x_shm st) = MASTER \<and> enabled HISTORY_STATS (e_copt env)
                  then s\<lparr>s_history := Some \<lparr>hi_buf = [], hi_file = []\<rparr>\<rparr> else s);
            st1 = strand_stat_begin env (set_strand s1 st)
        in case s_worklist (x_strand st1) of
             None \<Rightarrow> Some (Inl Undefined)
           | Some wl \<Rightarrow>
               (case group_execute env wl st1 of
                  None \<Rightarrow> None
                | Some (Inl stop) \<Rightarrow> Some (Inl stop)
                | Some (Inr (error, st2)) \<Rightarrow> strand_exit cfg env error st2))"

section \<open>What the operations leave alone\<close>

definition stats_only :: "'w xs \<Rightarrow> 'w xs \<Rightarrow> bool" where
  \<comment> \<open>the states differ in the counters and the history of the strand at most\<close>
  "stats_only st st' =
     (x_id st' = x_id st \<and> x_errno st' = x_errno st \<and> x_world st' = x_world st \<and>
      length (sh_strands (x_shm st')) = length (sh_strands (x_shm st)) \<and>
      length (sh_nstats (x_shm st')) = length (sh_nstats (x_shm st)) \<and>
      sh_global_error (x_shm st') = sh_global_error (x_shm st) \<and>
      s_signalled (x_strand st') = s_signalled (x_strand st) \<and>
      (s_history (x_strand st') = None) = (s_history (x_strand st) = None))"

definition ptr_ok :: "'w xenv \<Rightarrow> nat option \<Rightarrow> 'w xs \<Rightarrow> bool" where
  \<comment> \<open>the pointer names a counter, and the history is there if it is kept\<close>
  "ptr_ok env ptr st =
     (x_id st < length (sh_strands (x_shm st)) \<and>
      (case ptr of None \<Rightarrow> False | Some k \<Rightarrow> k < length (sh_nstats (x_shm st))) \<and>
      (enabled HISTORY_STATS (e_copt env) \<longrightarrow> s_history (x_strand st) \<noteq> None))"

lemma x_strand_set [simp]:
  "x_id st < length (sh_strands (x_shm st)) \<Longrightarrow> x_strand (set_strand s st) = s"
  by (simp add: x_strand_def set_strand_def shm_set_strand_def)

lemma x_world_set [simp]: "x_world (set_strand s st) = x_world st"
  by (simp add: set_strand_def)

lemma stats_update_total:
  assumes "sc_stat c \<noteq> None" and "enabled HISTORY_STATS copt \<Longrightarrow> sc_history c \<noteq> None"
  shows "\<exists>c'. stats_update copt clk ev sz n c = Inr c' \<and> sc_stat c' \<noteq> None \<and>
    (sc_history c' = None) = (sc_history c = None) \<and>
    sc_strand c' = (if ev = FLOWOP_END \<and> \<not> enabled NO_STATS copt then
        (sc_strand c)\<lparr>ns_size := ns_size (sc_strand c) + sz * n, ns_count := ns_count (sc_strand c) + n\<rparr>
      else sc_strand c)"
  using assms
  by (cases ev) (auto simp: stats_update_def sc_begin_def sc_end_def sc_record_def newstat_begin_def newstat_end_def
      Let_def split: prod.splits)

lemma record_stat_ok:
  assumes "ptr_ok env ptr st"
  shows "\<exists>st'. record_stat env ev ptr sz n st = Inr st' \<and> stats_only st st' \<and>
    s_nstats (x_strand st') = (if ev = FLOWOP_END \<and> \<not> enabled NO_STATS (e_copt env) then
        (s_nstats (x_strand st))\<lparr>ns_size := ns_size (s_nstats (x_strand st)) + sz * n,
                                ns_count := ns_count (s_nstats (x_strand st)) + n\<rparr>
      else s_nstats (x_strand st))"
proof -
  let ?s = "x_strand st" and ?nss = "sh_nstats (x_shm st)"
  obtain k where k: "ptr = Some k" "k < length ?nss" and i: "x_id st < length (sh_strands (x_shm st))"
    and h: "enabled HISTORY_STATS (e_copt env) \<Longrightarrow> s_history ?s \<noteq> None"
    using assms by (auto simp: ptr_ok_def split: option.splits)
  let ?c = "\<lparr>sc_strand = s_nstats ?s, sc_history = s_history ?s, sc_stat = Some (?nss ! k), sc_tick = x_tick st\<rparr>"
  obtain c where c: "stats_update (e_copt env) (e_clk env) ev sz n ?c = Inr c" "sc_stat c \<noteq> None"
      "(sc_history c = None) = (s_history ?s = None)"
      "sc_strand c = (if ev = FLOWOP_END \<and> \<not> enabled NO_STATS (e_copt env) then
        (s_nstats ?s)\<lparr>ns_size := ns_size (s_nstats ?s) + sz * n, ns_count := ns_count (s_nstats ?s) + n\<rparr>
      else s_nstats ?s)"
    using stats_update_total [of ?c "e_copt env" "e_clk env" ev sz n] h by auto
  with k i show ?thesis
    by (auto simp: record_stat_def Let_def stats_only_def x_strand_def set_strand_def shm_set_strand_def)
qed

lemma stats_only_ptr: "stats_only st st' \<Longrightarrow> ptr_ok env ptr st \<Longrightarrow> ptr_ok env ptr st'"
  by (auto simp: stats_only_def ptr_ok_def split: option.splits)

lemma stats_only_trans: "stats_only a b \<Longrightarrow> stats_only b c \<Longrightarrow> stats_only a c"
  by (simp add: stats_only_def)

lemma stats_only_refl: "stats_only a a"
  by (simp add: stats_only_def)

section \<open>A strand executes its profile\<close>

text \<open>
  In a quiet environment nobody signals the strand, every barrier lets it pass and every
  operation succeeds: the world is the list of the operations executed, and \<open>r f\<close> is what
  operation \<open>f\<close> returns.
\<close>

definition quiet :: "(flowop \<Rightarrow> int) \<Rightarrow> flowop list xenv \<Rightarrow> bool" where
  "quiet r env =
     ((\<forall>st. e_async env st = st) \<and> (\<forall>n st. e_wait env n st = st) \<and> (\<forall>f. 0 \<le> r f) \<and>
      (\<forall>f st. e_run env f st = Inr (r f, st\<lparr>x_world := x_world st @ [f]\<rparr>)))"

definition flowop_trace :: "flowop \<Rightarrow> flowop list" where
  "flowop_trace f = replicate (unat (fo_count (f_options f))) f"

definition once_trace :: "txn \<Rightarrow> flowop list" where
  "once_trace t = concat (map flowop_trace (t_flist t))"

definition txn_trace :: "txn \<Rightarrow> flowop list" where
  "txn_trace t = concat (replicate (unat (t_iter t)) (once_trace t))"

definition group_trace :: "group \<Rightarrow> flowop list" where
  "group_trace g = concat (map txn_trace (g_tlist g))"

definition executed :: "(flowop \<Rightarrow> int) \<Rightarrow> flowop list xenv \<Rightarrow> flowop list \<Rightarrow> flowop list xs \<Rightarrow> flowop list xs \<Rightarrow> bool" where
  \<comment> \<open>from one state to the other the strand executed \<open>fs\<close> and counted it\<close>
  "executed r env fs st st' =
     (x_world st' = x_world st @ fs \<and>
      stats_only (st\<lparr>x_world := x_world st'\<rparr>) st' \<and>
      (\<not> enabled NO_STATS (e_copt env) \<longrightarrow>
         ns_count (s_nstats (x_strand st')) = ns_count (s_nstats (x_strand st)) + of_nat (length fs) \<and>
         ns_size (s_nstats (x_strand st')) = ns_size (s_nstats (x_strand st)) + sum_list (map (\<lambda>f. to_u64 (r f)) fs)))"

lemma x_strand_world [simp]: "x_strand (st\<lparr>x_world := w\<rparr>) = x_strand st"
  by (simp add: x_strand_def)

lemma executed_stats:
  assumes "stats_only st st'" and "s_nstats (x_strand st') = s_nstats (x_strand st)"
  shows "executed r env [] st st'"
  using assms by (auto simp: executed_def stats_only_def)

lemma executed_trans:
  assumes "executed r env fs a b" and "executed r env gs b c"
  shows "executed r env (fs @ gs) a c"
  using assms by (auto simp: executed_def stats_only_def add.assoc)

lemma executed_ptr: "executed r env fs st st' \<Longrightarrow> ptr_ok env ptr st \<Longrightarrow> ptr_ok env ptr st'"
  by (auto simp: executed_def stats_only_def ptr_ok_def split: option.splits)

lemma executed_same:
  "executed r env fs st st' \<Longrightarrow> s_signalled (x_strand st') = s_signalled (x_strand st) \<and>
     x_errno st' = x_errno st \<and> sh_global_error (x_shm st') = sh_global_error (x_shm st) \<and>
     x_id st' = x_id st \<and> length (sh_strands (x_shm st')) = length (sh_strands (x_shm st))"
  by (auto simp: executed_def stats_only_def)

lemma quiet_flowop_loop:
  assumes "quiet r env" and "\<not> s_signalled (x_strand st)"
  shows "flowop_loop env f n ret i st =
    Inr (False, if n = 0 then ret else r f, i + n, st\<lparr>x_world := x_world st @ replicate n f\<rparr>)"
  using assms(2)
proof (induction n arbitrary: ret i st)
  case (Suc n)
  with assms(1) Suc.IH [of "st\<lparr>x_world := x_world st @ [f]\<rparr>" "r f" "i + 1"] show ?case
    by (auto simp: quiet_def Let_def not_less replicate_append_same not_le)
qed simp

lemma sum_list_replicate_word: "sum_list (replicate n (x :: u64)) = of_nat n * x"
  by (induction n) (simp_all add: distrib_right)

lemma quiet_flowop_execute:
  assumes "quiet r env" and "\<not> s_signalled (x_strand st)" and "x_errno st \<noteq> EINTR" and "ptr_ok env (f_stats f) st"
  shows "\<exists>st'. flowop_execute env f st = Inr (UPERF_SUCCESS, st') \<and> executed r env (flowop_trace f) st st'"
proof -
  let ?n = "unat (fo_count (f_options f))"
  obtain s0 where s0: "record_stat env FLOWOP_BEGIN (f_stats f) 0 0 st = Inr s0" "stats_only st s0"
      "s_nstats (x_strand s0) = s_nstats (x_strand st)"
    using record_stat_ok [OF assms(4), of FLOWOP_BEGIN 0 0] by auto
  let ?s1 = "s0\<lparr>x_world := x_world s0 @ replicate ?n f\<rparr>"
  let ?ret = "if ?n = 0 then 0 else r f"
  have sig: "\<not> s_signalled (x_strand s0)" using s0(2) assms(2) by (simp add: stats_only_def)
  have loop: "flowop_loop env f ?n 0 0 s0 = Inr (False, ?ret, ?n, ?s1)"
    using quiet_flowop_loop [OF assms(1) sig, of f ?n 0 0] by simp
  have p1: "ptr_ok env (f_stats f) ?s1"
    using stats_only_ptr [OF s0(2) assms(4)] by (simp add: ptr_ok_def split: option.splits)
  obtain s2 where s2: "record_stat env FLOWOP_END (f_stats f) (to_u64 ?ret) (of_nat ?n) ?s1 = Inr s2" "stats_only ?s1 s2"
      "s_nstats (x_strand s2) = (if \<not> enabled NO_STATS (e_copt env) then
        (s_nstats (x_strand s0))\<lparr>ns_size := ns_size (s_nstats (x_strand s0)) + to_u64 ?ret * of_nat ?n,
                                ns_count := ns_count (s_nstats (x_strand s0)) + of_nat ?n\<rparr>
      else s_nstats (x_strand s0))"
    using record_stat_ok [OF p1, of FLOWOP_END "to_u64 ?ret" "of_nat ?n"] by auto
  have e: "x_errno ?s1 \<noteq> EINTR" "\<not> s_signalled (x_strand s2)" "0 \<le> ?ret"
    using s0(2) s2(2) assms(1,2,3) by (auto simp: stats_only_def quiet_def)
  have "flowop_execute env f st = Inr (UPERF_SUCCESS, s2)"
    using s0(1) loop s2(1) e assms(1) by (simp add: flowop_execute_def quiet_def Let_def)
  moreover have size: "to_u64 (if m = 0 then 0 else r f) * (of_nat m :: u64) = of_nat m * to_u64 (r f)" for m :: nat
    by (cases "m = 0") (simp_all add: mult.commute)
  have "executed r env (flowop_trace f) st s2"
    using s0(2,3) s2(2,3) size [of ?n]
    by (auto simp: executed_def stats_only_def flowop_trace_def sum_list_replicate_word mult.commute)
  ultimately show ?thesis by blast
qed

definition calm :: "'w xs \<Rightarrow> bool" where
  "calm st = (\<not> s_signalled (x_strand st) \<and> x_errno st \<noteq> EINTR \<and> \<not> 1 < sh_global_error (x_shm st) \<and>
     x_id st < length (sh_strands (x_shm st)))"

lemma executed_calm: "executed r env fs st st' \<Longrightarrow> calm st \<Longrightarrow> calm st'"
  using executed_same [of r env fs st st'] by (auto simp: calm_def)

lemma quiet_txn_flowops:
  assumes "quiet r env" and "calm st" and "\<forall>f \<in> set fs. ptr_ok env (f_stats f) st"
  shows "\<exists>st'. txn_flowops env fs UPERF_SUCCESS st = Inr (UPERF_SUCCESS, st') \<and>
    executed r env (concat (map flowop_trace fs)) st st'"
  using assms(2,3)
proof (induction fs arbitrary: st)
  case Nil
  then show ?case by (simp add: executed_stats stats_only_refl)
next
  case (Cons f fs)
  obtain s1 where s1: "flowop_execute env f st = Inr (UPERF_SUCCESS, s1)" "executed r env (flowop_trace f) st s1"
    using quiet_flowop_execute [OF assms(1), of st f] Cons.prems by (auto simp: calm_def)
  have "calm s1" by (rule executed_calm [OF s1(2) Cons.prems(1)])
  moreover have "\<forall>f \<in> set fs. ptr_ok env (f_stats f) s1"
    using executed_ptr [OF s1(2)] Cons.prems(2) by simp
  ultimately obtain s2 where "txn_flowops env fs UPERF_SUCCESS s1 = Inr (UPERF_SUCCESS, s2)"
      "executed r env (concat (map flowop_trace fs)) s1 s2"
    using Cons.IH by blast
  with s1 executed_trans [OF s1(2)] show ?case by auto
qed

lemma quiet_stat:
  assumes "ptr_ok env ptr st" and "ev \<noteq> FLOWOP_END"
  shows "\<exists>st'. (if b then record_stat env ev ptr sz n st else Inr st) = Inr st' \<and> executed r env [] st st'"
proof (cases b)
  case True
  obtain s1 where "record_stat env ev ptr sz n st = Inr s1" "stats_only st s1"
      "s_nstats (x_strand s1) = s_nstats (x_strand st)"
    using record_stat_ok [OF assms(1), of ev sz n] assms(2) by auto
  with True executed_stats show ?thesis by auto
qed (simp add: executed_stats stats_only_refl)

lemma quiet_txn_execute_once:
  assumes "quiet r env" and "calm st" and "\<forall>f \<in> set (t_flist t). ptr_ok env (f_stats f) st" and "ptr_ok env (t_stats t) st"
  shows "\<exists>st'. txn_execute_once env t st = Inr (UPERF_SUCCESS, st') \<and> executed r env (once_trace t) st st'"
proof -
  let ?b = "enabled TXN_STATS (e_copt env)"
  obtain s1 where s1: "(if ?b then record_stat env TXN_BEGIN (t_stats t) 0 0 st else Inr st) = Inr s1"
      "executed r env [] st s1"
    using quiet_stat [OF assms(4), of TXN_BEGIN ?b 0 0 r] by auto
  obtain s2 where s2: "txn_flowops env (t_flist t) UPERF_SUCCESS s1 = Inr (UPERF_SUCCESS, s2)"
      "executed r env (once_trace t) s1 s2"
    using quiet_txn_flowops [OF assms(1) executed_calm [OF s1(2) assms(2)], of "t_flist t"]
      executed_ptr [OF s1(2)] assms(3) unfolding once_trace_def by blast
  have p: "ptr_ok env (t_stats t) s2"
    using executed_ptr [OF s2(2) executed_ptr [OF s1(2) assms(4)]] .
  obtain s3 where s3: "(if ?b then record_stat env TXN_END (t_stats t) 0 1 s2 else Inr s2) = Inr s3"
      "executed r env [] s2 s3"
    using quiet_stat [OF p, of TXN_END ?b 0 1 r] by auto
  have "executed r env (once_trace t) st s3"
    using executed_trans [OF executed_trans [OF s1(2) s2(2)] s3(2)] by simp
  with s1(1) s2(1) s3(1) show ?thesis
    unfolding txn_execute_once_def Let_def by (simp only: cbind_simps split) blast
qed

lemma quiet_txn_iter_loop:
  assumes "quiet r env" and "calm st" and "\<forall>f \<in> set (t_flist t). ptr_ok env (f_stats f) st" and "ptr_ok env (t_stats t) st"
  shows "\<exists>st'. txn_iter_loop env t n UPERF_SUCCESS st = Inr (UPERF_SUCCESS, st') \<and>
    executed r env (concat (replicate n (once_trace t))) st st'"
  using assms(2-4)
proof (induction n arbitrary: st)
  case 0
  then show ?case by (simp add: executed_stats stats_only_refl)
next
  case (Suc n)
  obtain s1 where s1: "txn_execute_once env t st = Inr (UPERF_SUCCESS, s1)" "executed r env (once_trace t) st s1"
    using quiet_txn_execute_once [OF assms(1) Suc.prems] by blast
  obtain s2 where "txn_iter_loop env t n UPERF_SUCCESS s1 = Inr (UPERF_SUCCESS, s2)"
      "executed r env (concat (replicate n (once_trace t))) s1 s2"
    using Suc.IH [OF executed_calm [OF s1(2) Suc.prems(1)]] executed_ptr [OF s1(2)] Suc.prems(2,3) by blast
  with s1 executed_trans [OF s1(2)] show ?case by auto
qed

definition group_ptrs :: "'w xenv \<Rightarrow> txn list \<Rightarrow> 'w xs \<Rightarrow> bool" where
  "group_ptrs env ts st =
     (\<forall>t \<in> set ts. ptr_ok env (t_stats t) st \<and> (\<forall>f \<in> set (t_flist t). ptr_ok env (f_stats f) st))"

lemma executed_set_strand:
  assumes "x_id st < length (sh_strands (x_shm st))" and "s_nstats s = s_nstats (x_strand st)"
    and "s_signalled s = s_signalled (x_strand st)" and "s_history s = s_history (x_strand st)"
  shows "executed r env [] st (set_strand s st)"
  using assms by (intro executed_stats) (auto simp: stats_only_def set_strand_def shm_set_strand_def x_strand_def)

lemma quiet_group_txns:
  assumes "quiet r env" and "calm st" and "group_ptrs env ts st" and "\<forall>t \<in> set ts. t_duration t = 0"
  shows "\<exists>st'. group_txns env ts 0 st = Some (Inr (0, st')) \<and> executed r env (concat (map txn_trace ts)) st st'"
  using assms(2-4)
proof (induction ts arbitrary: st)
  case Nil
  then show ?case by (simp add: executed_stats stats_only_refl)
next
  case (Cons t ts)
  have id: "x_id st < length (sh_strands (x_shm st))" using Cons.prems(1) by (simp add: calm_def)
  let ?s1 = "set_strand ((x_strand st)\<lparr>s_state := STRAND_STATE_AT_BARRIER\<rparr>) st"
  have e1: "executed r env [] st ?s1" by (rule executed_set_strand) (use id in simp_all)
  have c1: "calm ?s1" by (rule executed_calm [OF e1 Cons.prems(1)])
  then have id1: "x_id ?s1 < length (sh_strands (x_shm ?s1))" by (simp add: calm_def)
  let ?s2 = "set_strand ((x_strand ?s1)\<lparr>s_state := STRAND_STATE_EXECUTING\<rparr>) ?s1"
  have e2: "executed r env [] ?s1 ?s2" by (rule executed_set_strand) (use id1 in simp_all)
  have c2: "calm ?s2" by (rule executed_calm [OF e2 c1])
  have p2: "group_ptrs env (t # ts) ?s2"
    using Cons.prems(2) executed_ptr [OF e2] executed_ptr [OF e1] by (auto simp: group_ptrs_def)
  obtain s3 where s3: "txn_iterations env t ?s2 = Inr (UPERF_SUCCESS, s3)" "executed r env (txn_trace t) ?s2 s3"
    using quiet_txn_iter_loop [OF assms(1) c2, of t "unat (t_iter t)"] p2
    by (auto simp: group_ptrs_def txn_iterations_def txn_trace_def)
  have c3: "calm s3" by (rule executed_calm [OF s3(2) c2])
  let ?s4 = "set_strand ((x_strand s3)\<lparr>s_signalled := False\<rparr>) s3"
  have e4: "executed r env [] s3 ?s4"
    by (rule executed_set_strand) (use c3 in \<open>simp_all add: calm_def\<close>)
  have c4: "calm ?s4" by (rule executed_calm [OF e4 c3])
  have p4: "group_ptrs env ts ?s4"
    using p2 executed_ptr [OF e4] executed_ptr [OF s3(2)] by (auto simp: group_ptrs_def)
  obtain s5 where s5: "group_txns env ts 0 ?s4 = Some (Inr (0, s5))" "executed r env (concat (map txn_trace ts)) ?s4 s5"
    using Cons.IH [OF c4 p4] Cons.prems(3) by auto
  have w: "e_wait env n s = s" for n s using assms(1) by (simp add: quiet_def)
  have g: "\<not> 1 < sh_global_error (x_shm ?s1)" using c1 by (simp add: calm_def)
  have "txn_execute env t ?s2 = Some (Inr (0, s3))"
    using s3(1) Cons.prems(3) by (simp add: txn_execute_def)
  then have "group_txns env (t # ts) 0 st = Some (Inr (0, s5))"
    using s5(1) g by (simp add: w Let_def)
  moreover have "executed r env (concat (map txn_trace (t # ts))) st s5"
    using executed_trans [OF executed_trans [OF executed_trans [OF executed_trans [OF e1 e2] s3(2)] e4] s5(2)] by simp
  ultimately show ?case by blast
qed

lemma quiet_group_execute:
  assumes "quiet r env" and "calm st" and "group_ptrs env (g_tlist g) st" and "ptr_ok env (g_stats g) st"
    and "\<forall>t \<in> set (g_tlist g). t_duration t = 0"
  shows "\<exists>st'. group_execute env g st = Some (Inr (0, st')) \<and> executed r env (group_trace g) st st'"
proof -
  let ?b = "enabled GROUP_STATS (e_copt env)"
  obtain s1 where s1: "(if ?b then record_stat env GROUP_BEGIN (g_stats g) 0 0 st else Inr st) = Inr s1"
      "executed r env [] st s1"
    using quiet_stat [OF assms(4), of GROUP_BEGIN ?b 0 0 r] by auto
  have c1: "calm s1" by (rule executed_calm [OF s1(2) assms(2)])
  have p1: "group_ptrs env (g_tlist g) s1"
    using assms(3) executed_ptr [OF s1(2)] by (auto simp: group_ptrs_def)
  obtain s2 where s2: "group_txns env (g_tlist g) 0 s1 = Some (Inr (0, s2))" "executed r env (group_trace g) s1 s2"
    using quiet_group_txns [OF assms(1) c1 p1 assms(5)] by (auto simp: group_trace_def)
  have c2: "calm s2" by (rule executed_calm [OF s2(2) c1])
  let ?s3 = "set_strand ((x_strand s2)\<lparr>s_state := STRAND_STATE_EXIT\<rparr>) s2"
  have e3: "executed r env [] s2 ?s3"
    by (rule executed_set_strand) (use c2 in \<open>simp_all add: calm_def\<close>)
  have p3: "ptr_ok env (g_stats g) ?s3"
    by (rule executed_ptr [OF e3 executed_ptr [OF s2(2) executed_ptr [OF s1(2) assms(4)]]])
  obtain s4 where s4: "(if ?b then record_stat env GROUP_END (g_stats g) 0 1 ?s3 else Inr ?s3) = Inr s4"
      "executed r env [] ?s3 s4"
    using quiet_stat [OF p3, of GROUP_END ?b 0 1 r] by auto
  have "executed r env (group_trace g) st s4"
    using executed_trans [OF executed_trans [OF executed_trans [OF s1(2) s2(2)] e3] s4(2)] by simp
  moreover have "group_execute env g st = Some (Inr (0, s4))"
    unfolding group_execute_def Let_def s1(1) sum.case s2(1) option.case prod.case s4(1) by simp
  ultimately show ?thesis by blast
qed


definition quiet_env :: "flowop list xenv" where
  "quiet_env = \<lparr>e_copt = 0, e_clk = of_nat, e_async = \<lambda>st. st,
     e_run = \<lambda>f st. Inr (64, st\<lparr>x_world := x_world st @ [f]\<rparr>), e_sleep = \<lambda>n st. (0, st), e_wait = \<lambda>n st. st\<rparr>"

definition one_strand :: "'w \<Rightarrow> 'w xs" where
  "one_strand w = \<lparr>x_shm = (shm_init two_groups)\<lparr>sh_strands := [zero_strand], sh_nstats := [zero_stats]\<rparr>,
     x_id = 0, x_tick = 0, x_errno = 0, x_world = w\<rparr>"

definition echo_flowop :: flowop where
  "echo_flowop = zero_flowop\<lparr>f_stats := Some 0, f_options := zero_options\<lparr>fo_count := 2\<rparr>\<rparr>"

definition echo_txn :: txn where
  "echo_txn = zero_txn\<lparr>t_iter := 3, t_stats := Some 0, t_flist := [echo_flowop]\<rparr>"

lemma one_strand_ok: "calm (one_strand w)" "ptr_ok env (Some 0) (one_strand w) = (\<not> enabled HISTORY_STATS (e_copt env))"
  by (auto simp: calm_def one_strand_def x_strand_def zero_strand_def EINTR_def shm_init_def ptr_ok_def)


section \<open>Failures\<close>

lemma canfail_loop:
  assumes "fo_is O_CANFAIL (f_options f)" and "0 \<le> ret" and "flowop_loop env f n ret i st = Inr (b, r, j, st')"
  shows "0 \<le> r"
  using assms(2,3)
proof (induction n arbitrary: ret i st)
  case (Suc n)
  show ?case
  proof (cases "s_signalled (x_strand (e_async env st))")
    case True
    with Suc.prems show ?thesis by (simp add: Let_def)
  next
    case False
    with Suc.prems obtain x s2 where x: "e_run env f (e_async env st) = Inr (x, s2)"
      by (cases "e_run env f (e_async env st)") (auto simp: Let_def)
    with Suc.prems False assms(1) Suc.IH [of 0 "i + 1" s2] Suc.IH [of x "i + 1" s2] show ?thesis
      by (auto simp: Let_def split: if_splits)
  qed
qed simp

text \<open>
  An operation that may fail never fails its strand: with the option
  \<open>O_CANFAIL\<close>, \<open>flowop_execute\<close> returns success or expiry, whatever the environment does.
\<close>

lemma canfail_never_fails:
  assumes "fo_is O_CANFAIL (f_options f)" and "flowop_execute env f st = Inr (r, st')"
  shows "r = UPERF_SUCCESS \<or> r = UPERF_DURATION_EXPIRED"
proof -
  let ?n = "unat (fo_count (f_options f))"
  obtain s0 where s0: "record_stat env FLOWOP_BEGIN (f_stats f) 0 0 st = Inr s0"
    using assms(2) by (cases "record_stat env FLOWOP_BEGIN (f_stats f) 0 0 st") (auto simp: flowop_execute_def)
  obtain b x i s1 where s1: "flowop_loop env f ?n 0 0 s0 = Inr (b, x, i, s1)"
    using assms(2) s0 by (cases "flowop_loop env f ?n 0 0 s0") (auto simp: flowop_execute_def)
  have x: "0 \<le> x" by (rule canfail_loop [OF assms(1) _ s1]) simp
  show ?thesis
  proof (cases b)
    case True
    with assms(2) s0 s1 show ?thesis by (simp add: flowop_execute_def)
  next
    case False
    with assms(2) s0 s1 obtain s2 where "record_stat env FLOWOP_END (f_stats f) (to_u64 x) (of_nat i) s1 = Inr s2"
      by (cases "record_stat env FLOWOP_END (f_stats f) (to_u64 x) (of_nat i) s1") (auto simp: flowop_execute_def Let_def)
    with assms(2) s0 s1 x False show ?thesis by (auto simp: flowop_execute_def Let_def split: if_splits)
  qed
qed

lemma canfail_never_fails_witness:
  "\<exists>r st'. flowop_execute (quiet_env\<lparr>e_run := \<lambda>f st. Inr (- 1, st)\<rparr>)
      (echo_flowop\<lparr>f_options := (f_options echo_flowop)\<lparr>fo_flag := O_CANFAIL\<rparr>\<rparr>) (one_strand []) = Inr (r, st') \<and>
     (r = UPERF_SUCCESS \<or> r = UPERF_DURATION_EXPIRED)"
proof -
  let ?f = "echo_flowop\<lparr>f_options := (f_options echo_flowop)\<lparr>fo_flag := O_CANFAIL\<rparr>\<rparr>"
  let ?e = "quiet_env\<lparr>e_run := \<lambda>f st. Inr (- 1, st)\<rparr>"
  have c: "fo_is O_CANFAIL (f_options ?f)" by (simp add: fo_is_def O_CANFAIL_def)
  have p: "ptr_ok ?e (f_stats ?f) (one_strand [])"
    by (simp add: one_strand_ok quiet_env_def enabled_def echo_flowop_def)
  obtain s0 where s0: "record_stat ?e FLOWOP_BEGIN (f_stats ?f) 0 0 (one_strand []) = Inr s0" "stats_only (one_strand []) s0"
    using record_stat_ok [OF p, of FLOWOP_BEGIN 0 0] by auto
  have "unat (fo_count (f_options ?f)) = 2" by (simp add: echo_flowop_def)
  then have n: "unat (fo_count (f_options ?f)) = Suc (Suc 0)" by (rule trans) (rule numeral_2_eq_2)
  have "\<not> s_signalled (x_strand s0)" using s0(2) one_strand_ok(1) [of "[] :: flowop list"] by (simp add: stats_only_def calm_def)
  then have l: "flowop_loop ?e ?f (unat (fo_count (f_options ?f))) 0 0 s0 = Inr (False, 0, 2, s0)"
    unfolding n using c by (simp add: quiet_env_def)
  obtain s1 where "record_stat ?e FLOWOP_END (f_stats ?f) (to_u64 0) (of_nat 2) s0 = Inr s1"
    using record_stat_ok [OF stats_only_ptr [OF s0(2) p], of FLOWOP_END "to_u64 0" "of_nat 2"] by auto
  with s0(1) l have "\<exists>r st'. flowop_execute ?e ?f (one_strand []) = Inr (r, st')"
    by (simp add: flowop_execute_def Let_def)
  then obtain r st' where "flowop_execute ?e ?f (one_strand []) = Inr (r, st')" by blast
  with canfail_never_fails [OF c this] show ?thesis by blast
qed

section \<open>Duration\<close>

lemma call_until_never:
  assumes "\<And>st. I st \<Longrightarrow> \<exists>st'. cb st = Some (Inr (0, st')) \<and> I st'" and "I st"
  shows "call_until cb st = None"
proof (rule ccontr)
  let ?P = "\<lambda>cb st (y :: c_stop + int \<times> 'a xs). \<not> ((\<forall>st. I st \<longrightarrow> (\<exists>st'. cb st = Some (Inr (0, st')) \<and> I st')) \<and> I st)"
  assume "call_until cb st \<noteq> None"
  then obtain y where y: "call_until cb st = Some y" by blast
  have "?P cb st y"
  proof (rule call_until.raw_induct [of ?P, OF _ y])
    fix f :: "('a xs \<Rightarrow> (c_stop + int \<times> 'a xs) option) \<Rightarrow> 'a xs \<Rightarrow> (c_stop + int \<times> 'a xs) option"
    fix cb st y
    assume ih: "\<And>cb st y. f cb st = Some y \<Longrightarrow> ?P cb st y"
      and step: "(case cb st of None \<Rightarrow> None | Some (Inl stop) \<Rightarrow> Some (Inl stop)
        | Some (Inr (r, st1)) \<Rightarrow> if r = 0 then f cb st1 else Some (Inr (r, st1))) = Some y"
    show "?P cb st y"
    proof
      assume a: "(\<forall>st. I st \<longrightarrow> (\<exists>st'. cb st = Some (Inr (0, st')) \<and> I st')) \<and> I st"
      then obtain st' where st': "cb st = Some (Inr (0, st'))" "I st'" by blast
      with step have "f cb st' = Some y" by simp
      from ih [OF this] a st'(2) show False by blast
    qed
  qed
  with assms show False by blast
qed

lemma call_until_ends:
  assumes "\<And>st. \<exists>x. cb st = Some x"
    and "\<And>st st'. cb st = Some (Inr (0, st')) \<Longrightarrow> m st' < (m st :: nat)"
  shows "call_until cb st \<noteq> None"
proof (induction "m st" arbitrary: st rule: less_induct)
  case less
  obtain x where x: "cb st = Some x" using assms(1) by blast
  show ?case
  proof (cases x)
    case (Inl stop)
    with x show ?thesis by (simp add: call_until.simps [of cb st])
  next
    case (Inr a)
    obtain r st' where a: "a = (r, st')" by (cases a)
    show ?thesis
    proof (cases "r = 0")
      case True
      with x Inr a assms(2) [of st st'] less [of st'] show ?thesis
        by (subst call_until.simps) simp
    next
      case False
      with x Inr a show ?thesis by (subst call_until.simps) simp
    qed
  qed
qed

lemma empty_txn_goes_on:
  assumes "t_flist t = []" and "ptr_ok env (t_stats t) st"
  shows "\<exists>st'. txn_execute_once env t st = Inr (0, st') \<and> ptr_ok env (t_stats t) st'"
proof (cases "enabled TXN_STATS (e_copt env)")
  case True
  obtain s1 where s1: "record_stat env TXN_BEGIN (t_stats t) 0 0 st = Inr s1" "stats_only st s1"
    using record_stat_ok [OF assms(2), of TXN_BEGIN 0 0] by auto
  have p1: "ptr_ok env (t_stats t) s1" by (rule stats_only_ptr [OF s1(2) assms(2)])
  obtain s2 where s2: "record_stat env TXN_END (t_stats t) 0 1 s1 = Inr s2" "stats_only s1 s2"
    using record_stat_ok [OF p1, of TXN_END 0 1] by auto
  with s1 assms True stats_only_ptr [OF s2(2) p1] show ?thesis
    by (auto simp: txn_execute_once_def)
qed (use assms in \<open>simp add: txn_execute_once_def\<close>)

text \<open>
  A transaction with a duration and no flowops never ends: its strand loops for ever, and
  no signal stops it, since the flag is looked at only around flowops.
\<close>

lemma empty_txn_never_ends:
  assumes "t_flist t = []" and "t_rate_count t = 0" and "t_duration t \<noteq> 0" and "ptr_ok env (t_stats t) st"
    and "s_flag (x_strand st) AND STRAND_LEADER = 0"
  shows "txn_execute env t st = None"
proof -
  have "call_until (\<lambda>s. Some (txn_execute_once env t s)) st = None"
    using empty_txn_goes_on [OF assms(1), of env]
    by (intro call_until_never [where I = "ptr_ok env (t_stats t)"]) (auto simp: assms(4))
  with assms show ?thesis
    by (simp add: txn_execute_def txn_duration_def duration_execute_def word_gt_0)
qed

lemma empty_txn_never_ends_witness:
  "txn_execute quiet_env (zero_txn\<lparr>t_duration := 1000000000, t_stats := Some 0\<rparr>) (one_strand []) = None"
proof -
  have "ptr_ok quiet_env (Some 0) (one_strand [])"
    by (simp add: one_strand_ok quiet_env_def enabled_def)
  moreover have "s_flag (x_strand (one_strand ([] :: flowop list))) = 0"
    by (simp add: one_strand_def x_strand_def zero_strand_def)
  ultimately show ?thesis by (intro empty_txn_never_ends) (simp_all add: zero_txn_def)
qed

text \<open>
  The environment interrupts: each time the flag is looked at, either it is set or \<open>fuse\<close>, a
  measure of the world that the operations do not raise, goes down.
\<close>

definition interrupts :: "('w \<Rightarrow> nat) \<Rightarrow> 'w xenv \<Rightarrow> bool" where
  "interrupts fuse env =
     ((\<forall>st. s_signalled (x_strand (e_async env st)) \<or> fuse (x_world (e_async env st)) < fuse (x_world st)) \<and>
      (\<forall>st. fuse (x_world (e_async env st)) \<le> fuse (x_world st)) \<and>
      (\<forall>f st r st'. e_run env f st = Inr (r, st') \<longrightarrow> fuse (x_world st') \<le> fuse (x_world st)))"

lemma record_stat_world: "record_stat env ev p sz n st = Inr st' \<Longrightarrow> x_world st' = x_world st"
  by (auto simp: record_stat_def set_strand_def Let_def cbind_Inr split: if_splits)

lemma interrupts_loop:
  assumes "interrupts fuse env" and "flowop_loop env f n ret i st = Inr (b, r, j, st')"
  shows "fuse (x_world st') \<le> fuse (x_world st)"
  using assms(2)
proof (induction n arbitrary: ret i st)
  case (Suc n)
  have a: "fuse (x_world (e_async env st)) \<le> fuse (x_world st)"
    using assms(1) by (simp add: interrupts_def)
  show ?case
  proof (cases "s_signalled (x_strand (e_async env st))")
    case True
    with Suc.prems a show ?thesis by (simp add: Let_def)
  next
    case False
    with Suc.prems obtain x s2 where x: "e_run env f (e_async env st) = Inr (x, s2)"
      by (cases "e_run env f (e_async env st)") (auto simp: Let_def)
    then have "fuse (x_world s2) \<le> fuse (x_world (e_async env st))"
      using assms(1) unfolding interrupts_def by blast
    with Suc.prems False a x Suc.IH [of 0 "i + 1" s2] Suc.IH [of x "i + 1" s2] show ?thesis
      by (auto simp: Let_def split: if_splits)
  qed
qed simp

lemma interrupts_flowop:
  assumes "interrupts fuse env" and "flowop_execute env f st = Inr (r, st')"
  shows "fuse (x_world st') \<le> fuse (x_world st) \<and> (r = 0 \<longrightarrow> fuse (x_world st') < fuse (x_world st))"
proof -
  let ?n = "unat (fo_count (f_options f))"
  obtain s0 where s0: "record_stat env FLOWOP_BEGIN (f_stats f) 0 0 st = Inr s0"
    using assms(2) by (cases "record_stat env FLOWOP_BEGIN (f_stats f) 0 0 st") (auto simp: flowop_execute_def)
  obtain b x i s1 where s1: "flowop_loop env f ?n 0 0 s0 = Inr (b, x, i, s1)"
    using assms(2) s0 by (cases "flowop_loop env f ?n 0 0 s0") (auto simp: flowop_execute_def)
  have w1: "fuse (x_world s1) \<le> fuse (x_world st)"
    using interrupts_loop [OF assms(1) s1] record_stat_world [OF s0] by simp
  show ?thesis
  proof (cases b)
    case True
    with assms(2) s0 s1 w1 show ?thesis by (simp add: flowop_execute_def)
  next
    case False
    with assms(2) s0 s1 obtain s2 where s2: "record_stat env FLOWOP_END (f_stats f) (to_u64 x) (of_nat i) s1 = Inr s2"
      by (cases "record_stat env FLOWOP_END (f_stats f) (to_u64 x) (of_nat i) s1") (auto simp: flowop_execute_def Let_def)
    have "s_signalled (x_strand (e_async env s2)) \<or> fuse (x_world (e_async env s2)) < fuse (x_world s2)"
        "fuse (x_world (e_async env s2)) \<le> fuse (x_world s2)"
      using assms(1) by (simp_all add: interrupts_def)
    with assms(2) s0 s1 s2 w1 False record_stat_world [OF s2] show ?thesis
      by (auto simp: flowop_execute_def Let_def split: if_splits)
  qed
qed

lemma interrupts_flowops:
  assumes "interrupts fuse env" and "txn_flowops env fs ret st = Inr (r, st')"
  shows "fuse (x_world st') \<le> fuse (x_world st) \<and>
    (r = 0 \<and> ret = 0 \<and> fs \<noteq> [] \<longrightarrow> fuse (x_world st') < fuse (x_world st)) \<and> (ret \<noteq> 0 \<longrightarrow> r \<noteq> 0)"
  using assms(2)
proof (induction fs arbitrary: ret st)
  case (Cons f fs)
  show ?case
  proof (cases "ret = 0")
    case True
    with Cons.prems obtain x s1 where x: "flowop_execute env f st = Inr (x, s1)"
      by (cases "flowop_execute env f st") auto
    with Cons.prems True have "txn_flowops env fs x s1 = Inr (r, st')" by simp
    from Cons.IH [OF this] interrupts_flowop [OF assms(1) x] True show ?thesis by auto
  qed (use Cons.prems in auto)
qed auto



section \<open>The life of a strand\<close>

lemma close_listen_none: "\<forall>c \<in> set ls. c = None \<Longrightarrow> close_listen cfg ls = Inr ls"
  by (induction ls) auto

lemma strand_stat_begin_props:
  assumes "x_id st < length (sh_strands (x_shm st))"
  shows "stats_only st (strand_stat_begin env st)"
    and "ns_count (s_nstats (x_strand (strand_stat_begin env st))) = ns_count (s_nstats (x_strand st))"
    and "\<exists>ns. x_strand (strand_stat_begin env st) = (x_strand st)\<lparr>s_nstats := ns\<rparr>"
    and "sh_finished (x_shm (strand_stat_begin env st)) = sh_finished (x_shm st)"
  using assms
  by (auto simp: strand_stat_begin_def stats_only_def x_strand_def set_strand_def shm_set_strand_def
      newstat_begin_def Let_def split: prod.splits)

lemma strand_stat_end_props:
  assumes "x_id st < length (sh_strands (x_shm st))"
  shows "stats_only st (strand_stat_end env st)"
    and "ns_count (s_nstats (x_strand (strand_stat_end env st))) = ns_count (s_nstats (x_strand st)) + 1"
    and "\<exists>ns. x_strand (strand_stat_end env st) = (x_strand st)\<lparr>s_nstats := ns\<rparr>"
  using assms
  by (auto simp: strand_stat_end_def stats_only_def x_strand_def set_strand_def shm_set_strand_def
      newstat_end_def Let_def)

lemma strand_stat_end_finished: "sh_finished (x_shm (strand_stat_end env st)) = sh_finished (x_shm st)"
  by (simp add: strand_stat_end_def set_strand_def shm_set_strand_def newstat_end_def Let_def)

lemma close_listen_all: "close_listen cfg ls = Inr ls' \<Longrightarrow> \<forall>c \<in> set ls'. c = None"
  by (induction ls arbitrary: ls') (auto simp: cbind_Inr)

lemma strand_fini_props:
  "strand_fini cfg s = Some (Inr s') \<Longrightarrow>
     (\<forall>c \<in> set (s_listen s'). c = None) \<and> s_worklist s' = None \<and> s_nstats s' = s_nstats s"
  by (auto simp: strand_fini_def dest: close_listen_all split: sum.splits option.splits)

lemma strand_leave_props:
  assumes "strand_leave cfg env st = Some (Inr st')" and "x_id st < length (sh_strands (x_shm st))"
  shows "sh_finished (x_shm st') = sh_finished (x_shm st) \<and> sh_global_error (x_shm st') = sh_global_error (x_shm st) \<and>
    (\<forall>c \<in> set (s_listen (x_strand st')). c = None) \<and> s_worklist (x_strand st') = None \<and>
    s_nstats (x_strand st') = s_nstats (x_strand st)"
proof -
  let ?s = "x_strand st"
  let ?s1 = "if enabled HISTORY_STATS (e_copt env) then ?s\<lparr>s_history := map_option flush_history (s_history ?s)\<rparr> else ?s"
  obtain s2 where s2: "strand_fini cfg ?s1 = Some (Inr s2)" "st' = set_strand s2 st"
    using assms(1) unfolding strand_leave_def Let_def by (auto split: option.splits sum.splits simp del: if_split)
  have "s_nstats ?s1 = s_nstats ?s" by simp
  with s2(2) strand_fini_props [OF s2(1)] assms(2) show ?thesis
    by (simp add: set_strand_def shm_set_strand_def x_strand_def del: if_split)
qed

lemma strand_finish_props:
  assumes "x_id st < length (sh_strands (x_shm st))"
  shows "sh_finished (x_shm (strand_finish env error st)) = sh_finished (x_shm st) + 1"
    and "sh_global_error (x_shm (strand_finish env error st)) = (if error = UPERF_SUCCESS \<or> error = UPERF_DURATION_EXPIRED
       then sh_global_error (x_shm st) else wrap32 (sh_global_error (x_shm st) + 1))"
    and "x_strand (strand_finish env error st) = x_strand (strand_stat_end env st)"
    and "x_id (strand_finish env error st) = x_id st"
    and "length (sh_strands (x_shm (strand_finish env error st))) = length (sh_strands (x_shm st))"
  using strand_stat_end_props(1) [OF assms, of env]
  by (simp_all add: strand_finish_def Let_def stats_only_def shm_update_strand_exit_def flag_error_def x_strand_def
      strand_stat_end_finished EINTR_def)

text \<open>
  A strand signs off exactly once: after its group has been executed, \<open>strand_run\<close> counts
  the strand as finished, flags an error unless the group succeeded or its time was up
  (\<open>UPERF_DURATION_EXPIRED\<close> is tested by way of \<open>EINTR\<close>), closes what it listened on, and
  counts itself as one more operation.
\<close>

lemma strand_signs_off:
  assumes "x_id st < length (sh_strands (x_shm st))" and "strand_exit cfg env error st = Some (Inr st')"
  shows "sh_finished (x_shm st') = sh_finished (x_shm st) + 1 \<and>
    sh_global_error (x_shm st') = (if error = UPERF_SUCCESS \<or> error = UPERF_DURATION_EXPIRED
       then sh_global_error (x_shm st) else wrap32 (sh_global_error (x_shm st) + 1)) \<and>
    (\<forall>c \<in> set (s_listen (x_strand st')). c = None) \<and> s_worklist (x_strand st') = None \<and>
    ns_count (s_nstats (x_strand st')) = ns_count (s_nstats (x_strand st)) + 1"
proof -
  have "x_id (strand_finish env error st) < length (sh_strands (x_shm (strand_finish env error st)))"
    using assms(1) strand_finish_props(4,5) [OF assms(1), of env error] by simp
  from strand_leave_props [OF assms(2) [unfolded strand_exit_def] this] strand_finish_props [OF assms(1), of env error]
    strand_stat_end_props(2) [OF assms(1), of env]
  show ?thesis by simp
qed

lemma strand_signs_off_witness:
  "\<exists>st'. strand_exit \<lparr>have_rds = False, have_sctp = False, have_ssl = False, have_vsock = False\<rparr> quiet_env
      UPERF_FAILURE (one_strand []) = Some (Inr st') \<and> sh_finished (x_shm st') = 1 \<and> sh_global_error (x_shm st') = 1"
proof -
  let ?cfg = "\<lparr>have_rds = False, have_sctp = False, have_ssl = False, have_vsock = False\<rparr>"
  let ?o = "one_strand ([] :: flowop list)"
  have id: "x_id ?o < length (sh_strands (x_shm ?o))" by (simp add: one_strand_def)
  have o: "x_strand ?o = zero_strand" by (simp add: one_strand_def x_strand_def)
  obtain ns where ns: "x_strand (strand_stat_end quiet_env ?o) = zero_strand\<lparr>s_nstats := ns\<rparr>"
    using strand_stat_end_props(3) [OF id] o by auto
  have fini: "strand_fini ?cfg (zero_strand\<lparr>s_nstats := ns\<rparr>) = Some (Inr (zero_strand\<lparr>s_nstats := ns\<rparr>))"
    by (simp add: strand_fini_def zero_strand_def close_listen_none empty_pool_def close_all.simps)
  have h: "\<not> enabled HISTORY_STATS (e_copt quiet_env)" by (simp add: quiet_env_def enabled_def)
  have "strand_exit ?cfg quiet_env UPERF_FAILURE ?o =
      Some (Inr (set_strand (zero_strand\<lparr>s_nstats := ns\<rparr>) (strand_finish quiet_env UPERF_FAILURE ?o)))"
    using h fini strand_finish_props(3) [OF id, of quiet_env UPERF_FAILURE] ns
    by (simp add: strand_exit_def strand_leave_def)
  from strand_signs_off [OF id this] this show ?thesis
    by (auto simp: one_strand_def shm_init_def wrap32_id)
qed
end
