(* ===== verification/Workxfer.thy ===== *)
theory Workxfer
  imports Layout Netio
begin

text \<open>
  The transfer of a work order from the master to a slave (\<open>tx_group_t\<close> and
  \<open>rx_group_t\<close> of \<open>src/handshake.c\<close>): the master sends the mirror of a group, with the
  flowops that are for other hosts turned into no-operations; the slave rebuilds the linked
  structure, swaps each flowop's local and remote host, and looks up its execute function.
\<close>

section \<open>The master's side\<close>

definition nop_flowop :: "string \<Rightarrow> flowop \<Rightarrow> flowop" where
  "nop_flowop host f =
     (if fo_remotehost (f_options f) = [] then f
      else if host \<noteq> fo_remotehost (f_options f) then f\<lparr>f_type := FLOWOP_NOP\<rparr> else f)"

definition group_for_slave :: "string \<Rightarrow> group \<Rightarrow> group" where
  \<comment> \<open>the clone \<open>tx_group_t\<close> makes, once it is mirrored and filtered\<close>
  "group_for_slave host g =
     (let copy = group_opposite g
      in copy\<lparr>g_tlist := map (\<lambda>t. t\<lparr>t_flist := map (nop_flowop host) (t_flist t)\<rparr>) (g_tlist copy)\<rparr>)"

fun tx_flowops :: "endian \<Rightarrow> flowop list \<Rightarrow> chan \<Rightarrow> int \<times> chan" where
  "tx_flowops e [] c = (UPERF_SUCCESS, c)"
| "tx_flowops e (f # fs) c =
     (let (n, c') = ensure_write (put_flowop e f) c
      in if n \<le> 0 then (UPERF_FAILURE, c') else tx_flowops e fs c')"

fun tx_txns :: "endian \<Rightarrow> txn list \<Rightarrow> chan \<Rightarrow> int \<times> chan" where
  "tx_txns e [] c = (UPERF_SUCCESS, c)"
| "tx_txns e (t # ts) c =
     (let (n, c') = ensure_write (put_txn e t) c
      in if n \<le> 0 then (UPERF_FAILURE, c')
         else let (r, c'') = tx_flowops e (t_flist t) c'
              in if r \<noteq> UPERF_SUCCESS then (r, c'') else tx_txns e ts c'')"

definition tx_group_t :: "endian \<Rightarrow> group \<Rightarrow> string \<Rightarrow> chan \<Rightarrow> int \<times> chan" where
  "tx_group_t e g host c =
     (let copy = group_for_slave host g;
          (n, c') = ensure_write (put_group e copy) c
      in if n \<le> 0 then (UPERF_FAILURE, c') else tx_txns e (g_tlist copy) c')"

section \<open>The slave's side\<close>

definition swap_hosts :: "string \<Rightarrow> flowop \<Rightarrow> flowop" where
  \<comment> \<open>\<open>phost\<close>: the host of the control connection\<close>
  "swap_hosts phost f =
     (let o' = f_options f in
      f\<lparr>f_options :=
         (if fo_localhost o' \<noteq> []
          then let temp = strlcpy MAXHOSTNAME (fo_remotehost o')
               in o'\<lparr>fo_remotehost := strlcpy MAXHOSTNAME (fo_localhost o'),
                     fo_localhost := strlcpy MAXHOSTNAME temp\<rparr>
          else o'\<lparr>fo_remotehost := strlcpy MAXHOSTNAME phost\<rparr>)\<rparr>)"

definition rx_fix_flowop :: "bool \<Rightarrow> string \<Rightarrow> flowop \<Rightarrow> flowop" where
  "rx_fix_flowop bitswap phost f =
     (let f1 = swap_hosts phost f;
          f2 = (if bitswap then f1\<lparr>f_type := flowop_of_code (BSWAP_32 (flowop_code (f_type f1)))\<rparr> else f1)
      in f2\<lparr>f_execute := Some (flowop_get_execute_func (f_type f2))\<rparr>)"

fun rx_flowops :: "endian \<Rightarrow> bool \<Rightarrow> string \<Rightarrow> nat \<Rightarrow> chan \<Rightarrow> flowop list option \<times> chan" where
  \<comment> \<open>the inner loop, \<open>n\<close> turns left\<close>
  "rx_flowops e bitswap phost 0 c = (Some [], c)"
| "rx_flowops e bitswap phost (Suc n) c =
     (let (r, bs, c1) = ensure_read SIZEOF_FLOWOP_T c
      in if r \<le> 0 then (None, c1)
         else let f = rx_fix_flowop bitswap phost (fst (get_flowop e bs));
                  (fs, c2) = rx_flowops e bitswap phost n c1
              in (map_option (Cons f) fs, c2))"

definition rx_txn :: "endian \<Rightarrow> bool \<Rightarrow> string \<Rightarrow> chan \<Rightarrow> txn option \<times> chan" where
  "rx_txn e bitswap phost c =
     (let (r, bs, c1) = ensure_read SIZEOF_TXN_T c
      in if r \<le> 0 then (None, c1)
         else let t = fst (get_txn e bs);
                  t1 = (if bitswap then t\<lparr>t_nflowop := BSWAP_32 (t_nflowop t)\<rparr> else t);
                  (fs, c2) = rx_flowops e bitswap phost (unat (t_nflowop t1)) c1
              in (map_option (\<lambda>fs. t1\<lparr>t_flist := fs\<rparr>) fs, c2))"

fun rx_txns :: "endian \<Rightarrow> bool \<Rightarrow> string \<Rightarrow> nat \<Rightarrow> chan \<Rightarrow> txn list option \<times> chan" where
  "rx_txns e bitswap phost 0 c = (Some [], c)"
| "rx_txns e bitswap phost (Suc n) c =
     (case rx_txn e bitswap phost c of
        (None, c1) \<Rightarrow> (None, c1)
      | (Some t, c1) \<Rightarrow>
          (let (ts, c2) = rx_txns e bitswap phost n c1 in (map_option (Cons t) ts, c2)))"

definition rx_group_t :: "endian \<Rightarrow> string \<Rightarrow> u32 \<Rightarrow> chan \<Rightarrow> group option \<times> chan" where
  "rx_group_t e phost my_endian c =
     (let (r, bs, c1) = ensure_read SIZEOF_GROUP_T c
      in if r \<le> 0 then (None, c1)
         else let g = fst (get_group e bs);
                  bitswap = (my_endian \<noteq> g_endian g);
                  g1 = (if bitswap then g\<lparr>g_ntxn := BSWAP_32 (g_ntxn g)\<rparr> else g);
                  (ts, c2) = rx_txns e bitswap phost (unat (g_ntxn g1)) c1
              in (map_option (\<lambda>ts. g1\<lparr>g_tlist := ts\<rparr>) ts, c2))"

section \<open>What the slave should hold\<close>

text \<open>
  The slave's work order as a function of the master's: the mirrored group with the hosts
  swapped and every member in the slave's own byte order, but for the members the repair
  leaves out, which keep the view the slave's byte order gives of them.
\<close>

definition slave_flowop :: "endian \<Rightarrow> endian \<Rightarrow> string \<Rightarrow> flowop \<Rightarrow> flowop" where
  "slave_flowop e e' phost f =
     (let f1 = swap_hosts phost f in
      zero_flowop\<lparr>
        f_options := (f_options f1)\<lparr>fo_bblog := wview e e' (fo_bblog (f_options f))\<rparr>,
        f_type := f_type f,
        f_p_id := wview e e' (f_p_id f), f_statid1 := wview e e' (f_statid1 f),
        f_errors := wview e e' (f_errors f),
        f_execute := Some (flowop_get_execute_func (f_type f))\<rparr>)"

definition slave_txn :: "endian \<Rightarrow> endian \<Rightarrow> string \<Rightarrow> txn \<Rightarrow> txn" where
  "slave_txn e e' phost t =
     zero_txn\<lparr>t_nflowop := t_nflowop t, t_txnid := t_txnid t,
       t_statid1 := wview e e' (t_statid1 t), t_unused := wview e e' (t_unused t),
       t_rate_count := t_rate_count t, t_dummy := wview e e' (t_dummy t),
       t_iter := t_iter t, t_duration := t_duration t, t_rate_str := t_rate_str t,
       t_flist := map (slave_flowop e e' phost) (t_flist t)\<rparr>"

definition slave_group :: "endian \<Rightarrow> endian \<Rightarrow> string \<Rightarrow> group \<Rightarrow> group" where
  "slave_group e e' phost g =
     zero_group\<lparr>g_endian := wview e e' (g_endian g), g_strand_flag := wview e e' (g_strand_flag g),
       g_nthreads := g_nthreads g, g_ntxn := g_ntxn g, g_max_async := g_max_async g,
       g_groupid := wview e e' (g_groupid g),
       g_tlist := map (slave_txn e e' phost) (g_tlist g)\<rparr>"

definition flowop_sendable :: "flowop \<Rightarrow> bool" where
  "flowop_sendable f = (options_wf (f_options f) \<and> flowop_type_ok (f_type f))"

definition group_sendable :: "group \<Rightarrow> bool" where
  \<comment> \<open>what the parser builds: counters that count, strings that fit, types of the enum\<close>
  "group_sendable g = (g_endian g = UPERF_ENDIAN_VALUE \<and> group_counts g \<and>
     (\<forall>t \<in> set (g_tlist g). c_string NAMELEN (t_rate_str t) \<and>
        (\<forall>f \<in> set (t_flist t). flowop_sendable f)))"

definition wire_txn :: "endian \<Rightarrow> txn \<Rightarrow> byte list" where
  "wire_txn e t = put_txn e t @ concat (map (put_flowop e) (t_flist t))"

definition wire_group :: "endian \<Rightarrow> group \<Rightarrow> byte list" where
  "wire_group e g = put_group e g @ concat (map (wire_txn e) (g_tlist g))"

section \<open>Sending\<close>

lemma put_nonempty: "put_flowop e f \<noteq> []" "put_txn e t \<noteq> []" "put_group e g \<noteq> []"
  using flowop_codec.length_put [of e f] txn_codec.length_put [of e t] group_codec.length_put [of e g]
  by (auto simp: SIZEOF_FLOWOP_T_def SIZEOF_TXN_T_def SIZEOF_GROUP_T_def)

lemma tx_flowops_sends:
  assumes "will_write (length (concat (map (put_flowop e) fs)) + m) c"
  shows "\<exists>c'. tx_flowops e fs c = (UPERF_SUCCESS, c') \<and> will_write m c' \<and>
    ch_out c' = ch_out c @ concat (map (put_flowop e) fs) \<and> ch_in c' = ch_in c"
  using assms
proof (induction fs arbitrary: c)
  case (Cons f fs)
  have w: "will_write (length (put_flowop e f) + (length (concat (map (put_flowop e) fs)) + m)) c"
    using Cons.prems by (simp add: add.assoc)
  obtain c1 where c1: "ensure_write (put_flowop e f) c = (int (length (put_flowop e f)), c1)"
      "ch_out c1 = ch_out c @ put_flowop e f" "ch_in c1 = ch_in c"
      "will_write (length (concat (map (put_flowop e) fs)) + m) c1"
    using sock.send_all [OF w put_nonempty(1)] by metis
  with Cons.IH [OF c1(4)] show ?case
    by (auto simp: put_nonempty)
qed simp

lemma tx_txns_sends:
  assumes "will_write (length (concat (map (wire_txn e) ts)) + m) c"
  shows "\<exists>c'. tx_txns e ts c = (UPERF_SUCCESS, c') \<and> will_write m c' \<and>
    ch_out c' = ch_out c @ concat (map (wire_txn e) ts) \<and> ch_in c' = ch_in c"
  using assms
proof (induction ts arbitrary: c)
  case (Cons t ts)
  let ?fs = "concat (map (put_flowop e) (t_flist t))"
  let ?ts = "concat (map (wire_txn e) ts)"
  have w: "will_write (length (put_txn e t) + (length ?fs + (length ?ts + m))) c"
    using Cons.prems by (simp add: add.assoc wire_txn_def [of e t])
  obtain c1 where c1: "ensure_write (put_txn e t) c = (int (length (put_txn e t)), c1)"
      "ch_out c1 = ch_out c @ put_txn e t" "ch_in c1 = ch_in c"
      "will_write (length ?fs + (length ?ts + m)) c1"
    using sock.send_all [OF w put_nonempty(2)] by metis
  obtain c2 where c2: "tx_flowops e (t_flist t) c1 = (UPERF_SUCCESS, c2)" "will_write (length ?ts + m) c2"
      "ch_out c2 = ch_out c1 @ ?fs" "ch_in c2 = ch_in c1"
    using tx_flowops_sends [OF c1(4)] by metis
  obtain c3 where "tx_txns e ts c2 = (UPERF_SUCCESS, c3)" "will_write m c3"
      "ch_out c3 = ch_out c2 @ ?ts" "ch_in c3 = ch_in c2"
    using Cons.IH [OF c2(2)] by metis
  with c1 c2 show ?case by (auto simp: put_nonempty wire_txn_def [of e t])
qed simp

lemma tx_group_sends:
  assumes "will_write (length (wire_group e (group_for_slave host g)) + m) c"
  shows "\<exists>c'. tx_group_t e g host c = (UPERF_SUCCESS, c') \<and> will_write m c' \<and>
    ch_out c' = ch_out c @ wire_group e (group_for_slave host g) \<and> ch_in c' = ch_in c"
proof -
  let ?g = "group_for_slave host g"
  let ?ts = "concat (map (wire_txn e) (g_tlist ?g))"
  have w: "will_write (length (put_group e ?g) + (length ?ts + m)) c"
    using assms by (simp add: add.assoc wire_group_def)
  obtain c1 where c1: "ensure_write (put_group e ?g) c = (int (length (put_group e ?g)), c1)"
      "ch_out c1 = ch_out c @ put_group e ?g" "ch_in c1 = ch_in c"
      "will_write (length ?ts + m) c1"
    using sock.send_all [OF w put_nonempty(3)] by metis
  with tx_txns_sends [OF c1(4)] show ?thesis
    by (auto simp: tx_group_t_def put_nonempty wire_group_def Let_def)
qed

section \<open>Receiving\<close>

lemma rx_flowops_gets:
  assumes "will_read (length (concat (map (put_flowop e) fs)) + m) c"
    and "ch_in c = concat (map (put_flowop e) fs) @ rest"
    and "\<forall>f \<in> set fs. flowop_sendable f"
  shows "\<exists>c'. rx_flowops e' b phost (length fs) c =
      (Some (map (\<lambda>f. rx_fix_flowop b phost (flowop_view e e' f)) fs), c') \<and>
    will_read m c' \<and> ch_in c' = rest \<and> ch_out c' = ch_out c"
  using assms
proof (induction fs arbitrary: c)
  case (Cons f fs)
  let ?fs = "concat (map (put_flowop e) fs)"
  have w: "will_read (length (put_flowop e f) + (length ?fs + m)) c"
    and i: "ch_in c = put_flowop e f @ ?fs @ rest"
    using Cons.prems by (simp_all add: add.assoc)
  obtain c1 where c1: "ensure_read (length (put_flowop e f)) c =
        (int (length (put_flowop e f)), put_flowop e f, c1)"
      "ch_in c1 = ?fs @ rest" "will_read (length ?fs + m) c1" "ch_out c1 = ch_out c"
    using sock.recv_prefix [OF i w put_nonempty(1)] by metis
  have v: "fst (get_flowop e' (put_flowop e f)) = flowop_view e e' f"
    using Cons.prems(3) by (intro flowop_codec.get_put_exact) (simp add: flowop_sendable_def)
  from Cons.IH [OF c1(3,2)] Cons.prems(3) c1 v show ?case
    by (auto simp: flowop_codec.length_put SIZEOF_FLOWOP_T_def Let_def)
qed simp

definition rx_view_txn :: "endian \<Rightarrow> endian \<Rightarrow> string \<Rightarrow> txn \<Rightarrow> txn" where
  "rx_view_txn e e' phost t =
     (txn_view e e' t)\<lparr>t_nflowop := t_nflowop t,
        t_flist := map (\<lambda>f. rx_fix_flowop (e \<noteq> e') phost (flowop_view e e' f)) (t_flist t)\<rparr>"

lemma rx_txn_gets:
  assumes "will_read (length (wire_txn e t) + m) c" and "ch_in c = wire_txn e t @ rest"
    and "txn_counts t" and "c_string NAMELEN (t_rate_str t)"
    and "\<forall>f \<in> set (t_flist t). flowop_sendable f"
  shows "\<exists>c'. rx_txn e' (e \<noteq> e') phost c = (Some (rx_view_txn e e' phost t), c') \<and>
    will_read m c' \<and> ch_in c' = rest \<and> ch_out c' = ch_out c"
proof -
  let ?fs = "concat (map (put_flowop e) (t_flist t))"
  have w: "will_read (length (put_txn e t) + (length ?fs + m)) c"
    and i: "ch_in c = put_txn e t @ ?fs @ rest"
    using assms by (simp_all add: add.assoc wire_txn_def [of e t])
  obtain c1 where c1: "ensure_read (length (put_txn e t)) c = (int (length (put_txn e t)), put_txn e t, c1)"
      "ch_in c1 = ?fs @ rest" "will_read (length ?fs + m) c1" "ch_out c1 = ch_out c"
    using sock.recv_prefix [OF i w put_nonempty(2)] by metis
  have v: "fst (get_txn e' (put_txn e t)) = txn_view e e' t"
    using assms(4) by (rule txn_codec.get_put_exact)
  have n: "unat (t_nflowop t) = length (t_flist t)"
    using assms(3) by (simp add: txn_counts_def unsigned_of_nat take_bit_nat_eq_self)
  from rx_flowops_gets [OF c1(3,2) assms(5), of e' "e \<noteq> e'" phost] c1 v n show ?thesis
    by (cases "e = e'") (auto simp: rx_txn_def txn_codec.length_put SIZEOF_TXN_T_def rx_view_txn_def
        txn_view_def zero_txn_def bswap_wview)
qed

lemma rx_txns_gets:
  assumes "will_read (length (concat (map (wire_txn e) ts)) + m) c"
    and "ch_in c = concat (map (wire_txn e) ts) @ rest"
    and "\<forall>t \<in> set ts. txn_counts t \<and> c_string NAMELEN (t_rate_str t) \<and>
           (\<forall>f \<in> set (t_flist t). flowop_sendable f)"
  shows "\<exists>c'. rx_txns e' (e \<noteq> e') phost (length ts) c = (Some (map (rx_view_txn e e' phost) ts), c') \<and>
    will_read m c' \<and> ch_in c' = rest \<and> ch_out c' = ch_out c"
  using assms
proof (induction ts arbitrary: c)
  case (Cons t ts)
  let ?ts = "concat (map (wire_txn e) ts)"
  have w: "will_read (length (wire_txn e t) + (length ?ts + m)) c"
    and i: "ch_in c = wire_txn e t @ ?ts @ rest"
    using Cons.prems by (simp_all add: add.assoc)
  obtain c1 where c1: "rx_txn e' (e \<noteq> e') phost c = (Some (rx_view_txn e e' phost t), c1)"
      "will_read (length ?ts + m) c1" "ch_in c1 = ?ts @ rest" "ch_out c1 = ch_out c"
    using rx_txn_gets [OF w i] Cons.prems(3) by force
  from Cons.IH [OF c1(2,3)] Cons.prems(3) c1 show ?case by force
qed simp

lemma endian_differs: "(UPERF_ENDIAN_VALUE \<noteq> wview e e' UPERF_ENDIAN_VALUE) = (e \<noteq> e')"
proof -
  have "bswap UPERF_ENDIAN_VALUE = 0xDCBA0000"
    by (simp add: UPERF_ENDIAN_VALUE_def BSWAP_16_def BSWAP_32_def BSWAP_8_def flip: BSWAP_32_bswap)
  then show ?thesis by (simp add: wview_def UPERF_ENDIAN_VALUE_def)
qed

lemma options_bitswap_swap_hosts:
  "e \<noteq> e' \<Longrightarrow> options_bitswap (f_options (swap_hosts phost (flowop_view e e' f))) =
     (f_options (swap_hosts phost f))\<lparr>fo_bblog := wview e e' (fo_bblog (f_options f))\<rparr>"
  by (simp add: options_bitswap_def options_view_def bswap_wview swap_hosts_def flowop_view_def Let_def
      zero_flowop_def)

lemma repaired_flowop:
  assumes "flowop_type_ok (f_type f)"
  shows "(let f' = rx_fix_flowop (e \<noteq> e') phost (flowop_view e e' f)
     in if e = e' then f' else f'\<lparr>f_options := options_bitswap (f_options f')\<rparr>)
     = slave_flowop e e' phost f"
proof (cases "e = e'")
  case True
  then show ?thesis using assms
    by (simp add: rx_fix_flowop_def slave_flowop_def flowop_view_def swap_hosts_def Let_def zero_flowop_def)
next
  case False
  then show ?thesis using assms options_bitswap_swap_hosts [of e e' phost f]
    by (simp add: rx_fix_flowop_def slave_flowop_def swap_hosts_def flowop_view_def Let_def
        zero_flowop_def bswap_wview)
qed

lemma repaired_txn:
  assumes "\<forall>f \<in> set (t_flist t). flowop_type_ok (f_type f)"
  shows "(if e = e' then rx_view_txn e e' phost t else txn_bitswap (rx_view_txn e e' phost t))
     = slave_txn e e' phost t"
proof (cases "e = e'")
  case True
  have "map (\<lambda>f. rx_fix_flowop (e \<noteq> e') phost (flowop_view e e' f)) (t_flist t)
      = map (slave_flowop e e' phost) (t_flist t)"
    using assms repaired_flowop [of _ e e' phost] True by (auto simp: Let_def)
  with True show ?thesis
    by (simp add: rx_view_txn_def slave_txn_def txn_view_def zero_txn_def)
next
  case False
  have "map (\<lambda>f. let f' = rx_fix_flowop (e \<noteq> e') phost (flowop_view e e' f)
          in f'\<lparr>f_options := options_bitswap (f_options f')\<rparr>) (t_flist t)
      = map (slave_flowop e e' phost) (t_flist t)"
    using assms repaired_flowop [of _ e e' phost] False by (auto simp: Let_def)
  with False show ?thesis
    by (simp add: rx_view_txn_def slave_txn_def txn_view_def zero_txn_def txn_bitswap_def
        bswap_wview comp_def Let_def)
qed

definition rx_view_group :: "endian \<Rightarrow> endian \<Rightarrow> string \<Rightarrow> group \<Rightarrow> group" where
  "rx_view_group e e' phost g =
     (group_view e e' g)\<lparr>g_ntxn := g_ntxn g, g_tlist := map (rx_view_txn e e' phost) (g_tlist g)\<rparr>"

lemma rx_group_gets:
  assumes "will_read (length (wire_group e g) + m) c" and "ch_in c = wire_group e g @ rest"
    and "group_sendable g"
  shows "\<exists>c'. rx_group_t e' phost UPERF_ENDIAN_VALUE c = (Some (rx_view_group e e' phost g), c') \<and>
    will_read m c' \<and> ch_in c' = rest \<and> ch_out c' = ch_out c"
proof -
  let ?ts = "concat (map (wire_txn e) (g_tlist g))"
  have w: "will_read (length (put_group e g) + (length ?ts + m)) c"
    and i: "ch_in c = put_group e g @ ?ts @ rest"
    using assms by (simp_all add: add.assoc wire_group_def)
  obtain c1 where c1: "ensure_read (length (put_group e g)) c = (int (length (put_group e g)), put_group e g, c1)"
      "ch_in c1 = ?ts @ rest" "will_read (length ?ts + m) c1" "ch_out c1 = ch_out c"
    using sock.recv_prefix [OF i w put_nonempty(3)] by metis
  have v: "fst (get_group e' (put_group e g)) = group_view e e' g"
    by (rule group_codec.get_put_exact) simp
  have n: "unat (g_ntxn g) = length (g_tlist g)"
    using assms(3) by (simp add: group_sendable_def group_counts_def unsigned_of_nat take_bit_nat_eq_self)
  have b: "(UPERF_ENDIAN_VALUE \<noteq> g_endian (group_view e e' g)) = (e \<noteq> e')"
    using assms(3) endian_differs [of e e'] by (simp add: group_sendable_def group_view_def)
  have ts: "\<forall>t \<in> set (g_tlist g). txn_counts t \<and> c_string NAMELEN (t_rate_str t) \<and>
           (\<forall>f \<in> set (t_flist t). flowop_sendable f)"
    using assms(3) by (auto simp: group_sendable_def group_counts_def list_all_iff)
  from rx_txns_gets [OF c1(3,2) ts, of e' phost] c1 v n b show ?thesis
    by (cases "e = e'") (auto simp: rx_group_t_def group_codec.length_put SIZEOF_GROUP_T_def
        rx_view_group_def group_view_def zero_group_def bswap_wview)
qed

lemma repaired_group:
  assumes "group_sendable g"
  shows "(if e = e' then rx_view_group e e' phost g else group_bitswap (rx_view_group e e' phost g))
     = slave_group e e' phost g"
proof -
  have "map (\<lambda>t. if e = e' then rx_view_txn e e' phost t else txn_bitswap (rx_view_txn e e' phost t))
      (g_tlist g) = map (slave_txn e e' phost) (g_tlist g)"
    using assms repaired_txn [of _ e e' phost] by (auto simp: group_sendable_def flowop_sendable_def)
  then show ?thesis
    by (cases "e = e'") (simp_all add: rx_view_group_def slave_group_def group_view_def zero_group_def
        group_bitswap_def bswap_wview comp_def)
qed

lemma optimize_flowop_wf:
  "options_wf (f_options (fst (optimize_flowop f n))) = options_wf (f_options f)"
  "f_type (fst (optimize_flowop f n)) = f_type f"
  by (simp_all add: options_wf_def Let_def)

lemma flowop_opp_wf: "options_wf (f_options (flowop_opp f)) = options_wf (f_options f)"
  by (simp add: flowop_opp_def option_oposite_def options_wf_def Let_def)

lemma nop_flowop_sendable: "flowop_sendable f \<Longrightarrow> flowop_sendable (nop_flowop host f)"
  by (simp add: nop_flowop_def flowop_sendable_def flowop_type_ok_def)

lemma flowop_opp_sendable: "flowop_sendable f \<Longrightarrow> flowop_sendable (flowop_opp f)"
  using flowop_opposite_ok [of "f_type f"]
  by (simp add: flowop_sendable_def flowop_opp_wf) (simp add: flowop_opp_def)

lemma optimize_sendable: "flowop_sendable f \<Longrightarrow> flowop_sendable (fst (optimize_flowop f n))"
  by (simp only: flowop_sendable_def optimize_flowop_wf)

lemma group_for_slave_sendable: "group_sendable g \<Longrightarrow> group_sendable (group_for_slave host g)"
proof -
  assume g: "group_sendable g"
  then have "group_counts (group_opposite g)"
    by (simp add: group_sendable_def group_opposite_counts)
  with g show ?thesis
    by (auto simp: group_sendable_def group_for_slave_def group_opposite_eq Let_def group_counts_def
        list_all_iff txn_counts_def simp del: optimize_flowop.simps
        intro!: nop_flowop_sendable optimize_sendable flowop_opp_sendable)
qed


lemma will_read_replicate: "0 < a \<Longrightarrow> n \<le> k \<Longrightarrow> will_read n \<lparr>ch_rd = replicate k a, ch_in = i, ch_wr = w, ch_out = o'\<rparr>"
  by (auto simp: will_read_def)

lemma will_write_replicate: "0 < a \<Longrightarrow> n \<le> k \<Longrightarrow> will_write n \<lparr>ch_rd = r, ch_in = i, ch_wr = replicate k a, ch_out = o'\<rparr>"
  by (auto simp: will_write_def)


end
