(* ===== verification/Numbers.thy ===== *)
theory Numbers
  imports Rate
begin

text \<open>
  Numbers with units (\<open>src/numbers.c\<close>): the sizes (\<open>64k\<close>) and times (\<open>20ms\<close>) of a
  profile. The environment is the parameter \<open>env\<close>. \<open>strtoll\<close> and \<open>strtod\<close> are the ones of
  the C library on the strings the callers let through: those that begin with a digit or a
  dot. A floating-point value is a fraction of naturals, rounded to 53 bits where the code has
  a \<open>double\<close> and to 24 where it has a \<open>float\<close>; what a conversion to an integer type leaves
  undefined is \<open>Undefined\<close>. The messages printed for rejected input are left out.
\<close>

section \<open>The library's conversions\<close>

definition dec_val :: "string \<Rightarrow> nat" where
  "dec_val ds = fold (\<lambda>c a. 10 * a + (c_code c - 48)) ds 0"

definition strtoll :: "string \<Rightarrow> nat \<times> bool \<times> string" where
  \<comment> \<open>base 10: the value, whether \<open>errno\<close> is \<open>ERANGE\<close>, and \<open>end\<close>\<close>
  "strtoll s =
     (let ds = takeWhile c_isdigit s; rest = dropWhile c_isdigit s; v = dec_val ds
      in if v > 2 ^ 63 - 1 then (2 ^ 63 - 1, True, rest) else (v, False, rest))"

definition strtod_exp :: "string \<Rightarrow> int \<times> string" where
  \<comment> \<open>the exponent, when one follows\<close>
  "strtod_exp s =
     (case s of
        c # s1 \<Rightarrow>
          (let neg = (s1 \<noteq> [] \<and> hd s1 = CHR ''-'');
               s2 = (if s1 \<noteq> [] \<and> (hd s1 = CHR ''-'' \<or> hd s1 = CHR ''+'') then tl s1 else s1);
               ds = takeWhile c_isdigit s2
           in if c_tolower c = CHR ''e'' \<and> ds \<noteq> []
              then (if neg then - int (dec_val ds) else int (dec_val ds), dropWhile c_isdigit s2)
              else (0, s))
      | [] \<Rightarrow> (0, s))"

definition strtod :: "string \<Rightarrow> (nat \<times> nat) \<times> string" where
  \<comment> \<open>the value before rounding as a fraction, and \<open>end\<close>\<close>
  "strtod s =
     (let ds = takeWhile c_isdigit s; r1 = dropWhile c_isdigit s;
          dot = (r1 \<noteq> [] \<and> hd r1 = CHR ''.'');
          fs = (if dot then takeWhile c_isdigit (tl r1) else []);
          r2 = (if dot then dropWhile c_isdigit (tl r1) else r1)
      in if ds = [] \<and> fs = [] then ((0, 1), s)
         else let (e, r3) = strtod_exp r2; k = e - int (length fs); m = dec_val (ds @ fs)
              in ((if 0 \<le> k then (m * 10 ^ nat k, 1) else (m, 10 ^ nat (- k))), r3))"

definition rnd_at :: "int \<Rightarrow> nat \<times> nat \<Rightarrow> nat \<times> nat" where
  \<comment> \<open>the nearest multiple of \<open>2 ^ s\<close>, ties to even\<close>
  "rnd_at s x =
     (let p = (if 0 \<le> s then fst x else fst x * 2 ^ nat (- s));
          q = (if 0 \<le> s then snd x * 2 ^ nat s else snd x);
          m = p div q; r = p mod q;
          m' = (if 2 * r < q \<or> 2 * r = q \<and> even m then m else m + 1)
      in if 0 \<le> s then (m' * 2 ^ nat s, 1) else (m', 2 ^ nat (- s)))"

definition rnd_exp :: "nat \<Rightarrow> nat \<times> nat \<Rightarrow> int" where
  \<comment> \<open>the exponent of the last of \<open>b\<close> significant bits\<close>
  "rnd_exp b x =
     (let s = int (bit_len (fst x)) - int (bit_len (snd x)) - int b;
          m = (if 0 \<le> s then fst x div (snd x * 2 ^ nat s) else fst x * 2 ^ nat (- s) div snd x)
      in if m \<ge> 2 ^ b then s + 1 else s)"

definition rnd :: "nat \<Rightarrow> nat \<times> nat \<Rightarrow> nat \<times> nat" where
  \<comment> \<open>round to \<open>b\<close> significant bits; \<open>b\<close> is 53 for \<open>double\<close> and 24 for \<open>float\<close>\<close>
  "rnd b x = (if fst x = 0 then (0, 1) else rnd_at (rnd_exp b x) x)"

definition strtod_erange :: "nat \<times> nat \<Rightarrow> bool" where
  \<comment> \<open>above the largest \<open>double\<close>, or below the smallest normal one and not exact\<close>
  "strtod_erange x =
     (fst x \<ge> (2 ^ 1024 - 2 ^ 970) * snd x \<or>
      fst x * 2 ^ 1022 < snd x \<and> \<not> snd x dvd fst x * 2 ^ 1074)"

section \<open>\<open>string_to_int\<close>\<close>

definition str2shift :: "string \<Rightarrow> int" where
  "str2shift buf =
     (if buf = [] then 0
      else let ends = ''BKMGTPEZ''; i = length (takeWhile (\<lambda>e. c_toupper (hd buf) \<noteq> e) ends)
           in if i = length ends then - 1 else 10 * int i)"

definition shl32 :: "int \<Rightarrow> int \<Rightarrow> int" where
  \<comment> \<open>\<open>num << shift\<close> on an \<open>int\<close>\<close>
  "shl32 num shift = wrap32 (num * 2 ^ nat shift)"

definition getenv_value :: "(string \<Rightarrow> string option) \<Rightarrow> string \<Rightarrow> string option" where
  \<comment> \<open>the text to convert: the name looked up includes the dollar sign\<close>
  "getenv_value env value =
     (if value \<noteq> [] \<and> hd value = CHR ''$'' then env value else Some value)"

definition starts_number :: "string \<Rightarrow> bool" where
  "starts_number tmp = (tmp \<noteq> [] \<and> (c_isdigit (hd tmp) \<or> hd tmp = CHR ''.''))"

definition string_to_int :: "(string \<Rightarrow> string option) \<Rightarrow> string \<Rightarrow> c_stop + int" where
  "string_to_int env value =
     (case getenv_value env value of
        None \<Rightarrow> Inr (- 1)
      | Some tmp \<Rightarrow>
          if \<not> starts_number tmp then Inr (- 1)
          else let (ll, erange, end) = strtoll tmp; num = wrap32 (int ll) in
            if erange then Inr (- 1)
            else if end \<noteq> [] \<and> hd end = CHR ''.'' then
              (let (x, end) = strtod tmp; shift = str2shift end in
               if shift = - 1 then Inr (- 1)
               else let (p, q) = rnd 53 x; p = p * 2 ^ nat shift in
                 if p > 4294967295 * q then Inr (- 1)
                 else if p div q \<ge> 2 ^ 31 then Inl Undefined
                 else Inr (int (p div q)))
            else
              (let shift = str2shift end in
               if shift = - 1 then Inr (- 1)
               else if shift > 32 \<or> shl32 num shift div 2 ^ nat shift \<noteq> num then Inr (- 1)
               else Inr (shl32 num shift)))"

section \<open>\<open>string_to_nsec\<close>\<close>

definition get_multiplier :: "string \<Rightarrow> nat option" where
  \<comment> \<open>\<open>None\<close> is -1.0\<close>
  "get_multiplier suffix =
     (if suffix = [] then Some (10 ^ 9)
      else let c = c_tolower (hd suffix) in
        if c = CHR ''s'' then Some (10 ^ 9) else if c = CHR ''m'' then Some (10 ^ 6)
        else if c = CHR ''u'' then Some (10 ^ 3) else if c = CHR ''n'' then Some 1 else None)"

definition float_times :: "nat \<times> nat \<Rightarrow> nat option \<Rightarrow> c_stop + u64" where
  \<comment> \<open>a \<open>float\<close> times the multiplier, converted to \<open>uint64_t\<close>\<close>
  "float_times x m =
     (case m of
        Some k \<Rightarrow>
          (let (p, q) = rnd 24 (fst x * k, snd x) in
           if p div q \<ge> 2 ^ 64 then Inl Undefined else Inr (of_nat (p div q)))
      | None \<Rightarrow> if fst x \<ge> snd x then Inl Undefined else Inr 0)"

definition string_to_nsec :: "(string \<Rightarrow> string option) \<Rightarrow> string \<Rightarrow> c_stop + u64" where
  "string_to_nsec env value =
     (case getenv_value env value of
        None \<Rightarrow> Inr (- 1)
      | Some tmp \<Rightarrow>
          if \<not> starts_number tmp then Inr 0
          else let (num, erange, end) = strtoll tmp in
            if erange then Inr 0
            else if end \<noteq> [] \<and> hd end = CHR ''.'' then
              (let (x, end) = strtod tmp in
               if strtod_erange x then Inr (- 1)
               else float_times (rnd 24 (rnd 53 x)) (get_multiplier end))
            else float_times (rnd 24 (num, 1)) (get_multiplier end))"

section \<open>Rounding\<close>

lemma bit_len_bounds: "n < 2 ^ bit_len n" "0 < n \<Longrightarrow> 2 ^ bit_len n \<le> 2 * n"
proof (induction n rule: bit_len.induct)
  case (1 n)
  { case 1
    show ?case using "1.IH"(1) by (subst bit_len.simps) auto
  next
    case 2
    show ?case
    proof (cases "n div 2 = 0")
      case True
      with 2 have "n = 1" by simp
      moreover have "bit_len 1 = 1" by (simp add: bit_len.simps)
      ultimately show ?thesis by simp
    next
      case False
      with 2 "1.IH"(2) have "2 ^ bit_len (n div 2) \<le> 2 * (n div 2)" by simp
      with 2 show ?thesis by (subst bit_len.simps) simp
    qed }
qed

text \<open>The scaled fraction \<open>rnd_at\<close> divides.\<close>

abbreviation sc_p :: "int \<Rightarrow> nat \<Rightarrow> nat" where "sc_p s p \<equiv> (if 0 \<le> s then p else p * 2 ^ nat (- s))"
abbreviation sc_q :: "int \<Rightarrow> nat \<Rightarrow> nat" where "sc_q s q \<equiv> (if 0 \<le> s then q * 2 ^ nat s else q)"

lemma nearest: "0 < (q :: nat) \<Longrightarrow>
    \<bar>int ((if 2 * (p mod q) < q \<or> 2 * (p mod q) = q \<and> even (p div q) then p div q else p div q + 1) * q) - int p\<bar> * 2 \<le> int q"
proof -
  assume q: "0 < q"
  obtain m r where m: "m = p div q" and r: "r = p mod q" by simp
  then have p: "int p = int m * int q + int r"
    by (metis div_mult_mod_eq of_nat_add of_nat_mult)
  have "int (m * q) - int p = - int r" "(1 + int m) * int q - int p = int q - int r"
    using p by (simp_all add: algebra_simps)
  moreover have "r < q" using q r by simp
  ultimately show ?thesis unfolding m [symmetric] r [symmetric] by auto
qed

lemma rnd_at_close:
  assumes "0 < q" and "sc_q s q * 2 ^ b \<le> 2 * sc_p s p" and "rnd_at s (p, q) = (a, d)"
  shows "0 < d \<and> \<bar>int (a * q) - int (p * d)\<bar> * 2 ^ b \<le> int (p * d)"
proof -
  obtain P Q where P: "P = sc_p s p" and Q: "Q = sc_q s q" by simp
  let ?m = "if 2 * (P mod Q) < Q \<or> 2 * (P mod Q) = Q \<and> even (P div Q) then P div Q else P div Q + 1"
  from assms(1) have "0 < Q" by (simp add: Q)
  then have "\<bar>int (?m * Q) - int P\<bar> * 2 \<le> int Q" by (rule nearest)
  then have "\<bar>int (?m * Q) - int P\<bar> * 2 * 2 ^ b \<le> int Q * 2 ^ b" by (rule mult_right_mono) simp
  also have "int Q * 2 ^ b = int (Q * 2 ^ b)" by simp
  also have "\<dots> \<le> int (2 * P)" using assms(2) unfolding P [symmetric] Q [symmetric] by (simp only: of_nat_le_iff)
  finally have close: "\<bar>int (?m * Q) - int P\<bar> * 2 ^ b \<le> int P" by simp
  show ?thesis
  proof (cases "0 \<le> s")
    case True
    then have PQ: "P = p" "Q = q * 2 ^ nat s" by (simp_all add: P Q)
    have "rnd_at s (p, q) = (?m * 2 ^ nat s, 1)"
      using True unfolding PQ rnd_at_def by (simp only: Let_def fst_conv snd_conv if_True)
    with assms(3) have a: "a = ?m * 2 ^ nat s" "d = 1" by (simp_all only: prod.inject)
    have "a * q = ?m * Q" "p * d = P" unfolding a PQ by (simp_all only: ac_simps mult_1_right)
    with close a show ?thesis by (simp only:) simp
  next
    case False
    then have PQ: "P = p * 2 ^ nat (- s)" "Q = q" by (simp_all add: P Q)
    have "rnd_at s (p, q) = (?m, 2 ^ nat (- s))"
      using False unfolding PQ rnd_at_def by (simp only: Let_def fst_conv snd_conv if_False)
    with assms(3) have a: "a = ?m" "d = 2 ^ nat (- s)" by (simp_all only: prod.inject)
    have "a * q = ?m * Q" "p * d = P" unfolding a PQ by (simp_all only: ac_simps)
    with close a show ?thesis by (simp only:) simp
  qed
qed

lemma rnd_exp_scaled:
  assumes "0 < q" and "0 < p" and "0 < b"
  shows "sc_q (rnd_exp b (p, q)) q * 2 ^ b \<le> 2 * sc_p (rnd_exp b (p, q)) p"
proof -
  let ?s = "int (bit_len p) - int (bit_len q) - int b"
  let ?m = "sc_p ?s p div sc_q ?s q"
  have q: "q < 2 ^ bit_len q" and p: "2 ^ bit_len p \<le> 2 * p" using bit_len_bounds assms by auto
  have first: "sc_q ?s q * 2 ^ b \<le> 2 * sc_p ?s p"
  proof (cases "0 \<le> ?s")
    case True
    obtain t where t: "nat ?s = t" by simp
    with True have "bit_len p = bit_len q + t + b" by linarith
    with p have "2 ^ bit_len q * 2 ^ t * 2 ^ b \<le> 2 * p" by (simp add: power_add)
    moreover have "q * 2 ^ t * 2 ^ b \<le> 2 ^ bit_len q * 2 ^ t * 2 ^ b"
      using q by (intro mult_right_mono) auto
    ultimately have "q * 2 ^ t * 2 ^ b \<le> 2 * p" by (rule order_trans [rotated])
    then show ?thesis unfolding if_P [OF True] t .
  next
    case False
    obtain t where t: "nat (- ?s) = t" by simp
    with False have e: "bit_len p + t = bit_len q + b" by linarith
    have "q * 2 ^ b \<le> 2 ^ (bit_len q + b)" using q by (simp add: power_add)
    also have "\<dots> = 2 ^ bit_len p * 2 ^ t" by (simp add: e [symmetric] power_add)
    also have "\<dots> \<le> 2 * p * 2 ^ t" using p by simp
    finally show ?thesis using False t by simp
  qed
  have m: "(if 0 \<le> ?s then fst (p, q) div (snd (p, q) * 2 ^ nat ?s) else fst (p, q) * 2 ^ nat (- ?s) div snd (p, q)) = ?m"
    by simp
  show ?thesis
  proof (cases "?m \<ge> 2 ^ b")
    case False
    with m have s: "rnd_exp b (p, q) = ?s" by (simp add: rnd_exp_def Let_def)
    show ?thesis unfolding s by (rule first)
  next
    case True
    with m have s: "rnd_exp b (p, q) = ?s + 1" by (simp add: rnd_exp_def Let_def)
    have "sc_q ?s q * 2 ^ b \<le> sc_q ?s q * ?m" using True by simp
    also have "\<dots> \<le> sc_p ?s p" by (rule times_div_less_eq_dividend)
    finally have le: "sc_q ?s q * 2 ^ b \<le> sc_p ?s p" .
    consider "0 \<le> ?s" | "?s = - 1" | "?s < - 1" by linarith
    then show ?thesis
    proof cases
      case 1
      then have "nat (?s + 1) = Suc (nat ?s)" by simp
      with 1 le show ?thesis by (simp add: s)
    next
      case 2
      with le show ?thesis by (simp add: s)
    next
      case 3
      then have "nat (- ?s) = Suc (nat (- (?s + 1)))" by simp
      with 3 le show ?thesis by (simp add: s)
    qed
  qed
qed

lemma rnd_close:
  assumes "0 < q" and "0 < b" and "rnd b (p, q) = (a, d)"
  shows "0 < d \<and> \<bar>int (a * q) - int (p * d)\<bar> * 2 ^ b \<le> int (p * d)"
proof (cases "p = 0")
  case True
  with assms show ?thesis by (auto simp: rnd_def)
next
  case False
  with assms have r: "rnd_at (rnd_exp b (p, q)) (p, q) = (a, d)" by (simp add: rnd_def)
  from False assms have "sc_q (rnd_exp b (p, q)) q * 2 ^ b \<le> 2 * sc_p (rnd_exp b (p, q)) p"
    by (intro rnd_exp_scaled) simp_all
  from rnd_at_close [OF assms(1) this r] show ?thesis .
qed

section \<open>Reading what was printed\<close>

lemma c_code_char_of: "n < 256 \<Longrightarrow> c_code (char_of n) = n"
  by (simp add: c_code_def)

lemma dec_nat_digits: "c \<in> set (dec_nat n) \<Longrightarrow> c_isdigit c"
proof (induction n rule: dec_nat.induct)
  case (1 n)
  have "n mod 10 < 10" by simp
  with 1 show ?case
    by (subst (asm) (2) dec_nat.simps) (auto simp: c_isdigit_def c_code_char_of split: if_splits)
qed

lemma dec_val_snoc: "dec_val (ds @ [c]) = 10 * dec_val ds + (c_code c - 48)"
  by (simp add: dec_val_def)

lemma dec_val_dec_nat [simp]: "dec_val (dec_nat n) = n"
proof (induction n rule: dec_nat.induct)
  case (1 n)
  have "n mod 10 < 10" by simp
  then have m: "c_code (char_of (48 + n mod 10)) = 48 + n mod 10" by (simp add: c_code_char_of)
  show ?case
  proof (cases "n < 10")
    case True
    then show ?thesis by (subst dec_nat.simps) (simp add: dec_val_def c_code_char_of)
  next
    case False
    with 1 have "dec_val (dec_nat (n div 10)) = n div 10" by simp
    with False m show ?thesis by (subst dec_nat.simps) (simp add: dec_val_snoc)
  qed
qed

definition no_digit_first :: "string \<Rightarrow> bool" where
  "no_digit_first t = (t = [] \<or> \<not> c_isdigit (hd t))"

lemma digits_split: "no_digit_first t \<Longrightarrow>
    takeWhile c_isdigit (dec_nat n @ t) = dec_nat n \<and> dropWhile c_isdigit (dec_nat n @ t) = t"
  by (cases t) (simp_all add: no_digit_first_def dec_nat_digits takeWhile_append dropWhile_append)

lemma strtoll_dec_nat: "no_digit_first t \<Longrightarrow> n < 2 ^ 63 \<Longrightarrow> strtoll (dec_nat n @ t) = (n, False, t)"
  using digits_split [of t n] by (simp add: strtoll_def)

lemma strtoll_too_large: "no_digit_first t \<Longrightarrow> n \<ge> 2 ^ 63 \<Longrightarrow> strtoll (dec_nat n @ t) = (2 ^ 63 - 1, True, t)"
  using digits_split [of t n] by (simp add: strtoll_def)

lemma hd_dec_nat: "hd (dec_nat n @ t) = hd (dec_nat n)" "c_isdigit (hd (dec_nat n))"
  using dec_nat_digits [of "hd (dec_nat n)" n] by simp_all

lemma digit_no_space: "c_isdigit c \<Longrightarrow> \<not> c_isspace c \<and> c \<noteq> CHR ''-'' \<and> c \<noteq> CHR ''+''"
  by (auto simp: c_isdigit_def c_isspace_def c_code_def)

lemma dec_nat_starts: "starts_number (dec_nat n @ t)" "getenv_value env (dec_nat n @ t) = Some (dec_nat n @ t)"
proof -
  have "c_isdigit (hd (dec_nat n @ t))" using hd_dec_nat by simp
  then show "starts_number (dec_nat n @ t)" "getenv_value env (dec_nat n @ t) = Some (dec_nat n @ t)"
    by (auto simp: starts_number_def getenv_value_def c_isdigit_def c_code_def)
qed

lemma string_to_int_dec:
  assumes "no_digit_first t" and "t = [] \<or> hd t \<noteq> CHR ''.''" and "n < 2 ^ 63"
  shows "string_to_int env (dec_nat n @ t) =
    (let shift = str2shift t; num = wrap32 (int n) in
     if shift = - 1 \<or> shift > 32 \<or> shl32 num shift div 2 ^ nat shift \<noteq> num then Inr (- 1)
     else Inr (shl32 num shift))"
  using assms by (auto simp: string_to_int_def dec_nat_starts strtoll_dec_nat Let_def)

text \<open>The suffixes.\<close>

lemma str2shift_suffix:
  "i < 8 \<Longrightarrow> c_toupper c = ''BKMGTPEZ'' ! i \<Longrightarrow> str2shift (c # r) = 10 * int i"
proof -
  assume i: "i < 8" and c: "c_toupper c = ''BKMGTPEZ'' ! i"
  from i have "i \<in> {0, 1, 2, 3, 4, 5, 6, 7}" by auto
  with c show ?thesis by (auto simp: str2shift_def)
qed

lemma shl32_back: "0 \<le> n \<Longrightarrow> n < 2 ^ 31 \<Longrightarrow> (shl32 n s div 2 ^ nat s = n) = (n * 2 ^ nat s < 2 ^ 31)"
proof
  assume n: "0 \<le> n" "n < 2 ^ 31" and bck: "shl32 n s div 2 ^ nat s = n"
  have "shl32 n s < 2 ^ 31" using wrap32_bounds(2) [of "n * 2 ^ nat s"] by (simp add: shl32_def)
  moreover have "n * 2 ^ nat s \<le> shl32 n s"
  proof -
    have "shl32 n s div 2 ^ nat s * 2 ^ nat s \<le> shl32 n s"
      using minus_mod_eq_div_mult [of "shl32 n s" "2 ^ nat s"] by (simp add: minus_mod_eq_div_mult [symmetric])
    with bck show ?thesis by simp
  qed
  ultimately show "n * 2 ^ nat s < 2 ^ 31" by simp
next
  assume n: "0 \<le> n" and "n * 2 ^ nat s < 2 ^ 31"
  moreover from n have "0 \<le> n * 2 ^ nat s" by simp
  then have "- (2 ^ 31) \<le> n * 2 ^ nat s" by (rule order_trans [rotated]) simp
  ultimately have "wrap32 (n * 2 ^ nat s) = n * 2 ^ nat s" by (intro wrap32_id)
  then show "shl32 n s div 2 ^ nat s = n" by (simp add: shl32_def)
qed


lemma upper_kt: "c_toupper (CHR ''k'') = CHR ''K''" "c_toupper (CHR ''T'') = CHR ''T''"
  by (code_simp, code_simp)


text \<open>
  Above that a number is not rejected but reduced modulo 2 to the 32, because the result of
  \<open>strtoll\<close> is assigned to an \<open>int\<close> before the check for overflow.
\<close>

lemma large_sizes_wrap: "n < 2 ^ 63 \<Longrightarrow> string_to_int env (dec_nat n) = Inr (wrap32 (int n))"
  using string_to_int_dec [of "[]" n env] wrap32_id [of "wrap32 (int n)"] wrap32_bounds
  by (simp add: no_digit_first_def str2shift_def shl32_def)


section \<open>Times\<close>

lemma rnd_exact: "n < 2 ^ b \<Longrightarrow> \<exists>t. rnd b (n, 1) = (n * 2 ^ t, 2 ^ t)"
proof (cases "n = 0")
  case False
  assume n: "n < 2 ^ b"
  have "2 ^ bit_len n \<le> 2 * n" using False bit_len_bounds by simp
  also have "\<dots> < 2 ^ (b + 1)" using n by simp
  finally have "bit_len n < b + 1" by (rule power_less_imp_less_exp [rotated]) simp
  moreover have "bit_len 1 = 1" by (simp add: bit_len.simps)
  ultimately have s: "rnd_exp b (n, 1) \<le> 0" by (auto simp: rnd_exp_def Let_def)
  then have "rnd_at (rnd_exp b (n, 1)) (n, 1) = (n * 2 ^ nat (- rnd_exp b (n, 1)), 2 ^ nat (- rnd_exp b (n, 1)))"
    by (auto simp: rnd_at_def Let_def)
  with False show ?thesis by (auto simp: rnd_def)
qed (auto simp: rnd_def intro: exI [of _ 0])

lemma scaled_bound: "(A :: int) * c \<le> N \<Longrightarrow> B \<le> A + R \<Longrightarrow> 0 \<le> c \<Longrightarrow> B * c \<le> N + R * c"
  using mult_right_mono [of B "A + R" c] by (simp add: distrib_right)

lemma get_multiplier_cases:
  "get_multiplier t = Some k \<Longrightarrow> no_digit_first t \<and> (t = [] \<or> hd t \<noteq> CHR ''.'') \<and> 0 < k \<and> k \<le> 10 ^ 9"
  by (auto simp: get_multiplier_def Let_def no_digit_first_def c_isdigit_def c_tolower_def c_isupper_def c_code_def
      split: if_splits)

text \<open>
  A time is read to within one nanosecond and one part in 16 million, the precision of the
  \<open>float\<close> it is computed in: \<open>n\<close> below 16777216 seconds, milliseconds, microseconds or
  nanoseconds.
\<close>

lemma times_are_read:
  assumes "n < 2 ^ 24" and "get_multiplier t = Some k"
  shows "\<exists>w. string_to_nsec env (dec_nat n @ t) = Inr w \<and>
             \<bar>int (unat w) - int (n * k)\<bar> * 2 ^ 24 \<le> int (n * k) + 2 ^ 24"
proof -
  from get_multiplier_cases [OF assms(2)]
  have t: "no_digit_first t" "t = [] \<or> hd t \<noteq> CHR ''.''" and k: "0 < k" "k \<le> 10 ^ 9" by auto
  from rnd_exact [OF assms(1)] obtain e where e: "rnd 24 (n, 1) = (n * 2 ^ e, 2 ^ e)" ..
  obtain a d where ad: "rnd 24 (n * 2 ^ e * k, 2 ^ e) = (a, d)" by fastforce
  have "n < 2 ^ 63" using assms(1) by simp
  then have read: "string_to_nsec env (dec_nat n @ t) = float_times (n * 2 ^ e, 2 ^ e) (Some k)"
    using t assms(2) e by (auto simp: string_to_nsec_def dec_nat_starts strtoll_dec_nat Let_def)
  from rnd_close [OF _ _ ad] have d: "0 < d"
    and close: "\<bar>int (a * 2 ^ e) - int (n * 2 ^ e * k * d)\<bar> * 2 ^ 24 \<le> int (n * 2 ^ e * k * d)" by simp_all
  have "int (a * 2 ^ e) - int (n * 2 ^ e * k * d) = (int a - int (n * k * d)) * 2 ^ e"
    "int (n * 2 ^ e * k * d) = int (n * k * d) * 2 ^ e" by (simp_all add: algebra_simps)
  with close have "(\<bar>int a - int (n * k * d)\<bar> * 2 ^ 24) * 2 ^ e \<le> int (n * k * d) * 2 ^ e"
    by (simp add: abs_mult mult.commute mult.left_commute)
  then have close: "\<bar>int a - int (n * k * d)\<bar> * 2 ^ 24 \<le> int (n * k * d)"
    by (rule mult_right_le_imp_le) simp
  obtain w r where w: "w = a div d" and r: "r = a mod d" by simp
  have a: "int a = int w * int d + int r" unfolding w r by (metis div_mult_mod_eq of_nat_add of_nat_mult)
  have rd: "r < d" using d r by simp
  have "int a - int (n * k * d) = (int w - int (n * k)) * int d + int r" by (simp add: a algebra_simps)
  with close have "\<bar>(int w - int (n * k)) * int d + int r\<bar> * 2 ^ 24 \<le> int (n * k) * int d" by simp
  moreover have "\<bar>int w - int (n * k)\<bar> * int d \<le> \<bar>(int w - int (n * k)) * int d + int r\<bar> + int r"
    by (simp add: abs_mult [symmetric])
  ultimately have "\<bar>int w - int (n * k)\<bar> * int d * 2 ^ 24 \<le> int (n * k) * int d + int r * 2 ^ 24"
    by (rule scaled_bound) simp
  also have "\<dots> \<le> int (n * k) * int d + int d * 2 ^ 24" using rd by simp
  finally have "(\<bar>int w - int (n * k)\<bar> * 2 ^ 24) * int d \<le> (int (n * k) + 2 ^ 24) * int d" by (simp add: algebra_simps)
  then have b: "\<bar>int w - int (n * k)\<bar> * 2 ^ 24 \<le> int (n * k) + 2 ^ 24"
    by (rule mult_right_le_imp_le) (simp add: d)
  have "n * k \<le> 2 ^ 24 * 10 ^ 9" using assms(1) k by (intro mult_le_mono) simp_all
  moreover have "w < 2 ^ 63" if "\<bar>int w - int N\<bar> * 2 ^ 24 \<le> int N + 2 ^ 24" "N \<le> 2 ^ 24 * 10 ^ 9" for N
    using that by (simp add: abs_if split: if_splits)
  ultimately have "w < 2 ^ 63" using b by blast
  then have "unat (of_nat w :: u64) = w" "\<not> w \<ge> 2 ^ 64"
    by (simp_all add: unat_of_nat take_bit_nat_eq_self)
  then show ?thesis using b read ad w
    by (intro exI [of _ "of_nat w"]) (simp add: float_times_def del: of_nat_mult)
qed

lemma times_are_read_witness:
  "\<exists>w. string_to_nsec (\<lambda>_. None) (dec_nat 17 @ ''s'') = Inr w \<and>
       \<bar>int (unat w) - 17000000000\<bar> * 2 ^ 24 \<le> 17016777216"
  using times_are_read [of 17 "''s''" "10 ^ 9" "\<lambda>_. None"] by (simp add: get_multiplier_def c_tolower_def c_isupper_def c_code_def)

end
