(* ===== verification/Lexer.thy ===== *)
theory Lexer
  imports Prelude
begin

text \<open>
  From the text of a profile to its list of symbols (the first half of \<open>src/parse.c\<close>): the
  error list, \<open>next_token\<close>, \<open>token_type\<close>, \<open>get_symbol\<close> and the loop of \<open>parse\<close> that merges
  the pieces of a split \<open>name = value\<close>.

  The static pointer \<open>p\<close> of \<open>next_token\<close> is the rest of the text, passed on. A symbol says
  what its \<open>char *\<close> points at, because \<open>parse\<close> frees it: the start of a heap block
  (\<open>Owned\<close>), the inside of one behind the \<open>=\<close> that \<open>get_symbol\<close> found (\<open>Interior\<close>), or the
  environment (\<open>Env\<close>, with the variable's name).
\<close>

section \<open>Errors\<close>

type_synonym errs = "string list"

definition add_error :: "string \<Rightarrow> errs \<Rightarrow> c_stop + errs" where
  \<comment> \<open>\<open>parse_errors\<close> has 100 entries\<close>
  "add_error str errs =
     (if length errs > 100 then Inl (Exited 1)
      else if length errs = 100 then Inl Undefined
      else Inr (errs @ [str]))"

lemma add_error_Inr: "add_error m errs = Inr e \<Longrightarrow> e = errs @ [m] \<and> length e \<le> 100"
  by (auto simp: add_error_def split: if_splits)

section \<open>Tokens\<close>

datatype token_kind =
    TOKEN_PROFILE_START | TOKEN_PROFILE_END | TOKEN_GROUP_START | TOKEN_GROUP_END
  | TOKEN_TXN_START | TOKEN_TXN_END | TOKEN_FLOWOP_START | TOKEN_XML_END | TOKEN_NAME
  | TOKEN_ITERATIONS | TOKEN_TYPE | TOKEN_OPTIONS | TOKEN_DURATION | TOKEN_NTHREADS
  | TOKEN_NPROCESSES | TOKEN_RATE | TOKEN_ERROR

definition tlist :: "(token_kind \<times> string) list" where
  "tlist =
     [(TOKEN_PROFILE_START, ''<profile''), (TOKEN_PROFILE_END, ''</profile>''),
      (TOKEN_GROUP_START, ''<group''), (TOKEN_GROUP_END, ''</group>''),
      (TOKEN_TXN_START, ''<transaction''), (TOKEN_TXN_END, ''</transaction''),
      (TOKEN_FLOWOP_START, ''<flowop''), (TOKEN_XML_END, ''/>''), (TOKEN_NAME, ''name=''),
      (TOKEN_ITERATIONS, ''iterations=''), (TOKEN_TYPE, ''type=''),
      (TOKEN_OPTIONS, ''options=''), (TOKEN_DURATION, ''duration=''),
      (TOKEN_NTHREADS, ''nthreads=''), (TOKEN_NPROCESSES, ''nprocs=''),
      (TOKEN_RATE, ''rate='')]"

definition token_type :: "string \<Rightarrow> token_kind" where
  "token_type token =
     (case find (\<lambda>(t, tid). strneq0 (length tid) token tid) tlist of
        None \<Rightarrow> TOKEN_ERROR | Some (t, tid) \<Rightarrow> t)"

definition is_seperator :: "char \<Rightarrow> bool" where
  "is_seperator c = (c_code c < 33 \<and> c_code c > 0)"

fun skip_comment :: "char \<Rightarrow> char \<Rightarrow> string \<Rightarrow> string" where
  \<comment> \<open>\<open>a\<close> and \<open>b\<close> are \<open>*(p-2)\<close> and \<open>*(p-1)\<close>\<close>
  "skip_comment a b [] = []"
| "skip_comment a b (c # s) =
     (if c = CHR ''>'' \<and> b = CHR ''-'' \<and> a = CHR ''-'' then s else skip_comment b c s)"

fun skip_junk :: "char \<Rightarrow> string \<Rightarrow> string" where
  "skip_junk b [] = []"
| "skip_junk b (c # s) = (if c = CHR ''>'' \<and> b = CHR ''?'' then s else skip_junk c s)"

definition TOKEN_MAX :: nat where "TOKEN_MAX = 1024"

fun quoted :: "nat \<Rightarrow> string \<Rightarrow> string \<times> string" where
  \<comment> \<open>the loop up to the closing quote; \<open>i\<close> characters are in \<open>symbol\<close>\<close>
  "quoted i [] = ([], [])"
| "quoted i (c # s) =
     (if c = CHR 0x22 \<or> i \<ge> TOKEN_MAX then ([], c # s)
      else let (t, r) = quoted (i + 1) s
           in (c_tolower (if c = CHR 0x0A \<or> c = CHR 0x0D then CHR '' '' else c) # t, r))"

definition drop_quote :: "string \<Rightarrow> string" where
  "drop_quote s = (if s \<noteq> [] \<and> hd s = CHR 0x22 then tl s else s)"

fun symbol_chars :: "nat \<Rightarrow> string \<Rightarrow> string \<times> string" where
  \<comment> \<open>the last loop of \<open>next_token\<close>: the characters stored and the new \<open>p\<close>\<close>
  "symbol_chars i [] = ([], [])"
| "symbol_chars i (c # s) =
     (if is_seperator c \<or> i \<ge> TOKEN_MAX then ([], c # s)
      else if c = CHR 0x22 then (let (t, r) = quoted i s in (t, drop_quote r))
      else let (t, r) = symbol_chars (i + 1) s in (c_tolower c # t, r))"

lemma length_skip_comment: "length (skip_comment a b s) \<le> length s"
  by (induction a b s rule: skip_comment.induct) auto

lemma length_skip_junk: "length (skip_junk b s) \<le> length s"
  by (induction b s rule: skip_junk.induct) auto

text \<open>
  After the first character nothing shorter than the opening \<open><!\<close> or \<open><?\<close> is skipped, so the
  recursive call has less text.
\<close>

lemma skip_comment_less: "c \<noteq> CHR ''>'' \<Longrightarrow> s = c # t \<Longrightarrow> t \<noteq> [] \<Longrightarrow> length (skip_comment a b s) < length s"
  using length_skip_comment [of b c t] by (simp add: less_Suc_eq_le)

lemma skip_junk_less: "c \<noteq> CHR ''>'' \<Longrightarrow> s = c # t \<Longrightarrow> length (skip_junk b s) < length s"
  using length_skip_junk [of c t] by (simp add: less_Suc_eq_le)

function next_token :: "string \<Rightarrow> errs \<Rightarrow> c_stop + string option \<times> string \<times> errs" where
  "next_token p errs =
     (let p = dropWhile is_seperator p in
      if p = [] then Inr (None, p, errs)
      else if strneq0 4 p ''<!--'' then next_token (skip_comment NUL NUL p) errs
      else if strneq0 2 p ''<?'' then next_token (skip_junk NUL p) errs
      else let (t, r) = symbol_chars 0 p in
        if length t < TOKEN_MAX then Inr (Some t, r, errs)
        else cbind (add_error ''token too long.'' errs) (\<lambda>errs. Inr (None, r, errs)))"
  by pat_completeness auto
termination
proof (relation "measure (\<lambda>(p, errs). length p)"; clarsimp)
  fix p :: string
  let ?p = "dropWhile is_seperator p"
  have le: "length ?p \<le> length p" by (rule length_dropWhile_le)
  { assume "strneq0 4 ?p ''<!--''"
    then obtain r where r: "?p = CHR ''<'' # CHR ''!'' # r"
      by (cases ?p; cases "tl ?p") (auto simp: strneq0_def)
    with skip_comment_less [of "CHR ''<''" ?p "CHR ''!'' # r" NUL NUL] le
    show "length (skip_comment NUL NUL ?p) < length p" by simp }
  { assume "strneq0 2 ?p ''<?''"
    then obtain r where r: "?p = CHR ''<'' # r" by (cases ?p) (auto simp: strneq0_def)
    with skip_junk_less [of "CHR ''<''" ?p r NUL] le
    show "length (skip_junk NUL ?p) < length p" by simp }
qed

declare next_token.simps [simp del]

section \<open>Symbols\<close>

datatype origin = Owned | Interior | Env string

record symbol =
  sy_text :: string
  sy_type :: token_kind
  sy_origin :: origin

definition get_symbol :: "(string \<Rightarrow> string option) \<Rightarrow> string \<Rightarrow> errs \<Rightarrow> c_stop + (string \<times> origin) \<times> errs" where
  \<comment> \<open>\<open>s\<close> is the start of a heap block\<close>
  "get_symbol env s errs =
     (let eq = (CHR ''='' \<in> set s);
          v = (if eq then tl (dropWhile (\<lambda>c. c \<noteq> CHR ''='') s) else s);
          o' = (if eq then Interior else Owned)
      in if v \<noteq> [] \<and> hd v = CHR ''$'' then
           (case env (tl v) of
              Some e \<Rightarrow> if e = [] then cbind (add_error (strlcpy 1024 (v @ '' is not set'')) errs) (\<lambda>errs. Inr ((v, o'), errs))
                        else Inr ((e, Env (tl v)), errs)
            | None \<Rightarrow> cbind (add_error (strlcpy 1024 (v @ '' is not set'')) errs) (\<lambda>errs. Inr ((v, o'), errs)))
         else Inr ((v, o'), errs))"

definition ends_eq :: "symbol option \<Rightarrow> c_stop + bool" where
  \<comment> \<open>\<open>pt[strlen(pt) - 1] == '='\<close>: behind an empty interior pointer lies the \<open>=\<close>; in front of
     a block there is nothing to read; without a current symbol \<open>pt\<close> is \<open>"START"\<close>\<close>
  "ends_eq cur =
     (case cur of
        None \<Rightarrow> Inr False
      | Some sy \<Rightarrow>
          if sy_text sy \<noteq> [] then Inr (last (sy_text sy) = CHR ''='')
          else (case sy_origin sy of Interior \<Rightarrow> Inr True | _ \<Rightarrow> Inl Undefined))"

definition must_merge :: "symbol option \<Rightarrow> string \<Rightarrow> c_stop + bool" where
  "must_merge cur token =
     (if token \<noteq> [] \<and> hd token = CHR ''='' then Inr True
      else cbind (ends_eq cur) (\<lambda>e.
        Inr (e \<or> (case cur of None \<Rightarrow> False | Some sy \<Rightarrow> sy_text sy = ''</'' \<or> sy_text sy = ''<''))))"

definition merge_symbol :: "(string \<Rightarrow> string option) \<Rightarrow> symbol option \<Rightarrow> string \<Rightarrow> errs \<Rightarrow> c_stop + symbol \<times> errs" where
  \<comment> \<open>only the start of a heap block can be freed\<close>
  "merge_symbol env cur token errs =
     (case cur of
        None \<Rightarrow> Inl Undefined
      | Some sy \<Rightarrow>
          if sy_origin sy \<noteq> Owned then Inl Undefined
          else let sym = strlcpy 1024 (sy_text sy @ token) in
            cbind (get_symbol env sym errs) (\<lambda>((v, o'), errs).
              Inr (\<lparr>sy_text = v, sy_type = token_type sym, sy_origin = o'\<rparr>, errs)))"

definition new_symbol :: "(string \<Rightarrow> string option) \<Rightarrow> string \<Rightarrow> errs \<Rightarrow> c_stop + symbol \<times> errs" where
  "new_symbol env token errs =
     (let t = token_type token in
      if t \<noteq> TOKEN_ERROR then
        cbind (get_symbol env token errs) (\<lambda>((v, o'), errs). Inr (\<lparr>sy_text = v, sy_type = t, sy_origin = o'\<rparr>, errs))
      else Inr (\<lparr>sy_text = token, sy_type = t, sy_origin = Owned\<rparr>, errs))"

definition parse_token :: "(string \<Rightarrow> string option) \<Rightarrow> string \<Rightarrow> symbol list \<Rightarrow> errs \<Rightarrow> c_stop + symbol list \<times> errs" where
  \<comment> \<open>the body of the loop; \<open>cur\<close> is the last symbol of the list\<close>
  "parse_token env token syms errs =
     (let cur = (if syms = [] then None else Some (last syms)) in
      if token = ''>'' then Inr (syms, errs)
      else cbind (must_merge cur token) (\<lambda>merge.
        if merge then cbind (merge_symbol env cur token errs) (\<lambda>(sy, errs). Inr (butlast syms @ [sy], errs))
        else cbind (new_symbol env token errs) (\<lambda>(sy, errs). Inr (syms @ [sy], errs))))"

section \<open>A token consumes text\<close>

lemma length_quoted: "length (snd (quoted i s)) \<le> length s"
  by (induction i s rule: quoted.induct) (auto simp: Let_def split: prod.splits)

lemma length_drop_quote: "length (drop_quote s) \<le> length s"
  by (simp add: drop_quote_def)

lemma length_symbol_chars: "length (snd (symbol_chars i s)) \<le> length s"
proof (induction i s rule: symbol_chars.induct)
  case (2 i c s)
  then show ?case
    using length_quoted [of i s] length_drop_quote [of "snd (quoted i s)"]
    by (auto simp: Let_def split: prod.splits)
qed simp

lemma symbol_chars_less:
  "i < TOKEN_MAX \<Longrightarrow> \<not> is_seperator c \<Longrightarrow> length (snd (symbol_chars i (c # s))) < length (c # s)"
  using length_symbol_chars [of "Suc i" s] length_quoted [of i s] length_drop_quote [of "snd (quoted i s)"]
  by (auto simp: Let_def split: prod.splits)

lemma strneq0_nonempty: "strneq0 n s (c # t) \<Longrightarrow> 0 < n \<Longrightarrow> s \<noteq> []"
  by (auto simp: strneq0_def)

lemma next_token_cases:
  assumes "dropWhile is_seperator p = q"
  shows "q = [] \<Longrightarrow> next_token p errs = Inr (None, [], errs)"
    "strneq0 4 q ''<!--'' \<Longrightarrow> next_token p errs = next_token (skip_comment NUL NUL q) errs"
    "\<not> strneq0 4 q ''<!--'' \<Longrightarrow> strneq0 2 q ''<?'' \<Longrightarrow> next_token p errs = next_token (skip_junk NUL q) errs"
    "q \<noteq> [] \<Longrightarrow> \<not> strneq0 4 q ''<!--'' \<Longrightarrow> \<not> strneq0 2 q ''<?'' \<Longrightarrow> next_token p errs =
      (let (t, r) = symbol_chars 0 q in
        if length t < TOKEN_MAX then Inr (Some t, r, errs)
        else cbind (add_error ''token too long.'' errs) (\<lambda>errs. Inr (None, r, errs)))"
  using assms strneq0_nonempty [of 4 q "CHR ''<''" "''!--''"] strneq0_nonempty [of 2 q "CHR ''<''" "''?''"]
  by (subst next_token.simps, simp add: Let_def del: dropWhile_eq_Nil_conv)+

lemma next_token_less: "next_token p errs = Inr (Some t, r, errs') \<Longrightarrow> length r < length p"
proof (induction p errs rule: next_token.induct)
  case (1 p errs)
  let ?p = "dropWhile is_seperator p"
  have le: "length ?p \<le> length p" by (rule length_dropWhile_le)
  consider "?p = []" | "strneq0 4 ?p ''<!--''" | "strneq0 2 ?p ''<?''" | c s where
      "?p = c # s" "\<not> strneq0 4 ?p ''<!--''" "\<not> strneq0 2 ?p ''<?''"
    by (cases ?p) auto
  then show ?case
  proof cases
    case 1
    with "1.prems" show ?thesis by (simp add: next_token.simps)
  next
    case 2
    then have "?p \<noteq> []" by (rule strneq0_nonempty) simp
    moreover from 2 "1.prems" have "next_token (skip_comment NUL NUL ?p) errs = Inr (Some t, r, errs')"
      by (simp only: next_token_cases(2) [OF refl])
    ultimately have "length r < length (skip_comment NUL NUL ?p)" by (rule "1.IH"(1) [OF refl _ 2])
    with length_skip_comment [of NUL NUL ?p] le show ?thesis by simp
  next
    case 3
    then have "?p \<noteq> []" by (rule strneq0_nonempty) simp
    moreover from 3 this have "\<not> strneq0 4 ?p ''<!--''"
      by (cases ?p; cases "tl ?p") (auto simp: strneq0_def)
    ultimately have ne: "?p \<noteq> []" and nc: "\<not> strneq0 4 ?p ''<!--''" by simp_all
    from next_token_cases(3) [OF refl nc 3, of errs] "1.prems"
    have "next_token (skip_junk NUL ?p) errs = Inr (Some t, r, errs')" by simp
    with "1.IH"(2) [OF refl ne nc 3] have "length r < length (skip_junk NUL ?p)" .
    with length_skip_junk [of NUL ?p] le show ?thesis by simp
  next
    case (4 c s)
    then have "\<not> is_seperator c" using hd_dropWhile [of is_seperator p] by simp
    then have "length (snd (symbol_chars 0 (c # s))) < length (c # s)"
      by (intro symbol_chars_less) (simp_all add: TOKEN_MAX_def)
    with 4 "1.prems" le next_token_cases(4) [OF 4(1), of errs] show ?thesis
      by (auto simp: Let_def cbind_Inr simp del: symbol_chars.simps split: if_splits prod.splits)
  qed
qed

function parse_loop :: "(string \<Rightarrow> string option) \<Rightarrow> string \<Rightarrow> string \<Rightarrow> symbol list \<Rightarrow> errs \<Rightarrow> c_stop + symbol list \<times> errs" where
  \<comment> \<open>the \<open>do while\<close> loop, on a token that was read\<close>
  "parse_loop env token p syms errs =
     cbind (parse_token env token syms errs) (\<lambda>(syms, errs).
       (case next_token p errs of
          Inl stop \<Rightarrow> Inl stop
        | Inr (None, r, errs) \<Rightarrow> Inr (syms, errs)
        | Inr (Some t, r, errs) \<Rightarrow> parse_loop env t r syms errs))"
  by pat_completeness auto
termination
  by (relation "measure (\<lambda>(env, t, p, syms, errs). length p)") (auto dest: next_token_less)

declare parse_loop.simps [simp del]

definition parse :: "(string \<Rightarrow> string option) \<Rightarrow> string \<Rightarrow> c_stop + symbol list \<times> int \<times> errs" where
  \<comment> \<open>the list after its head \<open>"START"\<close>, what \<open>parse\<close> returns, and the errors so far\<close>
  "parse env buffer =
     cbind (next_token buffer []) (\<lambda>(token, p, errs).
       case token of
         None \<Rightarrow> Inr ([], 1, errs)
       | Some t \<Rightarrow> cbind (parse_loop env t p [] errs) (\<lambda>(syms, errs). Inr (syms, 0, errs)))"


section \<open>Text in the documented form\<close>

text \<open>
  The pieces a profile is written from: a word (\<open><group\<close>, \<open>></\<close>, \<open>/></\<close>, \<open></group>\<close>) and an
  attribute \<open>key="value"\<close>. A word is followed by a newline, an attribute by nothing.
\<close>

datatype item = Word string | Attr string string

fun item_text :: "item \<Rightarrow> string" where
  "item_text (Word w) = w @ [CHR 0x0A]"
| "item_text (Attr k v) = k @ CHR ''='' # CHR 0x22 # v @ [CHR 0x22]"

fun item_token :: "item \<Rightarrow> string" where
  "item_token (Word w) = w"
| "item_token (Attr k v) = k @ CHR ''='' # v"

definition plain_char :: "char \<Rightarrow> bool" where
  "plain_char c = (c_tolower c = c \<and> \<not> is_seperator c \<and> c \<noteq> CHR 0x22 \<and> c \<noteq> CHR ''='' \<and> c \<noteq> NUL)"

definition value_char :: "char \<Rightarrow> bool" where
  "value_char c = (c_tolower c = c \<and> c \<noteq> CHR 0x0A \<and> c \<noteq> CHR 0x0D \<and> c \<noteq> CHR 0x22 \<and> c \<noteq> NUL)"

fun item_ok :: "item \<Rightarrow> bool" where
  "item_ok (Word w) =
     (w \<noteq> [] \<and> list_all plain_char w \<and> length w < TOKEN_MAX \<and> \<not> strneq0 4 w ''<!--'' \<and>
      \<not> strneq0 2 w ''<?'' \<and> w \<noteq> ''<'' \<and> w \<noteq> ''</'' \<and> hd w \<noteq> CHR ''$'')"
| "item_ok (Attr k v) =
     (k \<noteq> [] \<and> list_all plain_char k \<and> hd k \<noteq> CHR ''<'' \<and> v \<noteq> [] \<and> list_all value_char v \<and>
      length k + length v + 1 < TOKEN_MAX \<and> hd v \<noteq> CHR ''$'' \<and> last v \<noteq> CHR ''='' \<and>
      v \<noteq> ''<'' \<and> v \<noteq> ''</'' \<and> token_type (k @ CHR ''='' # v) \<noteq> TOKEN_ERROR)"

definition render :: "item list \<Rightarrow> string" where
  "render items = concat (map item_text items)"

fun item_symbol :: "item \<Rightarrow> symbol" where
  "item_symbol (Word w) = \<lparr>sy_text = w, sy_type = token_type w, sy_origin = Owned\<rparr>"
| "item_symbol (Attr k v) =
     \<lparr>sy_text = v, sy_type = token_type (k @ CHR ''='' # v), sy_origin = Interior\<rparr>"

lemma symbol_chars_plain:
  "list_all plain_char w \<Longrightarrow> i + length w \<le> TOKEN_MAX \<Longrightarrow>
   symbol_chars i (w @ s) = (let (t, r) = symbol_chars (i + length w) s in (w @ t, r))"
proof (induction w arbitrary: i)
  case (Cons c w)
  from Cons.IH [of "Suc i"] Cons.prems show ?case
    by (auto simp: Let_def plain_char_def split: prod.splits)
qed (simp split: prod.splits)

lemma quoted_value:
  "list_all value_char v \<Longrightarrow> i + length v \<le> TOKEN_MAX \<Longrightarrow> quoted i (v @ CHR 0x22 # s) = (v, CHR 0x22 # s)"
proof (induction v arbitrary: i)
  case (Cons c v)
  from Cons.IH [of "Suc i"] Cons.prems show ?case by (auto simp: value_char_def)
qed simp

lemma symbol_chars_stop: "i < TOKEN_MAX \<Longrightarrow> is_seperator c \<Longrightarrow> symbol_chars i (c # s) = ([], c # s)"
  by simp

lemma newline_sep: "is_seperator (CHR 0x0A)"
  by (simp add: is_seperator_def c_code_def)

lemma eq_quote_char: "\<not> is_seperator (CHR ''='')" "c_tolower (CHR ''='') = CHR ''=''" "\<not> is_seperator (CHR 0x22)"
  by (simp_all add: is_seperator_def c_code_def c_tolower_def c_isupper_def)

lemma symbol_chars_item:
  assumes "item_ok i"
  shows "symbol_chars 0 (item_text i @ s) =
    (item_token i, (case i of Word w \<Rightarrow> CHR 0x0A # s | Attr k v \<Rightarrow> s))"
proof (cases i)
  case (Word w)
  with assms symbol_chars_plain [of w 0 "CHR 0x0A # s"] newline_sep show ?thesis by simp
next
  case (Attr k v)
  with assms have k: "list_all plain_char k" "length k + length v + 1 < TOKEN_MAX" and v: "list_all value_char v" by auto
  from quoted_value [OF v, of "Suc (length k)" s] k
  have "symbol_chars (length k) (CHR ''='' # CHR 0x22 # v @ CHR 0x22 # s) = (CHR ''='' # v, s)"
    by (simp add: eq_quote_char drop_quote_def)
  with symbol_chars_plain [of k 0 "CHR ''='' # CHR 0x22 # v @ CHR 0x22 # s"] k Attr show ?thesis by simp
qed

lemma strneq0_word: "c \<notin> set lit \<Longrightarrow> strneq0 n (w @ c # s) lit \<Longrightarrow> strneq0 n w lit"
proof (cases "n \<le> length w")
  case False
  assume "c \<notin> set lit" and eq: "strneq0 n (w @ c # s) lit"
  from False have "c \<in> set (take n (w @ c # s))" by (simp add: take_Cons')
  with eq have "c \<in> set (take n lit)" unfolding strneq0_def by simp
  then have "c \<in> set lit" by (rule in_set_takeD)
  with \<open>c \<notin> set lit\<close> show ?thesis by simp
qed (simp add: strneq0_def)

lemma item_text_first:
  assumes "item_ok i"
  shows "\<exists>c t. item_text i @ s = c # t \<and> \<not> is_seperator c \<and>
    \<not> strneq0 4 (item_text i @ s) ''<!--'' \<and> \<not> strneq0 2 (item_text i @ s) ''<?''"
proof (cases i)
  case (Word w)
  with assms obtain c t where w: "w = c # t" "\<not> is_seperator c" by (cases w) (auto simp: plain_char_def)
  moreover have "\<not> strneq0 4 (w @ CHR 0x0A # s) ''<!--''" "\<not> strneq0 2 (w @ CHR 0x0A # s) ''<?''"
    using assms Word strneq0_word [of "CHR 0x0A" "''<!--''" 4 w s] strneq0_word [of "CHR 0x0A" "''<?''" 2 w s] by auto
  ultimately show ?thesis using Word by simp
next
  case (Attr k v)
  with assms obtain c t where k: "k = c # t" "\<not> is_seperator c" "c \<noteq> CHR ''<''" by (cases k) (auto simp: plain_char_def)
  then show ?thesis using Attr by (auto simp: strneq0_def)
qed

lemma length_item_token: "item_ok i \<Longrightarrow> length (item_token i) < TOKEN_MAX"
  by (cases i) auto

lemma next_token_sep: "is_seperator c \<Longrightarrow> next_token (c # s) errs = next_token s errs"
  by (simp add: next_token.simps [of "c # s"] next_token.simps [of s])

lemma next_token_item:
  assumes "item_ok i"
  shows "next_token (item_text i @ s) errs =
    Inr (Some (item_token i), (case i of Word w \<Rightarrow> CHR 0x0A # s | Attr k v \<Rightarrow> s), errs)"
proof -
  from item_text_first [OF assms, of s] obtain c t where
    ct: "item_text i @ s = c # t" "\<not> is_seperator c" "\<not> strneq0 4 (c # t) ''<!--''" "\<not> strneq0 2 (c # t) ''<?''" by auto
  then have "dropWhile is_seperator (item_text i @ s) = c # t" by simp
  from next_token_cases(4) [OF this, of errs] ct symbol_chars_item [OF assms, of s] length_item_token [OF assms]
  show ?thesis by (simp del: symbol_chars.simps)
qed


lemma next_token_end: "next_token [] errs = Inr (None, [], errs)" "next_token [CHR 0x0A] errs = Inr (None, [], errs)"
  using newline_sep by (simp_all add: next_token_cases(1))

lemma next_token_after:
  "next_token (case i of Word w \<Rightarrow> CHR 0x0A # s | Attr k v \<Rightarrow> s) errs = next_token s errs"
  using next_token_sep [OF newline_sep] by (cases i) simp_all

lemma item_token_plain: "item_ok i \<Longrightarrow> item_token i \<noteq> [] \<and> hd (item_token i) \<noteq> CHR ''=''"
proof (cases i)
  case (Word w)
  assume "item_ok i"
  with Word show ?thesis by (cases w) (simp_all add: plain_char_def)
next
  case (Attr k v)
  assume "item_ok i"
  with Attr show ?thesis by (cases k) (simp_all add: plain_char_def)
qed

lemma item_no_merge: "item_ok i \<Longrightarrow> ends_eq (Some (item_symbol i)) = Inr False \<and>
    sy_text (item_symbol i) \<noteq> ''<'' \<and> sy_text (item_symbol i) \<noteq> ''</''"
proof (cases i)
  case (Word w)
  assume i: "item_ok i"
  with Word have "last w \<in> set w" by simp
  with i Word have "last w \<noteq> CHR ''=''" by (auto simp: list_all_iff plain_char_def)
  with i Word show ?thesis by (simp add: ends_eq_def)
qed (simp add: ends_eq_def)

lemma get_symbol_plain: "CHR ''='' \<notin> set w \<Longrightarrow> w = [] \<or> hd w \<noteq> CHR ''$'' \<Longrightarrow> get_symbol env w errs = Inr ((w, Owned), errs)"
  by (auto simp: get_symbol_def)

lemma get_symbol_value: "CHR ''='' \<notin> set k \<Longrightarrow> v \<noteq> [] \<Longrightarrow> hd v \<noteq> CHR ''$'' \<Longrightarrow>
    get_symbol env (k @ CHR ''='' # v) errs = Inr ((v, Interior), errs)"
proof -
  assume k: "CHR ''='' \<notin> set k" and v: "v \<noteq> []" "hd v \<noteq> CHR ''$''"
  from k have "dropWhile (\<lambda>c. c \<noteq> CHR ''='') (k @ CHR ''='' # v) = CHR ''='' # v" by (subst dropWhile_append2) auto
  with v show ?thesis by (simp add: get_symbol_def)
qed

lemma new_symbol_item: "item_ok i \<Longrightarrow> new_symbol env (item_token i) errs = Inr (item_symbol i, errs)"
proof (cases i)
  case (Word w)
  assume i: "item_ok i"
  with Word have "CHR ''='' \<notin> set w" by (auto simp: list_all_iff plain_char_def)
  with i Word show ?thesis by (simp add: new_symbol_def Let_def get_symbol_plain)
next
  case (Attr k v)
  assume i: "item_ok i"
  with Attr have "CHR ''='' \<notin> set k" by (auto simp: list_all_iff plain_char_def)
  with i Attr show ?thesis by (simp add: new_symbol_def Let_def get_symbol_value)
qed

definition quiet :: "symbol list \<Rightarrow> bool" where
  \<comment> \<open>the last symbol does not ask for a merge\<close>
  "quiet syms = (syms = [] \<or> (ends_eq (Some (last syms)) = Inr False \<and>
     sy_text (last syms) \<noteq> ''<'' \<and> sy_text (last syms) \<noteq> ''</''))"

lemma parse_token_item:
  assumes "item_ok i" and "quiet syms"
  shows "parse_token env (item_token i) syms errs =
      Inr (if item_token i = ''>'' then syms else syms @ [item_symbol i], errs)"
    and "quiet (if item_token i = ''>'' then syms else syms @ [item_symbol i])"
  using assms item_token_plain [OF assms(1)] item_no_merge [OF assms(1)] new_symbol_item [OF assms(1), of env errs]
  by (auto simp: parse_token_def must_merge_def quiet_def Let_def ends_eq_def [of None])

definition item_symbols :: "item list \<Rightarrow> symbol list" where
  "item_symbols items = map item_symbol (filter (\<lambda>i. item_token i \<noteq> ''>'') items)"

lemma parse_loop_items:
  "item_ok i \<Longrightarrow> list_all item_ok items \<Longrightarrow> quiet syms \<Longrightarrow>
   parse_loop env (item_token i) (case i of Word w \<Rightarrow> CHR 0x0A # render items | Attr k v \<Rightarrow> render items) syms errs =
     Inr (syms @ item_symbols (i # items), errs)"
proof (induction items arbitrary: i syms)
  case Nil
  then show ?case
    using parse_token_item(1) [OF Nil(1,3), of env errs] next_token_end [of errs]
    by (subst parse_loop.simps) (auto simp: render_def item_symbols_def split: item.split)
next
  case (Cons j items)
  then have j: "item_ok j" and items: "list_all item_ok items" by auto
  have nx: "next_token (case i of Word w \<Rightarrow> CHR 0x0A # render (j # items) | Attr k v \<Rightarrow> render (j # items)) errs =
      Inr (Some (item_token j), (case j of Word w \<Rightarrow> CHR 0x0A # render items | Attr k v \<Rightarrow> render items), errs)"
    using next_token_after [where i = i and s = "render (j # items)" and errs = errs] next_token_item [OF j, of "render items" errs]
    by (cases i) (simp_all add: render_def)
  from parse_token_item(1) [OF Cons.prems(1,3), of env errs] parse_token_item(2) [OF Cons.prems(1,3)] Cons.IH [OF j items] nx show ?case
    by (subst parse_loop.simps) (auto simp: item_symbols_def)
qed

lemma parse_items:
  assumes "list_all item_ok items" and "items \<noteq> []"
  shows "parse env (render items) = Inr (item_symbols items, 0, [])"
proof -
  from assms obtain i js where i: "items = i # js" "item_ok i" "list_all item_ok js" by (cases items) auto
  from next_token_item [OF i(2), of "render js" "[]"]
  have "next_token (render items) [] = Inr (Some (item_token i), (case i of Word w \<Rightarrow> CHR 0x0A # render js | Attr k v \<Rightarrow> render js), [])"
    by (simp add: i(1) render_def)
  with parse_loop_items [OF i(2,3), of "[]" env "[]"] i(1) show ?thesis by (simp add: parse_def quiet_def)
qed


text \<open>The last word needs no newline behind it.\<close>

lemma next_token_last:
  assumes "item_ok (Word w)"
  shows "next_token w errs = Inr (Some w, [], errs)"
proof -
  from assms obtain c t where w: "w = c # t" "\<not> is_seperator c" by (cases w) (auto simp: plain_char_def)
  then have "dropWhile is_seperator w = w" by simp
  moreover have "symbol_chars 0 w = (w, [])" using assms symbol_chars_plain [of w 0 "[]"] by simp
  ultimately show ?thesis using next_token_cases(4) [of w w errs] assms by simp
qed

lemma parse_loop_last:
  "item_ok i \<Longrightarrow> list_all item_ok items \<Longrightarrow> item_ok (Word w) \<Longrightarrow> w \<noteq> ''>'' \<Longrightarrow> quiet syms \<Longrightarrow>
   parse_loop env (item_token i) (case i of Word w' \<Rightarrow> CHR 0x0A # render items @ w | Attr k v \<Rightarrow> render items @ w) syms errs =
     Inr (syms @ item_symbols (i # items) @ [item_symbol (Word w)], errs)"
proof (induction items arbitrary: i syms)
  case Nil
  let ?s = "if item_token i = ''>'' then syms else syms @ [item_symbol i]"
  have "parse_loop env w [] ?s errs = Inr (?s @ [item_symbol (Word w)], errs)"
    using parse_token_item(1) [OF Nil(3) parse_token_item(2) [OF Nil(1,5)], of env errs] next_token_end(1) [of errs] Nil(4)
    by (subst parse_loop.simps) simp
  moreover have "next_token (case i of Word w' \<Rightarrow> CHR 0x0A # render [] @ w | Attr k v \<Rightarrow> render [] @ w) errs = Inr (Some w, [], errs)"
    unfolding next_token_after using next_token_last [OF Nil(3)] by (simp add: render_def)
  ultimately show ?case
    using parse_token_item(1) [OF Nil(1,5), of env errs]
    by (subst parse_loop.simps) (auto simp: item_symbols_def)
next
  case (Cons j items)
  then have j: "item_ok j" and items: "list_all item_ok items" by auto
  have nx: "next_token (case i of Word w' \<Rightarrow> CHR 0x0A # render (j # items) @ w | Attr k v \<Rightarrow> render (j # items) @ w) errs =
      Inr (Some (item_token j), (case j of Word w' \<Rightarrow> CHR 0x0A # render items @ w | Attr k v \<Rightarrow> render items @ w), errs)"
    using next_token_after [where i = i and s = "render (j # items) @ w" and errs = errs] next_token_item [OF j, of "render items @ w" errs]
    by (cases i) (simp_all add: render_def)
  from parse_token_item(1) [OF Cons.prems(1,5), of env errs] parse_token_item(2) [OF Cons.prems(1,5)]
    Cons.IH [OF j items Cons.prems(3,4)] nx show ?case
    by (subst parse_loop.simps) (auto simp: item_symbols_def)
qed

lemma parse_items_last:
  assumes "list_all item_ok items" and "items \<noteq> []" and "item_ok (Word w)" and "w \<noteq> ''>''"
  shows "parse env (render items @ w) = Inr (item_symbols items @ [item_symbol (Word w)], 0, [])"
proof -
  from assms obtain i js where i: "items = i # js" "item_ok i" "list_all item_ok js" by (cases items) auto
  from next_token_item [OF i(2), of "render js @ w" "[]"]
  have "next_token (render items @ w) [] = Inr (Some (item_token i), (case i of Word w' \<Rightarrow> CHR 0x0A # render js @ w | Attr k v \<Rightarrow> render js @ w), [])"
    by (simp add: i(1) render_def)
  with parse_loop_last [OF i(2,3) assms(3,4), of "[]" env "[]"] i(1) show ?thesis by (simp add: parse_def quiet_def)
qed

lemma item_text_nul: "item_ok i \<Longrightarrow> NUL \<notin> set (item_text i)"
proof (cases i)
  case (Word w)
  assume "item_ok i"
  with Word have "\<forall>c \<in> set w. plain_char c" by (simp add: list_all_iff)
  then have "NUL \<notin> set w" unfolding plain_char_def by blast
  with Word show ?thesis by simp
next
  case (Attr k v)
  assume "item_ok i"
  with Attr have "\<forall>c \<in> set k. plain_char c" "\<forall>c \<in> set v. value_char c" by (simp_all add: list_all_iff)
  then have "NUL \<notin> set k" "NUL \<notin> set v" unfolding plain_char_def value_char_def by blast+
  with Attr show ?thesis by simp
qed

lemma render_nul: "list_all item_ok items \<Longrightarrow> NUL \<notin> set (render items)"
  using item_text_nul by (auto simp: render_def list_all_iff)

section \<open>Symbols hold text of the file or of the environment\<close>

lemma tolower_nul: "c_tolower c = NUL \<longleftrightarrow> c = NUL"
proof
  assume "c_tolower c = NUL"
  then have "c_code (c_tolower c) = 0" by (simp add: c_code_def)
  then have "c_code c = 0" by (auto simp: c_code_tolower split: if_splits)
  then have e: "of_char c = (0 :: nat)" by (simp only: c_code_def)
  have "c = char_of (of_char c :: nat)" by simp
  also have "\<dots> = char_of (0 :: nat)" by (simp only: e)
  also have "\<dots> = NUL" by code_simp
  finally show "c = NUL" .
qed (simp add: c_tolower_def c_isupper_def c_code_def)

lemma quoted_nul: "quoted i s = (t, r) \<Longrightarrow> NUL \<notin> set s \<Longrightarrow> NUL \<notin> set t \<and> NUL \<notin> set r"
proof (induction i s arbitrary: t r rule: quoted.induct)
  case (2 i c s)
  obtain t' r' where q: "quoted (i + 1) s = (t', r')" by fastforce
  from 2 q tolower_nul [of "if c = CHR 0x0A \<or> c = CHR 0x0D then CHR '' '' else c"] show ?case
    by (auto simp: Let_def split: if_splits)
qed simp

lemma symbol_chars_nul: "symbol_chars i s = (t, r) \<Longrightarrow> NUL \<notin> set s \<Longrightarrow> NUL \<notin> set t \<and> NUL \<notin> set r"
proof (induction i s arbitrary: t r rule: symbol_chars.induct)
  case (2 i c s)
  obtain t1 r1 where q: "quoted i s = (t1, r1)" by fastforce
  obtain t2 r2 where y: "symbol_chars (i + 1) s = (t2, r2)" by fastforce
  have d: "set (drop_quote x) \<subseteq> set x" for x by (auto simp: drop_quote_def dest: list.set_sel(2))
  show ?case
  proof (cases "is_seperator c \<or> i \<ge> TOKEN_MAX")
    case False
    show ?thesis
    proof (cases "c = CHR 0x22")
      case True
      with False "2.prems" q have "t = t1" "r = drop_quote r1" by (auto simp: Let_def)
      with quoted_nul [OF q] "2.prems" d [of r1] show ?thesis by auto
    next
      case nq: False
      with False "2.prems" y have "t = c_tolower c # t2" "r = r2" by (auto simp: Let_def)
      with "2.IH" [OF False nq] y "2.prems" tolower_nul [of c] show ?thesis by (metis list.set_intros set_ConsD)
    qed
  qed (use "2.prems" in auto)
qed simp

lemma skip_comment_nul: "NUL \<notin> set s \<Longrightarrow> NUL \<notin> set (skip_comment a b s)"
  by (induction a b s rule: skip_comment.induct) auto

lemma skip_junk_nul: "NUL \<notin> set s \<Longrightarrow> NUL \<notin> set (skip_junk b s)"
  by (induction b s rule: skip_junk.induct) auto

definition c_env :: "(string \<Rightarrow> string option) \<Rightarrow> bool" where
  \<comment> \<open>the environment holds C strings\<close>
  "c_env env = (\<forall>v e. env v = Some e \<longrightarrow> NUL \<notin> set e)"

lemma next_token_nul:
  "next_token p errs = Inr (tok, r, errs') \<Longrightarrow> NUL \<notin> set p \<Longrightarrow> NUL \<notin> set r \<and> (\<forall>t. tok = Some t \<longrightarrow> NUL \<notin> set t)"
proof (induction p errs rule: next_token.induct)
  case (1 p errs)
  let ?p = "dropWhile is_seperator p"
  have nul: "NUL \<notin> set ?p" using "1.prems"(2) by (auto dest: set_dropWhileD)
  consider "?p = []" | "?p \<noteq> []" "strneq0 4 ?p ''<!--''" | "?p \<noteq> []" "\<not> strneq0 4 ?p ''<!--''" "strneq0 2 ?p ''<?''"
    | "?p \<noteq> []" "\<not> strneq0 4 ?p ''<!--''" "\<not> strneq0 2 ?p ''<?''" by blast
  then show ?case
  proof cases
    case 1
    with "1.prems"(1) next_token_cases(1) [OF refl] show ?thesis by auto
  next
    case 2
    with "1.prems"(1) next_token_cases(2) [OF refl 2(2), of errs]
    have "next_token (skip_comment NUL NUL ?p) errs = Inr (tok, r, errs')" by simp
    with "1.IH"(1) [OF refl 2] skip_comment_nul [OF nul] show ?thesis by blast
  next
    case 3
    with "1.prems"(1) next_token_cases(3) [OF refl 3(2,3), of errs]
    have "next_token (skip_junk NUL ?p) errs = Inr (tok, r, errs')" by simp
    with "1.IH"(2) [OF refl 3] skip_junk_nul [OF nul] show ?thesis by blast
  next
    case 4
    obtain t r1 where sc: "symbol_chars 0 ?p = (t, r1)" by fastforce
    from symbol_chars_nul [OF sc nul] "1.prems"(1) next_token_cases(4) [OF refl 4, of errs] sc show ?thesis
      by (auto simp: cbind_Inr split: if_splits)
  qed
qed

lemma get_symbol_nul:
  assumes "get_symbol env s errs = Inr ((v, o'), errs')" and "NUL \<notin> set s" and "c_env env"
  shows "NUL \<notin> set v"
proof -
  let ?v = "if CHR ''='' \<in> set s then tl (dropWhile (\<lambda>c. c \<noteq> CHR ''='') s) else s"
  have tl: "set (tl x) \<subseteq> set x" for x :: string by (cases x) auto
  have "set (tl (dropWhile (\<lambda>c. c \<noteq> CHR ''='') s)) \<subseteq> set s"
    by (rule order_trans [OF tl]) (auto dest: set_dropWhileD)
  then have "NUL \<notin> set ?v" using assms(2) by auto
  moreover obtain V O' where V: "V = ?v" and O': "O' = (if CHR ''='' \<in> set s then Interior else Owned)" by simp
  have "get_symbol env s errs =
      (if V \<noteq> [] \<and> hd V = CHR ''$'' then
         (case env (tl V) of
            Some e \<Rightarrow> if e = [] then cbind (add_error (strlcpy 1024 (V @ '' is not set'')) errs) (\<lambda>errs. Inr ((V, O'), errs))
                      else Inr ((e, Env (tl V)), errs)
          | None \<Rightarrow> cbind (add_error (strlcpy 1024 (V @ '' is not set'')) errs) (\<lambda>errs. Inr ((V, O'), errs)))
       else Inr ((V, O'), errs))"
    unfolding V O' get_symbol_def Let_def ..
  with assms(1) have "v = V \<or> env (tl V) = Some v"
    by (cases "env (tl V)") (auto simp: cbind_Inr split: if_splits)
  ultimately show ?thesis using assms(3) unfolding V [symmetric] c_env_def by blast
qed

lemma parse_token_nul:
  assumes "parse_token env token syms errs = Inr (syms', errs')" and "NUL \<notin> set token"
    and "c_env env" and "\<forall>sy \<in> set syms. NUL \<notin> set (sy_text sy)"
  shows "(\<forall>sy \<in> set syms'. NUL \<notin> set (sy_text sy)) \<and> length syms' \<le> Suc (length syms)"
proof -
  let ?cur = "if syms = [] then None else Some (last syms)"
  have m: "NUL \<notin> set (sy_text sy)" if "merge_symbol env ?cur token errs = Inr (sy, e)" for sy e
  proof -
    from that obtain v o' e' where s: "syms \<noteq> []" "get_symbol env (strlcpy 1024 (sy_text (last syms) @ token)) errs = Inr ((v, o'), e')"
        "sy_text sy = v"
      by (auto simp: merge_symbol_def Let_def cbind_Inr split: if_splits)
    have "NUL \<notin> set (strlcpy 1024 (sy_text (last syms) @ token))"
      using s(1) assms(2,4) unfolding strlcpy_def by (auto dest: in_set_takeD)
    with get_symbol_nul [OF s(2)] assms(3) s(3) show ?thesis by blast
  qed
  have n: "NUL \<notin> set (sy_text sy)" if "new_symbol env token errs = Inr (sy, e)" for sy e
    using that assms(2) get_symbol_nul [of env token errs _ _ _, OF _ assms(2,3)]
    by (auto simp: new_symbol_def Let_def cbind_Inr split: if_splits)
  consider "syms' = syms" | sy e where "merge_symbol env ?cur token errs = Inr (sy, e)" "syms' = butlast syms @ [sy]"
    | sy e where "new_symbol env token errs = Inr (sy, e)" "syms' = syms @ [sy]"
  proof (cases "token = ''>''")
    case True
    with assms(1) that(1) show ?thesis by (simp add: parse_token_def Let_def)
  next
    case False
    with assms(1) obtain merge where "must_merge ?cur token = Inr merge"
      and k: "(if merge then cbind (merge_symbol env ?cur token errs) (\<lambda>(sy, errs). Inr (butlast syms @ [sy], errs))
               else cbind (new_symbol env token errs) (\<lambda>(sy, errs). Inr (syms @ [sy], errs))) = Inr (syms', errs')"
      unfolding parse_token_def Let_def by (simp only: if_False cbind_Inr) blast
    show ?thesis
    proof (cases merge)
      case True
      with k that(2) show ?thesis by (auto simp: cbind_Inr)
    next
      case False
      with k that(3) show ?thesis by (auto simp: cbind_Inr)
    qed
  qed
  then show ?thesis
  proof cases
    case 2
    with m assms(4) show ?thesis by (auto dest: in_set_butlastD)
  qed (use n assms(4) in auto)
qed

lemma parse_loop_nul:
  "parse_loop env token p syms errs = Inr (syms', errs') \<Longrightarrow> NUL \<notin> set token \<Longrightarrow> NUL \<notin> set p \<Longrightarrow>
   c_env env \<Longrightarrow> \<forall>sy \<in> set syms. NUL \<notin> set (sy_text sy) \<Longrightarrow>
   (\<forall>sy \<in> set syms'. NUL \<notin> set (sy_text sy)) \<and> length syms' \<le> Suc (length syms + length p)"
proof (induction "length p" arbitrary: token p syms errs rule: less_induct)
  case less
  from less.prems(1) obtain s1 e1 where t: "parse_token env token syms errs = Inr (s1, e1)"
    by (subst (asm) parse_loop.simps) (auto simp: cbind_Inr)
  note k = parse_token_nul [OF t less.prems(2,4,5)]
  from less.prems(1) t obtain tok r e2 where n: "next_token p e1 = Inr (tok, r, e2)"
    by (subst (asm) parse_loop.simps) (auto split: sum.splits)
  note nn = next_token_nul [OF n less.prems(3)]
  show ?case
  proof (cases tok)
    case None
    with less.prems(1) t n k show ?thesis by (subst (asm) parse_loop.simps) auto
  next
    case (Some w)
    from n Some have l: "length r < length p" by (auto dest: next_token_less)
    from less.prems(1) t n Some have "parse_loop env w r s1 e2 = Inr (syms', errs')"
      by (subst (asm) parse_loop.simps) simp
    from less.hyps [OF l this _ _ less.prems(4)] nn k Some l show ?thesis by auto
  qed
qed

lemma parse_nul:
  assumes "parse env buffer = Inr (syms, n, errs)" and "NUL \<notin> set buffer" and "c_env env"
  shows "(\<forall>sy \<in> set syms. NUL \<notin> set (sy_text sy)) \<and> length syms \<le> length buffer"
proof -
  from assms(1) obtain tok p e where n: "next_token buffer [] = Inr (tok, p, e)" by (auto simp: parse_def cbind_Inr)
  show ?thesis
  proof (cases tok)
    case None
    with n assms(1) show ?thesis by (auto simp: parse_def)
  next
    case (Some t)
    with n have l: "length p < length buffer" by (auto dest: next_token_less)
    from n Some assms(1) have "parse_loop env t p [] e = Inr (syms, errs)" by (auto simp: parse_def cbind_Inr)
    from parse_loop_nul [OF this _ _ assms(3)] next_token_nul [OF n assms(2)] Some l show ?thesis by auto
  qed
qed

end
