(* ===== verification/Sendfile.thy ===== *)
theory Sendfile
  imports Prelude
begin

text \<open>
  The files a sendfile flowop sends (\<open>src/sendfilev.c\<close>): the list of directories the profile
  names, filled when the option is parsed, and the transfer of one file picked at random, in
  the Linux configuration (\<open>Platforms\<close> has the others). \<open>ftw\<close>, \<open>rand\<close> and \<open>sendfile\<close> are parameters.
\<close>

section \<open>The list of directories\<close>

record file_list =
  fl_size :: int
  fl_fd :: int

record sfv_list =
  sv_nfiles :: nat
  sv_dir :: string
  sv_flist :: "file_list list"

text \<open>What \<open>ftw\<close> reports of a file, and what opening it gives.\<close>

record ftw_entry =
  fe_file :: bool
  fe_reg :: bool
  fe_size :: int
  fe_open :: int

definition add_file :: "ftw_entry \<Rightarrow> file_list list \<Rightarrow> file_list list" where
  \<comment> \<open>\<open>fhead\<close> before and after\<close>
  "add_file e fhead =
     (if \<not> fe_file e \<or> \<not> fe_reg e then fhead
      else if fe_open e < 0 then fhead
      else \<lparr>fl_size = fe_size e, fl_fd = fe_open e\<rparr> # fhead)"

definition find_sfv_list :: "sfv_list list \<Rightarrow> string \<Rightarrow> sfv_list option" where
  "find_sfv_list l dir = find (\<lambda>s. strneq0 PATHMAX (sv_dir s) dir) l"

definition add_sfv :: "sfv_list \<Rightarrow> sfv_list list \<Rightarrow> sfv_list list" where
  "add_sfv s l = (case l of [] \<Rightarrow> [s] | a # r \<Rightarrow> a # s # r)"

definition sendfile_init :: "(string \<Rightarrow> ftw_entry list \<times> int) \<Rightarrow> string \<Rightarrow> sfv_list list \<Rightarrow> c_stop + int \<times> sfv_list list" where
  "sendfile_init ftw dir l =
     (case find_sfv_list l dir of
        Some s \<Rightarrow> Inr (0, l)
      | None \<Rightarrow>
          (let (es, ret) = ftw dir; fhead = fold add_file es [] in
           if ret \<noteq> 0 then Inr (- 1, l)
           else if fhead = [] then Inl Aborted
           else Inr (0, add_sfv \<lparr>sv_nfiles = length fhead, sv_dir = strlcpy PATHMAX dir, sv_flist = fhead\<rparr> l)))"

section \<open>Sending a file\<close>

definition select_file :: "nat \<Rightarrow> sfv_list \<Rightarrow> nat" where
  \<comment> \<open>\<open>r\<close>: what \<open>rand\<close> returns\<close>
  "select_file r s = r mod sv_nfiles s"

text \<open>
  \<open>sf sock fd off count\<close> is \<open>sendfile\<close>: the number of bytes sent, or a negative number; it
  advances the offset by the bytes sent.
\<close>

partial_function (option) sendfile_chunks ::
  "(int \<Rightarrow> int \<Rightarrow> int \<Rightarrow> u64 \<Rightarrow> 's \<Rightarrow> int \<times> 's) \<Rightarrow> int \<Rightarrow> file_list \<Rightarrow> int \<Rightarrow> int \<Rightarrow> 's \<Rightarrow> (int \<times> 's) option" where
  "sendfile_chunks sf sock fl chunk_size off st =
     (if off < fl_size fl then
        (case sf sock (fl_fd fl) off (to_u64 chunk_size) st of
           (n, st) \<Rightarrow> if n < 0 then Some (- 1, st)
                      else sendfile_chunks sf sock fl chunk_size (off + n) st)
      else Some (fl_size fl, st))"

definition do_sendfile ::
  "(int \<Rightarrow> int \<Rightarrow> int \<Rightarrow> u64 \<Rightarrow> 's \<Rightarrow> int \<times> 's) \<Rightarrow> nat \<Rightarrow> sfv_list list \<Rightarrow> int \<Rightarrow> string \<Rightarrow> int \<Rightarrow> 's \<Rightarrow>
     (c_stop + int \<times> 's) option" where
  "do_sendfile sf r l sock dir chunk_size st =
     (case find_sfv_list l dir of
        None \<Rightarrow> Some (Inl Aborted)
      | Some s \<Rightarrow>
          let fl = sv_flist s ! select_file r s in
          if chunk_size = 0 then Some (Inr (sf sock (fl_fd fl) 0 (to_u64 (fl_size fl)) st))
          else map_option Inr (sendfile_chunks sf sock fl chunk_size 0 st))"

section \<open>Properties\<close>

definition sfv_ok :: "sfv_list list \<Rightarrow> bool" where
  "sfv_ok l = list_all (\<lambda>s. sv_flist s \<noteq> [] \<and> sv_nfiles s = length (sv_flist s) \<and> length (sv_dir s) < PATHMAX) l"

lemma strneq0_refl: "strneq0 n (strlcpy n dir) (strlcpy n dir)"
  by (simp add: strneq0_def)

lemma find_add_sfv: "sv_dir s = strlcpy PATHMAX dir \<Longrightarrow>
    \<exists>s'. find_sfv_list (add_sfv s l) (strlcpy PATHMAX dir) = Some s'"
  using strneq0_refl [of PATHMAX dir]
  by (cases l) (auto simp: find_sfv_list_def add_sfv_def split: option.split)

lemma sendfile_init_ok:
  "sfv_ok l \<Longrightarrow> sendfile_init ftw dir l = Inr (0, l') \<Longrightarrow> sfv_ok l'"
proof (cases "find_sfv_list l dir")
  case None
  assume l: "sfv_ok l" and i: "sendfile_init ftw dir l = Inr (0, l')"
  obtain es ret where ftw: "ftw dir = (es, ret)" by fastforce
  have "length (strlcpy PATHMAX dir) < PATHMAX" by (rule length_strlcpy) (simp add: PATHMAX_def)
  with None l i ftw show ?thesis
    by (cases l) (auto simp: sendfile_init_def sfv_ok_def add_sfv_def Let_def split: if_splits)
qed (auto simp: sendfile_init_def)

text \<open>
  Once the option was accepted, the flowop finds its directory, and picks an existing file of
  it, whatever \<open>rand\<close> returns.
\<close>

lemma select_file_in_range: "sfv_ok l \<Longrightarrow> find_sfv_list l dir = Some s \<Longrightarrow> select_file r s < length (sv_flist s)"
  by (auto simp: find_sfv_list_def sfv_ok_def list_all_iff select_file_def dest!: find_Some_in_set)

lemma sendfile_chunks_all:
  assumes "\<And>sock fd off c st. \<exists>n st'. sf sock fd off c st = (n, st') \<and> 0 < n"
  shows "0 \<le> off \<Longrightarrow> \<exists>st'. sendfile_chunks sf sock fl chunk_size off st = Some (fl_size fl, st')"
proof (induction "nat (fl_size fl - off)" arbitrary: off st rule: less_induct)
  case less
  show ?case
  proof (cases "off < fl_size fl")
    case True
    from assms [of sock "fl_fd fl" off "to_u64 chunk_size" st] obtain n st1
      where n: "sf sock (fl_fd fl) off (to_u64 chunk_size) st = (n, st1)" "0 < n" by auto
    with True less.hyps [of "off + n" st1] less.prems show ?thesis
      by (subst sendfile_chunks.simps) simp
  qed (subst sendfile_chunks.simps; simp)
qed

lemma sendfile_eof_hangs:
  assumes "\<And>off c st. sf sock (fl_fd fl) off c st = (0, st)" and "off < fl_size fl"
  shows "sendfile_chunks sf sock fl chunk_size off st = None"
proof (rule ccontr)
  let ?P = "\<lambda>(sf' :: int \<Rightarrow> int \<Rightarrow> int \<Rightarrow> u64 \<Rightarrow> 'a \<Rightarrow> int \<times> 'a) (sock' :: int) fl' (cs :: int) off (st :: 'a) (y :: int \<times> 'a).
    (\<forall>off c st. sf' sock' (fl_fd fl') off c st = (0, st)) \<longrightarrow> \<not> off < fl_size fl'"
  assume "sendfile_chunks sf sock fl chunk_size off st \<noteq> None"
  then obtain y where y: "sendfile_chunks sf sock fl chunk_size off st = Some y" by blast
  have "?P sf sock fl chunk_size off st y"
  proof (rule sendfile_chunks.raw_induct [of ?P, OF _ y])
    fix f sf sock fl chunk_size off st y
    assume ih: "\<And>sf sock fl chunk_size off st y. f sf sock fl chunk_size off st = Some y \<Longrightarrow> ?P sf sock fl chunk_size off st y"
      and step: "(if off < fl_size fl then
          (case sf sock (fl_fd fl) off (to_u64 chunk_size) st of
             (n, st) \<Rightarrow> if n < 0 then Some (- 1, st) else f sf sock fl chunk_size (off + n) st)
        else Some (fl_size fl, st)) = Some y"
    show "?P sf sock fl chunk_size off st y"
    proof (intro impI notI)
      assume z: "\<forall>off c st. sf sock (fl_fd fl) off c st = (0, st)" and off: "off < fl_size fl"
      with step have "f sf sock fl chunk_size off st = Some y" by simp
      from ih [OF this] z off show False by blast
    qed
  qed
  with assms show False by blast
qed

end
