(* ===== verification/Options.thy ===== *)
theory Options
  imports Layout Numbers Lexer Sendfile
begin

text \<open>
  The options of a flowop (\<open>src/parse.c\<close>, \<open>string2int\<close> to \<open>flowop_parse_options\<close>).

  What the parser changes beside the work order is a \<open>pstate\<close>: the environment, because
  \<open>strtok\<close> writes its NULs into the text \<open>getenv\<close> returned; the list of errors; and the
  directories of \<open>sendfilev.c\<close>. The parameters are the build configuration and \<open>ftw\<close>. The
  random generator's seed is left out.
\<close>

section \<open>State and errors\<close>

record pstate =
  pe_env :: "string \<Rightarrow> string option"
  pe_errs :: errs
  pe_sfv :: "sfv_list list"

definition perr :: "nat \<Rightarrow> string \<Rightarrow> pstate \<Rightarrow> c_stop + pstate" where
  \<comment> \<open>\<open>snprintf\<close> into a buffer of \<open>n\<close> bytes and \<open>add_error\<close>\<close>
  "perr n msg st = cbind (add_error (strlcpy n msg) (pe_errs st)) (\<lambda>e. Inr (st\<lparr>pe_errs := e\<rparr>))"

definition pfail :: "'a \<Rightarrow> string \<Rightarrow> pstate \<Rightarrow> c_stop + (int \<times> 'a) \<times> pstate" where
  \<comment> \<open>an error message of \<open>parse_option\<close> and its \<open>return (UPERF_FAILURE)\<close>\<close>
  "pfail f msg st = cbind (perr 128 msg st) (\<lambda>st. Inr ((UPERF_FAILURE, f), st))"

definition pok :: "'a \<Rightarrow> pstate \<Rightarrow> c_stop + (int \<times> 'a) \<times> pstate" where
  "pok f st = Inr ((UPERF_SUCCESS, f), st)"

section \<open>Numbers\<close>

definition string2int :: "string option \<Rightarrow> pstate \<Rightarrow> c_stop + int \<times> pstate" where
  \<comment> \<open>\<open>None\<close> is the null pointer\<close>
  "string2int value st =
     (case value of
        None \<Rightarrow> Inr (- 1, st)
      | Some v \<Rightarrow> cbind (string_to_int (pe_env st) v) (\<lambda>val.
          if val < 0 then cbind (perr 1024 (''Cannot parse '' @ v) st) (\<lambda>st. Inr (val, st))
          else Inr (val, st)))"

definition string2nsec :: "string \<Rightarrow> pstate \<Rightarrow> c_stop + u64 \<times> pstate" where
  "string2nsec v st =
     cbind (string_to_nsec (pe_env st) v) (\<lambda>val.
       if val = 0 then cbind (perr 1024 (''Cannot convert '' @ v @ '' to nsecs'') st) (\<lambda>st. Inr (val, st))
       else Inr (val, st))"

definition atoi :: "string \<Rightarrow> int" where
  \<comment> \<open>\<open>strtol\<close> clamps to 64 bits, the result is cut to 32\<close>
  "atoi s =
     (let s1 = dropWhile c_isspace s;
          neg = (s1 \<noteq> [] \<and> hd s1 = CHR ''-'');
          s2 = (if s1 \<noteq> [] \<and> (hd s1 = CHR ''-'' \<or> hd s1 = CHR ''+'') then tl s1 else s1);
          v = int (dec_val (takeWhile c_isdigit s2))
      in wrap32 (if neg then max (- v) (- (2 ^ 63)) else min v (2 ^ 63 - 1)))"

definition strip :: "string \<Rightarrow> string" where
  "strip s = rev (dropWhile (\<lambda>c. c = CHR '' '') (rev (dropWhile (\<lambda>c. c = CHR '' '') s)))"

section \<open>\<open>parse_size\<close>\<close>

definition is_rand :: "string \<Rightarrow> bool" where
  "is_rand value = strncaseeq 5 value ''rand(''"

definition cut_env :: "string option \<Rightarrow> string \<Rightarrow> pstate \<Rightarrow> pstate" where
  \<comment> \<open>the text is the environment's when it came from a variable: what is left of it\<close>
  "cut_env var s st =
     (case var of None \<Rightarrow> st | Some v \<Rightarrow> st\<lparr>pe_env := (pe_env st)(v \<mapsto> s)\<rparr>)"

definition parse_size :: "flowop \<Rightarrow> string \<Rightarrow> string option \<Rightarrow> pstate \<Rightarrow> c_stop + (int \<times> flowop) \<times> pstate" where
  \<comment> \<open>\<open>var\<close>: the environment variable that \<open>value\<close> is the text of, if it is one\<close>
  "parse_size f value var st =
     cbind (string_to_int (pe_env st) value) (\<lambda>size.
       if size > 0 then Inr ((size, f), st)
       else if is_rand value then
         (let st = cut_env var (take 4 value) st;
              r = drop 5 value;
              (cmin, r) = (case strtok '','' r of None \<Rightarrow> (None, []) | Some (t, r) \<Rightarrow> (Some t, r));
              cmax = map_option fst (strtok '')'' r)
          in cbind (string2int (map_option strip cmin) st) (\<lambda>(lo, st).
             cbind (string2int (map_option strip cmax) st) (\<lambda>(hi, st).
               let f = f\<lparr>f_options := (f_options f)\<lparr>fo_rand_sz_min := to_u32 lo, fo_rand_sz_max := to_u32 hi,
                                                     fo_flag := fo_flag (f_options f) OR O_SIZE_RAND\<rparr>\<rparr>
               in if to_u32 lo > 0 \<and> to_u32 hi > 0 then Inr ((0, f), st) else Inr ((- 1, f), st))))
       else Inr ((- 1, f), st))"

section \<open>\<open>parse_option\<close>\<close>

definition upd :: "(flowop_options \<Rightarrow> flowop_options) \<Rightarrow> flowop \<Rightarrow> flowop" where
  "upd g f = f\<lparr>f_options := g (f_options f)\<rparr>"

definition set_flag :: "u32 \<Rightarrow> flowop \<Rightarrow> flowop" where
  "set_flag flag = upd (\<lambda>o'. o'\<lparr>fo_flag := fo_flag o' OR flag\<rparr>)"

definition flag_option :: "build_config \<Rightarrow> string \<Rightarrow> u32 option" where
  \<comment> \<open>the options without a value\<close>
  "flag_option cfg option =
     (if strcaseeq option ''tcp_nodelay'' then Some O_TCP_NODELAY
      else if strcaseeq option ''busy'' then Some O_THINK_BUSY
      else if strcaseeq option ''idle'' then Some O_THINK_IDLE
      else if strcaseeq option ''canfail'' then Some O_CANFAIL
      else if strcaseeq option ''non_blocking'' then Some O_NONBLOCKING
      else if have_sctp cfg \<and> strcaseeq option ''sctp_unordered'' then Some O_SCTP_UNORDERED
      else if have_sctp cfg \<and> strcaseeq option ''sctp_nodelay'' then Some O_SCTP_NODELAY
      else None)"

definition ranged ::
  "int \<Rightarrow> int \<Rightarrow> (int \<Rightarrow> flowop_options \<Rightarrow> flowop_options) \<Rightarrow> string \<Rightarrow> string \<Rightarrow> flowop \<Rightarrow> pstate \<Rightarrow>
     c_stop + (int \<times> flowop) \<times> pstate" where
  \<comment> \<open>an integer that has to lie between \<open>lo\<close> and \<open>hi\<close>\<close>
  "ranged lo hi g name value f st =
     cbind (string2int (Some value) st) (\<lambda>(res, st).
       if lo \<le> res \<and> res \<le> hi then pok (upd (g res) f) st
       else pfail f (''Cannot understand '' @ name @ '':'' @ value) st)"

definition int_option ::
  "(int \<Rightarrow> flowop_options \<Rightarrow> flowop_options) \<Rightarrow> string \<Rightarrow> flowop \<Rightarrow> pstate \<Rightarrow> c_stop + (int \<times> flowop) \<times> pstate" where
  \<comment> \<open>an integer stored as \<open>string2int\<close> returns it\<close>
  "int_option g value f st = cbind (string2int (Some value) st) (\<lambda>(res, st). pok (upd (g res) f) st)"

definition nsec_option ::
  "(u64 \<Rightarrow> flowop_options \<Rightarrow> flowop_options) \<Rightarrow> string \<Rightarrow> string \<Rightarrow> flowop \<Rightarrow> pstate \<Rightarrow> c_stop + (int \<times> flowop) \<times> pstate" where
  "nsec_option g name value f st =
     cbind (string2nsec value st) (\<lambda>(res, st).
       let f = upd (g res) f in
       if res = 0 then pfail f (''Cannot understand '' @ name @ '':'' @ value) st else pok f st)"

definition size_option :: "string \<Rightarrow> string option \<Rightarrow> flowop \<Rightarrow> pstate \<Rightarrow> c_stop + (int \<times> flowop) \<times> pstate" where
  \<comment> \<open>\<open>strtok\<close> has cut the value of a \<open>rand(...)\<close> before the message prints it\<close>
  "size_option value var f st =
     cbind (parse_size f value var st) (\<lambda>((size, f), st).
       let f = upd (\<lambda>o'. o'\<lparr>fo_size := to_u32 size\<rparr>) f in
       if to_u32 size = - 1 then
         pfail f (''Could not parse '' @ (if is_rand value then take 4 value else value)) st
       else pok f st)"

definition dir_option :: "(string \<Rightarrow> ftw_entry list \<times> int) \<Rightarrow> string \<Rightarrow> flowop \<Rightarrow> pstate \<Rightarrow> c_stop + (int \<times> flowop) \<times> pstate" where
  "dir_option ftw value f st =
     (let f = upd (\<lambda>o'. o'\<lparr>fo_dir := strlcpy PATHMAX value\<rparr>) f in
      cbind (sendfile_init ftw value (pe_sfv st)) (\<lambda>(ret, l).
        let st = st\<lparr>pe_sfv := l\<rparr> in
        if ret \<noteq> 0 then pfail f (''Error initializing dir: '' @ value) st else pok f st))"

definition at_least_one ::
  "(int \<Rightarrow> flowop_options \<Rightarrow> flowop_options) \<Rightarrow> string \<Rightarrow> string \<Rightarrow> flowop \<Rightarrow> pstate \<Rightarrow> c_stop + (int \<times> flowop) \<times> pstate" where
  \<comment> \<open>\<open>repeat\<close> and \<open>batch_size\<close>\<close>
  "at_least_one g name value f st =
     (if atoi value < 1 then pfail f (name @ '' ('' @ value @ '') should be > 0'') st
      else pok (upd (g (atoi value)) f) st)"

definition protocol_option :: "build_config \<Rightarrow> string \<Rightarrow> flowop \<Rightarrow> pstate \<Rightarrow> c_stop + (int \<times> flowop) \<times> pstate" where
  "protocol_option cfg value f st =
     (let f = upd (\<lambda>o'. o'\<lparr>fo_protocol := protocol_type cfg value\<rparr>) f in
      if protocol_type cfg value = PROTOCOL_UNSUPPORTED
      then pfail f (''Protocol '' @ value @ '' not supported'') st else pok f st)"

definition conn_option :: "string \<Rightarrow> flowop \<Rightarrow> pstate \<Rightarrow> c_stop + (int \<times> flowop) \<times> pstate" where
  \<comment> \<open>the comparison with 0 is unsigned\<close>
  "conn_option value f st =
     (let f = f\<lparr>f_p_id := to_u32 (atoi value)\<rparr> in
      if f_p_id f \<le> 0 then pfail f (''connection id (conn='' @ value @ '') should be > 0'') st
      else pok f st)"

definition base_option ::
  "build_config \<Rightarrow> (string \<Rightarrow> ftw_entry list \<times> int) \<Rightarrow> string \<Rightarrow> string \<Rightarrow> string option \<Rightarrow> flowop \<Rightarrow> pstate \<Rightarrow>
     (c_stop + (int \<times> flowop) \<times> pstate) option" where
  \<comment> \<open>the keys known in every configuration; \<open>None\<close>: another key\<close>
  "base_option cfg ftw key value var f st =
    (if strcaseeq key ''size'' then Some (size_option value var f st)
     else if strcaseeq key ''rsize'' then Some (int_option (\<lambda>n o'. o'\<lparr>fo_rsize := to_u32 n\<rparr>) value f st)
     else if strcaseeq key ''nfiles'' then Some (int_option (\<lambda>n o'. o'\<lparr>fo_nfiles := to_u32 n\<rparr>) value f st)
     else if strcaseeq key ''dir'' then Some (dir_option ftw value f st)
     else if strcaseeq key ''count'' then Some (pok (upd (\<lambda>o'. o'\<lparr>fo_count := to_u64 (atoi value)\<rparr>) f) st)
     else if strcaseeq key ''repeat'' then
       Some (at_least_one (\<lambda>n o'. o'\<lparr>fo_repeat := to_u64 n\<rparr>) ''repeat'' value f st)
     else if strcaseeq key ''batch_size'' then
       Some (at_least_one (\<lambda>n o'. o'\<lparr>fo_batch_size := to_u64 n\<rparr>) ''batch_size'' value f st)
     else if strcaseeq key ''port'' then Some (pok (upd (\<lambda>o'. o'\<lparr>fo_port := to_u32 (atoi value)\<rparr>) f) st)
     else if strcaseeq key ''protocol'' then Some (protocol_option cfg value f st)
     else if strcaseeq key ''conn'' then Some (conn_option value f st)
     else if strcaseeq key ''remotehost'' then
       Some (pok (upd (\<lambda>o'. o'\<lparr>fo_remotehost := strlcpy MAXHOSTNAME value\<rparr>) f) st)
     else if strcaseeq key ''localhost'' then
       Some (pok (upd (\<lambda>o'. o'\<lparr>fo_localhost := strlcpy MAXHOSTNAME value\<rparr>) f) st)
     else if strcaseeq key ''wndsz'' then Some (int_option (\<lambda>n o'. o'\<lparr>fo_wndsz := to_u64 n\<rparr>) value f st)
     else if strcaseeq key ''timeout'' then
       Some (nsec_option (\<lambda>n o'. o'\<lparr>fo_poll_timeout := n\<rparr>) ''timeout'' value f st)
     else if strcaseeq key ''duration'' then
       Some (nsec_option (\<lambda>n o'. o'\<lparr>fo_duration := n\<rparr>) ''duration'' value f st)
     else if strcaseeq key ''encaps'' then
       Some (ranged 0 65535 (\<lambda>n o'. o'\<lparr>fo_encaps_port := to_u32 n\<rparr>) ''encaps'' value f st)
     else if strcaseeq key ''cc'' then Some (pok (upd (\<lambda>o'. o'\<lparr>fo_cc := strlcpy 32 value\<rparr>) f) st)
     else if strcaseeq key ''stack'' then Some (pok (upd (\<lambda>o'. o'\<lparr>fo_stack := strlcpy 32 value\<rparr>) f) st)
     else if strcaseeq key ''bblog'' then
       Some (ranged 0 (2 ^ 31 - 1) (\<lambda>n o'. o'\<lparr>fo_bblog := to_u32 n\<rparr>) ''bblog'' value f st)
     else None)"

definition sctp_option ::
  "string \<Rightarrow> string \<Rightarrow> flowop \<Rightarrow> pstate \<Rightarrow> (c_stop + (int \<times> flowop) \<times> pstate) option" where
  "sctp_option key value f st =
    (if strcaseeq key ''sctp_rto_min'' then
       Some (ranged 0 (2 ^ 31 - 1) (\<lambda>res o'. o'\<lparr>fo_sctp_rto_min := to_u32 res\<rparr>) ''sctp_rto_min'' value f st)
     else if strcaseeq key ''sctp_rto_max'' then
       Some (ranged 0 (2 ^ 31 - 1) (\<lambda>res o'. o'\<lparr>fo_sctp_rto_max := to_u32 res\<rparr>) ''sctp_rto_max'' value f st)
     else if strcaseeq key ''sctp_rto_initial'' then
       Some (ranged 0 (2 ^ 31 - 1) (\<lambda>res o'. o'\<lparr>fo_sctp_rto_initial := to_u32 res\<rparr>) ''sctp_rto_initial'' value f st)
     else if strcaseeq key ''sctp_sack_delay'' then
       Some (ranged 0 (2 ^ 31 - 1) (\<lambda>res o'. o'\<lparr>fo_sctp_sack_delay := to_u32 res\<rparr>) ''sctp_sack_delay'' value f st)
     else if strcaseeq key ''sctp_sack_frequency'' then
       Some (ranged 0 (2 ^ 31 - 1) (\<lambda>res o'. o'\<lparr>fo_sctp_sack_frequency := to_u32 res\<rparr>) ''sctp_sack_frequency'' value f st)
     else if strcaseeq key ''sctp_max_burst_size'' then
       Some (ranged 0 (2 ^ 31 - 1) (\<lambda>res o'. o'\<lparr>fo_sctp_max_burst_size := to_u32 res\<rparr>) ''sctp_max_burst_size'' value f st)
     else if strcaseeq key ''sctp_max_fragment_size'' then
       Some (ranged 0 (2 ^ 31 - 1) (\<lambda>res o'. o'\<lparr>fo_sctp_max_fragment_size := to_u32 res\<rparr>) ''sctp_max_fragment_size'' value f st)
     else if strcaseeq key ''sctp_hb_interval'' then
       Some (ranged 0 (2 ^ 31 - 1) (\<lambda>res o'. o'\<lparr>fo_sctp_hb_interval := to_u32 res\<rparr>) ''sctp_hb_interval'' value f st)
     else if strcaseeq key ''sctp_path_mtu'' then
       Some (ranged 0 (2 ^ 31 - 1) (\<lambda>res o'. o'\<lparr>fo_sctp_path_mtu := to_u32 res\<rparr>) ''sctp_path_mtu'' value f st)
     else if strcaseeq key ''sctp_in_streams'' then
       Some (ranged 1 65535 (\<lambda>res o'. o'\<lparr>fo_sctp_in_streams := to_u16 res\<rparr>) ''sctp_in_streams'' value f st)
     else if strcaseeq key ''sctp_out_streams'' then
       Some (ranged 1 65535 (\<lambda>res o'. o'\<lparr>fo_sctp_out_streams := to_u16 res\<rparr>) ''sctp_out_streams'' value f st)
     else if strcaseeq key ''sctp_stream_id'' then
       Some (ranged 0 65535 (\<lambda>res o'. o'\<lparr>fo_sctp_stream_id := to_u16 res\<rparr>) ''sctp_stream_id'' value f st)
     else if strcaseeq key ''sctp_pr_value'' then
       Some (ranged 0 (2 ^ 31 - 1) (\<lambda>res o'. o'\<lparr>fo_sctp_pr_value := to_u32 res\<rparr>) ''sctp_pr_value'' value f st)
     else if strcaseeq key ''sctp_pr_policy'' then
       Some (pok (upd (\<lambda>o'. o'\<lparr>fo_sctp_pr_policy := strlcpy 8 value\<rparr>) f) st)
     else None)"

definition ssl_option ::
  "string \<Rightarrow> string \<Rightarrow> flowop \<Rightarrow> pstate \<Rightarrow> (c_stop + (int \<times> flowop) \<times> pstate) option" where
  \<comment> \<open>\<open>cipher\<close> and \<open>method\<close> are copied with \<open>strcpy\<close>\<close>
  "ssl_option key value f st =
    (if strcaseeq key ''engine'' then Some (pok (upd (\<lambda>o'. o'\<lparr>fo_engine := strlcpy 20 value\<rparr>) f) st)
     else if strcaseeq key ''cipher'' then
       Some (if length value < 50 then pok (upd (\<lambda>o'. o'\<lparr>fo_cipher := value\<rparr>) f) st else Inl Undefined)
     else if strcaseeq key ''method'' then
       Some (if length value < 5 then pok (upd (\<lambda>o'. o'\<lparr>fo_method := value\<rparr>) f) st else Inl Undefined)
     else None)"

definition key_option ::
  "build_config \<Rightarrow> (string \<Rightarrow> ftw_entry list \<times> int) \<Rightarrow> string \<Rightarrow> string \<Rightarrow> string option \<Rightarrow> flowop \<Rightarrow> pstate \<Rightarrow>
     c_stop + (int \<times> flowop) \<times> pstate" where
  "key_option cfg ftw key value var f st =
     (case base_option cfg ftw key value var f st of
        Some r \<Rightarrow> r
      | None \<Rightarrow>
          (case (if have_sctp cfg then sctp_option key value f st else None) of
             Some r \<Rightarrow> r
           | None \<Rightarrow>
               (case (if have_ssl cfg then ssl_option key value f st else None) of
                  Some r \<Rightarrow> r
                | None \<Rightarrow> pfail f (''parser - Option unrecognized '' @ key @ ''='' @ value) st)))"

definition parse_option ::
  "build_config \<Rightarrow> (string \<Rightarrow> ftw_entry list \<times> int) \<Rightarrow> string \<Rightarrow> flowop \<Rightarrow> pstate \<Rightarrow>
     c_stop + (int \<times> flowop) \<times> pstate" where
  "parse_option cfg ftw option f st =
     (case flag_option cfg option of
        Some flag \<Rightarrow> pok (set_flag flag f) st
      | None \<Rightarrow>
          (case strtok ''='' option of
             None \<Rightarrow> pfail f (''option '' @ option @ '' is not of type key=value'') st
           | Some (key, r) \<Rightarrow>
               (case strtok '' '' r of
                  None \<Rightarrow> pfail f (''option '' @ key @ '' is not of type key=value'') st
                | Some (value, _) \<Rightarrow>
                    if hd value = CHR ''$'' then
                      (case pe_env st (tl value) of
                         None \<Rightarrow> pfail f (''Env variable '' @ key @ '' = '' @ value @ '' not set'') st
                       | Some e \<Rightarrow> key_option cfg ftw key e (Some (tl value)) f st)
                    else key_option cfg ftw key value None f st)))"

section \<open>\<open>flowop_parse_options\<close>\<close>

fun parse_options :: "build_config \<Rightarrow> (string \<Rightarrow> ftw_entry list \<times> int) \<Rightarrow> string list \<Rightarrow> flowop \<Rightarrow> pstate \<Rightarrow> c_stop + flowop \<times> pstate" where
  \<comment> \<open>the second loop: what \<open>parse_option\<close> returns is ignored\<close>
  "parse_options cfg ftw [] f st = Inr (f, st)"
| "parse_options cfg ftw (opt # opts) f st =
     cbind (parse_option cfg ftw opt f st) (\<lambda>((_, f), st). parse_options cfg ftw opts f st)"

definition blanks :: string where "blanks = [CHR '' '', CHR 0x09]"

definition option_words :: "string \<Rightarrow> string list" where
  "option_words s = map (strlcpy 100) (filter (\<lambda>w. c_isalpha (hd w)) (strtok_all blanks s))"

definition after_strtok :: "string \<Rightarrow> string" where
  \<comment> \<open>what is left at the start of a text that \<open>strtok\<close> has cut at the end of its first token\<close>
  "after_strtok s =
     (let d = (\<lambda>c. c \<in> set blanks) in takeWhile d s @ takeWhile (\<lambda>c. \<not> d c) (dropWhile d s))"

definition flowop_parse_options ::
  "build_config \<Rightarrow> (string \<Rightarrow> ftw_entry list \<times> int) \<Rightarrow> string \<Rightarrow> string option \<Rightarrow> flowop \<Rightarrow> pstate \<Rightarrow> c_stop + flowop \<times> pstate" where
  \<comment> \<open>\<open>opt_arr\<close> holds 100 options; \<open>var\<close> as for \<open>parse_size\<close>\<close>
  "flowop_parse_options cfg ftw str_options var f st =
     (let f = f\<lparr>f_options := (f_options f)\<lparr>fo_count := 1, fo_repeat := 1, fo_batch_size := 1,
                                            fo_size := 0, fo_duration := 0\<rparr>,
                f_p_id := UPERF_ANY_CONNECTION\<rparr>;
          opts = option_words str_options
      in if length opts > 100 then Inl Undefined
         else parse_options cfg ftw opts f (cut_env var (after_strtok str_options) st))"


section \<open>What the options of a flowop can hold\<close>

definition options_typed :: "build_config \<Rightarrow> flowop_options \<Rightarrow> bool" where
  "options_typed cfg fo =
     (unat (fo_size fo) < 2 ^ 31 \<and> unat (fo_rsize fo) < 2 ^ 31 \<and> unat (fo_nfiles fo) < 2 ^ 31 \<and>
      unat (fo_wndsz fo) < 2 ^ 31 \<and> unat (fo_encaps_port fo) \<le> 65535 \<and> unat (fo_bblog fo) < 2 ^ 31 \<and>
      1 \<le> unat (fo_repeat fo) \<and> unat (fo_repeat fo) < 2 ^ 31 \<and>
      1 \<le> unat (fo_batch_size fo) \<and> unat (fo_batch_size fo) < 2 ^ 31 \<and>
      (fo_protocol fo = 0 \<or> valid_protocol cfg (fo_protocol fo) = 1) \<and>
      (fo_is O_SIZE_RAND fo \<longrightarrow> 0 < fo_rand_sz_min fo \<and> 0 < fo_rand_sz_max fo))"

definition env_ok :: "pstate \<Rightarrow> bool" where
  \<comment> \<open>the environment holds C strings\<close>
  "env_ok st = (\<forall>v e. pe_env st v = Some e \<longrightarrow> NUL \<notin> set e)"

definition pstate_ok :: "pstate \<Rightarrow> bool" where
  "pstate_ok st = (env_ok st \<and> sfv_ok (pe_sfv st))"

definition opt_inv :: "build_config \<Rightarrow> flowop \<Rightarrow> pstate \<Rightarrow> bool" where
  "opt_inv cfg f st = (pstate_ok st \<and> options_wf (f_options f) \<and>
     (pe_errs st = [] \<longrightarrow> options_typed cfg (f_options f)))"

definition same_shape :: "flowop \<Rightarrow> flowop \<Rightarrow> bool" where
  \<comment> \<open>what the options of a flowop do not touch\<close>
  "same_shape f f' = (f_type f' = f_type f \<and> f_execute f' = f_execute f \<and> f_id f' = f_id f \<and> f_name f' = f_name f)"

definition errs_grow :: "pstate \<Rightarrow> pstate \<Rightarrow> bool" where
  "errs_grow st st' = (pe_errs st' = [] \<longrightarrow> pe_errs st = [])"

lemma same_shape_refl [simp]: "same_shape f f" "same_shape f (upd g f)" "same_shape f (f\<lparr>f_p_id := n\<rparr>)"
    "same_shape f (f\<lparr>f_options := fo\<rparr>)"
  by (simp_all add: same_shape_def upd_def)

lemma same_shape_trans: "same_shape f g \<Longrightarrow> same_shape g h \<Longrightarrow> same_shape f h"
  by (simp add: same_shape_def)

lemma errs_grow_refl [simp]: "errs_grow st st" "errs_grow st (st\<lparr>pe_sfv := l\<rparr>)" "errs_grow st (cut_env var s st)"
  by (auto simp: errs_grow_def cut_env_def split: option.split)

lemma errs_grow_trans: "errs_grow a b \<Longrightarrow> errs_grow b c \<Longrightarrow> errs_grow a c"
  by (simp add: errs_grow_def)

lemma upd_options [simp]: "f_options (upd g f) = g (f_options f)"
  by (simp add: upd_def)

lemma perr_Inr: "perr n m st = Inr st' \<Longrightarrow> \<exists>e. st' = st\<lparr>pe_errs := pe_errs st @ [e]\<rparr>"
  by (auto simp: perr_def cbind_Inr dest: add_error_Inr)

definition keeps :: "build_config \<Rightarrow> flowop \<Rightarrow> pstate \<Rightarrow> c_stop + (int \<times> flowop) \<times> pstate \<Rightarrow> bool" where
  "keeps cfg f st res = (\<forall>r f' st'. res = Inr ((r, f'), st') \<longrightarrow>
     opt_inv cfg f' st' \<and> same_shape f f' \<and> errs_grow st st')"

lemma keeps_pfail:
  "pstate_ok st' \<Longrightarrow> options_wf (f_options f') \<Longrightarrow> same_shape f f' \<Longrightarrow> keeps cfg f st (pfail f' m st')"
  by (auto simp: keeps_def pfail_def cbind_Inr opt_inv_def pstate_ok_def env_ok_def errs_grow_def dest!: perr_Inr)

lemma keeps_pok:
  "opt_inv cfg f' st' \<Longrightarrow> same_shape f f' \<Longrightarrow> errs_grow st st' \<Longrightarrow> keeps cfg f st (pok f' st')"
  by (auto simp: keeps_def pok_def)

lemma keeps_Undefined [simp]: "keeps cfg f st (Inl e)"
  by (simp add: keeps_def)

lemma keeps_cbind:
  assumes "\<And>x. m = Inr x \<Longrightarrow> keeps cfg f st (k x)"
  shows "keeps cfg f st (cbind m k)"
  using assms by (cases m) simp_all

lemma keeps_cbind2:
  assumes "\<And>a b. m = Inr (a, b) \<Longrightarrow> keeps cfg f st (k a b)"
  shows "keeps cfg f st (cbind m (\<lambda>(a, b). k a b))"
  using assms by (cases m) auto

subsection \<open>Numbers stay in their range\<close>

definition int_result :: "c_stop + int \<Rightarrow> bool" where
  "int_result r = (\<forall>n. r = Inr n \<longrightarrow> - (2 ^ 31) \<le> n \<and> n < 2 ^ 31)"

lemma int_result_simps [simp]:
  "int_result (Inl e)" "int_result (Inr (- 1))" "int_result (Inr (shl32 k m))"
  "\<not> 2 ^ 31 \<le> j \<Longrightarrow> int_result (Inr (int j))"
  using wrap32_bounds [of "k * 2 ^ nat m"] by (simp_all add: int_result_def shl32_def)

lemma string_to_int_result: "int_result (string_to_int env v)"
  unfolding string_to_int_def Let_def
  by (simp del: power_numeral split: option.split if_split prod.split)

lemma string_to_int_bounds: "string_to_int env v = Inr n \<Longrightarrow> - (2 ^ 31) \<le> n \<and> n < 2 ^ 31"
  using string_to_int_result [of env v] by (simp add: int_result_def)

lemma string2int_Inr:
  assumes "string2int v st = Inr (n, st')"
  shows "\<exists>e. st' = st\<lparr>pe_errs := pe_errs st @ e\<rparr> \<and> - (2 ^ 31) \<le> n \<and> n < 2 ^ 31 \<and> (e = [] \<longrightarrow> v \<noteq> None \<longrightarrow> 0 \<le> n)"
proof (cases v)
  case None
  with assms show ?thesis by (intro exI [of _ "[]"]) (auto simp: string2int_def)
next
  case (Some s)
  with assms obtain k where k: "string_to_int (pe_env st) s = Inr k" by (auto simp: string2int_def cbind_Inr)
  with string_to_int_bounds [OF k] Some assms show ?thesis
  proof (cases "k < 0")
    case True
    with Some assms k obtain e where "st' = st\<lparr>pe_errs := pe_errs st @ [e]\<rparr>" "n = k"
      by (auto simp: string2int_def cbind_Inr dest!: perr_Inr)
    with string_to_int_bounds [OF k] show ?thesis by (intro exI [of _ "[e]"]) simp
  qed (auto simp: string2int_def intro: exI [of _ "[]"])
qed

lemma string2nsec_Inr:
  assumes "string2nsec v st = Inr (n, st')"
  shows "\<exists>e. st' = st\<lparr>pe_errs := pe_errs st @ e\<rparr>"
  using assms by (auto simp: string2nsec_def cbind_Inr split: if_splits dest!: perr_Inr intro: exI [of _ "[]"])

lemma to_u32_small: "0 \<le> n \<Longrightarrow> n < 2 ^ 31 \<Longrightarrow> unat (to_u32 n) = nat n"
  by (simp add: unat_word_ariths unsigned_of_int take_bit_int_eq_self nat_take_bit_eq take_bit_nat_eq_self)

lemma to_u64_small: "0 \<le> n \<Longrightarrow> n < 2 ^ 31 \<Longrightarrow> unat (to_u64 n) = nat n"
  by (simp add: unsigned_of_int take_bit_int_eq_self nat_take_bit_eq take_bit_nat_eq_self)


lemma c_string_strlcpy: "NUL \<notin> set s \<Longrightarrow> 0 < n \<Longrightarrow> c_string n (strlcpy n s)"
  using length_strlcpy [of n s] by (auto simp: c_string_def strlcpy_def dest: in_set_takeD)

subsection \<open>Every option keeps the invariant\<close>

definition keeps_wf :: "(flowop_options \<Rightarrow> flowop_options) \<Rightarrow> bool" where
  "keeps_wf g = (\<forall>fo. options_wf fo \<longrightarrow> options_wf (g fo))"

definition keeps_typed :: "build_config \<Rightarrow> (flowop_options \<Rightarrow> flowop_options) \<Rightarrow> bool" where
  "keeps_typed cfg g = (\<forall>fo. options_typed cfg fo \<longrightarrow> options_typed cfg (g fo))"

lemma opt_inv_upd: "opt_inv cfg f st \<Longrightarrow> keeps_wf g \<Longrightarrow> keeps_typed cfg g \<Longrightarrow> opt_inv cfg (upd g f) st"
  by (simp add: opt_inv_def keeps_wf_def keeps_typed_def)

lemma opt_inv_pstate: "opt_inv cfg f st \<Longrightarrow> pstate_ok st"
  by (simp add: opt_inv_def)

lemma opt_inv_wf: "opt_inv cfg f st \<Longrightarrow> options_wf (f_options f)"
  by (simp add: opt_inv_def)

lemma opt_inv_errs: "opt_inv cfg f st \<Longrightarrow> opt_inv cfg f (st\<lparr>pe_errs := pe_errs st @ e\<rparr>)"
  by (simp add: opt_inv_def pstate_ok_def env_ok_def)

lemma opt_inv_errs_upd:
  assumes "opt_inv cfg f st" and "keeps_wf g" and "e = [] \<Longrightarrow> keeps_typed cfg g"
  shows "opt_inv cfg (upd g f) (st\<lparr>pe_errs := pe_errs st @ e\<rparr>)"
  using assms by (auto simp: opt_inv_def pstate_ok_def env_ok_def keeps_wf_def keeps_typed_def)

lemma pstate_ok_errs [simp]: "pstate_ok (st\<lparr>pe_errs := e\<rparr>) = pstate_ok st"
  by (simp add: pstate_ok_def env_ok_def)

lemma errs_grow_errs [simp]: "errs_grow st (st\<lparr>pe_errs := pe_errs st @ e\<rparr>)"
  by (simp add: errs_grow_def)

lemma int_option_keeps:
  assumes "opt_inv cfg f st" and "\<And>n. keeps_wf (g n)" and "\<And>n. 0 \<le> n \<Longrightarrow> n < 2 ^ 31 \<Longrightarrow> keeps_typed cfg (g n)"
  shows "keeps cfg f st (int_option g value f st)"
  unfolding int_option_def
proof (rule keeps_cbind2)
  fix n st' assume "string2int (Some value) st = Inr (n, st')"
  from string2int_Inr [OF this] obtain e where e: "st' = st\<lparr>pe_errs := pe_errs st @ e\<rparr>" "n < 2 ^ 31" "e = [] \<Longrightarrow> 0 \<le> n" by auto
  with assms show "keeps cfg f st (pok (upd (g n) f) st')"
    by (auto intro!: keeps_pok opt_inv_errs_upd)
qed

lemma ranged_keeps:
  assumes "opt_inv cfg f st" and "\<And>n. keeps_wf (g n)" and "\<And>n. lo \<le> n \<Longrightarrow> n \<le> hi \<Longrightarrow> keeps_typed cfg (g n)"
  shows "keeps cfg f st (ranged lo hi g name value f st)"
  unfolding ranged_def
proof (rule keeps_cbind2)
  fix n st' assume "string2int (Some value) st = Inr (n, st')"
  from string2int_Inr [OF this] obtain e where e: "st' = st\<lparr>pe_errs := pe_errs st @ e\<rparr>" by auto
  with assms show "keeps cfg f st (if lo \<le> n \<and> n \<le> hi then pok (upd (g n) f) st'
      else pfail f (''Cannot understand '' @ name @ '':'' @ value) st')"
    by (auto intro!: keeps_pok keeps_pfail opt_inv_errs_upd dest: opt_inv_pstate opt_inv_wf)
qed

lemma nsec_option_keeps:
  assumes "opt_inv cfg f st" and "\<And>n. keeps_wf (g n)" and "\<And>n. keeps_typed cfg (g n)"
  shows "keeps cfg f st (nsec_option g name value f st)"
  unfolding nsec_option_def
proof (rule keeps_cbind2)
  fix n st' assume "string2nsec value st = Inr (n, st')"
  from string2nsec_Inr [OF this] obtain e where e: "st' = st\<lparr>pe_errs := pe_errs st @ e\<rparr>" by auto
  moreover have "options_wf (g n (f_options f))" for n using assms by (simp add: opt_inv_def keeps_wf_def)
  ultimately show "keeps cfg f st (let f = upd (g n) f in
      if n = 0 then pfail f (''Cannot understand '' @ name @ '':'' @ value) st' else pok f st')"
    unfolding Let_def using assms by (auto intro!: keeps_pok keeps_pfail opt_inv_errs_upd dest: opt_inv_pstate)
qed

lemma atoi_bounds: "- (2 ^ 31) \<le> atoi s" "atoi s < 2 ^ 31"
  by (simp_all add: atoi_def Let_def wrap32_bounds del: power_numeral)

lemma at_least_one_keeps:
  assumes "opt_inv cfg f st" and "\<And>n. keeps_wf (g n)" and "\<And>n. 1 \<le> n \<Longrightarrow> n < 2 ^ 31 \<Longrightarrow> keeps_typed cfg (g n)"
  shows "keeps cfg f st (at_least_one g name value f st)"
  using assms atoi_bounds(2) [of "value"]
  by (auto simp: at_least_one_def not_less intro!: keeps_pok keeps_pfail opt_inv_upd dest: opt_inv_pstate opt_inv_wf)

lemma pok_keeps:
  assumes "opt_inv cfg f st" and "keeps_wf g" and "keeps_typed cfg g"
  shows "keeps cfg f st (pok (upd g f) st)"
  using assms by (intro keeps_pok opt_inv_upd) simp_all

lemma conn_option_keeps: "opt_inv cfg f st \<Longrightarrow> keeps cfg f st (conn_option value f st)"
  by (auto simp: conn_option_def Let_def opt_inv_def intro!: keeps_pok keeps_pfail)

lemma protocol_option_keeps:
  assumes "opt_inv cfg f st"
  shows "keeps cfg f st (protocol_option cfg value f st)"
proof (cases "protocol_type cfg value = PROTOCOL_UNSUPPORTED")
  case True
  with assms show ?thesis
    by (auto simp: protocol_option_def Let_def opt_inv_def options_wf_def intro!: keeps_pfail)
next
  case False
  then obtain r where "find_protocol_by_name cfg value = Some r" "protocol_type cfg value = pr_type r"
    by (auto simp: protocol_type_def split: option.splits)
  then have "valid_protocol cfg (protocol_type cfg value) = 1"
    by (auto simp: valid_protocol_iff find_protocol_by_name_def dest: find_Some_in_set)
  with assms False show ?thesis
    by (auto simp: protocol_option_def opt_inv_def options_wf_def options_typed_def fo_is_def intro!: keeps_pok)
qed

lemma dir_option_keeps:
  assumes "opt_inv cfg f st" and "NUL \<notin> set value"
  shows "keeps cfg f st (dir_option ftw value f st)"
  unfolding dir_option_def Let_def
proof (rule keeps_cbind2)
  fix r l assume i: "sendfile_init ftw value (pe_sfv st) = Inr (r, l)"
  let ?f = "upd (\<lambda>o'. o'\<lparr>fo_dir := strlcpy PATHMAX value\<rparr>) f"
  have wf: "options_wf (f_options ?f)"
    using assms c_string_strlcpy [OF assms(2), of PATHMAX] by (simp add: opt_inv_def options_wf_def PATHMAX_def)
  have "sfv_ok l"
  proof (cases "r = 0")
    case True
    with i assms(1) show ?thesis by (auto simp: opt_inv_def pstate_ok_def intro: sendfile_init_ok)
  next
    case False
    with i have "l = pe_sfv st" by (auto simp: sendfile_init_def Let_def split: option.splits if_splits prod.splits)
    with assms(1) show ?thesis by (simp add: opt_inv_def pstate_ok_def)
  qed
  with wf assms(1) show "keeps cfg f st (if r \<noteq> 0 then pfail ?f (''Error initializing dir: '' @ value) (st\<lparr>pe_sfv := l\<rparr>)
      else pok ?f (st\<lparr>pe_sfv := l\<rparr>))"
    by (auto simp: opt_inv_def pstate_ok_def env_ok_def options_typed_def fo_is_def intro!: keeps_pok keeps_pfail)
qed


lemma cut_env_ok: "pstate_ok st \<Longrightarrow> NUL \<notin> set s \<Longrightarrow> pstate_ok (cut_env var s st)"
  by (auto simp: pstate_ok_def env_ok_def cut_env_def split: option.split)

lemma pe_errs_cut_env [simp]: "pe_errs (cut_env var s st) = pe_errs st"
  by (simp add: cut_env_def split: option.split)

lemma flag_or: "a AND O_SIZE_RAND \<noteq> 0 \<longleftrightarrow> (a OR b) AND O_SIZE_RAND \<noteq> 0"
  if "b AND O_SIZE_RAND = 0" for a b :: u32
  using that by (simp add: word_bw_assocs bit.conj_disj_distrib2)

lemma parse_size_keeps:
  assumes "opt_inv cfg f st" and "NUL \<notin> set value" and "parse_size f value var st = Inr ((n, f'), st')"
  shows "pstate_ok st' \<and> options_wf (f_options f') \<and> same_shape f f' \<and> errs_grow st st' \<and> n < 2 ^ 31 \<and> - 1 \<le> n \<and>
    (n \<noteq> - 1 \<longrightarrow> pe_errs st' = [] \<longrightarrow> options_typed cfg (f_options (upd (\<lambda>o'. o'\<lparr>fo_size := to_u32 n\<rparr>) f')))"
proof -
  from assms(3) obtain k where k: "string_to_int (pe_env st) value = Inr k" by (auto simp: parse_size_def cbind_Inr)
  consider "k > 0" | "\<not> k > 0" "\<not> is_rand value" | "\<not> k > 0" "is_rand value" by blast
  then show ?thesis
  proof cases
    case 1
    with assms k have "n = k" "f' = f" "st' = st" by (auto simp: parse_size_def)
    with assms(1) 1 string_to_int_bounds [OF k] show ?thesis
      by (auto simp: opt_inv_def options_typed_def to_u32_small fo_is_def)
  next
    case 2
    with assms k have "n = - 1" "f' = f" "st' = st" by (auto simp: parse_size_def)
    with assms(1) show ?thesis by (simp add: opt_inv_def)
  next
    case 3
    let ?st = "cut_env var (take 4 value) st"
    let ?f = "\<lambda>lo hi. f\<lparr>f_options := (f_options f)\<lparr>fo_rand_sz_min := to_u32 lo, fo_rand_sz_max := to_u32 hi,
                                                     fo_flag := fo_flag (f_options f) OR O_SIZE_RAND\<rparr>\<rparr>"
    obtain cmin r where c: "(case strtok '','' (drop 5 value) of None \<Rightarrow> (None, []) | Some (t, r) \<Rightarrow> (Some t, r)) = (cmin, r)"
      by fastforce
    let ?cmax = "map_option fst (strtok '')'' r)"
    from assms(3) 3 k c obtain lo st1 hi where lo: "string2int (map_option strip cmin) ?st = Inr (lo, st1)"
        and hi: "string2int (map_option strip ?cmax) st1 = Inr (hi, st')"
        and n: "n = (if to_u32 lo > 0 \<and> to_u32 hi > 0 then 0 else - 1)" and f': "f' = ?f lo hi"
      by (auto simp: parse_size_def Let_def cbind_Inr split: if_splits)
    have "NUL \<notin> set (take 4 value)" using assms(2) by (auto dest: in_set_takeD)
    then have "pstate_ok ?st" using assms(1) by (intro cut_env_ok) (simp_all add: opt_inv_def)
    moreover from string2int_Inr [OF lo] obtain e where e: "st1 = ?st\<lparr>pe_errs := pe_errs ?st @ e\<rparr>" by auto
    moreover from string2int_Inr [OF hi] obtain e' where e': "st' = st1\<lparr>pe_errs := pe_errs st1 @ e'\<rparr>" by auto
    ultimately have st: "pstate_ok st'" "errs_grow st st'" by (simp_all add: errs_grow_def)
    with assms(1) n f' show ?thesis
      by (auto simp: opt_inv_def options_wf_def options_typed_def same_shape_def errs_grow_def)
  qed
qed

lemma size_option_keeps:
  assumes "opt_inv cfg f st" and "NUL \<notin> set value"
  shows "keeps cfg f st (size_option value var f st)"
  unfolding size_option_def
proof (rule keeps_cbind)
  fix x assume "parse_size f value var st = Inr x"
  moreover obtain n f' st' where x: "x = ((n, f'), st')" by (metis prod.exhaust)
  ultimately have "parse_size f value var st = Inr ((n, f'), st')" by simp
  note k = parse_size_keeps [OF assms this]
  have m: "n = - 1" if "to_u32 n = - 1"
  proof (rule ccontr)
    assume "n \<noteq> - 1"
    with k have n: "0 \<le> n" "n < 2147483648" by simp_all
    then have A: "unat (to_u32 n) = nat n" using to_u32_small [of n] by simp
    have B: "unat (to_u32 n) = unat (- 1 :: u32)" using that by (rule arg_cong)
    have C: "unat (- 1 :: u32) = 4294967295" by (simp add: unsigned_minus_1_eq_mask mask_eq_exp_minus_1)
    have "nat n = 4294967295" by (simp only: A [symmetric] B C)
    then show False using n by simp
  qed
  let ?f = "upd (\<lambda>o'. o'\<lparr>fo_size := to_u32 n\<rparr>) f'"
  from k have k': "pstate_ok st'" "options_wf (f_options f')" "same_shape f f'" "errs_grow st st'"
      "n \<noteq> - 1 \<Longrightarrow> pe_errs st' = [] \<Longrightarrow> options_typed cfg (f_options ?f)" by blast+
  have sh: "same_shape f ?f" by (rule same_shape_trans [OF k'(3) same_shape_refl(2)])
  have wf: "options_wf (f_options ?f)" using k'(2) by (simp only: upd_options) (simp add: options_wf_def)
  show "keeps cfg f st ((\<lambda>((sz, f), st). let f = upd (\<lambda>o'. o'\<lparr>fo_size := to_u32 sz\<rparr>) f in
      if to_u32 sz = - 1 then pfail f (''Could not parse '' @ (if is_rand value then take 4 value else value)) st
      else pok f st) x)"
  proof (cases "to_u32 n = - 1")
    case True
    from keeps_pfail [OF k'(1) wf sh] show ?thesis unfolding x prod.case Let_def if_P [OF True] .
  next
    case False
    then have "n \<noteq> - 1" by auto
    with k' wf have "opt_inv cfg ?f st'" unfolding opt_inv_def by blast
    from keeps_pok [OF this sh k'(4)] show ?thesis unfolding x prod.case Let_def if_not_P [OF False] .
  qed
qed

lemma keeps_wf_I: "(\<And>fo. options_wf fo \<Longrightarrow> options_wf (g fo)) \<Longrightarrow> keeps_wf g"
  by (simp add: keeps_wf_def)

lemma keeps_typed_I: "(\<And>fo. options_typed cfg fo \<Longrightarrow> options_typed cfg (g fo)) \<Longrightarrow> keeps_typed cfg g"
  by (simp add: keeps_typed_def)

lemmas option_keeps = pok_keeps int_option_keeps ranged_keeps nsec_option_keeps at_least_one_keeps
  conn_option_keeps protocol_option_keeps dir_option_keeps size_option_keeps

lemma base_option_keeps:
  assumes inv: "opt_inv cfg f st" and nul: "NUL \<notin> set value" and r: "base_option cfg ftw key value var f st = Some r"
  shows "keeps cfg f st r"
proof -
  have s: "c_string 32 (strlcpy 32 value)" "c_string MAXHOSTNAME (strlcpy MAXHOSTNAME value)"
    using nul by (simp_all add: c_string_strlcpy MAXHOSTNAME_def)
  show ?thesis using r inv nul s unfolding base_option_def
    by (auto simp: to_u32_small to_u64_small options_wf_def options_typed_def fo_is_def
        split: if_splits intro!: option_keeps keeps_wf_I keeps_typed_I)
qed

lemma sctp_option_keeps:
  assumes inv: "opt_inv cfg f st" and nul: "NUL \<notin> set value" and r: "sctp_option key value f st = Some r"
  shows "keeps cfg f st r"
proof -
  have s: "c_string 8 (strlcpy 8 value)" using nul by (simp add: c_string_strlcpy)
  show ?thesis using r inv nul s unfolding sctp_option_def
    by (auto simp: options_wf_def options_typed_def fo_is_def
        split: if_splits intro!: option_keeps keeps_wf_I keeps_typed_I)
qed

lemma ssl_option_keeps:
  assumes inv: "opt_inv cfg f st" and nul: "NUL \<notin> set value" and r: "ssl_option key value f st = Some r"
  shows "keeps cfg f st r"
proof -
  have s: "c_string 20 (strlcpy 20 value)" using nul by (simp add: c_string_strlcpy)
  show ?thesis using r inv nul s unfolding ssl_option_def
    by (auto simp: options_wf_def options_typed_def fo_is_def c_string_def
        split: if_splits intro!: option_keeps keeps_wf_I keeps_typed_I)
qed


lemma key_option_keeps:
  assumes "opt_inv cfg f st" and "NUL \<notin> set value"
  shows "keeps cfg f st (key_option cfg ftw key value var f st)"
  using assms opt_inv_pstate [OF assms(1)] opt_inv_wf [OF assms(1)] unfolding key_option_def
  by (auto split: option.split if_splits intro: keeps_pfail base_option_keeps sctp_option_keeps ssl_option_keeps)

lemma strtok_set: "strtok d s = Some (t, r) \<Longrightarrow> set t \<subseteq> set s \<and> set r \<subseteq> set s"
proof -
  assume a: "strtok d s = Some (t, r)"
  let ?s = "dropWhile (\<lambda>c. c \<in> set d) s"
  from a have t: "t = takeWhile (\<lambda>c. c \<notin> set d) ?s" and r: "r = drop 1 (dropWhile (\<lambda>c. c \<notin> set d) ?s)"
    by (auto simp: strtok_def Let_def split: if_splits)
  show ?thesis unfolding t r by (auto dest!: set_takeWhileD set_dropWhileD in_set_dropD)
qed

lemma parse_option_keeps:
  assumes inv: "opt_inv cfg f st" and nul: "NUL \<notin> set option"
  shows "keeps cfg f st (parse_option cfg ftw option f st)"
proof (cases "flag_option cfg option")
  case (Some flag)
  then have "flag AND O_SIZE_RAND = 0"
    by (auto simp: flag_option_def O_SIZE_RAND_def O_TCP_NODELAY_def O_THINK_BUSY_def O_THINK_IDLE_def O_CANFAIL_def
        O_NONBLOCKING_def O_SCTP_UNORDERED_def O_SCTP_NODELAY_def split: if_splits)
  from flag_or [OF this] have "keeps cfg f st (pok (set_flag flag f) st)" unfolding set_flag_def
    using inv by (intro pok_keeps keeps_wf_I keeps_typed_I) (simp_all add: options_wf_def options_typed_def fo_is_def)
  with Some show ?thesis by (simp add: parse_option_def)
next
  case None
  note fail = keeps_pfail [OF opt_inv_pstate [OF inv] opt_inv_wf [OF inv] same_shape_refl(1)]
  have kv: "keeps cfg f st (case strtok '' '' r of
      None \<Rightarrow> pfail f (''option '' @ key @ '' is not of type key=value'') st
    | Some (value, _) \<Rightarrow>
        if hd value = CHR ''$'' then
          (case pe_env st (tl value) of
             None \<Rightarrow> pfail f (''Env variable '' @ key @ '' = '' @ value @ '' not set'') st
           | Some e \<Rightarrow> key_option cfg ftw key e (Some (tl value)) f st)
        else key_option cfg ftw key value None f st)" if "strtok ''='' option = Some (key, r)" for key r
  proof (cases "strtok '' '' r")
    case None
    with fail show ?thesis by simp
  next
    case (Some x)
    then obtain v r' where v: "strtok '' '' r = Some (v, r')" by (cases x) auto
    from strtok_set [OF that] strtok_set [OF v] nul have "NUL \<notin> set v" by auto
    moreover have "NUL \<notin> set e" if "pe_env st (tl v) = Some e" for e
      using inv that by (auto simp: opt_inv_def pstate_ok_def env_ok_def)
    ultimately show ?thesis using key_option_keeps [OF inv] fail
      by (auto simp: v split: option.split)
  qed
  with None fail show ?thesis by (simp add: parse_option_def split: option.split)
qed

lemma parse_options_keep:
  "opt_inv cfg f st \<Longrightarrow> \<forall>w \<in> set opts. NUL \<notin> set w \<Longrightarrow> parse_options cfg ftw opts f st = Inr (f', st') \<Longrightarrow>
   opt_inv cfg f' st' \<and> same_shape f f' \<and> errs_grow st st'"
proof (induction opts arbitrary: f st)
  case (Cons w opts)
  from Cons.prems(3) obtain n f1 st1 where w: "parse_option cfg ftw w f st = Inr ((n, f1), st1)"
      and r: "parse_options cfg ftw opts f1 st1 = Inr (f', st')"
    by (auto simp: cbind_Inr)
  from parse_option_keeps [OF Cons.prems(1), of w ftw] Cons.prems(2) w
  have k: "opt_inv cfg f1 st1" "same_shape f f1" "errs_grow st st1" by (auto simp: keeps_def)
  from Cons.IH [OF k(1) _ r] Cons.prems(2) k show ?case by (auto dest: same_shape_trans errs_grow_trans)
qed auto

lemma strtok_all_set: "w \<in> set (strtok_all d s) \<Longrightarrow> set w \<subseteq> set s \<and> w \<noteq> []"
proof (induction d s rule: strtok_all.induct)
  case (1 d s)
  show ?case
  proof (cases "strtok d s")
    case None
    with "1.prems" show ?thesis by (simp add: strtok_all.simps [of d s])
  next
    case (Some x)
    then obtain t r where t: "strtok d s = Some (t, r)" by (cases x) auto
    with "1.prems" consider "w = t" | "w \<in> set (strtok_all d r)" by (auto simp: strtok_all.simps [of d s])
    then show ?thesis
    proof cases
      case 1
      with strtok_set [OF t] strtok_token [OF t] show ?thesis by simp
    next
      case 2
      with "1.IH" [OF t refl] strtok_set [OF t] show ?thesis by blast
    qed
  qed
qed

lemma option_words_nul: "NUL \<notin> set s \<Longrightarrow> w \<in> set (option_words s) \<Longrightarrow> NUL \<notin> set w"
  by (auto simp: option_words_def strlcpy_def dest!: strtok_all_set in_set_takeD)

lemma flowop_parse_options_keeps:
  assumes "opt_inv cfg f st" and "NUL \<notin> set s" and "flowop_parse_options cfg ftw s var f st = Inr (f', st')"
  shows "opt_inv cfg f' st' \<and> same_shape f f' \<and> errs_grow st st'"
proof -
  let ?f = "f\<lparr>f_options := (f_options f)\<lparr>fo_count := 1, fo_repeat := 1, fo_batch_size := 1,
                                            fo_size := 0, fo_duration := 0\<rparr>,
                f_p_id := UPERF_ANY_CONNECTION\<rparr>"
  let ?st = "cut_env var (after_strtok s) st"
  have "NUL \<notin> set (after_strtok s)" using assms(2)
    by (auto simp: after_strtok_def Let_def dest!: set_takeWhileD set_dropWhileD)
  with assms(1) have "pstate_ok ?st" by (intro cut_env_ok) (simp_all add: opt_inv_def)
  moreover have "options_typed cfg (f_options ?f)" if "options_typed cfg (f_options f)"
    using that by (auto simp: options_typed_def fo_is_def)
  ultimately have "opt_inv cfg ?f ?st" using assms(1) by (auto simp: opt_inv_def options_wf_def)
  moreover from assms(3) have "parse_options cfg ftw (option_words s) ?f ?st = Inr (f', st')"
    by (auto simp: flowop_parse_options_def Let_def split: if_splits)
  ultimately have "opt_inv cfg f' st' \<and> same_shape ?f f' \<and> errs_grow ?st st'"
    using option_words_nul [OF assms(2)] parse_options_keep by blast
  then show ?thesis by (simp add: same_shape_def errs_grow_def)
qed

end
