(* ===== verification/Profile.thy ===== *)
theory Profile
  imports Workxfer Shm Options
begin

text \<open>
  From symbols to a work order (\<open>src/parse.c\<close>, \<open>build_worklist\<close> and \<open>parse_app_profile\<close>).

  The pointers \<open>curr_grp\<close>, \<open>curr_txn\<close> and \<open>curr_flowop\<close> always point at the last group, its
  last transaction and that one's last flowop, or are null when there is none: they are not
  kept apart. The file is a parameter: what \<open>stat\<close>, \<open>open\<close> and \<open>read\<close> give. The lists of a
  work order that is thrown away are not freed, here as there.
\<close>

section \<open>The state of \<open>build_worklist\<close>\<close>

record builder =
  b_w :: workorder
  b_in_group :: bool
  b_in_txn :: bool
  b_txnid :: u32
  b_fid :: u32
  b_ps :: pstate

definition upd_grp :: "(group \<Rightarrow> group) \<Rightarrow> builder \<Rightarrow> builder" where
  "upd_grp g b = b\<lparr>b_w := (b_w b)\<lparr>w_grp := map_last g (w_grp (b_w b))\<rparr>\<rparr>"

definition upd_txn :: "(txn \<Rightarrow> txn) \<Rightarrow> builder \<Rightarrow> builder" where
  "upd_txn t = upd_grp (\<lambda>g. g\<lparr>g_tlist := map_last t (g_tlist g)\<rparr>)"

definition upd_flowop :: "(flowop \<Rightarrow> flowop) \<Rightarrow> builder \<Rightarrow> builder" where
  "upd_flowop f = upd_txn (\<lambda>t. t\<lparr>t_flist := map_last f (t_flist t)\<rparr>)"

definition curr_grp :: "builder \<Rightarrow> group option" where
  "curr_grp b = (if w_grp (b_w b) = [] then None else Some (last (w_grp (b_w b))))"

definition curr_txn :: "builder \<Rightarrow> txn option" where
  "curr_txn b = (case curr_grp b of None \<Rightarrow> None
     | Some g \<Rightarrow> if g_tlist g = [] then None else Some (last (g_tlist g)))"

definition curr_flowop :: "builder \<Rightarrow> flowop option" where
  "curr_flowop b = (case curr_txn b of None \<Rightarrow> None
     | Some t \<Rightarrow> if t_flist t = [] then None else Some (last (t_flist t)))"

definition bfail :: "string \<Rightarrow> builder \<Rightarrow> c_stop + builder option \<times> pstate" where
  \<comment> \<open>\<open>add_error\<close> and \<open>return (NULL)\<close>\<close>
  "bfail msg b = cbind (perr 1024 msg (b_ps b)) (\<lambda>st. Inr (None, st))"

definition bgo :: "builder \<Rightarrow> c_stop + builder option \<times> pstate" where
  \<comment> \<open>on to the next symbol\<close>
  "bgo b = Inr (Some b, b_ps b)"

section \<open>One case of the switch each\<close>

definition new_group :: "nat \<Rightarrow> group" where
  "new_group n = zero_group\<lparr>g_endian := UPERF_ENDIAN_VALUE,
                            g_name := strlcpy UPERF_NAME_LEN (''Group'' @ dec_nat n)\<rparr>"

definition new_txn :: "u32 \<Rightarrow> txn" where
  "new_txn n = zero_txn\<lparr>t_name := strlcpy UPERF_NAME_LEN (''Txn'' @ dec_int (sint n)),
                        t_txnid := n, t_iter := 1\<rparr>"

definition new_flowop :: "u32 \<Rightarrow> flowop" where
  "new_flowop n = zero_flowop\<lparr>f_options := zero_options\<lparr>fo_count := 1, fo_repeat := 1, fo_batch_size := 1\<rparr>,
                              f_id := n\<rparr>"

definition group_start :: "builder \<Rightarrow> c_stop + builder option \<times> pstate" where
  \<comment> \<open>\<open>grp\<close> has 1024 entries\<close>
  "group_start b =
     (let gs = w_grp (b_w b) in
      if length gs \<ge> MAXTHREADGROUPS then Inl Undefined
      else bgo (b\<lparr>b_w := (b_w b)\<lparr>w_grp := gs @ [new_group (length gs)]\<rparr>, b_txnid := 0, b_in_group := True\<rparr>))"

definition txn_start :: "builder \<Rightarrow> c_stop + builder option \<times> pstate" where
  "txn_start b =
     (if \<not> b_in_group b then bfail ''No current group'' b
      else bgo ((upd_grp (\<lambda>g. g\<lparr>g_ntxn := g_ntxn g + 1, g_tlist := g_tlist g @ [new_txn (b_txnid b)]\<rparr>) b)
                  \<lparr>b_txnid := b_txnid b + 1, b_fid := 0, b_in_txn := True\<rparr>))"

definition flowop_start :: "builder \<Rightarrow> c_stop + builder option \<times> pstate" where
  \<comment> \<open>\<open>in_txn\<close> can be left over from an earlier group\<close>
  "flowop_start b =
     (if \<not> b_in_txn b then bfail ''No current transaction'' b
      else case curr_txn b of
        None \<Rightarrow> Inl Undefined
      | Some _ \<Rightarrow> bgo ((upd_txn (\<lambda>t. t\<lparr>t_nflowop := t_nflowop t + 1,
                                        t_flist := t_flist t @ [new_flowop (b_fid b)]\<rparr>) b)
                       \<lparr>b_fid := b_fid b + 1\<rparr>))"

definition set_name :: "string \<Rightarrow> builder \<Rightarrow> c_stop + builder option \<times> pstate" where
  "set_name s b =
     (if b_in_group b then bgo (upd_grp (\<lambda>g. g\<lparr>g_name := strlcpy UPERF_NAME_LEN s\<rparr>) b)
      else bgo (b\<lparr>b_w := (b_w b)\<lparr>w_name := strlcpy NAMELEN s\<rparr>\<rparr>))"

definition in_txn_do ::
  "builder \<Rightarrow> (builder \<Rightarrow> c_stop + builder option \<times> pstate) \<Rightarrow> c_stop + builder option \<times> pstate" where
  \<comment> \<open>the guard of \<open>iterations=\<close>, \<open>rate=\<close> and \<open>duration=\<close>\<close>
  "in_txn_do b k =
     (if \<not> b_in_txn b then bfail ''No current transaction'' b
      else case curr_txn b of None \<Rightarrow> Inl Undefined | Some _ \<Rightarrow> k b)"

definition set_iterations :: "string \<Rightarrow> builder \<Rightarrow> c_stop + builder option \<times> pstate" where
  "set_iterations s b = in_txn_do b (\<lambda>b.
     cbind (string2int (Some s) (b_ps b)) (\<lambda>(n, st).
       bgo ((upd_txn (\<lambda>t. t\<lparr>t_iter := to_u64 n\<rparr>) b)\<lparr>b_ps := st\<rparr>)))"

definition set_rate :: "string \<Rightarrow> builder \<Rightarrow> c_stop + builder option \<times> pstate" where
  "set_rate s b = in_txn_do b (\<lambda>b.
     cbind (string2int (Some s) (b_ps b)) (\<lambda>(n, st).
       bgo ((upd_txn (\<lambda>t. t\<lparr>t_rate_str := strlcpy NAMELEN s, t_rate_count := to_u32 n\<rparr>) b)\<lparr>b_ps := st\<rparr>)))"

definition set_duration :: "string \<Rightarrow> builder \<Rightarrow> c_stop + builder option \<times> pstate" where
  "set_duration s b = in_txn_do b (\<lambda>b.
     cbind (string2nsec s (b_ps b)) (\<lambda>(n, st).
       bgo ((upd_txn (\<lambda>t. t\<lparr>t_duration := n, t_iter := 1\<rparr>) b)\<lparr>b_ps := st\<rparr>)))"

definition set_threads :: "u32 \<Rightarrow> string \<Rightarrow> builder \<Rightarrow> c_stop + builder option \<times> pstate" where
  \<comment> \<open>\<open>nthreads=\<close> and \<open>nprocs=\<close>, by the flag\<close>
  "set_threads flag s b =
     (if \<not> b_in_group b then bfail ''No current group'' b
      else cbind (string2int (Some s) (b_ps b)) (\<lambda>(n, st).
        bgo ((upd_grp (\<lambda>g. g\<lparr>g_nthreads := to_u32 n, g_strand_flag := g_strand_flag g OR flag\<rparr>) b)\<lparr>b_ps := st\<rparr>)))"

definition set_type :: "string \<Rightarrow> builder \<Rightarrow> c_stop + builder option \<times> pstate" where
  "set_type s b =
     (let t = flowop_type_of_name s in
      case curr_flowop b of
        None \<Rightarrow> Inl Undefined
      | Some _ \<Rightarrow>
          if t = FLOWOP_ERROR then bfail (''Unknown flowop '' @ s) b
          else bgo (upd_flowop (\<lambda>f. f\<lparr>f_type := t, f_execute := Some (flowop_get_execute_func t),
                                       f_name := strlcpy UPERF_NAME_LEN s\<rparr>) b))"

definition set_options ::
  "build_config \<Rightarrow> (string \<Rightarrow> ftw_entry list \<times> int) \<Rightarrow> string \<Rightarrow> string option \<Rightarrow> builder \<Rightarrow> c_stop + builder option \<times> pstate" where
  "set_options cfg ftw s var b =
     (case curr_flowop b of
        None \<Rightarrow> Inl Undefined
      | Some f \<Rightarrow> cbind (flowop_parse_options cfg ftw s var f (b_ps b)) (\<lambda>(f, st).
                    bgo ((upd_flowop (\<lambda>_. f) b)\<lparr>b_ps := st\<rparr>)))"

definition symbol_text :: "symbol \<Rightarrow> pstate \<Rightarrow> string" where
  \<comment> \<open>a symbol that points into the environment shows what is there now\<close>
  "symbol_text sy st =
     (case sy_origin sy of
        Env v \<Rightarrow> (case pe_env st v of Some e \<Rightarrow> e | None \<Rightarrow> sy_text sy)
      | _ \<Rightarrow> sy_text sy)"

definition symbol_var :: "symbol \<Rightarrow> string option" where
  "symbol_var sy = (case sy_origin sy of Env v \<Rightarrow> Some v | _ \<Rightarrow> None)"

definition build_symbol ::
  "build_config \<Rightarrow> (string \<Rightarrow> ftw_entry list \<times> int) \<Rightarrow> symbol \<Rightarrow> builder \<Rightarrow> c_stop + builder option \<times> pstate" where
  \<comment> \<open>the body of the loop\<close>
  "build_symbol cfg ftw sy b =
     (let s = symbol_text sy (b_ps b) in
      case sy_type sy of
        TOKEN_PROFILE_START \<Rightarrow> bgo b
      | TOKEN_PROFILE_END \<Rightarrow> bgo b
      | TOKEN_GROUP_START \<Rightarrow> group_start b
      | TOKEN_GROUP_END \<Rightarrow> bgo (b\<lparr>b_in_group := False\<rparr>)
      | TOKEN_TXN_START \<Rightarrow> txn_start b
      | TOKEN_TXN_END \<Rightarrow> bgo (b\<lparr>b_in_txn := False\<rparr>)
      | TOKEN_FLOWOP_START \<Rightarrow> flowop_start b
      | TOKEN_XML_END \<Rightarrow> bgo b
      | TOKEN_NAME \<Rightarrow> set_name s b
      | TOKEN_ITERATIONS \<Rightarrow> set_iterations s b
      | TOKEN_TYPE \<Rightarrow> set_type s b
      | TOKEN_OPTIONS \<Rightarrow> set_options cfg ftw s (symbol_var sy) b
      | TOKEN_DURATION \<Rightarrow> set_duration s b
      | TOKEN_NTHREADS \<Rightarrow> set_threads STRAND_TYPE_THREAD s b
      | TOKEN_NPROCESSES \<Rightarrow> set_threads STRAND_TYPE_PROCESS s b
      | TOKEN_RATE \<Rightarrow> set_rate s b
      | TOKEN_ERROR \<Rightarrow> bfail (''Unknown symbol: '' @ s) b)"

fun build_loop ::
  "build_config \<Rightarrow> (string \<Rightarrow> ftw_entry list \<times> int) \<Rightarrow> symbol list \<Rightarrow> builder \<Rightarrow> c_stop + builder option \<times> pstate" where
  "build_loop cfg ftw [] b = bgo b"
| "build_loop cfg ftw (sy # syms) b =
     cbind (build_symbol cfg ftw sy b) (\<lambda>(r, st).
       case r of None \<Rightarrow> Inr (None, st) | Some b \<Rightarrow> build_loop cfg ftw syms b)"

definition builder_start :: "pstate \<Rightarrow> builder" where
  "builder_start st = \<lparr>b_w = \<lparr>w_name = [], w_grp = []\<rparr>, b_in_group = False, b_in_txn = False,
                       b_txnid = 0, b_fid = 0, b_ps = st\<rparr>"

definition build_worklist ::
  "build_config \<Rightarrow> (string \<Rightarrow> ftw_entry list \<times> int) \<Rightarrow> symbol list \<Rightarrow> pstate \<Rightarrow> c_stop + workorder option \<times> pstate" where
  "build_worklist cfg ftw syms st =
     cbind (build_loop cfg ftw syms (builder_start st)) (\<lambda>(r, st). Inr (map_option b_w r, st))"

section \<open>\<open>parse_app_profile\<close>\<close>

record profile_file =
  pf_stat :: int                \<comment> \<open>what \<open>stat\<close> returns\<close>
  pf_size :: nat                \<comment> \<open>\<open>st_size\<close>\<close>
  pf_open :: int                \<comment> \<open>what \<open>open\<close> returns\<close>
  pf_read :: "string option"    \<comment> \<open>the bytes of one \<open>read\<close>, or its failure\<close>

definition parse_app_profile ::
  "build_config \<Rightarrow> (string \<Rightarrow> ftw_entry list \<times> int) \<Rightarrow> (string \<Rightarrow> string option) \<Rightarrow> profile_file \<Rightarrow> sfv_list list \<Rightarrow>
     c_stop + workorder option \<times> pstate" where
  \<comment> \<open>the last byte of the file is replaced by a NUL\<close>
  "parse_app_profile cfg ftw env file sfv =
     (let st = \<lparr>pe_env = env, pe_errs = [], pe_sfv = sfv\<rparr> in
      if pf_stat file \<noteq> 0 then Inr (None, st)
      else if pf_open file = - 1 then Inr (None, st)
      else if pf_size file = 0 then Inr (None, st)
      else case pf_read file of
        None \<Rightarrow> Inr (None, st)
      | Some data \<Rightarrow>
          if length data \<noteq> pf_size file then Inr (None, st)
          else let buffer = takeWhile (\<lambda>c. c \<noteq> NUL) (butlast data) in
            cbind (parse env buffer) (\<lambda>(syms, _, errs).
              cbind (build_worklist cfg ftw syms (st\<lparr>pe_errs := errs\<rparr>)) (\<lambda>(w, st).
                if w = None \<or> pe_errs st \<noteq> [] then Inr (None, st) else Inr (w, st))))"


section \<open>What the parser builds\<close>

text \<open>
  \<open>clean\<close> says that no error was reported; then the numbers are in the range of an \<open>int\<close> and
  the options are typed. The rest holds in any case. \<open>n\<close> bounds the lengths of the lists.
\<close>

definition flowop_good :: "build_config \<Rightarrow> bool \<Rightarrow> flowop \<Rightarrow> bool" where
  "flowop_good cfg clean f =
     (options_wf (f_options f) \<and> flowop_type_ok (f_type f) \<and>
      f_execute f = (if f_type f = FLOWOP_ERROR then None else Some (flowop_get_execute_func (f_type f))) \<and>
      (clean \<longrightarrow> options_typed cfg (f_options f)))"

definition numbered :: "('a \<Rightarrow> u32) \<Rightarrow> 'a list \<Rightarrow> bool" where
  "numbered g xs = (map g xs = map of_nat [0..<length xs])"

definition txn_good :: "build_config \<Rightarrow> bool \<Rightarrow> nat \<Rightarrow> txn \<Rightarrow> bool" where
  "txn_good cfg clean n t =
     (t_nflowop t = of_nat (length (t_flist t)) \<and> length (t_flist t) \<le> n \<and> numbered f_id (t_flist t) \<and>
      c_string NAMELEN (t_rate_str t) \<and> list_all (flowop_good cfg clean) (t_flist t) \<and>
      (clean \<longrightarrow> unat (t_rate_count t) < 2 ^ 31 \<and> unat (t_iter t) < 2 ^ 31))"

definition group_good :: "build_config \<Rightarrow> bool \<Rightarrow> nat \<Rightarrow> group \<Rightarrow> bool" where
  "group_good cfg clean n g =
     (g_endian g = UPERF_ENDIAN_VALUE \<and> g_ntxn g = of_nat (length (g_tlist g)) \<and> length (g_tlist g) \<le> n \<and>
      numbered t_txnid (g_tlist g) \<and> list_all (txn_good cfg clean n) (g_tlist g) \<and>
      (clean \<longrightarrow> unat (g_nthreads g) < 2 ^ 31))"

definition work_good :: "build_config \<Rightarrow> bool \<Rightarrow> nat \<Rightarrow> workorder \<Rightarrow> bool" where
  "work_good cfg clean n w =
     (length (w_grp w) \<le> MAXTHREADGROUPS \<and> list_all (group_good cfg clean n) (w_grp w))"

definition builder_good :: "build_config \<Rightarrow> nat \<Rightarrow> builder \<Rightarrow> bool" where
  "builder_good cfg n b =
     (pstate_ok (b_ps b) \<and> work_good cfg (pe_errs (b_ps b) = []) n (b_w b) \<and>
      (\<forall>g. curr_grp b = Some g \<longrightarrow> b_txnid b = of_nat (length (g_tlist g))) \<and>
      (\<forall>t. curr_txn b = Some t \<longrightarrow> b_fid b = of_nat (length (t_flist t))) \<and>
      (b_in_group b \<longrightarrow> curr_grp b \<noteq> None))"

lemma list_all_map_last:
  "list_all P xs \<Longrightarrow> (\<And>x. xs \<noteq> [] \<Longrightarrow> x = last xs \<Longrightarrow> P x \<Longrightarrow> Q (f x)) \<Longrightarrow> (\<And>x. P x \<Longrightarrow> Q x) \<Longrightarrow> list_all Q (map_last f xs)"
  by (cases xs rule: rev_cases) (auto simp: list_all_iff)

lemma last_map_last: "xs \<noteq> [] \<Longrightarrow> last (map_last f xs) = f (last xs)"
  by (cases xs rule: rev_cases) auto

lemma map_map_last: "(xs \<noteq> [] \<Longrightarrow> g (f (last xs)) = g (last xs)) \<Longrightarrow> map g (map_last f xs) = map g xs"
  by (cases xs rule: rev_cases) auto

lemma numbered_map_last: "(xs \<noteq> [] \<Longrightarrow> g (f (last xs)) = g (last xs)) \<Longrightarrow> numbered g (map_last f xs) = numbered g xs"
  by (simp add: numbered_def map_map_last)

lemma numbered_snoc: "numbered g xs \<Longrightarrow> g x = of_nat (length xs) \<Longrightarrow> numbered g (xs @ [x])"
  by (simp add: numbered_def)

lemma flowop_good_mono: "flowop_good cfg c f \<Longrightarrow> (c' \<longrightarrow> c) \<Longrightarrow> flowop_good cfg c' f"
  by (auto simp: flowop_good_def)

lemma txn_good_mono: "txn_good cfg c n t \<Longrightarrow> (c' \<longrightarrow> c) \<Longrightarrow> n \<le> n' \<Longrightarrow> txn_good cfg c' n' t"
  by (auto simp: txn_good_def list_all_iff intro: flowop_good_mono)

lemma group_good_mono: "group_good cfg c n g \<Longrightarrow> (c' \<longrightarrow> c) \<Longrightarrow> n \<le> n' \<Longrightarrow> group_good cfg c' n' g"
  by (auto simp: group_good_def list_all_iff intro: txn_good_mono)

lemma work_good_mono: "work_good cfg c n w \<Longrightarrow> (c' \<longrightarrow> c) \<Longrightarrow> n \<le> n' \<Longrightarrow> work_good cfg c' n' w"
  by (auto simp: work_good_def list_all_iff intro: group_good_mono)

lemma work_good_upd_grp:
  assumes "work_good cfg c n (b_w b)" and "c' \<longrightarrow> c" and "n \<le> n'"
    and "\<And>g. curr_grp b = Some g \<Longrightarrow> group_good cfg c n g \<Longrightarrow> group_good cfg c' n' (h g)"
  shows "work_good cfg c' n' (b_w (upd_grp h b))"
  using assms(1) assms(4) unfolding work_good_def upd_grp_def
  by (auto intro!: list_all_map_last simp: curr_grp_def intro: group_good_mono [OF _ assms(2,3)])

lemma work_good_upd_txn:
  assumes "work_good cfg c n (b_w b)" and "c' \<longrightarrow> c" and "n \<le> n'"
    and h: "\<And>t. curr_txn b = Some t \<Longrightarrow> txn_good cfg c n t \<Longrightarrow> txn_good cfg c' n' (h t)"
    and i: "\<And>t. t_txnid (h t) = t_txnid t"
  shows "work_good cfg c' n' (b_w (upd_txn h b))"
  unfolding upd_txn_def
proof (rule work_good_upd_grp [OF assms(1-3)])
  fix g assume g: "curr_grp b = Some g" "group_good cfg c n g"
  have "list_all (txn_good cfg c' n') (map_last h (g_tlist g))"
  proof (rule list_all_map_last)
    show "list_all (txn_good cfg c n) (g_tlist g)" using g(2) by (simp add: group_good_def)
    show "txn_good cfg c' n' (h t)" if "g_tlist g \<noteq> []" "t = last (g_tlist g)" "txn_good cfg c n t" for t
      using h that g(1) by (simp add: curr_txn_def)
    show "txn_good cfg c' n' t" if "txn_good cfg c n t" for t
      by (rule txn_good_mono [OF that assms(2,3)])
  qed
  with g(2) assms(2,3) show "group_good cfg c' n' (g\<lparr>g_tlist := map_last h (g_tlist g)\<rparr>)"
    by (auto simp: group_good_def numbered_map_last i)
qed

lemma work_good_upd_flowop:
  assumes "work_good cfg c n (b_w b)" and "c' \<longrightarrow> c" and "n \<le> n'"
    and h: "\<And>f. curr_flowop b = Some f \<Longrightarrow> flowop_good cfg c f \<Longrightarrow> flowop_good cfg c' (h f) \<and> f_id (h f) = f_id f"
  shows "work_good cfg c' n' (b_w (upd_flowop h b))"
  unfolding upd_flowop_def
proof (rule work_good_upd_txn [OF assms(1-3)])
  fix t assume t: "curr_txn b = Some t" "txn_good cfg c n t"
  have fl: "flowop_good cfg c' (h f)" "f_id (h f) = f_id f" if "t_flist t \<noteq> []" "f = last (t_flist t)" for f
  proof -
    have "curr_flowop b = Some f" using that t(1) by (simp add: curr_flowop_def)
    moreover have "flowop_good cfg c f" using that t(2) by (simp add: txn_good_def list_all_iff)
    ultimately show "flowop_good cfg c' (h f)" "f_id (h f) = f_id f" using h by auto
  qed
  have "list_all (flowop_good cfg c') (map_last h (t_flist t))"
  proof (rule list_all_map_last)
    show "list_all (flowop_good cfg c) (t_flist t)" using t(2) by (simp add: txn_good_def)
    show "flowop_good cfg c' (h f)" if "t_flist t \<noteq> []" "f = last (t_flist t)" for f using fl that by blast
    show "flowop_good cfg c' f" if "flowop_good cfg c f" for f by (rule flowop_good_mono [OF that assms(2)])
  qed
  with t(2) assms(2,3) fl show "txn_good cfg c' n' (t\<lparr>t_flist := map_last h (t_flist t)\<rparr>)"
    by (auto simp: txn_good_def numbered_map_last)
qed simp


subsection \<open>Every symbol keeps it\<close>

lemma curr_fields [simp]:
  "curr_grp (b\<lparr>b_ps := st\<rparr>) = curr_grp b" "curr_grp (b\<lparr>b_txnid := i\<rparr>) = curr_grp b"
  "curr_grp (b\<lparr>b_fid := i\<rparr>) = curr_grp b" "curr_grp (b\<lparr>b_in_group := x\<rparr>) = curr_grp b"
  "curr_grp (b\<lparr>b_in_txn := x\<rparr>) = curr_grp b"
  "curr_grp (b\<lparr>b_w := (b_w b)\<lparr>w_name := s\<rparr>\<rparr>) = curr_grp b"
  "curr_txn (b\<lparr>b_ps := st\<rparr>) = curr_txn b" "curr_txn (b\<lparr>b_txnid := i\<rparr>) = curr_txn b"
  "curr_txn (b\<lparr>b_fid := i\<rparr>) = curr_txn b" "curr_txn (b\<lparr>b_in_group := x\<rparr>) = curr_txn b"
  "curr_txn (b\<lparr>b_in_txn := x\<rparr>) = curr_txn b"
  "curr_txn (b\<lparr>b_w := (b_w b)\<lparr>w_name := s\<rparr>\<rparr>) = curr_txn b"
  by (simp_all add: curr_grp_def curr_txn_def)

lemma curr_upd_grp: "curr_grp (upd_grp h b) = map_option h (curr_grp b)"
  by (simp add: curr_grp_def upd_grp_def last_map_last)

lemma curr_txn_upd_grp: "(\<And>g. g_tlist (h g) = g_tlist g) \<Longrightarrow> curr_txn (upd_grp h b) = curr_txn b"
  by (simp add: curr_txn_def curr_upd_grp split: option.split)

lemma curr_upd_txn: "curr_txn (upd_txn h b) = map_option h (curr_txn b)"
  by (auto simp: curr_txn_def upd_txn_def curr_upd_grp last_map_last split: option.split)

lemma curr_grp_upd_txn: "curr_grp (upd_txn h b) = map_option (\<lambda>g. g\<lparr>g_tlist := map_last h (g_tlist g)\<rparr>) (curr_grp b)"
  by (simp add: upd_txn_def curr_upd_grp)

lemma upd_fields [simp]:
  "b_ps (upd_grp h b) = b_ps b" "b_txnid (upd_grp h b) = b_txnid b" "b_fid (upd_grp h b) = b_fid b"
  "b_in_group (upd_grp h b) = b_in_group b"
  "b_ps (upd_txn k b) = b_ps b" "b_txnid (upd_txn k b) = b_txnid b" "b_fid (upd_txn k b) = b_fid b"
  "b_in_group (upd_txn k b) = b_in_group b"
  "b_ps (upd_flowop l b) = b_ps b" "b_txnid (upd_flowop l b) = b_txnid b" "b_fid (upd_flowop l b) = b_fid b"
  "b_in_group (upd_flowop l b) = b_in_group b"
  by (simp_all add: upd_grp_def upd_txn_def upd_flowop_def)

definition step_good :: "build_config \<Rightarrow> nat \<Rightarrow> builder \<Rightarrow> c_stop + builder option \<times> pstate \<Rightarrow> bool" where
  "step_good cfg n b res = (\<forall>r st. res = Inr (r, st) \<longrightarrow> errs_grow (b_ps b) st \<and> pstate_ok st \<and>
     (case r of None \<Rightarrow> pe_errs st \<noteq> [] | Some b' \<Rightarrow> st = b_ps b' \<and> builder_good cfg (Suc n) b'))"

lemma step_good_bgo: "builder_good cfg (Suc n) b' \<Longrightarrow> errs_grow (b_ps b) (b_ps b') \<Longrightarrow> step_good cfg n b (bgo b')"
  by (simp add: step_good_def bgo_def builder_good_def)

lemma step_good_bfail: "builder_good cfg n b \<Longrightarrow> step_good cfg n b (bfail m b)"
  by (auto simp: step_good_def bfail_def cbind_Inr errs_grow_def builder_good_def dest!: perr_Inr)

lemma step_good_Inl [simp]: "step_good cfg n b (Inl e)"
  by (simp add: step_good_def)

lemma builder_good_Suc: "builder_good cfg n b \<Longrightarrow> builder_good cfg (Suc n) b"
  by (auto simp: builder_good_def intro: work_good_mono)

lemma builder_good_curr:
  "builder_good cfg n b \<Longrightarrow> curr_grp b = Some g \<Longrightarrow> group_good cfg (pe_errs (b_ps b) = []) n g"
  "builder_good cfg n b \<Longrightarrow> curr_txn b = Some t \<Longrightarrow> txn_good cfg (pe_errs (b_ps b) = []) n t"
  "builder_good cfg n b \<Longrightarrow> curr_flowop b = Some f \<Longrightarrow> flowop_good cfg (pe_errs (b_ps b) = []) f"
proof -
  assume b: "builder_good cfg n b"
  show g: "group_good cfg (pe_errs (b_ps b) = []) n g" if "curr_grp b = Some g" for g
    using b that by (auto simp: builder_good_def work_good_def list_all_iff curr_grp_def split: if_splits)
  show t: "txn_good cfg (pe_errs (b_ps b) = []) n t" if "curr_txn b = Some t" for t
    using g that by (auto simp: group_good_def list_all_iff curr_txn_def split: if_splits option.splits)
  show "flowop_good cfg (pe_errs (b_ps b) = []) f" if "curr_flowop b = Some f"
    using t that by (auto simp: txn_good_def list_all_iff curr_flowop_def split: if_splits option.splits)
qed

text \<open>Changing a group, a transaction or a flowop in place.\<close>

lemma good_upd_grp:
  assumes "builder_good cfg n b" and "pstate_ok st" and "errs_grow (b_ps b) st"
    and "\<And>g. group_good cfg (pe_errs (b_ps b) = []) n g \<Longrightarrow> group_good cfg (pe_errs st = []) (Suc n) (h g)"
    and "\<And>g. g_tlist (h g) = g_tlist g"
  shows "builder_good cfg (Suc n) ((upd_grp h b)\<lparr>b_ps := st\<rparr>)"
  using assms work_good_upd_grp [of cfg "pe_errs (b_ps b) = []" n b "pe_errs st = []" "Suc n" h]
  by (auto simp: builder_good_def errs_grow_def curr_upd_grp curr_txn_upd_grp)

lemma good_upd_txn:
  assumes "builder_good cfg n b" and "pstate_ok st" and "errs_grow (b_ps b) st"
    and "\<And>t. txn_good cfg (pe_errs (b_ps b) = []) n t \<Longrightarrow> txn_good cfg (pe_errs st = []) (Suc n) (h t)"
    and "\<And>t. t_txnid (h t) = t_txnid t" and "\<And>t. length (t_flist (h t)) = length (t_flist t)"
  shows "builder_good cfg (Suc n) ((upd_txn h b)\<lparr>b_ps := st\<rparr>)"
  using assms work_good_upd_txn [of cfg "pe_errs (b_ps b) = []" n b "pe_errs st = []" "Suc n" h]
  by (auto simp: builder_good_def errs_grow_def curr_upd_txn curr_grp_upd_txn)

lemma good_upd_flowop:
  assumes "builder_good cfg n b" and "pstate_ok st" and "errs_grow (b_ps b) st"
    and "\<And>f. curr_flowop b = Some f \<Longrightarrow> flowop_good cfg (pe_errs (b_ps b) = []) f \<Longrightarrow>
           flowop_good cfg (pe_errs st = []) (h f) \<and> f_id (h f) = f_id f"
  shows "builder_good cfg (Suc n) ((upd_flowop h b)\<lparr>b_ps := st\<rparr>)"
proof -
  have "work_good cfg (pe_errs st = []) (Suc n) (b_w (upd_flowop h b))"
    using assms by (intro work_good_upd_flowop [of cfg "pe_errs (b_ps b) = []" n]) (auto simp: builder_good_def errs_grow_def)
  with assms show ?thesis
    by (auto simp: builder_good_def upd_flowop_def curr_upd_txn curr_grp_upd_txn)
qed


lemma step_good_cbind2:
  assumes "\<And>x y. m = Inr (x, y) \<Longrightarrow> step_good cfg n b (k x y)"
  shows "step_good cfg n b (cbind m (\<lambda>(x, y). k x y))"
  using assms by (cases m) auto

lemma in_txn_do_good:
  assumes "builder_good cfg n b" and "step_good cfg n b (k b)"
  shows "step_good cfg n b (in_txn_do b k)"
  using assms by (auto simp: in_txn_do_def intro: step_good_bfail split: option.split)

lemma string2int_state:
  assumes "builder_good cfg n b" and "string2int (Some s) (b_ps b) = Inr (k, st)"
  shows "pstate_ok st \<and> errs_grow (b_ps b) st \<and> (pe_errs st = [] \<longrightarrow> 0 \<le> k \<and> k < 2 ^ 31)"
  using string2int_Inr [OF assms(2)] assms(1) by (auto simp: builder_good_def)

lemma string2nsec_state:
  assumes "builder_good cfg n b" and "string2nsec s (b_ps b) = Inr (k, st)"
  shows "pstate_ok st \<and> errs_grow (b_ps b) st"
  using string2nsec_Inr [OF assms(2)] assms(1) by (auto simp: builder_good_def)

lemma set_iterations_good: "builder_good cfg n b \<Longrightarrow> step_good cfg n b (set_iterations s b)"
  unfolding set_iterations_def
proof (intro in_txn_do_good step_good_cbind2 step_good_bgo)
  fix k st assume b: "builder_good cfg n b" and k: "string2int (Some s) (b_ps b) = Inr (k, st)"
  note st = string2int_state [OF b k]
  show "builder_good cfg (Suc n) (upd_txn (\<lambda>t. t\<lparr>t_iter := to_u64 k\<rparr>) b\<lparr>b_ps := st\<rparr>)"
  proof (rule good_upd_txn [OF b])
    fix t assume "txn_good cfg (pe_errs (b_ps b) = []) n t"
    then show "txn_good cfg (pe_errs st = []) (Suc n) (t\<lparr>t_iter := to_u64 k\<rparr>)"
      using st to_u64_small [of k] txn_good_mono [of cfg "pe_errs (b_ps b) = []" n t "pe_errs st = []" "Suc n"]
      by (auto simp: txn_good_def errs_grow_def)
  qed (use st in auto)
  show "errs_grow (b_ps b) (b_ps (upd_txn (\<lambda>t. t\<lparr>t_iter := to_u64 k\<rparr>) b\<lparr>b_ps := st\<rparr>))" using st by simp
qed

lemma set_rate_good: "builder_good cfg n b \<Longrightarrow> NUL \<notin> set s \<Longrightarrow> step_good cfg n b (set_rate s b)"
  unfolding set_rate_def
proof (intro in_txn_do_good step_good_cbind2 step_good_bgo)
  fix k st assume b: "builder_good cfg n b" and nul: "NUL \<notin> set s" and k: "string2int (Some s) (b_ps b) = Inr (k, st)"
  note st = string2int_state [OF b k]
  let ?h = "\<lambda>t. t\<lparr>t_rate_str := strlcpy NAMELEN s, t_rate_count := to_u32 k\<rparr>"
  show "builder_good cfg (Suc n) (upd_txn ?h b\<lparr>b_ps := st\<rparr>)"
  proof (rule good_upd_txn [OF b])
    fix t assume "txn_good cfg (pe_errs (b_ps b) = []) n t"
    then show "txn_good cfg (pe_errs st = []) (Suc n) (?h t)"
      using st to_u32_small [of k] c_string_strlcpy [OF nul, of NAMELEN]
        txn_good_mono [of cfg "pe_errs (b_ps b) = []" n t "pe_errs st = []" "Suc n"]
      by (auto simp: txn_good_def errs_grow_def NAMELEN_def)
  qed (use st in auto)
  show "errs_grow (b_ps b) (b_ps (upd_txn ?h b\<lparr>b_ps := st\<rparr>))" using st by simp
qed

lemma set_duration_good: "builder_good cfg n b \<Longrightarrow> step_good cfg n b (set_duration s b)"
  unfolding set_duration_def
proof (intro in_txn_do_good step_good_cbind2 step_good_bgo)
  fix k st assume b: "builder_good cfg n b" and k: "string2nsec s (b_ps b) = Inr (k, st)"
  note st = string2nsec_state [OF b k]
  let ?h = "\<lambda>t. t\<lparr>t_duration := k, t_iter := 1\<rparr>"
  show "builder_good cfg (Suc n) (upd_txn ?h b\<lparr>b_ps := st\<rparr>)"
  proof (rule good_upd_txn [OF b])
    fix t assume "txn_good cfg (pe_errs (b_ps b) = []) n t"
    then show "txn_good cfg (pe_errs st = []) (Suc n) (?h t)"
      using st txn_good_mono [of cfg "pe_errs (b_ps b) = []" n t "pe_errs st = []" "Suc n"]
      by (auto simp: txn_good_def errs_grow_def)
  qed (use st in auto)
  show "errs_grow (b_ps b) (b_ps (upd_txn ?h b\<lparr>b_ps := st\<rparr>))" using st by simp
qed

lemma set_threads_good: "builder_good cfg n b \<Longrightarrow> step_good cfg n b (set_threads flag s b)"
proof (cases "b_in_group b")
  case True
  assume b: "builder_good cfg n b"
  let ?h = "\<lambda>k g. g\<lparr>g_nthreads := to_u32 k, g_strand_flag := g_strand_flag g OR flag\<rparr>"
  have "step_good cfg n b (bgo (upd_grp (?h k) b\<lparr>b_ps := st\<rparr>))" if k: "string2int (Some s) (b_ps b) = Inr (k, st)" for k st
  proof (rule step_good_bgo)
    note st = string2int_state [OF b k]
    show "builder_good cfg (Suc n) (upd_grp (?h k) b\<lparr>b_ps := st\<rparr>)"
    proof (rule good_upd_grp [OF b])
      fix g assume "group_good cfg (pe_errs (b_ps b) = []) n g"
      then show "group_good cfg (pe_errs st = []) (Suc n) (?h k g)"
        using st to_u32_small [of k] group_good_mono [of cfg "pe_errs (b_ps b) = []" n g "pe_errs st = []" "Suc n"]
        by (auto simp: group_good_def errs_grow_def)
    qed (use st in auto)
    show "errs_grow (b_ps b) (b_ps (upd_grp (?h k) b\<lparr>b_ps := st\<rparr>))" using st by simp
  qed
  with True show ?thesis by (simp add: set_threads_def step_good_cbind2)
qed (simp add: set_threads_def step_good_bfail)

lemma flowop_type_of_name_ok: "flowop_type_ok (flowop_type_of_name s)"
proof -
  have "(a, t) \<in> set flowops \<Longrightarrow> flowop_type_ok t" for a t
    by (auto simp: flowops_def flowop_type_ok_def)
  then show ?thesis
    by (auto simp: flowop_type_of_name_def flowop_type_ok_def [of FLOWOP_ERROR] dest!: find_Some_in_set split: option.split)
qed

lemma set_type_good: "builder_good cfg n b \<Longrightarrow> step_good cfg n b (set_type s b)"
proof (cases "flowop_type_of_name s = FLOWOP_ERROR")
  case True
  assume "builder_good cfg n b"
  with True show ?thesis by (auto simp: set_type_def Let_def step_good_bfail split: option.split)
next
  case False
  assume b: "builder_good cfg n b"
  let ?h = "\<lambda>f. f\<lparr>f_type := flowop_type_of_name s, f_execute := Some (flowop_get_execute_func (flowop_type_of_name s)),
                   f_name := strlcpy UPERF_NAME_LEN s\<rparr>"
  have "builder_good cfg (Suc n) (upd_flowop ?h b\<lparr>b_ps := b_ps b\<rparr>)"
    using b False flowop_type_of_name_ok [of s]
    by (intro good_upd_flowop) (auto simp: flowop_good_def builder_good_def)
  moreover have "upd_flowop ?h b\<lparr>b_ps := b_ps b\<rparr> = upd_flowop ?h b"
    by (simp add: upd_flowop_def upd_txn_def upd_grp_def)
  ultimately have "step_good cfg n b (bgo (upd_flowop ?h b))" by (intro step_good_bgo) simp_all
  with False show ?thesis by (auto simp: set_type_def Let_def split: option.split)
qed

lemma set_options_good:
  assumes b: "builder_good cfg n b" and nul: "NUL \<notin> set s"
  shows "step_good cfg n b (set_options cfg ftw s var b)"
proof (cases "curr_flowop b")
  case (Some f)
  have "step_good cfg n b (bgo ((upd_flowop (\<lambda>_. f') b)\<lparr>b_ps := st\<rparr>))"
    if p: "flowop_parse_options cfg ftw s var f (b_ps b) = Inr (f', st)" for f' st
  proof (rule step_good_bgo)
    note f = builder_good_curr(3) [OF b Some]
    have "opt_inv cfg f (b_ps b)" using f b by (auto simp: opt_inv_def flowop_good_def builder_good_def)
    from flowop_parse_options_keeps [OF this nul p]
    have k: "opt_inv cfg f' st" "same_shape f f'" "errs_grow (b_ps b) st" by auto
    show "builder_good cfg (Suc n) ((upd_flowop (\<lambda>_. f') b)\<lparr>b_ps := st\<rparr>)"
      using k f Some
      by (intro good_upd_flowop [OF b]) (auto simp: flowop_good_def opt_inv_def same_shape_def)
    show "errs_grow (b_ps b) (b_ps ((upd_flowop (\<lambda>_. f') b)\<lparr>b_ps := st\<rparr>))" using k by simp
  qed
  with Some show ?thesis by (simp add: set_options_def step_good_cbind2)
qed (simp add: set_options_def)


lemma new_group_good: "group_good cfg c n (new_group k)" "g_tlist (new_group k) = []"
  by (simp_all add: group_good_def new_group_def zero_group_def numbered_def)

lemma group_start_good: "builder_good cfg n b \<Longrightarrow> step_good cfg n b (group_start b)"
proof (cases "length (w_grp (b_w b)) \<ge> MAXTHREADGROUPS")
  case False
  assume b: "builder_good cfg n b"
  let ?b = "b\<lparr>b_w := (b_w b)\<lparr>w_grp := w_grp (b_w b) @ [new_group (length (w_grp (b_w b)))]\<rparr>, b_txnid := 0, b_in_group := True\<rparr>"
  from b have "work_good cfg (pe_errs (b_ps b) = []) (Suc n) (b_w b)" by (auto simp: builder_good_def intro: work_good_mono)
  then have "work_good cfg (pe_errs (b_ps b) = []) (Suc n) (b_w ?b)"
    using False new_group_good(1) by (simp add: work_good_def)
  then have "builder_good cfg (Suc n) ?b" using b new_group_good(2)
    by (simp add: builder_good_def curr_grp_def curr_txn_def)
  then have "step_good cfg n b (bgo ?b)" by (intro step_good_bgo) simp_all
  with False show ?thesis by (simp add: group_start_def Let_def)
qed (simp add: group_start_def)

lemma good_txn_start:
  assumes b: "builder_good cfg n b" and "b_in_group b"
  shows "builder_good cfg (Suc n) ((upd_grp (\<lambda>g. g\<lparr>g_ntxn := g_ntxn g + 1, g_tlist := g_tlist g @ [new_txn (b_txnid b)]\<rparr>) b)
                  \<lparr>b_txnid := b_txnid b + 1, b_fid := 0, b_in_txn := True\<rparr>)"
proof -
  let ?h = "\<lambda>g. g\<lparr>g_ntxn := g_ntxn g + 1, g_tlist := g_tlist g @ [new_txn (b_txnid b)]\<rparr>"
  let ?c = "pe_errs (b_ps b) = []"
  from assms obtain g where g: "curr_grp b = Some g" by (auto simp: builder_good_def)
  with b have id: "b_txnid b = of_nat (length (g_tlist g))" by (simp add: builder_good_def)
  have new: "txn_good cfg ?c (Suc n) (new_txn k)" for k
    by (simp add: txn_good_def new_txn_def zero_txn_def numbered_def c_string_def NAMELEN_def)
  have "work_good cfg ?c (Suc n) (b_w (upd_grp ?h b))"
  proof (rule work_good_upd_grp)
    fix g' assume "curr_grp b = Some g'" and gg: "group_good cfg ?c n g'"
    with g id have id: "b_txnid b = of_nat (length (g_tlist g'))" by simp
    have "numbered t_txnid (g_tlist g' @ [new_txn (b_txnid b)])"
      using gg id by (intro numbered_snoc) (auto simp: group_good_def new_txn_def)
    with gg new group_good_mono [OF gg, of ?c "Suc n"] show "group_good cfg ?c (Suc n) (?h g')"
      by (simp add: group_good_def)
  qed (use b in \<open>auto simp: builder_good_def\<close>)
  with b g id show ?thesis
    by (auto simp: builder_good_def curr_upd_grp curr_txn_def new_txn_def zero_txn_def)
qed

lemma txn_start_good: "builder_good cfg n b \<Longrightarrow> step_good cfg n b (txn_start b)"
  by (auto simp: txn_start_def intro!: step_good_bfail step_good_bgo good_txn_start)

lemma good_flowop_start:
  assumes b: "builder_good cfg n b" and t: "curr_txn b = Some t"
  shows "builder_good cfg (Suc n) ((upd_txn (\<lambda>t. t\<lparr>t_nflowop := t_nflowop t + 1,
                                        t_flist := t_flist t @ [new_flowop (b_fid b)]\<rparr>) b)\<lparr>b_fid := b_fid b + 1\<rparr>)"
proof -
  let ?h = "\<lambda>t. t\<lparr>t_nflowop := t_nflowop t + 1, t_flist := t_flist t @ [new_flowop (b_fid b)]\<rparr>"
  let ?c = "pe_errs (b_ps b) = []"
  from b t have id: "b_fid b = of_nat (length (t_flist t))" by (simp add: builder_good_def)
  have new: "flowop_good cfg ?c (new_flowop k)" for k
    by (simp add: flowop_good_def new_flowop_def zero_flowop_def zero_options_def options_wf_def c_string_def
        flowop_type_ok_def options_typed_def fo_is_def PATHMAX_def MAXHOSTNAME_def)
  have "work_good cfg ?c (Suc n) (b_w (upd_txn ?h b))"
  proof (rule work_good_upd_txn)
    fix t' assume "curr_txn b = Some t'" and tg: "txn_good cfg ?c n t'"
    with t id have id: "b_fid b = of_nat (length (t_flist t'))" by simp
    have "numbered f_id (t_flist t' @ [new_flowop (b_fid b)])"
      using tg id by (intro numbered_snoc) (auto simp: txn_good_def new_flowop_def)
    with tg new txn_good_mono [OF tg, of ?c "Suc n"] show "txn_good cfg ?c (Suc n) (?h t')"
      by (simp add: txn_good_def)
  qed (use b in \<open>auto simp: builder_good_def\<close>)
  with b t id show ?thesis
    by (auto simp: builder_good_def curr_upd_txn curr_grp_upd_txn)
qed

lemma flowop_start_good: "builder_good cfg n b \<Longrightarrow> step_good cfg n b (flowop_start b)"
  by (auto simp: flowop_start_def intro!: step_good_bfail step_good_bgo good_flowop_start split: option.split)

lemma set_name_good: "builder_good cfg n b \<Longrightarrow> step_good cfg n b (set_name s b)"
proof (cases "b_in_group b")
  case True
  assume b: "builder_good cfg n b"
  let ?h = "\<lambda>g. g\<lparr>g_name := strlcpy UPERF_NAME_LEN s\<rparr>"
  have "builder_good cfg (Suc n) (upd_grp ?h b\<lparr>b_ps := b_ps b\<rparr>)"
    using b group_good_mono
    by (intro good_upd_grp) (auto simp: group_good_def builder_good_def list_all_iff intro: txn_good_mono)
  moreover have "upd_grp ?h b\<lparr>b_ps := b_ps b\<rparr> = upd_grp ?h b" by (simp add: upd_grp_def)
  ultimately have "step_good cfg n b (bgo (upd_grp ?h b))" by (intro step_good_bgo) simp_all
  with True show ?thesis by (simp add: set_name_def)
next
  case False
  assume "builder_good cfg n b"
  then have "builder_good cfg (Suc n) b" by (rule builder_good_Suc)
  with False show ?thesis
    by (auto simp: set_name_def builder_good_def work_good_def intro!: step_good_bgo)
qed

lemma build_symbol_good:
  assumes b: "builder_good cfg n b" and nul: "NUL \<notin> set (sy_text sy)"
  shows "step_good cfg n b (build_symbol cfg ftw sy b)"
proof -
  have t: "NUL \<notin> set (symbol_text sy (b_ps b))"
    using b nul by (auto simp: symbol_text_def builder_good_def pstate_ok_def env_ok_def split: origin.split option.split)
  have go: "step_good cfg n b (bgo b')" if "b' = b \<or> b' = b\<lparr>b_in_group := False\<rparr> \<or> b' = b\<lparr>b_in_txn := False\<rparr>" for b'
    using builder_good_Suc [OF b] that by (intro step_good_bgo) (auto simp: builder_good_def)
  show ?thesis unfolding build_symbol_def Let_def
    using b t by (cases "sy_type sy")
      (simp_all add: go group_start_good txn_start_good flowop_start_good set_name_good set_iterations_good
        set_type_good set_options_good set_duration_good set_threads_good set_rate_good step_good_bfail)
qed

lemma build_loop_good:
  "builder_good cfg n b \<Longrightarrow> \<forall>sy \<in> set syms. NUL \<notin> set (sy_text sy) \<Longrightarrow> build_loop cfg ftw syms b = Inr (r, st) \<Longrightarrow>
   errs_grow (b_ps b) st \<and> (case r of None \<Rightarrow> pe_errs st \<noteq> [] | Some b' \<Rightarrow> st = b_ps b' \<and> builder_good cfg (n + length syms) b')"
proof (induction syms arbitrary: n b)
  case (Cons sy syms)
  from Cons.prems(3) obtain r1 st1 where s: "build_symbol cfg ftw sy b = Inr (r1, st1)"
      and k: "(case r1 of None \<Rightarrow> Inr (None, st1) | Some b \<Rightarrow> build_loop cfg ftw syms b) = Inr (r, st)"
    by (auto simp: cbind_Inr)
  from build_symbol_good [OF Cons.prems(1), of sy ftw] Cons.prems(2) s
  have g: "errs_grow (b_ps b) st1" "case r1 of None \<Rightarrow> pe_errs st1 \<noteq> [] | Some b' \<Rightarrow> st1 = b_ps b' \<and> builder_good cfg (Suc n) b'"
    by (auto simp: step_good_def)
  show ?case
  proof (cases r1)
    case None
    with g k show ?thesis by auto
  next
    case (Some b1)
    with g k Cons.IH [of "Suc n" b1] Cons.prems(2) show ?thesis
      by (auto intro: errs_grow_trans split: option.splits)
  qed
qed (auto simp: bgo_def)


subsection \<open>A profile that was accepted\<close>

lemma builder_start_good: "pstate_ok st \<Longrightarrow> builder_good cfg 0 (builder_start st)"
  by (simp add: builder_good_def builder_start_def work_good_def curr_grp_def curr_txn_def)

lemma build_worklist_good:
  assumes "build_worklist cfg ftw syms st = Inr (Some w, st')" and "pstate_ok st"
    and "\<forall>sy \<in> set syms. NUL \<notin> set (sy_text sy)" and "pe_errs st' = []"
  shows "work_good cfg True (length syms) w"
proof -
  from assms(1) obtain b where b: "build_loop cfg ftw syms (builder_start st) = Inr (Some b, st')" and w: "w = b_w b"
    by (auto simp: build_worklist_def cbind_Inr)
  from build_loop_good [OF builder_start_good [OF assms(2)] assms(3) b] assms(4) w
  show ?thesis by (simp add: builder_good_def)
qed

lemma work_good_counts:
  assumes "work_good cfg True n w" and "n < 2 ^ 32" and "g \<in> set (w_grp w)"
  shows "group_counts g" and "group_sendable g"
proof -
  from assms have g: "group_good cfg True n g" by (simp add: work_good_def list_all_iff)
  have t: "txn_good cfg True n t" if "t \<in> set (g_tlist g)" for t
    using g that by (simp add: group_good_def list_all_iff)
  have "txn_counts t" if "t \<in> set (g_tlist g)" for t
    using t [OF that] assms(2) by (simp add: txn_good_def txn_counts_def)
  then show c: "group_counts g" using g assms(2) by (simp add: group_counts_def group_good_def list_all_iff)
  have "c_string NAMELEN (t_rate_str t) \<and> (\<forall>f \<in> set (t_flist t). flowop_sendable f)" if "t \<in> set (g_tlist g)" for t
    using t [OF that] by (auto simp: txn_good_def list_all_iff flowop_sendable_def flowop_good_def)
  with c g show "group_sendable g" by (simp add: group_sendable_def group_good_def)
qed

lemma parse_app_profile_good:
  assumes "parse_app_profile cfg ftw env file sfv = Inr (Some w, st)" and "c_env env" and "sfv_ok sfv"
  shows "\<exists>n < pf_size file. work_good cfg True n w"
proof -
  let ?st = "\<lparr>pe_env = env, pe_errs = [], pe_sfv = sfv\<rparr>"
  from assms(1) obtain data syms n errs where data: "length data = pf_size file" "pf_size file \<noteq> 0"
      and p: "parse env (takeWhile (\<lambda>c. c \<noteq> NUL) (butlast data)) = Inr (syms, n, errs)"
      and b: "build_worklist cfg ftw syms (?st\<lparr>pe_errs := errs\<rparr>) = Inr (Some w, st)" and e: "pe_errs st = []"
    by (auto simp: parse_app_profile_def Let_def cbind_Inr split: if_splits option.splits)
  have "NUL \<notin> set (takeWhile (\<lambda>c. c \<noteq> NUL) (butlast data))" by (auto dest: set_takeWhileD)
  from parse_nul [OF p this assms(2)]
  have s: "\<forall>sy \<in> set syms. NUL \<notin> set (sy_text sy)" "length syms \<le> length (takeWhile (\<lambda>c. c \<noteq> NUL) (butlast data))" by auto
  have "length (takeWhile (\<lambda>c. c \<noteq> NUL) (butlast data)) \<le> length (butlast data)" by (rule length_takeWhile_le)
  with s(2) data have l: "length syms < pf_size file" by simp
  have "pstate_ok (?st\<lparr>pe_errs := errs\<rparr>)" using assms(2,3) by (simp add: pstate_ok_def env_ok_def c_env_def)
  from build_worklist_good [OF b this s(1) e] l show ?thesis by blast
qed

end
