(* ===== verification/Profile_Text.thy ===== *)
theory Profile_Text
  imports Profile
begin

text \<open>
  The documented form of a profile and what it means: a profile as data, its text, and the
  work order it stands for, written without the parser. The last section shows that the parser
  agrees.
\<close>

section \<open>A profile as data\<close>

datatype opt =
    Opt_size nat | Opt_rsize nat | Opt_count nat | Opt_conn nat | Opt_port nat
  | Opt_remotehost string | Opt_protocol string | Opt_canfail | Opt_tcp_nodelay

record flowop_spec =
  fs_type :: string
  fs_opts :: "opt list"

datatype txn_mode = Iterations nat | Duration string

record txn_spec =
  ts_mode :: txn_mode
  ts_rate :: "nat option"
  ts_flowops :: "flowop_spec list"

record group_spec =
  gs_procs :: bool
  gs_strands :: nat
  gs_txns :: "txn_spec list"

record profile_spec =
  ps_name :: string
  ps_groups :: "group_spec list"

section \<open>Its text\<close>

fun opt_text :: "opt \<Rightarrow> string" where
  "opt_text (Opt_size n) = ''size='' @ dec_nat n"
| "opt_text (Opt_rsize n) = ''rsize='' @ dec_nat n"
| "opt_text (Opt_count n) = ''count='' @ dec_nat n"
| "opt_text (Opt_conn n) = ''conn='' @ dec_nat n"
| "opt_text (Opt_port n) = ''port='' @ dec_nat n"
| "opt_text (Opt_remotehost h) = ''remotehost='' @ h"
| "opt_text (Opt_protocol p) = ''protocol='' @ p"
| "opt_text Opt_canfail = ''canfail''"
| "opt_text Opt_tcp_nodelay = ''tcp_nodelay''"

fun join :: "string list \<Rightarrow> string" where
  "join [] = []"
| "join [w] = w"
| "join (w # ws) = w @ CHR '' '' # join ws"

definition flowop_items :: "flowop_spec \<Rightarrow> item list" where
  "flowop_items fs =
     [Word ''<flowop'', Attr ''type'' (fs_type fs)] @
     (if fs_opts fs = [] then [] else [Attr ''options'' (join (map opt_text (fs_opts fs)))]) @
     [Word ''/>'']"

definition mode_items :: "txn_spec \<Rightarrow> item list" where
  "mode_items ts =
     (case ts_mode ts of Iterations n \<Rightarrow> [Attr ''iterations'' (dec_nat n)] | Duration d \<Rightarrow> [Attr ''duration'' d]) @
     (case ts_rate ts of None \<Rightarrow> [] | Some n \<Rightarrow> [Attr ''rate'' (dec_nat n)])"

definition txn_items :: "txn_spec \<Rightarrow> item list" where
  "txn_items ts =
     [Word ''<transaction''] @ mode_items ts @ [Word ''>''] @
     concat (map flowop_items (ts_flowops ts)) @ [Word ''</transaction>'']"

definition group_items :: "group_spec \<Rightarrow> item list" where
  "group_items gs =
     [Word ''<group'', Attr (if gs_procs gs then ''nprocs'' else ''nthreads'') (dec_nat (gs_strands gs)), Word ''>''] @
     concat (map txn_items (gs_txns gs)) @ [Word ''</group>'']"

definition profile_items :: "profile_spec \<Rightarrow> item list" where
  "profile_items ps =
     [Word ''<profile'', Attr ''name'' (ps_name ps), Word ''>''] @
     concat (map group_items (ps_groups ps)) @ [Word ''</profile>'']"

definition profile_text :: "profile_spec \<Rightarrow> string" where
  "profile_text ps = render (profile_items ps)"

section \<open>Its meaning\<close>

fun opt_apply :: "build_config \<Rightarrow> opt \<Rightarrow> flowop \<Rightarrow> flowop" where
  "opt_apply cfg (Opt_size n) = upd (\<lambda>o'. o'\<lparr>fo_size := of_nat n\<rparr>)"
| "opt_apply cfg (Opt_rsize n) = upd (\<lambda>o'. o'\<lparr>fo_rsize := of_nat n\<rparr>)"
| "opt_apply cfg (Opt_count n) = upd (\<lambda>o'. o'\<lparr>fo_count := of_nat n\<rparr>)"
| "opt_apply cfg (Opt_conn n) = (\<lambda>f. f\<lparr>f_p_id := of_nat n\<rparr>)"
| "opt_apply cfg (Opt_port n) = upd (\<lambda>o'. o'\<lparr>fo_port := of_nat n\<rparr>)"
| "opt_apply cfg (Opt_remotehost h) = upd (\<lambda>o'. o'\<lparr>fo_remotehost := h\<rparr>)"
| "opt_apply cfg (Opt_protocol p) = upd (\<lambda>o'. o'\<lparr>fo_protocol := protocol_type cfg p\<rparr>)"
| "opt_apply cfg Opt_canfail = upd (\<lambda>o'. o'\<lparr>fo_flag := fo_flag o' OR O_CANFAIL\<rparr>)"
| "opt_apply cfg Opt_tcp_nodelay = upd (\<lambda>o'. o'\<lparr>fo_flag := fo_flag o' OR O_TCP_NODELAY\<rparr>)"

definition flowop_of :: "build_config \<Rightarrow> u32 \<Rightarrow> flowop_spec \<Rightarrow> flowop" where
  "flowop_of cfg i fs =
     (let t = flowop_type_of_name (fs_type fs) in
      fold (opt_apply cfg) (fs_opts fs)
        (zero_flowop\<lparr>f_id := i, f_name := fs_type fs, f_type := t, f_execute := Some (flowop_get_execute_func t),
           f_options := zero_options\<lparr>fo_count := 1, fo_repeat := 1, fo_batch_size := 1\<rparr>\<rparr>))"

definition rated :: "nat option \<Rightarrow> txn \<Rightarrow> txn" where
  "rated r t = (case r of None \<Rightarrow> t | Some n \<Rightarrow> t\<lparr>t_rate_str := dec_nat n, t_rate_count := of_nat n\<rparr>)"

definition txn_of :: "build_config \<Rightarrow> (string \<Rightarrow> string option) \<Rightarrow> nat \<Rightarrow> txn_spec \<Rightarrow> txn" where
  "txn_of cfg env i ts =
     rated (ts_rate ts) (zero_txn\<lparr>
       t_name := ''Txn'' @ dec_nat i, t_txnid := of_nat i,
       t_iter := (case ts_mode ts of Iterations n \<Rightarrow> of_nat n | Duration d \<Rightarrow> 1),
       t_duration := (case ts_mode ts of Iterations n \<Rightarrow> 0
                      | Duration d \<Rightarrow> (case string_to_nsec env d of Inr n \<Rightarrow> n | Inl _ \<Rightarrow> 0)),
       t_nflowop := of_nat (length (ts_flowops ts)),
       t_flist := map (\<lambda>(j, fs). flowop_of cfg (of_nat j) fs) (enumerate 0 (ts_flowops ts))\<rparr>)"

definition group_of :: "build_config \<Rightarrow> (string \<Rightarrow> string option) \<Rightarrow> nat \<Rightarrow> group_spec \<Rightarrow> group" where
  "group_of cfg env i gs =
     zero_group\<lparr>g_endian := UPERF_ENDIAN_VALUE, g_name := ''Group'' @ dec_nat i,
       g_strand_flag := (if gs_procs gs then STRAND_TYPE_PROCESS else STRAND_TYPE_THREAD),
       g_nthreads := of_nat (gs_strands gs), g_ntxn := of_nat (length (gs_txns gs)),
       g_tlist := map (\<lambda>(j, ts). txn_of cfg env j ts) (enumerate 0 (gs_txns gs))\<rparr>"

definition workorder_of :: "build_config \<Rightarrow> (string \<Rightarrow> string option) \<Rightarrow> profile_spec \<Rightarrow> workorder" where
  "workorder_of cfg env ps =
     \<lparr>w_name = ps_name ps, w_grp = map (\<lambda>(i, gs). group_of cfg env i gs) (enumerate 0 (ps_groups ps))\<rparr>"

section \<open>Which profiles can be written down\<close>

definition plain_word :: "string \<Rightarrow> bool" where
  \<comment> \<open>lower case, without blanks, quotes or equals signs, not a variable\<close>
  "plain_word s = (s \<noteq> [] \<and> list_all plain_char s \<and> hd s \<noteq> CHR ''$'' \<and> hd s \<noteq> CHR ''<'')"

fun opt_ok :: "build_config \<Rightarrow> opt \<Rightarrow> bool" where
  "opt_ok cfg (Opt_size n) = (0 < n \<and> n < 2 ^ 31)"
| "opt_ok cfg (Opt_rsize n) = (n < 2 ^ 31)"
| "opt_ok cfg (Opt_count n) = (n < 2 ^ 31)"
| "opt_ok cfg (Opt_conn n) = (0 < n \<and> n < 2 ^ 31)"
| "opt_ok cfg (Opt_port n) = (n < 2 ^ 31)"
| "opt_ok cfg (Opt_remotehost h) = (plain_word h \<and> length h < 88)"
| "opt_ok cfg (Opt_protocol p) = (plain_word p \<and> protocol_type cfg p \<noteq> PROTOCOL_UNSUPPORTED)"
| "opt_ok cfg Opt_canfail = True"
| "opt_ok cfg Opt_tcp_nodelay = True"

definition flowop_spec_ok :: "build_config \<Rightarrow> flowop_spec \<Rightarrow> bool" where
  "flowop_spec_ok cfg fs =
     (plain_word (fs_type fs) \<and> flowop_type_of_name (fs_type fs) \<noteq> FLOWOP_ERROR \<and>
      list_all (opt_ok cfg) (fs_opts fs) \<and> length (join (map opt_text (fs_opts fs))) < 1000 \<and>
      length (fs_opts fs) \<le> 100)"

definition txn_spec_ok :: "build_config \<Rightarrow> (string \<Rightarrow> string option) \<Rightarrow> txn_spec \<Rightarrow> bool" where
  "txn_spec_ok cfg env ts =
     ((case ts_mode ts of Iterations n \<Rightarrow> n < 2 ^ 31
       | Duration d \<Rightarrow> plain_word d \<and> length d < 1000 \<and> (\<exists>n. string_to_nsec env d = Inr n \<and> n \<noteq> 0)) \<and>
      (case ts_rate ts of None \<Rightarrow> True | Some n \<Rightarrow> n < 2 ^ 31) \<and>
      list_all (flowop_spec_ok cfg) (ts_flowops ts))"

definition group_spec_ok :: "build_config \<Rightarrow> (string \<Rightarrow> string option) \<Rightarrow> group_spec \<Rightarrow> bool" where
  "group_spec_ok cfg env gs =
     (gs_strands gs < 2 ^ 31 \<and> length (gs_txns gs) < 2 ^ 31 \<and> list_all (txn_spec_ok cfg env) (gs_txns gs))"

definition profile_spec_ok :: "build_config \<Rightarrow> (string \<Rightarrow> string option) \<Rightarrow> profile_spec \<Rightarrow> bool" where
  "profile_spec_ok cfg env ps =
     (plain_word (ps_name ps) \<and> length (ps_name ps) < NAMELEN \<and> length (ps_groups ps) \<le> MAXTHREADGROUPS \<and>
      list_all (group_spec_ok cfg env) (ps_groups ps))"


section \<open>Options\<close>

lemma digit_plain: "c_isdigit c \<Longrightarrow> plain_char c \<and> c \<noteq> CHR ''$'' \<and> c \<noteq> CHR ''<'' \<and> \<not> c_isspace c \<and> c \<noteq> CHR ''-'' \<and> c \<noteq> CHR ''+''"
  by (auto simp: plain_char_def c_tolower_def c_isdigit_def c_isupper_def is_seperator_def c_isspace_def c_code_def)

lemma plain_dec_nat: "plain_word (dec_nat n)"
  using dec_nat_digits [of _ n] dec_nat_digits [of "hd (dec_nat n)" n] digit_plain
  by (auto simp: plain_word_def list_all_iff)

lemma string_to_int_dec_nat: "n < 2 ^ 31 \<Longrightarrow> string_to_int env (dec_nat n) = Inr (int n)"
  using large_sizes_wrap [of n env] wrap32_id [of "int n"] by simp

lemma atoi_dec_nat: "n < 2 ^ 31 \<Longrightarrow> atoi (dec_nat n) = int n"
proof -
  assume n: "n < 2 ^ 31"
  have d: "c_isdigit (hd (dec_nat n))" using dec_nat_digits [of "hd (dec_nat n)" n] by simp
  then have "dropWhile c_isspace (dec_nat n) = dec_nat n" using digit_plain by (cases "dec_nat n") auto
  moreover have "takeWhile c_isdigit (dec_nat n) = dec_nat n" using dec_nat_digits by simp
  moreover have "min (int n) (2 ^ 63 - 1) = int n" using n by simp
  ultimately show ?thesis using d digit_plain [OF d] n wrap32_id [of "int n"]
    by (simp add: atoi_def Let_def del: power_numeral takeWhile_eq_all_conv)
qed

lemma plain_set: "plain_word s \<Longrightarrow> c \<in> set s \<Longrightarrow> plain_char c"
  by (simp add: plain_word_def list_all_iff)

lemma plain_no: "plain_char c \<Longrightarrow> c \<noteq> CHR '' '' \<and> c \<noteq> CHR ''='' \<and> c \<noteq> CHR 0x09 \<and> c \<noteq> NUL \<or> c = NUL"
  by (auto simp: plain_char_def is_seperator_def c_code_def)

lemma flag_option_eq: "CHR ''='' \<in> set w \<Longrightarrow> flag_option cfg w = None"
proof -
  assume "CHR ''='' \<in> set w"
  then have "c_tolower (CHR ''='') \<in> set (map c_tolower w)" by simp
  moreover have "c_tolower (CHR ''='') = CHR ''=''" by (rule eq_quote_char)
  ultimately have "CHR ''='' \<in> set (map c_tolower w)" by simp
  then show ?thesis
    by (auto simp: flag_option_def strcaseeq_def c_tolower_def c_isupper_def c_code_def simp del: set_map split: if_splits)
qed

lemma parse_option_key:
  assumes "k \<noteq> []" and "CHR ''='' \<notin> set k" and "plain_word v"
  shows "parse_option cfg ftw (k @ CHR ''='' # v) f st = key_option cfg ftw k v None f st"
proof -
  have v: "v \<noteq> []" "set v \<inter> set '' '' = {}" "hd v \<noteq> CHR ''$''"
    using assms(3) plain_no by (auto simp: plain_word_def list_all_iff)
  have "strtok ''='' (k @ CHR ''='' # v) = Some (k, v)" using assms by (intro strtok_split) auto
  moreover have "strtok '' '' v = Some (v, [])" using v by (intro strtok_last) auto
  moreover have "flag_option cfg (k @ CHR ''='' # v) = None" by (rule flag_option_eq) simp
  ultimately show ?thesis using v by (simp add: parse_option_def)
qed

lemmas case_eval = strcaseeq_def c_tolower_def c_isupper_def c_code_def

lemma to_u32_of_nat: "to_u32 (int n) = of_nat n" "to_u64 (int n) = of_nat n"
  by simp_all

lemma string2int_dec_nat: "n < 2 ^ 31 \<Longrightarrow> string2int (Some (dec_nat n)) st = Inr (int n, st)"
  by (simp add: string2int_def string_to_int_dec_nat)

lemma opt_parsed:
  assumes "opt_ok cfg o'"
  shows "parse_option cfg ftw (opt_text o') f st = Inr ((0, opt_apply cfg o' f), st)"
proof (cases o')
  case (Opt_size n)
  with assms have n: "0 < n" "n < 2 ^ 31" by auto
  have "(of_nat n :: u32) \<noteq> - 1"
  proof
    assume "(of_nat n :: u32) = - 1"
    then have "unat (of_nat n :: u32) = unat (- 1 :: u32)" by (rule arg_cong)
    with n show False by (simp add: unat_of_nat take_bit_nat_eq_self unsigned_minus_1_eq_mask mask_eq_exp_minus_1)
  qed
  with Opt_size n parse_option_key [of "''size''" "dec_nat n" cfg ftw f st] plain_dec_nat show ?thesis
    by (simp add: key_option_def base_option_def case_eval size_option_def parse_size_def string_to_int_dec_nat pok_def)
next
  case (Opt_rsize n)
  with assms parse_option_key [of "''rsize''" "dec_nat n" cfg ftw f st] plain_dec_nat show ?thesis
    by (simp add: key_option_def base_option_def case_eval int_option_def string2int_dec_nat pok_def)
next
  case (Opt_count n)
  with assms parse_option_key [of "''count''" "dec_nat n" cfg ftw f st] plain_dec_nat show ?thesis
    by (simp add: key_option_def base_option_def case_eval atoi_dec_nat pok_def)
next
  case (Opt_conn n)
  then have n: "0 < n" "n < 2 ^ 31" using assms by auto
  then have "(of_nat n :: u32) \<noteq> 0" by (simp add: word_of_nat_eq_0_iff nat_dvd_not_less)
  with Opt_conn n parse_option_key [of "''conn''" "dec_nat n" cfg ftw f st] plain_dec_nat show ?thesis
    by (simp add: key_option_def base_option_def case_eval atoi_dec_nat pok_def conn_option_def)
next
  case (Opt_port n)
  with assms parse_option_key [of "''port''" "dec_nat n" cfg ftw f st] plain_dec_nat show ?thesis
    by (simp add: key_option_def base_option_def case_eval atoi_dec_nat pok_def)
next
  case (Opt_remotehost h)
  with assms parse_option_key [of "''remotehost''" h cfg ftw f st] show ?thesis
    by (simp add: key_option_def base_option_def case_eval pok_def strlcpy_def MAXHOSTNAME_def)
next
  case (Opt_protocol p)
  with assms parse_option_key [of "''protocol''" p cfg ftw f st] show ?thesis
    by (simp add: key_option_def base_option_def case_eval protocol_option_def pok_def)
next
  case Opt_canfail
  then show ?thesis by (simp add: parse_option_def flag_option_def case_eval set_flag_def pok_def)
next
  case Opt_tcp_nodelay
  then show ?thesis by (simp add: parse_option_def flag_option_def case_eval set_flag_def pok_def)
qed


definition opt_word :: "string \<Rightarrow> bool" where
  "opt_word w = (w \<noteq> [] \<and> list_all (\<lambda>c. value_char c \<and> c \<noteq> CHR '' '' \<and> c \<noteq> CHR 0x09) w \<and>
     c_islower (hd w) \<and> last w \<noteq> CHR ''='' \<and> length w < 100)"

lemma plain_value: "plain_char c \<Longrightarrow> value_char c \<and> c \<noteq> CHR '' '' \<and> c \<noteq> CHR 0x09 \<and> c \<noteq> CHR ''=''"
  by (auto simp: plain_char_def value_char_def is_seperator_def c_code_def)

lemma key_word:
  assumes "list_all (\<lambda>c. value_char c \<and> c \<noteq> CHR '' '' \<and> c \<noteq> CHR 0x09) k" and "k \<noteq> []" and "c_islower (hd k)"
    and "plain_word v" and "length k + length v < 99"
  shows "opt_word (k @ CHR ''='' # v)"
proof -
  have "value_char (CHR ''='')" by (simp add: value_char_def case_eval)
  moreover have "last v \<noteq> CHR ''=''" "list_all (\<lambda>c. value_char c \<and> c \<noteq> CHR '' '' \<and> c \<noteq> CHR 0x09) v" "v \<noteq> []"
    using assms(4) plain_value by (auto simp: plain_word_def list_all_iff)
  ultimately show ?thesis using assms by (simp add: opt_word_def)
qed

lemma lower_value: "c_islower c \<or> c = CHR ''_'' \<Longrightarrow> value_char c \<and> c \<noteq> CHR '' '' \<and> c \<noteq> CHR 0x09"
  by (auto simp: value_char_def case_eval c_islower_def)

lemma number_word:
  assumes "list_all (\<lambda>c. c_islower c \<or> c = CHR ''_'') k" and "k \<noteq> []" and "c_islower (hd k)" and "length k < 80" and "n < 2 ^ 31"
  shows "opt_word (k @ CHR ''='' # dec_nat n)"
proof (rule key_word [OF _ assms(2,3) plain_dec_nat])
  show "list_all (\<lambda>c. value_char c \<and> c \<noteq> CHR '' '' \<and> c \<noteq> CHR 0x09) k"
    using assms(1) lower_value by (simp add: list_all_iff)
  have "length (dec_nat n) \<le> 10" using assms(5) by (intro length_dec_nat) simp_all
  with assms(4) show "length k + length (dec_nat n) < 99" by simp
qed

lemma opt_text_word: "opt_ok cfg o' \<Longrightarrow> opt_word (opt_text o')"
proof (cases o')
  case (Opt_protocol p)
  assume "opt_ok cfg o'"
  with Opt_protocol have p: "plain_word p" "protocol_type cfg p \<noteq> PROTOCOL_UNSUPPORTED" by auto
  then obtain r where "find_protocol_by_name cfg p = Some r" by (auto simp: protocol_type_def split: option.splits)
  then have "r \<in> set (plist cfg)" "strcaseeq p (pr_name r)"
    by (auto simp: find_protocol_by_name_def dest: find_Some_in_set)
  then have "length p \<le> 5" by (auto simp: plist_def strcaseeq_def dest!: arg_cong [of _ _ length] split: if_splits)
  with p key_word [of "''protocol''" p] Opt_protocol show ?thesis
    by (simp add: lower_value c_islower_def c_code_def)
next
  case (Opt_remotehost h)
  assume "opt_ok cfg o'"
  with Opt_remotehost key_word [of "''remotehost''" h] show ?thesis
    by (simp add: lower_value c_islower_def c_code_def)
next
  case Opt_canfail
  then show ?thesis by (simp add: opt_word_def lower_value c_islower_def c_code_def)
next
  case Opt_tcp_nodelay
  then show ?thesis by (simp add: opt_word_def lower_value c_islower_def c_code_def)
next
  case (Opt_size n)
  assume "opt_ok cfg o'"
  with Opt_size number_word [of "''size''" n] show ?thesis by (simp add: c_islower_def c_code_def)
next
  case (Opt_rsize n)
  assume "opt_ok cfg o'"
  with Opt_rsize number_word [of "''rsize''" n] show ?thesis by (simp add: c_islower_def c_code_def)
next
  case (Opt_count n)
  assume "opt_ok cfg o'"
  with Opt_count number_word [of "''count''" n] show ?thesis by (simp add: c_islower_def c_code_def)
next
  case (Opt_conn n)
  assume "opt_ok cfg o'"
  with Opt_conn number_word [of "''conn''" n] show ?thesis by (simp add: c_islower_def c_code_def)
next
  case (Opt_port n)
  assume "opt_ok cfg o'"
  with Opt_port number_word [of "''port''" n] show ?thesis by (simp add: c_islower_def c_code_def)
qed

lemma opt_word_blank: "opt_word w \<Longrightarrow> w \<noteq> [] \<and> set w \<inter> set blanks = {}"
  by (auto simp: opt_word_def list_all_iff blanks_def)

lemma strtok_all_join: "list_all opt_word ws \<Longrightarrow> strtok_all blanks (join ws) = ws"
proof (induction ws rule: join.induct)
  case 1
  show ?case by (subst strtok_all.simps) (simp add: strtok_def)
next
  case (2 w)
  then have "strtok blanks w = Some (w, [])" using opt_word_blank [of w] by (intro strtok_last) auto
  moreover have "strtok_all blanks [] = []" by (subst strtok_all.simps) (simp add: strtok_def)
  ultimately show ?case by (subst strtok_all.simps) simp
next
  case (3 w v vs)
  then have "strtok blanks (w @ CHR '' '' # join (v # vs)) = Some (w, join (v # vs))"
    using opt_word_blank [of w] by (intro strtok_split) (auto simp: blanks_def)
  with 3 show ?case by (subst strtok_all.simps) simp
qed

lemma option_words_join: "list_all opt_word ws \<Longrightarrow> option_words (join ws) = ws"
  unfolding option_words_def strtok_all_join
  by (induction ws) (auto simp: opt_word_def c_isalpha_def strlcpy_def)

lemma parse_options_opts:
  "list_all (opt_ok cfg) opts \<Longrightarrow> parse_options cfg ftw (map opt_text opts) f st = Inr (fold (opt_apply cfg) opts f, st)"
  by (induction opts arbitrary: f) (simp_all add: opt_parsed)

lemma flowop_parse_options_join:
  assumes "list_all (opt_ok cfg) opts" and "length opts \<le> 100"
    and "f = g\<lparr>f_options := (f_options g)\<lparr>fo_count := 1, fo_repeat := 1, fo_batch_size := 1, fo_size := 0,
                fo_duration := 0\<rparr>, f_p_id := 0\<rparr>"
  shows "flowop_parse_options cfg ftw (join (map opt_text opts)) None g st = Inr (fold (opt_apply cfg) opts f, st)"
proof -
  have "list_all opt_word (map opt_text opts)" using assms(1) opt_text_word by (auto simp: list_all_iff)
  then have "option_words (join (map opt_text opts)) = map opt_text opts" by (rule option_words_join)
  with assms parse_options_opts [OF assms(1), of ftw f st] show ?thesis
    by (simp add: flowop_parse_options_def cut_env_def UPERF_ANY_CONNECTION_def)
qed

section \<open>The text is in the documented form\<close>

lemma opt_word_value: "opt_word w \<Longrightarrow> list_all value_char w \<and> w \<noteq> [] \<and> c_islower (hd w) \<and> last w \<noteq> CHR ''=''"
  by (simp add: opt_word_def list_all_iff)

lemma join_value: "list_all opt_word ws \<Longrightarrow> ws \<noteq> [] \<Longrightarrow>
    join ws \<noteq> [] \<and> list_all value_char (join ws) \<and> c_islower (hd (join ws)) \<and> last (join ws) \<noteq> CHR ''=''"
proof (induction ws rule: join.induct)
  case (2 w)
  with opt_word_value [of w] show ?case by simp
next
  case (3 w v vs)
  have "value_char (CHR '' '')" by (simp add: value_char_def case_eval)
  with 3 opt_word_value [of w] show ?case by simp
qed simp

lemma plain_value_word:
  assumes v: "plain_word v"
  shows "v \<noteq> [] \<and> list_all value_char v \<and> hd v \<noteq> CHR ''$'' \<and> last v \<noteq> CHR ''='' \<and> hd v \<noteq> CHR ''<''"
proof -
  from v have "v \<noteq> []" "hd v \<noteq> CHR ''$''" "hd v \<noteq> CHR ''<''" by (simp_all add: plain_word_def)
  moreover from this plain_set [OF v] have "plain_char (last v)" by simp
  moreover have "list_all value_char v" using plain_set [OF v] plain_value by (simp add: list_all_iff)
  ultimately show ?thesis using plain_value [of "last v"] by simp
qed

lemma attr_types:
  "token_type (''name='' @ v) = TOKEN_NAME" "token_type (''nthreads='' @ v) = TOKEN_NTHREADS"
  "token_type (''nprocs='' @ v) = TOKEN_NPROCESSES" "token_type (''iterations='' @ v) = TOKEN_ITERATIONS"
  "token_type (''duration='' @ v) = TOKEN_DURATION" "token_type (''rate='' @ v) = TOKEN_RATE"
  "token_type (''type='' @ v) = TOKEN_TYPE" "token_type (''options='' @ v) = TOKEN_OPTIONS"
  by (simp_all add: token_type_def tlist_def strneq0_def)

lemma word_types:
  "token_type ''<profile'' = TOKEN_PROFILE_START" "token_type ''</profile>'' = TOKEN_PROFILE_END"
  "token_type ''<group'' = TOKEN_GROUP_START" "token_type ''</group>'' = TOKEN_GROUP_END"
  "token_type ''<transaction'' = TOKEN_TXN_START" "token_type ''</transaction>'' = TOKEN_TXN_END"
  "token_type ''<flowop'' = TOKEN_FLOWOP_START" "token_type ''/>'' = TOKEN_XML_END"
  by code_simp+


lemma attr_ok:
  assumes "plain_word k" and "v \<noteq> [] \<and> list_all value_char v \<and> hd v \<noteq> CHR ''$'' \<and> last v \<noteq> CHR ''='' \<and> hd v \<noteq> CHR ''<''"
    and "length k + length v < 1023" and "token_type (k @ CHR ''='' # v) \<noteq> TOKEN_ERROR"
  shows "item_ok (Attr k v)"
  using assms by (auto simp: plain_word_def TOKEN_MAX_def)

lemma length_dec_10: "n < 2 ^ 31 \<Longrightarrow> length (dec_nat n) \<le> 10"
  by (rule length_dec_nat) simp_all

lemma tags_ok:
  "item_ok (Word ''<profile'')" "item_ok (Word ''</profile>'')" "item_ok (Word ''<group'')" "item_ok (Word ''</group>'')"
  "item_ok (Word ''<transaction'')" "item_ok (Word ''</transaction>'')" "item_ok (Word ''<flowop'')"
  "item_ok (Word ''/>'')" "item_ok (Word ''>'')"
  by code_simp+

lemma keys_plain:
  "plain_word ''name''" "plain_word ''nthreads''" "plain_word ''nprocs''" "plain_word ''iterations''"
  "plain_word ''duration''" "plain_word ''rate''" "plain_word ''type''" "plain_word ''options''"
  by code_simp+

lemma attr_type_cons:
  "token_type (''name'' @ CHR ''='' # v) = TOKEN_NAME" "token_type (''nthreads'' @ CHR ''='' # v) = TOKEN_NTHREADS"
  "token_type (''nprocs'' @ CHR ''='' # v) = TOKEN_NPROCESSES" "token_type (''iterations'' @ CHR ''='' # v) = TOKEN_ITERATIONS"
  "token_type (''duration'' @ CHR ''='' # v) = TOKEN_DURATION" "token_type (''rate'' @ CHR ''='' # v) = TOKEN_RATE"
  "token_type (''type'' @ CHR ''='' # v) = TOKEN_TYPE" "token_type (''options'' @ CHR ''='' # v) = TOKEN_OPTIONS"
  using attr_types [of v] by simp_all

lemma number_attr_ok: "plain_word k \<Longrightarrow> length k < 100 \<Longrightarrow> token_type (k @ CHR ''='' # dec_nat n) \<noteq> TOKEN_ERROR \<Longrightarrow>
    n < 2 ^ 31 \<Longrightarrow> item_ok (Attr k (dec_nat n))"
  using length_dec_10 [of n] plain_value_word [OF plain_dec_nat] by (intro attr_ok) simp_all

lemma flowop_name_short: "flowop_type_of_name s \<noteq> FLOWOP_ERROR \<Longrightarrow> length s < UPERF_NAME_LEN"
  by (auto simp: flowop_type_of_name_def flowops_def strcaseeq_def UPERF_NAME_LEN_def
      dest!: arg_cong [of _ _ length] split: if_splits)

lemma flowop_items_ok: "flowop_spec_ok cfg fs \<Longrightarrow> list_all item_ok (flowop_items fs)"
proof -
  assume fs: "flowop_spec_ok cfg fs"
  have "item_ok (Attr ''type'' (fs_type fs))"
    using fs flowop_name_short [of "fs_type fs"] plain_value_word [of "fs_type fs"] keys_plain attr_type_cons
    by (intro attr_ok) (simp_all add: flowop_spec_ok_def UPERF_NAME_LEN_def)
  moreover have "item_ok (Attr ''options'' (join (map opt_text (fs_opts fs))))" if "fs_opts fs \<noteq> []"
  proof (rule attr_ok)
    have "list_all opt_word (map opt_text (fs_opts fs))"
      using fs opt_text_word by (auto simp: flowop_spec_ok_def list_all_iff)
    from join_value [OF this] that
    show "join (map opt_text (fs_opts fs)) \<noteq> [] \<and> list_all value_char (join (map opt_text (fs_opts fs))) \<and>
        hd (join (map opt_text (fs_opts fs))) \<noteq> CHR ''$'' \<and> last (join (map opt_text (fs_opts fs))) \<noteq> CHR ''='' \<and>
        hd (join (map opt_text (fs_opts fs))) \<noteq> CHR ''<''"
      by (auto simp: c_islower_def c_code_def)
  qed (use fs keys_plain attr_type_cons in \<open>simp_all add: flowop_spec_ok_def\<close>)
  ultimately show ?thesis using tags_ok by (simp add: flowop_items_def del: item_ok.simps)
qed

lemma mode_items_ok: "txn_spec_ok cfg env ts \<Longrightarrow> list_all item_ok (mode_items ts)"
proof -
  assume ts: "txn_spec_ok cfg env ts"
  have "item_ok (Attr ''iterations'' (dec_nat n))" if "n < 2 ^ 31" for n
    using that keys_plain attr_type_cons by (intro number_attr_ok) simp_all
  moreover have "item_ok (Attr ''rate'' (dec_nat n))" if "n < 2 ^ 31" for n
    using that keys_plain attr_type_cons by (intro number_attr_ok) simp_all
  moreover have "item_ok (Attr ''duration'' d)" if "plain_word d" "length d < 1000" for d
    using that keys_plain attr_type_cons plain_value_word [OF that(1)] by (intro attr_ok) simp_all
  ultimately show ?thesis using ts
    by (auto simp: mode_items_def txn_spec_ok_def simp del: item_ok.simps split: txn_mode.splits option.splits)
qed

lemma list_all_concat_map: "(\<And>x. x \<in> set xs \<Longrightarrow> list_all P (f x)) \<Longrightarrow> list_all P (concat (map f xs))"
  by (induction xs) simp_all

lemma txn_items_ok: "txn_spec_ok cfg env ts \<Longrightarrow> list_all item_ok (txn_items ts)"
  using mode_items_ok [of cfg env ts] tags_ok flowop_items_ok [of cfg]
  by (auto simp: txn_items_def txn_spec_ok_def list_all_iff [of "flowop_spec_ok cfg"]
      simp del: item_ok.simps intro!: list_all_concat_map)

lemma group_items_ok: "group_spec_ok cfg env gs \<Longrightarrow> list_all item_ok (group_items gs)"
proof -
  assume gs: "group_spec_ok cfg env gs"
  then have "item_ok (Attr (if gs_procs gs then ''nprocs'' else ''nthreads'') (dec_nat (gs_strands gs)))"
    using keys_plain attr_type_cons by (intro number_attr_ok) (auto simp: group_spec_ok_def)
  with gs show ?thesis using tags_ok txn_items_ok [of cfg env]
    by (auto simp: group_items_def group_spec_ok_def list_all_iff [of "txn_spec_ok cfg env"]
        simp del: item_ok.simps intro!: list_all_concat_map)
qed

lemma profile_items_ok: "profile_spec_ok cfg env ps \<Longrightarrow> list_all item_ok (profile_items ps)"
proof -
  assume ps: "profile_spec_ok cfg env ps"
  have "item_ok (Attr ''name'' (ps_name ps))"
    using ps keys_plain attr_type_cons plain_value_word [of "ps_name ps"]
    by (intro attr_ok) (simp_all add: profile_spec_ok_def NAMELEN_def)
  with ps show ?thesis using tags_ok group_items_ok [of cfg env]
    by (auto simp: profile_items_def profile_spec_ok_def list_all_iff [of "group_spec_ok cfg env"]
        simp del: item_ok.simps intro!: list_all_concat_map)
qed


section \<open>The parser builds what it means\<close>

lemma item_symbols_append: "item_symbols (xs @ ys) = item_symbols xs @ item_symbols ys"
  by (simp add: item_symbols_def)

lemma build_append:
  "build_loop cfg ftw (xs @ ys) b = cbind (build_loop cfg ftw xs b) (\<lambda>(r, st).
     case r of None \<Rightarrow> Inr (None, st) | Some b \<Rightarrow> build_loop cfg ftw ys b)"
proof (induction xs arbitrary: b)
  case (Cons x xs)
  show ?case
  proof (cases "build_symbol cfg ftw x b")
    case (Inr r)
    with Cons show ?thesis by (cases r; cases "fst r") auto
  qed simp
qed (simp add: bgo_def)

lemma build_append_bgo: "build_loop cfg ftw xs b = bgo b' \<Longrightarrow> build_loop cfg ftw (xs @ ys) b = build_loop cfg ftw ys b'"
  by (simp add: build_append bgo_def)

lemma build_cons_bgo: "build_symbol cfg ftw x b = bgo b' \<Longrightarrow> build_loop cfg ftw (x # ys) b = build_loop cfg ftw ys b'"
  by (simp add: bgo_def)

definition mkb :: "string \<Rightarrow> group list \<Rightarrow> u32 \<Rightarrow> u32 \<Rightarrow> bool \<Rightarrow> bool \<Rightarrow> pstate \<Rightarrow> builder" where
  "mkb wn gs tid fid ig it st = \<lparr>b_w = \<lparr>w_name = wn, w_grp = gs\<rparr>, b_in_group = ig, b_in_txn = it,
     b_txnid = tid, b_fid = fid, b_ps = st\<rparr>"

lemmas build_eval = mkb_def bgo_def upd_grp_def upd_txn_def upd_flowop_def curr_grp_def curr_txn_def curr_flowop_def
  build_symbol_def symbol_text_def symbol_var_def

text \<open>Each opening tag, attribute and closing tag on a builder in the right state.\<close>

lemma sym_word: "item_symbol (Word w) = \<lparr>sy_text = w, sy_type = token_type w, sy_origin = Owned\<rparr>"
  by simp

lemma build_flowop_tag:
  "build_symbol cfg ftw (item_symbol (Word ''<flowop'')) (mkb wn (gs @ [g\<lparr>g_tlist := ts @ [t]\<rparr>]) tid fid ig True st) =
    bgo (mkb wn (gs @ [g\<lparr>g_tlist := ts @ [t\<lparr>t_nflowop := t_nflowop t + 1, t_flist := t_flist t @ [new_flowop fid]\<rparr>]\<rparr>])
          tid (fid + 1) ig True st)"
  by (simp add: build_eval word_types flowop_start_def)

lemma build_type_attr:
  assumes "flowop_type_of_name ty \<noteq> FLOWOP_ERROR"
  shows "build_symbol cfg ftw (item_symbol (Attr ''type'' ty))
      (mkb wn (gs @ [g\<lparr>g_tlist := ts @ [t\<lparr>t_flist := fs @ [f]\<rparr>]\<rparr>]) tid fid ig it st) =
    bgo (mkb wn (gs @ [g\<lparr>g_tlist := ts @ [t\<lparr>t_flist := fs @ [f\<lparr>f_type := flowop_type_of_name ty,
          f_execute := Some (flowop_get_execute_func (flowop_type_of_name ty)), f_name := ty\<rparr>]\<rparr>]\<rparr>]) tid fid ig it st)"
  using assms flowop_name_short [OF assms] attr_type_cons(7) [of ty]
  by (simp add: build_eval set_type_def Let_def strlcpy_short)

lemma build_options_attr:
  assumes "list_all (opt_ok cfg) opts" and "length opts \<le> 100"
    and "f\<lparr>f_options := (f_options f)\<lparr>fo_count := 1, fo_repeat := 1, fo_batch_size := 1, fo_size := 0,
                fo_duration := 0\<rparr>, f_p_id := 0\<rparr> = f"
  shows "build_symbol cfg ftw (item_symbol (Attr ''options'' (join (map opt_text opts))))
      (mkb wn (gs @ [g\<lparr>g_tlist := ts @ [t\<lparr>t_flist := fs @ [f]\<rparr>]\<rparr>]) tid fid ig it st) =
    bgo (mkb wn (gs @ [g\<lparr>g_tlist := ts @ [t\<lparr>t_flist := fs @ [fold (opt_apply cfg) opts f]\<rparr>]\<rparr>]) tid fid ig it st)"
  using flowop_parse_options_join [OF assms(1,2) assms(3) [symmetric], of ftw st] attr_type_cons(8)
  by (simp add: build_eval set_options_def)

lemma build_flowop:
  assumes "flowop_spec_ok cfg fs"
  shows "build_loop cfg ftw (item_symbols (flowop_items fs)) (mkb wn (gs @ [g\<lparr>g_tlist := ts @ [t]\<rparr>]) tid fid ig True st) =
    bgo (mkb wn (gs @ [g\<lparr>g_tlist := ts @ [t\<lparr>t_nflowop := t_nflowop t + 1, t_flist := t_flist t @ [flowop_of cfg fid fs]\<rparr>]\<rparr>])
          tid (fid + 1) ig True st)"
proof -
  let ?f = "zero_flowop\<lparr>f_id := fid, f_name := fs_type fs, f_type := flowop_type_of_name (fs_type fs),
     f_execute := Some (flowop_get_execute_func (flowop_type_of_name (fs_type fs))),
     f_options := zero_options\<lparr>fo_count := 1, fo_repeat := 1, fo_batch_size := 1\<rparr>\<rparr>"
  have f: "new_flowop fid\<lparr>f_type := flowop_type_of_name (fs_type fs),
     f_execute := Some (flowop_get_execute_func (flowop_type_of_name (fs_type fs))), f_name := fs_type fs\<rparr> = ?f"
    by (simp add: new_flowop_def)
  have same: "?f\<lparr>f_options := (f_options ?f)\<lparr>fo_count := 1, fo_repeat := 1, fo_batch_size := 1, fo_size := 0,
                fo_duration := 0\<rparr>, f_p_id := 0\<rparr> = ?f"
    by (simp add: zero_flowop_def zero_options_def)
  have end_tag: "build_symbol cfg ftw (item_symbol (Word ''/>'')) b = bgo b" for b
    by (simp add: build_symbol_def word_types)
  from assms have ok: "flowop_type_of_name (fs_type fs) \<noteq> FLOWOP_ERROR" "list_all (opt_ok cfg) (fs_opts fs)" "length (fs_opts fs) \<le> 100"
    by (simp_all add: flowop_spec_ok_def)
  have gt: "item_token (Attr k v) \<noteq> ''>''" for k v by (cases k) auto
  have syms: "item_symbols (flowop_items fs) = item_symbol (Word ''<flowop'') # item_symbol (Attr ''type'' (fs_type fs)) #
      (if fs_opts fs = [] then [] else [item_symbol (Attr ''options'' (join (map opt_text (fs_opts fs))))]) @
      [item_symbol (Word ''/>'')]"
    by (simp add: flowop_items_def item_symbols_def)
  show ?thesis unfolding syms
    by (simp add: build_flowop_tag bgo_def build_type_attr [OF ok(1), unfolded bgo_def] f
        build_options_attr [OF ok(2,3) same, unfolded bgo_def] end_tag [unfolded bgo_def] flowop_of_def Let_def
        del: item_symbol.simps)
qed

lemma build_flowops:
  "list_all (flowop_spec_ok cfg) fss \<Longrightarrow>
   build_loop cfg ftw (item_symbols (concat (map flowop_items fss)))
     (mkb wn (gs @ [g\<lparr>g_tlist := ts @ [t]\<rparr>]) tid (of_nat n) ig True st) =
   bgo (mkb wn (gs @ [g\<lparr>g_tlist := ts @ [t\<lparr>t_nflowop := t_nflowop t + of_nat (length fss),
          t_flist := t_flist t @ map (\<lambda>(j, fs). flowop_of cfg (of_nat j) fs) (enumerate n fss)\<rparr>]\<rparr>])
          tid (of_nat (n + length fss)) ig True st)"
proof (induction fss arbitrary: t n)
  case Nil
  show ?case by (simp add: item_symbols_def mkb_def)
next
  case (Cons fs fss)
  let ?t = "t\<lparr>t_nflowop := t_nflowop t + 1, t_flist := t_flist t @ [flowop_of cfg (of_nat n) fs]\<rparr>"
  from Cons.prems have 1: "flowop_spec_ok cfg fs" and 2: "list_all (flowop_spec_ok cfg) fss" by simp_all
  have n: "of_nat n + 1 = (of_nat (Suc n) :: u32)" by simp
  show ?case
    by (simp only: list.map concat.simps item_symbols_append build_append_bgo [OF build_flowop [OF 1]] n Cons.IH [OF 2])
      (simp add: add.assoc)
qed

lemma build_mode:
  assumes "txn_spec_ok cfg env ts" and "pe_env st = env"
  shows "build_loop cfg ftw (item_symbols (mode_items ts)) (mkb wn (gs @ [g\<lparr>g_tlist := l @ [new_txn i]\<rparr>]) tid fid ig True st) =
    bgo (mkb wn (gs @ [g\<lparr>g_tlist := l @ [rated (ts_rate ts) ((new_txn i)\<lparr>
        t_iter := (case ts_mode ts of Iterations n \<Rightarrow> of_nat n | Duration d \<Rightarrow> 1),
        t_duration := (case ts_mode ts of Iterations n \<Rightarrow> 0
                      | Duration d \<Rightarrow> (case string_to_nsec env d of Inr n \<Rightarrow> n | Inl _ \<Rightarrow> 0))\<rparr>)]\<rparr>]) tid fid ig True st)"
proof -
  have dec: "string2int (Some (dec_nat n)) st = Inr (int n, st)" if "n < 2 ^ 31" for n
    using that by (rule string2int_dec_nat)
  have iter: "build_symbol cfg ftw (item_symbol (Attr ''iterations'' (dec_nat n)))
        (mkb wn (gs @ [g\<lparr>g_tlist := l @ [t]\<rparr>]) tid fid ig True st) =
      bgo (mkb wn (gs @ [g\<lparr>g_tlist := l @ [t\<lparr>t_iter := of_nat n\<rparr>]\<rparr>]) tid fid ig True st)" if "n < 2 ^ 31" for n t
    using dec [OF that] attr_type_cons(4) [of "dec_nat n"] by (simp add: build_eval set_iterations_def in_txn_do_def)
  have rate: "build_symbol cfg ftw (item_symbol (Attr ''rate'' (dec_nat n)))
        (mkb wn (gs @ [g\<lparr>g_tlist := l @ [t]\<rparr>]) tid fid ig True st) =
      bgo (mkb wn (gs @ [g\<lparr>g_tlist := l @ [t\<lparr>t_rate_str := dec_nat n, t_rate_count := of_nat n\<rparr>]\<rparr>]) tid fid ig True st)"
    if "n < 2 ^ 31" for n t
    using dec [OF that] attr_type_cons(6) [of "dec_nat n"] length_dec_10 [OF that]
    by (simp add: build_eval set_rate_def in_txn_do_def strlcpy_short NAMELEN_def)
  have dur: "build_symbol cfg ftw (item_symbol (Attr ''duration'' d))
        (mkb wn (gs @ [g\<lparr>g_tlist := l @ [t]\<rparr>]) tid fid ig True st) =
      bgo (mkb wn (gs @ [g\<lparr>g_tlist := l @ [t\<lparr>t_duration := n, t_iter := 1\<rparr>]\<rparr>]) tid fid ig True st)"
    if "string_to_nsec env d = Inr n" "n \<noteq> 0" for d n t
    using that assms(2) attr_type_cons(5) [of d] by (simp add: build_eval set_duration_def in_txn_do_def string2nsec_def)
  have gt: "item_token (Attr k v) \<noteq> ''>''" for k v by (cases k) auto
  have i1: "(new_txn i)\<lparr>t_iter := n, t_duration := 0\<rparr> = (new_txn i)\<lparr>t_iter := n\<rparr>"
      "(new_txn i)\<lparr>t_iter := 1, t_duration := m\<rparr> = (new_txn i)\<lparr>t_duration := m, t_iter := 1\<rparr>" for n m
    by (simp_all add: new_txn_def zero_txn_def)
  show ?thesis
  proof (cases "ts_mode ts")
    case (Iterations n)
    with assms(1) have n: "n < 2 ^ 31" by (simp add: txn_spec_ok_def)
    show ?thesis using assms(1) rate
      by (cases "ts_rate ts") (simp_all add: mode_items_def item_symbols_def gt Iterations build_cons_bgo [OF iter [OF n]]
          build_cons_bgo [OF rate] rated_def i1 txn_spec_ok_def del: item_symbol.simps item_token.simps build_loop.simps(2))
  next
    case (Duration d)
    with assms(1) obtain k where k: "string_to_nsec env d = Inr k" "k \<noteq> 0" by (auto simp: txn_spec_ok_def)
    show ?thesis using assms(1) rate
      by (cases "ts_rate ts") (simp_all add: mode_items_def item_symbols_def gt Duration k(1) build_cons_bgo [OF dur [OF k]]
          build_cons_bgo [OF rate] rated_def i1 txn_spec_ok_def del: item_symbol.simps item_token.simps build_loop.simps(2))
  qed
qed


lemma new_txn_name: "n < 2 ^ 31 \<Longrightarrow> t_name (new_txn (of_nat n)) = ''Txn'' @ dec_nat n"
proof -
  assume n: "n < 2 ^ 31"
  then have "sint (of_nat n :: u32) = int n"
    using sint_small [of "of_nat n"] by (simp add: unat_of_nat take_bit_nat_eq_self)
  with n length_dec_10 [OF n] show ?thesis
    by (simp add: new_txn_def dec_int_def strlcpy_short UPERF_NAME_LEN_def)
qed

lemma txn_of_built:
  assumes "n < 2 ^ 31"
  shows "(let t = rated (ts_rate ts) ((new_txn (of_nat n))\<lparr>
        t_iter := (case ts_mode ts of Iterations n \<Rightarrow> of_nat n | Duration d \<Rightarrow> 1),
        t_duration := (case ts_mode ts of Iterations n \<Rightarrow> 0
                      | Duration d \<Rightarrow> (case string_to_nsec env d of Inr n \<Rightarrow> n | Inl _ \<Rightarrow> 0))\<rparr>) in
      t\<lparr>t_nflowop := t_nflowop t + of_nat (length (ts_flowops ts)),
        t_flist := t_flist t @ map (\<lambda>(j, fs). flowop_of cfg (of_nat j) fs) (enumerate 0 (ts_flowops ts))\<rparr>) =
    txn_of cfg env n ts"
  using new_txn_name [OF assms]
  by (cases "ts_rate ts") (simp_all add: txn_of_def rated_def new_txn_def zero_txn_def)

lemma build_txn:
  assumes ok: "txn_spec_ok cfg env ts" and "pe_env st = env" and "n < 2 ^ 31"
  shows "build_loop cfg ftw (item_symbols (txn_items ts)) (mkb wn (gs @ [g]) (of_nat n) fid True it st) =
    bgo (mkb wn (gs @ [g\<lparr>g_ntxn := g_ntxn g + 1, g_tlist := g_tlist g @ [txn_of cfg env n ts]\<rparr>])
          (of_nat (Suc n)) (of_nat (length (ts_flowops ts))) True False st)"
proof -
  let ?g = "g\<lparr>g_ntxn := g_ntxn g + 1\<rparr>"
  let ?t = "rated (ts_rate ts) ((new_txn (of_nat n))\<lparr>
        t_iter := (case ts_mode ts of Iterations n \<Rightarrow> of_nat n | Duration d \<Rightarrow> 1),
        t_duration := (case ts_mode ts of Iterations n \<Rightarrow> 0
                      | Duration d \<Rightarrow> (case string_to_nsec env d of Inr n \<Rightarrow> n | Inl _ \<Rightarrow> 0))\<rparr>)"
  have syms: "item_symbols (txn_items ts) = item_symbol (Word ''<transaction'') # item_symbols (mode_items ts) @
      item_symbols (concat (map flowop_items (ts_flowops ts))) @ [item_symbol (Word ''</transaction>'')]"
    by (simp add: txn_items_def item_symbols_def)
  have start: "build_symbol cfg ftw (item_symbol (Word ''<transaction'')) (mkb wn (gs @ [g]) (of_nat n) fid True it st) =
      bgo (mkb wn (gs @ [?g\<lparr>g_tlist := g_tlist g @ [new_txn (of_nat n)]\<rparr>]) (of_nat (Suc n)) 0 True True st)"
    by (simp add: build_eval word_types txn_start_def add.commute)
  have stop: "build_symbol cfg ftw (item_symbol (Word ''</transaction>'')) (mkb wn gs' tid fid True True st) =
      bgo (mkb wn gs' tid fid True False st)" for gs' tid fid
    by (simp add: build_eval word_types)
  have flowops: "list_all (flowop_spec_ok cfg) (ts_flowops ts)" using ok by (simp add: txn_spec_ok_def)
  note fl = build_flowops [OF flowops, where n = 0 and g = ?g and ts = "g_tlist g" and t = ?t and ftw = ftw, simplified]
  show ?thesis unfolding syms
    using txn_of_built [OF assms(3), of ts env cfg]
    by (simp add: build_cons_bgo [OF start] build_append_bgo [OF build_mode [OF ok assms(2)]]
        build_append_bgo [OF fl] build_cons_bgo [OF stop] Let_def
        del: item_symbol.simps build_loop.simps(2) of_nat_Suc)
qed

lemma build_txns:
  "list_all (txn_spec_ok cfg env) tss \<Longrightarrow> pe_env st = env \<Longrightarrow> n + length tss \<le> 2 ^ 31 \<Longrightarrow>
   \<exists>fid' it'. build_loop cfg ftw (item_symbols (concat (map txn_items tss))) (mkb wn (gs @ [g]) (of_nat n) fid True it st) =
     bgo (mkb wn (gs @ [g\<lparr>g_ntxn := g_ntxn g + of_nat (length tss),
            g_tlist := g_tlist g @ map (\<lambda>(j, ts). txn_of cfg env j ts) (enumerate n tss)\<rparr>])
          (of_nat (n + length tss)) fid' True it' st)"
proof (induction tss arbitrary: g n fid it)
  case Nil
  show ?case by (rule exI [of _ fid], rule exI [of _ it]) (simp add: item_symbols_def mkb_def)
next
  case (Cons ts tss)
  let ?g = "g\<lparr>g_ntxn := g_ntxn g + 1, g_tlist := g_tlist g @ [txn_of cfg env n ts]\<rparr>"
  from Cons.prems have "txn_spec_ok cfg env ts" "n < 2 ^ 31" by simp_all
  note 1 = build_append_bgo [OF build_txn [OF this(1) Cons.prems(2) this(2)], of ftw "item_symbols (concat (map txn_items tss))"]
  from Cons.prems have "list_all (txn_spec_ok cfg env) tss" "Suc n + length tss \<le> 2 ^ 31" by simp_all
  from Cons.IH [OF this(1) Cons.prems(2) this(2), of ?g "of_nat (length (ts_flowops ts))" False] obtain fid' it' where
    2: "build_loop cfg ftw (item_symbols (concat (map txn_items tss))) (mkb wn (gs @ [?g]) (of_nat (Suc n)) (of_nat (length (ts_flowops ts))) True False st) =
       bgo (mkb wn (gs @ [?g\<lparr>g_ntxn := g_ntxn ?g + of_nat (length tss),
            g_tlist := g_tlist ?g @ map (\<lambda>(j, ts). txn_of cfg env j ts) (enumerate (Suc n) tss)\<rparr>])
          (of_nat (Suc n + length tss)) fid' True it' st)" by blast
  show ?case
    by (rule exI [of _ fid'], rule exI [of _ it'])
      (simp only: list.map concat.simps item_symbols_append 1 2, simp add: add.assoc)
qed

lemma build_group:
  assumes ok: "group_spec_ok cfg env gsp" and "pe_env st = env" and "length gs < MAXTHREADGROUPS"
  shows "\<exists>tid' fid' it'. build_loop cfg ftw (item_symbols (group_items gsp)) (mkb wn gs tid fid False it st) =
    bgo (mkb wn (gs @ [group_of cfg env (length gs) gsp]) tid' fid' False it' st)"
proof -
  let ?k = "if gs_procs gsp then ''nprocs'' else ''nthreads''"
  let ?fl = "if gs_procs gsp then STRAND_TYPE_PROCESS else STRAND_TYPE_THREAD"
  have syms: "item_symbols (group_items gsp) = item_symbol (Word ''<group'') # item_symbol (Attr ?k (dec_nat (gs_strands gsp))) #
      item_symbols (concat (map txn_items (gs_txns gsp))) @ [item_symbol (Word ''</group>'')]"
    by (simp add: group_items_def item_symbols_def)
  have start: "build_symbol cfg ftw (item_symbol (Word ''<group'')) (mkb wn gs tid fid False it st) =
      bgo (mkb wn (gs @ [new_group (length gs)]) 0 fid True it st)"
    using assms(3) by (simp add: build_eval word_types group_start_def)
  let ?g = "(new_group (length gs))\<lparr>g_nthreads := of_nat (gs_strands gsp), g_strand_flag := ?fl\<rparr>"
  have n: "gs_strands gsp < 2 ^ 31" using ok by (simp add: group_spec_ok_def)
  have threads: "build_symbol cfg ftw (item_symbol (Attr ?k (dec_nat (gs_strands gsp)))) (mkb wn (gs @ [new_group (length gs)]) 0 fid True it st) =
      bgo (mkb wn (gs @ [?g]) (of_nat 0) fid True it st)"
    using string2int_dec_nat [OF n, of st] attr_type_cons(2,3) [of "dec_nat (gs_strands gsp)"]
    by (simp add: build_eval set_threads_def new_group_def zero_group_def)
  have stop: "build_symbol cfg ftw (item_symbol (Word ''</group>'')) (mkb wn gs' tid fid True it st) =
      bgo (mkb wn gs' tid fid False it st)" for gs' tid fid it
    by (simp add: build_eval word_types)
  have "list_all (txn_spec_ok cfg env) (gs_txns gsp)" "0 + length (gs_txns gsp) \<le> 2 ^ 31"
    using ok by (simp_all add: group_spec_ok_def)
  from build_txns [OF this(1) assms(2) this(2), of ftw wn gs ?g fid it] obtain fid' it' where
    t: "build_loop cfg ftw (item_symbols (concat (map txn_items (gs_txns gsp)))) (mkb wn (gs @ [?g]) (of_nat 0) fid True it st) =
     bgo (mkb wn (gs @ [?g\<lparr>g_ntxn := g_ntxn ?g + of_nat (length (gs_txns gsp)),
            g_tlist := g_tlist ?g @ map (\<lambda>(j, ts). txn_of cfg env j ts) (enumerate 0 (gs_txns gsp))\<rparr>])
          (of_nat (0 + length (gs_txns gsp))) fid' True it' st)" by blast
  have "length (dec_nat (length gs)) \<le> 4" using assms(3) by (intro length_dec_nat) (simp_all add: MAXTHREADGROUPS_def)
  then have g: "?g\<lparr>g_ntxn := g_ntxn ?g + of_nat (length (gs_txns gsp)),
            g_tlist := g_tlist ?g @ map (\<lambda>(j, ts). txn_of cfg env j ts) (enumerate 0 (gs_txns gsp))\<rparr> = group_of cfg env (length gs) gsp"
    by (simp add: group_of_def new_group_def zero_group_def strlcpy_short UPERF_NAME_LEN_def)
  show ?thesis unfolding syms build_cons_bgo [OF start] build_cons_bgo [OF threads] build_append_bgo [OF t] g
      build_cons_bgo [OF stop] by auto
qed

lemma build_groups:
  "list_all (group_spec_ok cfg env) gsps \<Longrightarrow> pe_env st = env \<Longrightarrow> length gs + length gsps \<le> MAXTHREADGROUPS \<Longrightarrow>
   \<exists>tid' fid' it'. build_loop cfg ftw (item_symbols (concat (map group_items gsps))) (mkb wn gs tid fid False it st) =
     bgo (mkb wn (gs @ map (\<lambda>(i, g). group_of cfg env i g) (enumerate (length gs) gsps)) tid' fid' False it' st)"
proof (induction gsps arbitrary: gs tid fid it)
  case Nil
  show ?case by (rule exI [of _ tid], rule exI [of _ fid], rule exI [of _ it]) (simp add: item_symbols_def)
next
  case (Cons gsp gsps)
  from Cons.prems have "group_spec_ok cfg env gsp" "length gs < MAXTHREADGROUPS" by simp_all
  from build_group [OF this(1) Cons.prems(2) this(2), of ftw wn tid fid it] obtain tid1 fid1 it1 where
    1: "build_loop cfg ftw (item_symbols (group_items gsp)) (mkb wn gs tid fid False it st) =
      bgo (mkb wn (gs @ [group_of cfg env (length gs) gsp]) tid1 fid1 False it1 st)" by blast
  from Cons.prems have "list_all (group_spec_ok cfg env) gsps"
      "length (gs @ [group_of cfg env (length gs) gsp]) + length gsps \<le> MAXTHREADGROUPS" by simp_all
  from Cons.IH [OF this(1) Cons.prems(2) this(2), of tid1 fid1 it1] show ?case
    by (simp only: list.map concat.simps item_symbols_append build_append_bgo [OF 1]) simp
qed

lemma build_profile:
  assumes "profile_spec_ok cfg (pe_env st) ps"
  shows "build_worklist cfg ftw (item_symbols (profile_items ps)) st = Inr (Some (workorder_of cfg (pe_env st) ps), st)"
proof -
  have syms: "item_symbols (profile_items ps) = item_symbol (Word ''<profile'') # item_symbol (Attr ''name'' (ps_name ps)) #
      item_symbols (concat (map group_items (ps_groups ps))) @ [item_symbol (Word ''</profile>'')]"
    by (simp add: profile_items_def item_symbols_def)
  have b: "builder_start st = mkb [] [] 0 0 False False st" by (simp add: builder_start_def mkb_def)
  have tag: "build_symbol cfg ftw (item_symbol (Word ''<profile'')) b = bgo b"
    "build_symbol cfg ftw (item_symbol (Word ''</profile>'')) b = bgo b" for b
    by (simp_all add: build_symbol_def word_types)
  have name: "build_symbol cfg ftw (item_symbol (Attr ''name'' (ps_name ps))) (mkb [] [] 0 0 False False st) =
      bgo (mkb (ps_name ps) [] 0 0 False False st)"
    using assms attr_type_cons(1) [of "ps_name ps"]
    by (simp add: build_eval set_name_def profile_spec_ok_def strlcpy_short)
  have "list_all (group_spec_ok cfg (pe_env st)) (ps_groups ps)" "length ([] :: group list) + length (ps_groups ps) \<le> MAXTHREADGROUPS"
    using assms by (simp_all add: profile_spec_ok_def)
  from build_groups [OF this(1) refl this(2), of ftw "ps_name ps" 0 0 False] obtain tid fid it where
    g: "build_loop cfg ftw (item_symbols (concat (map group_items (ps_groups ps)))) (mkb (ps_name ps) [] 0 0 False False st) =
       bgo (mkb (ps_name ps) ([] @ map (\<lambda>(i, g). group_of cfg (pe_env st) i g) (enumerate (length ([] :: group list)) (ps_groups ps)))
              tid fid False it st)" by blast
  have "build_loop cfg ftw (item_symbols (profile_items ps)) (builder_start st) =
      bgo (mkb (ps_name ps) (map (\<lambda>(i, g). group_of cfg (pe_env st) i g) (enumerate 0 (ps_groups ps))) tid fid False it st)"
    unfolding syms b build_cons_bgo [OF tag(1)] build_cons_bgo [OF name] build_append_bgo [OF g] build_cons_bgo [OF tag(2)]
    by simp
  then show ?thesis by (simp add: build_worklist_def bgo_def mkb_def workorder_of_def)
qed


lemma build_symbol_state: "build_symbol cfg ftw sy b = Inr (Some b', st) \<Longrightarrow> st = b_ps b'"
  by (cases "sy_type sy")
    (auto simp: build_symbol_def Let_def bgo_def bfail_def cbind_Inr group_start_def txn_start_def flowop_start_def
      set_name_def set_iterations_def set_rate_def set_duration_def set_threads_def set_type_def set_options_def
      in_txn_do_def split: if_splits option.splits)

lemma build_loop_state: "build_loop cfg ftw syms b = Inr (Some b', st) \<Longrightarrow> st = b_ps b'"
  by (induction syms arbitrary: b) (auto simp: bgo_def cbind_Inr split: option.splits)

section \<open>Properties\<close>

definition text_file :: "string \<Rightarrow> profile_file" where
  \<comment> \<open>a readable file with this content\<close>
  "text_file data = \<lparr>pf_stat = 0, pf_size = length data, pf_open = 3, pf_read = Some data\<rparr>"

definition small_profile :: profile_spec where
  "small_profile = \<lparr>ps_name = ''p'', ps_groups = [\<lparr>gs_procs = False, gs_strands = 4,
      gs_txns = [\<lparr>ts_mode = Iterations 10, ts_rate = None, ts_flowops =
        [\<lparr>fs_type = ''write'', fs_opts = [Opt_size 8192, Opt_canfail]\<rparr>]\<rparr>]\<rparr>]\<rparr>"

definition no_env :: "string \<Rightarrow> string option" where "no_env v = None"

definition no_files :: "string \<Rightarrow> ftw_entry list \<times> int" where "no_files d = ([], 0)"

lemma small_profile_ok: "profile_spec_ok cfg env small_profile"
proof -
  have w: "plain_word ''p''" "plain_word ''write''" "flowop_type_of_name ''write'' = FLOWOP_WRITE" by code_simp+
  have "length (dec_nat 8192) \<le> 10" by (rule length_dec_10) simp
  with w show ?thesis
    by (simp add: small_profile_def profile_spec_ok_def group_spec_ok_def txn_spec_ok_def flowop_spec_ok_def NAMELEN_def MAXTHREADGROUPS_def)
qed

lemma parse_profile_text:
  assumes "profile_spec_ok cfg env ps"
  shows "parse_app_profile cfg ftw env (text_file (profile_text ps @ [c])) sfv =
    Inr (Some (workorder_of cfg env ps), \<lparr>pe_env = env, pe_errs = [], pe_sfv = sfv\<rparr>)"
proof -
  let ?items = "profile_items ps"
  have ok: "list_all item_ok ?items" by (rule profile_items_ok [OF assms])
  then have "takeWhile (\<lambda>c. c \<noteq> NUL) (profile_text ps) = profile_text ps"
    using render_nul by (auto simp: profile_text_def takeWhile_eq_all_conv)
  moreover have "parse env (profile_text ps) = Inr (item_symbols ?items, 0, [])"
    unfolding profile_text_def by (rule parse_items [OF ok]) (simp add: profile_items_def)
  ultimately show ?thesis
    using build_profile [of cfg "\<lparr>pe_env = env, pe_errs = [], pe_sfv = sfv\<rparr>" ps ftw] assms
    by (simp add: parse_app_profile_def text_file_def Let_def del: takeWhile_eq_all_conv)
qed



text \<open>
  A profile whose last character is the \<open>></\<close> of \<open></profile>\<close>, with no newline behind it, is
  always rejected: the parser overwrites that character and does not know the symbol that is
  left.
\<close>

lemma newline_at_end_needed:
  assumes "profile_spec_ok cfg env ps"
  shows "parse_app_profile cfg ftw env (text_file (butlast (profile_text ps))) sfv =
    Inr (None, \<lparr>pe_env = env, pe_errs = [''Unknown symbol: </profile''], pe_sfv = sfv\<rparr>)"
proof -
  let ?st = "\<lparr>pe_env = env, pe_errs = [], pe_sfv = sfv\<rparr>"
  let ?l = "''</profile''"
  obtain is0 where items: "profile_items ps = is0 @ [Word ''</profile>'']" and ne: "is0 \<noteq> []"
    by (simp add: profile_items_def)
  have ok: "list_all item_ok is0" using profile_items_ok [OF assms] by (simp add: items)
  have pt: "profile_text ps = (render is0 @ ?l) @ [CHR ''>'', CHR 0x0A]"
    by (simp add: profile_text_def items render_def)
  have "butlast ((render is0 @ ?l) @ [CHR ''>'', CHR 0x0A]) = (render is0 @ ?l) @ [CHR ''>'']"
    by (subst butlast_append) simp
  then have b1: "butlast (profile_text ps) = (render is0 @ ?l) @ [CHR ''>'']" by (simp only: pt)
  have l: "item_ok (Word ?l)" "?l \<noteq> ''>''" by code_simp+
  have "NUL \<notin> set (render is0 @ ?l)" using render_nul [OF ok] by auto
  then have nul: "takeWhile (\<lambda>c. c \<noteq> NUL) (render is0 @ ?l) = render is0 @ ?l" by (auto simp: takeWhile_eq_all_conv)
  have p: "parse env (render is0 @ ?l) = Inr (item_symbols is0 @ [item_symbol (Word ?l)], 0, [])"
    by (rule parse_items_last [OF ok ne l])
  have full: "item_symbols (profile_items ps) = item_symbols is0 @ [item_symbol (Word ''</profile>'')]"
    by (simp add: items item_symbols_def)
  from build_profile [of cfg ?st ps ftw] assms obtain b where
    "build_loop cfg ftw (item_symbols is0 @ [item_symbol (Word ''</profile>'')]) (builder_start ?st) = Inr (Some b, ?st)"
    by (auto simp: full build_worklist_def cbind_Inr)
  then obtain b' st' where "build_loop cfg ftw (item_symbols is0) (builder_start ?st) = Inr (Some b', st')" "b_ps b' = ?st"
    by (auto simp: build_append cbind_Inr build_symbol_def word_types bgo_def split: option.splits)
  then have b': "build_loop cfg ftw (item_symbols is0) (builder_start ?st) = Inr (Some b', ?st)" "b_ps b' = ?st"
    using build_loop_state by auto
  have "token_type ?l = TOKEN_ERROR" by code_simp
  with b' have "build_loop cfg ftw (item_symbols is0 @ [item_symbol (Word ?l)]) (builder_start ?st) =
      Inr (None, ?st\<lparr>pe_errs := [''Unknown symbol: </profile'']\<rparr>)"
    by (simp add: build_append build_symbol_def bfail_def perr_def add_error_def symbol_text_def strlcpy_def)
  then show ?thesis using p nul
    by (simp add: parse_app_profile_def text_file_def Let_def b1 build_worklist_def butlast_append del: takeWhile_eq_all_conv)
qed

lemma newline_at_end_needed_witness:
  "parse_app_profile tcp_only no_files no_env (text_file (butlast (profile_text small_profile))) [] =
    Inr (None, \<lparr>pe_env = no_env, pe_errs = [''Unknown symbol: </profile''], pe_sfv = []\<rparr>)"
  by (rule newline_at_end_needed [OF small_profile_ok])

text \<open>
  C5. A profile that is accepted is well typed, whatever its text: at most 1024 groups, whose
  counters \<open>ntxn\<close> and \<open>nflowop\<close> count their lists and whose transactions and flowops are
  numbered from 0; thread counts, rates and iteration counts that an \<open>int\<close> can hold; flowops
  whose routine is that of their type, with strings that end inside their arrays, a protocol
  that was compiled in, and sizes in range. So every group can be sent to a slave.
\<close>

theorem profile_well_typed:
  assumes "parse_app_profile cfg ftw env file sfv = Inr (Some w, st)" and "c_env env" and "sfv_ok sfv"
    and "pf_size file \<le> 2 ^ 32"
  shows "work_good cfg True (pf_size file) w \<and> (\<forall>g \<in> set (w_grp w). group_counts g \<and> group_sendable g)"
proof -
  from parse_app_profile_good [OF assms(1-3)] obtain n where n: "n < pf_size file" "work_good cfg True n w" by blast
  with assms(4) work_good_counts [OF n(2)] work_good_mono [OF n(2), of True "pf_size file"] show ?thesis by auto
qed

lemma profile_well_typed_witness:
  "\<exists>w. work_good tcp_only True (length (profile_text small_profile) + 1) w \<and> (\<forall>g \<in> set (w_grp w). group_counts g \<and> group_sendable g)"
proof -
  let ?file = "text_file (profile_text small_profile @ [CHR 0x0A])"
  have "length (dec_nat 10) \<le> 10" "length (dec_nat 4) \<le> 10" "length (dec_nat 8192) \<le> 10" by (intro length_dec_10; simp)+
  then have l: "length (profile_text small_profile) < 2 ^ 31"
    by (simp add: profile_text_def render_def profile_items_def group_items_def txn_items_def mode_items_def
        flowop_items_def small_profile_def)
  have "work_good tcp_only True (pf_size ?file) (workorder_of tcp_only no_env small_profile) \<and>
      (\<forall>g \<in> set (w_grp (workorder_of tcp_only no_env small_profile)). group_counts g \<and> group_sendable g)"
    using l parse_profile_text [OF small_profile_ok, of tcp_only no_files no_env "CHR 0x0A" "[]"]
    by (intro profile_well_typed [of tcp_only no_files no_env ?file "[]"]) (auto simp: c_env_def no_env_def sfv_ok_def text_file_def)
  then show ?thesis by (auto simp: text_file_def)
qed

end
