(* ===== verification/Logging.thy ===== *)
theory Logging
  imports Prelude
begin

text \<open>
  The error log (\<open>src/logging.c\<close>): a table of at most \<open>NUM_ERR_STR\<close> distinct messages with
  the number of times each was reported. The table is the list of its slots below
  \<open>num_msg\<close>; writing a slot outside the array is \<^const>\<open>Undefined\<close>. What is printed goes to
  \<open>l_printed\<close>, a line per entry. The lock is held around each access of the table, so the
  operations are atomic; \<open>strerror\<close> is a parameter.
\<close>

definition NUM_ERR_STR :: nat where "NUM_ERR_STR = 256"
definition ERR_STR_LEN :: nat where "ERR_STR_LEN = 512"

datatype msg_type =
  UPERF_LOG_ERROR | UPERF_LOG_QUIT | UPERF_LOG_ABORT | UPERF_LOG_INFO | UPERF_LOG_DEBUG | UPERF_LOG_WARN

section \<open>Levels\<close>

text \<open>The levels are ordered as their numbers 0 and 2.\<close>

datatype log_level = UPERF_NONVERBOSE | UPERF_VERBOSE

fun level_code :: "log_level \<Rightarrow> int" where
  "level_code UPERF_NONVERBOSE = 0"
| "level_code UPERF_VERBOSE = 2"

lemma level_code_inj: "level_code a = level_code b \<Longrightarrow> a = b"
  by (cases a; cases b) simp_all

instantiation log_level :: linorder
begin

definition less_eq_log_level :: "log_level \<Rightarrow> log_level \<Rightarrow> bool" where
  "less_eq_log_level a b = (level_code a \<le> level_code b)"

definition less_log_level :: "log_level \<Rightarrow> log_level \<Rightarrow> bool" where
  "less_log_level a b = (level_code a < level_code b)"

instance
  by standard (auto simp: less_eq_log_level_def less_log_level_def intro: level_code_inj)

end

definition uperf_set_log_level :: "log_level \<Rightarrow> log_level \<Rightarrow> int \<times> log_level" where
  \<comment> \<open>the second argument is the static \<open>log_level\<close>\<close>
  "uperf_set_log_level new level = (0, new)"

definition uperf_printer :: "log_level \<Rightarrow> log_level \<Rightarrow> string \<Rightarrow> string list \<Rightarrow> string list" where
  \<comment> \<open>what is printed grows by the formatted text\<close>
  "uperf_printer level log_level text printed = (if level \<le> log_level then printed @ [text] else printed)"

lemma critical_printed: "uperf_printer UPERF_NONVERBOSE l text out = out @ [text]"
  by (cases l) (simp_all add: uperf_printer_def less_eq_log_level_def)

lemma more_verbose_prints_more:
  "l \<le> l' \<Longrightarrow> uperf_printer m l text out = out @ [text] \<Longrightarrow> uperf_printer m l' text out = out @ [text]"
  by (auto simp: uperf_printer_def split: if_splits)

section \<open>The table\<close>

record errstr =
  es_myerrno :: int
  es_type :: msg_type
  es_count :: nat
  es_str :: string

record uperf_log =
  l_msg :: "errstr list"
  l_printed :: "string list"

definition uperf_log_init :: "uperf_log" where
  \<comment> \<open>the \<open>memset\<close>; the mutex calls succeed\<close>
  "uperf_log_init = \<lparr>l_msg = [], l_printed = []\<rparr>"

definition uperf_log_num_msgs :: "uperf_log \<Rightarrow> int" where
  "uperf_log_num_msgs l = int (length (l_msg l))"

section \<open>Flushing\<close>

definition errno_text :: "(int \<Rightarrow> string) \<Rightarrow> errstr \<Rightarrow> string" where
  "errno_text strerror m = (if es_myerrno m = 0 then '' '' else strerror (es_myerrno m))"

definition kind_text :: "errstr \<Rightarrow> string" where
  "kind_text m = (if es_type m = UPERF_LOG_WARN then ''Warnings'' else ''Errors'')"

definition flush_line :: "(int \<Rightarrow> string) \<Rightarrow> errstr \<Rightarrow> string" where
  "flush_line strerror m =
     (let e = errno_text strerror m in
      if es_count m > 2 then
        ''** '' @ dec_nat (es_count m) @ '' '' @ kind_text m @ '' '' @ es_str m @ '' '' @ e @ ''\<newline>''
      else
        (if es_type m = UPERF_LOG_WARN then ''** Warning: '' else ''** '') @ es_str m @ '' '' @ e @ ''\<newline>'')"

definition uperf_log_flush :: "(int \<Rightarrow> string) \<Rightarrow> uperf_log \<Rightarrow> uperf_log" where
  "uperf_log_flush strerror l =
     \<lparr>l_msg = [],
      l_printed = l_printed l @
        map (flush_line strerror) (filter (\<lambda>m. length (es_str m) \<noteq> 0) (l_msg l))\<rparr>"

definition snprintf_at :: "nat \<Rightarrow> string \<Rightarrow> string \<Rightarrow> string" where
  \<comment> \<open>\<open>snprintf(&buffer[index], size - index, "%s", s)\<close> with \<open>index = strlen(buffer)\<close>; the
     text already in the buffer is its first argument\<close>
  "snprintf_at sz pre s = pre @ take (sz - length pre - 1) s"

definition string_entry :: "(int \<Rightarrow> string) \<Rightarrow> errstr \<Rightarrow> string list" where
  \<comment> \<open>the pieces the successive \<open>snprintf\<close> calls for one slot append\<close>
  "string_entry strerror m =
     (let e = errno_text strerror m in
      if length (es_str m) = 0 then []
      else if es_count m > 2 then
        [dec_nat (es_count m) @ '' '' @ kind_text m @ ''  '' @ es_str m @ '' '' @ e @ ''\<newline>'']
      else
        [if es_type m = UPERF_LOG_WARN then ''Warning: '' else '' '', es_str m @ '' '' @ e @ ''\<newline>''])"

definition uperf_log_flush_to_string :: "(int \<Rightarrow> string) \<Rightarrow> uperf_log \<Rightarrow> nat \<Rightarrow> string" where
  \<comment> \<open>\<open>size\<close> at least 1; what the buffer holds, empty if no entry is printed\<close>
  "uperf_log_flush_to_string strerror l sz =
     fold (\<lambda>m buf. fold (\<lambda>s b. snprintf_at sz b s) (string_entry strerror m) buf) (l_msg l) []"

section \<open>Adding a message\<close>

fun bump_count :: "string \<Rightarrow> errstr list \<Rightarrow> errstr list option" where
  \<comment> \<open>the search loop: the first slot with this text has its count raised\<close>
  "bump_count msg [] = None"
| "bump_count msg (m # ms) =
     (if strneq0 ERR_STR_LEN (es_str m) msg then Some (m\<lparr>es_count := es_count m + 1\<rparr> # ms)
      else map_option (Cons m) (bump_count msg ms))"

definition uperf_log_msg ::
  "(int \<Rightarrow> string) \<Rightarrow> msg_type \<Rightarrow> int \<Rightarrow> string option \<Rightarrow> uperf_log \<Rightarrow> c_stop + uperf_log" where
  "uperf_log_msg strerror type myerrno msg l =
     (case msg of
        None \<Rightarrow> Inr l
      | Some s \<Rightarrow>
          if myerrno = EINTR then Inr l
          else
            let l1 = (if length (l_msg l) > NUM_ERR_STR then uperf_log_flush strerror l else l) in
            case bump_count s (l_msg l1) of
              Some ms \<Rightarrow> Inr (l1\<lparr>l_msg := ms\<rparr>)
            | None \<Rightarrow>
                if length (l_msg l1) < NUM_ERR_STR then
                  Inr (l1\<lparr>l_msg := l_msg l1 @
                    [\<lparr>es_myerrno = myerrno, es_type = type, es_count = 1,
                      es_str = strlcpy (ERR_STR_LEN - 1) s\<rparr>]\<rparr>)
                else Inl Undefined)"

definition ulog ::
  "(int \<Rightarrow> string) \<Rightarrow> msg_type \<Rightarrow> int \<Rightarrow> string \<Rightarrow> uperf_log \<Rightarrow> c_stop + uperf_log" where
  \<comment> \<open>the formatted text is cut to \<open>ERR_STR_LEN - 1\<close> characters first\<close>
  "ulog strerror type myerrno text l =
     uperf_log_msg strerror type myerrno (Some (take (ERR_STR_LEN - 1) text)) l"

fun log_all ::
  "(int \<Rightarrow> string) \<Rightarrow> (msg_type \<times> int \<times> string) list \<Rightarrow> uperf_log \<Rightarrow> c_stop + uperf_log" where
  \<comment> \<open>a run of the log: a sequence of reports\<close>
  "log_all strerror [] l = Inr l"
| "log_all strerror ((t, e, s) # ms) l =
     cbind (uperf_log_msg strerror t e (Some s) l) (log_all strerror ms)"

section \<open>What the log holds\<close>

definition log_inv :: "uperf_log \<Rightarrow> bool" where
  "log_inv l = (length (l_msg l) \<le> NUM_ERR_STR \<and> distinct (map es_str (l_msg l)) \<and>
     (\<forall>m \<in> set (l_msg l). 0 < es_count m \<and> length (es_str m) < ERR_STR_LEN - 1))"

definition reported :: "string \<Rightarrow> uperf_log \<Rightarrow> nat" where
  \<comment> \<open>how often the table says a message was reported\<close>
  "reported s l = sum_list (map es_count (filter (\<lambda>m. es_str m = s) (l_msg l)))"

lemma strneq0_short:
  "length a < n \<Longrightarrow> length b < n \<Longrightarrow> strneq0 n a b \<longleftrightarrow> a = b"
  by (simp add: strneq0_def)

lemma bump_count_map: "bump_count s ms = Some ms' \<Longrightarrow> map es_str ms' = map es_str ms"
  by (induction ms arbitrary: ms') (auto split: if_splits)

lemma bump_count_None: "bump_count s ms = None \<longleftrightarrow> (\<forall>m \<in> set ms. \<not> strneq0 ERR_STR_LEN (es_str m) s)"
  by (induction ms) auto

lemma bump_count_positive:
  "bump_count s ms = Some ms' \<Longrightarrow> \<forall>m \<in> set ms. 0 < es_count m \<and> P (es_str m) \<Longrightarrow>
   \<forall>m \<in> set ms'. 0 < es_count m \<and> P (es_str m)"
  by (induction ms arbitrary: ms') (auto split: if_splits)

lemma bump_count_length: "bump_count s ms = Some ms' \<Longrightarrow> length ms' = length ms"
  using bump_count_map [of s ms ms'] by (metis length_map)

lemma bump_count_counts:
  assumes "bump_count s ms = Some ms'" and "length s < ERR_STR_LEN"
    and "\<forall>m \<in> set ms. length (es_str m) < ERR_STR_LEN"
  shows "sum_list (map es_count (filter (\<lambda>m. es_str m = u) ms')) =
    sum_list (map es_count (filter (\<lambda>m. es_str m = u) ms)) + (if u = s then 1 else 0)"
  using assms
  by (induction ms arbitrary: ms') (auto simp: strneq0_short split: if_splits)

text \<open>
  The table keeps each message once with a positive count, however it is used.
\<close>

lemma uperf_log_msg_inv:
  assumes "log_inv l" and "uperf_log_msg strerror t e (Some s) l = Inr l'" and "length s < ERR_STR_LEN - 1"
  shows "log_inv l'"
proof (cases "e = EINTR")
  case False
  have nf: "\<not> NUM_ERR_STR < length (l_msg l)" using assms(1) by (simp add: log_inv_def)
  show ?thesis
  proof (cases "bump_count s (l_msg l)")
    case None
    then have "s \<notin> es_str ` set (l_msg l)"
      by (auto simp: bump_count_None strneq0_def)
    with None False nf assms show ?thesis
      by (auto simp: uperf_log_msg_def log_inv_def strlcpy_def split: if_splits)
  next
    case (Some ms)
    with bump_count_length [OF Some] bump_count_map [OF Some]
      bump_count_positive [OF Some, of "\<lambda>x. length x < ERR_STR_LEN - 1"] False nf assms
    show ?thesis by (auto simp: uperf_log_msg_def log_inv_def)
  qed
qed (use assms in \<open>simp add: uperf_log_msg_def\<close>)

lemma uperf_log_msg_reported:
  assumes "log_inv l" and "uperf_log_msg strerror t e (Some s) l = Inr l'" and "length s < ERR_STR_LEN - 1"
    and "e \<noteq> EINTR"
  shows "reported u l' = reported u l + (if u = s then 1 else 0)"
proof (cases "bump_count s (l_msg l)")
  case None
  with assms show ?thesis
    by (auto simp: uperf_log_msg_def log_inv_def strlcpy_def reported_def split: if_splits)
next
  case (Some ms)
  have "\<forall>m \<in> set (l_msg l). length (es_str m) < ERR_STR_LEN"
    using assms(1) by (auto simp: log_inv_def)
  moreover have "length s < ERR_STR_LEN" using assms(3) by simp
  ultimately show ?thesis
    using bump_count_counts [OF Some, of u] assms Some
    by (auto simp: uperf_log_msg_def log_inv_def reported_def)
qed

lemma log_step_ok:
  assumes "log_inv l" and "length s < ERR_STR_LEN - 1" and "finite A"
    and "es_str ` set (l_msg l) \<subseteq> A" and "s \<in> A" and "card A \<le> NUM_ERR_STR"
  shows "\<exists>l'. uperf_log_msg strerror t e (Some s) l = Inr l' \<and> es_str ` set (l_msg l') \<subseteq> A"
proof (cases "e = EINTR")
  case False
  have nf: "\<not> NUM_ERR_STR < length (l_msg l)" using assms(1) by (simp add: log_inv_def)
  show ?thesis
  proof (cases "bump_count s (l_msg l)")
    case None
    then have new: "s \<notin> es_str ` set (l_msg l)"
      by (auto simp: bump_count_None strneq0_def)
    have "length (l_msg l) = card (es_str ` set (l_msg l))"
      using assms(1) distinct_card [of "map es_str (l_msg l)"] by (simp add: log_inv_def)
    also have "\<dots> < card A"
      using new assms(3-5) by (intro psubset_card_mono) auto
    finally show ?thesis
      using None False nf assms by (simp add: uperf_log_msg_def strlcpy_def)
  next
    case (Some ms)
    with bump_count_map [OF Some] False nf assms(4) show ?thesis
      by (auto simp: uperf_log_msg_def simp flip: set_map)
  qed
qed (use assms in \<open>simp add: uperf_log_msg_def\<close>)

text \<open>
  The log counts what it is told: as long as no more than 256 different messages are
  reported, every report is stored, nothing is flushed, and the table holds for each message
  the number of times it was reported.
\<close>

lemma log_counts_reports:
  assumes "card (snd ` snd ` set rs) \<le> NUM_ERR_STR"
    and "\<forall>(t, e, s) \<in> set rs. length s < ERR_STR_LEN - 1 \<and> e \<noteq> EINTR"
  shows "\<exists>l. log_all strerror rs uperf_log_init = Inr l \<and> l_printed l = [] \<and> log_inv l \<and>
    reported u l = length (filter (\<lambda>(t, e, s). s = u) rs)"
proof -
  let ?A = "snd ` snd ` set rs"
  have "\<exists>l'. log_all strerror xs l = Inr l' \<and> log_inv l' \<and>
      reported u l' = reported u l + length (filter (\<lambda>(t, e, s). s = u) xs) \<and> l_printed l' = l_printed l"
    if "set xs \<subseteq> set rs" and "log_inv l" and "es_str ` set (l_msg l) \<subseteq> ?A" for xs l
    using that
  proof (induction xs arbitrary: l)
    case (Cons x xs)
    obtain t e s where x: "x = (t, e, s)" by (cases x)
    have m: "(t, e, s) \<in> set rs" and s: "s \<in> ?A" using Cons.prems(1) x by force+
    then have len: "length s < ERR_STR_LEN - 1" and e: "e \<noteq> EINTR" using assms(2) by auto
    obtain l1 where l1: "uperf_log_msg strerror t e (Some s) l = Inr l1" "es_str ` set (l_msg l1) \<subseteq> ?A"
      using log_step_ok [OF Cons.prems(2) len _ Cons.prems(3) s assms(1), of strerror t e] by blast
    have p: "l_printed l1 = l_printed l"
      using l1(1) Cons.prems(2) e by (auto simp: uperf_log_msg_def log_inv_def split: option.splits if_splits)
    obtain l2 where l2: "log_all strerror xs l1 = Inr l2" "log_inv l2"
        "reported u l2 = reported u l1 + length (filter (\<lambda>(t, e, s). s = u) xs)" "l_printed l2 = l_printed l1"
      using Cons.IH [of l1] Cons.prems uperf_log_msg_inv [OF Cons.prems(2) l1(1) len] l1(2) by auto
    with l1(1) p uperf_log_msg_reported [OF Cons.prems(2) l1(1) len e, of u] show ?case
      by (auto simp: x)
  qed auto
  from this [of rs uperf_log_init] show ?thesis
    by (auto simp: uperf_log_init_def log_inv_def reported_def)
qed

lemma log_counts_reports_witness:
  "\<exists>l. log_all (\<lambda>_. []) [(UPERF_LOG_ERROR, 0, ''a''), (UPERF_LOG_WARN, 5, ''b''), (UPERF_LOG_ERROR, 0, ''a'')]
       uperf_log_init = Inr l \<and> reported ''a'' l = 2"
proof -
  let ?rs = "[(UPERF_LOG_ERROR, 0, ''a''), (UPERF_LOG_WARN, 5, ''b''), (UPERF_LOG_ERROR, 0, ''a'')]
    :: (msg_type \<times> int \<times> string) list"
  have "card (snd ` snd ` set ?rs) \<le> NUM_ERR_STR"
    by (simp add: NUM_ERR_STR_def card_insert_if)
  moreover have "\<forall>(t, e, s) \<in> set ?rs. length s < ERR_STR_LEN - 1 \<and> e \<noteq> EINTR"
    by (simp add: ERR_STR_LEN_def EINTR_def)
  ultimately show ?thesis
    using log_counts_reports [of ?rs "\<lambda>_. []" "''a''"] by auto
qed

text \<open>
  The 257th different message is written outside the table: the flush is asked for only
  when the table already holds more messages than it has slots.
\<close>

lemma log_overruns_when_full:
  assumes "length (l_msg l) = NUM_ERR_STR" and "e \<noteq> EINTR"
    and "\<forall>m \<in> set (l_msg l). \<not> strneq0 ERR_STR_LEN (es_str m) s"
  shows "uperf_log_msg strerror t e (Some s) l = Inl Undefined"
  using assms by (simp add: uperf_log_msg_def iffD2 [OF bump_count_None])

lemma log_overruns_when_full_witness:
  "uperf_log_msg (\<lambda>_. []) UPERF_LOG_ERROR 0 (Some ''new'')
     \<lparr>l_msg = replicate 256 \<lparr>es_myerrno = 0, es_type = UPERF_LOG_ERROR, es_count = 1, es_str = ''old''\<rparr>,
      l_printed = []\<rparr> = Inl Undefined"
  by (rule log_overruns_when_full) (auto simp: NUM_ERR_STR_def EINTR_def strneq0_def ERR_STR_LEN_def)

section \<open>Flushing to a string\<close>

lemma snprintf_at_fold:
  assumes "length buf \<le> sz - 1"
  shows "fold (\<lambda>s b. snprintf_at sz b s) ss buf = take (sz - 1) (buf @ concat ss)"
  using assms
proof (induction ss arbitrary: buf)
  case (Cons s ss)
  have "snprintf_at sz buf s = take (sz - 1) (buf @ s)"
    using Cons.prems by (simp add: snprintf_at_def)
  moreover have "take (sz - 1) (take (sz - 1) (buf @ s) @ concat ss) = take (sz - 1) (buf @ s @ concat ss)"
    by (simp add: min_def)
  ultimately show ?case using Cons.IH [of "snprintf_at sz buf s"] by simp
qed simp


end
