(* ===== verification/Sockets.thy ===== *)
theory Sockets
  imports Protocols Logging Workorder Numbers "HOL-Library.State_Monad"
begin

text \<open>
  The socket layer shared by the protocols (\<open>src/generic.c\<close>) and TCP (\<open>src/tcp.c\<close>), as
  programs of the state monad over the system calls they make. The kernel is a parameter: a
  function from a call and the state of the world to a reply. The state of the process is
  \<open>errno\<close>, the reports made to the error log, in order (\<^const>\<open>log_all\<close> runs them), and the
  world.

  What the C headers define of the TCP options is the parameter \<open>tcp_config\<close>. The messages
  of \<open>uperf_info\<close> and \<open>uperf_warn\<close> are printed only at a higher level and left out.
\<close>

section \<open>System calls\<close>

datatype family = AF_UNSPEC | AF_INET | AF_INET6 | AF_VSOCK | AF_UNIX | PF_RDS | AF_INET_OFFLOAD | AF_OTHER

record sockaddr =
  sa_family :: family
  sa_addr :: string   \<comment> \<open>as \<open>inet_ntop\<close> writes it\<close>
  sa_port :: u16      \<comment> \<open>in host order\<close>

datatype socktype = SOCK_STREAM | SOCK_DGRAM | SOCK_SEQPACKET

datatype sockopt =
  So_sndbuf int | So_rcvbuf int | So_reuseaddr int | Ipv6_v6only int | Tcp_nodelay int
| Tcp_congestion string | Tcp_function_blk string | Tcp_log u32 | Tcp_remote_udp_encaps_port u32
| Sctp_nodelay int | Sctp_initmsg u16 u16 | Sctp_rtoinfo u32 u32 u32 | Sctp_delayed_sack u32 u32
| Sctp_max_burst u32 | Sctp_maxseg u32 | Sctp_peer_addr_params family u32 u32 bool bool
| Sctp_remote_udp_encaps_port family u16

text \<open>What goes along with an SCTP message: unordered, its stream, and how reliable it is.\<close>

record sctp_info =
  sn_unordered :: bool
  sn_stream :: u16
  sn_policy :: "(string \<times> u32) option"

datatype sockbuf = Sndbuf | Rcvbuf

text \<open>A buffer: an offset in the strand's, an array on the stack, or a string constant.\<close>

datatype buf = Strand_buf nat | Local_buf | Text string

datatype pollev = POLLIN | POLLOUT

datatype syscall =
  Sys_getaddrinfo string
| Sys_socket family socktype int
| Sys_setsockopt int sockopt
| Sys_getsockopt int sockbuf
| Sys_bind int sockaddr
| Sys_getsockname int
| Sys_listen int int
| Sys_connect int sockaddr
| Sys_accept int
| Sys_poll int int pollev
| Sys_read int buf int
| Sys_write int buf int
| Sys_recv int buf int
| Sys_send int buf int
| Sys_recvmsg int buf int
| Sys_sendmsg int buf int sockaddr
| Sys_sendmsg_sctp int buf int sctp_info
| Sys_sendmmsg int buf int sctp_info nat nat   \<comment> \<open>from which entry of the array, how many\<close>
| Sys_recvmmsg int int nat
| Sys_bind_vm int u32 u32
| Sys_connect_vm int u32 u32
| Sys_connect_un int string
| Sys_unlink string
| Sys_getnameinfo sockaddr
| Sys_shutdown int int
| Sys_nonblock int
| Sys_close int

text \<open>
  A reply: the value returned, \<open>errno\<close> if the call failed, the addresses stored (those of
  \<open>getaddrinfo\<close>, or the one of \<open>getsockname\<close>, \<open>accept\<close> and \<open>recvmsg\<close>), the integer stored by
  \<open>getsockopt\<close> (for \<open>poll\<close>, the events that happened), the bytes received or the text of
  \<open>gai_strerror\<close>, the address (context and port) of a virtual machine, and the lengths of the
  messages \<open>recvmmsg\<close> stored.
\<close>

record reply =
  re_ret :: int
  re_errno :: int
  re_addrs :: "sockaddr list"
  re_val :: int
  re_data :: string
  re_vm :: "u32 \<times> u32"
  re_lens :: "nat list"

type_synonym 'w kernel = "syscall \<Rightarrow> 'w \<Rightarrow> reply \<times> 'w"

record 'w proc =
  pc_errno :: int
  pc_log :: "(msg_type \<times> int \<times> string) list"
  pc_world :: 'w

type_synonym ('w, 'a) io = "('w proc, 'a) state"

definition sysc :: "'w kernel \<Rightarrow> syscall \<Rightarrow> ('w, reply) io" where
  "sysc k c = State (\<lambda>p. case k c (pc_world p) of (r, w) \<Rightarrow>
     (r, p\<lparr>pc_errno := (if re_ret r < 0 then re_errno r else pc_errno p), pc_world := w\<rparr>))"

definition report :: "msg_type \<Rightarrow> int \<Rightarrow> string \<Rightarrow> ('w, unit) io" where
  \<comment> \<open>\<open>uperf_log_msg\<close>, which leaves \<open>errno\<close> as the number it is given\<close>
  "report t e s = State (\<lambda>p. ((), if e = EINTR then p
     else p\<lparr>pc_errno := e, pc_log := pc_log p @ [(t, e, s)]\<rparr>))"

definition get_errno :: "('w, int) io" where
  "get_errno = State (\<lambda>p. (pc_errno p, p))"

definition set_errno :: "int \<Rightarrow> ('w, unit) io" where
  "set_errno e = State (\<lambda>p. ((), p\<lparr>pc_errno := e\<rparr>))"

definition report_errno :: "msg_type \<Rightarrow> string \<Rightarrow> ('w, unit) io" where
  \<comment> \<open>\<open>ulog_err\<close> and \<open>ulog_warn\<close>\<close>
  "report_errno t s = do { e \<leftarrow> get_errno; report t e (take (ERR_STR_LEN - 1) s) }"

abbreviation ret :: "'a \<Rightarrow> ('w, 'a) io" where "ret \<equiv> State_Monad.return"

section \<open>Addresses and sockets\<close>

definition name_to_addr :: "'w kernel \<Rightarrow> string \<Rightarrow> ('w, int \<times> sockaddr option) io" where
  "name_to_addr k address = do {
     r \<leftarrow> sysc k (Sys_getaddrinfo address);
     if re_ret r = 0 then
       (case find (\<lambda>a. sa_family a = AF_INET \<or> sa_family a = AF_INET6) (re_addrs r) of
          Some a \<Rightarrow> ret (UPERF_SUCCESS, Some a)
        | None \<Rightarrow> ret (UPERF_FAILURE, None))
     else do {
       report_errno UPERF_LOG_ERROR (''name_to_addr('' @ address @ ''): '' @ re_data r @ ''\<newline>'');
       ret (UPERF_FAILURE, None) }}"

definition generic_socket :: "'w kernel \<Rightarrow> protocol \<Rightarrow> family \<Rightarrow> int \<Rightarrow> ('w, int \<times> protocol) io" where
  "generic_socket k p domain proto = do {
     r \<leftarrow> sysc k (Sys_socket domain SOCK_STREAM proto);
     if re_ret r < 0 then do {
       report_errno UPERF_LOG_ERROR (protocol_to_str (p_type p) @ '': Cannot create socket'');
       ret (UPERF_FAILURE, p\<lparr>p_fd := re_ret r\<rparr>) }
     else ret (UPERF_SUCCESS, p\<lparr>p_fd := re_ret r\<rparr>) }"

definition where_text :: "protocol \<Rightarrow> string" where
  "where_text p = p_host p @ '':'' @ dec_int (p_port p)"

definition generic_connect :: "'w kernel \<Rightarrow> protocol \<Rightarrow> sockaddr \<Rightarrow> ('w, int) io" where
  "generic_connect k p serv = (
     let serv1 = serv\<lparr>sa_port := to_u16 (p_port p)\<rparr>;
         conn = do {
           r \<leftarrow> sysc k (Sys_connect (p_fd p) serv1);
           if re_ret r < 0 then do {
             report_errno UPERF_LOG_ERROR (protocol_to_str (p_type p) @ '': Cannot connect to '' @ where_text p);
             ret UPERF_FAILURE }
           else ret UPERF_SUCCESS }
     in if sa_family serv = AF_INET then conn
        else if sa_family serv = AF_INET6 then do {
          r \<leftarrow> sysc k (Sys_setsockopt (p_fd p) (Ipv6_v6only 0));
          if re_ret r < 0 then ret UPERF_FAILURE else conn }
        else ret UPERF_FAILURE)"

definition generic_setfd_nonblock :: "'w kernel \<Rightarrow> int \<Rightarrow> ('w, int) io" where
  "generic_setfd_nonblock k fd = do { r \<leftarrow> sysc k (Sys_nonblock fd); ret (re_ret r) }"

definition try_option :: "'w kernel \<Rightarrow> int \<Rightarrow> sockopt \<Rightarrow> string \<Rightarrow> ('w, unit) io" where
  \<comment> \<open>\<open>setsockopt\<close> with a warning when it fails\<close>
  "try_option k fd opt msg = do {
     r \<leftarrow> sysc k (Sys_setsockopt fd opt);
     if re_ret r \<noteq> 0 then report_errno UPERF_LOG_WARN msg else ret () }"

definition generic_set_socket_buffer :: "'w kernel \<Rightarrow> int \<Rightarrow> int \<Rightarrow> ('w, int) io" where
  "generic_set_socket_buffer k fd w =
     (if w = 0 then ret UPERF_SUCCESS
      else do {
        try_option k fd (So_sndbuf w) ''Cannot set SO_SNDBUF'';
        try_option k fd (So_rcvbuf w) ''Cannot set SO_RCVBUF'';
        ret UPERF_SUCCESS })"

definition frac_less :: "nat \<times> nat \<Rightarrow> nat \<times> nat \<Rightarrow> bool" where
  "frac_less x y = (fst x * snd y < fst y * snd x)"

definition buffer_differs :: "int \<Rightarrow> int \<Rightarrow> bool" where
  \<comment> \<open>\<open>diff < 0.9 || diff > 1.1\<close> for the \<open>float\<close> \<open>diff = 1.0*nwsz/wndsz\<close>\<close>
  "buffer_differs n w =
     (n * w \<le> 0 \<or>
      (let d = rnd 24 (rnd 53 (nat \<bar>n\<bar>, nat \<bar>w\<bar>))
       in frac_less d (rnd 53 (9, 10)) \<or> frac_less (rnd 53 (11, 10)) d))"

definition kb_text :: "int \<Rightarrow> string" where
  \<comment> \<open>\<open>n/1024.0\<close> printed with \<open>%.2f\<close>\<close>
  "kb_text n =
     (let q = 100 * nat \<bar>n\<bar> div 1024; r = 100 * nat \<bar>n\<bar> mod 1024;
          h = (if 2 * r < 1024 \<or> 2 * r = 1024 \<and> even q then q else q + 1)
      in (if n < 0 then ''-'' else []) @ dec_nat (h div 100) @ ''.'' @
         dec_nat (h div 10 mod 10) @ dec_nat (h mod 10))"

definition verify_buffer :: "'w kernel \<Rightarrow> int \<Rightarrow> int \<Rightarrow> int \<Rightarrow> sockbuf \<Rightarrow> string \<Rightarrow> string \<Rightarrow> ('w, int) io" where
  \<comment> \<open>one of the two halves; \<open>nwsz\<close> before and after\<close>
  "verify_buffer k fd wndsz nwsz which opt label = do {
     r \<leftarrow> sysc k (Sys_getsockopt fd which);
     (if re_ret r \<noteq> 0 then report_errno UPERF_LOG_WARN (''Cannot get '' @ opt) else ret ());
     let nwsz1 = (if re_ret r \<noteq> 0 then nwsz else re_val r);
     (if buffer_differs nwsz1 wndsz then
       report UPERF_LOG_WARN 0 (take (ERR_STR_LEN - 1)
         (label @ '': '' @ kb_text nwsz1 @ ''KB (Requested:'' @ kb_text wndsz @ ''KB)''))
      else ret ());
     ret nwsz1 }"

definition generic_verify_socket_buffer :: "'w kernel \<Rightarrow> int \<Rightarrow> int \<Rightarrow> ('w, int) io" where
  "generic_verify_socket_buffer k fd wndsz =
     (if wndsz = 0 then ret UPERF_SUCCESS
      else do {
        n1 \<leftarrow> verify_buffer k fd wndsz (- 1) Sndbuf ''SO_SNDBUF'' ''Send buffer'';
        _ \<leftarrow> verify_buffer k fd wndsz n1 Rcvbuf ''SO_RCVBUF'' ''Recv buffer'';
        ret UPERF_SUCCESS })"

section \<open>Listening\<close>

definition ANY_PORT :: int where "ANY_PORT = 0"
definition LISTENQ :: int where "LISTENQ = 10240"

definition bind_any :: "'w kernel \<Rightarrow> protocol \<Rightarrow> family \<Rightarrow> string \<Rightarrow> ('w, int \<times> protocol) io" where
  \<comment> \<open>bind to the wildcard address of the family and read the port back if any will do\<close>
  "bind_any k p fam addr = do {
     r \<leftarrow> sysc k (Sys_bind (p_fd p) \<lparr>sa_family = fam, sa_addr = addr, sa_port = to_u16 (p_port p)\<rparr>);
     if re_ret r < 0 then do {
       report_errno UPERF_LOG_ERROR
         (protocol_to_str (p_type p) @ '': Cannot bind to port '' @ dec_int (p_port p));
       ret (UPERF_FAILURE, p) }
     else if p_port p = ANY_PORT then do {
       r \<leftarrow> sysc k (Sys_getsockname (p_fd p));
       if re_ret r < 0 then do {
         report_errno UPERF_LOG_ERROR (protocol_to_str (p_type p) @ '': Cannot getsockname'');
         ret (UPERF_FAILURE, p) }
       else ret (UPERF_SUCCESS, p\<lparr>p_port := (case re_addrs r of a # _ \<Rightarrow> uint (sa_port a) | [] \<Rightarrow> 0)\<rparr>) }
     else ret (UPERF_SUCCESS, p) }"

definition generic_listen :: "'w kernel \<Rightarrow> protocol \<Rightarrow> ('w, int \<times> protocol) io" where
  "generic_listen k p = do {
     r \<leftarrow> sysc k (Sys_setsockopt (p_fd p) (So_reuseaddr 1));
     (if re_ret r < 0 then
        report_errno UPERF_LOG_ERROR (protocol_to_str (p_type p) @ '': Cannot set SO_REUSEADDR'')
      else ret ());
     r \<leftarrow> sysc k (Sys_setsockopt (p_fd p) (Ipv6_v6only 0));
     (e, p1) \<leftarrow> (if re_ret r < 0 then bind_any k p AF_INET ''0.0.0.0'' else bind_any k p AF_INET6 ''::'');
     if e = UPERF_FAILURE then ret (UPERF_FAILURE, p1)
     else do {
       _ \<leftarrow> sysc k (Sys_listen (p_fd p1) LISTENQ);
       ret (p_port p1, p1) }}"

section \<open>Transfers\<close>

definition generic_poll :: "'w kernel \<Rightarrow> int \<Rightarrow> int \<Rightarrow> pollev \<Rightarrow> ('w, int) io" where
  "generic_poll k fd timeout ev =
     (if timeout \<le> 0 then ret 0 else do { r \<leftarrow> sysc k (Sys_poll fd timeout ev); ret (re_ret r) })"

definition poll_ms :: "u64 \<Rightarrow> nat" where
  \<comment> \<open>\<open>poll_timeout/1.0e+6\<close> cut to an integer\<close>
  "poll_ms t = fl_div (dbl (unat t)) 1000000"

definition generic_read ::
  "'w kernel \<Rightarrow> protocol \<Rightarrow> buf \<Rightarrow> int \<Rightarrow> flowop_options option \<Rightarrow> ('w, c_stop + int) io" where
  \<comment> \<open>a timeout that does not fit in an \<open>int\<close> is an undefined conversion\<close>
  "generic_read k p b sz fo =
     (let timeout = (case fo of None \<Rightarrow> 0 | Some f \<Rightarrow> poll_ms (fo_poll_timeout f));
          rd = do { r \<leftarrow> sysc k (Sys_read (p_fd p) b sz); ret (Inr (re_ret r)) }
      in if 2 ^ 31 \<le> timeout then ret (Inl Undefined)
         else if 0 < timeout then do {
           r \<leftarrow> generic_poll k (p_fd p) (int timeout) POLLIN;
           if r \<le> 0 then ret (Inr (- 1)) else rd }
         else rd)"

definition generic_write :: "'w kernel \<Rightarrow> protocol \<Rightarrow> buf \<Rightarrow> int \<Rightarrow> ('w, c_stop + int) io" where
  "generic_write k p b sz = do { r \<leftarrow> sysc k (Sys_write (p_fd p) b sz); ret (Inr (re_ret r)) }"

definition generic_recv :: "'w kernel \<Rightarrow> protocol \<Rightarrow> buf \<Rightarrow> int \<Rightarrow> ('w, c_stop + int) io" where
  "generic_recv k p b sz = do { r \<leftarrow> sysc k (Sys_recv (p_fd p) b sz); ret (Inr (re_ret r)) }"

definition generic_send :: "'w kernel \<Rightarrow> protocol \<Rightarrow> buf \<Rightarrow> int \<Rightarrow> ('w, c_stop + int) io" where
  "generic_send k p b sz = do { r \<leftarrow> sysc k (Sys_send (p_fd p) b sz); ret (Inr (re_ret r)) }"

definition generic_undefined :: int where
  "generic_undefined = UPERF_FAILURE"

section \<open>Accepting and closing\<close>

definition generic_accept :: "'w kernel \<Rightarrow> protocol \<Rightarrow> protocol \<Rightarrow> ('w, int \<times> protocol) io" where
  "generic_accept k oldp newp = do {
     r \<leftarrow> generic_poll k (p_fd oldp) 10000 POLLIN;
     if r \<le> 0 then ret (- 1, newp)
     else do {
       r \<leftarrow> sysc k (Sys_accept (p_fd oldp));
       if re_ret r < 0 then do {
         report_errno UPERF_LOG_ERROR ''accept:'';
         ret (UPERF_FAILURE, newp\<lparr>p_fd := re_ret r\<rparr>) }
       else case re_addrs r of
         a # _ \<Rightarrow>
           if sa_family a = AF_INET \<or> sa_family a = AF_INET6 then
             ret (UPERF_SUCCESS, newp\<lparr>p_fd := re_ret r, p_port := uint (sa_port a),
                                      p_host := strlcpy MAXHOSTNAME (sa_addr a)\<rparr>)
           else ret (UPERF_FAILURE, newp\<lparr>p_fd := re_ret r\<rparr>)
       | [] \<Rightarrow> ret (UPERF_FAILURE, newp\<lparr>p_fd := re_ret r\<rparr>) }}"

definition generic_disconnect :: "'w kernel \<Rightarrow> protocol \<Rightarrow> ('w, int \<times> protocol) io" where
  "generic_disconnect k p =
     (if 0 \<le> p_fd p then do {
        _ \<leftarrow> sysc k (Sys_close (p_fd p));
        ret (UPERF_SUCCESS, p\<lparr>p_fd := - 1\<rparr>) }
      else ret (UPERF_SUCCESS, p))"

definition generic_fini :: "'w kernel \<Rightarrow> protocol \<Rightarrow> ('w, unit) io" where
  \<comment> \<open>the object is gone afterwards\<close>
  "generic_fini k p = (if 0 < p_fd p then do { _ \<leftarrow> sysc k (Sys_close (p_fd p)); ret () } else ret ())"

section \<open>TCP options\<close>

record tcp_config =
  tc_congestion :: bool
  tc_function_blk :: bool
  tc_log :: bool
  tc_encaps :: bool

definition TCP_FUNCTION_NAME_LEN_MAX :: nat where "TCP_FUNCTION_NAME_LEN_MAX = 32"

definition wndsz_of :: "flowop_options option \<Rightarrow> int" where
  "wndsz_of fo = (case fo of None \<Rightarrow> 0 | Some f \<Rightarrow> wrap32 (uint (fo_wndsz f)))"

definition set_tcp_options :: "'w kernel \<Rightarrow> tcp_config \<Rightarrow> int \<Rightarrow> flowop_options option \<Rightarrow> ('w, unit) io" where
  "set_tcp_options k tc fd fo = do {
     _ \<leftarrow> generic_set_socket_buffer k fd (wndsz_of fo);
     _ \<leftarrow> generic_verify_socket_buffer k fd (wndsz_of fo);
     (case fo of
        None \<Rightarrow> ret ()
      | Some f \<Rightarrow> do {
          (if fo_is O_TCP_NODELAY f then try_option k fd (Tcp_nodelay 1) ''Cannot set TCP_NODELAY:'' else ret ());
          (if 0 < length (fo_cc f) \<and> tc_congestion tc
           then try_option k fd (Tcp_congestion (fo_cc f)) ''Cannot set TCP_CONGESTION:'' else ret ());
          (if 0 < length (fo_stack f) \<and> tc_function_blk tc
           then try_option k fd (Tcp_function_blk (strlcpy TCP_FUNCTION_NAME_LEN_MAX (fo_stack f)))
                  ''Cannot set TCP_FUNCTION_BLK:'' else ret ());
          if 0 < fo_bblog f \<and> tc_log tc
          then try_option k fd (Tcp_log (fo_bblog f)) ''Cannot set TCP_LOG:'' else ret () }) }"

section \<open>TCP\<close>

definition IPPROTO_TCP :: int where "IPPROTO_TCP = 6"

definition protocol_tcp_listen ::
  "'w kernel \<Rightarrow> tcp_config \<Rightarrow> protocol \<Rightarrow> flowop_options option \<Rightarrow> ('w, int \<times> protocol) io" where
  "protocol_tcp_listen k tc p fo = do {
     (e, p1) \<leftarrow> generic_socket k p AF_INET6 IPPROTO_TCP;
     (e, p2) \<leftarrow> (if e \<noteq> UPERF_SUCCESS then generic_socket k p1 AF_INET IPPROTO_TCP else ret (e, p1));
     if e \<noteq> UPERF_SUCCESS then do {
       n \<leftarrow> get_errno;
       report UPERF_LOG_ERROR n ''tcp: Cannot create socket'';
       ret (UPERF_FAILURE, p2) }
     else do {
       set_tcp_options k tc (p_fd p2) fo;
       generic_listen k p2 }}"

definition encaps_text :: "u32 \<Rightarrow> string" where
  "encaps_text n = ''tcp: Enabling UDP encapsulation to port '' @ dec_int (sint n)"

definition tcp_encaps ::
  "'w kernel \<Rightarrow> tcp_config \<Rightarrow> int \<Rightarrow> flowop_options option \<Rightarrow> ('w, int) io" where
  "tcp_encaps k tc fd fo =
     (case fo of
        None \<Rightarrow> ret UPERF_SUCCESS
      | Some f \<Rightarrow>
          if fo_encaps_port f = 0 then ret UPERF_SUCCESS
          else if tc_encaps tc then do {
            r \<leftarrow> sysc k (Sys_setsockopt fd (Tcp_remote_udp_encaps_port (fo_encaps_port f)));
            if re_ret r < 0 then do {
              n \<leftarrow> get_errno;
              report UPERF_LOG_ERROR n (take 127 (encaps_text (fo_encaps_port f) @ '' failed''));
              ret UPERF_FAILURE }
            else ret UPERF_SUCCESS }
          else do {
            n \<leftarrow> get_errno;
            report UPERF_LOG_ERROR n (take 127 (encaps_text (fo_encaps_port f) @ '' not supported''));
            ret UPERF_FAILURE })"

definition protocol_tcp_connect ::
  "'w kernel \<Rightarrow> tcp_config \<Rightarrow> protocol \<Rightarrow> flowop_options option \<Rightarrow> ('w, int \<times> protocol) io" where
  "protocol_tcp_connect k tc p fo = do {
     (e, a) \<leftarrow> name_to_addr k (p_host p);
     (case a of
        None \<Rightarrow> ret (UPERF_FAILURE, p)
      | Some serv \<Rightarrow> do {
          (e, p1) \<leftarrow> generic_socket k p (sa_family serv) IPPROTO_TCP;
          if e < 0 then ret (UPERF_FAILURE, p1)
          else do {
            set_tcp_options k tc (p_fd p1) fo;
            e \<leftarrow> tcp_encaps k tc (p_fd p1) fo;
            if e \<noteq> UPERF_SUCCESS then ret (UPERF_FAILURE, p1)
            else do {
              e \<leftarrow> generic_connect k p1 serv;
              ret (if e < 0 then UPERF_FAILURE else UPERF_SUCCESS, p1) }}}) }"

definition protocol_tcp_new :: protocol where
  "protocol_tcp_new =
     \<lparr>p_type = PROTOCOL_TCP, p_port = - 1, p_conn = 0, p_fd = - 1, p_host = ''Init'', p_sendrecv = True\<rparr>"

definition protocol_tcp_accept ::
  "'w kernel \<Rightarrow> tcp_config \<Rightarrow> protocol \<Rightarrow> flowop_options option \<Rightarrow> ('w, protocol option) io" where
  "protocol_tcp_accept k tc p fo = do {
     (e, newp) \<leftarrow> generic_accept k p protocol_tcp_new;
     if e \<noteq> 0 then ret None
     else do {
       (if fo \<noteq> None then set_tcp_options k tc (p_fd newp) fo else ret ());
       ret (Some newp) }}"


section \<open>What a program does to the world\<close>

definition preserves :: "('w \<Rightarrow> 'w \<Rightarrow> bool) \<Rightarrow> ('w, 'a) io \<Rightarrow> bool" where
  "preserves R m = state_io_rel (\<lambda>p p'. R (pc_world p) (pc_world p')) m"

lemma preservesD: "preserves R m \<Longrightarrow> run_state m s = (x, s') \<Longrightarrow> R (pc_world s) (pc_world s')"
  unfolding preserves_def by (drule state_io_relD) auto

lemma preservesI: "(\<And>s x s'. run_state m s = (x, s') \<Longrightarrow> R (pc_world s) (pc_world s')) \<Longrightarrow> preserves R m"
  by (auto simp: preserves_def intro!: state_io_relI)

lemma preserves_sysc: "(\<And>w. R w (snd (k c w))) \<Longrightarrow> preserves R (sysc k c)"
  by (rule preservesI) (auto simp: sysc_def split: prod.splits dest: meta_spec, metis snd_conv)

text \<open>A relation that relates the world before and after one call relates them over a program.\<close>

locale world_rel =
  fixes R :: "'w \<Rightarrow> 'w \<Rightarrow> bool"
  assumes same: "R w w"
    and chain: "R u v \<Longrightarrow> R v w \<Longrightarrow> R u w"
begin

lemma on_ret: "preserves R (ret x)"
  by (rule preservesI) (auto simp: same)

lemma on_bind: "preserves R m \<Longrightarrow> (\<And>x. preserves R (f x)) \<Longrightarrow> preserves R (do { x \<leftarrow> m; f x })"
  by (rule preservesI) (auto split: prod.splits dest!: preservesD intro: chain)

lemma on_if: "(b \<Longrightarrow> preserves R m) \<Longrightarrow> (\<not> b \<Longrightarrow> preserves R n) \<Longrightarrow> preserves R (if b then m else n)"
  by simp

lemma on_report: "preserves R (report t e x)"
  by (rule preservesI) (auto simp: report_def same split: if_splits)

lemma on_get_errno: "preserves R get_errno"
  by (rule preservesI) (auto simp: get_errno_def same)

lemma on_set_errno: "preserves R (set_errno e)"
  by (rule preservesI) (auto simp: set_errno_def same)

lemma on_report_errno: "preserves R (report_errno t x)"
  unfolding report_errno_def by (intro on_bind on_get_errno on_report)

end

text \<open>A kernel that keeps the calls it was given, and what a program may call.\<close>

definition traced :: "'w kernel \<Rightarrow> ('w \<times> syscall list) kernel" where
  "traced k c w = (case k c (fst w) of (r, w') \<Rightarrow> (r, (w', snd w @ [c])))"

definition grows :: "(syscall \<Rightarrow> bool) \<Rightarrow> 'w \<times> syscall list \<Rightarrow> 'w \<times> syscall list \<Rightarrow> bool" where
  "grows P w w' = (\<exists>cs. snd w' = snd w @ cs \<and> list_all P cs)"

abbreviation calls :: "(syscall \<Rightarrow> bool) \<Rightarrow> ('w \<times> syscall list, 'a) io \<Rightarrow> bool" where
  "calls P \<equiv> preserves (grows P)"

interpretation calls: world_rel "grows P" for P :: "syscall \<Rightarrow> bool"
proof unfold_locales
  fix u v w :: "'w \<times> syscall list"
  assume "grows P u v" and "grows P v w"
  then obtain a b where "snd v = snd u @ a \<and> list_all P a" "snd w = snd v @ b \<and> list_all P b"
    by (auto simp: grows_def)
  then show "grows P u w" by (auto simp: grows_def intro!: exI [of _ "a @ b"])
qed (simp add: grows_def)

lemmas calls_intro = calls.on_ret calls.on_bind calls.on_if calls.on_report calls.on_get_errno
  calls.on_set_errno calls.on_report_errno

lemma calls_sysc: "P c \<Longrightarrow> calls P (sysc (traced k) c)"
  by (rule preserves_sysc) (auto simp: traced_def grows_def split: prod.splits)

section \<open>Descriptors\<close>

text \<open>
  What the kernel does with descriptors, as documented: \<open>socket\<close> and \<open>accept\<close> return one that
  was not open, \<open>close\<close> closes the one it is given, no other call changes which are open.
  \<open>op\<close> reads the open descriptors off the world.
\<close>

definition kernel_fds :: "('w \<Rightarrow> int set) \<Rightarrow> 'w kernel \<Rightarrow> bool" where
  "kernel_fds op k =
     (\<forall>c w. let (r, w') = k c w in
        (case c of
           Sys_socket _ _ _ \<Rightarrow> if re_ret r < 0 then op w' = op w else re_ret r \<notin> op w \<and> op w' = insert (re_ret r) (op w)
         | Sys_accept _ \<Rightarrow> if re_ret r < 0 then op w' = op w else re_ret r \<notin> op w \<and> op w' = insert (re_ret r) (op w)
         | Sys_close fd \<Rightarrow> op w' = op w - {fd}
         | _ \<Rightarrow> op w' = op w))"

abbreviation keeps :: "('w \<Rightarrow> int set) \<Rightarrow> ('w, 'a) io \<Rightarrow> bool" where
  \<comment> \<open>the program leaves the open descriptors as they are\<close>
  "keeps op \<equiv> preserves (\<lambda>w w'. op w' = op w)"

interpretation fds: world_rel "\<lambda>w w'. op w' = op w" for op :: "'w \<Rightarrow> int set"
  by unfold_locales auto

text \<open>What is known to leave them, for proofs by \<open>auto intro!: kept\<close>.\<close>

named_theorems kept

lemmas keeps_intro [kept] = fds.on_ret fds.on_bind fds.on_if fds.on_report fds.on_get_errno fds.on_report_errno

lemma keepsD: "keeps op m \<Longrightarrow> run_state m s = (x, s') \<Longrightarrow> op (pc_world s') = op (pc_world s)"
  by (rule preservesD)

fun opens_or_closes :: "syscall \<Rightarrow> bool" where
  "opens_or_closes (Sys_socket _ _ _) = True"
| "opens_or_closes (Sys_accept _) = True"
| "opens_or_closes (Sys_close _) = True"
| "opens_or_closes _ = False"

lemma keeps_sysc [kept]: "kernel_fds op k \<Longrightarrow> \<not> opens_or_closes c \<Longrightarrow> keeps op (sysc k c)"
  by (rule preservesI, cases c)
    (auto simp: sysc_def kernel_fds_def Let_def split: prod.splits dest!: spec [where x = c])

lemma keeps_try_option [kept]: "kernel_fds op k \<Longrightarrow> keeps op (try_option k fd opt msg)"
  unfolding try_option_def by (intro kept) simp_all

lemma keeps_verify [kept]: "kernel_fds op k \<Longrightarrow> keeps op (verify_buffer k fd w n b o1 l)"
  unfolding verify_buffer_def Let_def by (intro kept) simp_all

lemma keeps_set_tcp_options [kept]: "kernel_fds op k \<Longrightarrow> keeps op (set_tcp_options k tc fd fo)"
  unfolding set_tcp_options_def generic_set_socket_buffer_def generic_verify_socket_buffer_def
  by (cases fo) (auto intro!: kept)

lemma keeps_tcp_encaps [kept]: "kernel_fds op k \<Longrightarrow> keeps op (tcp_encaps k tc fd fo)"
  unfolding tcp_encaps_def by (cases fo) (auto intro!: kept)

lemma keeps_name_to_addr [kept]: "kernel_fds op k \<Longrightarrow> keeps op (name_to_addr k a)"
  unfolding name_to_addr_def by (auto intro!: kept split: option.split)

lemma keeps_generic_connect [kept]: "kernel_fds op k \<Longrightarrow> keeps op (generic_connect k p a)"
  unfolding generic_connect_def Let_def by (auto intro!: kept)

lemma keeps_bind_any [kept]: "kernel_fds op k \<Longrightarrow> keeps op (bind_any k p f a)"
  unfolding bind_any_def by (auto intro!: kept)

lemma keeps_generic_listen [kept]: "kernel_fds op k \<Longrightarrow> keeps op (generic_listen k p)"
  unfolding generic_listen_def
  by (auto intro!: kept split: prod.split)

lemma keeps_generic_poll [kept]: "kernel_fds op k \<Longrightarrow> keeps op (generic_poll k fd t e)"
  unfolding generic_poll_def by (auto intro!: kept)

definition owns :: "('w \<Rightarrow> int set) \<Rightarrow> protocol \<Rightarrow> 'w proc \<Rightarrow> 'w proc \<Rightarrow> bool" where
  \<comment> \<open>the descriptor of the connection, if it has one, is all that was opened\<close>
  "owns op p s s' =
     ((0 \<le> p_fd p \<longrightarrow> p_fd p \<notin> op (pc_world s)) \<and>
      op (pc_world s') = op (pc_world s) \<union> (if 0 \<le> p_fd p then {p_fd p} else {}))"

lemma owns_keeps: "owns op p s s1 \<Longrightarrow> keeps op m \<Longrightarrow> run_state m s1 = (x, s2) \<Longrightarrow> owns op p s s2"
  by (auto simp: owns_def dest: keepsD)

lemma socket_owns:
  assumes "kernel_fds op k" and "run_state (generic_socket k p d n) s = ((e, p'), s')"
  shows "owns op p' s s' \<and> p' = p\<lparr>p_fd := p_fd p'\<rparr> \<and> (e = UPERF_SUCCESS \<and> 0 \<le> p_fd p' \<or> e = UPERF_FAILURE \<and> p_fd p' < 0)"
proof -
  obtain r w where r: "k (Sys_socket d SOCK_STREAM n) (pc_world s) = (r, w)" by fastforce
  have w: "if re_ret r < 0 then op w = op (pc_world s)
      else re_ret r \<notin> op (pc_world s) \<and> op w = insert (re_ret r) (op (pc_world s))"
    using assms(1) r unfolding kernel_fds_def Let_def
    by (auto dest!: spec [where x = "Sys_socket d SOCK_STREAM n"] spec [where x = "pc_world s"])
  show ?thesis
  proof (cases "re_ret r < 0")
    case True
    with assms(2) r w show ?thesis
      by (auto simp: generic_socket_def sysc_def owns_def split: prod.splits
          dest!: keepsD [OF fds.on_report_errno, where op = op])
  next
    case False
    with assms(2) r w show ?thesis
      by (auto simp: generic_socket_def sysc_def owns_def)
  qed
qed

lemma tcp_connect_owns:
  assumes k: "kernel_fds op k" and "p_fd p < 0"
    and run: "run_state (protocol_tcp_connect k tc p fo) s = ((e, p'), s')"
  shows "owns op p' s s' \<and> p' = p\<lparr>p_fd := p_fd p'\<rparr> \<and>
    (e = UPERF_SUCCESS \<and> 0 \<le> p_fd p' \<or> e = UPERF_FAILURE)"
proof -
  obtain e1 a s1 where a: "run_state (name_to_addr k (p_host p)) s = ((e1, a), s1)" by (metis surj_pair)
  have o1: "op (pc_world s1) = op (pc_world s)" by (rule keepsD [OF keeps_name_to_addr [OF k] a])
  show ?thesis
  proof (cases a)
    case None
    with run a o1 assms(2) show ?thesis by (auto simp: protocol_tcp_connect_def owns_def)
  next
    case (Some serv)
    obtain e2 p1 s2 where s2: "run_state (generic_socket k p (sa_family serv) IPPROTO_TCP) s1 = ((e2, p1), s2)"
      by (metis surj_pair)
    note so = socket_owns [OF k s2]
    have ow: "owns op p1 s s2" using so o1 by (simp add: owns_def)
    show ?thesis
    proof (cases "e2 < 0")
      case True
      with run a Some s2 so ow show ?thesis by (auto simp: protocol_tcp_connect_def)
    next
      case False
      then have fd: "0 \<le> p_fd p1" using so by auto
      obtain u s3 where s3: "run_state (set_tcp_options k tc (p_fd p1) fo) s2 = (u, s3)" by (metis surj_pair)
      obtain e4 s4 where s4: "run_state (tcp_encaps k tc (p_fd p1) fo) s3 = (e4, s4)" by (metis surj_pair)
      obtain e5 s5 where s5: "run_state (generic_connect k p1 serv) s4 = (e5, s5)" by (metis surj_pair)
      note o4 = owns_keeps [OF owns_keeps [OF ow keeps_set_tcp_options [OF k] s3] keeps_tcp_encaps [OF k] s4]
      note o5 = owns_keeps [OF o4 keeps_generic_connect [OF k] s5]
      from run a Some s2 s3 s4 s5 False o4 o5 so fd show ?thesis
        by (auto simp: protocol_tcp_connect_def split: if_splits)
    qed
  qed
qed

lemma fini_closes:
  assumes "kernel_fds op k" and "owns op p s s1" and "0 \<in> op (pc_world s)"
    and "run_state (generic_fini k p) s1 = (u, s2)"
  shows "op (pc_world s2) = op (pc_world s)"
proof (cases "0 < p_fd p")
  case True
  obtain r w where r: "k (Sys_close (p_fd p)) (pc_world s1) = (r, w)" by fastforce
  have "op w = op (pc_world s1) - {p_fd p}"
    using assms(1) r unfolding kernel_fds_def Let_def
    by (auto dest!: spec [where x = "Sys_close (p_fd p)"] spec [where x = "pc_world s1"])
  with assms True r show ?thesis by (auto simp: generic_fini_def sysc_def owns_def)
next
  case False
  with assms show ?thesis by (cases "p_fd p = 0") (auto simp: generic_fini_def owns_def)
qed

text \<open>
  What the callers rely on when they open a connection and throw it away: \<open>connect\<close> on a fresh
  object opens at most the descriptor it leaves in the object, and fails if it has none.
\<close>

locale stream_connect =
  fixes connect :: "'w kernel \<Rightarrow> protocol \<Rightarrow> flowop_options option \<Rightarrow> ('w, int \<times> protocol) io"
  assumes owned: "kernel_fds op k \<Longrightarrow> p_fd p < 0 \<Longrightarrow> run_state (connect k p fo) s = ((e, p'), s') \<Longrightarrow>
    owns op p' s s' \<and> (e = UPERF_SUCCESS \<and> 0 \<le> p_fd p' \<or> e = UPERF_FAILURE)"
begin

lemma leaks_nothing:
  assumes "kernel_fds op k" and "0 \<in> op (pc_world s)" and "p_fd p0 < 0"
    and "run_state (connect k p0 fo) s = ((e, p), s1)"
    and "run_state (generic_fini k p) s1 = (u, s2)"
  shows "(e = UPERF_SUCCESS \<longrightarrow> 0 \<le> p_fd p \<and> p_fd p \<notin> op (pc_world s) \<and> p_fd p \<in> op (pc_world s1)) \<and>
    (e \<noteq> UPERF_SUCCESS \<longrightarrow> e = UPERF_FAILURE) \<and>
    op (pc_world s1) \<subseteq> insert (p_fd p) (op (pc_world s)) \<and>
    op (pc_world s2) = op (pc_world s)"
  using owned [OF assms(1,3,4)] fini_closes [OF assms(1) _ assms(2,5)] by (auto simp: owns_def)

end

interpretation tcp: stream_connect "\<lambda>k. protocol_tcp_connect k tc" for tc
  by unfold_locales (drule tcp_connect_owns, auto)

text \<open>
  C14. A TCP connection attempt, successful or not, on any answers of the kernel, opens at most
  the one descriptor its object holds, reports failure whenever it holds none, and once the
  object is destroyed the process has open what it had before.
\<close>

theorem tcp_connect_leaks_nothing:
  assumes "kernel_fds op k" and "0 \<in> op (pc_world s)"
    and "run_state (protocol_tcp_connect k tc (protocol_tcp_create host port) fo) s = ((e, p), s1)"
    and "run_state (generic_fini k p) s1 = (u, s2)"
  shows "(e = UPERF_SUCCESS \<longrightarrow> 0 \<le> p_fd p \<and> p_fd p \<notin> op (pc_world s) \<and> p_fd p \<in> op (pc_world s1)) \<and>
    (e \<noteq> UPERF_SUCCESS \<longrightarrow> e = UPERF_FAILURE) \<and>
    op (pc_world s1) \<subseteq> insert (p_fd p) (op (pc_world s)) \<and>
    op (pc_world s2) = op (pc_world s)"
  by (rule tcp.leaks_nothing [OF assms(1,2) _ assms(3,4)]) (simp add: protocol_tcp_create_def)


lemma bind_any_port:
  "run_state (bind_any k p f a) s = ((e, p'), s') \<Longrightarrow>
    (e = UPERF_FAILURE \<or> e = UPERF_SUCCESS) \<and> p' = p\<lparr>p_port := p_port p'\<rparr> \<and>
    (p_port p \<noteq> ANY_PORT \<longrightarrow> p_port p' = p_port p) \<and>
    (e = UPERF_SUCCESS \<and> p_port p = ANY_PORT \<longrightarrow> 0 \<le> p_port p' \<and> p_port p' < 2 ^ 16)"
  using uint_lt2p [where 'a = 16]
  by (auto simp: bind_any_def split: prod.splits if_splits list.splits)

lemma generic_listen_port:
  assumes "run_state (generic_listen k p) s = ((e, p'), s')" and "p_port p \<noteq> - 1"
  shows "p' = p\<lparr>p_port := p_port p'\<rparr> \<and>
    (e = UPERF_FAILURE \<or> e = p_port p' \<and> (if p_port p = ANY_PORT then 0 \<le> e \<and> e < 2 ^ 16 else e = p_port p))"
proof -
  obtain r1 s1 where 1: "run_state (sysc k (Sys_setsockopt (p_fd p) (So_reuseaddr 1))) s = (r1, s1)" by (metis surj_pair)
  obtain u s2 where 2: "run_state (if re_ret r1 < 0 then
        report_errno UPERF_LOG_ERROR (protocol_to_str (p_type p) @ '': Cannot set SO_REUSEADDR'')
      else ret ()) s1 = (u, s2)" by (metis surj_pair)
  obtain r3 s3 where 3: "run_state (sysc k (Sys_setsockopt (p_fd p) (Ipv6_v6only 0))) s2 = (r3, s3)" by (metis surj_pair)
  obtain e4 p4 s4 where 4: "run_state (if re_ret r3 < 0 then bind_any k p AF_INET ''0.0.0.0''
      else bind_any k p AF_INET6 ''::'') s3 = ((e4, p4), s4)" by (metis surj_pair)
  then have b: "(e4 = UPERF_FAILURE \<or> e4 = UPERF_SUCCESS) \<and> p4 = p\<lparr>p_port := p_port p4\<rparr> \<and>
    (p_port p \<noteq> ANY_PORT \<longrightarrow> p_port p4 = p_port p) \<and>
    (e4 = UPERF_SUCCESS \<and> p_port p = ANY_PORT \<longrightarrow> 0 \<le> p_port p4 \<and> p_port p4 < 2 ^ 16)"
    by (cases "re_ret r3 < 0") (auto dest!: bind_any_port)
  from assms(1) 1 2 3 4 b show ?thesis
    by (auto simp: generic_listen_def split: prod.splits if_splits)
qed

text \<open>
  Listening on TCP: whatever the kernel answers, either it fails, or it returns the port the
  object then has, which is the one asked for, or one of the 65536 if any would do; and in
  every case the socket the object holds is all that was opened, however many were tried.
\<close>

lemma tcp_listen_port:
  assumes "kernel_fds op k" and "p_fd p < 0" and "p_port p \<noteq> - 1"
    and "run_state (protocol_tcp_listen k tc p fo) s = ((e, p'), s')"
  shows "owns op p' s s' \<and> p_host p' = p_host p \<and>
    (e = UPERF_FAILURE \<or>
     0 \<le> p_fd p' \<and> e = p_port p' \<and> (if p_port p = ANY_PORT then 0 \<le> e \<and> e < 2 ^ 16 else e = p_port p))"
proof -
  obtain e1 p1 s1 where 1: "run_state (generic_socket k p AF_INET6 IPPROTO_TCP) s = ((e1, p1), s1)" by (metis surj_pair)
  note so1 = socket_owns [OF assms(1) 1]
  obtain e2 p2 s2 where 2: "run_state (if e1 \<noteq> UPERF_SUCCESS then generic_socket k p1 AF_INET IPPROTO_TCP
      else ret (e1, p1)) s1 = ((e2, p2), s2)" by (metis surj_pair)
  have so2: "owns op p2 s s2 \<and> p2 = p\<lparr>p_fd := p_fd p2\<rparr> \<and>
      (e2 = UPERF_SUCCESS \<and> 0 \<le> p_fd p2 \<or> e2 = UPERF_FAILURE \<and> p_fd p2 < 0)"
  proof (cases "e1 = UPERF_SUCCESS")
    case True
    with 2 so1 show ?thesis by auto
  next
    case False
    with so1 have same: "op (pc_world s1) = op (pc_world s)" by (auto simp: owns_def)
    from False 2 have "run_state (generic_socket k p1 AF_INET IPPROTO_TCP) s1 = ((e2, p2), s2)" by simp
    note so = socket_owns [OF assms(1) this]
    obtain f where f: "p1 = p\<lparr>p_fd := f\<rparr>" using so1 by blast
    have "p2 = p1\<lparr>p_fd := p_fd p2\<rparr>" using so by blast
    then have "p2 = p\<lparr>p_fd := p_fd p2\<rparr>" by (simp add: f)
    moreover have "owns op p2 s s2" using so same by (simp add: owns_def)
    ultimately show ?thesis using so by blast
  qed
  show ?thesis
  proof (cases "e2 = UPERF_SUCCESS")
    case False
    have "run_state (do { n \<leftarrow> get_errno; report UPERF_LOG_ERROR n ''tcp: Cannot create socket'';
        ret (UPERF_FAILURE, p2) }) s2 = ((e, p'), s')"
      using assms(4) 1 2 False by (simp add: protocol_tcp_listen_def)
    then have "p' = p2" "e = UPERF_FAILURE" "op (pc_world s') = op (pc_world s2)"
      by (auto simp: get_errno_def report_def split: if_splits)
    moreover obtain f where "p2 = p\<lparr>p_fd := f\<rparr>" using so2 by blast
    ultimately show ?thesis using so2 by (auto simp: owns_def)
  next
    case True
    obtain u s3 where 3: "run_state (set_tcp_options k tc (p_fd p2) fo) s2 = (u, s3)" by (metis surj_pair)
    have 4: "run_state (generic_listen k p2) s3 = ((e, p'), s')"
      using assms(4) 1 2 3 True by (simp add: protocol_tcp_listen_def)
    obtain f where "p2 = p\<lparr>p_fd := f\<rparr>" using so2 by blast
    then have p2: "p_port p2 = p_port p" "p_host p2 = p_host p" by simp_all
    note l = generic_listen_port [OF 4]
    obtain n where "p' = p2\<lparr>p_port := n\<rparr>" using l p2 assms(3) by auto
    then have fd: "p_fd p' = p_fd p2" "p_host p' = p_host p2" by simp_all
    have "owns op p2 s s'"
      using so2 owns_keeps [OF owns_keeps [OF _ keeps_set_tcp_options [OF assms(1)] 3] keeps_generic_listen [OF assms(1)] 4] by blast
    then show ?thesis using so2 True l p2 fd assms(3) by (auto simp: owns_def)
  qed
qed


section \<open>A kernel to evaluate\<close>

text \<open>
  A small concrete kernel: its world is the list of open descriptors, every name is known,
  every call succeeds, and a transfer moves all it is asked to.
\<close>

definition next_fd :: "int list \<Rightarrow> int" where
  "next_fd w = foldr max w 0 + 1"

definition lab_addr :: sockaddr where
  "lab_addr = \<lparr>sa_family = AF_INET, sa_addr = ''10.0.0.1'', sa_port = 5000\<rparr>"

definition lab_kernel :: "int list kernel" where
  "lab_kernel c w =
     (let ok = \<lparr>re_ret = 0, re_errno = 0, re_addrs = [lab_addr], re_val = 0, re_data = [], re_vm = (0, 0), re_lens = []\<rparr>
      in case c of
           Sys_socket _ _ _ \<Rightarrow> (ok\<lparr>re_ret := next_fd w\<rparr>, next_fd w # w)
         | Sys_accept _ \<Rightarrow> (ok\<lparr>re_ret := next_fd w\<rparr>, next_fd w # w)
         | Sys_close fd \<Rightarrow> (ok, filter (\<lambda>x. x \<noteq> fd) w)
         | Sys_poll _ _ _ \<Rightarrow> (ok\<lparr>re_ret := 1\<rparr>, w)
         | Sys_read _ _ n \<Rightarrow> (ok\<lparr>re_ret := n\<rparr>, w)
         | Sys_write _ _ n \<Rightarrow> (ok\<lparr>re_ret := n\<rparr>, w)
         | Sys_recv _ _ n \<Rightarrow> (ok\<lparr>re_ret := n\<rparr>, w)
         | Sys_send _ _ n \<Rightarrow> (ok\<lparr>re_ret := n\<rparr>, w)
         | Sys_recvmsg _ _ n \<Rightarrow> (ok\<lparr>re_ret := n\<rparr>, w)
         | Sys_sendmsg _ _ n _ \<Rightarrow> (ok\<lparr>re_ret := n\<rparr>, w)
         | _ \<Rightarrow> (ok, w))"

lemma le_next_fd: "x \<in> set w \<Longrightarrow> x < next_fd w"
  unfolding next_fd_def by (induction w) (auto simp: max_def)

lemma next_fd_pos: "0 < next_fd w"
  unfolding next_fd_def by (induction w) auto

lemma lab_kernel_fds: "kernel_fds set lab_kernel"
proof -
  have "next_fd w \<notin> set w" for w using le_next_fd [of "next_fd w" w] by auto
  then show ?thesis
    using next_fd_pos
    by (auto simp: kernel_fds_def lab_kernel_def Let_def not_less less_imp_le split: syscall.split)
      (metis less_asym next_fd_pos)+
qed

definition lab_proc :: "int list proc" where
  "lab_proc = \<lparr>pc_errno = 0, pc_log = [], pc_world = [0, 1, 2]\<rparr>"

definition no_tcp_options :: tcp_config where
  "no_tcp_options = \<lparr>tc_congestion = False, tc_function_blk = False, tc_log = False, tc_encaps = False\<rparr>"

lemma tcp_connect_leaks_nothing_witness:
  "\<exists>p s1 s2. run_state (protocol_tcp_connect lab_kernel no_tcp_options (protocol_tcp_create ''h'' 20000) None) lab_proc
       = ((UPERF_SUCCESS, p), s1) \<and> p_fd p = 3 \<and>
     run_state (generic_fini lab_kernel p) s1 = ((), s2) \<and> set (pc_world s2) = {0, 1, 2}"
proof -
  let ?c = "protocol_tcp_connect lab_kernel no_tcp_options (protocol_tcp_create ''h'' 20000) None"
  obtain e p s1 where c: "run_state ?c lab_proc = ((e, p), s1)" by (metis surj_pair)
  have v: "fst (run_state ?c lab_proc) = (0, (protocol_tcp_create ''h'' 20000)\<lparr>p_fd := 3\<rparr>)"
    by code_simp
  obtain s2 where f: "run_state (generic_fini lab_kernel p) s1 = ((), s2)" by (metis surj_pair old.unit.exhaust)
  have "0 \<in> set (pc_world lab_proc)" by (simp add: lab_proc_def)
  from tcp_connect_leaks_nothing [OF lab_kernel_fds this c f] v c f show ?thesis
    by (auto simp: lab_proc_def)
qed

lemma tcp_listen_port_witness:
  "\<exists>p s1. run_state (protocol_tcp_listen lab_kernel no_tcp_options (protocol_tcp_create [] 0) None) lab_proc
       = ((5000, p), s1) \<and> set (pc_world s1) = {0, 1, 2, 3}"
proof -
  let ?c = "protocol_tcp_listen lab_kernel no_tcp_options (protocol_tcp_create [] 0) None"
  obtain e p s1 where c: "run_state ?c lab_proc = ((e, p), s1)" by (metis surj_pair)
  have v: "fst (run_state ?c lab_proc) = (5000, (protocol_tcp_create [] 5000)\<lparr>p_fd := 3\<rparr>)"
    by code_simp
  have "p_fd (protocol_tcp_create [] 0) < 0" "p_port (protocol_tcp_create [] 0) \<noteq> - 1"
    by (simp_all add: protocol_tcp_create_def)
  from tcp_listen_port [OF lab_kernel_fds this c] v c show ?thesis
    by (auto simp: lab_proc_def owns_def)
qed

end
