(* ===== verification/Udp.thy ===== *)
theory Udp
  imports Sockets
begin

text \<open>
  UDP (\<open>src/udp.c\<close>): datagrams over one socket, kept with the peer's address and a count of
  connections in the private data of the protocol object. A connection is a handshake: the
  text \<open>UDP_HANDSHAKE\<close>, sent by \<open>connect\<close> and awaited by \<open>accept\<close>.
\<close>

record udp_private =
  pd_sock :: int
  pd_rhost :: string
  pd_port :: int
  pd_refcount :: int
  pd_addr :: sockaddr

definition UDP_HANDSHAKE :: string where "UDP_HANDSHAKE = ''uperf udp handshake''"
definition EWOULDBLOCK :: int where "EWOULDBLOCK = 11"

definition zero_addr :: sockaddr where
  "zero_addr = \<lparr>sa_family = AF_UNSPEC, sa_addr = [], sa_port = 0\<rparr>"

definition udp_create_private :: "string \<Rightarrow> int \<Rightarrow> udp_private" where
  "udp_create_private host port =
     \<lparr>pd_sock = 0, pd_rhost = host, pd_port = port, pd_refcount = 0, pd_addr = zero_addr\<rparr>"

definition set_udp_options :: "'w kernel \<Rightarrow> int \<Rightarrow> flowop_options option \<Rightarrow> ('w, flowop_options option) io" where
  \<comment> \<open>the options afterwards\<close>
  "set_udp_options k fd fo =
     (case fo of
        None \<Rightarrow> ret None
      | Some f \<Rightarrow> do {
          (if 0 < fo_wndsz f then do {
             _ \<leftarrow> generic_set_socket_buffer k fd (wndsz_of fo);
             _ \<leftarrow> generic_verify_socket_buffer k fd (wndsz_of fo);
             ret () }
           else ret ());
          if fo_is O_NONBLOCKING f then do {
            r \<leftarrow> generic_setfd_nonblock k fd;
            if r \<noteq> 0 then do {
              report_errno UPERF_LOG_WARN ''non-blocking failed, falling back'';
              ret (Some (f\<lparr>fo_flag := fo_flag f AND NOT O_NONBLOCKING\<rparr>)) }
            else ret fo }
          else ret fo })"

section \<open>Datagrams\<close>

definition read_one :: "'w kernel \<Rightarrow> int \<Rightarrow> buf \<Rightarrow> int \<Rightarrow> sockaddr \<Rightarrow> ('w, int \<times> sockaddr \<times> string) io" where
  \<comment> \<open>what it returns, the sender's address, and the bytes received\<close>
  "read_one k fd b len sender = do {
     r \<leftarrow> sysc k (Sys_recvmsg fd b len);
     let sender1 = (if re_ret r < 0 then sender else case re_addrs r of a # _ \<Rightarrow> a | [] \<Rightarrow> sender);
     if re_ret r \<le> 0 then do {
       e \<leftarrow> get_errno;
       (if e \<noteq> EWOULDBLOCK then report UPERF_LOG_ERROR e ''recvmsg:'' else ret ());
       ret (- 1, sender1, []) }
     else ret (re_ret r, sender1, re_data r) }"

definition write_one :: "'w kernel \<Rightarrow> int \<Rightarrow> buf \<Rightarrow> int \<Rightarrow> sockaddr \<Rightarrow> ('w, int) io" where
  "write_one k fd b len dest =
     (if sa_family dest = AF_INET \<or> sa_family dest = AF_INET6
      then do { r \<leftarrow> sysc k (Sys_sendmsg fd b len dest); ret (re_ret r) }
      else ret (- 1))"

definition udp_timeout :: "u64 \<Rightarrow> int" where
  \<comment> \<open>\<open>(int) fo->poll_timeout/1.0e+6\<close>: the cast is applied first\<close>
  "udp_timeout t = (let x = wrap32 (uint t) in sgn x * (\<bar>x\<bar> div 1000000))"

definition fo_timeout :: "flowop_options option \<Rightarrow> int" where
  "fo_timeout fo = (case fo of None \<Rightarrow> 0 | Some f \<Rightarrow> udp_timeout (fo_poll_timeout f))"

definition fo_times :: "flowop_options option \<Rightarrow> nat" where
  "fo_times fo = (case fo of None \<Rightarrow> 1 | Some f \<Rightarrow> unat (fo_repeat f))"

definition nonblocking :: "flowop_options option \<Rightarrow> bool" where
  "nonblocking fo = (case fo of None \<Rightarrow> False | Some f \<Rightarrow> fo_is O_NONBLOCKING f)"

definition overlay :: "string \<Rightarrow> string \<Rightarrow> string" where
  \<comment> \<open>a buffer after these bytes were stored at its start\<close>
  "overlay d old = d @ drop (length d) old"

section \<open>Reading\<close>

definition udp_read_rest ::
  "'w kernel \<Rightarrow> buf \<Rightarrow> int \<Rightarrow> int \<Rightarrow> udp_private \<Rightarrow> string \<Rightarrow> ('w, int \<times> udp_private \<times> string) io" where
  \<comment> \<open>the second half of an iteration: what is left, after \<open>poll\<close> if there is a timeout\<close>
  "udp_read_rest k b nleft timeout pd old =
     (if nleft > 0 then do {
        e \<leftarrow> (if 0 < timeout then generic_poll k (pd_sock pd) timeout POLLIN else ret 1);
        if e \<le> 0 then ret (- 1, pd, old)
        else do {
          (r, a, d) \<leftarrow> read_one k (pd_sock pd) b nleft (pd_addr pd);
          ret (r, pd\<lparr>pd_addr := a\<rparr>, overlay d old) }}
      else ret (0, pd, old))"

fun udp_read_loop ::
  "'w kernel \<Rightarrow> buf \<Rightarrow> int \<Rightarrow> flowop_options option \<Rightarrow> nat \<Rightarrow> int \<Rightarrow> udp_private \<Rightarrow> string \<Rightarrow>
     ('w, int \<times> udp_private \<times> string) io" where
  \<comment> \<open>the first number counts the iterations left, the second is \<open>total\<close>\<close>
  "udp_read_loop k b n fo 0 acc pd old = ret (acc, pd, old)"
| "udp_read_loop k b n fo (Suc i) acc pd old = do {
     (stop, r, pd1, old1) \<leftarrow>
       (if nonblocking fo then do {
          (r, a, d) \<leftarrow> read_one k (pd_sock pd) b n (pd_addr pd);
          e \<leftarrow> get_errno;
          if r \<le> 0 \<and> e \<noteq> EWOULDBLOCK then do {
            report UPERF_LOG_ERROR e ''non-block write'';
            ret (True, r, pd\<lparr>pd_addr := a\<rparr>, overlay d old) }
          else ret (False, r, pd\<lparr>pd_addr := a\<rparr>, overlay d old) }
        else ret (False, 0, pd, old));
     if stop then ret (r, pd1, old1)
     else do {
       (r2, pd2, old2) \<leftarrow> udp_read_rest k b (n - r) (fo_timeout fo) pd1 old1;
       if r2 < 0 then ret (r2, pd2, old2)
       else udp_read_loop k b n fo i (acc + max 0 r + r2) pd2 old2 }}"

definition protocol_udp_read ::
  "'w kernel \<Rightarrow> buf \<Rightarrow> int \<Rightarrow> flowop_options option \<Rightarrow> udp_private \<Rightarrow> string \<Rightarrow>
     ('w, int \<times> udp_private \<times> string) io" where
  \<comment> \<open>the last argument and result: what the buffer holds\<close>
  "protocol_udp_read k b n fo pd old = udp_read_loop k b n fo (fo_times fo) 0 pd old"

section \<open>Writing\<close>

definition udp_write_rest :: "'w kernel \<Rightarrow> buf \<Rightarrow> int \<Rightarrow> int \<Rightarrow> udp_private \<Rightarrow> ('w, int) io" where
  "udp_write_rest k b nleft timeout pd =
     (if nleft > 0 then do {
        e \<leftarrow> (if 0 < timeout then generic_poll k (pd_sock pd) timeout POLLOUT else ret 1);
        if e \<le> 0 then ret (- 1) else write_one k (pd_sock pd) b nleft (pd_addr pd) }
      else ret 0)"

fun udp_write_loop ::
  "'w kernel \<Rightarrow> buf \<Rightarrow> int \<Rightarrow> flowop_options option \<Rightarrow> nat \<Rightarrow> int \<Rightarrow> udp_private \<Rightarrow> ('w, int) io" where
  "udp_write_loop k b n fo 0 acc pd = ret acc"
| "udp_write_loop k b n fo (Suc i) acc pd = do {
     (stop, r) \<leftarrow>
       (if nonblocking fo then do {
          r \<leftarrow> write_one k (pd_sock pd) b n (pd_addr pd);
          e \<leftarrow> get_errno;
          if r \<le> 0 \<and> e \<noteq> EWOULDBLOCK then do {
            report UPERF_LOG_ERROR e ''non-block write'';
            ret (True, - 1) }
          else ret (False, max 0 r) }
        else ret (False, 0));
     if stop then ret r
     else do {
       r2 \<leftarrow> udp_write_rest k b (n - r) (fo_timeout fo) pd;
       if r2 < 0 then ret r2
       else udp_write_loop k b n fo i (acc + r + r2) pd }}"

definition protocol_udp_write ::
  "'w kernel \<Rightarrow> buf \<Rightarrow> int \<Rightarrow> flowop_options option \<Rightarrow> udp_private \<Rightarrow> ('w, int) io" where
  "protocol_udp_write k b n fo pd = udp_write_loop k b n fo (fo_times fo) 0 pd"

section \<open>Connections\<close>

definition udp_bind :: "'w kernel \<Rightarrow> udp_private \<Rightarrow> family \<Rightarrow> string \<Rightarrow> ('w, int \<times> udp_private) io" where
  \<comment> \<open>one of the two branches of \<open>protocol_udp_listen\<close>\<close>
  "udp_bind k pd fam addr = (
     let a = \<lparr>sa_family = fam, sa_addr = addr, sa_port = to_u16 (pd_port pd)\<rparr>; pd1 = pd\<lparr>pd_addr := a\<rparr> in do {
     r \<leftarrow> sysc k (Sys_bind (pd_sock pd) a);
     if re_ret r < 0 then do {
       e \<leftarrow> get_errno; report UPERF_LOG_ERROR e ''bind''; ret (UPERF_FAILURE, pd1) }
     else if pd_port pd = ANY_PORT then do {
       r \<leftarrow> sysc k (Sys_getsockname (pd_sock pd));
       if re_ret r < 0 then do {
         e \<leftarrow> get_errno; report UPERF_LOG_ERROR e ''getsockname'';
         ret (UPERF_FAILURE, pd1\<lparr>pd_addr := zero_addr\<rparr>) }
       else let a = (case re_addrs r of a # _ \<Rightarrow> a | [] \<Rightarrow> zero_addr) in
         ret (uint (sa_port a), pd1\<lparr>pd_addr := a, pd_port := uint (sa_port a)\<rparr>) }
     else ret (pd_port pd, pd1) })"

definition protocol_udp_listen :: "'w kernel \<Rightarrow> udp_private \<Rightarrow> ('w, int \<times> udp_private) io" where
  "protocol_udp_listen k pd = do {
     r \<leftarrow> sysc k (Sys_socket AF_INET6 SOCK_DGRAM 0);
     if re_ret r < 0 then do {
       r \<leftarrow> sysc k (Sys_socket AF_INET SOCK_DGRAM 0);
       if re_ret r < 0 then do {
         e \<leftarrow> get_errno; report UPERF_LOG_ERROR e ''udp: Cannot create socket'';
         ret (UPERF_FAILURE, pd\<lparr>pd_sock := re_ret r\<rparr>) }
       else udp_bind k (pd\<lparr>pd_sock := re_ret r\<rparr>) AF_INET ''0.0.0.0'' }
     else do {
       let pd1 = pd\<lparr>pd_sock := re_ret r\<rparr>;
       r \<leftarrow> sysc k (Sys_setsockopt (pd_sock pd1) (Ipv6_v6only 0));
       if re_ret r < 0 then ret (UPERF_FAILURE, pd1)
       else udp_bind k pd1 AF_INET6 ''::'' }}"

definition protocol_udp_accept ::
  "'w kernel \<Rightarrow> udp_private \<Rightarrow> flowop_options option \<Rightarrow> ('w, bool \<times> udp_private \<times> flowop_options option) io" where
  \<comment> \<open>whether the object itself is returned, or a null pointer\<close>
  "protocol_udp_accept k pd fo = do {
     (r, pd1, msg) \<leftarrow> protocol_udp_read k Local_buf (int (length UDP_HANDSHAKE)) fo pd (replicate 32 NUL);
     if r \<le> UPERF_SUCCESS then do {
       e \<leftarrow> get_errno; report UPERF_LOG_ERROR e ''Error in UDP Handshake''; ret (False, pd1, fo) }
     else do {
       fo1 \<leftarrow> set_udp_options k (pd_sock pd1) fo;
       if takeWhile (\<lambda>c. c \<noteq> NUL) msg \<noteq> UDP_HANDSHAKE then ret (False, pd1, fo1)
       else let pd2 = pd1\<lparr>pd_refcount := pd_refcount pd1 + 1\<rparr> in
         ret (sa_family (pd_addr pd2) = AF_INET \<or> sa_family (pd_addr pd2) = AF_INET6, pd2, fo1) }}"

definition protocol_udp_connect ::
  "'w kernel \<Rightarrow> udp_private \<Rightarrow> flowop_options option \<Rightarrow> ('w, int \<times> udp_private \<times> flowop_options option) io" where
  "protocol_udp_connect k pd fo = (
     let handshake = (\<lambda>pd. do {
           fo1 \<leftarrow> set_udp_options k (pd_sock pd) fo;
           r \<leftarrow> protocol_udp_write k (Text UDP_HANDSHAKE) (int (length UDP_HANDSHAKE)) None pd;
           if r \<le> 0 then do {
             e \<leftarrow> get_errno; report UPERF_LOG_ERROR e ''Error in UDP Handshake'';
             ret (UPERF_FAILURE, pd, fo1) }
           else ret (UPERF_SUCCESS, pd, fo1) })
     in do {
     (e, a) \<leftarrow> name_to_addr k (pd_rhost pd);
     (case a of
        None \<Rightarrow> ret (UPERF_FAILURE, pd\<lparr>pd_addr := zero_addr\<rparr>, fo)
      | Some addr \<Rightarrow> do {
          r \<leftarrow> sysc k (Sys_socket (sa_family addr) SOCK_DGRAM 0);
          let pd1 = pd\<lparr>pd_addr := addr, pd_sock := re_ret r\<rparr>;
          let pd2 = pd1\<lparr>pd_addr := addr\<lparr>sa_port := to_u16 (pd_port pd)\<rparr>\<rparr>;
          if re_ret r < 0 then do {
            report_errno UPERF_LOG_ERROR ''UDP: Cannot create socket'';
            ret (UPERF_FAILURE, pd1, fo) }
          else if sa_family addr = AF_INET then handshake pd2
          else if sa_family addr = AF_INET6 then do {
            r \<leftarrow> sysc k (Sys_setsockopt (pd_sock pd2) (Ipv6_v6only 0));
            if re_ret r < 0 then ret (UPERF_FAILURE, pd2, fo) else handshake pd2 }
          else ret (UPERF_FAILURE, pd1, fo) }) })"

definition protocol_udp_disconnect :: "udp_private \<Rightarrow> int \<times> udp_private" where
  "protocol_udp_disconnect pd = (UPERF_SUCCESS, pd\<lparr>pd_refcount := pd_refcount pd - 1\<rparr>)"

definition udp_fini :: "'w kernel \<Rightarrow> udp_private \<Rightarrow> ('w, bool) io" where
  \<comment> \<open>whether the object was freed\<close>
  "udp_fini k pd =
     (if pd_refcount pd < - 1 then do {
        (if 0 < pd_sock pd then do { _ \<leftarrow> sysc k (Sys_close (pd_sock pd)); ret () } else ret ());
        ret True }
      else ret False)"


section \<open>Properties\<close>

fun asks_at_most :: "int \<Rightarrow> syscall \<Rightarrow> bool" where
  "asks_at_most n (Sys_recvmsg fd b len) = (len \<le> n)"
| "asks_at_most n _ = True"

lemma calls_read_one: "len \<le> n \<Longrightarrow> calls (asks_at_most n) (read_one (traced k) fd b len a)"
  unfolding read_one_def Let_def
  by (auto intro!: calls_intro calls_sysc)

lemma calls_generic_poll: "(\<And>t. P (Sys_poll fd t e)) \<Longrightarrow> calls P (generic_poll (traced k) fd t e)"
  unfolding generic_poll_def by (auto intro!: calls_intro calls_sysc)

lemma calls_read_rest:
  "nleft \<le> n \<Longrightarrow> calls (asks_at_most n) (udp_read_rest (traced k) b nleft t pd old)"
  unfolding udp_read_rest_def
  by (auto intro!: calls_intro calls_read_one calls_generic_poll split: prod.split)

lemma calls_read_loop:
  "\<not> nonblocking fo \<Longrightarrow> calls (asks_at_most n) (udp_read_loop (traced k) b n fo i acc pd old)"
proof (induction i arbitrary: acc pd old)
  case (Suc i)
  then show ?case
    by (auto intro!: calls_intro calls_read_rest split: prod.split)
qed (auto intro!: calls_intro)

lemma calls_any_read_one: "calls (\<lambda>_. True) (read_one (traced k) fd b len a)"
  unfolding read_one_def Let_def by (auto intro!: calls_intro calls_sysc)

lemma calls_any_read_loop: "calls (\<lambda>_. True) (udp_read_loop (traced k) b n fo i acc pd old)"
proof (induction i arbitrary: acc pd old)
  case (Suc i)
  then show ?case
    by (auto simp: udp_read_rest_def intro!: calls_intro calls_any_read_one calls_generic_poll split: prod.split)
qed (auto intro!: calls_intro)

text \<open>
  A blocking UDP read never asks the kernel for more bytes than the flowop has room for.
  A non-blocking one does: when its first attempt finds nothing, the -1 it got is subtracted
  from what is left to read, and the second attempt asks for one byte more than the size.
\<close>

lemma udp_read_requests:
  assumes "run_state (protocol_udp_read (traced k) b n fo pd old) s = (x, s')" and "pc_world s = (w, [])"
  shows "(\<not> nonblocking fo \<longrightarrow> list_all (asks_at_most n) (snd (pc_world s'))) \<and>
    (nonblocking fo \<and> fo_timeout fo \<le> 0 \<and> 0 < fo_times fo \<and> 0 \<le> n \<and>
     re_ret (fst (k (Sys_recvmsg (pd_sock pd) b n) w)) = - 1 \<and>
     re_errno (fst (k (Sys_recvmsg (pd_sock pd) b n) w)) = EWOULDBLOCK \<longrightarrow>
       (\<exists>cs. snd (pc_world s') =
          Sys_recvmsg (pd_sock pd) b n # Sys_recvmsg (pd_sock pd) b (n + 1) # cs))"
proof (intro conjI impI)
  assume "\<not> nonblocking fo"
  then have "calls (asks_at_most n) (protocol_udp_read (traced k) b n fo pd old)"
    unfolding protocol_udp_read_def by (rule calls_read_loop)
  from preservesD [OF this assms(1)] assms(2) show "list_all (asks_at_most n) (snd (pc_world s'))"
    by (simp add: grows_def)
next
  assume h: "nonblocking fo \<and> fo_timeout fo \<le> 0 \<and> 0 < fo_times fo \<and> 0 \<le> n \<and>
     re_ret (fst (k (Sys_recvmsg (pd_sock pd) b n) w)) = - 1 \<and>
     re_errno (fst (k (Sys_recvmsg (pd_sock pd) b n) w)) = EWOULDBLOCK"
  then obtain i where i: "fo_times fo = Suc i" by (auto simp: gr0_conv_Suc)
  obtain r w1 where r: "k (Sys_recvmsg (pd_sock pd) b n) w = (r, w1)" by fastforce
  let ?c1 = "Sys_recvmsg (pd_sock pd) b n" and ?c2 = "Sys_recvmsg (pd_sock pd) b (n + 1)"
  let ?s1 = "s\<lparr>pc_errno := EWOULDBLOCK, pc_world := (w1, [?c1])\<rparr>"
  have first: "run_state (read_one (traced k) (pd_sock pd) b n (pd_addr pd)) s = ((- 1, pd_addr pd, []), ?s1)"
    using h r assms(2) by (simp add: read_one_def sysc_def traced_def get_errno_def)
  obtain r2 w2 where r2: "k ?c2 w1 = (r2, w2)" by fastforce
  obtain y s2 where second: "run_state (read_one (traced k) (pd_sock pd) b (n + 1) (pd_addr pd)) ?s1 = (y, s2)"
    by (metis surj_pair)
  have s2: "snd (pc_world s2) = [?c1, ?c2]"
    using second r2 by (auto simp: read_one_def Let_def sysc_def traced_def get_errno_def report_def split: if_splits)
  obtain v a d where y: "y = (v, a, d)" by (cases y)
  have rest: "run_state (udp_read_rest (traced k) b (n + 1) (fo_timeout fo) pd old) ?s1 =
      ((v, pd\<lparr>pd_addr := a\<rparr>, overlay d old), s2)"
    using h second y by (simp add: udp_read_rest_def overlay_def)
  show "\<exists>cs. snd (pc_world s') = ?c1 # ?c2 # cs"
  proof (cases "v < 0")
    case True
    with assms(1) h i first rest s2 show ?thesis
      by (simp add: protocol_udp_read_def get_errno_def overlay_def)
  next
    case False
    with assms(1) h i first rest have "run_state (udp_read_loop (traced k) b n fo i v (pd\<lparr>pd_addr := a\<rparr>) (overlay d old)) s2 = (x, s')"
      by (simp add: protocol_udp_read_def get_errno_def overlay_def)
    from preservesD [OF calls_any_read_loop this] s2 show ?thesis by (auto simp: grows_def)
  qed
qed

definition silent_kernel :: "nat kernel" where
  \<comment> \<open>the first datagram has not arrived yet; the second read finds it\<close>
  "silent_kernel c w =
     (let r = \<lparr>re_ret = 0, re_errno = 0, re_addrs = [], re_val = 0, re_data = [], re_vm = (0, 0), re_lens = []\<rparr>
      in if w = 0 then (r\<lparr>re_ret := - 1, re_errno := EWOULDBLOCK\<rparr>, 1) else (r\<lparr>re_ret := 5\<rparr>, w + 1))"

definition nonblocking_read :: flowop_options where
  "nonblocking_read = zero_options\<lparr>fo_flag := O_NONBLOCKING, fo_repeat := 1\<rparr>"

lemma udp_read_requests_witness:
  "\<exists>cs. snd (pc_world (snd (run_state (protocol_udp_read (traced silent_kernel) (Strand_buf 0) 5
       (Some nonblocking_read) (udp_create_private ''h'' 0) []) \<lparr>pc_errno = 0, pc_log = [], pc_world = (0, [])\<rparr>)))
     = Sys_recvmsg 0 (Strand_buf 0) 5 # Sys_recvmsg 0 (Strand_buf 0) 6 # cs"
proof -
  let ?s = "\<lparr>pc_errno = 0, pc_log = [], pc_world = (0, [])\<rparr>" and ?pd = "udp_create_private ''h'' 0"
  let ?m = "protocol_udp_read (traced silent_kernel) (Strand_buf 0) 5 (Some nonblocking_read) ?pd []"
  obtain x s where r: "run_state ?m ?s = (x, s)" by (metis surj_pair)
  have "nonblocking (Some nonblocking_read)" "fo_timeout (Some nonblocking_read) = 0" "fo_times (Some nonblocking_read) = 1"
    by code_simp+
  moreover have "re_ret (fst (silent_kernel (Sys_recvmsg (pd_sock ?pd) (Strand_buf 0) 5) 0)) = - 1"
    "re_errno (fst (silent_kernel (Sys_recvmsg (pd_sock ?pd) (Strand_buf 0) 5) 0)) = EWOULDBLOCK"
    by (simp_all add: silent_kernel_def)
  moreover have "pd_sock ?pd = 0" by (simp add: udp_create_private_def)
  ultimately show ?thesis
    using udp_read_requests [where k = silent_kernel, OF r] r by auto
qed

section \<open>Repeated writes\<close>

lemma write_loop_all:
  assumes "\<forall>w. re_ret (fst (k (Sys_sendmsg (pd_sock pd) b n (pd_addr pd)) w)) = n"
    and "0 < n" and "\<not> nonblocking fo" and "fo_timeout fo \<le> 0"
    and "sa_family (pd_addr pd) = AF_INET \<or> sa_family (pd_addr pd) = AF_INET6"
  shows "\<exists>s'. run_state (udp_write_loop (traced k) b n fo i acc pd) s = (acc + int i * n, s') \<and>
    snd (pc_world s') = snd (pc_world s) @ replicate i (Sys_sendmsg (pd_sock pd) b n (pd_addr pd))"
proof (induction i arbitrary: acc s)
  case (Suc i)
  let ?c = "Sys_sendmsg (pd_sock pd) b n (pd_addr pd)"
  obtain r w' where r: "k ?c (fst (pc_world s)) = (r, w')" "re_ret r = n"
    using assms(1) by (metis fst_conv surj_pair)
  let ?s1 = "s\<lparr>pc_world := (w', snd (pc_world s) @ [?c])\<rparr>"
  have step: "run_state (udp_write_rest (traced k) b n (fo_timeout fo) pd) s = (n, ?s1)"
    using assms r by (auto simp: udp_write_rest_def write_one_def sysc_def traced_def)
  obtain s' where s': "run_state (udp_write_loop (traced k) b n fo i (acc + n) pd) ?s1 = (acc + n + int i * n, s')"
      "snd (pc_world s') = snd (pc_world ?s1) @ replicate i ?c"
    using Suc.IH [of "acc + n" ?s1] by blast
  then show ?case
    using assms(2,3) step by (auto simp: algebra_simps)
qed simp

text \<open>
  A blocking UDP write whose datagrams are all sent whole sends exactly as many of them as
  the \<open>repeat\<close> option says, each of the flowop's size to the address of the handshake, and
  reports the sum of their lengths: \<open>flowop_rw\<close> counts repeated datagrams as bytes.
\<close>

lemma udp_write_repeats:
  assumes "\<forall>w. re_ret (fst (k (Sys_sendmsg (pd_sock pd) b n (pd_addr pd)) w)) = n"
    and "0 < n" and "\<not> nonblocking fo" and "fo_timeout fo \<le> 0"
    and "sa_family (pd_addr pd) = AF_INET \<or> sa_family (pd_addr pd) = AF_INET6"
    and "pc_world s = (w, [])"
  shows "\<exists>s'. run_state (protocol_udp_write (traced k) b n fo pd) s = (int (fo_times fo) * n, s') \<and>
    snd (pc_world s') = replicate (fo_times fo) (Sys_sendmsg (pd_sock pd) b n (pd_addr pd))"
  using write_loop_all [where k = k and pd = pd and b = b and n = n and fo = fo and i = "fo_times fo" and acc = 0 and s = s] assms
  by (auto simp: protocol_udp_write_def)

lemma udp_write_repeats_witness:
  "\<exists>s. run_state (protocol_udp_write (traced lab_kernel) (Strand_buf 0) 100 (Some (zero_options\<lparr>fo_repeat := 3\<rparr>))
       ((udp_create_private ''h'' 0)\<lparr>pd_sock := 3, pd_addr := lab_addr\<rparr>))
       \<lparr>pc_errno = 0, pc_log = [], pc_world = ([0, 1, 2, 3], [])\<rparr> = (300, s) \<and>
     snd (pc_world s) = replicate 3 (Sys_sendmsg 3 (Strand_buf 0) 100 lab_addr)"
proof -
  let ?pd = "(udp_create_private ''h'' 0)\<lparr>pd_sock := 3, pd_addr := lab_addr\<rparr>"
  let ?fo = "Some (zero_options\<lparr>fo_repeat := 3\<rparr>)"
  have "\<forall>w. re_ret (fst (lab_kernel (Sys_sendmsg (pd_sock ?pd) (Strand_buf 0) 100 (pd_addr ?pd)) w)) = 100"
    by (simp add: lab_kernel_def)
  moreover have "\<not> nonblocking ?fo" "fo_timeout ?fo \<le> 0" "fo_times ?fo = 3"
    by code_simp+
  moreover have "sa_family (pd_addr ?pd) = AF_INET \<or> sa_family (pd_addr ?pd) = AF_INET6"
    by (simp add: lab_addr_def)
  ultimately show ?thesis
    using udp_write_repeats [where k = lab_kernel and b = "Strand_buf 0" and n = 100 and pd = ?pd and fo = ?fo
        and s = "\<lparr>pc_errno = 0, pc_log = [], pc_world = ([0, 1, 2, 3], [])\<rparr>" and w = "[0, 1, 2, 3]"]
    by auto
qed

section \<open>Timeouts and the count of connections\<close>

text \<open>The cast before the division turns a timeout between 2.15 and 4.29 seconds into none.\<close>

lemma udp_timeout_wraps: "udp_timeout 3000000000 < 0" "udp_timeout 2000000000 = 2000"
  by code_simp+

lemma udp_timeout_short: "uint t < 2 ^ 31 \<Longrightarrow> udp_timeout t = uint t div 1000000"
proof -
  assume "uint t < 2 ^ 31"
  then have "wrap32 (uint t) = uint t" by (intro wrap32_id) (auto intro: order_trans [of _ 0])
  moreover have "0 \<le> uint t" by simp
  ultimately show ?thesis by (cases "uint t = 0") (simp_all add: udp_timeout_def sgn_if Let_def)
qed

text \<open>
  Each \<open>accept\<close> adds one to the count and each \<open>disconnect\<close> takes one off, so that after as
  many of one as of the other \<open>udp_fini\<close> closes nothing.
\<close>

lemma udp_never_closed:
  "pd_refcount pd = 0 \<Longrightarrow>
   run_state (udp_fini k (snd (protocol_udp_disconnect (pd\<lparr>pd_refcount := pd_refcount pd + 1\<rparr>)))) s = (False, s)"
  by (simp add: udp_fini_def protocol_udp_disconnect_def)

end
