(* ===== verification/Flowlib.thy ===== *)
theory Flowlib
  imports Udp Shm Sendfile
begin

text \<open>
  The flowop library (\<open>src/flowops_library.c\<close>, \<open>src/delay.c\<close>): what a strand does for each
  type of flowop, on the flowops of the transaction it is in, its connections, its log and the
  world. A flowop keeps a pointer to the connection it used last (\<open>f_connection\<close>); opening or
  closing a connection resets the pointers of the flowops from the current one on.

  The operations of a protocol object are found through its type (\<open>proto_ops\<close>); TCP's are those
  of \<open>Sockets\<close>. \<open>rand\<close>, \<open>sendfile\<close>, the clock, the sleeping call, the address of a new object
  and what other threads do to the flag \<open>signalled\<close> are parameters.
\<close>

section \<open>State and environment\<close>

text \<open>\<open>accept\<close> makes a new object, or (UDP) returns the listener itself.\<close>

datatype accepted = New_object protocol | Same_object protocol

record 'w proto_ops =
  op_connect :: "protocol \<Rightarrow> flowop_options \<Rightarrow> ('w, int \<times> protocol) io"
  op_disconnect :: "protocol \<Rightarrow> ('w, int \<times> protocol) io"
  op_accept :: "protocol \<Rightarrow> flowop_options \<Rightarrow> ('w, accepted option) io"
  op_read :: "protocol \<Rightarrow> buf \<Rightarrow> int \<Rightarrow> flowop_options \<Rightarrow> ('w, c_stop + int) io"
  op_write :: "protocol \<Rightarrow> buf \<Rightarrow> int \<Rightarrow> flowop_options \<Rightarrow> ('w, c_stop + int) io"
  op_send :: "protocol \<Rightarrow> buf \<Rightarrow> int \<Rightarrow> flowop_options \<Rightarrow> ('w, c_stop + int) io"
  op_recv :: "protocol \<Rightarrow> buf \<Rightarrow> int \<Rightarrow> flowop_options \<Rightarrow> ('w, c_stop + int) io"
  op_fini :: "protocol \<Rightarrow> ('w, unit) io"

record 'w lib =
  li_flist :: "flowop list"
  li_strand :: strand
  li_proc :: "'w proc"

record 'w libenv =
  le_cfg :: build_config
  le_ops :: "u32 \<Rightarrow> 'w proto_ops"
  le_rand :: "'w \<Rightarrow> nat \<times> 'w"
  le_new :: "'w lib \<Rightarrow> nat"
  le_listener :: "u32 \<Rightarrow> nat"
  le_async :: "'w \<Rightarrow> bool \<Rightarrow> bool"
  le_clock :: "'w \<Rightarrow> u64 \<times> 'w"
  le_nanosleep :: "u64 \<Rightarrow> 'w \<Rightarrow> reply \<times> 'w"
  le_sendfile :: "int \<Rightarrow> int \<Rightarrow> int \<Rightarrow> u64 \<Rightarrow> 'w proc \<Rightarrow> int \<times> 'w proc"
  le_sfv :: "sfv_list list"

definition in_proc :: "('w, 'a) io \<Rightarrow> 'w lib \<Rightarrow> 'a \<times> 'w lib" where
  "in_proc m st = (case run_state m (li_proc st) of (x, p) \<Rightarrow> (x, st\<lparr>li_proc := p\<rparr>))"

definition obind :: "(c_stop + 'a) option \<Rightarrow> ('a \<Rightarrow> (c_stop + 'b) option) \<Rightarrow> (c_stop + 'b) option" where
  "obind m f = (case m of None \<Rightarrow> None | Some (Inl e) \<Rightarrow> Some (Inl e) | Some (Inr x) \<Rightarrow> f x)"

lemma obind_simps [simp]:
  "obind None f = None"
  "obind (Some (Inl e)) f = Some (Inl e)"
  "obind (Some (Inr x)) f = f x"
  by (simp_all add: obind_def)

definition lib_pool :: "'w lib \<Rightarrow> pool" where
  "lib_pool st = s_pool (li_strand st)"

definition set_pool :: "pool \<Rightarrow> 'w lib \<Rightarrow> 'w lib" where
  "set_pool po st = st\<lparr>li_strand := (li_strand st)\<lparr>s_pool := po\<rparr>\<rparr>"

definition set_flowop :: "nat \<Rightarrow> flowop \<Rightarrow> 'w lib \<Rightarrow> 'w lib" where
  "set_flowop i f st = st\<lparr>li_flist := (li_flist st)[i := f]\<rparr>"

definition forget_connections :: "nat \<Rightarrow> 'w lib \<Rightarrow> 'w lib" where
  \<comment> \<open>\<open>for (fp1 = fp; fp1 != NULL; fp1 = fp1->next) fp1->connection = NULL\<close>\<close>
  "forget_connections i st = st\<lparr>li_flist :=
     take i (li_flist st) @ map (\<lambda>f. f\<lparr>f_connection := None\<rparr>) (drop i (li_flist st))\<rparr>"

definition conn_id :: "flowop \<Rightarrow> int" where
  "conn_id f = sint (f_p_id f)"

definition base :: "pnode \<Rightarrow> protocol" where
  "base n = protocol.truncate n"

section \<open>Transfers\<close>

definition my_random :: "nat \<Rightarrow> u32 \<Rightarrow> u32 \<Rightarrow> c_stop + u32" where
  \<comment> \<open>\<open>r\<close>: what \<open>rand\<close> returns; the \<open>double\<close> is exact\<close>
  "my_random r x y =
     (let range = unat (y - x + 1) in
      if range = 0 then Inl Undefined
      else Inr (of_nat (min (unat x + r mod range) (unat y))))"

definition flowop_connection :: "nat \<Rightarrow> 'w lib \<Rightarrow> (c_stop + nat option \<times> 'w lib) option" where
  "flowop_connection i st =
     (let f = li_flist st ! i in
      case f_connection f of
        Some a \<Rightarrow> Some (Inr (Some a, st))
      | None \<Rightarrow>
          obind (strand_get_connection (conn_id f) (lib_pool st)) (\<lambda>(r, po).
            let st1 = set_flowop i (f\<lparr>f_connection := r\<rparr>) (set_pool po st) in
            case r of
              Some a \<Rightarrow> Some (Inr (Some a, st1))
            | None \<Rightarrow> Some (Inr (None, snd (in_proc
                (report UPERF_LOG_ERROR 0 (''No such connection '' @ dec_int (conn_id f))) st1)))))"

definition rw_func ::
  "'w libenv \<Rightarrow> pnode \<Rightarrow> flowop_options \<Rightarrow> flowop_type \<Rightarrow> (buf \<Rightarrow> int \<Rightarrow> ('w, c_stop + int) io) option" where
  "rw_func E n fo t =
     (let ops = le_ops E (p_type n) in
      case t of
        FLOWOP_READ \<Rightarrow> Some (\<lambda>b l. op_read ops (base n) b l fo)
      | FLOWOP_WRITE \<Rightarrow> Some (\<lambda>b l. op_write ops (base n) b l fo)
      | FLOWOP_SEND \<Rightarrow> if p_sendrecv n then Some (\<lambda>b l. op_send ops (base n) b l fo) else None
      | FLOWOP_RECV \<Rightarrow> if p_sendrecv n then Some (\<lambda>b l. op_recv ops (base n) b l fo) else None
      | _ \<Rightarrow> None)"

definition rw_size :: "'w libenv \<Rightarrow> nat \<Rightarrow> 'w lib \<Rightarrow> c_stop + 'w lib" where
  \<comment> \<open>the size of a transfer with a random one\<close>
  "rw_size E i st =
     (let f = li_flist st ! i; fo = f_options f in
      if fo_is O_SIZE_RAND fo then
        if f_type f = FLOWOP_WRITE \<or> f_type f = FLOWOP_SEND then
          (case le_rand E (pc_world (li_proc st)) of (r, w) \<Rightarrow>
             cbind (my_random r (fo_rand_sz_min fo) (fo_rand_sz_max fo)) (\<lambda>sz.
               Inr (set_flowop i (f\<lparr>f_options := fo\<lparr>fo_size := sz\<rparr>\<rparr>)
                     (st\<lparr>li_proc := (li_proc st)\<lparr>pc_world := w\<rparr>\<rparr>))))
        else Inr (set_flowop i (f\<lparr>f_options := fo\<lparr>fo_size := fo_rand_sz_max fo\<rparr>\<rparr>) st)
      else Inr st)"

definition refresh :: "'w libenv \<Rightarrow> 'w lib \<Rightarrow> 'w lib" where
  \<comment> \<open>what the others did to the flag \<open>signalled\<close> since it was read last\<close>
  "refresh E st = st\<lparr>li_strand := (li_strand st)\<lparr>s_signalled :=
     le_async E (pc_world (li_proc st)) (s_signalled (li_strand st))\<rparr>\<rparr>"

definition rw_failed :: "string \<Rightarrow> ('w, unit) io" where
  "rw_failed name = do {
     e \<leftarrow> get_errno;
     if e \<noteq> EINTR then do {
       report UPERF_LOG_ERROR e (''Error for flowop '' @ name @ '' '');
       set_errno e }
     else ret () }"

function rw_loop ::
  "'w libenv \<Rightarrow> flowop \<Rightarrow> (buf \<Rightarrow> int \<Rightarrow> ('w, c_stop + int) io) \<Rightarrow> int \<Rightarrow> 'w lib \<Rightarrow> c_stop + int \<times> 'w lib" where
  \<comment> \<open>\<open>while (sz < fo->size)\<close>\<close>
  "rw_loop E f func sz st =
     (if sz < uint (fo_size (f_options f)) then
        let st1 = refresh E st in
        if s_signalled (li_strand st1) then Inr (- 1, st1)
        else case in_proc (func (Strand_buf (nat sz)) (wrap32 (uint (fo_size (f_options f)) - sz))) st1 of
          (r, st2) \<Rightarrow> cbind r (\<lambda>n.
            if n = 0 then Inr (- 1, snd (in_proc (set_errno EINTR) st2))
            else if n < 0 then Inr (- 1, snd (in_proc (rw_failed (f_name f)) st2))
            else if 2 ^ 31 \<le> sz + n then Inl Undefined
            else if fo_is O_SIZE_RAND (f_options f) then Inr (sz + n, st2)
            else rw_loop E f func (sz + n) st2)
      else Inr (sz, st))"
  by pat_completeness auto
termination
  by (relation "measure (\<lambda>(E, f, func, sz, st). nat (uint (fo_size (f_options f)) - sz))") auto

declare rw_loop.simps [simp del]

definition flowop_rw :: "'w libenv \<Rightarrow> nat \<Rightarrow> 'w lib \<Rightarrow> (c_stop + int \<times> 'w lib) option" where
  "flowop_rw E i st =
     obind (flowop_connection i st) (\<lambda>(c, st1).
       case c of
         None \<Rightarrow> Some (Inr (- 1, st1))
       | Some a \<Rightarrow>
           (case po_store (lib_pool st1) a of
              None \<Rightarrow> Some (Inl Undefined)
            | Some n \<Rightarrow>
                obind (Some (rw_size E i st1)) (\<lambda>st2.
                  let f = li_flist st2 ! i in
                  case rw_func E n (f_options f) (f_type f) of
                    None \<Rightarrow> Some (Inr (- 1, snd (in_proc
                      (report UPERF_LOG_ERROR 0 (''flowop '' @ f_name f @ '' not supported'')) st2)))
                  | Some func \<Rightarrow>
                      if fo_size (f_options f) = 0 then Some (Inl Aborted)
                      else Some (rw_loop E f func 0 st2))))"

section \<open>Connections\<close>

definition flowop_connect :: "'w libenv \<Rightarrow> nat \<Rightarrow> 'w lib \<Rightarrow> c_stop + int \<times> 'w lib" where
  "flowop_connect E i st =
     (let f = li_flist st ! i; fo = f_options f; proto = unat (fo_protocol fo);
          port = strand_get_port (li_strand st) (fo_remotehost fo) proto in
      if port = - 1 then
        Inr (- 1, snd (in_proc (report UPERF_LOG_ERROR 0 (''Cannot lookup host '' @ fo_remotehost fo)) st))
      else if NUM_PROTOCOLS \<le> proto then Inl Undefined
      else cbind (create_protocol (le_cfg E) (fo_protocol fo) (fo_remotehost fo) port) (\<lambda>p.
        let ops = le_ops E (p_type p) in
        case in_proc (op_connect ops (p\<lparr>p_conn := conn_id f\<rparr>) fo) st of
          ((error, p1), st1) \<Rightarrow>
            if error = UPERF_SUCCESS then
              cbind (open_connection (le_new E st) p1 (lib_pool st1)) (\<lambda>(_, po).
                Inr (error, forget_connections i (set_pool po st1)))
            else
              cbind (destroy_protocol (le_cfg E) (p_type p1)) (\<lambda>_.
                Inr (error, snd (in_proc (op_fini ops p1) st1)))))"

definition flowop_disconnect :: "'w libenv \<Rightarrow> nat \<Rightarrow> 'w lib \<Rightarrow> (c_stop + int \<times> 'w lib) option" where
  "flowop_disconnect E i st =
     (let f = li_flist st ! i in
      obind (strand_get_connection (conn_id f) (lib_pool st)) (\<lambda>(c, po).
        let st1 = set_pool po st in
        case c of
          None \<Rightarrow> Some (Inr (- 1, snd (in_proc
            (do { report UPERF_LOG_ERROR 0 ''Connection already closed''; set_errno EINTR }) st1)))
        | Some a \<Rightarrow>
            (case po_store po a of
               None \<Rightarrow> Some (Inl Undefined)
             | Some n \<Rightarrow>
                 (case in_proc (op_disconnect (le_ops E (p_type n)) (base n)) st1 of
                    ((error, p), st2) \<Rightarrow>
                      let po2 = po\<lparr>po_store := (po_store po)(a \<mapsto> protocol.extend p (protocol.more n))\<rparr> in
                      obind (find_conn (po_store po2) (conn_id f) (po_cpool po2)) (\<lambda>victim.
                      obind (strand_delete_connection (le_cfg E) (conn_id f) po2) (\<lambda>(_, po3).
                        let st3 = set_pool po3 st2;
                            st4 = (case victim of
                                     None \<Rightarrow> st3
                                   | Some b \<Rightarrow> (case po_store po2 b of
                                        None \<Rightarrow> st3
                                      | Some m \<Rightarrow> snd (in_proc (op_fini (le_ops E (p_type m)) (base m)) st3)))
                        in Some (Inr (error, forget_connections i st4))))))))"

definition readd_connection :: "nat \<Rightarrow> protocol \<Rightarrow> pool \<Rightarrow> c_stop + int \<times> pool" where
  \<comment> \<open>an object that is already in the store keeps its links\<close>
  "readd_connection a p po =
     (case po_store po a of
        None \<Rightarrow> open_connection a p po
      | Some n \<Rightarrow> strand_add_connection a
          (po\<lparr>po_store := (po_store po)(a \<mapsto> protocol.extend p (protocol.more n))\<rparr>))"

definition flowop_accept :: "'w libenv \<Rightarrow> nat \<Rightarrow> 'w lib \<Rightarrow> c_stop + int \<times> 'w lib" where
  "flowop_accept E i st =
     (let f = li_flist st ! i; fo = f_options f; proto = unat (fo_protocol fo) in
      if length (s_listen (li_strand st)) \<le> proto then Inl Undefined
      else case s_listen (li_strand st) ! proto of
        None \<Rightarrow> Inl Aborted
      | Some cntrp \<Rightarrow>
          (case in_proc (op_accept (le_ops E (p_type cntrp)) cntrp fo) st of
             (None, st1) \<Rightarrow> Inr (- 1, st1)
           | (Some (New_object p), st1) \<Rightarrow>
               cbind (open_connection (le_new E st) (p\<lparr>p_conn := conn_id f\<rparr>) (lib_pool st1)) (\<lambda>(_, po).
                 Inr (0, forget_connections i (set_pool po st1)))
           | (Some (Same_object p), st1) \<Rightarrow>
               cbind (readd_connection (le_listener E (fo_protocol fo)) (p\<lparr>p_conn := conn_id f\<rparr>) (lib_pool st1)) (\<lambda>(_, po).
                 Inr (0, forget_connections i (set_pool po st1)))))"

section \<open>Files\<close>

definition flowop_sendfilev :: "'w libenv \<Rightarrow> nat \<Rightarrow> 'w lib \<Rightarrow> (c_stop + int \<times> 'w lib) option" where
  \<comment> \<open>without \<open>HAVE_SENDFILEV\<close>: \<open>assert\<close> of a string never fails; the result is cut to an \<open>int\<close>\<close>
  "flowop_sendfilev E i st =
     obind (flowop_connection i st) (\<lambda>(c, st1).
       let f = li_flist st1 ! i in
       case c of
         None \<Rightarrow> Some (Inr (- 1, st1))
       | Some a \<Rightarrow>
           if f_type f = FLOWOP_SENDFILEV then Some (Inr (0, st1))
           else
             (case po_store (lib_pool st1) a of
                None \<Rightarrow> Some (Inl Undefined)
              | Some n \<Rightarrow>
                  (case le_rand E (pc_world (li_proc st1)) of (r, w) \<Rightarrow>
                     obind (do_sendfile (le_sendfile E) r (le_sfv E) (p_fd n) (fo_dir (f_options f))
                              (wrap32 (uint (fo_size (f_options f)))) ((li_proc st1)\<lparr>pc_world := w\<rparr>))
                       (\<lambda>(n, pr). Some (Inr (wrap32 n, st1\<lparr>li_proc := pr\<rparr>))))))"

section \<open>Waiting\<close>

definition secs_text :: "u64 \<Rightarrow> string" where
  \<comment> \<open>\<open>duration_nsecs * 1.0 / NSEC_PER_SEC\<close> printed with \<open>%.4f\<close>\<close>
  "secs_text d =
     (let (a, b) = rnd 53 (dbl (unat d), 1000000000);
          q = 10000 * a div b; r = 10000 * a mod b;
          h = (if 2 * r < b \<or> 2 * r = b \<and> even q then q else q + 1)
      in dec_nat (h div 10000) @ ''.'' @ dec_nat (h div 1000 mod 10) @ dec_nat (h div 100 mod 10) @
         dec_nat (h div 10 mod 10) @ dec_nat (h mod 10))"

definition uperf_sleep :: "(u64 \<Rightarrow> 'w \<Rightarrow> reply \<times> 'w) \<Rightarrow> u64 \<Rightarrow> ('w, int) io" where
  \<comment> \<open>the argument is \<open>__uperf_sleep\<close>, \<open>nanosleep\<close> or \<open>poll\<close>\<close>
  "uperf_sleep sl d = do {
     r \<leftarrow> sysc (\<lambda>_. sl d) (Sys_poll 0 0 POLLIN);
     if re_ret r = - 1 then do {
       e \<leftarrow> get_errno;
       report UPERF_LOG_ERROR e (''Error sleeping for '' @ secs_text d @ ''s\<newline>'');
       ret e }
     else ret 0 }"

partial_function (option) uperf_spin :: "('w \<Rightarrow> u64 \<times> 'w) \<Rightarrow> u64 \<Rightarrow> u64 \<Rightarrow> 'w \<Rightarrow> (int \<times> 'w) option" where
  \<comment> \<open>the loop once \<open>start\<close> is read\<close>
  "uperf_spin clk start d w =
     (case clk w of (t, w1) \<Rightarrow> if t - start < d then uperf_spin clk start d w1 else Some (0, w1))"

definition flowop_nop :: "'w lib \<Rightarrow> int \<times> 'w lib" where
  "flowop_nop st = (0, st)"

definition flowop_think :: "'w libenv \<Rightarrow> nat \<Rightarrow> 'w lib \<Rightarrow> (int \<times> 'w lib) option" where
  "flowop_think E i st =
     (let fo = f_options (li_flist st ! i); p = li_proc st in
      if fo_is O_THINK_BUSY fo then
        (case le_clock E (pc_world p) of (start, w) \<Rightarrow>
           map_option (\<lambda>(e, w1). (e, st\<lparr>li_proc := p\<lparr>pc_world := w1\<rparr>\<rparr>)) (uperf_spin (le_clock E) start (fo_duration fo) w))
      else Some (in_proc (uperf_sleep (le_nanosleep E) (fo_duration fo)) st))"

definition flowop_unknown :: "nat \<Rightarrow> 'w lib \<Rightarrow> int \<times> 'w lib" where
  "flowop_unknown i st = (- 1, snd (in_proc
     (report UPERF_LOG_ERROR 0 (take 127 (''flowop - Unknown flowop '' @
        dec_int (sint (flowop_code (f_type (li_flist st ! i))))))) st))"

section \<open>Dispatch\<close>

fun flowop_call :: "'w libenv \<Rightarrow> execute_func \<Rightarrow> nat \<Rightarrow> 'w lib \<Rightarrow> (c_stop + int \<times> 'w lib) option" where
  \<comment> \<open>\<open>(*f->execute)(s, f)\<close>\<close>
  "flowop_call E Flowop_rw i st = flowop_rw E i st"
| "flowop_call E Flowop_connect i st = Some (flowop_connect E i st)"
| "flowop_call E Flowop_disconnect i st = flowop_disconnect E i st"
| "flowop_call E Flowop_accept i st = Some (flowop_accept E i st)"
| "flowop_call E Flowop_nop i st = Some (Inr (flowop_nop st))"
| "flowop_call E Flowop_think i st = map_option Inr (flowop_think E i st)"
| "flowop_call E Flowop_sendfilev i st = flowop_sendfilev E i st"
| "flowop_call E Flowop_unknown i st = Some (Inr (flowop_unknown i st))"

section \<open>TCP\<close>

definition tcp_ops :: "'w kernel \<Rightarrow> tcp_config \<Rightarrow> 'w proto_ops" where
  "tcp_ops k tc =
     \<lparr>op_connect = (\<lambda>p fo. protocol_tcp_connect k tc p (Some fo)),
      op_disconnect = generic_disconnect k,
      op_accept = (\<lambda>p fo. do { r \<leftarrow> protocol_tcp_accept k tc p (Some fo); ret (map_option New_object r) }),
      op_read = (\<lambda>p b l fo. generic_read k p b l (Some fo)),
      op_write = (\<lambda>p b l fo. generic_write k p b l),
      op_send = (\<lambda>p b l fo. generic_send k p b l),
      op_recv = (\<lambda>p b l fo. generic_recv k p b l),
      op_fini = generic_fini k\<rparr>"

end
