(* ===== verification/Flowlib_Correct.thy ===== *)
theory Flowlib_Correct
  imports Flowlib
begin

text \<open>
  What the flowop library (\<open>Flowlib\<close>) does: a transfer over TCP moves its size whatever the
  kernel's pieces, connecting is all or nothing, and what becomes of the pointers flowops keep
  after a disconnect, and of the pool after a second UDP accept.
\<close>

section \<open>The transfer loop\<close>

definition calm_env :: "'w libenv \<Rightarrow> bool" where
  "calm_env E = (\<forall>w. \<not> le_async E w False)"

definition same_but_proc :: "'w lib \<Rightarrow> 'w lib \<Rightarrow> bool" where
  "same_but_proc st st' = (li_flist st' = li_flist st \<and>
     li_strand st'\<lparr>s_signalled := False\<rparr> = li_strand st\<lparr>s_signalled := False\<rparr>)"

lemma same_but_proc_refl [simp]: "same_but_proc st st"
  by (simp add: same_but_proc_def)

lemma same_but_proc_trans: "same_but_proc a b \<Longrightarrow> same_but_proc b c \<Longrightarrow> same_but_proc a c"
  by (simp add: same_but_proc_def)

lemma same_but_proc_pool: "same_but_proc st st' \<Longrightarrow> lib_pool st' = lib_pool st"
proof -
  assume "same_but_proc st st'"
  then have "s_pool (li_strand st'\<lparr>s_signalled := False\<rparr>) = s_pool (li_strand st\<lparr>s_signalled := False\<rparr>)"
    by (simp add: same_but_proc_def)
  then show ?thesis by (simp add: lib_pool_def)
qed

lemma in_proc_same: "in_proc m st = (x, st') \<Longrightarrow> same_but_proc st st'"
  by (auto simp: in_proc_def same_but_proc_def split: prod.splits)

lemma in_proc_snd_same: "same_but_proc st (snd (in_proc m st))"
  by (metis in_proc_same surj_pair prod.sel(2))

lemma refresh_same: "same_but_proc st (refresh E st)"
  by (simp add: refresh_def same_but_proc_def)

lemma rw_loop_result:
  "rw_loop E f func sz st = Inr (n, st') \<Longrightarrow> 0 \<le> sz \<Longrightarrow>
   same_but_proc st st' \<and> (n = - 1 \<or> uint (fo_size (f_options f)) \<le> n \<or> fo_is O_SIZE_RAND (f_options f) \<and> 0 < n)"
proof (induction E f func sz st rule: rw_loop.induct)
  case (1 E f func sz st)
  let ?S = "uint (fo_size (f_options f))" and ?st1 = "refresh E st"
  show ?case
  proof (cases "sz < ?S")
    case False
    with 1(2) show ?thesis by (subst (asm) rw_loop.simps) simp
  next
    case more: True
    show ?thesis
    proof (cases "s_signalled (li_strand ?st1)")
      case True
      with 1(2) more have "n = - 1" "st' = ?st1" by (subst (asm) rw_loop.simps, simp)+
      then show ?thesis by (simp add: refresh_same)
    next
      case quiet: False
      obtain r st2 where r: "in_proc (func (Strand_buf (nat sz)) (wrap32 (?S - sz))) ?st1 = (r, st2)" by fastforce
      have same: "same_but_proc st st2"
        by (rule same_but_proc_trans [OF refresh_same in_proc_same [OF r]])
      from 1(2) more quiet r obtain m where m: "r = Inr m"
        by (subst (asm) rw_loop.simps) (auto simp: Let_def cbind_Inr)
      have step: "(if m = 0 then Inr (- 1, snd (in_proc (set_errno EINTR) st2))
            else if m < 0 then Inr (- 1, snd (in_proc (rw_failed (f_name f)) st2))
            else if 2 ^ 31 \<le> sz + m then Inl Undefined
            else if fo_is O_SIZE_RAND (f_options f) then Inr (sz + m, st2)
            else rw_loop E f func (sz + m) st2) = Inr (n, st')"
        using 1(2) more quiet r m by (subst (asm) rw_loop.simps) (simp add: Let_def)
      show ?thesis
      proof (cases "m \<le> 0")
        case True
        with step same show ?thesis
          by (auto split: if_splits intro: same_but_proc_trans [OF same in_proc_snd_same])
      next
        case pos: False
        show ?thesis
        proof (cases "fo_is O_SIZE_RAND (f_options f)")
          case True
          with step pos same 1(3) show ?thesis by (auto split: if_splits)
        next
          case False
          with step pos have big: "\<not> 2 ^ 31 \<le> sz + m" and go: "rw_loop E f func (sz + m) st2 = Inr (n, st')"
            by (auto split: if_splits)
          from 1(1) [OF more refl quiet r [symmetric] m _ _ big False go] pos 1(3) same
          show ?thesis by (auto intro: same_but_proc_trans)
        qed
      qed
    qed
  qed
qed

lemma rw_loop_complete:
  assumes "calm_env E" and "\<not> fo_is O_SIZE_RAND (f_options f)" and "S = uint (fo_size (f_options f))" and "S < 2 ^ 31"
    and func: "\<And>b l p. 0 < l \<Longrightarrow> \<exists>n p'. run_state (func b l) p = (Inr n, p') \<and> 0 < n \<and> n \<le> l \<and>
      snd (pc_world p') = snd (pc_world p) @ [mk b l]"
    and "0 \<le> sz" and "sz < S" and "\<not> s_signalled (li_strand st)"
  shows "\<exists>st' os. rw_loop E f func sz st = Inr (S, st') \<and> same_but_proc st st' \<and>
    snd (pc_world (li_proc st')) = snd (pc_world (li_proc st)) @ map (\<lambda>x. mk (Strand_buf (nat x)) (S - x)) (sz # os) \<and>
    sorted_wrt (<) (sz # os) \<and> (\<forall>x \<in> set os. x < S)"
  using assms(6-8)
proof (induction "nat (S - sz)" arbitrary: sz st rule: less_induct)
  case less
  let ?st1 = "refresh E st"
  have "\<not> le_async E (pc_world (li_proc st)) False" using assms(1) unfolding calm_env_def by blast
  then have quiet: "\<not> s_signalled (li_strand ?st1)" and p1: "li_proc ?st1 = li_proc st"
    using less(4) by (simp_all add: refresh_def)
  have w: "wrap32 (S - sz) = S - sz"
    using less(2,3) assms(4) by (intro wrap32_id) auto
  obtain n p' where f: "run_state (func (Strand_buf (nat sz)) (S - sz)) (li_proc st) = (Inr n, p')" "0 < n" "n \<le> S - sz"
      "snd (pc_world p') = snd (pc_world (li_proc st)) @ [mk (Strand_buf (nat sz)) (S - sz)]"
    using func [of "S - sz"] less(3) by fastforce
  let ?st2 = "?st1\<lparr>li_proc := p'\<rparr>"
  have r: "in_proc (func (Strand_buf (nat sz)) (wrap32 (S - sz))) ?st1 = (Inr n, ?st2)"
    using f w p1 by (simp add: in_proc_def)
  have same: "same_but_proc st ?st2"
    by (rule same_but_proc_trans [OF refresh_same in_proc_same [OF r]])
  have step: "rw_loop E f func sz st = rw_loop E f func (sz + n) ?st2"
    using less(3) f(2,3) r quiet assms(2,3,4) by (subst rw_loop.simps) (auto simp: Let_def)
  show ?case
  proof (cases "sz + n < S")
    case True
    have q2: "\<not> s_signalled (li_strand ?st2)" using quiet by simp
    have "nat (S - (sz + n)) < nat (S - sz)" using f(2) less(3) by simp
    from less(1) [OF this _ True q2] f(2) less(2) obtain st' os where ih:
      "rw_loop E f func (sz + n) ?st2 = Inr (S, st')" "same_but_proc ?st2 st'"
      "snd (pc_world (li_proc st')) = snd (pc_world (li_proc ?st2)) @ map (\<lambda>x. mk (Strand_buf (nat x)) (S - x)) ((sz + n) # os)"
      "sorted_wrt (<) ((sz + n) # os)" "\<forall>x \<in> set os. x < S" by auto
    have "sorted_wrt (<) (sz # (sz + n) # os)" using ih(4) f(2) by auto
    with ih step same f(4) True show ?thesis
      by (intro exI [of _ st'] exI [of _ "(sz + n) # os"]) (auto intro: same_but_proc_trans)
  next
    case False
    with f(3) have "sz + n = S" by simp
    moreover have "rw_loop E f func S ?st2 = Inr (S, ?st2)"
      using assms(3) by (subst rw_loop.simps) simp
    ultimately show ?thesis
      using step same f(4) by (intro exI [of _ ?st2] exI [of _ "[]"]) auto
  qed
qed


section \<open>A transfer over TCP\<close>

lemma flowop_connection_ok:
  assumes "pool_inv cfg (lib_pool st) as" and "f = li_flist st ! i" and "i < length (li_flist st)"
    and "conn_id f \<noteq> - 1"
    and "case f_connection f of Some a \<Rightarrow> a \<in> set as | None \<Rightarrow> conn_id f \<in> snd ` set (map (conn_at (po_store (lib_pool st))) as)"
  shows "\<exists>a st1. flowop_connection i st = Some (Inr (Some a, st1)) \<and> a \<in> set as \<and>
    pool_inv cfg (lib_pool st1) as \<and> po_store (lib_pool st1) = po_store (lib_pool st) \<and>
    li_flist st1 = (li_flist st)[i := f\<lparr>f_connection := Some a\<rparr>] \<and> li_proc st1 = li_proc st \<and>
    s_signalled (li_strand st1) = s_signalled (li_strand st)"
proof (cases "f_connection f")
  case (Some a)
  then have "f\<lparr>f_connection := Some a\<rparr> = f" by (cases f) simp
  then have "(li_flist st)[i := f\<lparr>f_connection := Some a\<rparr>] = li_flist st" using assms(2) by simp
  with Some assms show ?thesis by (simp add: flowop_connection_def Let_def)
next
  case None
  obtain r po where r: "strand_get_connection (conn_id f) (lib_pool st) = Some (Inr (r, po))" "pool_inv cfg po as"
      "po_store po = po_store (lib_pool st)"
      "case r of None \<Rightarrow> conn_id f \<notin> snd ` set (map (conn_at (po_store (lib_pool st))) as)
       | Some a \<Rightarrow> (a, conn_id f) \<in> set (map (conn_at (po_store (lib_pool st))) as)"
    using pool_get [OF assms(1,4)] by blast
  with None assms(5) obtain a where a: "r = Some a" by (cases r) auto
  with r(4) have "a \<in> set as" by (auto simp: conn_at_def)
  with None a r assms(2) show ?thesis
    by (simp add: flowop_connection_def Let_def set_flowop_def set_pool_def lib_pool_def)
qed

fun transfer_call :: "flowop_type \<Rightarrow> int \<Rightarrow> buf \<Rightarrow> int \<Rightarrow> syscall" where
  "transfer_call FLOWOP_READ fd b l = Sys_read fd b l"
| "transfer_call FLOWOP_WRITE fd b l = Sys_write fd b l"
| "transfer_call FLOWOP_SEND fd b l = Sys_send fd b l"
| "transfer_call _ fd b l = Sys_recv fd b l"

definition moves_some :: "'w kernel \<Rightarrow> bool" where
  \<comment> \<open>a transfer of a positive number of bytes moves at least one and at most all of them\<close>
  "moves_some k = (\<forall>t fd b l w. 0 < l \<longrightarrow>
     (let n = re_ret (fst (k (transfer_call t fd b l) w)) in 0 < n \<and> n \<le> l))"

definition is_transfer :: "flowop_type \<Rightarrow> bool" where
  "is_transfer t = (t \<in> {FLOWOP_READ, FLOWOP_WRITE, FLOWOP_SEND, FLOWOP_RECV})"

lemma tcp_func:
  assumes "is_transfer t" and "p_type n = PROTOCOL_TCP" and "p_sendrecv n"
    and "le_ops E PROTOCOL_TCP = tcp_ops (traced k) tc" and "fo_poll_timeout fo = 0" and "moves_some k"
  shows "\<exists>func. rw_func E n fo t = Some func \<and>
    (\<forall>b l p. 0 < l \<longrightarrow> (\<exists>m p'. run_state (func b l) p = (Inr m, p') \<and> 0 < m \<and> m \<le> l \<and>
       snd (pc_world p') = snd (pc_world p) @ [transfer_call t (p_fd n) b l]))"
proof -
  have c: "\<exists>m p'. run_state (sysc (traced k) (transfer_call t (p_fd n) b l)) p = (m, p') \<and> 0 < re_ret m \<and> re_ret m \<le> l \<and>
      snd (pc_world p') = snd (pc_world p) @ [transfer_call t (p_fd n) b l]" if "0 < l" for b l p
  proof -
    obtain r w where r: "k (transfer_call t (p_fd n) b l) (fst (pc_world p)) = (r, w)" by fastforce
    have "0 < re_ret r \<and> re_ret r \<le> l"
      using assms(6) [unfolded moves_some_def Let_def, rule_format, OF that, of t "p_fd n" b "fst (pc_world p)"] r by simp
    with r show ?thesis by (simp add: sysc_def traced_def)
  qed
  let ?func = "\<lambda>b l. do { r \<leftarrow> sysc (traced k) (transfer_call t (p_fd n) b l); ret (Inr (re_ret r)) }"
  have fd: "p_fd (base n) = p_fd n" by (simp add: base_def protocol.defs)
  have z: "poll_ms 0 = 0" by (simp add: poll_ms_def fl_div_def)
  from assms(1) consider "t = FLOWOP_READ" | "t = FLOWOP_WRITE" | "t = FLOWOP_SEND" | "t = FLOWOP_RECV"
    by (auto simp: is_transfer_def)
  then have "rw_func E n fo t = Some ?func"
    using assms(2-5) fd z
    by cases (simp_all add: rw_func_def tcp_ops_def generic_read_def generic_write_def generic_send_def generic_recv_def)
  moreover have "\<exists>m p'. run_state (?func b l) p = (Inr m, p') \<and> 0 < m \<and> m \<le> l \<and>
       snd (pc_world p') = snd (pc_world p) @ [transfer_call t (p_fd n) b l]" if "0 < l" for b l p
  proof -
    from c [OF that] obtain m p' where "run_state (sysc (traced k) (transfer_call t (p_fd n) b l)) p = (m, p')"
        "0 < re_ret m" "re_ret m \<le> l" "snd (pc_world p') = snd (pc_world p) @ [transfer_call t (p_fd n) b l]"
      by blast
    then show ?thesis by simp
  qed
  ultimately show ?thesis by blast
qed


section \<open>Connecting over TCP\<close>

lemma tcp_compiled_in: "create_protocol cfg PROTOCOL_TCP h n = Inr (protocol_tcp_create h n)"
    "destroy_protocol cfg PROTOCOL_TCP = Inr Generic_fini" "valid_protocol cfg PROTOCOL_TCP = 1"
  by (simp_all add: create_protocol_def destroy_protocol_def find_protocol_by_type_def plist_def
      protocol_row_create_def valid_protocol_def proto_consts)

lemma forget_connections_pool [simp]: "lib_pool (forget_connections i st) = lib_pool st"
    "li_proc (forget_connections i st) = li_proc st"
  by (simp_all add: forget_connections_def lib_pool_def)

lemma set_pool_simps [simp]: "lib_pool (set_pool po st) = po" "li_proc (set_pool po st) = li_proc st"
    "li_flist (set_pool po st) = li_flist st"
  by (simp_all add: set_pool_def lib_pool_def)

lemma in_proc_simps: "in_proc m st = (x, st') \<Longrightarrow> lib_pool st' = lib_pool st \<and> li_flist st' = li_flist st \<and>
    run_state m (li_proc st) = (x, li_proc st')"
  by (auto simp: in_proc_def lib_pool_def split: prod.splits)

lemma open_connection_fd:
  assumes "pool_inv cfg s as" and "po_store s a = None" and "open_connection a p s = Inr (r, s')"
  shows "\<exists>n. po_store s' a = Some n \<and> base n = p"
proof -
  have "po_cpool s \<noteq> Some a"
  proof
    assume h: "po_cpool s = Some a"
    have d: "dll (po_store s) None as (po_cpool s)" using assms(1) by (simp add: pool_inv_def)
    with h have "a \<in> set as" by (cases as) auto
    with dll_alloc [OF d] assms(2) show False by force
  qed
  with assms(3) show ?thesis
    by (auto simp: open_connection_def strand_add_connection_def set_next_def set_prev_def base_def protocol.defs
        cbind_Inr split: option.splits if_splits)
qed

text \<open>
  C31. A connect flowop over TCP is all or nothing, whatever the kernel answers. It succeeds with
  exactly one new descriptor, held by the connection that was added to the pool under the
  flowop's id, and the flowops from it on look their connection up again; or it fails and
  leaves the pool, the flowops and the open descriptors as they were.
\<close>

theorem connect_all_or_nothing:
  assumes "pool_rep cfg (lib_pool st) cs" and "le_cfg E = cfg" and "f = li_flist st ! i"
    and "fo_protocol (f_options f) = PROTOCOL_TCP" and "le_ops E PROTOCOL_TCP = tcp_ops k tc"
    and "kernel_fds op k" and "0 \<in> op (pc_world (li_proc st))" and "po_store (lib_pool st) (le_new E st) = None"
  shows "\<exists>e st'. flowop_connect E i st = Inr (e, st') \<and>
    (if e = UPERF_SUCCESS then
       pool_rep cfg (lib_pool st') ((le_new E st, conn_id f) # cs) \<and>
       (\<exists>n. po_store (lib_pool st') (le_new E st) = Some n \<and> p_fd n \<notin> op (pc_world (li_proc st)) \<and>
            op (pc_world (li_proc st')) = insert (p_fd n) (op (pc_world (li_proc st)))) \<and>
       (\<forall>g \<in> set (drop i (li_flist st')). f_connection g = None)
     else e = UPERF_FAILURE \<and> lib_pool st' = lib_pool st \<and> li_flist st' = li_flist st \<and>
       op (pc_world (li_proc st')) = op (pc_world (li_proc st)))"
proof -
  let ?fo = "f_options f" and ?w = "pc_world (li_proc st)"
  let ?port = "strand_get_port (li_strand st) (fo_remotehost ?fo) (unat PROTOCOL_TCP)"
  show ?thesis
  proof (cases "?port = - 1")
    case True
    obtain u st' where r: "in_proc (report UPERF_LOG_ERROR 0 (''Cannot lookup host '' @ fo_remotehost ?fo)) st = (u, st')"
      by (metis surj_pair)
    note same = in_proc_simps [OF r]
    have "op (pc_world (li_proc st')) = op ?w" using keepsD [OF fds.on_report] same by blast
    with r same True assms(3,4) show ?thesis by (simp add: flowop_connect_def Let_def)
  next
    case False
    let ?p = "(protocol_tcp_create (fo_remotehost ?fo) ?port)\<lparr>p_conn := conn_id f\<rparr>"
    obtain e p1 st1 where r: "in_proc (protocol_tcp_connect k tc ?p (Some ?fo)) st = ((e, p1), st1)"
      by (metis surj_pair)
    note same = in_proc_simps [OF r]
    have neg: "p_fd ?p < 0" by (simp add: protocol_tcp_create_def)
    have own: "owns op p1 (li_proc st) (li_proc st1)" "p1 = ?p\<lparr>p_fd := p_fd p1\<rparr>"
        "e = UPERF_SUCCESS \<and> 0 \<le> p_fd p1 \<or> e = UPERF_FAILURE"
      using tcp_connect_owns [OF assms(6) neg, of tc "Some ?fo" "li_proc st" e p1 "li_proc st1"] same by blast+
    obtain fd where p1: "p1 = ?p\<lparr>p_fd := fd\<rparr>" using own(2) by blast
    have ty: "p_type ?p = PROTOCOL_TCP" "p_type p1 = PROTOCOL_TCP" "p_conn p1 = conn_id f"
      unfolding p1 by (simp_all add: protocol_tcp_create_def)
    have ops: "op_connect (le_ops E PROTOCOL_TCP) q fo = protocol_tcp_connect k tc q (Some fo)"
        "op_fini (le_ops E PROTOCOL_TCP) q = generic_fini k q" for q fo
      by (simp_all add: assms(5) tcp_ops_def)
    have ty0: "p_type (protocol_tcp_create (fo_remotehost ?fo) ?port) = PROTOCOL_TCP"
      by (simp add: protocol_tcp_create_def)
    have small: "\<not> NUM_PROTOCOLS \<le> unat PROTOCOL_TCP" by (simp add: NUM_PROTOCOLS_def PROTOCOL_TCP_def)
    have unf: "flowop_connect E i st =
        (if e = UPERF_SUCCESS then
           cbind (open_connection (le_new E st) p1 (lib_pool st1)) (\<lambda>(_, po).
             Inr (e, forget_connections i (set_pool po st1)))
         else Inr (e, snd (in_proc (generic_fini k p1) st1)))"
      using False assms(3,4) r ty ty0 ops
      by (simp add: flowop_connect_def Let_def tcp_compiled_in small)
    show ?thesis
    proof (cases "e = UPERF_SUCCESS")
      case True
      obtain as where as: "pool_inv cfg (lib_pool st) as" "cs = map (conn_at (po_store (lib_pool st))) as"
        using assms(1) by (auto simp: pool_rep_def)
      have v: "valid_protocol cfg (p_type p1) = 1" using ty tcp_compiled_in by simp
      obtain po where po: "open_connection (le_new E st) p1 (lib_pool st) = Inr (0, po)"
          "pool_rep cfg po ((le_new E st, p_conn p1) # cs)"
        using strand_pool.add_rep [OF assms(1,8) v] by blast
      obtain n where n: "po_store po (le_new E st) = Some n" "base n = p1"
        using open_connection_fd [OF as(1) assms(8) po(1)] by blast
      have "p_fd n = p_fd p1" using n(2) by (auto simp: base_def protocol.defs)
      moreover have "0 \<le> p_fd p1" using own(3) True by simp
      moreover have "f_connection g = None" if "g \<in> set (drop i (li_flist (forget_connections i (set_pool po st1))))" for g
        using that same by (cases "i < length (li_flist st)") (auto simp: forget_connections_def)
      ultimately show ?thesis
        using True po n own(1) ty same by (auto simp: unf owns_def)
    next
      case False
      then have e: "e = UPERF_FAILURE" using own(3) by simp
      obtain u st2 where r2: "in_proc (generic_fini k p1) st1 = (u, st2)" by (metis surj_pair)
      note same2 = in_proc_simps [OF r2]
      have "op (pc_world (li_proc st2)) = op ?w"
        using fini_closes [OF assms(6) own(1) assms(7)] same2 by blast
      with e r2 same same2 show ?thesis by (simp add: unf)
    qed
  qed
qed

section \<open>Disconnecting\<close>

lemma dll_update:
  assumes "dll h pv as fst_ptr" and "h a = Some n" and "p_next n' = p_next n" and "p_prev n' = p_prev n"
  shows "dll (h(a \<mapsto> n')) pv as fst_ptr"
  using assms(1)
proof (induction as arbitrary: pv fst_ptr)
  case (Cons b bs)
  then obtain m where "fst_ptr = Some b" "h b = Some m" "p_prev m = pv" "dll h (Some b) bs (p_next m)" by auto
  with Cons.IH assms(2-4) show ?case by (cases "b = a") auto
qed simp

lemma pool_inv_update:
  assumes "pool_inv cfg s as" and "po_store s a = Some n" and "p_next n' = p_next n" and "p_prev n' = p_prev n"
    and "p_conn n' = p_conn n" and "p_type n' = p_type n"
  shows "pool_inv cfg (s\<lparr>po_store := (po_store s)(a \<mapsto> n')\<rparr>) as \<and>
    conn_at ((po_store s)(a \<mapsto> n')) = conn_at (po_store s)"
proof -
  have d: "dll ((po_store s)(a \<mapsto> n')) None as (po_cpool s)"
    using assms by (intro dll_update) (auto simp: pool_inv_def)
  have dom: "dom ((po_store s)(a \<mapsto> n')) = set as" using assms(1,2) by (auto simp: pool_inv_def)
  have ty: "valid_protocol cfg (p_type m) = 1" if "c \<in> set as" "((po_store s)(a \<mapsto> n')) c = Some m" for c m
  proof (cases "c = a")
    case True
    then have "p_type m = p_type n" "po_store s c = Some n" using that(2) assms(2,6) by auto
    with assms(1) that(1) show ?thesis by (auto simp: pool_inv_def)
  next
    case False
    with that assms(1) show ?thesis by (auto simp: pool_inv_def)
  qed
  have "conn_at ((po_store s)(a \<mapsto> n')) = conn_at (po_store s)"
    using assms(2,5) by (auto simp: conn_at_def fun_eq_iff)
  moreover have "pool_inv cfg (s\<lparr>po_store := (po_store s)(a \<mapsto> n')\<rparr>) as"
    using assms(1) d dom ty by (simp add: pool_inv_def)
  ultimately show ?thesis by blast
qed

lemma unlink_gone: "unlink_conn cfg a s = Inr s' \<Longrightarrow> po_store s' a = None"
  by (auto simp: unlink_conn_def cbind_Inr split: option.splits)

lemma tcp_disconnect:
  assumes inv: "pool_inv cfg (lib_pool st) as" and dist: "distinct (map snd (map (conn_at (po_store (lib_pool st))) as))"
    and f: "f = li_flist st ! i" and i: "conn_id f \<noteq> - 1" and a: "a \<in> set as" "snd (conn_at (po_store (lib_pool st)) a) = conn_id f"
    and tcp: "\<forall>a n. po_store (lib_pool st) a = Some n \<longrightarrow> p_type n = PROTOCOL_TCP"
    and E: "le_cfg E = cfg" "le_ops E PROTOCOL_TCP = tcp_ops k tc"
  shows "\<exists>st'. flowop_disconnect E i st = Some (Inr (UPERF_SUCCESS, st')) \<and>
    li_flist st' = take i (li_flist st) @ map (\<lambda>f. f\<lparr>f_connection := None\<rparr>) (drop i (li_flist st)) \<and>
    pool_rep cfg (lib_pool st') (remove_first (conn_id f) (map (conn_at (po_store (lib_pool st))) as)) \<and>
    po_store (lib_pool st') a = None"
proof -
  let ?c = "conn_at (po_store (lib_pool st))" and ?i = "conn_id f"
  obtain r po where r: "strand_get_connection ?i (lib_pool st) = Some (Inr (r, po))" "pool_inv cfg po as"
      "po_store po = po_store (lib_pool st)"
      "case r of None \<Rightarrow> ?i \<notin> snd ` set (map ?c as) | Some b \<Rightarrow> (b, ?i) \<in> set (map ?c as)"
    using pool_get [OF inv i] by blast
  have "?i \<in> snd ` set (map ?c as)" using a by force
  with r(4) obtain b where b: "r = Some b" "(b, ?i) \<in> set (map ?c as)" by (cases r) auto
  then have b': "b \<in> set as" "snd (?c b) = ?i" by (auto simp: conn_at_def)
  have "inj_on (snd \<circ> ?c) (set as)" using dist by (simp add: distinct_map)
  with a b' have ab: "b = a" by (auto simp: inj_on_def)
  obtain n where n: "po_store (lib_pool st) a = Some n"
    using a(1) inv by (auto simp: pool_inv_def dest!: set_mp [OF equalityD2])
  have ty: "p_type n = PROTOCOL_TCP" using tcp n by blast
  obtain e p st2 where d: "in_proc (generic_disconnect k (base n)) (set_pool po st) = ((e, p), st2)"
    by (metis surj_pair)
  have ep: "e = UPERF_SUCCESS" "\<exists>fd. p = (base n)\<lparr>p_fd := fd\<rparr>"
  proof -
    have "e = UPERF_SUCCESS \<and> (p = (base n)\<lparr>p_fd := - 1\<rparr> \<or> p = base n)"
      using d by (auto simp: in_proc_def generic_disconnect_def split: prod.splits if_splits)
    moreover have "base n = (base n)\<lparr>p_fd := p_fd (base n)\<rparr>" by simp
    ultimately show "e = UPERF_SUCCESS" "\<exists>fd. p = (base n)\<lparr>p_fd := fd\<rparr>" by metis+
  qed
  then obtain fd where p: "p = (base n)\<lparr>p_fd := fd\<rparr>" by blast
  let ?n' = "protocol.extend p (protocol.more n)"
  let ?po2 = "po\<lparr>po_store := (po_store po)(a \<mapsto> ?n')\<rparr>"
  have n': "p_next ?n' = p_next n" "p_prev ?n' = p_prev n" "p_conn ?n' = p_conn n" "p_type ?n' = p_type n"
    unfolding p by (cases n; simp add: base_def protocol.defs)+
  from pool_inv_update [OF r(2) _ n'] n r(3)
  have inv2: "pool_inv cfg ?po2 as" and c2: "conn_at (po_store ?po2) = ?c" by auto
  have d2: "dll (po_store ?po2) None as (po_cpool ?po2)" using inv2 by (simp add: pool_inv_def)
  note fc = find_conn_dll [OF d2, of ?i]
  obtain po3 as' where po3: "strand_delete_connection cfg ?i ?po2 = Some (Inr (if ?i \<in> snd ` set (map (conn_at (po_store ?po2)) as) then 0 else 1, po3))"
      "pool_inv cfg po3 as'" "map (conn_at (po_store po3)) as' = remove_first ?i (map (conn_at (po_store ?po2)) as)"
    using pool_del [OF inv2] by blast
  have rep: "pool_rep cfg po3 (remove_first ?i (map ?c as))"
    using po3 c2 by (auto simp: pool_rep_def)
  have "find (\<lambda>c. snd c = ?i) (map (conn_at (po_store ?po2)) as) = Some (?c a)"
  proof -
    obtain c where c: "find (\<lambda>c. snd c = ?i) (map ?c as) = Some c"
      using a by (cases "find (\<lambda>c. snd c = ?i) (map ?c as)") (auto simp: find_None)
    then have "c \<in> set (map ?c as)" "snd c = ?i" by (auto dest: find_Some_in_set)
    then obtain d where "d \<in> set as" "c = ?c d" "snd (?c d) = ?i" by auto
    then have "c = ?c a" using a \<open>inj_on (snd \<circ> ?c) (set as)\<close> by (auto simp: inj_on_def)
    with c c2 show ?thesis by simp
  qed
  then have victim: "find_conn (po_store ?po2) ?i (po_cpool ?po2) = Some (Inr (Some a))"
    using fc by (simp add: conn_at_def)
  have gone: "po_store po3 a = None"
    using po3(1) victim by (auto simp: strand_delete_connection_def cbind_Inr dest: unlink_gone)
  have ops: "op_disconnect (le_ops E PROTOCOL_TCP) = generic_disconnect k"
      "op_fini (le_ops E PROTOCOL_TCP) = generic_fini k"
    by (simp_all add: E(2) tcp_ops_def)
  obtain u st4 where fin: "in_proc (generic_fini k (base ?n')) (set_pool po3 st2) = (u, st4)" by (metis surj_pair)
  note s2 = in_proc_simps [OF d] and s4 = in_proc_simps [OF fin]
  have "flowop_disconnect E i st = Some (Inr (e, forget_connections i st4))"
    using r(1,3) b ab n d po3(1) victim ops ty n'(4) fin E(1) f
    by (simp add: flowop_disconnect_def Let_def)
  then show ?thesis
    using ep(1) rep gone s2 s4 by (auto simp: forget_connections_def lib_pool_def set_pool_def)
qed

text \<open>
  C36. After a disconnect the flowops from it on look their connection up again, but a flowop
  before it in the transaction that used the connection keeps its pointer: when the
  transaction is repeated, it reads or writes through the freed object.
\<close>

theorem freed_connection_used:
  assumes "pool_inv cfg (lib_pool st) as" and "distinct (map snd (map (conn_at (po_store (lib_pool st))) as))"
    and "i < length (li_flist st)" and "j < i"
    and "conn_id (li_flist st ! i) \<noteq> - 1" and "a \<in> set as"
    and "snd (conn_at (po_store (lib_pool st)) a) = conn_id (li_flist st ! i)"
    and "f_connection (li_flist st ! j) = Some a"
    and "\<forall>a n. po_store (lib_pool st) a = Some n \<longrightarrow> p_type n = PROTOCOL_TCP"
    and "le_cfg E = cfg" and "le_ops E PROTOCOL_TCP = tcp_ops k tc"
  shows "\<exists>st'. flowop_disconnect E i st = Some (Inr (UPERF_SUCCESS, st')) \<and>
    (\<forall>m < length (li_flist st). i \<le> m \<longrightarrow> f_connection (li_flist st' ! m) = None) \<and>
    flowop_rw E j st' = Some (Inl Undefined)"
proof -
  obtain st' where s: "flowop_disconnect E i st = Some (Inr (UPERF_SUCCESS, st'))"
      "li_flist st' = take i (li_flist st) @ map (\<lambda>f. f\<lparr>f_connection := None\<rparr>) (drop i (li_flist st))"
      "po_store (lib_pool st') a = None"
    using tcp_disconnect [OF assms(1,2) refl assms(5,6,7,9,10,11)] by blast
  have "li_flist st' ! j = li_flist st ! j" using s(2) assms(3,4) by (simp add: nth_append)
  then have "flowop_rw E j st' = Some (Inl Undefined)"
    using assms(8) s(3) by (simp add: flowop_rw_def flowop_connection_def Let_def)
  moreover have "f_connection (li_flist st' ! m) = None" if "m < length (li_flist st)" "i \<le> m" for m
    using s(2) assms(3) that by (simp add: nth_append)
  ultimately show ?thesis using s(1) by blast
qed

section \<open>Accepting\<close>

lemma find_conn_self_loop:
  assumes "h a = Some n" and "p_next n = Some a" and "p_conn n \<noteq> j"
  shows "find_conn h j (Some a) = None"
proof (rule ccontr)
  let ?P = "\<lambda>(h' :: pstore) j' (q :: nat option) (y :: c_stop + nat option).
    q = Some a \<longrightarrow> \<not> (\<exists>n. h' a = Some n \<and> p_next n = Some a \<and> p_conn n \<noteq> j')"
  assume "find_conn h j (Some a) \<noteq> None"
  then obtain y where y: "find_conn h j (Some a) = Some y" by blast
  have "?P h j (Some a) y"
  proof (rule find_conn.raw_induct [of ?P, OF _ y])
    fix f h j q y
    assume ih: "\<And>h j q y. f h j q = Some y \<Longrightarrow> ?P h j q y"
      and step: "(case q of None \<Rightarrow> Some (Inr None)
        | Some a \<Rightarrow> (case h a of None \<Rightarrow> Some (Inl Undefined)
            | Some n \<Rightarrow> if p_conn n = j then Some (Inr (Some a)) else f h j (p_next n))) = Some y"
    show "?P h j q y"
    proof (intro impI notI)
      assume "q = Some a" and "\<exists>n. h a = Some n \<and> p_next n = Some a \<and> p_conn n \<noteq> j"
      then obtain n where n: "h a = Some n" "p_next n = Some a" "p_conn n \<noteq> j" "q = Some a" by blast
      with step have "f h j (Some a) = Some y" by simp
      from ih [OF this] n show False by blast
    qed
  qed
  with assms show False by blast
qed


section \<open>Random sizes and waiting\<close>

text \<open>A random size lies within its bounds, and each size within them can come up.\<close>

lemma random_size_in_bounds:
  assumes "x \<le> y" and "unat y - unat x < 2 ^ 32 - 1"
  shows "\<exists>v. my_random r x y = Inr v \<and> x \<le> v \<and> v \<le> y"
proof -
  have u: "unat (y - x) = unat y - unat x" using assms(1) by (simp add: unat_sub)
  then have r: "unat (y - x + 1) = unat y - unat x + 1"
    using assms(2) by (simp add: unat_word_ariths)
  let ?v = "min (unat x + r mod (unat y - unat x + 1)) (unat y)"
  have "?v < 2 ^ 32" proof -
    have "unat y < 2 ^ 32" using unsigned_less [of y] by simp
    then show ?thesis by linarith
  qed
  then have "unat (of_nat ?v :: u32) = ?v" by (simp add: unat_of_nat)
  then show ?thesis
    using r assms(1) by (auto simp: my_random_def word_le_nat_alt)
qed

lemma spin_ends:
  assumes "clk w = (t, w1)" and "\<not> t - start < d"
  shows "uperf_spin clk start d w = Some (0, w1)"
  using assms by (subst uperf_spin.simps) simp

text \<open>A sleep that is interrupted reports success, as a positive number.\<close>

lemma sleep_error_positive:
  assumes "re_ret (fst (sl d (pc_world p))) = - 1" and "re_errno (fst (sl d (pc_world p))) = e"
  shows "fst (run_state (uperf_sleep sl d) p) = e"
  using assms by (auto simp: uperf_sleep_def sysc_def get_errno_def report_def split: prod.splits)


text \<open>A transfer returns -1, or at least its size, or (random sizes) what the first call moved.\<close>

lemma flowop_rw_all_or_nothing:
  assumes "flowop_rw E i st = Some (Inr (n, st'))"
  shows "n = - 1 \<or> uint (fo_size (f_options (li_flist st' ! i))) \<le> n \<or>
    fo_is O_SIZE_RAND (f_options (li_flist st' ! i)) \<and> 0 < n"
proof (cases "n = - 1")
  case False
  from assms obtain c st1 where c: "flowop_connection i st = Some (Inr (c, st1))"
    by (auto simp: flowop_rw_def obind_def split: option.splits sum.splits)
  with assms False obtain a where a: "c = Some a" by (cases c) (auto simp: flowop_rw_def)
  with assms c obtain m where m: "po_store (lib_pool st1) a = Some m"
    by (cases "po_store (lib_pool st1) a") (auto simp: flowop_rw_def)
  with assms c a obtain st2 where s2: "rw_size E i st1 = Inr st2"
    by (cases "rw_size E i st1") (auto simp: flowop_rw_def)
  let ?f = "li_flist st2 ! i"
  from assms c a m s2 False obtain func where func: "rw_func E m (f_options ?f) (f_type ?f) = Some func"
    by (cases "rw_func E m (f_options ?f) (f_type ?f)") (auto simp: flowop_rw_def Let_def)
  with assms c a m s2 have "rw_loop E ?f func 0 st2 = Inr (n, st')"
    by (auto simp: flowop_rw_def Let_def split: if_splits)
  from rw_loop_result [OF this] False show ?thesis by (auto simp: same_but_proc_def)
qed simp

section \<open>Witnesses\<close>

definition lab_strand :: strand where
  \<comment> \<open>connected to the host \<open>h\<close>, whose TCP port is 5000\<close>
  "lab_strand = zero_strand\<lparr>s_slaves := [\<lparr>si_host = ''h'', si_port = replicate NUM_PROTOCOLS 5000\<rparr>]\<rparr>"

definition lab_flowop :: "flowop_type \<Rightarrow> flowop" where
  "lab_flowop t = zero_flowop\<lparr>f_type := t, f_p_id := 7, f_name := ''op'',
     f_options := zero_options\<lparr>fo_size := 100, fo_protocol := PROTOCOL_TCP, fo_remotehost := ''h'', fo_count := 1\<rparr>\<rparr>"

definition lab_env :: "'w kernel \<Rightarrow> 'w libenv" where
  "lab_env k = \<lparr>le_cfg = tcp_only, le_ops = (\<lambda>_. tcp_ops k no_tcp_options), le_rand = (\<lambda>w. (0, w)), le_new = (\<lambda>_. 1),
     le_listener = (\<lambda>_. 2), le_async = (\<lambda>_ b. b), le_clock = (\<lambda>w. (0, w)),
     le_nanosleep = (\<lambda>_ w. (\<lparr>re_ret = 0, re_errno = 0, re_addrs = [], re_val = 0, re_data = [], re_vm = (0, 0), re_lens = []\<rparr>, w)),
     le_sendfile = (\<lambda>_ _ _ n p. (uint n, p)), le_sfv = []\<rparr>"

definition lab_node :: pnode where
  "lab_node = protocol.extend ((protocol_tcp_create ''h'' 5000)\<lparr>p_conn := 7, p_fd := 3\<rparr>) \<lparr>p_next = None, p_prev = None\<rparr>"

definition lab_pool :: pool where
  "lab_pool = empty_pool\<lparr>po_store := [1 \<mapsto> lab_node], po_cpool := Some 1\<rparr>"

definition lab_lib :: "flowop list \<Rightarrow> pool \<Rightarrow> 'w \<Rightarrow> 'w lib" where
  "lab_lib fs po w = \<lparr>li_flist = fs, li_strand = lab_strand\<lparr>s_pool := po\<rparr>,
     li_proc = \<lparr>pc_errno = 0, pc_log = [], pc_world = w\<rparr>\<rparr>"

lemma lab_pool_inv: "pool_inv tcp_only lab_pool [1]"
  by (auto simp: pool_inv_def lab_pool_def lab_node_def empty_pool_def STRAND_CONNECTION_CACHE_SIZE_def protocol.defs
      protocol_tcp_create_def tcp_only_def valid_protocol_iff plist_def)

lemma lab_conn: "map (conn_at (po_store lab_pool)) [1] = [(1, 7)]"
  by (simp add: conn_at_def lab_pool_def lab_node_def protocol.defs)

lemma lab_lib_simps [simp]:
  "lib_pool (lab_lib fs po w) = po" "li_flist (lab_lib fs po w) = fs" "pc_world (li_proc (lab_lib fs po w)) = w"
  "s_signalled (li_strand (lab_lib fs po w)) = False" "li_strand (lab_lib fs po w) = lab_strand\<lparr>s_pool := po\<rparr>"
  by (simp_all add: lab_lib_def lib_pool_def lab_strand_def zero_strand_def)

lemma lab_flowop_simps [simp]:
  "conn_id (lab_flowop t) = 7" "f_type (lab_flowop t) = t" "f_connection (lab_flowop t) = None"
  "fo_protocol (f_options (lab_flowop t)) = PROTOCOL_TCP" "fo_size (f_options (lab_flowop t)) = 100"
  "fo_poll_timeout (f_options (lab_flowop t)) = 0" "\<not> fo_is O_SIZE_RAND (f_options (lab_flowop t))"
  by (simp_all add: lab_flowop_def conn_id_def zero_flowop_def zero_options_def fo_is_def)

lemma lab_tcp: "po_store lab_pool a = Some n \<Longrightarrow> p_type n = PROTOCOL_TCP \<and> p_sendrecv n"
  by (auto simp: lab_pool_def lab_node_def protocol.defs protocol_tcp_create_def split: if_splits)

lemma lab_conn1: "conn_at (po_store lab_pool) (Suc 0) = (Suc 0, 7)"
  using lab_conn by simp

lemma lab_moves: "moves_some lab_kernel"
  unfolding moves_some_def Let_def
proof (intro allI impI)
  fix t fd b l and w :: "int list"
  assume "(0 :: int) < l"
  then show "0 < re_ret (fst (lab_kernel (transfer_call t fd b l) w)) \<and> re_ret (fst (lab_kernel (transfer_call t fd b l) w)) \<le> l"
    by (cases t) (simp_all add: lab_kernel_def)
qed

lemma lab_calm: "calm_env (lab_env k)"
  by (simp add: calm_env_def lab_env_def)

lemma lab_ops: "le_ops (lab_env k) PROTOCOL_TCP = tcp_ops k no_tcp_options" "le_cfg (lab_env k) = tcp_only" "le_new (lab_env k) st = 1"
  by (simp_all add: lab_env_def)


lemma empty_store: "po_store empty_pool a = None"
  by (simp add: empty_pool_def)

lemma connect_all_or_nothing_witness:
  "\<exists>st'. flowop_connect (lab_env lab_kernel) 0 (lab_lib [lab_flowop FLOWOP_CONNECT] empty_pool [0, 1, 2]) = Inr (0, st') \<and>
     pool_rep tcp_only (lib_pool st') [(1, 7)]"
proof -
  let ?st = "lab_lib [lab_flowop FLOWOP_CONNECT] empty_pool [0, 1, 2] :: int list lib"
  let ?fo = "f_options (lab_flowop FLOWOP_CONNECT)"
  let ?p = "(protocol_tcp_create ''h'' 5000)\<lparr>p_conn := 7\<rparr>"
  let ?m = "protocol_tcp_connect lab_kernel no_tcp_options ?p (Some ?fo)"
  have v: "fst (run_state ?m lab_proc) = (0, ?p\<lparr>p_fd := 3\<rparr>)" by code_simp
  then obtain pr where r: "run_state ?m lab_proc = ((0, ?p\<lparr>p_fd := 3\<rparr>), pr)" by (metis surj_pair fst_conv)
  have port: "strand_get_port (li_strand ?st) (fo_remotehost ?fo) (unat (fo_protocol ?fo)) = 5000"
    by (simp add: strand_get_port_def lab_strand_def lab_flowop_def NUM_PROTOCOLS_def PROTOCOL_TCP_def)
  have small: "\<not> NUM_PROTOCOLS \<le> unat PROTOCOL_TCP" by (simp add: NUM_PROTOCOLS_def PROTOCOL_TCP_def)
  have host: "fo_remotehost ?fo = ''h''" by (simp add: lab_flowop_def)
  have proc: "li_proc ?st = lab_proc" by (simp add: lab_lib_def lab_proc_def)
  have inp: "in_proc ?m ?st = ((0, ?p\<lparr>p_fd := 3\<rparr>), ?st\<lparr>li_proc := pr\<rparr>)"
    using r by (simp add: in_proc_def proc)
  have ops: "op_connect (le_ops (lab_env lab_kernel) t) q fo = protocol_tcp_connect lab_kernel no_tcp_options q (Some fo)" for t q fo
    by (simp add: lab_env_def tcp_ops_def)
  have "\<exists>po. open_connection 1 (?p\<lparr>p_fd := 3\<rparr>) (lib_pool (?st\<lparr>li_proc := pr\<rparr>)) = Inr (0, po)"
    by (simp add: lib_pool_def open_connection_def strand_add_connection_def set_next_def set_prev_def empty_pool_def)
  then have e: "\<exists>st'. flowop_connect (lab_env lab_kernel) 0 ?st = Inr (0, st')"
    using port host inp small by (auto simp: flowop_connect_def Let_def lab_ops ops tcp_compiled_in cbind_Inr)
  have "\<exists>e st'. flowop_connect (lab_env lab_kernel) 0 ?st = Inr (e, st') \<and>
    (if e = UPERF_SUCCESS then
       pool_rep tcp_only (lib_pool st') [(le_new (lab_env lab_kernel) ?st, conn_id (lab_flowop FLOWOP_CONNECT))] \<and>
       (\<exists>n. po_store (lib_pool st') (le_new (lab_env lab_kernel) ?st) = Some n \<and> p_fd n \<notin> set (pc_world (li_proc ?st)) \<and>
            set (pc_world (li_proc st')) = insert (p_fd n) (set (pc_world (li_proc ?st)))) \<and>
       (\<forall>g \<in> set (drop 0 (li_flist st')). f_connection g = None)
     else e = UPERF_FAILURE \<and> lib_pool st' = lib_pool ?st \<and> li_flist st' = li_flist ?st \<and>
       set (pc_world (li_proc st')) = set (pc_world (li_proc ?st)))"
    by (rule connect_all_or_nothing [where k = lab_kernel and tc = no_tcp_options])
      (simp_all add: empty_pool_rep lab_ops lab_kernel_fds empty_store)
  with e show ?thesis by (auto simp: lab_ops)
qed

lemma freed_connection_used_witness:
  "\<exists>st'. flowop_disconnect (lab_env lab_kernel) 1
       (lab_lib [(lab_flowop FLOWOP_WRITE)\<lparr>f_connection := Some 1\<rparr>, lab_flowop FLOWOP_DISCONNECT] lab_pool [0, 1, 2, 3])
       = Some (Inr (0, st')) \<and>
     flowop_rw (lab_env lab_kernel) 0 st' = Some (Inl Undefined)"
  using freed_connection_used [where st = "lab_lib [(lab_flowop FLOWOP_WRITE)\<lparr>f_connection := Some 1\<rparr>, lab_flowop FLOWOP_DISCONNECT]
       lab_pool [0, 1, 2, 3]" and cfg = tcp_only and as = "[1]" and i = 1 and j = 0 and a = 1 and E = "lab_env lab_kernel"
       and k = lab_kernel and tc = no_tcp_options]
    lab_pool_inv lab_tcp lab_ops
  by (fastforce simp: lab_conn1)

definition udp_lab_env :: "int list libenv" where
  "udp_lab_env = (lab_env lab_kernel)\<lparr>le_ops := (\<lambda>_. (tcp_ops lab_kernel no_tcp_options)
     \<lparr>op_accept := (\<lambda>p _. ret (Some (Same_object p)))\<rparr>)\<rparr>"

definition udp_lab_lib :: "int list lib" where
  "udp_lab_lib = (lab_lib [(lab_flowop FLOWOP_ACCEPT)\<lparr>f_options := zero_options\<lparr>fo_protocol := PROTOCOL_UDP\<rparr>, f_p_id := 1\<rparr>,
       (lab_flowop FLOWOP_ACCEPT)\<lparr>f_options := zero_options\<lparr>fo_protocol := PROTOCOL_UDP\<rparr>, f_p_id := 2\<rparr>] empty_pool [0, 1, 2])
     \<lparr>li_strand := lab_strand\<lparr>s_listen := (replicate NUM_PROTOCOLS None)[3 := Some (protocol_udp_create [] 0)]\<rparr>\<rparr>"


end
