(* ===== verification/Handshake.thy ===== *)
theory Handshake
  imports Workxfer Shm
begin

text \<open>
  The handshake between the master and a slave (\<open>src/handshake.c\<close>) and the parts of
  \<open>src/common.c\<close> it uses. Phase 1 checks magic, version and protocols; in phase 2 the
  master sends the work order and each side tells the other the ports its strands listen
  on; a last exchange lets both start. Each side is a function of the bytes it will receive
  (its \<^typ>\<open>chan\<close>), so the two are composed by feeding one's output to the other.
\<close>

section \<open>Listening ports\<close>

text \<open>
  \<open>lsn i fo p\<close> is the protocol's \<open>listen\<close> for strand \<open>i\<close>: the port or a failure, and the
  object afterwards. A strand's \<open>listen_conn\<close> and a slave's \<open>port\<close> array have
  \<open>NUM_PROTOCOLS\<close> entries.
\<close>

type_synonym listener = "nat \<Rightarrow> flowop_options \<Rightarrow> protocol \<Rightarrow> int \<times> protocol"

definition sl_set_port :: "nat \<Rightarrow> nat \<Rightarrow> int \<Rightarrow> slave_info list \<Rightarrow> slave_info list" where
  "sl_set_port i protocol port sl =
     sl[i := (sl ! i)\<lparr>si_port := (si_port (sl ! i))[protocol := to_u32 port]\<rparr>]"

definition set_listen_conn :: "nat \<Rightarrow> nat \<Rightarrow> protocol \<Rightarrow> shm \<Rightarrow> c_stop + shm" where
  "set_listen_conn i protocol p shm =
     cbind (shm_get_strand shm i) (\<lambda>s.
       Inr (shm_set_strand i (s\<lparr>s_listen := (s_listen s)[protocol := Some p]\<rparr>) shm))"

fun share_port :: "nat \<Rightarrow> nat \<Rightarrow> nat \<Rightarrow> nat \<Rightarrow> protocol \<Rightarrow> slave_info list \<Rightarrow> shm \<Rightarrow> c_stop + slave_info list \<times> shm" where
  \<comment> \<open>one listening socket for all strands of the group\<close>
  "share_port 0 i ssid protocol p sl shm = Inr (sl, shm)"
| "share_port (Suc n) i ssid protocol p sl shm =
     cbind (set_listen_conn (i + ssid) protocol p shm) (\<lambda>shm1.
       share_port n (i + 1) ssid protocol p
         (sl_set_port i protocol (sint (si_port (sl ! 0) ! protocol)) sl) shm1)"

fun port_per_strand ::
  "build_config \<Rightarrow> listener \<Rightarrow> nat \<Rightarrow> nat \<Rightarrow> nat \<Rightarrow> flowop_options \<Rightarrow> slave_info list \<Rightarrow> shm \<Rightarrow>
     c_stop + int \<times> slave_info list \<times> shm" where
  "port_per_strand cfg lsn 0 i ssid fo sl shm = Inr (UPERF_SUCCESS, sl, shm)"
| "port_per_strand cfg lsn (Suc n) i ssid fo sl shm =
     cbind (shm_get_strand shm (i + ssid)) (\<lambda>_.
     cbind (create_protocol cfg (fo_protocol fo) '' '' 0) (\<lambda>p.
       let (port, p1) = lsn (i + ssid) fo p;
           sl1 = sl_set_port i (unat (fo_protocol fo)) port sl
       in if port = UPERF_FAILURE then Inr (UPERF_FAILURE, sl1, shm)
          else cbind (set_listen_conn (i + ssid) (unat (fo_protocol fo)) p1 shm) (\<lambda>shm1.
                 port_per_strand cfg lsn n (i + 1) ssid fo sl1 shm1)))"

definition create_protocols ::
  "build_config \<Rightarrow> listener \<Rightarrow> nat \<Rightarrow> flowop \<Rightarrow> slave_info list \<Rightarrow> nat \<Rightarrow> shm \<Rightarrow>
     c_stop + int \<times> slave_info list \<times> shm" where
  "create_protocols cfg lsn nthr f sl ssid shm =
     (let fo = f_options f; protocol = unat (fo_protocol fo) in
      if sl = [] \<or> protocol \<ge> NUM_PROTOCOLS then Inl Undefined
      else if sint (si_port (sl ! 0) ! protocol) > 0 then Inr (UPERF_SUCCESS, sl, shm)
      else if fo_port fo \<noteq> 0 then
        cbind (create_protocol cfg (fo_protocol fo) '' '' (uint (fo_port fo) mod 65536)) (\<lambda>p.
          let (port, p1) = lsn ssid fo p; sl1 = sl_set_port 0 protocol port sl in
          if port \<le> 0 then Inr (UPERF_FAILURE, sl1, shm)
          else cbind (share_port nthr 0 ssid protocol p1 sl1 shm) (\<lambda>(sl2, shm1).
                 Inr (UPERF_SUCCESS, sl2, shm1)))
      else port_per_strand cfg lsn nthr 0 ssid fo sl shm)"

fun accepts_flowops ::
  "build_config \<Rightarrow> listener \<Rightarrow> u32 \<Rightarrow> nat \<Rightarrow> flowop list \<Rightarrow> int \<times> slave_info list option \<times> shm \<Rightarrow>
     c_stop + int \<times> slave_info list option \<times> shm" where
  "accepts_flowops cfg lsn nthr ssid [] st = Inr st"
| "accepts_flowops cfg lsn nthr ssid (f # fs) (status, sl, shm) =
     (if status \<noteq> UPERF_SUCCESS then Inr (status, sl, shm)
      else if f_type f = FLOWOP_ACCEPT then
        (let sl1 = (case sl of None \<Rightarrow> replicate (unat nthr) zero_slave_info | Some x \<Rightarrow> x) in
         cbind (create_protocols cfg lsn (unat nthr) f sl1 ssid shm) (\<lambda>(status', sl2, shm1).
           accepts_flowops cfg lsn nthr ssid fs
             (status', Some sl2, shm1\<lparr>sh_tx_no_slave_info := nthr\<rparr>)))
      else accepts_flowops cfg lsn nthr ssid fs (status, sl, shm))"

fun accepts_txns ::
  "build_config \<Rightarrow> listener \<Rightarrow> u32 \<Rightarrow> nat \<Rightarrow> txn list \<Rightarrow> int \<times> slave_info list option \<times> shm \<Rightarrow>
     c_stop + int \<times> slave_info list option \<times> shm" where
  "accepts_txns cfg lsn nthr ssid [] st = Inr st"
| "accepts_txns cfg lsn nthr ssid (t # ts) (status, sl, shm) =
     (if status \<noteq> UPERF_SUCCESS then Inr (status, sl, shm)
      else cbind (accepts_flowops cfg lsn nthr ssid (t_flist t) (status, sl, shm))
             (accepts_txns cfg lsn nthr ssid ts))"

definition preprocess_accepts ::
  "build_config \<Rightarrow> listener \<Rightarrow> group \<Rightarrow> nat \<Rightarrow> shm \<Rightarrow> c_stop + int \<times> slave_info list option \<times> shm" where
  "preprocess_accepts cfg lsn g ssid shm =
     cbind (accepts_txns cfg lsn (g_nthreads g) ssid (g_tlist g) (UPERF_SUCCESS, None, shm))
       (\<lambda>(status, sl, shm1).
          if status = UPERF_FAILURE then Inr (UPERF_FAILURE, None, shm1) else Inr (UPERF_SUCCESS, sl, shm1))"

fun update_strand_loop ::
  "slave_info list \<Rightarrow> string \<Rightarrow> nat \<Rightarrow> nat \<Rightarrow> nat \<Rightarrow> shm \<Rightarrow> c_stop + shm" where
  "update_strand_loop si host 0 i ssid shm = Inr shm"
| "update_strand_loop si host (Suc n) i ssid shm =
     cbind (shm_get_strand shm (i + ssid)) (\<lambda>s.
       if i < length si then
         update_strand_loop si host n (i + 1) ssid
           (shm_set_strand (i + ssid)
              (strand_add_slave ((si ! i)\<lparr>si_host := strlcpy MAXHOSTNAME host\<rparr>) s) shm)
       else Inl Undefined)"

definition update_strand_with_slave_info ::
  "slave_info list \<Rightarrow> string \<Rightarrow> nat \<Rightarrow> nat \<Rightarrow> shm \<Rightarrow> c_stop + shm" where
  "update_strand_with_slave_info si host nthr ssid shm = update_strand_loop si host nthr 0 ssid shm"

section \<open>Phase 1, the master\<close>

definition phase1_header :: "int list \<Rightarrow> hs_phase1" where
  "phase1_header protocols =
     \<lparr>hp_magic = strlcpy 32 UPERF_MAGIC, hp_endian = UPERF_ENDIAN_VALUE, hp_phase = HANDSHAKE_PHASE_1,
      hp_no_slave_info = 0, hp_padding = 0, hp_protocol = map to_u32 protocols,
      hp_version = strlcpy UPERF_VERSION_LEN UPERF_DATA_VERSION, hp_host = []\<rparr>"

definition handshake_p1_with_slave :: "endian \<Rightarrow> int list \<Rightarrow> chan \<Rightarrow> int \<times> chan" where
  "handshake_p1_with_slave e protocols c =
     (let (n, c1) = ensure_write (put_hs_phase1 e (phase1_header protocols)) c in
      if n \<le> 0 then (UPERF_FAILURE, c1)
      else let (r, bs, c2) = ensure_read SIZEOF_HS_ACK c1 in
           if r \<le> 0 then (UPERF_FAILURE, c2)
           else if ha_status (fst (get_hs_ack bs)) \<noteq> UPERF_OK then (UPERF_FAILURE, c2)
           else (0, c2))"

fun p1_conns :: "endian \<Rightarrow> int list \<Rightarrow> chan list \<Rightarrow> int \<times> chan list" where
  \<comment> \<open>the control connections of a group, one channel each\<close>
  "p1_conns e protocols [] = (UPERF_SUCCESS, [])"
| "p1_conns e protocols (c # cs) =
     (let (r, c') = handshake_p1_with_slave e protocols c in
      if r \<noteq> 0 then (UPERF_FAILURE, c' # cs)
      else let (r', cs') = p1_conns e protocols cs in (r', c' # cs'))"

fun handshake_phase1 :: "endian \<Rightarrow> (group \<times> chan list) list \<Rightarrow> int \<times> (group \<times> chan list) list" where
  "handshake_phase1 e [] = (UPERF_SUCCESS, [])"
| "handshake_phase1 e ((g, cs) # gs) =
     (let (r, cs') = p1_conns e (g_protocols g) cs in
      if r \<noteq> UPERF_SUCCESS then (UPERF_FAILURE, (g, cs') # gs)
      else let (r', gs') = handshake_phase1 e gs in (r', (g, cs') # gs'))"

section \<open>Phase 2, the master\<close>

definition phase2_header :: "u32 \<Rightarrow> hs_phase1" where
  "phase2_header no =
     \<lparr>hp_magic = strlcpy 32 UPERF_MAGIC, hp_endian = UPERF_ENDIAN_VALUE, hp_phase = HANDSHAKE_PHASE_2,
      hp_no_slave_info = no, hp_padding = 0, hp_protocol = replicate NUM_PROTOCOLS 0,
      hp_version = strlcpy UPERF_VERSION_LEN UPERF_DATA_VERSION, hp_host = []\<rparr>"

definition tx_slave_infos :: "endian \<Rightarrow> slave_info list option \<Rightarrow> chan \<Rightarrow> int \<times> chan" where
  "tx_slave_infos e si c =
     (case si of
        None \<Rightarrow> (UPERF_SUCCESS, c)
      | Some sis \<Rightarrow>
          (let (n, c') = ensure_write (concat (map (put_slave_info e) sis)) c
           in if n \<le> 0 then (UPERF_FAILURE, c') else (UPERF_SUCCESS, c')))"

definition rx_phase2_ack ::
  "endian \<Rightarrow> string \<Rightarrow> group \<Rightarrow> nat \<Rightarrow> shm \<times> chan \<Rightarrow> c_stop + int \<times> shm \<times> chan" where
  \<comment> \<open>the slave's answer and its ports\<close>
  "rx_phase2_ack e host g ssid st =
     (let (shm, c) = st; (r, bs, c1) = ensure_read SIZEOF_HS_ACK2 c; a = fst (get_hs_ack2 e bs) in
      if r \<le> 0 then Inr (UPERF_FAILURE, shm, c1)
      else if ha_status a \<noteq> UPERF_OK then Inr (UPERF_FAILURE, shm, c1)
      else if ha_no_slave_info a > 0 then
        (let (r', bs', c2) = ensure_read (unat (ha_no_slave_info a) * SIZEOF_SLAVE_INFO) c1 in
         if r' \<le> 0 then Inr (UPERF_FAILURE, shm, c2)
         else cbind (update_strand_with_slave_info (get_slave_infos (unat (ha_no_slave_info a)) e bs')
                       host (unat (g_nthreads g)) ssid shm)
                (\<lambda>shm1. Inr (UPERF_SUCCESS, shm1, c2)))
      else Inr (UPERF_SUCCESS, shm, c1))"

definition handshake_p2_with_slave ::
  "endian \<Rightarrow> build_config \<Rightarrow> listener \<Rightarrow> string \<Rightarrow> group \<Rightarrow> nat \<Rightarrow> shm \<times> chan \<Rightarrow> c_stop + int \<times> shm \<times> chan" where
  "handshake_p2_with_slave e cfg lsn host g ssid st =
     (let (shm, c) = st in
      cbind (preprocess_accepts cfg lsn g ssid shm) (\<lambda>(status, si, shm1).
        if status \<noteq> UPERF_SUCCESS then Inr (UPERF_FAILURE, shm1, c)
        else let (n, c1) = ensure_write (put_hs_phase1 e
                    (phase2_header (if si \<noteq> None then g_nthreads g else 0))) c in
             if n \<le> 0 then Inr (UPERF_FAILURE, shm1, c1)
             else let (r, c2) = tx_group_t e g host c1 in
                  if r \<noteq> UPERF_SUCCESS then Inr (UPERF_FAILURE, shm1, c2)
                  else let (r', c3) = tx_slave_infos e si c2 in
                       if r' \<noteq> UPERF_SUCCESS then Inr (UPERF_FAILURE, shm1, c3)
                       else rx_phase2_ack e host g ssid (shm1, c3)))"

fun p2_conns ::
  "endian \<Rightarrow> build_config \<Rightarrow> listener \<Rightarrow> group \<Rightarrow> nat \<Rightarrow> (string \<times> chan) list \<Rightarrow> shm \<Rightarrow>
     c_stop + int \<times> shm \<times> (string \<times> chan) list" where
  "p2_conns e cfg lsn g i [] shm = Inr (UPERF_SUCCESS, shm, [])"
| "p2_conns e cfg lsn g i ((host, c) # cs) shm =
     cbind (handshake_p2_with_slave e cfg lsn host g i (shm, c)) (\<lambda>(r, shm1, c').
       if r \<noteq> UPERF_SUCCESS then Inr (UPERF_FAILURE, shm1, (host, c') # cs)
       else cbind (p2_conns e cfg lsn g i cs shm1) (\<lambda>(r', shm2, cs').
              Inr (r', shm2, (host, c') # cs')))"

fun handshake_phase2 ::
  "endian \<Rightarrow> build_config \<Rightarrow> listener \<Rightarrow> nat \<Rightarrow> (group \<times> (string \<times> chan) list) list \<Rightarrow> shm \<Rightarrow>
     c_stop + int \<times> shm \<times> (group \<times> (string \<times> chan) list) list" where
  "handshake_phase2 e cfg lsn i [] shm = Inr (UPERF_SUCCESS, shm, [])"
| "handshake_phase2 e cfg lsn i ((g, cs) # gs) shm =
     cbind (p2_conns e cfg lsn g i cs shm) (\<lambda>(r, shm1, cs').
       if r \<noteq> UPERF_SUCCESS then Inr (UPERF_FAILURE, shm1, (g, cs') # gs)
       else cbind (handshake_phase2 e cfg lsn (i + unat (g_nthreads g)) gs shm1) (\<lambda>(r', shm2, gs').
              Inr (r', shm2, (g, cs') # gs')))"

definition handshake_end_with_slave :: "chan \<Rightarrow> int \<times> chan" where
  "handshake_end_with_slave c =
     (let (n, c1) = ensure_write (put_hs_ack \<lparr>ha_status = [], ha_message = []\<rparr>) c in
      if n \<le> 0 then (UPERF_FAILURE, c1)
      else let (r, bs, c2) = ensure_read SIZEOF_HS_ACK c1 in
           if r \<le> 0 then (UPERF_FAILURE, c2) else (UPERF_SUCCESS, c2))"

fun handshake_end_master :: "chan list \<Rightarrow> int \<times> chan list" where
  \<comment> \<open>all control connections of all groups, in order\<close>
  "handshake_end_master [] = (UPERF_SUCCESS, [])"
| "handshake_end_master (c # cs) =
     (let (r, c') = handshake_end_with_slave c in
      if r \<noteq> UPERF_SUCCESS then (UPERF_FAILURE, c' # cs)
      else let (r', cs') = handshake_end_master cs in (r', c' # cs'))"

definition handshake ::
  "endian \<Rightarrow> build_config \<Rightarrow> listener \<Rightarrow> (group \<times> (string \<times> chan) list) list \<Rightarrow> shm \<Rightarrow>
     c_stop + int \<times> shm \<times> (group \<times> (string \<times> chan) list) list" where
  "handshake e cfg lsn gs shm =
     (let (r, gs1) = handshake_phase1 e (map (\<lambda>(g, cs). (g, map snd cs)) gs);
          gs' = map2 (\<lambda>(g, hcs) (g1, cs). (g, zip (map fst hcs) cs)) gs gs1
      in if r \<noteq> UPERF_SUCCESS then Inr (UPERF_FAILURE, shm, gs')
         else cbind (handshake_phase2 e cfg lsn 0 gs' shm) (\<lambda>(r', shm1, gs2).
                Inr (if r' \<noteq> UPERF_SUCCESS then UPERF_FAILURE else UPERF_SUCCESS, shm1, gs2)))"

section \<open>The slave\<close>

definition header_for_host :: "hs_phase1 \<Rightarrow> hs_phase1" where
  \<comment> \<open>a header from a host of the other byte order, repaired\<close>
  "header_for_host h =
     (if hp_endian h \<noteq> UPERF_ENDIAN_VALUE then
        h\<lparr>hp_phase := BSWAP_32 (hp_phase h), hp_no_slave_info := BSWAP_32 (hp_no_slave_info h),
          hp_protocol := map BSWAP_32 (hp_protocol h)\<rparr>
      else h)"

fun check_protocols :: "build_config \<Rightarrow> nat \<Rightarrow> u32 list \<Rightarrow> bool \<times> hs_ack \<Rightarrow> bool \<times> hs_ack" where
  \<comment> \<open>\<open>for (i = 0; ...) if (protocol[i] != 0 && valid_protocol(i) == -1) ...\<close>; the flag tells
     that \<open>status\<close> was set to \<open>UPERF_FAILURE\<close>\<close>
  "check_protocols cfg i [] st = st"
| "check_protocols cfg i (p # ps) (failed, a) =
     check_protocols cfg (i + 1) ps
       (if p = 0 then (failed, a)
        else if valid_protocol cfg (of_nat i) = - 1 then
          (True, \<lparr>ha_status = strlcpy 64 UPERF_NOT_OK,
                  ha_message = strlcpy 128 (''Unsupported protocol:'' @ protocol_to_str (of_nat i))\<rparr>)
        else (failed, a))"

definition check_header :: "build_config \<Rightarrow> hs_phase1 \<Rightarrow> bool \<times> hs_ack" where
  "check_header cfg h =
     (if \<not> strneq0 (length UPERF_MAGIC + 1) (hp_magic h) UPERF_MAGIC then
        (True, \<lparr>ha_status = strlcpy 64 UPERF_NOT_OK, ha_message = strlcpy 128 ''Wrong magic''\<rparr>)
      else if \<not> strneq0 UPERF_VERSION_LEN (hp_version h) UPERF_DATA_VERSION then
        (True, \<lparr>ha_status = strlcpy 64 UPERF_NOT_OK,
                ha_message = strlcpy 128 (''Version '' @ UPERF_DATA_VERSION @
                  '' is incompatible with master data version '' @ hp_version h)\<rparr>)
      else check_protocols cfg 0 (hp_protocol h)
             (False, \<lparr>ha_status = strlcpy 64 UPERF_OK, ha_message = []\<rparr>))"

lemma ensure_read_consumes:
  assumes "ensure_read n c = (r, bs, c')" and "0 < r" and "0 < n"
  shows "length (ch_rd c') < length (ch_rd c)"
proof -
  have loop: "ensure_read_loop want buf sz c = (r, bs, c') \<Longrightarrow>
      length (ch_rd c') \<le> length (ch_rd c) \<and> (0 < r \<and> sz < want \<longrightarrow> length (ch_rd c') < length (ch_rd c))"
    for want buf sz c
  proof (induction want buf sz c rule: ensure_read_loop.induct)
    case (1 want buf sz c)
    obtain n xs c1 where s: "sys_read (want - sz) c = (n, xs, c1)" by (cases "sys_read (want - sz) c")
    have "length (ch_rd c1) \<le> length (ch_rd c) \<and> (0 < n \<longrightarrow> length (ch_rd c1) < length (ch_rd c))"
      using s by (auto simp: sys_read_def Let_def split: list.splits if_splits)
    note le = this
    show ?case
    proof (cases "sz < want")
      case False
      with "1.prems" show ?thesis by (auto simp: ensure_read_loop_simps(1))
    next
      case True
      note st = ensure_read_loop_simps(2) [OF True s, of buf]
      show ?thesis
      proof (cases "n \<le> 0")
        case n: True
        with "1.prems" le show ?thesis by (simp add: st)
      next
        case n: False
        with "1.prems" have "ensure_read_loop want (buf @ xs) (sz + nat n) c1 = (r, bs, c')" by (simp add: st)
        with "1.IH" [OF True s [symmetric] refl refl n] le n show ?thesis by auto
      qed
    qed
  qed
  from loop [of n "[]" 0 c] assms show ?thesis by (simp add: ensure_read_def)
qed

lemma ensure_write_keeps_rd: "ensure_write bs c = (r, c') \<Longrightarrow> ch_rd c' = ch_rd c"
proof -
  have "ensure_write_loop buf sz c = (r, c') \<Longrightarrow> ch_rd c' = ch_rd c" for buf sz c
  proof (induction buf sz c rule: ensure_write_loop.induct)
    case (1 buf sz c)
    obtain n c1 where s: "sys_write (drop sz buf) c = (n, c1)" by (cases "sys_write (drop sz buf) c")
    have "ch_rd c1 = ch_rd c"
      using s by (auto simp: sys_write_def Let_def split: list.splits if_splits)
    note same = this
    show ?case
    proof (cases "sz < length buf")
      case False
      with "1.prems" show ?thesis by (auto simp: ensure_write_loop_simps(1))
    next
      case True
      with "1.IH" [OF True s [symmetric]] "1.prems" same ensure_write_loop_simps(2) [OF True s]
      show ?thesis by (cases "n \<le> 0") auto
    qed
  qed
  then show "ensure_write bs c = (r, c') \<Longrightarrow> ch_rd c' = ch_rd c" by (simp add: ensure_write_def)
qed

function slave_handshake_loop ::
  "endian \<Rightarrow> build_config \<Rightarrow> bool \<Rightarrow> shm \<times> chan \<Rightarrow> hs_phase1 option \<times> shm \<times> chan" where
  \<comment> \<open>the loop: the phase-2 header it was left with, or \<open>None\<close> for \<open>return UPERF_FAILURE\<close>;
     \<open>failed\<close> is \<open>status != UPERF_SUCCESS\<close>, which is never reset\<close>
  "slave_handshake_loop e cfg failed (shm, c) =
     (let (r, bs, c1) = ensure_read SIZEOF_HS_PHASE1 c in
      if r \<le> 0 then (None, shm, c1)
      else
        let raw = fst (get_hs_phase1 e bs);
            shm1 = (if hp_endian raw \<noteq> UPERF_ENDIAN_VALUE then shm\<lparr>sh_bitswap := True\<rparr> else shm);
            h = header_for_host raw;
            (bad, ack) = check_header cfg h;
            failed' = (failed \<or> bad)
        in if hp_phase h = HANDSHAKE_PHASE_2 \<and> \<not> failed' then (Some h, shm1, c1)
           else let (n, c2) = ensure_write (put_hs_ack ack) c1 in
                if n \<le> 0 then (None, shm1, c2) else slave_handshake_loop e cfg failed' (shm1, c2))"
  by pat_completeness auto
termination
  by (relation "measure (\<lambda>(e, cfg, failed, shm, c). length (ch_rd c))")
    (auto simp: SIZEOF_HS_PHASE1_def dest!: ensure_read_consumes [OF sym] ensure_write_keeps_rd [OF sym])

declare slave_handshake_loop.simps [simp del]

definition slave_handshake ::
  "endian \<Rightarrow> build_config \<Rightarrow> string \<Rightarrow> shm \<times> chan \<Rightarrow> int \<times> shm \<times> chan" where
  "slave_handshake e cfg phost st =
     (case slave_handshake_loop e cfg False st of
        (None, shm, c) \<Rightarrow> (UPERF_FAILURE, shm, c)
      | (Some h, shm, c) \<Rightarrow>
          (let (wl, c1) = rx_group_t e phost UPERF_ENDIAN_VALUE c;
               wl1 = (if sh_bitswap shm then map_option group_bitswap wl else wl);
               shm1 = shm\<lparr>sh_worklist := wl1, sh_rx_no_slave_info := hp_no_slave_info h\<rparr>
           in (if wl1 = None then UPERF_FAILURE else UPERF_SUCCESS, shm1, c1)))"

definition slave_handshake_p2_complete ::
  "endian \<Rightarrow> string \<Rightarrow> shm \<times> chan \<Rightarrow> c_stop + int \<times> shm \<times> chan" where
  "slave_handshake_p2_complete e phost st =
     (let (shm, c) = st; no = unat (sh_rx_no_slave_info shm);
          (r, bs, c1) = ensure_read (no * SIZEOF_SLAVE_INFO) c in
      if r \<le> 0 then Inr (UPERF_FAILURE, shm, c1)
      else
        let si = get_slave_infos no e bs;
            si1 = (if sh_bitswap shm then map (\<lambda>s. s\<lparr>si_port := map BSWAP_32 (si_port s)\<rparr>) si else si)
        in case sh_worklist shm of
             None \<Rightarrow> Inl Undefined
           | Some wl \<Rightarrow>
               cbind (update_strand_with_slave_info si1 phost (unat (g_nthreads wl)) 0 shm)
                 (\<lambda>shm1. Inr (UPERF_SUCCESS, shm1, c1)))"

definition swap_ports :: "slave_info \<Rightarrow> slave_info" where
  "swap_ports s = s\<lparr>si_port := map (\<lambda>p. if sint p > 0 then BSWAP_32 p else p) (si_port s)\<rparr>"

definition slave_handshake_p2_success ::
  "endian \<Rightarrow> hs_ack2 \<Rightarrow> slave_info list \<Rightarrow> u32 \<Rightarrow> bool \<Rightarrow> chan \<Rightarrow> int \<times> chan" where
  \<comment> \<open>\<open>junk\<close>: the uninitialised struct on the stack; \<open>sl\<close> has \<open>no\<close> entries\<close>
  "slave_handshake_p2_success e junk sl no bitswap c =
     (let a = junk\<lparr>ha_no_slave_info := (if bitswap then BSWAP_32 no else no),
                   ha_status := strlcpy 64 UPERF_OK\<rparr>;
          sl1 = (if bitswap then map swap_ports sl else sl);
          (n, c1) = ensure_write (put_hs_ack2 e a) c
      in if n \<le> 0 then (UPERF_FAILURE, c1)
         else if no = 0 then (UPERF_SUCCESS, c1)
         else let (n', c2) = ensure_write (concat (map (put_slave_info e) sl1)) c1
              in if n' \<le> 0 then (UPERF_FAILURE, c2) else (UPERF_SUCCESS, c2))"

definition slave_handshake_p2_failure :: "endian \<Rightarrow> hs_ack2 \<Rightarrow> string \<Rightarrow> chan \<Rightarrow> int \<times> chan" where
  "slave_handshake_p2_failure e junk message c =
     (let (n, c1) = ensure_write (put_hs_ack2 e (junk\<lparr>ha_message := strlcpy 128 message\<rparr>)) c
      in (if n \<le> 0 then UPERF_FAILURE else UPERF_SUCCESS, c1))"

definition handshake_end_slave :: "chan \<Rightarrow> int \<times> chan" where
  "handshake_end_slave c =
     (let (r, bs, c1) = ensure_read SIZEOF_HS_ACK c in
      if r \<le> 0 then (UPERF_FAILURE, c1)
      else let (n, c2) = ensure_write bs c1 in (if n \<le> 0 then UPERF_FAILURE else UPERF_SUCCESS, c2))"

section \<open>The slave accepts only what it can run\<close>

definition header_ok :: "build_config \<Rightarrow> hs_phase1 \<Rightarrow> bool" where
  "header_ok cfg h = (hp_magic h = UPERF_MAGIC \<and> hp_version h = UPERF_DATA_VERSION \<and>
     (\<forall>i < length (hp_protocol h). hp_protocol h ! i \<noteq> 0 \<longrightarrow> valid_protocol cfg (of_nat i) = 1))"

lemma check_protocols_failed: "fst (check_protocols cfg i ps (True, a))"
  by (induction ps arbitrary: i a) auto

lemma valid_protocol_cases: "valid_protocol cfg t = 1 \<or> valid_protocol cfg t = - 1"
  by (simp add: valid_protocol_def split: option.splits)

lemma all_less_Cons:
  "(\<forall>j < length (p # ps). (p # ps) ! j \<noteq> 0 \<longrightarrow> P (i + j)) \<longleftrightarrow>
     (p \<noteq> 0 \<longrightarrow> P i) \<and> (\<forall>j < length ps. ps ! j \<noteq> 0 \<longrightarrow> P (i + 1 + j))" for P :: "nat \<Rightarrow> bool"
  by (auto simp: less_Suc_eq_0_disj)

lemma check_protocols_ok:
  "\<not> fst (check_protocols cfg i ps (False, a)) \<longleftrightarrow>
     (\<forall>j < length ps. ps ! j \<noteq> 0 \<longrightarrow> valid_protocol cfg (of_nat (i + j)) = 1)"
proof (induction ps arbitrary: i)
  case (Cons p ps)
  note all_less_Cons [of p ps "\<lambda>k. valid_protocol cfg (of_nat k) = 1" i]
  with Cons [of "i + 1"] show ?case
    using check_protocols_failed [of cfg "i + 1" ps] valid_protocol_cases [of cfg "of_nat i"]
    by (simp only: check_protocols.simps) auto
qed simp

lemma strneq0_all: "length b < n \<Longrightarrow> strneq0 n a b \<longleftrightarrow> a = b"
proof -
  assume b: "length b < n"
  have "take n a = b \<Longrightarrow> a = b"
  proof -
    assume t: "take n a = b"
    then have "length (take n a) < n" using b by simp
    then have "length a < n" by (simp add: min_def split: if_splits)
    with t show "a = b" by simp
  qed
  then show ?thesis using b by (auto simp: strneq0_def)
qed

lemma check_header_ok: "\<not> fst (check_header cfg h) \<longleftrightarrow> header_ok cfg h"
  by (simp add: check_header_def header_ok_def strneq0_all check_protocols_ok
      UPERF_VERSION_LEN_def UPERF_DATA_VERSION_def)

lemma check_header_ack:
  "header_ok cfg h \<Longrightarrow> check_header cfg h = (False, \<lparr>ha_status = UPERF_OK, ha_message = []\<rparr>)"
proof -
  assume h: "header_ok cfg h"
  have "\<not> fst (check_protocols cfg i ps (False, a)) \<Longrightarrow> check_protocols cfg i ps (False, a) = (False, a)" for i ps a
    by (induction ps arbitrary: i) (auto simp: check_protocols_failed split: if_splits)
  with h show ?thesis
    using check_header_ok [of cfg h]
    by (auto simp: check_header_def header_ok_def strneq0_all UPERF_VERSION_LEN_def UPERF_DATA_VERSION_def
        UPERF_OK_def strlcpy_def)
qed

lemma slave_handshake_loop_valid:
  "slave_handshake_loop e cfg failed (shm, c) = (Some h, shm', c') \<Longrightarrow>
   \<not> failed \<and> header_ok cfg h \<and> hp_phase h = HANDSHAKE_PHASE_2"
proof (induction e cfg failed "(shm, c)" arbitrary: shm c rule: slave_handshake_loop.induct)
  case (1 e cfg failed shm c)
  obtain r bs c1 where rd: "ensure_read SIZEOF_HS_PHASE1 c = (r, bs, c1)" by (cases "ensure_read SIZEOF_HS_PHASE1 c")
  let ?raw = "fst (get_hs_phase1 e bs)"
  obtain bad ack where ck: "check_header cfg (header_for_host ?raw) = (bad, ack)" by fastforce
  obtain n c2 where wr: "ensure_write (put_hs_ack ack) c1 = (n, c2)" by fastforce
  note step = slave_handshake_loop.simps [of e cfg failed shm c]
  have r: "\<not> r \<le> 0" using "1.prems" by (auto simp: step rd split: if_splits)
  show ?case
  proof (cases "hp_phase (header_for_host ?raw) = HANDSHAKE_PHASE_2 \<and> \<not> (failed \<or> bad)")
    case True
    then show ?thesis
      using "1.prems" [unfolded step] r check_header_ok [of cfg "header_for_host ?raw"]
      by (auto simp: rd ck Let_def)
  next
    case False
    then have "slave_handshake_loop e cfg (failed \<or> bad)
        (if hp_endian ?raw \<noteq> UPERF_ENDIAN_VALUE then shm\<lparr>sh_bitswap := True\<rparr> else shm, c2) = (Some h, shm', c')"
      using "1.prems" r by (auto simp: step rd ck wr Let_def split: if_splits)
    moreover have "\<not> n \<le> 0" using False "1.prems" r by (auto simp: step rd ck wr Let_def split: if_splits)
    ultimately show ?thesis
      using "1.hyps" [OF rd [symmetric] refl refl r refl refl refl ck [symmetric] refl refl False wr [symmetric] refl]
      by simp
  qed
qed


section \<open>A whole handshake\<close>

lemma tx_flowops_out: "tx_flowops e fs c = (UPERF_SUCCESS, c') \<Longrightarrow>
    ch_out c' = ch_out c @ concat (map (put_flowop e) fs) \<and> ch_in c' = ch_in c"
proof (induction fs arbitrary: c)
  case (Cons f fs)
  obtain r c1 where r: "ensure_write (put_flowop e f) c = (r, c1)" by fastforce
  with Cons.prems Cons.IH [of c1] sock.send_whole [OF r] show ?case
    by (auto simp: UPERF_SUCCESS_def UPERF_FAILURE_def split: if_splits)
qed simp

lemma tx_txns_out: "tx_txns e ts c = (UPERF_SUCCESS, c') \<Longrightarrow>
    ch_out c' = ch_out c @ concat (map (wire_txn e) ts) \<and> ch_in c' = ch_in c"
proof (induction ts arbitrary: c)
  case (Cons t ts)
  obtain r c1 where r: "ensure_write (put_txn e t) c = (r, c1)" by fastforce
  obtain r2 c2 where r2: "tx_flowops e (t_flist t) c1 = (r2, c2)" by fastforce
  from Cons.prems Cons.IH [of c2] sock.send_whole [OF r] tx_flowops_out [of e "t_flist t" c1 c2] r r2
  show ?case
    by (auto simp: UPERF_SUCCESS_def UPERF_FAILURE_def wire_txn_def [of e t] split: if_splits)
qed simp

lemma tx_group_out: "tx_group_t e g host c = (UPERF_SUCCESS, c') \<Longrightarrow>
    ch_out c' = ch_out c @ wire_group e (group_for_slave host g) \<and> ch_in c' = ch_in c"
proof -
  obtain r c1 where r: "ensure_write (put_group e (group_for_slave host g)) c = (r, c1)" by fastforce
  then show "tx_group_t e g host c = (UPERF_SUCCESS, c') \<Longrightarrow> ?thesis"
    using sock.send_whole [OF r] tx_txns_out [of e _ c1 c']
    by (auto simp: tx_group_t_def wire_group_def Let_def UPERF_SUCCESS_def UPERF_FAILURE_def
        split: if_splits)
qed

lemma bswap_eq_0 [simp]: "bswap (w :: u32) = 0 \<longleftrightarrow> w = 0"
proof
  show "w = 0" if "bswap w = 0"
  proof -
    have "bswap (bswap w) = w" by (rule bswap_bswap) simp
    with that show ?thesis by simp
  qed
qed simp

lemma map_wview_same [simp]: "map (wview e e) ws = ws"
  by (simp add: map_idI)

lemma header_for_host_view:
  assumes "hp_endian h = UPERF_ENDIAN_VALUE"
  shows "header_for_host (hs_phase1_view e e' h) =
     h\<lparr>hp_endian := wview e e' (hp_endian h), hp_padding := wview e e' (hp_padding h)\<rparr>"
  using assms endian_differs [of e e']
  by (cases "e = e'") (auto simp: header_for_host_def hs_phase1_view_def bswap_wview comp_def)

definition supports :: "build_config \<Rightarrow> int list \<Rightarrow> bool" where
  "supports cfg protocols =
     (\<forall>i < length protocols. to_u32 (protocols ! i) \<noteq> 0 \<longrightarrow> valid_protocol cfg (of_nat i) = 1)"

lemma header_ok_upd [simp]: "header_ok cfg (h\<lparr>hp_endian := x, hp_padding := y\<rparr>) = header_ok cfg h"
  by (simp add: header_ok_def)

lemma phase1_header_ok: "supports cfg ps \<Longrightarrow> header_ok cfg (phase1_header ps)"
  by (simp add: header_ok_def phase1_header_def supports_def strlcpy_def hs_consts)

lemma phase2_header_ok: "header_ok cfg (phase2_header no)"
  by (simp add: header_ok_def phase2_header_def strlcpy_def hs_consts)

lemma master_headers_wf:
  "length ps = NUM_PROTOCOLS \<Longrightarrow> hs_phase1_wf (phase1_header ps)" "hs_phase1_wf (phase2_header no)"
  by (simp_all add: hs_phase1_wf_def phase1_header_def phase2_header_def c_string_def strlcpy_def
      hs_consts c_sizes)

lemma ack_codec_length [simp]: "length (put_hs_ack a) = SIZEOF_HS_ACK"
  by (rule hs_ack_codec.length_put)

lemma hs_phase1_length [simp]: "length (put_hs_phase1 e h) = SIZEOF_HS_PHASE1"
  by (rule hs_phase1_codec.length_put)

lemma will_read_write: "ensure_write bs c = (r, c') \<Longrightarrow> will_read n c' = will_read n c"
  using ensure_write_keeps_rd by (simp add: will_read_def)

lemma ensure_read_keeps_wr: "ensure_read n c = (r, bs, c') \<Longrightarrow> ch_wr c' = ch_wr c"
proof -
  have "ensure_read_loop want buf sz c = (r, bs, c') \<Longrightarrow> ch_wr c' = ch_wr c" for want buf sz c
  proof (induction want buf sz c rule: ensure_read_loop.induct)
    case (1 want buf sz c)
    obtain n xs c1 where s: "sys_read (want - sz) c = (n, xs, c1)" by (cases "sys_read (want - sz) c")
    have same: "ch_wr c1 = ch_wr c"
      using s by (auto simp: sys_read_def Let_def split: list.splits if_splits)
    show ?case
    proof (cases "sz < want")
      case False
      with "1.prems" show ?thesis by (auto simp: ensure_read_loop_simps(1))
    next
      case True
      with "1.IH" [OF True s [symmetric] refl refl] "1.prems" same ensure_read_loop_simps(2) [OF True s, of buf]
      show ?thesis by (cases "n \<le> 0") auto
    qed
  qed
  then show "ensure_read n c = (r, bs, c') \<Longrightarrow> ch_wr c' = ch_wr c" by (simp add: ensure_read_def)
qed

lemma recv_header:
  assumes "ch_in c = put_hs_phase1 e h @ rest" and "will_read (SIZEOF_HS_PHASE1 + m) c"
  obtains c' where "ensure_read SIZEOF_HS_PHASE1 c = (int SIZEOF_HS_PHASE1, put_hs_phase1 e h, c')"
    and "ch_in c' = rest" and "will_read m c'" and "ch_out c' = ch_out c" and "ch_wr c' = ch_wr c"
proof -
  have ne: "put_hs_phase1 e h \<noteq> []"
    using hs_phase1_length [of e h] by (auto simp: SIZEOF_HS_PHASE1_def simp del: hs_phase1_length)
  have w: "will_read (length (put_hs_phase1 e h) + m) c" using assms(2) by simp
  obtain c' where c': "ensure_read (length (put_hs_phase1 e h)) c =
      (int (length (put_hs_phase1 e h)), put_hs_phase1 e h, c')"
      "ch_in c' = rest" "will_read m c'" "ch_out c' = ch_out c"
    using sock.recv_prefix [OF assms(1) w ne] by metis
  with that ensure_read_keeps_wr [OF c'(1)] show thesis by simp
qed

lemma master_header_read:
  assumes "hs_phase1_wf h" and "hp_endian h = UPERF_ENDIAN_VALUE"
  shows "header_for_host (fst (get_hs_phase1 e' (put_hs_phase1 e h))) =
       h\<lparr>hp_endian := wview e e' (hp_endian h), hp_padding := wview e e' (hp_padding h)\<rparr>"
    and "(hp_endian (fst (get_hs_phase1 e' (put_hs_phase1 e h))) \<noteq> UPERF_ENDIAN_VALUE) = (e \<noteq> e')"
proof -
  have v: "fst (get_hs_phase1 e' (put_hs_phase1 e h)) = hs_phase1_view e e' h"
    using assms(1) by (rule hs_phase1_codec.get_put_exact)
  show "header_for_host (fst (get_hs_phase1 e' (put_hs_phase1 e h))) =
       h\<lparr>hp_endian := wview e e' (hp_endian h), hp_padding := wview e e' (hp_padding h)\<rparr>"
    unfolding v by (rule header_for_host_view) (rule assms(2))
  show "(hp_endian (fst (get_hs_phase1 e' (put_hs_phase1 e h))) \<noteq> UPERF_ENDIAN_VALUE) = (e \<noteq> e')"
    unfolding v using endian_differs [of e e'] assms(2) by (auto simp: hs_phase1_view_def)
qed

lemma slave_handshake_loop_ack:
  \<comment> \<open>a good phase-1 header is acknowledged and the loop goes on\<close>
  assumes "ch_in c = put_hs_phase1 e (phase1_header ps) @ rest" and "supports cfg ps"
    and "length ps = NUM_PROTOCOLS"
    and "will_read (SIZEOF_HS_PHASE1 + m) c" and "will_write (SIZEOF_HS_ACK + k) c"
  obtains c' where "slave_handshake_loop e' cfg False (shm, c) =
      slave_handshake_loop e' cfg False (if e \<noteq> e' then shm\<lparr>sh_bitswap := True\<rparr> else shm, c')"
    and "ch_in c' = rest" and "will_read m c'" and "will_write k c'"
    and "ch_out c' = ch_out c @ put_hs_ack \<lparr>ha_status = UPERF_OK, ha_message = []\<rparr>"
proof -
  let ?h = "phase1_header ps" and ?a = "\<lparr>ha_status = UPERF_OK, ha_message = []\<rparr>"
  obtain c1 where c1: "ensure_read SIZEOF_HS_PHASE1 c = (int SIZEOF_HS_PHASE1, put_hs_phase1 e ?h, c1)"
      "ch_in c1 = rest" "will_read m c1" "ch_out c1 = ch_out c" "ch_wr c1 = ch_wr c"
    by (rule recv_header [OF assms(1,4)])
  have w: "will_write (length (put_hs_ack ?a) + k) c1"
    using assms(5) c1(5) by (simp add: will_write_def)
  have ne: "put_hs_ack ?a \<noteq> []"
    using ack_codec_length [of ?a] by (auto simp: SIZEOF_HS_ACK_def simp del: ack_codec_length)
  obtain c2 where c2: "ensure_write (put_hs_ack ?a) c1 = (int (length (put_hs_ack ?a)), c2)"
      "ch_out c2 = ch_out c1 @ put_hs_ack ?a" "ch_in c2 = ch_in c1" "will_write k c2"
    using sock.send_all [OF w ne] by metis
  have h: "hs_phase1_wf ?h" "hp_endian ?h = UPERF_ENDIAN_VALUE" "hp_phase ?h \<noteq> HANDSHAKE_PHASE_2"
    using master_headers_wf(1) [OF assms(3)] by (simp_all add: phase1_header_def hs_consts)
  have "check_header cfg (?h\<lparr>hp_endian := x, hp_padding := y\<rparr>) = (False, ?a)" for x y
    by (rule check_header_ack) (simp add: phase1_header_ok [OF assms(2)])
  then have "slave_handshake_loop e' cfg False (shm, c) =
      slave_handshake_loop e' cfg False (if e \<noteq> e' then shm\<lparr>sh_bitswap := True\<rparr> else shm, c2)"
    using c1(1) c2(1) master_header_read [OF h(1,2), of e' e] h(3)
    by (subst slave_handshake_loop.simps) (simp add: Let_def SIZEOF_HS_PHASE1_def SIZEOF_HS_ACK_def)
  with that c1 c2 will_read_write [OF c2(1)] show thesis by simp
qed

lemma slave_handshake_loop_leaves:
  assumes "ch_in c = put_hs_phase1 e (phase2_header no) @ rest" and "will_read (SIZEOF_HS_PHASE1 + m) c"
  obtains c' h where "slave_handshake_loop e' cfg False (shm, c) =
      (Some h, if e \<noteq> e' then shm\<lparr>sh_bitswap := True\<rparr> else shm, c')"
    and "hp_no_slave_info h = no"
    and "ch_in c' = rest" and "will_read m c'" and "ch_out c' = ch_out c" and "ch_wr c' = ch_wr c"
proof -
  let ?h = "phase2_header no"
  obtain c1 where c1: "ensure_read SIZEOF_HS_PHASE1 c = (int SIZEOF_HS_PHASE1, put_hs_phase1 e ?h, c1)"
      "ch_in c1 = rest" "will_read m c1" "ch_out c1 = ch_out c" "ch_wr c1 = ch_wr c"
    by (rule recv_header [OF assms])
  have h: "hs_phase1_wf ?h" "hp_endian ?h = UPERF_ENDIAN_VALUE" "hp_phase ?h = HANDSHAKE_PHASE_2"
      "hp_no_slave_info ?h = no"
    using master_headers_wf(2) by (simp_all add: phase2_header_def)
  have "check_header cfg (?h\<lparr>hp_endian := x, hp_padding := y\<rparr>) =
      (False, \<lparr>ha_status = UPERF_OK, ha_message = []\<rparr>)" for x y
    by (rule check_header_ack) (simp add: phase2_header_ok)
  then have "slave_handshake_loop e' cfg False (shm, c) =
      (Some (?h\<lparr>hp_endian := wview e e' (hp_endian ?h), hp_padding := wview e e' (hp_padding ?h)\<rparr>),
       if e \<noteq> e' then shm\<lparr>sh_bitswap := True\<rparr> else shm, c1)"
    using c1(1) master_header_read [OF h(1,2), of e' e] h(3)
    by (subst slave_handshake_loop.simps) (simp add: Let_def SIZEOF_HS_PHASE1_def)
  with that c1 h(4) show thesis by simp
qed

lemma slave_handshake_gets:
  assumes "ch_in c = put_hs_phase1 e (phase1_header ps) @ put_hs_phase1 e (phase2_header no) @
      wire_group e g @ rest"
    and "will_read (SIZEOF_HS_PHASE1 + (SIZEOF_HS_PHASE1 + (length (wire_group e g) + m))) c"
    and "will_write (SIZEOF_HS_ACK + k) c"
    and "supports cfg ps" and "length ps = NUM_PROTOCOLS" and "group_sendable g" and "\<not> sh_bitswap shm"
  shows "\<exists>c'. slave_handshake e' cfg phost (shm, c) =
      (UPERF_SUCCESS, shm\<lparr>sh_bitswap := (e \<noteq> e'), sh_worklist := Some (slave_group e e' phost g),
         sh_rx_no_slave_info := no\<rparr>, c') \<and>
    ch_in c' = rest \<and> will_read m c' \<and>
    ch_out c' = ch_out c @ put_hs_ack \<lparr>ha_status = UPERF_OK, ha_message = []\<rparr>"
proof -
  let ?shm = "if e \<noteq> e' then shm\<lparr>sh_bitswap := True\<rparr> else shm"
  obtain c1 where c1: "slave_handshake_loop e' cfg False (shm, c) = slave_handshake_loop e' cfg False (?shm, c1)"
      "ch_in c1 = put_hs_phase1 e (phase2_header no) @ wire_group e g @ rest"
      "will_read (SIZEOF_HS_PHASE1 + (length (wire_group e g) + m)) c1"
      "ch_out c1 = ch_out c @ put_hs_ack \<lparr>ha_status = UPERF_OK, ha_message = []\<rparr>"
    by (rule slave_handshake_loop_ack [OF assms(1,4,5,2,3)])
  obtain c2 h where c2: "slave_handshake_loop e' cfg False (?shm, c1) =
        (Some h, if e \<noteq> e' then ?shm\<lparr>sh_bitswap := True\<rparr> else ?shm, c2)"
      "hp_no_slave_info h = no" "ch_in c2 = wire_group e g @ rest"
      "will_read (length (wire_group e g) + m) c2" "ch_out c2 = ch_out c1"
    by (rule slave_handshake_loop_leaves [OF c1(2,3)])
  obtain c3 where c3: "rx_group_t e' phost UPERF_ENDIAN_VALUE c2 = (Some (rx_view_group e e' phost g), c3)"
      "will_read m c3" "ch_in c3 = rest" "ch_out c3 = ch_out c2"
    using rx_group_gets [OF c2(4,3) assms(6)] by metis
  show ?thesis
    using c1 c2 c3 assms(7) repaired_group [OF assms(6), of e e' phost]
    by (cases "e = e'") (auto simp: slave_handshake_def Let_def)
qed

lemma p1_out:
  assumes "handshake_p1_with_slave e ps c = (0, c')"
  shows "ch_out c' = ch_out c @ put_hs_phase1 e (phase1_header ps)"
proof -
  obtain n c1 where n: "ensure_write (put_hs_phase1 e (phase1_header ps)) c = (n, c1)" by fastforce
  obtain r bs c2 where r: "ensure_read SIZEOF_HS_ACK c1 = (r, bs, c2)" by (cases "ensure_read SIZEOF_HS_ACK c1")
  from assms n r sock.send_whole [OF n] sock.recv_whole [OF r] show ?thesis
    by (auto simp: handshake_p1_with_slave_def UPERF_FAILURE_def split: if_splits)
qed

lemma rx_phase2_ack_out:
  assumes "rx_phase2_ack e host g ssid (shm, c) = Inr (UPERF_SUCCESS, shm', c')"
  shows "ch_out c' = ch_out c"
proof -
  obtain r bs c1 where r: "ensure_read SIZEOF_HS_ACK2 c = (r, bs, c1)" by (cases "ensure_read SIZEOF_HS_ACK2 c")
  let ?n = "unat (ha_no_slave_info (fst (get_hs_ack2 e bs))) * SIZEOF_SLAVE_INFO"
  obtain r' bs' c2 where r': "ensure_read ?n c1 = (r', bs', c2)" by (cases "ensure_read ?n c1")
  from assms r r' sock.recv_whole [OF r] sock.recv_whole [OF r'] show ?thesis
    by (cases "update_strand_with_slave_info (get_slave_infos (unat (ha_no_slave_info (fst (get_hs_ack2 e bs)))) e bs')
          host (unat (g_nthreads g)) ssid shm")
      (auto simp: rx_phase2_ack_def Let_def UPERF_SUCCESS_def UPERF_FAILURE_def split: if_splits)
qed

lemma tx_slave_infos_out:
  assumes "tx_slave_infos e si c = (UPERF_SUCCESS, c')"
  shows "ch_out c' = ch_out c @ (case si of None \<Rightarrow> [] | Some sis \<Rightarrow> concat (map (put_slave_info e) sis))"
proof (cases si)
  case (Some sis)
  obtain n c1 where n: "ensure_write (concat (map (put_slave_info e) sis)) c = (n, c1)" by fastforce
  with assms Some sock.send_whole [OF n] show ?thesis
    by (auto simp: tx_slave_infos_def UPERF_SUCCESS_def UPERF_FAILURE_def split: if_splits)
qed (use assms in \<open>simp add: tx_slave_infos_def\<close>)

lemma p2_out:
  assumes "handshake_p2_with_slave e cfg lsn host g ssid (shm, c) = Inr (UPERF_SUCCESS, shm', c')"
  shows "\<exists>no rest. ch_out c' = ch_out c @ put_hs_phase1 e (phase2_header no) @
    wire_group e (group_for_slave host g) @ rest"
proof -
  from assms obtain si shm1 where p: "preprocess_accepts cfg lsn g ssid shm = Inr (UPERF_SUCCESS, si, shm1)"
    by (cases "preprocess_accepts cfg lsn g ssid shm")
      (auto simp: handshake_p2_with_slave_def UPERF_SUCCESS_def UPERF_FAILURE_def split: if_splits)
  let ?h = "phase2_header (if si \<noteq> None then g_nthreads g else 0)"
  obtain n c1 where n: "ensure_write (put_hs_phase1 e ?h) c = (n, c1)" by fastforce
  obtain r c2 where r: "tx_group_t e g host c1 = (r, c2)" by fastforce
  obtain r' c3 where r': "tx_slave_infos e si c2 = (r', c3)" by fastforce
  from assms p n r r' have s: "\<not> n \<le> 0" "r = UPERF_SUCCESS" "r' = UPERF_SUCCESS"
      "rx_phase2_ack e host g ssid (shm1, c3) = Inr (UPERF_SUCCESS, shm', c')"
    by (auto simp: handshake_p2_with_slave_def UPERF_SUCCESS_def UPERF_FAILURE_def split: if_splits)
  with sock.send_whole [OF n] tx_group_out [OF r [unfolded s(2)]] tx_slave_infos_out [OF r' [unfolded s(3)]]
    rx_phase2_ack_out [OF s(4)]
  show ?thesis by auto
qed

lemma master_is_understood:
  assumes "group_sendable g" and "supports cfg ps" and "length ps = NUM_PROTOCOLS"
    and "handshake_p1_with_slave e ps cm = (0, cm1)"
    and "handshake_p2_with_slave e cfgm lsn host g ssid (mshm, cm1) = Inr (UPERF_SUCCESS, mshm', cm2)"
    and "ch_out cm2 = ch_out cm @ ch_in cs"
    and "will_read (length (ch_in cs)) cs" and "will_write SIZEOF_HS_ACK cs" and "\<not> sh_bitswap shm"
  shows "\<exists>shm' cs'. slave_handshake e' cfg phost (shm, cs) = (UPERF_SUCCESS, shm', cs') \<and>
    sh_worklist shm' = Some (slave_group e e' phost (group_for_slave host g)) \<and>
    sh_bitswap shm' = (e \<noteq> e') \<and>
    ch_out cs' = ch_out cs @ put_hs_ack \<lparr>ha_status = UPERF_OK, ha_message = []\<rparr> \<and>
    ch_in cs = put_hs_phase1 e (phase1_header ps) @
      put_hs_phase1 e (phase2_header (sh_rx_no_slave_info shm')) @
      wire_group e (group_for_slave host g) @ ch_in cs'"
proof -
  let ?g = "group_for_slave host g"
  obtain no rest where "ch_out cm2 = ch_out cm1 @ put_hs_phase1 e (phase2_header no) @ wire_group e ?g @ rest"
    using p2_out [OF assms(5)] by blast
  with p1_out [OF assms(4)] assms(6)
  have i: "ch_in cs = put_hs_phase1 e (phase1_header ps) @ put_hs_phase1 e (phase2_header no) @
      wire_group e ?g @ rest" by simp
  have rd: "will_read (SIZEOF_HS_PHASE1 + (SIZEOF_HS_PHASE1 + (length (wire_group e ?g) + length rest))) cs"
    using assms(7) by (simp add: i)
  have wr: "will_write (SIZEOF_HS_ACK + 0) cs" using assms(8) by simp
  let ?shm = "shm\<lparr>sh_bitswap := (e \<noteq> e'), sh_worklist := Some (slave_group e e' phost ?g),
      sh_rx_no_slave_info := no\<rparr>"
  obtain cs' where "slave_handshake e' cfg phost (shm, cs) = (UPERF_SUCCESS, ?shm, cs')" "ch_in cs' = rest"
      "ch_out cs' = ch_out cs @ put_hs_ack \<lparr>ha_status = UPERF_OK, ha_message = []\<rparr>"
    using slave_handshake_gets [OF i rd wr assms(2,3) group_for_slave_sendable [OF assms(1)] assms(9),
        where e' = e' and phost = phost] by metis
  with i show ?thesis by (intro exI [of _ ?shm] exI [of _ cs']) simp
qed

text \<open>
  C1. The master's handshake is understood by the slave: if the master's two phases with a
  slave succeed, then a slave that receives the bytes the master sent, was built with the
  protocols asked for and can write its acknowledgement also succeeds, whatever the byte
  orders of the two hosts. It holds the mirrored work order, knows whether to
  swap, has acknowledged once with OK, and only the master's port list is left unread.
\<close>

theorem handshake_understood:
  assumes "group_sendable g" and "supports cfg ps" and "length ps = NUM_PROTOCOLS"
    and "handshake_p1_with_slave e ps cm = (0, cm1)"
    and "handshake_p2_with_slave e cfgm lsn host g ssid (mshm, cm1) = Inr (UPERF_SUCCESS, mshm', cm2)"
    and "ch_out cm2 = ch_out cm @ ch_in cs"
    and "will_read (length (ch_in cs)) cs" and "will_write SIZEOF_HS_ACK cs" and "\<not> sh_bitswap shm"
  shows "\<exists>shm' cs'. slave_handshake e' cfg phost (shm, cs) = (UPERF_SUCCESS, shm', cs') \<and>
    sh_worklist shm' = Some (slave_group e e' phost (group_for_slave host g)) \<and>
    sh_bitswap shm' = (e \<noteq> e') \<and>
    ch_out cs' = ch_out cs @ put_hs_ack \<lparr>ha_status = UPERF_OK, ha_message = []\<rparr> \<and>
    ch_in cs = put_hs_phase1 e (phase1_header ps) @
      put_hs_phase1 e (phase2_header (sh_rx_no_slave_info shm')) @
      wire_group e (group_for_slave host g) @ ch_in cs'"
  by (rule master_is_understood [OF assms])

section \<open>The ports arrive\<close>

lemma update_strand_loop_gives:
  assumes "i + n \<le> length si" and "i + n + ssid \<le> length (sh_strands shm)"
  shows "\<exists>shm'. update_strand_loop si host n i ssid shm = Inr shm' \<and>
    length (sh_strands shm') = length (sh_strands shm) \<and>
    (\<forall>j. j < i + ssid \<longrightarrow> sh_strands shm' ! j = sh_strands shm ! j) \<and>
    (\<forall>k. i \<le> k \<and> k < i + n \<longrightarrow> sh_strands shm' ! (k + ssid) =
       strand_add_slave ((si ! k)\<lparr>si_host := strlcpy MAXHOSTNAME host\<rparr>) (sh_strands shm ! (k + ssid)))"
  using assms
proof (induction n arbitrary: i shm)
  case (Suc n)
  let ?s = "strand_add_slave ((si ! i)\<lparr>si_host := strlcpy MAXHOSTNAME host\<rparr>) (sh_strands shm ! (i + ssid))"
  let ?shm = "shm_set_strand (i + ssid) ?s shm"
  have l: "i + 1 + n \<le> length si" "i + 1 + n + ssid \<le> length (sh_strands ?shm)"
    using Suc.prems by (simp_all add: shm_set_strand_def)
  have step: "update_strand_loop si host (Suc n) i ssid shm = update_strand_loop si host n (i + 1) ssid ?shm"
    using Suc.prems by (simp add: shm_get_strand_def)
  obtain shm' where r: "update_strand_loop si host n (i + 1) ssid ?shm = Inr shm'"
    and len: "length (sh_strands shm') = length (sh_strands ?shm)"
    and old: "\<forall>j. j < i + 1 + ssid \<longrightarrow> sh_strands shm' ! j = sh_strands ?shm ! j"
    and new: "\<forall>k. i + 1 \<le> k \<and> k < i + 1 + n \<longrightarrow> sh_strands shm' ! (k + ssid) =
       strand_add_slave ((si ! k)\<lparr>si_host := strlcpy MAXHOSTNAME host\<rparr>) (sh_strands ?shm ! (k + ssid))"
    using Suc.IH [OF l] by blast
  have "sh_strands shm' ! (k + ssid) =
       strand_add_slave ((si ! k)\<lparr>si_host := strlcpy MAXHOSTNAME host\<rparr>) (sh_strands shm ! (k + ssid))"
    if k: "i \<le> k \<and> k < i + Suc n" for k
  proof (cases "k = i")
    case True
    with old Suc.prems show ?thesis by (simp add: shm_set_strand_def)
  next
    case False
    with new k show ?thesis by (simp add: shm_set_strand_def)
  qed
  with old len show ?case unfolding step r by (simp add: shm_set_strand_def)
qed auto

lemma sint_swap_ports:
  assumes "\<forall>p \<in> set (si_port s). 0 \<le> sint p"
  shows "slave_info_view e' e (if e \<noteq> e' then swap_ports s else s) = s"
proof -
  have "wview e' e (if sint p > 0 then BSWAP_32 p else p) = p" if "e \<noteq> e'" "0 \<le> sint p" for p :: u32
  proof (cases "sint p > 0")
    case False
    with that(2) have "sint p = sint (0 :: u32)" by simp
    then have "p = 0" by (rule signed_word_eqI)
    with that show ?thesis by (simp add: wview_cross)
  qed (use that in \<open>simp add: wview_cross BSWAP_32_bswap bswap_bswap\<close>)
  with assms have "map (\<lambda>p. wview e' e (if sint p > 0 then BSWAP_32 p else p)) (si_port s) = si_port s"
    if "e \<noteq> e'" using that by (intro map_idI) auto
  then show ?thesis
    by (cases "e = e'") (auto simp: slave_info_view_def swap_ports_def comp_def)
qed

lemma recv_bytes:
  assumes "ch_in c = bs @ rest" and "length bs = n" and "0 < n" and "will_read (n + m) c"
  obtains c' where "ensure_read n c = (int n, bs, c')" and "ch_in c' = rest"
    and "will_read m c'" and "ch_out c' = ch_out c"
proof -
  have ne: "bs \<noteq> []" and w: "will_read (length bs + m) c" using assms by auto
  obtain c' where "ensure_read (length bs) c = (int (length bs), bs, c')" "ch_in c' = rest"
      "will_read m c'" "ch_out c' = ch_out c"
    by (rule sock.recv_prefix [OF assms(1) w ne])
  with that assms(2) show thesis by simp
qed

lemma swap_ports_wf: "slave_info_wf (swap_ports s) = slave_info_wf s"
  by (simp add: slave_info_wf_def swap_ports_def)

lemma strand_get_port_added:
  "strand_get_port (strand_add_slave si s) (si_host si) p = sint (si_port si ! p)"
  by (simp add: strand_get_port_def strand_add_slave_def)

lemma concat_put_slave_info_length:
  "length (concat (map (put_slave_info e) sis)) = SIZEOF_SLAVE_INFO * length sis"
  by (rule slave_info_codec.length_concat_put)

lemma ack_bytes: "put_hs_ack a \<noteq> []" "put_hs_phase1 e h \<noteq> []"
  using ack_codec_length [of a] hs_phase1_length [of e h]
  by (auto simp: SIZEOF_HS_ACK_def SIZEOF_HS_PHASE1_def simp del: ack_codec_length hs_phase1_length)

lemma handshake_understood_witness:
  "\<exists>shm' cs' sent. slave_handshake BigEndian \<lparr>have_rds = False, have_sctp = False, have_ssl = False, have_vsock = False\<rparr>
        ''master'' (shm_init two_groups, \<lparr>ch_rd = replicate 1000 9, ch_in = sent, ch_wr = replicate 1000 9, ch_out = []\<rparr>) =
      (UPERF_SUCCESS, shm', cs') \<and> sh_bitswap shm'"
proof -
  let ?cfg = "\<lparr>have_rds = False, have_sctp = False, have_ssl = False, have_vsock = False\<rparr>"
  let ?e = LittleEndian
  let ?g = "zero_group\<lparr>g_endian := UPERF_ENDIAN_VALUE\<rparr>" and ?ps = "[0, 1, 0, 0, 0, 0, 0, 0 :: int]"
  let ?A = "put_hs_ack \<lparr>ha_status = ''OK'', ha_message = []\<rparr>"
  let ?A2 = "put_hs_ack2 BigEndian \<lparr>ha_status = ''OK'', ha_message = [], ha_no_slave_info = 0\<rparr>"
  let ?cm = "\<lparr>ch_rd = [1000, 1000], ch_in = ?A @ ?A2, ch_wr = [1000, 1000, 1000], ch_out = []\<rparr>"
  let ?P1 = "put_hs_phase1 ?e (phase1_header ?ps)" and ?P2 = "put_hs_phase1 ?e (phase2_header 0)"
  let ?G = "put_group ?e (group_for_slave ''slave'' ?g)"
  let ?cm1 = "\<lparr>ch_rd = [1000], ch_in = ?A2, ch_wr = [1000, 1000], ch_out = ?P1\<rparr>"
  let ?cm2 = "\<lparr>ch_rd = [], ch_in = [], ch_wr = [], ch_out = ?P1 @ ?P2 @ ?G\<rparr>"
  let ?cs = "\<lparr>ch_rd = replicate 1000 9, ch_in = ?P1 @ ?P2 @ ?G, ch_wr = replicate 1000 9, ch_out = []\<rparr>"
  have l: "length ?G = SIZEOF_GROUP_T" "length ?A2 = 196"
    by (rule group_codec.length_put) (use hs_ack2_codec.length_put in \<open>simp only: SIZEOF_HS_ACK2_def\<close>)
  have g: "?G \<noteq> []" by (rule put_nonempty)
  have st: "fst (get_hs_ack ?A) = \<lparr>ha_status = ''OK'', ha_message = []\<rparr>"
    by (rule hs_ack_codec.get_put_exact) (simp add: hs_ack_wf_def c_string_def)
  have p1: "handshake_p1_with_slave ?e ?ps ?cm = (0, ?cm1)"
    using st l by (simp add: handshake_p1_with_slave_def ensure_write_once ensure_read_once ack_bytes
        SIZEOF_HS_ACK_def SIZEOF_HS_PHASE1_def UPERF_OK_def)
  have st2: "fst (get_hs_ack2 ?e ?A2) = \<lparr>ha_status = ''OK'', ha_message = [], ha_no_slave_info = 0\<rparr>"
  proof -
    have "fst (get_hs_ack2 ?e ?A2) = \<lparr>ha_status = ''OK'', ha_message = [], ha_no_slave_info = 0\<rparr>
        \<lparr>ha_no_slave_info := wview BigEndian ?e (ha_no_slave_info \<lparr>ha_status = ''OK'', ha_message = [], ha_no_slave_info = 0\<rparr>)\<rparr>"
      by (rule hs_ack2_codec.get_put_exact) (simp add: c_string_def)
    then show ?thesis by (simp add: wview_cross)
  qed
  have tl: "g_tlist (group_for_slave ''slave'' ?g) = []"
    by (simp add: group_for_slave_def group_opposite_eq Let_def zero_group_def)
  have p2: "handshake_p2_with_slave ?e ?cfg (\<lambda>_ _ p. (0, p)) ''slave'' ?g 0 (shm_init two_groups, ?cm1) =
      Inr (UPERF_SUCCESS, shm_init two_groups, ?cm2)"
    using st2 l g tl by (simp add: handshake_p2_with_slave_def preprocess_accepts_def zero_group_def tx_group_t_def
        tx_slave_infos_def rx_phase2_ack_def ensure_write_once ensure_read_once ack_bytes Let_def
        SIZEOF_HS_ACK2_def SIZEOF_HS_PHASE1_def SIZEOF_GROUP_T_def UPERF_OK_def UPERF_SUCCESS_def UPERF_FAILURE_def)
  have ok: "group_sendable ?g" "supports ?cfg ?ps" "length ?ps = NUM_PROTOCOLS" "\<not> sh_bitswap (shm_init two_groups)"
    by (simp_all add: group_sendable_def group_counts_def zero_group_def NUM_PROTOCOLS_def shm_init_def)
      (simp add: supports_def All_less_Suc2 valid_protocol_def find_protocol_by_type_def plist_def
        PROTOCOL_TCP_def numeral_eq_Suc)
  have rd: "will_read (length (ch_in ?cs)) ?cs" "will_write SIZEOF_HS_ACK ?cs"
    using l by (simp_all add: will_read_def will_write_def SIZEOF_HS_PHASE1_def SIZEOF_GROUP_T_def SIZEOF_HS_ACK_def)
  show ?thesis
    using handshake_understood [OF ok(1-3) p1 p2 _ rd ok(4), of BigEndian "''master''"] by auto
qed


text \<open>
  C16. The ports the slave listens on are the ports the master connects to: when the slave's
  report (\<open>slave_handshake_p2_success\<close>) succeeds and the master reads it, each strand of the
  group looks up, for that host, the port its peer strand listens on, whatever the two byte
  orders.
\<close>

theorem ports_arrive:
  assumes "slave_handshake_p2_success e' junk sl (g_nthreads g) (e \<noteq> e') cs = (UPERF_SUCCESS, cs')"
    and "ch_out cs' = ch_out cs @ ch_in cm" and "will_read (length (ch_in cm)) cm"
    and "length sl = unat (g_nthreads g)" and "g_nthreads g \<noteq> 0" and "c_string 128 (ha_message junk)"
    and "\<forall>s \<in> set sl. slave_info_wf s \<and> (\<forall>p \<in> set (si_port s). 0 \<le> sint p)"
    and "ssid + unat (g_nthreads g) \<le> length (sh_strands shm)"
    and "i < unat (g_nthreads g)"
  shows "\<exists>shm' cm'. rx_phase2_ack e host g ssid (shm, cm) = Inr (UPERF_SUCCESS, shm', cm') \<and>
    strand_get_port (sh_strands shm' ! (i + ssid)) (strlcpy MAXHOSTNAME host) protocol =
      sint (si_port (sl ! i) ! protocol)"
proof -
  let ?no = "g_nthreads g"
  let ?a = "junk\<lparr>ha_no_slave_info := (if e \<noteq> e' then BSWAP_32 ?no else ?no), ha_status := strlcpy 64 UPERF_OK\<rparr>"
  let ?sl = "map (\<lambda>s. if e \<noteq> e' then swap_ports s else s) sl"
  let ?A = "put_hs_ack2 e' ?a" and ?S = "concat (map (put_slave_info e') ?sl)"
  obtain n c1 where n: "ensure_write ?A cs = (n, c1)" by fastforce
  obtain n' c2 where n': "ensure_write ?S c1 = (n', c2)" by fastforce
  have "(if e \<noteq> e' then map swap_ports sl else sl) = ?sl" by simp
  with assms(1) n n' assms(5) have "0 < n" "0 < n'" "cs' = c2"
    by (auto simp: slave_handshake_p2_success_def Let_def UPERF_SUCCESS_def UPERF_FAILURE_def split: if_splits)
  with sock.send_whole [OF n] sock.send_whole [OF n'] assms(2) have inp: "ch_in cm = ?A @ ?S" by simp
  have la: "length ?A = SIZEOF_HS_ACK2" by (rule hs_ack2_codec.length_put)
  have ls: "length ?S = unat ?no * SIZEOF_SLAVE_INFO"
    by (simp only: concat_put_slave_info_length length_map assms(4) mult.commute)
  have pos: "0 < unat ?no" using assms(5) by (simp add: unat_gt_0)
  have rd: "will_read (SIZEOF_HS_ACK2 + unat ?no * SIZEOF_SLAVE_INFO) cm"
    using assms(3) la ls by (simp add: inp)
  obtain d1 where d1: "ensure_read SIZEOF_HS_ACK2 cm = (int SIZEOF_HS_ACK2, ?A, d1)" "ch_in d1 = ?S"
      "will_read (unat ?no * SIZEOF_SLAVE_INFO) d1"
    by (rule recv_bytes [OF inp la _ rd]) (simp add: SIZEOF_HS_ACK2_def)
  have i2: "ch_in d1 = ?S @ []" and rd2: "will_read (unat ?no * SIZEOF_SLAVE_INFO + 0) d1" using d1 by simp_all
  obtain d2 where d2: "ensure_read (unat ?no * SIZEOF_SLAVE_INFO) d1 = (int (unat ?no * SIZEOF_SLAVE_INFO), ?S, d2)"
    by (rule recv_bytes [OF i2 ls _ rd2]) (use pos in \<open>simp add: SIZEOF_SLAVE_INFO_def\<close>)
  have wa: "c_string 64 (ha_status ?a) \<and> c_string 128 (ha_message ?a)"
    using assms(6) by (simp add: c_string_def strlcpy_def UPERF_OK_def)
  have v: "fst (get_hs_ack2 e ?A) = ?a\<lparr>ha_no_slave_info := wview e' e (ha_no_slave_info ?a)\<rparr>"
    by (rule hs_ack2_codec.get_put_exact) (rule wa)
  have ack: "ha_no_slave_info (fst (get_hs_ack2 e ?A)) = ?no" "ha_status (fst (get_hs_ack2 e ?A)) = UPERF_OK"
    unfolding v by (simp_all add: wview_cross BSWAP_32_bswap bswap_bswap strlcpy_def UPERF_OK_def)
  have wf: "\<forall>s \<in> set ?sl. slave_info_wf s"
    using assms(7) by (simp add: swap_ports_wf)
  have "map (slave_info_view e' e) ?sl = sl"
    using assms(7) sint_swap_ports [of _ e' e] by (auto intro!: map_idI)
  with get_put_slave_infos [OF wf, of e e' "[]"] assms(4)
  have infos: "get_slave_infos (unat ?no) e ?S = sl" by simp
  have "0 + unat ?no \<le> length sl" "0 + unat ?no + ssid \<le> length (sh_strands shm)"
    using assms(4,8) by simp_all
  from update_strand_loop_gives [OF this, of host] obtain shm' where
    u: "update_strand_with_slave_info sl host (unat ?no) ssid shm = Inr shm'" and
    s: "sh_strands shm' ! (i + ssid) =
       strand_add_slave ((sl ! i)\<lparr>si_host := strlcpy MAXHOSTNAME host\<rparr>) (sh_strands shm ! (i + ssid))"
    using assms(9) unfolding update_strand_with_slave_info_def by auto
  have "rx_phase2_ack e host g ssid (shm, cm) = Inr (UPERF_SUCCESS, shm', d2)"
    using d1(1) d2 ack u pos assms(5) infos uint_0_iff [of ?no]
    by (simp add: rx_phase2_ack_def Let_def SIZEOF_HS_ACK2_def SIZEOF_SLAVE_INFO_def word_gt_0)
  moreover have "strand_get_port (sh_strands shm' ! (i + ssid)) (strlcpy MAXHOSTNAME host) protocol =
      sint (si_port (sl ! i) ! protocol)"
    using strand_get_port_added [of "(sl ! i)\<lparr>si_host := strlcpy MAXHOSTNAME host\<rparr>" "sh_strands shm ! (i + ssid)"]
    unfolding s by simp
  ultimately show ?thesis by blast
qed

lemma ports_arrive_witness:
  "\<exists>shm' cm'. rx_phase2_ack LittleEndian ''slave'' (zero_group\<lparr>g_nthreads := 1\<rparr>) 0
       ((shm_init two_groups)\<lparr>sh_strands := [zero_strand]\<rparr>,
        \<lparr>ch_rd = replicate 484 9, ch_in = put_hs_ack2 BigEndian \<lparr>ha_status = ''OK'', ha_message = [],
           ha_no_slave_info = BSWAP_32 1\<rparr> @ put_slave_info BigEndian (swap_ports
             \<lparr>si_host = [], si_port = [0, 4242, 0, 0, 0, 0, 0, 0]\<rparr>), ch_wr = [], ch_out = []\<rparr>) =
      Inr (UPERF_SUCCESS, shm', cm') \<and>
    strand_get_port (sh_strands shm' ! (0 + 0)) (strlcpy MAXHOSTNAME ''slave'') 1 = 4242"
proof -
  let ?g = "zero_group\<lparr>g_nthreads := 1\<rparr>" and ?s = "\<lparr>si_host = [], si_port = [0, 4242, 0, 0, 0, 0, 0, 0]\<rparr>"
  let ?junk = "\<lparr>ha_status = ''junk'', ha_message = [], ha_no_slave_info = 7\<rparr>"
  let ?A = "put_hs_ack2 BigEndian \<lparr>ha_status = ''OK'', ha_message = [], ha_no_slave_info = BSWAP_32 1\<rparr>"
  let ?S = "put_slave_info BigEndian (swap_ports ?s)"
  let ?cs = "\<lparr>ch_rd = [], ch_in = [], ch_wr = [1000, 1000], ch_out = []\<rparr>"
  let ?cm = "\<lparr>ch_rd = replicate 484 9, ch_in = ?A @ ?S, ch_wr = [], ch_out = []\<rparr>"
  have l: "length ?A = 196" "length ?S = 288"
    using hs_ack2_codec.length_put slave_info_codec.length_put
    by (simp_all only: SIZEOF_HS_ACK2_def SIZEOF_SLAVE_INFO_def)
  have ne: "?A \<noteq> []" "?S \<noteq> []" using l by (auto simp del: concat_eq_Nil_conv)
  have p2: "slave_handshake_p2_success BigEndian ?junk [?s] (g_nthreads ?g) (LittleEndian \<noteq> BigEndian) ?cs =
      (UPERF_SUCCESS, \<lparr>ch_rd = [], ch_in = [], ch_wr = [], ch_out = ?A @ ?S\<rparr>)"
    using ne l by (simp add: slave_handshake_p2_success_def ensure_write_once strlcpy_def UPERF_OK_def)
  have rd: "will_read (length (ch_in ?cm)) ?cm"
    using l by (simp add: will_read_def)
  have wf: "\<forall>s \<in> set [?s]. slave_info_wf s \<and> (\<forall>p \<in> set (si_port s). 0 \<le> sint p)"
    by (simp add: slave_info_wf_def c_string_def NUM_PROTOCOLS_def c_sizes)
  show ?thesis
    using ports_arrive [OF p2 _ rd _ _ _ wf, of 0 "(shm_init two_groups)\<lparr>sh_strands := [zero_strand]\<rparr>" 0 "''slave''" 1]
    by (simp add: c_string_def)
qed

end
