(* ===== verification/Goodbye.thy ===== *)
theory Goodbye
  imports Handshake Logging
begin

text \<open>
  What master and slave say to each other after the handshake: the commands the master sends
  between transactions (\<open>uperf_send_command\<close>, \<open>uperf_get_command\<close> of \<open>src/common.c\<close>) and the
  goodbye with the slave's totals (\<open>src/goodbye.c\<close>, \<open>slave_master_goodbye\<close> of
  \<open>src/slave.c\<close>, \<open>say_goodbye\<close> and \<open>say_goodbyes_and_close\<close> of \<open>src/master.c\<close>).
\<close>

section \<open>Commands\<close>

definition uperf_send_command :: "endian \<Rightarrow> u32 \<Rightarrow> u32 \<Rightarrow> chan \<Rightarrow> int \<times> chan" where
  "uperf_send_command e command val c =
     sys_write (put_command e \<lparr>uc_magic = strlcpy 64 UPERF_COMMAND_MAGIC, uc_command = command,
                              uc_value = val\<rparr>) c"

definition command_bitswap :: "uperf_command \<Rightarrow> uperf_command" where
  "command_bitswap uc = uc\<lparr>uc_command := BSWAP_32 (uc_command uc), uc_value := BSWAP_32 (uc_value uc)\<rparr>"

definition zero_pad :: "nat \<Rightarrow> byte list \<Rightarrow> byte list" where
  \<comment> \<open>a zeroed struct of \<open>n\<close> bytes that a read filled with \<open>bs\<close>\<close>
  "zero_pad n bs = bs @ replicate (n - length bs) NUL"

definition uperf_get_command :: "endian \<Rightarrow> bool \<Rightarrow> chan \<Rightarrow> int \<times> uperf_command \<times> chan" where
  "uperf_get_command e bitswap c =
     (let (r, bs, c1) = sys_read SIZEOF_COMMAND c;
          uc = fst (get_command e (zero_pad SIZEOF_COMMAND bs))
      in if r < 0 then (- 1, uc, c1)
         else if r = 0 then (- 1, uc, c1)
         else if \<not> strneq0 64 (uc_magic uc) UPERF_COMMAND_MAGIC then (- 1, uc, c1)
         else (0, if bitswap then command_bitswap uc else uc, c1))"

section \<open>Reading a goodbye\<close>

text \<open>
  One turn of \<open>safe_read\<close> asks the environment what \<open>poll\<close> returns, what \<open>read\<close> would
  (\<open>na_read\<close>: at most so many bytes; 0 for end of file; negative for an error, which is
  \<open>EAGAIN\<close> when \<open>na_again\<close>), and how many milliseconds are then left.
\<close>

record net_answer =
  na_poll :: int
  na_read :: int
  na_again :: bool
  na_left :: int

definition net_read :: "net_answer \<Rightarrow> nat \<Rightarrow> byte list \<Rightarrow> int" where
  "net_read a remain inp = (if na_read a \<le> 0 then na_read a else min (na_read a) (int (min remain (length inp))))"

partial_function (option) safe_read_loop ::
  "(nat \<Rightarrow> net_answer) \<Rightarrow> nat \<Rightarrow> byte list \<Rightarrow> nat \<Rightarrow> int \<Rightarrow> byte list \<Rightarrow> (int \<times> byte list \<times> byte list) option" where
  \<comment> \<open>the value, the bytes stored and those left; \<open>None\<close> if it does not return\<close>
  "safe_read_loop env k buf remain poll_timeout inp =
     (if 0 < remain \<and> 0 < poll_timeout then
        if na_poll (env k) < 0 then Some (UPERF_FAILURE, buf, inp)
        else if na_poll (env k) = 0 then Some (UPERF_FAILURE, buf, inp)
        else let r = net_read (env k) remain inp in
          if r \<le> 0 then
            if r = 0 then Some (UPERF_SUCCESS, buf, inp)
            else if na_again (env k) then safe_read_loop env (k + 1) buf remain poll_timeout inp
            else Some (UPERF_FAILURE, buf, inp)
          else safe_read_loop env (k + 1) (buf @ take (nat r) inp) (remain - nat r) (na_left (env k))
                 (drop (nat r) inp)
      else if remain = 0 then Some (UPERF_SUCCESS, buf, inp)
      else Some (UPERF_FAILURE, buf, inp))"

definition safe_read ::
  "(nat \<Rightarrow> net_answer) \<Rightarrow> bool \<Rightarrow> nat \<Rightarrow> int \<Rightarrow> byte list \<Rightarrow> (int \<times> byte list \<times> byte list) option" where
  \<comment> \<open>\<open>nonblock\<close>: \<open>generic_setfd_nonblock\<close> succeeds; \<open>tmo\<close>: the first \<open>poll_timeout\<close>\<close>
  "safe_read env nonblock sz tmo inp =
     (if \<not> nonblock then Some (UPERF_FAILURE, [], inp) else safe_read_loop env 0 [] sz tmo inp)"

definition bitswap_goodbye_t :: "goodbye \<Rightarrow> goodbye" where
  "bitswap_goodbye_t g =
     g\<lparr>gb_msg_type := BSWAP_64 (gb_msg_type g),
       gb_gstat := \<lparr>gs_elapsed_time = BSWAP_64 (gs_elapsed_time (gb_gstat g)),
                    gs_error = BSWAP_64 (gs_error (gb_gstat g)),
                    gs_bytes_xfer = BSWAP_64 (gs_bytes_xfer (gb_gstat g)),
                    gs_count = BSWAP_64 (gs_count (gb_gstat g))\<rparr>\<rparr>"

definition send_goodbye :: "endian \<Rightarrow> goodbye \<Rightarrow> chan \<Rightarrow> int \<times> chan" where
  "send_goodbye e g c =
     (let (n, c1) = sys_write (put_goodbye e (g\<lparr>gb_magic := strlcpy 64 GOODBYE_MAGIC\<rparr>)) c
      in (if n \<le> 0 then UPERF_FAILURE else UPERF_SUCCESS, c1))"

definition recv_goodbye ::
  "endian \<Rightarrow> (nat \<Rightarrow> net_answer) \<Rightarrow> bool \<Rightarrow> int \<Rightarrow> byte list \<Rightarrow> (int \<times> goodbye) option" where
  "recv_goodbye e env nonblock tmo inp =
     (case safe_read env nonblock SIZEOF_GOODBYE tmo inp of
        None \<Rightarrow> None
      | Some (r, bs, rest) \<Rightarrow>
          let g = fst (get_goodbye e (zero_pad SIZEOF_GOODBYE bs)) in
          if r \<noteq> UPERF_SUCCESS then Some (UPERF_FAILURE, g)
          else if \<not> strneq0 64 (gb_magic g) GOODBYE_MAGIC then Some (UPERF_FAILURE, g)
          else Some (UPERF_SUCCESS, g))"

section \<open>The slave says goodbye\<close>

definition slave_goodbye :: "(int \<Rightarrow> string) \<Rightarrow> uperf_log \<Rightarrow> shm \<Rightarrow> goodbye \<times> newstats" where
  "slave_goodbye strerror l shm =
     (let agg = update_aggr_stat (map s_nstats (take (nat (sh_no_strands shm)) (sh_strands shm))) (sh_agg_stat shm);
          g = zero_goodbye\<lparr>gb_gstat := \<lparr>gs_elapsed_time = ns_end_time agg - ns_start_time agg, gs_error = 0,
                gs_bytes_xfer = ns_size agg, gs_count = ns_count agg\<rparr>\<rparr>;
          g1 = (if uperf_log_num_msgs l > 0 then
                  g\<lparr>gb_msg_type := MESSAGE_ERROR,
                    gb_message := uperf_log_flush_to_string strerror l GOODBYE_MESSAGE_LEN\<rparr>
                else g\<lparr>gb_msg_type := MESSAGE_INFO, gb_message := strlcpy GOODBYE_MESSAGE_LEN ''Success''\<rparr>)
      in (if sh_bitswap shm then bitswap_goodbye_t g1 else g1, agg))"

definition slave_master_goodbye ::
  "endian \<Rightarrow> (int \<Rightarrow> string) \<Rightarrow> uperf_log \<Rightarrow> shm \<times> chan \<Rightarrow> shm \<times> chan" where
  "slave_master_goodbye e strerror l st =
     (let (shm, c) = st; (g, agg) = slave_goodbye strerror l shm
      in (shm\<lparr>sh_agg_stat := agg\<rparr>, snd (send_goodbye e g c)))"

section \<open>The master says goodbye\<close>

definition GOODBYE_MSG_SIZE :: nat where "GOODBYE_MSG_SIZE = GOODBYE_MESSAGE_LEN + MAXHOSTNAME + 4"

definition add_goodbye :: "goodbye_stat \<Rightarrow> goodbye_stat \<Rightarrow> goodbye_stat" where
  "add_goodbye t g =
     \<lparr>gs_elapsed_time = max (gs_elapsed_time g) (gs_elapsed_time t), gs_error = gs_error t + gs_error g,
      gs_bytes_xfer = gs_bytes_xfer t + gs_bytes_xfer g, gs_count = gs_count t + gs_count g\<rparr>"

definition goodbye_report :: "(int \<Rightarrow> string) \<Rightarrow> string \<Rightarrow> goodbye \<Rightarrow> uperf_log \<Rightarrow> c_stop + uperf_log" where
  \<comment> \<open>the \<open>switch\<close> on \<open>msg_type\<close>\<close>
  "goodbye_report strerror host g l =
     (if gb_msg_type g = MESSAGE_ERROR then
        uperf_log_msg strerror UPERF_LOG_ERROR 0
          (Some (strlcpy GOODBYE_MSG_SIZE (''['' @ host @ ''] '' @ gb_message g))) l
      else if gb_msg_type g = MESSAGE_WARNING then
        uperf_log_msg strerror UPERF_LOG_WARN 0
          (Some (strlcpy GOODBYE_MSG_SIZE (''['' @ host @ ''] '' @ gb_message g @ ''\<newline>''))) l
      else Inr l)"

definition say_goodbye ::
  "endian \<Rightarrow> (int \<Rightarrow> string) \<Rightarrow> string \<Rightarrow> (int \<times> goodbye) \<Rightarrow> goodbye_stat \<times> uperf_log \<Rightarrow>
     c_stop + int \<times> goodbye_stat \<times> uperf_log" where
  \<comment> \<open>after \<open>recv_goodbye\<close>\<close>
  "say_goodbye e strerror host rg st =
     (let (r, g) = rg; (t, l) = st in
      if r \<noteq> UPERF_SUCCESS then Inr (1, t, l)
      else cbind (goodbye_report strerror host g l) (\<lambda>l1. Inr (0, add_goodbye t (gb_gstat g), l1)))"

record slave_end =
  \<comment> \<open>a slave's control connection at the end: what it sends and what the system answers\<close>
  se_host :: string
  se_env :: "nat \<Rightarrow> net_answer"
  se_nonblock :: bool
  se_in :: "byte list"

fun say_goodbyes_and_close ::
  "endian \<Rightarrow> (int \<Rightarrow> string) \<Rightarrow> int \<Rightarrow> slave_end list \<Rightarrow> goodbye_stat \<times> uperf_log \<Rightarrow>
     (c_stop + goodbye_stat \<times> uperf_log) option" where
  \<comment> \<open>\<open>None\<close> if some \<open>recv_goodbye\<close> does not return\<close>
  "say_goodbyes_and_close e strerror tmo [] st = Some (Inr st)"
| "say_goodbyes_and_close e strerror tmo (s # ss) st =
     (case recv_goodbye e (se_env s) (se_nonblock s) tmo (se_in s) of
        None \<Rightarrow> None
      | Some rg \<Rightarrow>
          (case say_goodbye e strerror (se_host s) rg st of
             Inl stop \<Rightarrow> Some (Inl stop)
           | Inr (_, st1) \<Rightarrow> say_goodbyes_and_close e strerror tmo ss st1))"

section \<open>When \<open>safe_read\<close> returns\<close>

lemma safe_read_loop_again:
  assumes "\<And>j. na_poll (env j) > 0 \<and> na_read (env j) < 0 \<and> na_again (env j)" and "0 < remain" and "0 < t"
  shows "safe_read_loop env k buf remain t inp = None"
proof (rule ccontr)
  let ?P = "\<lambda>env k buf remain t inp (y :: int \<times> byte list \<times> byte list).
      \<not> ((\<forall>j. na_poll (env j) > 0 \<and> na_read (env j) < 0 \<and> na_again (env j)) \<and> 0 < remain \<and> 0 < t)"
  assume "safe_read_loop env k buf remain t inp \<noteq> None"
  then obtain y where y: "safe_read_loop env k buf remain t inp = Some y" by blast
  have "?P env k buf remain t inp y"
  proof (rule safe_read_loop.raw_induct [of ?P, OF _ y])
    fix f :: "(nat \<Rightarrow> net_answer) \<Rightarrow> nat \<Rightarrow> byte list \<Rightarrow> nat \<Rightarrow> int \<Rightarrow> byte list \<Rightarrow> (int \<times> byte list \<times> byte list) option"
    fix env k buf remain t inp y
    assume ih: "\<And>env k buf remain t inp y. f env k buf remain t inp = Some y \<Longrightarrow> ?P env k buf remain t inp y"
      and step: "(if 0 < remain \<and> 0 < t then
        if na_poll (env k) < 0 then Some (UPERF_FAILURE, buf, inp)
        else if na_poll (env k) = 0 then Some (UPERF_FAILURE, buf, inp)
        else let r = net_read (env k) remain inp in
          if r \<le> 0 then
            if r = 0 then Some (UPERF_SUCCESS, buf, inp)
            else if na_again (env k) then f env (k + 1) buf remain t inp
            else Some (UPERF_FAILURE, buf, inp)
          else f env (k + 1) (buf @ take (nat r) inp) (remain - nat r) (na_left (env k)) (drop (nat r) inp)
      else if remain = 0 then Some (UPERF_SUCCESS, buf, inp)
      else Some (UPERF_FAILURE, buf, inp)) = Some y"
    show "?P env k buf remain t inp y"
    proof
      assume a: "(\<forall>j. na_poll (env j) > 0 \<and> na_read (env j) < 0 \<and> na_again (env j)) \<and> 0 < remain \<and> 0 < t"
      then have "na_poll (env k) > 0" "na_read (env k) < 0" "na_again (env k)" by blast+
      with a step have "f env (k + 1) buf remain t inp = Some y"
        by (simp add: net_read_def)
      from ih [OF this] a show False by blast
    qed
  qed
  with assms show False by blast
qed

lemma safe_read_loop_returns:
  assumes "\<And>j. k \<le> j \<Longrightarrow> \<exists>j' \<ge> j. \<not> (na_read (env j') < 0 \<and> na_again (env j'))"
  shows "safe_read_loop env k buf remain t inp \<noteq> None"
  using assms
proof (induction remain arbitrary: k buf t inp rule: less_induct)
  case (less remain)
  have "\<exists>d. \<not> (na_read (env (k + d)) < 0 \<and> na_again (env (k + d)))"
    using less.prems [of k] by (metis le_add_diff_inverse order_refl)
  then obtain d where "\<not> (na_read (env (k + d)) < 0 \<and> na_again (env (k + d)))" by blast
  then show ?case using less.prems
  proof (induction d arbitrary: k)
    case 0
    have go: "0 < net_read (env k) remain inp \<Longrightarrow> 0 < remain \<Longrightarrow>
        safe_read_loop env (k + 1) b (remain - nat (net_read (env k) remain inp)) s i \<noteq> None" for b s i
      by (rule less.IH) (use 0(2) in auto)
    have stop: "net_read (env k) remain inp < 0 \<Longrightarrow> \<not> na_again (env k)"
      using 0(1) by (auto simp: net_read_def split: if_splits)
    show ?case
      using go stop by (subst safe_read_loop.simps) (simp add: Let_def)
  next
    case (Suc d)
    have go: "0 < net_read (env k) remain inp \<Longrightarrow> 0 < remain \<Longrightarrow>
        safe_read_loop env (k + 1) b (remain - nat (net_read (env k) remain inp)) s i \<noteq> None" for b s i
      by (rule less.IH) (use Suc.prems(2) in auto)
    have "safe_read_loop env (k + 1) buf remain t inp \<noteq> None"
      by (rule Suc.IH) (use Suc.prems in auto)
    with go show ?case
      by (subst safe_read_loop.simps) (simp add: Let_def)
  qed
qed

text \<open>
  When \<open>safe_read\<close> returns: if the socket does not answer \<open>EAGAIN\<close> for ever it
  does, and on a socket that is always ready and always answers \<open>EAGAIN\<close> it never does,
  however small the timeout: the time left is not recomputed on that path.
\<close>

lemma safe_read_returns:
  "((\<forall>j. \<exists>j' \<ge> j. \<not> (na_read (env j') < 0 \<and> na_again (env j'))) \<longrightarrow>
      safe_read env nonblock sz tmo inp \<noteq> None) \<and>
   (0 < sz \<longrightarrow> 0 < tmo \<longrightarrow>
      safe_read (\<lambda>j. \<lparr>na_poll = 1, na_read = - 1, na_again = True, na_left = 0\<rparr>) True sz tmo inp = None)"
  using safe_read_loop_returns [of 0 env] by (simp add: safe_read_def safe_read_loop_again)

lemma safe_read_returns_witness:
  "safe_read (\<lambda>j. \<lparr>na_poll = 1, na_read = 5, na_again = False, na_left = 3\<rparr>) True 616 15000 [] \<noteq> None \<and>
   safe_read (\<lambda>j. \<lparr>na_poll = 1, na_read = - 1, na_again = True, na_left = 0\<rparr>) True 616 15000 [] = None"
  using safe_read_returns [of "\<lambda>j. \<lparr>na_poll = 1, na_read = 5, na_again = False, na_left = 3\<rparr>" True 616 15000 "[]"]
  by auto

section \<open>When the data comes in time\<close>

definition delivers :: "(nat \<Rightarrow> net_answer) \<Rightarrow> bool" where
  \<comment> \<open>always ready, and never too late\<close>
  "delivers env = (\<forall>j. 0 < na_poll (env j) \<and> 0 < na_read (env j) \<and> 0 < na_left (env j))"

lemma safe_read_loop_delivered:
  assumes "delivers env" and "0 < t" and "remain \<le> length inp"
  shows "safe_read_loop env k buf remain t inp = Some (UPERF_SUCCESS, buf @ take remain inp, drop remain inp)"
  using assms(2,3)
proof (induction remain arbitrary: k buf t inp rule: less_induct)
  case (less remain)
  show ?case
  proof (cases "remain = 0")
    case False
    let ?r = "net_read (env k) remain inp"
    have a: "0 < na_poll (env k)" "0 < na_read (env k)" "0 < na_left (env k)"
      using assms(1) by (auto simp: delivers_def)
    have r: "0 < ?r" "nat ?r \<le> remain"
      using a False less.prems(2) by (auto simp: net_read_def)
    have "take (nat ?r) inp @ take (remain - nat ?r) (drop (nat ?r) inp) = take remain inp"
      using r(2) by (metis le_add_diff_inverse take_add)
    with less.IH [of "remain - nat ?r" "na_left (env k)" "drop (nat ?r) inp" "k + 1" "buf @ take (nat ?r) inp"]
      a r False less.prems
    show ?thesis by (subst safe_read_loop.simps) (simp add: Let_def)
  qed (subst safe_read_loop.simps, simp)
qed

lemma goodbye_fields:
  assumes "c_string 64 (gb_magic g)"
  shows "gb_magic (fst (get_goodbye e' (put_goodbye e g @ r))) = gb_magic g"
    and "gb_msg_type (fst (get_goodbye e' (put_goodbye e g @ r))) = wview e e' (gb_msg_type g)"
    and "gb_gstat (fst (get_goodbye e' (put_goodbye e g @ r))) = gb_gstat (goodbye_view e e' g)"
  using assms
  by (simp_all add: put_goodbye_def get_goodbye_def goodbye_view_def wire_simps Let_def split: prod.splits)

lemma recv_goodbye_delivered:
  assumes "delivers env" and "0 < tmo" and "gb_magic g = GOODBYE_MAGIC"
  shows "\<exists>g'. recv_goodbye e' env True tmo (put_goodbye e g @ rest) = Some (UPERF_SUCCESS, g') \<and>
    gb_msg_type g' = wview e e' (gb_msg_type g) \<and> gb_gstat g' = gb_gstat (goodbye_view e e' g)"
proof -
  have l: "length (put_goodbye e g) = SIZEOF_GOODBYE" by (rule goodbye_codec.length_put)
  have m: "c_string 64 (gb_magic g)" by (simp add: assms(3) GOODBYE_MAGIC_def c_string_def)
  from safe_read_loop_delivered [OF assms(1,2), of SIZEOF_GOODBYE "put_goodbye e g @ rest" 0 "[]"] l
  have "safe_read env True SIZEOF_GOODBYE tmo (put_goodbye e g @ rest) = Some (UPERF_SUCCESS, put_goodbye e g, rest)"
    by (simp add: safe_read_def)
  with goodbye_fields [OF m, of e' e "[]"] l assms(3) show ?thesis
    by (simp add: recv_goodbye_def zero_pad_def strneq0_def)
qed

section \<open>The totals\<close>

definition good_slave :: "endian \<Rightarrow> (int \<Rightarrow> string) \<Rightarrow> slave_end \<Rightarrow> endian \<times> uperf_log \<times> shm \<Rightarrow> bool" where
  \<comment> \<open>a slave that knows the master's byte order and whose goodbye was written in one piece and
     arrives in time\<close>
  "good_slave e strerror s x =
     (let (e', l, shm) = x in
      se_nonblock s \<and> delivers (se_env s) \<and> sh_bitswap shm = (e \<noteq> e') \<and>
      (\<exists>c. ch_out (snd (slave_master_goodbye e' strerror l (shm, c))) = ch_out c @ se_in s \<and>
           length (se_in s) = SIZEOF_GOODBYE))"

definition slave_bytes :: "shm \<Rightarrow> u64" where
  "slave_bytes shm = sum_list (map (\<lambda>s. ns_size (s_nstats s)) (take (nat (sh_no_strands shm)) (sh_strands shm)))"

definition slave_count :: "shm \<Rightarrow> u64" where
  "slave_count shm = sum_list (map (\<lambda>s. ns_count (s_nstats s)) (take (nat (sh_no_strands shm)) (sh_strands shm)))"

definition slave_elapsed :: "shm \<Rightarrow> u64" where
  "slave_elapsed shm = ns_end_time (sh_agg_stat shm) - ns_start_time (sh_agg_stat shm)"

lemma slave_goodbye_stat:
  "gb_gstat (fst (slave_goodbye strerror l (shm\<lparr>sh_bitswap := False\<rparr>))) =
     \<lparr>gs_elapsed_time = slave_elapsed shm, gs_error = 0, gs_bytes_xfer = slave_bytes shm, gs_count = slave_count shm\<rparr>"
  by (simp add: slave_goodbye_def update_aggr_stat_sums zero_goodbye_def slave_elapsed_def slave_bytes_def
      slave_count_def comp_def Let_def)

lemma slave_goodbye_swapped:
  "fst (slave_goodbye strerror l shm) =
     (if sh_bitswap shm then bitswap_goodbye_t (fst (slave_goodbye strerror l (shm\<lparr>sh_bitswap := False\<rparr>)))
      else fst (slave_goodbye strerror l (shm\<lparr>sh_bitswap := False\<rparr>)))"
  by (simp add: slave_goodbye_def Let_def)

lemma bitswap_view:
  "gb_gstat (goodbye_view e' e (if e \<noteq> e' then bitswap_goodbye_t g else g)) = gb_gstat g"
  by (cases "e = e'") (simp_all add: goodbye_view_def bitswap_goodbye_t_def wview_cross BSWAP_64_bswap bswap_bswap)

lemma send_goodbye_whole:
  assumes "ch_out (snd (send_goodbye e g c)) = ch_out c @ bs" and "length bs = SIZEOF_GOODBYE"
  shows "bs = put_goodbye e (g\<lparr>gb_magic := GOODBYE_MAGIC\<rparr>)"
proof -
  let ?g = "g\<lparr>gb_magic := strlcpy 64 GOODBYE_MAGIC\<rparr>"
  have m: "strlcpy 64 GOODBYE_MAGIC = GOODBYE_MAGIC" by (simp add: strlcpy_def GOODBYE_MAGIC_def)
  have l: "length (put_goodbye e ?g) = SIZEOF_GOODBYE" by (rule goodbye_codec.length_put)
  obtain n c1 where w: "sys_write (put_goodbye e ?g) c = (n, c1)" by fastforce
  have "ch_out c1 = ch_out c @ bs" using assms(1) w by (simp add: send_goodbye_def)
  with sys_write_pos [OF w] w l assms(2) have "bs = put_goodbye e ?g"
    by (auto simp: sys_write_def Let_def SIZEOF_GOODBYE_def min_def split: list.splits if_splits)
  then show ?thesis by (simp add: m)
qed

lemma good_slave_received:
  assumes "good_slave e strerror s (e', l, shm)" and "0 < tmo"
  shows "\<exists>g. recv_goodbye e (se_env s) (se_nonblock s) tmo (se_in s) = Some (UPERF_SUCCESS, g) \<and>
    gb_gstat g = \<lparr>gs_elapsed_time = slave_elapsed shm, gs_error = 0, gs_bytes_xfer = slave_bytes shm,
                  gs_count = slave_count shm\<rparr>"
proof -
  let ?g = "fst (slave_goodbye strerror l shm)"
  let ?h = "fst (slave_goodbye strerror l (shm\<lparr>sh_bitswap := False\<rparr>))"
  from assms(1) obtain c where "ch_out (snd (send_goodbye e' ?g c)) = ch_out c @ se_in s"
      and "length (se_in s) = SIZEOF_GOODBYE" and d: "delivers (se_env s)" "se_nonblock s" "sh_bitswap shm = (e \<noteq> e')"
    by (auto simp: good_slave_def slave_master_goodbye_def case_prod_beta)
  then have i: "se_in s = put_goodbye e' (?g\<lparr>gb_magic := GOODBYE_MAGIC\<rparr>)" using send_goodbye_whole by blast
  have "gb_gstat (goodbye_view e' e (?g\<lparr>gb_magic := GOODBYE_MAGIC\<rparr>)) = gb_gstat (goodbye_view e' e ?g)"
    by (simp add: goodbye_view_def)
  also have "\<dots> = gb_gstat ?h"
    using bitswap_view [of e' e ?h] d(3) by (subst slave_goodbye_swapped) simp
  finally show ?thesis
    using recv_goodbye_delivered [OF d(1) assms(2), of "?g\<lparr>gb_magic := GOODBYE_MAGIC\<rparr>" e e' "[]"] d(2)
    by (auto simp: i slave_goodbye_stat)
qed

lemma goodbye_report_ok:
  assumes "length (l_msg l) < NUM_ERR_STR"
  shows "\<exists>l'. goodbye_report strerror host g l = Inr l' \<and> length (l_msg l') \<le> length (l_msg l) + 1"
proof -
  have "\<exists>l'. uperf_log_msg strerror t 0 (Some s) l = Inr l' \<and> length (l_msg l') \<le> length (l_msg l) + 1" for t s
    using assms bump_count_length [of s "l_msg l"]
    by (auto simp: uperf_log_msg_def EINTR_def split: option.splits)
  then show ?thesis by (simp add: goodbye_report_def)
qed

text \<open>
  C26. The totals the master prints are the totals of the strands of all slaves: whatever
  their byte orders, if every slave's goodbye was written in one piece and arrives in time, the
  bytes and operations in the total are the sums over all strands of all slaves, and the
  elapsed time is the longest.
\<close>

theorem goodbye_totals:
  assumes "list_all2 (good_slave e strerror) ss xs" and "0 < tmo"
    and "length (l_msg l) + length ss \<le> NUM_ERR_STR"
  shows "\<exists>t' l'. say_goodbyes_and_close e strerror tmo ss (t, l) = Some (Inr (t', l')) \<and>
    gs_bytes_xfer t' = gs_bytes_xfer t + sum_list (map (\<lambda>(_, _, shm). slave_bytes shm) xs) \<and>
    gs_count t' = gs_count t + sum_list (map (\<lambda>(_, _, shm). slave_count shm) xs) \<and>
    gs_elapsed_time t' = fold max (map (\<lambda>(_, _, shm). slave_elapsed shm) xs) (gs_elapsed_time t)"
  using assms(1,3)
proof (induction ss xs arbitrary: t l rule: list_all2_induct)
  case (Cons s ss x xs)
  obtain e' lg shm where x: "x = (e', lg, shm)" by (cases x)
  obtain g where g: "recv_goodbye e (se_env s) (se_nonblock s) tmo (se_in s) = Some (UPERF_SUCCESS, g)"
      "gb_gstat g = \<lparr>gs_elapsed_time = slave_elapsed shm, gs_error = 0, gs_bytes_xfer = slave_bytes shm,
                    gs_count = slave_count shm\<rparr>"
    using good_slave_received [OF Cons.hyps(1) [unfolded x] assms(2)] by blast
  have "length (l_msg l) < NUM_ERR_STR" using Cons.prems by simp
  then obtain l1 where l1: "goodbye_report strerror (se_host s) g l = Inr l1" "length (l_msg l1) \<le> length (l_msg l) + 1"
    using goodbye_report_ok by blast
  have "length (l_msg l1) + length ss \<le> NUM_ERR_STR" using l1(2) Cons.prems by simp
  from Cons.IH [OF this, of "add_goodbye t (gb_gstat g)"] g l1(1) show ?case
    by (auto simp: say_goodbye_def add_goodbye_def x add.assoc)
qed simp

lemma goodbye_totals_witness:
  "\<exists>t' l' inp. say_goodbyes_and_close LittleEndian (\<lambda>_. []) 15000
      [\<lparr>se_host = ''slave'', se_env = \<lambda>_. \<lparr>na_poll = 1, na_read = 100, na_again = False, na_left = 9\<rparr>,
        se_nonblock = True, se_in = inp\<rparr>]
      (\<lparr>gs_elapsed_time = 0, gs_error = 0, gs_bytes_xfer = 5, gs_count = 0\<rparr>, uperf_log_init) = Some (Inr (t', l')) \<and>
    gs_bytes_xfer t' = 12"
proof -
  let ?shm = "(shm_init two_groups)\<lparr>sh_bitswap := True, sh_no_strands := 1,
      sh_strands := [zero_strand\<lparr>s_nstats := zero_stats\<lparr>ns_size := 7\<rparr>\<rparr>]\<rparr>"
  let ?g = "fst (slave_goodbye (\<lambda>_. []) uperf_log_init ?shm)"
  let ?inp = "put_goodbye BigEndian (?g\<lparr>gb_magic := strlcpy 64 GOODBYE_MAGIC\<rparr>)"
  let ?s = "\<lparr>se_host = ''slave'', se_env = \<lambda>_. \<lparr>na_poll = 1, na_read = 100, na_again = False, na_left = 9\<rparr>,
        se_nonblock = True, se_in = ?inp\<rparr>"
  let ?c = "\<lparr>ch_rd = [], ch_in = [], ch_wr = [1000], ch_out = []\<rparr>"
  have l: "length ?inp = SIZEOF_GOODBYE" by (rule goodbye_codec.length_put)
  then have "sys_write ?inp ?c = (616, \<lparr>ch_rd = [], ch_in = [], ch_wr = [], ch_out = ?inp\<rparr>)"
    by (simp add: sys_write_def Let_def SIZEOF_GOODBYE_def)
  then have "ch_out (snd (slave_master_goodbye BigEndian (\<lambda>_. []) uperf_log_init (?shm, ?c))) = ch_out ?c @ ?inp"
    by (simp add: slave_master_goodbye_def send_goodbye_def case_prod_beta)
  with l have "\<exists>c. ch_out (snd (slave_master_goodbye BigEndian (\<lambda>_. []) uperf_log_init (?shm, c))) = ch_out c @ ?inp \<and>
      length ?inp = SIZEOF_GOODBYE" by blast
  then have "good_slave LittleEndian (\<lambda>_. []) ?s (BigEndian, uperf_log_init, ?shm)"
    by (simp add: good_slave_def delivers_def del: append.simps)
  then have "list_all2 (good_slave LittleEndian (\<lambda>_. [])) [?s] [(BigEndian, uperf_log_init, ?shm)]" by simp
  from goodbye_totals [OF this, of 15000 uperf_log_init "\<lparr>gs_elapsed_time = 0, gs_error = 0, gs_bytes_xfer = 5, gs_count = 0\<rparr>"]
  show ?thesis by (auto simp: uperf_log_init_def NUM_ERR_STR_def slave_bytes_def)
qed

section \<open>Commands arrive\<close>

lemma put_word_0: "put_word e (0 :: u32) = [NUL, NUL, NUL, NUL]"
  by (cases e) (simp_all add: put_word_def host_order_def le_bytes_4 char_of_bits)

lemma zero_pad_command:
  "zero_pad SIZEOF_COMMAND (put_chars 64 m) = put_command e \<lparr>uc_magic = m, uc_command = 0, uc_value = 0\<rparr>"
proof -
  have "replicate 8 NUL = [NUL, NUL, NUL, NUL, NUL, NUL, NUL, NUL]" by (simp add: numeral_eq_Suc)
  then show ?thesis by (simp add: zero_pad_def put_command_def SIZEOF_COMMAND_def put_word_0)
qed

lemma SIZEOF_COMMAND_pos: "0 < SIZEOF_COMMAND" "SIZEOF_COMMAND \<noteq> 0"
  by (simp_all add: SIZEOF_COMMAND_def)

lemma command_fields:
  "c_string 64 (uc_magic uc) \<Longrightarrow> fst (get_command e' (put_command e uc)) = command_view e e' uc"
  by (rule command_codec.get_put_exact)

lemma get_command_ready:
  assumes "ch_in c = put_command e \<lparr>uc_magic = strlcpy 64 UPERF_COMMAND_MAGIC, uc_command = cmd, uc_value = val\<rparr> @ rest"
    and "ch_rd c = a # as" and "int SIZEOF_COMMAND \<le> a"
  shows "\<exists>uc. uperf_get_command e' (e \<noteq> e') c = (0, uc, c\<lparr>ch_rd := as, ch_in := rest\<rparr>) \<and>
    uc_command uc = cmd \<and> uc_value uc = val"
proof -
  let ?uc = "\<lparr>uc_magic = strlcpy 64 UPERF_COMMAND_MAGIC, uc_command = cmd, uc_value = val\<rparr>"
  have m: "strlcpy 64 UPERF_COMMAND_MAGIC = UPERF_COMMAND_MAGIC" "c_string 64 UPERF_COMMAND_MAGIC"
    by (simp_all add: strlcpy_def UPERF_COMMAND_MAGIC_def c_string_def)
  have l: "length (put_command e ?uc) = SIZEOF_COMMAND" by (rule command_codec.length_put)
  have "nat a \<ge> SIZEOF_COMMAND" "0 < a" using assms(3) by (auto simp: SIZEOF_COMMAND_def)
  then have r: "sys_read SIZEOF_COMMAND c = (int SIZEOF_COMMAND, put_command e ?uc, c\<lparr>ch_rd := as, ch_in := rest\<rparr>)"
    using assms(2) l by (simp add: sys_read_def assms(1) Let_def min_def)
  have v: "fst (get_command e' (put_command e ?uc)) = command_view e e' ?uc"
    by (rule command_fields) (simp add: m)
  show ?thesis
    using l v by (cases "e = e'") (simp_all add: uperf_get_command_def r zero_pad_def command_view_def m
        strneq0_def command_bitswap_def wview_cross BSWAP_32_bswap bswap_bswap Let_def SIZEOF_COMMAND_pos)
qed

text \<open>
  A command the master wrote whole is the command the slave acts on, in any byte order,
  when the slave's one \<open>read\<close> returns all of it.
\<close>

lemma command_delivered:
  assumes "uperf_send_command e cmd val cm = (int SIZEOF_COMMAND, cm')"
    and "ch_out cm' = ch_out cm @ ch_in cs"
    and "ch_rd cs = a # as" and "int SIZEOF_COMMAND \<le> a"
  shows "\<exists>uc cs'. uperf_get_command e' (e \<noteq> e') cs = (0, uc, cs') \<and> uc_command uc = cmd \<and> uc_value uc = val \<and>
    ch_in cs' = []"
proof -
  let ?uc = "\<lparr>uc_magic = strlcpy 64 UPERF_COMMAND_MAGIC, uc_command = cmd, uc_value = val\<rparr>"
  have m: "strlcpy 64 UPERF_COMMAND_MAGIC = UPERF_COMMAND_MAGIC" "c_string 64 UPERF_COMMAND_MAGIC"
    by (simp_all add: strlcpy_def UPERF_COMMAND_MAGIC_def c_string_def)
  have l: "length (put_command e ?uc) = SIZEOF_COMMAND" by (rule command_codec.length_put)
  from assms(1) sys_write_pos [of "put_command e ?uc" cm _ cm'] assms(2) l
  have i: "ch_in cs = put_command e ?uc"
    by (auto simp: uperf_send_command_def SIZEOF_COMMAND_def)
  show ?thesis using get_command_ready [of cs e cmd val "[]" a as e'] i assms(3,4) by auto
qed

lemma command_delivered_witness:
  "\<exists>uc cs' inp. uperf_get_command BigEndian True \<lparr>ch_rd = [100], ch_in = inp, ch_wr = [], ch_out = []\<rparr> = (0, uc, cs') \<and>
     uc_command uc = UPERF_CMD_SEND_STATS \<and> uc_value uc = 3"
proof -
  let ?uc = "\<lparr>uc_magic = strlcpy 64 UPERF_COMMAND_MAGIC, uc_command = UPERF_CMD_SEND_STATS, uc_value = 3\<rparr>"
  let ?i = "put_command LittleEndian ?uc"
  let ?cm = "\<lparr>ch_rd = [], ch_in = [], ch_wr = [100], ch_out = []\<rparr>"
  have l: "length ?i = SIZEOF_COMMAND" by (rule command_codec.length_put)
  then have "uperf_send_command LittleEndian UPERF_CMD_SEND_STATS 3 ?cm =
      (int SIZEOF_COMMAND, \<lparr>ch_rd = [], ch_in = [], ch_wr = [], ch_out = ?i\<rparr>)"
    by (simp add: uperf_send_command_def sys_write_def Let_def SIZEOF_COMMAND_def)
  from command_delivered [OF this, of "\<lparr>ch_rd = [100], ch_in = ?i, ch_wr = [], ch_out = []\<rparr>" 100 "[]" BigEndian]
  show ?thesis by (auto simp: SIZEOF_COMMAND_def)
qed

text \<open>
  A short read is not noticed: if only the magic of a command has arrived, the slave takes
  the missing fields for zeros, which is the command to start the next transaction, and the rest
  of the command is left to be read as the beginning of the next one.
\<close>

lemma short_command_misread:
  assumes "ch_in cs = put_command e uc @ rest" and "uc_magic uc = UPERF_COMMAND_MAGIC" and "ch_rd cs = 64 # as"
  shows "\<exists>uc' cs'. uperf_get_command e' bitswap cs = (0, uc', cs') \<and> uc_command uc' = UPERF_CMD_NEXT_TXN \<and>
    uc_value uc' = 0 \<and> ch_in cs' = drop 64 (put_command e uc) @ rest"
proof -
  have l: "length (put_command e uc) = SIZEOF_COMMAND" by (rule command_codec.length_put)
  have p: "take 64 (put_command e uc) = put_chars 64 (uc_magic uc)"
    by (simp add: put_command_def)
  have r: "sys_read SIZEOF_COMMAND cs = (64, put_chars 64 (uc_magic uc),
      cs\<lparr>ch_rd := as, ch_in := drop 64 (put_command e uc) @ rest\<rparr>)"
    using assms(1,3) l p by (simp add: sys_read_def Let_def SIZEOF_COMMAND_def)
  have "zero_pad SIZEOF_COMMAND (put_chars 64 (uc_magic uc)) = put_command e' \<lparr>uc_magic = uc_magic uc, uc_command = 0, uc_value = 0\<rparr>"
    by (rule zero_pad_command)
  moreover have "fst (get_command e' (put_command e' \<lparr>uc_magic = uc_magic uc, uc_command = 0, uc_value = 0\<rparr>)) =
      \<lparr>uc_magic = uc_magic uc, uc_command = 0, uc_value = 0\<rparr>"
    using command_fields [of "\<lparr>uc_magic = uc_magic uc, uc_command = 0, uc_value = 0\<rparr>" e' e']
    by (simp add: assms(2) UPERF_COMMAND_MAGIC_def c_string_def command_view_def)
  ultimately show ?thesis
    by (simp add: uperf_get_command_def r assms(2) strneq0_def command_bitswap_def UPERF_CMD_NEXT_TXN_def
        BSWAP_32_bswap Let_def)
qed

lemma short_command_misread_witness:
  "\<exists>uc' cs'. uperf_get_command BigEndian False
     \<lparr>ch_rd = [64], ch_in = put_command LittleEndian \<lparr>uc_magic = UPERF_COMMAND_MAGIC, uc_command = UPERF_CMD_SEND_STATS,
        uc_value = 3\<rparr> @ [], ch_wr = [], ch_out = []\<rparr> = (0, uc', cs') \<and> uc_command uc' = UPERF_CMD_NEXT_TXN"
  using short_command_misread [of "\<lparr>ch_rd = [64], ch_in = put_command LittleEndian \<lparr>uc_magic = UPERF_COMMAND_MAGIC,
      uc_command = UPERF_CMD_SEND_STATS, uc_value = 3\<rparr> @ [], ch_wr = [], ch_out = []\<rparr>" LittleEndian _ "[]" "[]" BigEndian False]
  by force
end
