(* ===== verification/Signals.thy ===== *)
theory Signals
  imports Flowlib Goodbye Execute
begin

text \<open>
  How the main thread reaches the strands: the signals and their handlers (\<open>src/signals.c\<close>),
  sending them (\<open>signal_strand\<close>, \<open>signal_all_strands\<close>, \<open>strand_killall\<close>, \<open>wait_for_strands\<close> of
  \<open>src/strand.c\<close>) and the callouts that end a transaction with a duration
  (\<open>shm_process_callouts\<close> of \<open>src/shm.c\<close>).

  The state of the main thread is the shared region, \<open>errno\<close>, the error log, its control
  connections and the world. What the strands do meanwhile is the parameter \<open>ce_strands\<close>,
  applied where the main thread sleeps or polls; the system calls are parameters too.
\<close>

section \<open>Handlers\<close>

datatype csignal = SIGUSR1 | SIGUSR2 | SIGKILL | SIGINT | SIGPIPE | SIGCHLD

datatype handled = Thread_exits | Process_exits int | Handler_returns

definition signal_handler :: "csignal \<Rightarrow> handled" where
  "signal_handler s =
     (if s = SIGUSR1 then Thread_exits else if s = SIGINT then Process_exits 2 else Handler_returns)"

fun install :: "(csignal \<Rightarrow> bool) \<Rightarrow> csignal list \<Rightarrow> int" where
  \<comment> \<open>a sequence of \<open>sigaction\<close> calls, up to the first that fails\<close>
  "install ok [] = UPERF_SUCCESS"
| "install ok (s # ss) = (if ok s then install ok ss else UPERF_FAILURE)"

definition setup_strand_signal :: "(csignal \<Rightarrow> bool) \<Rightarrow> (csignal \<Rightarrow> bool) \<times> int" where
  \<comment> \<open>which signals are blocked (\<open>sigprocmask\<close> succeeds), and the result\<close>
  "setup_strand_signal ok = (\<lambda>s. s \<noteq> SIGUSR2 \<and> s \<noteq> SIGUSR1, install ok [SIGUSR1, SIGUSR2])"

definition master_setup_signal_handler :: "(csignal \<Rightarrow> bool) \<Rightarrow> (csignal \<Rightarrow> bool) \<times> int" where
  "master_setup_signal_handler ok = (\<lambda>s. s = SIGUSR2, install ok [SIGINT, SIGUSR2, SIGPIPE])"

definition sigchld_signal :: "csignal \<Rightarrow> nat \<Rightarrow> nat" where
  \<comment> \<open>the slave's handler and \<open>reap_children\<close>\<close>
  "sigchld_signal s n = (if s = SIGCHLD then n + 1 else n)"

definition setup_slave_signal :: "(csignal \<Rightarrow> bool) \<Rightarrow> int" where
  "setup_slave_signal ok = install ok [SIGCHLD, SIGPIPE, SIGUSR2]"

section \<open>The main thread\<close>

record 'w cs =
  cs_shm :: shm
  cs_errno :: int
  cs_log :: uperf_log
  cs_conns :: "chan list"
  cs_world :: 'w

record 'w ctlenv =
  ce_strerror :: "int \<Rightarrow> string"
  ce_endian :: endian
  ce_copt :: u32
  ce_strands :: "'w cs \<Rightarrow> 'w cs"
  ce_clock :: "'w \<Rightarrow> u64 \<times> 'w"
  ce_kill :: "int \<Rightarrow> csignal \<Rightarrow> 'w \<Rightarrow> reply \<times> 'w"
  ce_pthread_kill :: "nat \<Rightarrow> csignal \<Rightarrow> 'w \<Rightarrow> int \<times> 'w"
  ce_pthread_join :: "nat \<Rightarrow> 'w \<Rightarrow> int \<times> 'w"
  ce_wait :: "'w \<Rightarrow> int \<times> 'w"
  ce_nanosleep :: "u64 \<Rightarrow> 'w \<Rightarrow> reply \<times> 'w"
  ce_kernel :: "'w kernel"
  ce_fd :: int
  ce_poll :: "nat \<Rightarrow> 'w \<Rightarrow> int \<times> 'w"
  ce_peers :: "(string \<times> int) list"
  ce_interval :: u64

definition REPEATED_SIGNAL_RETRIES :: nat where "REPEATED_SIGNAL_RETRIES = 5"
definition SIGNAL_SLEEP :: u64 where "SIGNAL_SLEEP = 200000000"

definition set_shm :: "shm \<Rightarrow> 'w cs \<Rightarrow> 'w cs" where
  "set_shm shm st = st\<lparr>cs_shm := shm\<rparr>"

definition cs_report :: "'w ctlenv \<Rightarrow> msg_type \<Rightarrow> int \<Rightarrow> string \<Rightarrow> 'w cs \<Rightarrow> c_stop + 'w cs" where
  "cs_report E t e s st =
     cbind (uperf_log_msg (ce_strerror E) t e (Some s) (cs_log st)) (\<lambda>l.
       Inr (st\<lparr>cs_log := l, cs_errno := (if e = EINTR then cs_errno st else e)\<rparr>))"

definition cs_io :: "'w ctlenv \<Rightarrow> ('w, 'a) io \<Rightarrow> 'w cs \<Rightarrow> c_stop + 'a \<times> 'w cs" where
  \<comment> \<open>a program of the socket layer, its reports made to the log\<close>
  "cs_io E m st =
     (case run_state m \<lparr>pc_errno = cs_errno st, pc_log = [], pc_world = cs_world st\<rparr> of
        (x, p) \<Rightarrow> cbind (log_all (ce_strerror E) (pc_log p) (cs_log st)) (\<lambda>l.
          Inr (x, st\<lparr>cs_log := l, cs_errno := pc_errno p, cs_world := pc_world p\<rparr>)))"

definition cs_now :: "'w ctlenv \<Rightarrow> 'w cs \<Rightarrow> u64 \<times> 'w cs" where
  "cs_now E st = (case ce_clock E (cs_world st) of (t, w) \<Rightarrow> (t, st\<lparr>cs_world := w\<rparr>))"

section \<open>Sending signals\<close>

definition is_process :: "strand \<Rightarrow> bool" where
  "is_process s = (s_flag s AND STRAND_TYPE_PROCESS \<noteq> 0)"

definition signal_strand :: "'w ctlenv \<Rightarrow> nat \<Rightarrow> csignal \<Rightarrow> 'w cs \<Rightarrow> c_stop + int \<times> 'w cs" where
  "signal_strand E i sig st =
     cbind (shm_get_strand (cs_shm st) i) (\<lambda>s.
       if is_process s then
         (case ce_kill E (s_pid s) sig (cs_world st) of (r, w) \<Rightarrow>
            Inr (re_ret r, st\<lparr>cs_errno := (if re_ret r < 0 then re_errno r else cs_errno st), cs_world := w\<rparr>))
       else
         (case ce_pthread_kill E i (if sig = SIGKILL then SIGUSR1 else sig) (cs_world st) of (r, w) \<Rightarrow>
            Inr (r, st\<lparr>cs_errno := 0, cs_world := w\<rparr>)))"

fun killall_loop :: "'w ctlenv \<Rightarrow> nat list \<Rightarrow> 'w cs \<Rightarrow> c_stop + 'w cs" where
  "killall_loop E [] st = Inr st"
| "killall_loop E (i # is) st = cbind (signal_strand E i SIGKILL st) (\<lambda>(_, st1). killall_loop E is st1)"

definition strand_indices :: "shm \<Rightarrow> nat list" where
  "strand_indices shm = [0..<nat (sh_no_strands shm)]"

definition strand_killall :: "'w ctlenv \<Rightarrow> 'w cs \<Rightarrow> c_stop + int \<times> 'w cs" where
  "strand_killall E st =
     cbind (killall_loop E (strand_indices (cs_shm st)) st) (\<lambda>st1. Inr (0, st1))"

definition at_barrier :: "strand \<Rightarrow> bool" where
  "at_barrier s = (s_state s = STRAND_STATE_AT_BARRIER)"

fun mark_strands :: "int \<Rightarrow> nat list \<Rightarrow> shm \<Rightarrow> c_stop + shm" where
  \<comment> \<open>the first loop: \<open>worklist\<close> is freed when the strand ends, and followed here\<close>
  "mark_strands groupid [] shm = Inr shm"
| "mark_strands groupid (i # is) shm =
     cbind (shm_get_strand shm i) (\<lambda>s.
       if at_barrier s then mark_strands groupid is shm
       else if groupid = - 1 then mark_strands groupid is (shm_set_strand i (s\<lparr>s_signalled := True\<rparr>) shm)
       else case s_worklist s of
         None \<Rightarrow> Inl Undefined
       | Some g \<Rightarrow>
           if g_groupid g \<noteq> to_u32 groupid then mark_strands groupid is shm
           else mark_strands groupid is (shm_set_strand i (s\<lparr>s_signalled := True\<rparr>) shm))"

fun signal_pass :: "'w ctlenv \<Rightarrow> csignal \<Rightarrow> nat list \<Rightarrow> nat \<Rightarrow> 'w cs \<Rightarrow> c_stop + nat \<times> 'w cs" where
  \<comment> \<open>the body of the \<open>do\<close> loop; the number is \<open>no_signalled\<close>\<close>
  "signal_pass E sig [] n st = Inr (n, st)"
| "signal_pass E sig (i # is) n st =
     cbind (shm_get_strand (cs_shm st) i) (\<lambda>s.
       if at_barrier s \<or> \<not> s_signalled s then signal_pass E sig is n st
       else cbind (signal_strand E i sig st) (\<lambda>(r, st1).
         signal_pass E sig is (if r = 0 then n + 1 else n) st1))"

fun signal_rounds :: "'w ctlenv \<Rightarrow> csignal \<Rightarrow> nat \<Rightarrow> 'w cs \<Rightarrow> c_stop + bool \<times> 'w cs" where
  \<comment> \<open>the \<open>do\<close> loop with \<open>retries\<close> left; whether it ended because they ran out\<close>
  "signal_rounds E sig retries st =
     cbind (if retries < REPEATED_SIGNAL_RETRIES
            then cbind (cs_io E (uperf_sleep (ce_nanosleep E) SIGNAL_SLEEP) st) (\<lambda>(_, st1). Inr (ce_strands E st1))
            else Inr st) (\<lambda>st1.
     cbind (signal_pass E sig (strand_indices (cs_shm st1)) 0 st1) (\<lambda>(n, st2).
       if n = 0 then Inr (False, st2)
       else case retries of 0 \<Rightarrow> Inr (True, st2) | Suc r \<Rightarrow> signal_rounds E sig r st2))"

declare signal_rounds.simps [simp del]

definition count_at_barrier :: "shm \<Rightarrow> nat" where
  \<comment> \<open>\<open>not_responding\<close>\<close>
  "count_at_barrier shm = length (filter at_barrier (take (nat (sh_no_strands shm)) (sh_strands shm)))"

definition signal_all_strands :: "'w ctlenv \<Rightarrow> int \<Rightarrow> csignal \<Rightarrow> 'w cs \<Rightarrow> c_stop + int \<times> 'w cs" where
  "signal_all_strands E groupid sig st =
     cbind (mark_strands groupid (strand_indices (cs_shm st)) (cs_shm st)) (\<lambda>shm1.
     cbind (signal_rounds E sig REPEATED_SIGNAL_RETRIES (set_shm shm1 st)) (\<lambda>(exhausted, st1).
       if exhausted \<and> 0 < count_at_barrier (cs_shm st1) then Inr (1, st1) else Inr (0, st1)))"

section \<open>Callouts\<close>

definition callout_groups :: "shm \<Rightarrow> nat" where
  \<comment> \<open>\<open>no_groups\<close>; the master has its work order\<close>
  "callout_groups shm =
     (if sh_role shm = MASTER then (case sh_workorder shm of Some w \<Rightarrow> length (w_grp w) | None \<Rightarrow> 0) else 1)"

fun callout_loop :: "'w ctlenv \<Rightarrow> u64 \<Rightarrow> nat list \<Rightarrow> int \<Rightarrow> 'w cs \<Rightarrow> c_stop + int \<times> 'w cs" where
  \<comment> \<open>the number is \<open>called_out\<close>\<close>
  "callout_loop E now [] n st = Inr (n, st)"
| "callout_loop E now (i # is) n st =
     (if length (sh_callouts (cs_shm st)) \<le> i then Inl Undefined
      else let timeout = sh_callouts (cs_shm st) ! i in
        if 0 < timeout \<and> timeout \<le> now then
          cbind (signal_all_strands E (int i) SIGUSR2 st) (\<lambda>(r, st1).
            if r \<noteq> 0 then
              cbind (cs_report E UPERF_LOG_ERROR 0 ''Error signalling strands''
                       (set_shm (flag_error (cs_shm st1)) st1)) (\<lambda>st2. Inr (- 1, st2))
            else callout_loop E now is (n + 1)
                   (set_shm ((cs_shm st1)\<lparr>sh_callouts := (sh_callouts (cs_shm st1))[i := 0]\<rparr>) st1))
        else callout_loop E now is n st)"

definition shm_process_callouts :: "'w ctlenv \<Rightarrow> 'w cs \<Rightarrow> c_stop + int \<times> 'w cs" where
  "shm_process_callouts E st =
     (case cs_now E st of (t, st1) \<Rightarrow>
        callout_loop E (in_seconds t) [0..<callout_groups (cs_shm st1)] 0 st1)"

section \<open>Waiting for the strands\<close>

fun join_strands :: "'w ctlenv \<Rightarrow> int \<Rightarrow> nat list \<Rightarrow> 'w cs \<Rightarrow> c_stop + 'w cs" where
  "join_strands E error [] st = Inr st"
| "join_strands E error (i # is) st =
     cbind (shm_get_strand (cs_shm st) i) (\<lambda>s.
       if is_process s then
         (case ce_wait E (cs_world st) of (status, w) \<Rightarrow>
            let st1 = st\<lparr>cs_world := w\<rparr> in
            join_strands E error is (if status \<noteq> 0 then set_shm (flag_error (cs_shm st1)) st1 else st1))
       else if error \<noteq> 0 then join_strands E error is st
       else (case ce_pthread_join E i (cs_world st) of (r, w) \<Rightarrow>
         let st1 = st\<lparr>cs_world := w\<rparr> in
         if r \<noteq> 0 then
           cbind (cs_report E UPERF_LOG_ERROR (cs_errno st1) ''pthread join'' st1) (join_strands E error is)
         else join_strands E error is st1))"

definition wait_for_strands :: "'w ctlenv \<Rightarrow> int \<Rightarrow> 'w cs \<Rightarrow> c_stop + 'w cs" where
  \<comment> \<open>called once: \<open>joined\<close> is 0; every \<open>wait\<close> and \<open>pthread_join\<close> returns\<close>
  "wait_for_strands E error st = join_strands E error (strand_indices (cs_shm st)) st"


section \<open>Which strands are told\<close>

definition told :: "int \<Rightarrow> strand \<Rightarrow> bool" where
  "told groupid s = (\<not> at_barrier s \<and> (groupid = - 1 \<or> (\<exists>g. s_worklist s = Some g \<and> g_groupid g = to_u32 groupid)))"

definition mark :: "int \<Rightarrow> strand \<Rightarrow> strand" where
  "mark groupid s = (if told groupid s then s\<lparr>s_signalled := True\<rparr> else s)"

lemma mark_idem [simp]: "mark gid (mark gid s) = mark gid s"
  by (cases "told gid s") (auto simp: mark_def told_def at_barrier_def)

lemma mark_strands_spec:
  "mark_strands gid is shm = Inr shm' \<Longrightarrow>
   shm' = shm\<lparr>sh_strands := map (\<lambda>j. if j \<in> set is then mark gid (sh_strands shm ! j) else sh_strands shm ! j)
                [0..<length (sh_strands shm)]\<rparr>"
proof (induction "is" arbitrary: shm)
  case Nil
  have "map (\<lambda>j. sh_strands shm ! j) [0..<length (sh_strands shm)] = sh_strands shm" by (rule map_nth)
  with Nil show ?case by simp
next
  case (Cons i "is")
  then have i: "i < length (sh_strands shm)" and get: "shm_get_strand shm i = Inr (sh_strands shm ! i)"
    by (simp_all add: shm_get_strand_def split: if_splits)
  let ?s = "sh_strands shm ! i"
  let ?shm1 = "shm_set_strand i (mark gid ?s) shm"
  have "\<not> told gid ?s \<Longrightarrow> ?shm1 = shm"
    by (simp add: mark_def shm_set_strand_def)
  with Cons.prems get have "mark_strands gid is ?shm1 = Inr shm'"
    by (cases "told gid ?s") (auto simp: told_def mark_def split: option.splits if_splits)
  note step = Cons.IH [OF this]
  have nth: "(if j \<in> set is then mark gid (sh_strands ?shm1 ! j) else sh_strands ?shm1 ! j) =
      (if j \<in> set (i # is) then mark gid (sh_strands shm ! j) else sh_strands shm ! j)" if "j < length (sh_strands shm)" for j
    using that i by (auto simp: shm_set_strand_def nth_list_update)
  from step have "shm' = ?shm1\<lparr>sh_strands := map (\<lambda>j. if j \<in> set is then mark gid (sh_strands ?shm1 ! j) else sh_strands ?shm1 ! j)
      [0..<length (sh_strands ?shm1)]\<rparr>" by blast
  also have "\<dots> = shm\<lparr>sh_strands := map (\<lambda>j. if j \<in> set (i # is) then mark gid (sh_strands shm ! j) else sh_strands shm ! j)
      [0..<length (sh_strands shm)]\<rparr>"
    using nth by (simp add: shm_set_strand_def)
  finally show ?case .
qed

lemma mark_strands_total:
  assumes "\<forall>i \<in> set is. i < length (sh_strands shm)"
    and "\<forall>i \<in> set is. gid = - 1 \<or> at_barrier (sh_strands shm ! i) \<or> s_worklist (sh_strands shm ! i) \<noteq> None"
  shows "\<exists>shm'. mark_strands gid is shm = Inr shm'"
  using assms
proof (induction "is" arbitrary: shm)
  case (Cons i "is")
  let ?s = "sh_strands shm ! i"
  have get: "shm_get_strand shm i = Inr ?s" using Cons.prems by (simp add: shm_get_strand_def)
  have set1: "(\<forall>j \<in> set is. j < length (sh_strands (shm_set_strand i (?s\<lparr>s_signalled := True\<rparr>) shm))) \<and>
     (\<forall>j \<in> set is. gid = - 1 \<or> at_barrier (sh_strands (shm_set_strand i (?s\<lparr>s_signalled := True\<rparr>) shm) ! j) \<or>
       s_worklist (sh_strands (shm_set_strand i (?s\<lparr>s_signalled := True\<rparr>) shm) ! j) \<noteq> None)"
    using Cons.prems by (auto simp: shm_set_strand_def nth_list_update at_barrier_def)
  have rest: "(\<forall>j \<in> set is. j < length (sh_strands shm)) \<and>
     (\<forall>j \<in> set is. gid = - 1 \<or> at_barrier (sh_strands shm ! j) \<or> s_worklist (sh_strands shm ! j) \<noteq> None)"
    using Cons.prems by auto
  consider "at_barrier ?s" | "\<not> at_barrier ?s" "gid = - 1" | g where "\<not> at_barrier ?s" "gid \<noteq> - 1" "s_worklist ?s = Some g"
    using Cons.prems by (cases "s_worklist ?s") auto
  then show ?case
  proof cases
    case 1
    with Cons.IH rest get show ?thesis by simp
  next
    case 2
    with Cons.IH set1 get show ?thesis by simp
  next
    case 3
    with Cons.IH get set1 rest show ?thesis by simp
  qed
qed simp

section \<open>Strands that do not react\<close>

definition frozen :: "'w ctlenv \<Rightarrow> bool" where
  \<comment> \<open>the strands do nothing; every signal is accepted and every sleep succeeds\<close>
  "frozen E = ((\<forall>st. ce_strands E st = st) \<and> (\<forall>i sig w. fst (ce_pthread_kill E i sig w) = 0) \<and>
     (\<forall>d w. re_ret (fst (ce_nanosleep E d w)) = 0))"

definition pending :: "strand \<Rightarrow> bool" where
  "pending s = (\<not> at_barrier s \<and> s_signalled s)"

lemma signal_pass_frozen:
  assumes "frozen E" and "\<forall>i \<in> set is. i < length (sh_strands (cs_shm st)) \<and> \<not> is_process (sh_strands (cs_shm st) ! i)"
  shows "\<exists>st'. signal_pass E sig is n st = Inr (n + length (filter (\<lambda>i. pending (sh_strands (cs_shm st) ! i)) is), st') \<and>
    cs_shm st' = cs_shm st \<and> cs_log st' = cs_log st"
  using assms(2)
proof (induction "is" arbitrary: n st)
  case (Cons i "is")
  let ?s = "sh_strands (cs_shm st) ! i"
  have get: "shm_get_strand (cs_shm st) i = Inr ?s" and np: "\<not> is_process ?s"
    using Cons.prems by (simp_all add: shm_get_strand_def)
  show ?case
  proof (cases "pending ?s")
    case False
    with Cons get show ?thesis by (auto simp: pending_def)
  next
    case True
    obtain r w where r: "ce_pthread_kill E i (if sig = SIGKILL then SIGUSR1 else sig) (cs_world st) = (r, w)" by fastforce
    have "r = 0" using assms(1) r unfolding frozen_def by (metis fst_conv)
    with r get np have "signal_strand E i sig st = Inr (0, st\<lparr>cs_errno := 0, cs_world := w\<rparr>)"
      by (simp add: signal_strand_def)
    with True get Cons.IH [of "st\<lparr>cs_errno := 0, cs_world := w\<rparr>" "n + 1"] Cons.prems show ?thesis
      by (auto simp: pending_def)
  qed
qed simp

lemma frozen_sleep:
  assumes "frozen E"
  shows "\<exists>st'. cs_io E (uperf_sleep (ce_nanosleep E) d) st = Inr (0, st') \<and> cs_shm st' = cs_shm st \<and> cs_log st' = cs_log st"
proof -
  obtain r w where r: "ce_nanosleep E d (cs_world st) = (r, w)" by fastforce
  have "re_ret r = 0" using assms r unfolding frozen_def by (metis fst_conv)
  with r show ?thesis by (simp add: cs_io_def uperf_sleep_def sysc_def)
qed

lemma signal_rounds_frozen:
  assumes "frozen E" and "\<forall>i \<in> set (strand_indices shm). i < length (sh_strands shm) \<and> \<not> is_process (sh_strands shm ! i)"
    and "cs_shm st = shm"
  shows "\<exists>st'. signal_rounds E sig n st =
      Inr (\<exists>i \<in> set (strand_indices shm). pending (sh_strands shm ! i), st') \<and> cs_shm st' = shm \<and> cs_log st' = cs_log st"
  using assms(3)
proof (induction n arbitrary: st)
  case base: 0
  show ?case
  proof -
    obtain st1 where s1: "cs_io E (uperf_sleep (ce_nanosleep E) SIGNAL_SLEEP) st = Inr (0, st1)" "cs_shm st1 = shm" "cs_log st1 = cs_log st"
      using frozen_sleep [OF assms(1)] base by metis
    obtain st2 where s2: "signal_pass E sig (strand_indices shm) 0 st1 =
        Inr (length (filter (\<lambda>i. pending (sh_strands shm ! i)) (strand_indices shm)), st2)" "cs_shm st2 = shm" "cs_log st2 = cs_log st1"
      using signal_pass_frozen [OF assms(1), of "strand_indices shm" st1 sig 0] assms(2) s1(2) by auto
    have "ce_strands E st1 = st1" using assms(1) by (simp add: frozen_def)
    with s1 s2 show ?thesis
      by (subst signal_rounds.simps) (auto simp: REPEATED_SIGNAL_RETRIES_def filter_empty_conv)
  qed
next
  case (Suc n)
  obtain st1 where s1: "(if Suc n < REPEATED_SIGNAL_RETRIES
            then cbind (cs_io E (uperf_sleep (ce_nanosleep E) SIGNAL_SLEEP) st) (\<lambda>(_, st1). Inr (ce_strands E st1))
            else Inr st) = Inr st1" "cs_shm st1 = shm" "cs_log st1 = cs_log st"
  proof (cases "Suc n < REPEATED_SIGNAL_RETRIES")
    case True
    obtain st1 where "cs_io E (uperf_sleep (ce_nanosleep E) SIGNAL_SLEEP) st = Inr (0, st1)" "cs_shm st1 = shm" "cs_log st1 = cs_log st"
      using frozen_sleep [OF assms(1)] Suc.prems by metis
    moreover have "ce_strands E st1 = st1" using assms(1) by (simp add: frozen_def)
    ultimately show thesis using True that by simp
  next
    case False
    then show thesis using that [of st] Suc.prems by simp
  qed
  obtain st2 where s2: "signal_pass E sig (strand_indices shm) 0 st1 =
      Inr (length (filter (\<lambda>i. pending (sh_strands shm ! i)) (strand_indices shm)), st2)" "cs_shm st2 = shm" "cs_log st2 = cs_log st1"
    using signal_pass_frozen [OF assms(1), of "strand_indices shm" st1 sig 0] assms(2) s1(2) by auto
  from Suc.IH [OF s2(2)] s1 s2 show ?case
    by (subst signal_rounds.simps, subst s1(1)) (auto simp: filter_empty_conv)
qed

lemma mark_simps [simp]:
  "is_process (mark gid s) = is_process s" "at_barrier (mark gid s) = at_barrier s"
  "s_worklist (mark gid s) = s_worklist s"
  by (simp_all add: mark_def is_process_def at_barrier_def)

definition reachable_strands :: "shm \<Rightarrow> bool" where
  \<comment> \<open>all strands are threads of this process and have a work list\<close>
  "reachable_strands shm = (nat (sh_no_strands shm) = length (sh_strands shm) \<and>
     (\<forall>s \<in> set (sh_strands shm). \<not> is_process s \<and> s_worklist s \<noteq> None))"

lemma signal_all_frozen:
  assumes "frozen E" and "reachable_strands (cs_shm st)"
  shows "\<exists>st'. signal_all_strands E gid sig st =
      Inr (if (\<exists>s \<in> set (sh_strands (cs_shm st)). pending (mark gid s)) \<and>
              (\<exists>s \<in> set (sh_strands (cs_shm st)). at_barrier s) then 1 else 0, st') \<and>
    cs_shm st' = (cs_shm st)\<lparr>sh_strands := map (mark gid) (sh_strands (cs_shm st))\<rparr> \<and> cs_log st' = cs_log st"
proof -
  let ?shm = "cs_shm st" and ?ss = "sh_strands (cs_shm st)"
  let ?shm1 = "?shm\<lparr>sh_strands := map (mark gid) ?ss\<rparr>"
  have idx: "strand_indices ?shm = [0..<length ?ss]" "strand_indices ?shm1 = [0..<length ?ss]"
    using assms(2) by (simp_all add: strand_indices_def reachable_strands_def)
  obtain shm1 where m: "mark_strands gid (strand_indices ?shm) ?shm = Inr shm1"
    using mark_strands_total [of "strand_indices ?shm" ?shm gid] assms(2) idx by (auto simp: reachable_strands_def)
  have "map (\<lambda>j. if j \<in> set (strand_indices ?shm) then mark gid (?ss ! j) else ?ss ! j) [0..<length ?ss] = map (mark gid) ?ss"
    using idx by (intro nth_equalityI) auto
  with mark_strands_spec [OF m] have shm1: "shm1 = ?shm1" by simp
  have "\<forall>i \<in> set (strand_indices ?shm1). i < length (sh_strands ?shm1) \<and> \<not> is_process (sh_strands ?shm1 ! i)"
    using idx(2) assms(2) by (auto simp: reachable_strands_def)
  from signal_rounds_frozen [OF assms(1) this, of "set_shm ?shm1 st" sig REPEATED_SIGNAL_RETRIES]
  obtain st' where st': "signal_rounds E sig REPEATED_SIGNAL_RETRIES (set_shm ?shm1 st) =
      Inr (\<exists>i \<in> set (strand_indices ?shm1). pending (sh_strands ?shm1 ! i), st')" "cs_shm st' = ?shm1" "cs_log st' = cs_log st"
    by (auto simp: set_shm_def)
  have "(\<exists>i \<in> set (strand_indices ?shm1). pending (sh_strands ?shm1 ! i)) = (\<exists>i < length ?ss. pending (mark gid (?ss ! i)))"
    using idx(2) by auto
  also have "\<dots> = (\<exists>s \<in> set ?ss. pending (mark gid s))" by (metis in_set_conv_nth)
  finally have ex: "(\<exists>i \<in> set (strand_indices ?shm1). pending (sh_strands ?shm1 ! i)) = (\<exists>s \<in> set ?ss. pending (mark gid s))" .
  have "(0 < count_at_barrier ?shm1) = (\<exists>s \<in> set ?ss. at_barrier s)"
    using assms(2) by (auto simp: count_at_barrier_def filter_empty_conv reachable_strands_def)
  with m shm1 st' ex show ?thesis by (auto simp: signal_all_strands_def)
qed

text \<open>
  When strands do not react to their signal, \<open>signal_all_strands\<close> tries six times and then
  reports them only if some other strand is waiting at a barrier: what it counts as not
  responding are the strands at a barrier, not the ones it signalled. With none at a barrier
  it reports success although none of the strands told has reacted.
\<close>

lemma stuck_strands_reported:
  assumes "frozen E" and "reachable_strands (cs_shm st)" and "ss = sh_strands (cs_shm st)"
    and "\<forall>s \<in> set ss. \<not> s_signalled s"
  shows "\<exists>st'. signal_all_strands E gid sig st =
      Inr (if (\<exists>s \<in> set ss. told gid s) \<and> (\<exists>s \<in> set ss. at_barrier s) then 1 else 0, st') \<and>
    sh_strands (cs_shm st') = map (mark gid) ss"
proof -
  have pend: "pending (mark gid s) = told gid s" if "s \<in> set ss" for s
    using assms(4) that by (auto simp: pending_def mark_def told_def at_barrier_def)
  then have "(\<exists>s \<in> set ss. pending (mark gid s)) = (\<exists>s \<in> set ss. told gid s)" by blast
  with signal_all_frozen [OF assms(1,2), of gid sig] assms(3) show ?thesis by auto
qed

section \<open>Callouts are served\<close>

definition keeps_callouts :: "'w ctlenv \<Rightarrow> bool" where
  \<comment> \<open>no strand registers one meanwhile\<close>
  "keeps_callouts E = (\<forall>st. sh_callouts (cs_shm (ce_strands E st)) = sh_callouts (cs_shm st))"

lemma signal_strand_shm: "signal_strand E i sig st = Inr (r, st') \<Longrightarrow> cs_shm st' = cs_shm st"
  by (auto simp: signal_strand_def cbind_Inr split: if_splits prod.splits)

lemma cs_io_shm: "cs_io E m st = Inr (x, st') \<Longrightarrow> cs_shm st' = cs_shm st"
  by (auto simp: cs_io_def cbind_Inr split: prod.splits)

lemma cs_report_shm: "cs_report E t e x st = Inr st' \<Longrightarrow> cs_shm st' = cs_shm st"
  by (auto simp: cs_report_def cbind_Inr)

lemma signal_pass_shm: "signal_pass E sig is n st = Inr (m, st') \<Longrightarrow> cs_shm st' = cs_shm st"
proof (induction "is" arbitrary: n st)
  case (Cons i "is")
  then show ?case by (auto simp: cbind_Inr split: if_splits dest!: signal_strand_shm)
qed simp

lemma signal_rounds_callouts:
  assumes "keeps_callouts E"
  shows "signal_rounds E sig n st = Inr (b, st') \<Longrightarrow> sh_callouts (cs_shm st') = sh_callouts (cs_shm st)"
proof (induction n arbitrary: st)
  case 0
  then show ?case
    using assms by (subst (asm) signal_rounds.simps)
      (auto simp: cbind_Inr keeps_callouts_def split: if_splits dest!: signal_pass_shm cs_io_shm)
next
  case (Suc n)
  from Suc.prems obtain st1 m st2 where s: "(if Suc n < REPEATED_SIGNAL_RETRIES
            then cbind (cs_io E (uperf_sleep (ce_nanosleep E) SIGNAL_SLEEP) st) (\<lambda>(_, st1). Inr (ce_strands E st1))
            else Inr st) = Inr st1" "signal_pass E sig (strand_indices (cs_shm st1)) 0 st1 = Inr (m, st2)"
      "(if m = 0 then Inr (False, st2) else signal_rounds E sig n st2) = Inr (b, st')"
    unfolding signal_rounds.simps [of E sig "Suc n" st] nat.case by (auto simp: cbind_Inr)
  have "sh_callouts (cs_shm st1) = sh_callouts (cs_shm st)"
    using s(1) assms by (auto simp: cbind_Inr keeps_callouts_def split: if_splits dest!: cs_io_shm)
  moreover have "sh_callouts (cs_shm st2) = sh_callouts (cs_shm st1)"
    using signal_pass_shm [OF s(2)] by simp
  ultimately show ?case using s(3) Suc.IH [of st2] by (auto split: if_splits)
qed

lemma signal_all_callouts:
  assumes "keeps_callouts E" and "signal_all_strands E gid sig st = Inr (r, st')"
  shows "sh_callouts (cs_shm st') = sh_callouts (cs_shm st)"
  using assms(2) signal_rounds_callouts [OF assms(1)]
  by (auto simp: signal_all_strands_def cbind_Inr set_shm_def split: if_splits dest!: mark_strands_spec)

definition due :: "u64 \<Rightarrow> u64 \<Rightarrow> bool" where
  "due now t = (0 < t \<and> t \<le> now)"

lemma callout_loop_spec:
  assumes "keeps_callouts E"
  shows "callout_loop E now is n st = Inr (n', st') \<Longrightarrow> 0 \<le> n \<Longrightarrow> n' \<noteq> - 1 \<Longrightarrow> distinct is \<Longrightarrow>
    n' = n + int (length (filter (\<lambda>i. due now (sh_callouts (cs_shm st) ! i)) is)) \<and>
    sh_callouts (cs_shm st') = map (\<lambda>j. if j \<in> set is \<and> due now (sh_callouts (cs_shm st) ! j) then 0
      else sh_callouts (cs_shm st) ! j) [0..<length (sh_callouts (cs_shm st))]"
proof (induction "is" arbitrary: n st)
  case Nil
  then show ?case by (simp add: map_nth)
next
  case (Cons i "is")
  let ?c = "sh_callouts (cs_shm st)"
  have i: "i < length ?c" using Cons.prems(1) by (auto split: if_splits)
  show ?case
  proof (cases "due now (?c ! i)")
    case False
    with Cons.prems i have "callout_loop E now is n st = Inr (n', st')"
      by (auto simp: due_def Let_def)
    from Cons.IH [OF this] Cons.prems False show ?thesis by (auto intro!: map_cong)
  next
    case True
    from Cons.prems(1) i True obtain r st1 where r: "signal_all_strands E (int i) SIGUSR2 st = Inr (r, st1)"
      by (auto simp: due_def Let_def cbind_Inr)
    let ?st2 = "set_shm ((cs_shm st1)\<lparr>sh_callouts := (sh_callouts (cs_shm st1))[i := 0]\<rparr>) st1"
    have c1: "sh_callouts (cs_shm st1) = ?c" by (rule signal_all_callouts [OF assms r])
    have "r = 0 \<and> callout_loop E now is (n + 1) ?st2 = Inr (n', st')"
      using Cons.prems(1,3) i True r by (auto simp: due_def Let_def cbind_Inr split: if_splits)
    then have ih: "n' = n + 1 + int (length (filter (\<lambda>i. due now (sh_callouts (cs_shm ?st2) ! i)) is)) \<and>
      sh_callouts (cs_shm st') = map (\<lambda>j. if j \<in> set is \<and> due now (sh_callouts (cs_shm ?st2) ! j) then 0
        else sh_callouts (cs_shm ?st2) ! j) [0..<length (sh_callouts (cs_shm ?st2))]"
      using Cons.IH [of "n + 1" ?st2] Cons.prems by auto
    have c2: "sh_callouts (cs_shm ?st2) = ?c[i := 0]" using c1 by (simp add: set_shm_def)
    have "filter (\<lambda>j. due now (?c[i := 0] ! j)) is = filter (\<lambda>j. due now (?c ! j)) is"
    proof (rule filter_cong)
      fix j assume "j \<in> set is"
      then have "j \<noteq> i" using Cons.prems(4) by auto
      then show "due now (?c[i := 0] ! j) = due now (?c ! j)" by simp
    qed simp
    with ih c2 True i show ?thesis
      by (auto simp: nth_list_update due_def intro!: map_cong)
  qed
qed


text \<open>
  A strand that has ended has freed its work list; if it is not at a barrier, which its state
  \<open>EXIT\<close> says, a callout of any group follows the dangling pointer.
\<close>

lemma exited_strand_dereferenced:
  assumes "sh_strands (cs_shm st) = s # ss" and "0 < sh_no_strands (cs_shm st)"
    and "s_state s = STRAND_STATE_EXIT" and "s_worklist s = None" and "gid \<noteq> - 1"
  shows "signal_all_strands E gid sig st = Inl Undefined"
proof -
  have "strand_indices (cs_shm st) = 0 # [1..<nat (sh_no_strands (cs_shm st))]"
    using assms(2) by (simp add: strand_indices_def upt_conv_Cons)
  with assms show ?thesis
    by (simp add: signal_all_strands_def shm_get_strand_def at_barrier_def)
qed


section \<open>Witnesses\<close>

definition lab_ctl :: "u64 \<Rightarrow> unit ctlenv" where
  \<comment> \<open>a still clock, strands that do nothing, and system calls that succeed\<close>
  "lab_ctl t = \<lparr>ce_strerror = (\<lambda>_. []), ce_endian = LittleEndian, ce_copt = 0, ce_strands = (\<lambda>st. st), ce_clock = (\<lambda>w. (t, w)),
     ce_kill = (\<lambda>_ _ w. (\<lparr>re_ret = 0, re_errno = 0, re_addrs = [], re_val = 0, re_data = [], re_vm = (0, 0), re_lens = []\<rparr>, w)),
     ce_pthread_kill = (\<lambda>_ _ w. (0, w)), ce_pthread_join = (\<lambda>_ w. (0, w)), ce_wait = (\<lambda>w. (0, w)),
     ce_nanosleep = (\<lambda>_ w. (\<lparr>re_ret = 0, re_errno = 0, re_addrs = [], re_val = 0, re_data = [], re_vm = (0, 0), re_lens = []\<rparr>, w)),
     ce_kernel = (\<lambda>_ w. (\<lparr>re_ret = 1, re_errno = 0, re_addrs = [], re_val = 0, re_data = [], re_vm = (0, 0), re_lens = []\<rparr>, w)), ce_fd = 3,
     ce_poll = (\<lambda>_ w. (0, w)), ce_peers = [], ce_interval = 1000\<rparr>"

definition lab_shm :: "strand list \<Rightarrow> shm" where
  "lab_shm ss = (shm_init \<lparr>w_name = [], w_grp = []\<rparr>)\<lparr>sh_strands := ss, sh_no_strands := int (length ss), sh_role := SLAVE\<rparr>"

definition lab_cs :: "shm \<Rightarrow> chan list \<Rightarrow> unit cs" where
  "lab_cs shm cs = \<lparr>cs_shm = shm, cs_errno = 0, cs_log = uperf_log_init, cs_conns = cs, cs_world = ()\<rparr>"

lemma lab_sel [simp]:
  "sh_strands (lab_shm ss) = ss" "sh_no_strands (lab_shm ss) = int (length ss)" "sh_role (lab_shm ss) = SLAVE"
  "cs_shm (lab_cs shm cs) = shm" "cs_world (lab_cs shm cs) = ()" "cs_conns (lab_cs shm cs) = cs"
  by (simp_all add: lab_shm_def lab_cs_def)

lemma no_strands_no_signals:
  assumes "sh_no_strands (cs_shm st) \<le> 0"
  shows "signal_all_strands E gid sig st = Inr (0, st)"
  using assms
  by (simp add: signal_all_strands_def strand_indices_def set_shm_def
      signal_rounds.simps [of _ _ REPEATED_SIGNAL_RETRIES])

lemma lab_frozen: "frozen (lab_ctl t)"
  by (simp add: frozen_def lab_ctl_def)

lemma stuck_strands_reported_witness:
  "\<exists>st'. signal_all_strands (lab_ctl 0) (- 1) SIGUSR2
       (lab_cs (lab_shm [zero_strand\<lparr>s_state := STRAND_STATE_EXECUTING, s_worklist := Some zero_group\<rparr>]) []) = Inr (0, st')"
proof -
  let ?s = "zero_strand\<lparr>s_state := STRAND_STATE_EXECUTING, s_worklist := Some zero_group\<rparr>"
  have np: "\<not> is_process ?s" "\<not> s_signalled ?s" "s_worklist ?s \<noteq> None" "\<not> at_barrier ?s"
    by (simp_all add: zero_strand_def is_process_def at_barrier_def)
  have ok: "reachable_strands (lab_shm [?s])"
    and each: "\<forall>s \<in> set [?s]. \<not> s_signalled s"
    using np(1-3) by (simp_all add: reachable_strands_def del: strand.update_convs)
  from stuck_strands_reported [OF lab_frozen, of "lab_cs (lab_shm [?s]) []" "[?s]" 0 "- 1" SIGUSR2] ok each
  obtain st' where "signal_all_strands (lab_ctl 0) (- 1) SIGUSR2 (lab_cs (lab_shm [?s]) []) =
      Inr (if (\<exists>s \<in> set [?s]. told (- 1) s) \<and> (\<exists>s \<in> set [?s]. at_barrier s) then 1 else 0, st')"
    unfolding lab_sel by blast
  moreover have "\<not> (\<exists>s \<in> set [?s]. at_barrier s)" using np(4) by simp
  ultimately show ?thesis by auto
qed


end
