(* ===== verification/Slave.thy ===== *)
theory Slave
  imports Signals
begin

text \<open>
  The slave (\<open>src/slave.c\<close>): releasing the barrier of a transaction when the master asks for it
  (\<open>wait_unlock_barrier\<close>), the loop that follows the master's commands (\<open>slave_master_poll\<close>),
  and the life of the process that serves one master (\<open>slave_init\<close>, \<open>slave_master\<close>), from the
  handshake to the goodbye. The control connection is the only entry of \<open>cs_conns\<close>.
\<close>

section \<open>Releasing a barrier\<close>

definition conn :: "'w cs \<Rightarrow> c_stop + chan" where
  "conn st = (case cs_conns st of c # _ \<Rightarrow> Inr c | [] \<Rightarrow> Inl Undefined)"

definition set_conn :: "chan \<Rightarrow> 'w cs \<Rightarrow> 'w cs" where
  "set_conn c st = st\<lparr>cs_conns := c # drop 1 (cs_conns st)\<rparr>"

definition release_barrier :: "nat \<Rightarrow> 'w cs \<Rightarrow> c_stop + 'w cs" where
  \<comment> \<open>\<open>unlock_barrier(&shm->bar[i])\<close>; to unlock a lock that is not held is undefined\<close>
  "release_barrier i st =
     (if i < length (sh_bar (cs_shm st)) \<and> b_locked (sh_bar (cs_shm st) ! i) then
        Inr (set_shm ((cs_shm st)\<lparr>sh_bar := (sh_bar (cs_shm st))[i := unlock_barrier (sh_bar (cs_shm st) ! i)]\<rparr>) st)
      else Inl Undefined)"

definition cs_flush :: "'w ctlenv \<Rightarrow> 'w cs \<Rightarrow> 'w cs" where
  "cs_flush E st = st\<lparr>cs_log := uperf_log_flush (ce_strerror E) (cs_log st)\<rparr>"

fun wait_barrier_loop :: "'w ctlenv \<Rightarrow> nat \<Rightarrow> nat \<Rightarrow> 'w cs \<Rightarrow> c_stop + int \<times> 'w cs" where
  \<comment> \<open>the loop; the second argument is \<open>wait_time\<close>\<close>
  "wait_barrier_loop E wait_time txn st =
     (if length (sh_bar (cs_shm st)) \<le> txn then Inl Undefined
      else if barrier_notreached (sh_bar (cs_shm st) ! txn) = 0 then cbind (release_barrier txn st) (\<lambda>st1. Inr (0, st1))
      else let st1 = cs_flush E st in
        if 0 < sh_global_error (cs_shm st1) then Inr (- 1, st1)
        else cbind (signal_all_strands E (- 1) SIGUSR2 st1) (\<lambda>(r, st2).
          if r \<noteq> 0 then
            cbind (cs_report E UPERF_LOG_ERROR 0 ''Slave: Error sending signal to strands'' st2) (\<lambda>st3. Inr (- 1, st3))
          else cbind (shm_process_callouts E (ce_strands E st2)) (\<lambda>(n, st3).
            if n < 0 then
              cbind (cs_report E UPERF_LOG_ERROR 0 ''Error processing callouts'' st3) (\<lambda>st4. Inr (- 1, st4))
            else case wait_time of
              0 \<Rightarrow> cbind (cs_report E UPERF_LOG_ERROR 0 (''Error waiting for strands at barrier '' @ dec_nat txn) st3)
                      (\<lambda>st4. Inr (- 1, st4))
            | Suc w \<Rightarrow> wait_barrier_loop E w txn st3)))"

declare wait_barrier_loop.simps [simp del]

definition wait_unlock_barrier :: "'w ctlenv \<Rightarrow> u32 \<Rightarrow> 'w cs \<Rightarrow> c_stop + int \<times> 'w cs" where
  \<comment> \<open>\<open>txn\<close> is compared with \<open>ntxn\<close> as unsigned\<close>
  "wait_unlock_barrier E txn st =
     (case sh_worklist (cs_shm st) of
        None \<Rightarrow> Inl Undefined
      | Some wl \<Rightarrow> if txn > g_ntxn wl then Inr (0, st) else wait_barrier_loop E 5 (unat txn) st)"

section \<open>Following the master\<close>

definition slave_command :: "'w ctlenv \<Rightarrow> uperf_command \<Rightarrow> 'w cs \<Rightarrow> c_stop + int option \<times> 'w cs" where
  \<comment> \<open>what the loop does with a command; \<open>Some r\<close>: \<open>slave_master_poll\<close> returns \<open>r\<close>\<close>
  "slave_command E uc st =
     (if uc_command uc = UPERF_CMD_NEXT_TXN then
        (case cs_now E st of (t, st1) \<Rightarrow>
           cbind (wait_unlock_barrier E (uc_value uc) (set_shm ((cs_shm st1)\<lparr>sh_txn_begin := t\<rparr>) st1)) (\<lambda>(r, st2).
             Inr (if r \<noteq> 0 then Some (- 1) else None, st2)))
      else if uc_command uc = UPERF_CMD_ABORT then Inr (Some (- 1), st)
      else if uc_command uc = UPERF_CMD_SEND_STATS then
        Inr (Some 0, set_shm ((cs_shm st)\<lparr>sh_current_time := - 1\<rparr>) st)
      else Inr (Some (- 1), st))"

definition slave_turn :: "'w ctlenv \<Rightarrow> 'w cs \<Rightarrow> c_stop + int option \<times> 'w cs" where
  \<comment> \<open>the body of the loop after the test of \<open>global_error\<close>\<close>
  "slave_turn E st =
     cbind (cs_io E (generic_poll (ce_kernel E) (ce_fd E) 1000 POLLIN) st) (\<lambda>(r, st1).
     let st2 = ce_strands E st1 in
     cbind (if 0 < r then
              cbind (conn st2) (\<lambda>c.
                let (e, uc, c1) = uperf_get_command (ce_endian E) (sh_bitswap (cs_shm st2)) c; st3 = set_conn c1 st2 in
                if e \<noteq> 0 then Inr (Some (- 1), st3) else slave_command E uc st3)
            else Inr (None, st2)) (\<lambda>(stop, st4).
       if stop \<noteq> None then Inr (stop, st4)
       else cbind (shm_process_callouts E st4) (\<lambda>(_, st5). Inr (None, st5))))"

partial_function (option) slave_master_poll :: "'w ctlenv \<Rightarrow> 'w cs \<Rightarrow> (c_stop + int \<times> 'w cs) option" where
  \<comment> \<open>\<open>None\<close> if it does not return\<close>
  "slave_master_poll E st =
     (case cs_now E st of (t, st1) \<Rightarrow>
        let st2 = set_shm ((cs_shm st1)\<lparr>sh_current_time := t\<rparr>) st1 in
        if 0 < sh_global_error (cs_shm st2) then Some (Inr (- 1, st2))
        else case slave_turn E st2 of
          Inl e \<Rightarrow> Some (Inl e)
        | Inr x \<Rightarrow> (case fst x of Some r \<Rightarrow> Some (Inr (r, snd x)) | None \<Rightarrow> slave_master_poll E (snd x)))"

section \<open>The life of a slave\<close>

definition clk_at :: "'w ctlenv \<Rightarrow> 'w \<Rightarrow> nat \<Rightarrow> u64" where
  \<comment> \<open>the answer to the \<open>n\<close>th next reading of the clock\<close>
  "clk_at E w n = fst (ce_clock E (((\<lambda>w. snd (ce_clock E w)) ^^ n) w))"

definition agg_update :: "'w ctlenv \<Rightarrow>
    ((nat \<Rightarrow> u64) \<Rightarrow> newstats option \<times> nat \<Rightarrow> newstats option \<times> nat) \<Rightarrow> 'w cs \<Rightarrow> 'w cs" where
  \<comment> \<open>\<open>newstat_begin\<close> or \<open>newstat_end\<close> on \<open>AGG_STAT(shm)\<close>\<close>
  "agg_update E f st =
     (case f (clk_at E (cs_world st)) (Some (sh_agg_stat (cs_shm st)), 0) of (ns, k) \<Rightarrow>
        (set_shm ((cs_shm st)\<lparr>sh_agg_stat := (case ns of Some x \<Rightarrow> x | None \<Rightarrow> sh_agg_stat (cs_shm st))\<rparr>) st)
          \<lparr>cs_world := ((\<lambda>w. snd (ce_clock E w)) ^^ k) (cs_world st)\<rparr>)"

definition zero_shm :: shm where
  \<comment> \<open>the region \<open>calloc\<close> returns\<close>
  "zero_shm = (shm_init \<lparr>w_name = [], w_grp = []\<rparr>)\<lparr>sh_agg_stat := zero_stats\<rparr>"

definition slave_init :: "'w ctlenv \<Rightarrow> build_config \<Rightarrow> string \<Rightarrow> chan \<Rightarrow> c_stop + shm \<times> chan" where
  \<comment> \<open>\<open>calloc\<close> succeeds\<close>
  "slave_init E cfg phost c0 =
     (case slave_handshake (ce_endian E) cfg phost (zero_shm, c0) of (r, shm, c) \<Rightarrow>
        if r \<noteq> UPERF_SUCCESS then Inl (Exited 1)
        else case sh_worklist shm of
          None \<Rightarrow> Inl Undefined
        | Some wl \<Rightarrow> Inr (shm\<lparr>sh_role := SLAVE, sh_strands := replicate (unat (g_nthreads wl)) zero_strand\<rparr>, c))"

definition slave_fail :: "'w ctlenv \<Rightarrow> hs_ack2 \<Rightarrow> string \<Rightarrow> shm \<times> chan \<Rightarrow> int \<times> shm \<times> chan" where
  \<comment> \<open>\<open>slave_handshake_p2_failure\<close> and \<open>return UPERF_FAILURE\<close>\<close>
  "slave_fail E junk msg st = (UPERF_FAILURE, fst st, snd (slave_handshake_p2_failure (ce_endian E) junk msg (snd st)))"

definition slave_prepare ::
  "'w ctlenv \<Rightarrow> build_config \<Rightarrow> listener \<Rightarrow> (nat \<Rightarrow> int) \<Rightarrow> hs_ack2 \<Rightarrow> string \<Rightarrow> string \<Rightarrow> chan \<Rightarrow>
     c_stop + int \<times> shm \<times> chan" where
  \<comment> \<open>\<open>slave_master\<close> up to the end of the handshake; \<open>errtext\<close> is \<open>strerror(errno)\<close>\<close>
  "slave_prepare E cfg lsn create junk phost errtext c0 =
     cbind (slave_init E cfg phost c0) (\<lambda>(shm, c).
     case sh_worklist shm of
       None \<Rightarrow> Inl Undefined
     | Some g \<Rightarrow>
       cbind (strand_init_group shm g 0) (\<lambda>shm1.
       cbind (if 0 < sint (sh_rx_no_slave_info shm1) then slave_handshake_p2_complete (ce_endian E) phost (shm1, c)
              else Inr (UPERF_SUCCESS, shm1, c)) (\<lambda>(r, shm2, c2).
       if r \<noteq> UPERF_SUCCESS then Inr (slave_fail E junk ''error in strand_init_all'' (shm2, c2))
       else cbind (preprocess_accepts cfg lsn g 0 shm2) (\<lambda>(status, sl, shm3).
       if status \<noteq> UPERF_SUCCESS then
         Inr (slave_fail E junk (strlcpy 128 (''Error creating ports: '' @ errtext)) (shm3, c2))
       else case shm_init_barriers_slave g of (b, bars) \<Rightarrow>
       if b \<noteq> 0 then Inl (Exited 1)
       else cbind (slave_spawn_strands create (shm3\<lparr>sh_bar := bars @ drop (length bars) (sh_bar shm3)\<rparr>)) (\<lambda>shm4.
       case slave_handshake_p2_success (ce_endian E) junk (case sl of Some x \<Rightarrow> x | None \<Rightarrow> [])
              (sh_tx_no_slave_info shm4) (sh_bitswap shm4) c2 of (r3, c3) \<Rightarrow>
       if r3 \<noteq> UPERF_SUCCESS then Inl (Exited 1)
       else case handshake_end_slave c3 of (r4, c4) \<Rightarrow>
       if r4 \<noteq> UPERF_SUCCESS then Inl (Exited 1) else Inr (UPERF_SUCCESS, shm4, c4))))))"

definition slave_serve :: "'w ctlenv \<Rightarrow> 'w cs \<Rightarrow> (c_stop + 'w cs) option" where
  \<comment> \<open>\<open>slave_master\<close> from there on\<close>
  "slave_serve E st =
     (case slave_master_poll E (agg_update E (newstat_begin (ce_copt E)) st) of
        None \<Rightarrow> None
      | Some (Inl e) \<Rightarrow> Some (Inl e)
      | Some (Inr (error, st1)) \<Rightarrow> Some (
          cbind (if error \<noteq> 0 then cbind (strand_killall E st1) (\<lambda>(_, st2). Inr st2) else Inr st1) (\<lambda>st2.
          cbind (wait_for_strands E error st2) (\<lambda>st3.
          let st4 = agg_update E (\<lambda>clk. newstat_end (ce_copt E) clk 0 0) (ce_strands E st3) in
          cbind (conn st4) (\<lambda>c.
          case slave_master_goodbye (ce_endian E) (ce_strerror E) (cs_log st4) (cs_shm st4, c) of (shm, c1) \<Rightarrow>
            Inr (cs_flush E (set_conn c1 (set_shm shm st4))))))))"

definition slave_master ::
  "'w ctlenv \<Rightarrow> build_config \<Rightarrow> listener \<Rightarrow> (nat \<Rightarrow> int) \<Rightarrow> hs_ack2 \<Rightarrow> string \<Rightarrow> string \<Rightarrow> uperf_log \<Rightarrow> 'w \<times> chan \<Rightarrow>
     (c_stop + int \<times> 'w cs) option" where
  "slave_master E cfg lsn create junk phost errtext log wc =
     (case slave_prepare E cfg lsn create junk phost errtext (snd wc) of
        Inl e \<Rightarrow> Some (Inl e)
      | Inr (r, shm, c) \<Rightarrow>
          let st = \<lparr>cs_shm = shm, cs_errno = 0, cs_log = log, cs_conns = [c], cs_world = fst wc\<rparr> in
          if r \<noteq> UPERF_SUCCESS then Some (Inr (r, st))
          else (case slave_serve E st of
                  None \<Rightarrow> None
                | Some (Inl e) \<Rightarrow> Some (Inl e)
                | Some (Inr st1) \<Rightarrow> Some (Inr (0, st1))))"

section \<open>Waiting has an end\<close>

lemma cs_report_ok:
  assumes "length (l_msg (cs_log st)) < NUM_ERR_STR"
  shows "\<exists>st'. cs_report E t e x st = Inr st' \<and> cs_shm st' = cs_shm st \<and>
    length (l_msg (cs_log st')) \<le> length (l_msg (cs_log st)) + 1"
  using assms bump_count_length [of x "l_msg (cs_log st)"]
  by (auto simp: cs_report_def uperf_log_msg_def Let_def split: option.splits)

definition same_bars :: "shm \<Rightarrow> shm \<Rightarrow> bool" where
  \<comment> \<open>what the main thread does on its own while it waits leaves this alone\<close>
  "same_bars shm shm' = (sh_bar shm' = sh_bar shm \<and> sh_role shm' = sh_role shm \<and>
     length (sh_callouts shm') = length (sh_callouts shm) \<and> (reachable_strands shm \<longrightarrow> reachable_strands shm'))"

lemma same_bars_refl [simp]: "same_bars shm shm"
  by (simp add: same_bars_def)

lemma same_bars_trans [trans]: "same_bars a b \<Longrightarrow> same_bars b c \<Longrightarrow> same_bars a c"
  by (simp add: same_bars_def)

lemma reachable_strands_simps [simp]:
  "reachable_strands (shm\<lparr>sh_callouts := x\<rparr>) = reachable_strands shm"
  "reachable_strands (flag_error shm) = reachable_strands shm"
  by (simp_all add: reachable_strands_def flag_error_def)

lemma same_bars_simps [simp]:
  "same_bars shm (shm'\<lparr>sh_callouts := (sh_callouts shm')[i := v]\<rparr>) = same_bars shm shm'"
  "same_bars shm (flag_error shm') = same_bars shm shm'"
  by (simp_all add: same_bars_def) (simp add: flag_error_def)

lemma same_bars_callouts: "same_bars shm shm' \<Longrightarrow> sh_callouts shm \<noteq> [] \<Longrightarrow> sh_callouts shm' \<noteq> []"
  by (auto simp: same_bars_def)

lemma same_bars_mark: "same_bars shm (shm\<lparr>sh_strands := map (mark gid) (sh_strands shm)\<rparr>)"
  by (auto simp: same_bars_def reachable_strands_def)

lemma frozen_callouts:
  assumes "frozen E" and "reachable_strands (cs_shm st)" and "sh_role (cs_shm st) = SLAVE"
    and "sh_callouts (cs_shm st) \<noteq> []" and "length (l_msg (cs_log st)) < NUM_ERR_STR"
  shows "\<exists>n st'. shm_process_callouts E st = Inr (n, st') \<and> same_bars (cs_shm st) (cs_shm st') \<and>
    length (l_msg (cs_log st')) \<le> length (l_msg (cs_log st)) + 1"
proof -
  obtain t w where t: "ce_clock E (cs_world st) = (t, w)" by fastforce
  let ?st1 = "st\<lparr>cs_world := w\<rparr>"
  have k: "callout_groups (cs_shm ?st1) = 1" using assms(3) by (simp add: callout_groups_def)
  have reach: "reachable_strands (cs_shm ?st1)" using assms(2) by simp
  obtain r st2 where s: "signal_all_strands E 0 SIGUSR2 ?st1 = Inr (r, st2)"
      "cs_shm st2 = (cs_shm ?st1)\<lparr>sh_strands := map (mark 0) (sh_strands (cs_shm ?st1))\<rparr>" "cs_log st2 = cs_log ?st1"
    using signal_all_frozen [OF assms(1) reach, of 0 SIGUSR2] by blast
  have b: "same_bars (cs_shm st) (cs_shm st2)" using s(2) same_bars_mark by simp
  then have b': "same_bars (cs_shm st) ((cs_shm st2)\<lparr>sh_callouts := (sh_callouts (cs_shm st2))[0 := 0]\<rparr>)"
      "same_bars (cs_shm st) (flag_error (cs_shm st2))"
    by simp_all
  obtain st3 where r: "cs_report E UPERF_LOG_ERROR 0 ''Error signalling strands'' (set_shm (flag_error (cs_shm st2)) st2) = Inr st3"
      "cs_shm st3 = flag_error (cs_shm st2)" "length (l_msg (cs_log st3)) \<le> length (l_msg (cs_log st)) + 1"
    using cs_report_ok [of "set_shm (flag_error (cs_shm st2)) st2" E UPERF_LOG_ERROR 0 "''Error signalling strands''"] assms(5) s(3)
    by (auto simp: set_shm_def)
  obtain c cs where cs: "sh_callouts (cs_shm st) = c # cs" using assms(4) by (cases "sh_callouts (cs_shm st)") auto
  have run: "shm_process_callouts E st = callout_loop E (in_seconds t) [0] 0 ?st1"
    using k t by (simp add: shm_process_callouts_def cs_now_def)
  show ?thesis
  proof (cases "0 < c \<and> c \<le> in_seconds t")
    case False
    then have "callout_loop E (in_seconds t) [0] 0 ?st1 = Inr (0, ?st1)" using cs by (auto simp: Let_def)
    then show ?thesis using run by simp
  next
    case due: True
    show ?thesis
    proof (cases "r = 0")
      case True
      then have "callout_loop E (in_seconds t) [0] 0 ?st1 =
          Inr (1, set_shm ((cs_shm st2)\<lparr>sh_callouts := (sh_callouts (cs_shm st2))[0 := 0]\<rparr>) st2)"
        using cs due s(1) by (simp add: Let_def)
      with run b'(1) s(3) show ?thesis by (simp add: set_shm_def)
    next
      case False
      then have "callout_loop E (in_seconds t) [0] 0 ?st1 = Inr (- 1, st3)"
        using cs due s(1) r(1) by (simp add: Let_def)
      with run b'(2) r(2,3) show ?thesis by simp
    qed
  qed
qed

lemma wait_barrier_frozen:
  assumes "frozen E" and "reachable_strands (cs_shm st)" and "sh_role (cs_shm st) = SLAVE"
    and "sh_callouts (cs_shm st) \<noteq> []" and "txn < length (sh_bar (cs_shm st))"
    and "barrier_notreached (sh_bar (cs_shm st) ! txn) \<noteq> 0"
  shows "\<exists>st'. wait_barrier_loop E w txn st = Inr (- 1, st') \<and> sh_bar (cs_shm st') = sh_bar (cs_shm st)"
  using assms(2-)
proof (induction w arbitrary: st rule: less_induct)
  case (less w)
  let ?st1 = "cs_flush E st"
  have shm1: "cs_shm ?st1 = cs_shm st" "length (l_msg (cs_log ?st1)) = 0"
    by (simp_all add: cs_flush_def uperf_log_flush_def)
  obtain r st2 where s: "signal_all_strands E (- 1) SIGUSR2 ?st1 = Inr (r, st2)"
      "cs_shm st2 = (cs_shm st)\<lparr>sh_strands := map (mark (- 1)) (sh_strands (cs_shm st))\<rparr>" "cs_log st2 = cs_log ?st1"
    using signal_all_frozen [OF assms(1), of ?st1 "- 1" SIGUSR2] less.prems(1) shm1(1) by auto
  have b2: "same_bars (cs_shm st) (cs_shm st2)" using s(2) same_bars_mark by simp
  have room: "length (l_msg (cs_log st2)) < NUM_ERR_STR" using s(3) shm1(2) by (simp add: NUM_ERR_STR_def)
  have st2: "reachable_strands (cs_shm st2)" "sh_role (cs_shm st2) = SLAVE" "sh_callouts (cs_shm st2) \<noteq> []"
    using b2 less.prems(1,2) same_bars_callouts [OF b2 less.prems(3)] by (simp_all add: same_bars_def)
  obtain n st3 where c: "shm_process_callouts E st2 = Inr (n, st3)" "same_bars (cs_shm st2) (cs_shm st3)"
      "length (l_msg (cs_log st3)) \<le> length (l_msg (cs_log st2)) + 1"
    using frozen_callouts [OF assms(1) st2 room] by blast
  have b3: "same_bars (cs_shm st) (cs_shm st3)" by (rule same_bars_trans [OF b2 c(2)])
  have room3: "length (l_msg (cs_log st3)) < NUM_ERR_STR" using c(3) s(3) shm1(2) by (simp add: NUM_ERR_STR_def)
  have say2: "\<exists>st'. cbind (cs_report E UPERF_LOG_ERROR 0 x st2) (\<lambda>s. Inr (- 1 :: int, s)) = Inr (- 1, st') \<and>
      sh_bar (cs_shm st') = sh_bar (cs_shm st)" for x
    using cs_report_ok [OF room, of E UPERF_LOG_ERROR 0 x] b2 by (auto simp: same_bars_def)
  have say3: "\<exists>st'. cbind (cs_report E UPERF_LOG_ERROR 0 x st3) (\<lambda>s. Inr (- 1 :: int, s)) = Inr (- 1, st') \<and>
      sh_bar (cs_shm st') = sh_bar (cs_shm st)" for x
    using cs_report_ok [OF room3, of E UPERF_LOG_ERROR 0 x] b3 by (auto simp: same_bars_def)
  have again: "\<exists>st'. wait_barrier_loop E w' txn st3 = Inr (- 1, st') \<and> sh_bar (cs_shm st') = sh_bar (cs_shm st)"
    if "w' < w" for w'
    using less.IH [OF that, of st3] less.prems b3 same_bars_callouts [OF b3 less.prems(3)] by (auto simp: same_bars_def)
  have froz: "ce_strands E st2 = st2" using assms(1) by (simp add: frozen_def)
  show ?case
    unfolding wait_barrier_loop.simps [of E w txn st]
    using less.prems s(1) c(1) say2 say3 again shm1(1) froz
    by (auto simp: Let_def split: nat.split)
qed


text \<open>
  A group with fewer transactions than another brings the slave to an undefined operation:
  the master announces every transaction number to every slave, the test that should skip a
  number the slave does not have lets the first of them through, and the slave unlocks a
  barrier it never initialised.
\<close>

lemma slave_barrier_off_by_one:
  assumes "sh_worklist (cs_shm st) = Some g" and "shm_init_barriers_slave g = (0, bars)"
    and "sh_bar (cs_shm st) = bars @ drop (length bars) (sh_bar zero_shm)"
    and "unat (g_ntxn g) < NUM_BARRIER"
  shows "wait_unlock_barrier E (g_ntxn g) st = Inl Undefined"
proof -
  have "sint (g_ntxn g) = int (unat (g_ntxn g))" using assms(4) by (intro sint_small) (simp add: NUM_BARRIER_def)
  then have "\<not> sint (g_ntxn g) > int NUM_BARRIER" and n: "nat (sint (g_ntxn g)) = unat (g_ntxn g)"
    using assms(4) by (simp_all only: of_nat_less_iff nat_int not_less less_imp_le of_nat_le_iff)
  then have "bars = map (\<lambda>_. init_barrier (uint (g_nthreads g))) [0..<unat (g_ntxn g)]"
    using assms(2) unfolding shm_init_barriers_slave_def n by simp
  then have len: "length bars = unat (g_ntxn g)" by simp
  moreover have "sh_bar zero_shm = replicate NUM_BARRIER \<lparr>b_count = 0, b_limit = 0, b_locked = False\<rparr>"
    by (simp add: zero_shm_def shm_init_def)
  ultimately have "length (sh_bar (cs_shm st)) = NUM_BARRIER"
      "sh_bar (cs_shm st) ! unat (g_ntxn g) = \<lparr>b_count = 0, b_limit = 0, b_locked = False\<rparr>"
    using assms(3,4) by (simp_all add: nth_append)
  with assms(1,4) show ?thesis
    by (simp add: wait_unlock_barrier_def wait_barrier_loop.simps barrier_notreached_def release_barrier_def)
qed

section \<open>Following the commands\<close>

definition command_stream :: "endian \<Rightarrow> (u32 \<times> u32) list \<Rightarrow> byte list" where
  \<comment> \<open>the bytes of a sequence of commands\<close>
  "command_stream e cmds = concat (map (\<lambda>(c, v).
     put_command e \<lparr>uc_magic = strlcpy 64 UPERF_COMMAND_MAGIC, uc_command = c, uc_value = v\<rparr>) cmds)"

lemma command_stream_simps [simp]:
  "command_stream e [] = []"
  "command_stream e ((c, v) # cmds) =
     put_command e \<lparr>uc_magic = strlcpy 64 UPERF_COMMAND_MAGIC, uc_command = c, uc_value = v\<rparr> @ command_stream e cmds"
  "command_stream e (xs @ ys) = command_stream e xs @ command_stream e ys"
  by (simp_all add: command_stream_def)

definition next_txns :: "nat \<Rightarrow> nat \<Rightarrow> (u32 \<times> u32) list" where
  "next_txns i n = map (\<lambda>k. (UPERF_CMD_NEXT_TXN, of_nat k)) [i..<n]"

lemma next_txns_Cons: "i < n \<Longrightarrow> next_txns i n = (UPERF_CMD_NEXT_TXN, of_nat i) # next_txns (Suc i) n"
  by (simp add: next_txns_def upt_conv_Cons)

lemma next_txns_snoc: "i \<le> n \<Longrightarrow> next_txns i (Suc n) = next_txns i n @ [(UPERF_CMD_NEXT_TXN, of_nat n)]"
  by (simp add: next_txns_def)

lemma next_txns_empty [simp]: "next_txns n n = []"
  by (simp add: next_txns_def)

definition locks :: "'w cs \<Rightarrow> bool list" where
  "locks st = map b_locked (sh_bar (cs_shm st))"

definition comes_to :: "barrier list \<Rightarrow> barrier list \<Rightarrow> bool" where
  \<comment> \<open>every strand has come to the first barrier that is locked\<close>
  "comes_to bs bs' = (\<forall>j < length bs. b_locked (bs ! j) \<longrightarrow> (\<forall>i < j. \<not> b_locked (bs ! i)) \<longrightarrow>
     barrier_notreached (bs' ! j) = 0)"

definition main_part ::
  "shm \<Rightarrow> group option \<times> workorder option \<times> role \<times> bool \<times> int \<times> u64 list \<times> bool list \<times> int \<times> nat" where
  \<comment> \<open>what only the main thread changes in the region, and no strand when all goes well\<close>
  "main_part shm = (sh_worklist shm, sh_workorder shm, sh_role shm, sh_bitswap shm, sh_global_error shm,
     sh_callouts shm, map b_locked (sh_bar shm), sh_no_strands shm, length (sh_strands shm))"

definition strands_come :: "'w ctlenv \<Rightarrow> bool" where
  \<comment> \<open>the strands reach the next barrier whenever the main thread waits\<close>
  "strands_come E = (\<forall>st. cs_conns (ce_strands E st) = cs_conns st \<and>
     main_part (cs_shm (ce_strands E st)) = main_part (cs_shm st) \<and>
     comes_to (sh_bar (cs_shm st)) (sh_bar (cs_shm (ce_strands E st))))"

definition master_talks :: "'w ctlenv \<Rightarrow> bool" where
  \<comment> \<open>there is something to read whenever the slave polls\<close>
  "master_talks E = (\<forall>w. 0 < re_ret (fst (ce_kernel E (Sys_poll (ce_fd E) 1000 POLLIN) w)))"

definition following :: "group \<Rightarrow> bool \<Rightarrow> bool list \<Rightarrow> shm \<Rightarrow> bool" where
  \<comment> \<open>a slave at work, with no error and no transaction that has a duration\<close>
  "following g bitswap ls shm = (\<exists>w ge cs ns. main_part shm = (Some g, w, SLAVE, bitswap, ge, 0 # cs, ls, ns) \<and> ge \<le> 0)"

lemma following_simps:
  assumes "following g b ls shm"
  shows "sh_worklist shm = Some g" "sh_role shm = SLAVE" "sh_bitswap shm = b" "\<not> 0 < sh_global_error shm"
    "length (sh_bar shm) = length ls" "j < length ls \<Longrightarrow> b_locked (sh_bar shm ! j) = ls ! j"
    "following g b ls (shm\<lparr>sh_current_time := t\<rparr>)" "following g b ls (shm\<lparr>sh_txn_begin := t\<rparr>)"
    "following g b (ls[k := False]) (shm\<lparr>sh_bar := (sh_bar shm)[k := unlock_barrier (sh_bar shm ! k)]\<rparr>)"
proof -
  have m: "map b_locked (sh_bar shm) = ls" using assms by (auto simp: following_def main_part_def)
  then show "length (sh_bar shm) = length ls" by auto
  show "j < length ls \<Longrightarrow> b_locked (sh_bar shm ! j) = ls ! j" using m by auto
  show "following g b (ls[k := False]) (shm\<lparr>sh_bar := (sh_bar shm)[k := unlock_barrier (sh_bar shm ! k)]\<rparr>)"
    using assms m by (auto simp: following_def main_part_def map_update unlock_barrier_def)
qed (use assms in \<open>auto simp: following_def main_part_def\<close>)

lemma following_no_callouts:
  assumes "following g b ls (cs_shm st)"
  shows "\<exists>st'. shm_process_callouts E st = Inr (0, st') \<and> cs_shm st' = cs_shm st \<and> cs_conns st' = cs_conns st"
proof -
  obtain t w where t: "ce_clock E (cs_world st) = (t, w)" by fastforce
  from assms obtain cs where c: "sh_callouts (cs_shm st) = 0 # cs" "sh_role (cs_shm st) = SLAVE"
    by (auto simp: following_def main_part_def)
  then show ?thesis
    by (simp add: shm_process_callouts_def cs_now_def t callout_groups_def)
qed

lemma poll_ready:
  assumes "master_talks E"
  shows "\<exists>r st'. cs_io E (generic_poll (ce_kernel E) (ce_fd E) 1000 POLLIN) st = Inr (r, st') \<and> 0 < r \<and>
    cs_shm st' = cs_shm st \<and> cs_conns st' = cs_conns st"
proof -
  obtain r w where r: "ce_kernel E (Sys_poll (ce_fd E) 1000 POLLIN) (cs_world st) = (r, w)" by fastforce
  have "0 < re_ret r" using assms r unfolding master_talks_def by (metis fst_conv)
  with r show ?thesis by (simp add: cs_io_def generic_poll_def sysc_def)
qed

lemma strands_come_following:
  assumes "strands_come E" and "following g b ls (cs_shm st)"
  shows "following g b ls (cs_shm (ce_strands E st))" "cs_conns (ce_strands E st) = cs_conns st"
    "k < length ls \<Longrightarrow> ls ! k \<Longrightarrow> \<forall>i < k. \<not> ls ! i \<Longrightarrow> barrier_notreached (sh_bar (cs_shm (ce_strands E st)) ! k) = 0"
  using assms following_simps(5,6) [OF assms(2)]
  by (simp_all add: strands_come_def following_def comes_to_def)

lemma release_next:
  assumes "following g b ls (cs_shm st)" and "k < length ls" and "ls ! k" and "k \<le> unat (g_ntxn g)"
    and "barrier_notreached (sh_bar (cs_shm st) ! k) = 0"
  shows "\<exists>st'. wait_unlock_barrier E (of_nat k) st = Inr (0, st') \<and> following g b (ls[k := False]) (cs_shm st') \<and>
    cs_conns st' = cs_conns st"
proof -
  have "unat (g_ntxn g) < 2 ^ LENGTH(32)" by (rule unsigned_less)
  then have k: "unat (of_nat k :: u32) = k"
    using assms(4) by (simp add: unsigned_of_nat take_bit_nat_eq_self)
  then have "\<not> of_nat k > g_ntxn g" using assms(4) by (simp add: word_less_nat_alt)
  with k assms following_simps [OF assms(1)] show ?thesis
    by (simp add: wait_unlock_barrier_def wait_barrier_loop.simps release_barrier_def set_shm_def)
qed

lemma slave_turn_ready:
  assumes "strands_come E" and "master_talks E" and "following g (e \<noteq> ce_endian E) ls (cs_shm st)"
    and "cs_conns st = [c]" and "ch_in c = command_stream e ((cmd, v) # cmds)" and "ch_rd c = a # as" and "int SIZEOF_COMMAND \<le> a"
  shows "\<exists>st1 uc. following g (e \<noteq> ce_endian E) ls (cs_shm st1) \<and>
    cs_conns st1 = [c\<lparr>ch_rd := as, ch_in := command_stream e cmds\<rparr>] \<and> uc_command uc = cmd \<and> uc_value uc = v \<and>
    (\<forall>k < length ls. ls ! k \<longrightarrow> (\<forall>i < k. \<not> ls ! i) \<longrightarrow> barrier_notreached (sh_bar (cs_shm st1) ! k) = 0) \<and>
    slave_turn E st = cbind (slave_command E uc st1) (\<lambda>(stop, st4).
       if stop \<noteq> None then Inr (stop, st4) else cbind (shm_process_callouts E st4) (\<lambda>(_, st5). Inr (None, st5)))"
proof -
  obtain r st1 where p: "cs_io E (generic_poll (ce_kernel E) (ce_fd E) 1000 POLLIN) st = Inr (r, st1)" "0 < r"
      "cs_shm st1 = cs_shm st" "cs_conns st1 = [c]"
    using poll_ready [OF assms(2)] assms(4) by metis
  have f1: "following g (e \<noteq> ce_endian E) ls (cs_shm st1)" using assms(3) p(3) by simp
  let ?st2 = "ce_strands E st1"
  note f2 = strands_come_following [OF assms(1) f1]
  obtain uc where uc: "uperf_get_command (ce_endian E) (e \<noteq> ce_endian E) c =
      (0, uc, c\<lparr>ch_rd := as, ch_in := command_stream e cmds\<rparr>)" "uc_command uc = cmd" "uc_value uc = v"
    using get_command_ready [of c e cmd v "command_stream e cmds" a as "ce_endian E"] assms(5-7) by auto
  let ?st3 = "set_conn (c\<lparr>ch_rd := as, ch_in := command_stream e cmds\<rparr>) ?st2"
  have st3: "cs_shm ?st3 = cs_shm ?st2" "cs_conns ?st3 = [c\<lparr>ch_rd := as, ch_in := command_stream e cmds\<rparr>]"
    using f2(2) p(4) by (simp_all add: set_conn_def)
  have "slave_turn E st = cbind (slave_command E uc ?st3) (\<lambda>(stop, st4).
       if stop \<noteq> None then Inr (stop, st4) else cbind (shm_process_callouts E st4) (\<lambda>(_, st5). Inr (None, st5)))"
    using p uc(1) f2(2) following_simps(3) [OF f2(1)]
    by (simp add: slave_turn_def conn_def)
  with uc(2,3) st3 f2 show ?thesis by (intro exI [of _ ?st3] exI [of _ uc]) simp
qed

lemma slave_poll_step:
  assumes "following g b ls (cs_shm st)" and "cs_conns st = cc"
  shows "\<exists>st2. slave_master_poll E st = (case slave_turn E st2 of Inl e \<Rightarrow> Some (Inl e)
      | Inr x \<Rightarrow> (case fst x of Some r \<Rightarrow> Some (Inr (r, snd x)) | None \<Rightarrow> slave_master_poll E (snd x))) \<and>
    following g b ls (cs_shm st2) \<and> cs_conns st2 = cc"
proof -
  obtain t w where t: "ce_clock E (cs_world st) = (t, w)" by fastforce
  let ?st2 = "set_shm ((cs_shm st)\<lparr>sh_current_time := t\<rparr>) (st\<lparr>cs_world := w\<rparr>)"
  have "slave_master_poll E st = (case slave_turn E ?st2 of Inl e \<Rightarrow> Some (Inl e)
      | Inr x \<Rightarrow> (case fst x of Some r \<Rightarrow> Some (Inr (r, snd x)) | None \<Rightarrow> slave_master_poll E (snd x)))"
    by (subst slave_master_poll.simps)
      (use t following_simps(4) [OF assms(1)] in \<open>simp add: cs_now_def set_shm_def Let_def\<close>)
  with following_simps(7) [OF assms(1)] assms(2) show ?thesis by (intro exI [of _ ?st2]) (simp add: set_shm_def)
qed

lemma slave_follows_from:
  assumes "strands_come E" and "master_talks E" and "n \<le> unat (g_ntxn g)"
  shows "i \<le> n \<Longrightarrow> following g (e \<noteq> ce_endian E) ls (cs_shm st) \<Longrightarrow> n \<le> length ls \<Longrightarrow> \<forall>j < i. \<not> ls ! j \<Longrightarrow>
    \<forall>j. i \<le> j \<and> j < n \<longrightarrow> ls ! j \<Longrightarrow> cs_conns st = [c] \<Longrightarrow>
    ch_in c = command_stream e (next_txns i n @ [(UPERF_CMD_SEND_STATS, v)]) \<Longrightarrow> n - i < length (ch_rd c) \<Longrightarrow>
    \<forall>a \<in> set (ch_rd c). int SIZEOF_COMMAND \<le> a \<Longrightarrow>
    \<exists>st' c' ls'. slave_master_poll E st = Some (Inr (0, st')) \<and> following g (e \<noteq> ce_endian E) ls' (cs_shm st') \<and>
      length ls' = length ls \<and> (\<forall>j < n. \<not> ls' ! j) \<and> (\<forall>j. n \<le> j \<and> j < length ls \<longrightarrow> ls' ! j = ls ! j) \<and>
      cs_conns st' = [c'] \<and> ch_in c' = []"
proof (induction "n - i" arbitrary: i ls st c)
  case 0
  then have i: "i = n" by simp
  obtain a as where a: "ch_rd c = a # as" "int SIZEOF_COMMAND \<le> a" using "0.prems"(8,9) by (cases "ch_rd c") auto
  obtain st2 where s2: "slave_master_poll E st = (case slave_turn E st2 of Inl e \<Rightarrow> Some (Inl e)
      | Inr x \<Rightarrow> (case fst x of Some r \<Rightarrow> Some (Inr (r, snd x)) | None \<Rightarrow> slave_master_poll E (snd x)))"
      "following g (e \<noteq> ce_endian E) ls (cs_shm st2)" "cs_conns st2 = [c]"
    using slave_poll_step [OF "0.prems"(2,6)] by blast
  have inp: "ch_in c = command_stream e ((UPERF_CMD_SEND_STATS, v) # [])" using "0.prems"(7) i by simp
  obtain st1 uc where t: "following g (e \<noteq> ce_endian E) ls (cs_shm st1)"
      "cs_conns st1 = [c\<lparr>ch_rd := as, ch_in := command_stream e []\<rparr>]" "uc_command uc = UPERF_CMD_SEND_STATS"
      "slave_turn E st2 = cbind (slave_command E uc st1) (\<lambda>(stop, st4).
       if stop \<noteq> None then Inr (stop, st4) else cbind (shm_process_callouts E st4) (\<lambda>(_, st5). Inr (None, st5)))"
    using slave_turn_ready [OF assms(1,2) s2(2,3) inp a] by blast
  have "slave_turn E st2 = Inr (Some 0, set_shm ((cs_shm st1)\<lparr>sh_current_time := - 1\<rparr>) st1)"
    using t(3,4) by (simp add: slave_command_def UPERF_CMD_SEND_STATS_def UPERF_CMD_NEXT_TXN_def UPERF_CMD_ABORT_def)
  with s2(1) t(1,2) following_simps(7) [OF t(1)] i "0.prems"(4) show ?case
    by (intro exI [of _ "set_shm ((cs_shm st1)\<lparr>sh_current_time := - 1\<rparr>) st1"]
        exI [of _ "c\<lparr>ch_rd := as, ch_in := []\<rparr>"] exI [of _ ls]) (simp add: set_shm_def)
next
  case (Suc d)
  then have i: "i < n" by simp
  obtain a as where a: "ch_rd c = a # as" "int SIZEOF_COMMAND \<le> a" using Suc.prems(8,9) by (cases "ch_rd c") auto
  obtain st2 where s2: "slave_master_poll E st = (case slave_turn E st2 of Inl e \<Rightarrow> Some (Inl e)
      | Inr x \<Rightarrow> (case fst x of Some r \<Rightarrow> Some (Inr (r, snd x)) | None \<Rightarrow> slave_master_poll E (snd x)))"
      "following g (e \<noteq> ce_endian E) ls (cs_shm st2)" "cs_conns st2 = [c]"
    using slave_poll_step [OF Suc.prems(2,6)] by blast
  let ?rest = "next_txns (Suc i) n @ [(UPERF_CMD_SEND_STATS, v)]"
  have inp: "ch_in c = command_stream e ((UPERF_CMD_NEXT_TXN, of_nat i) # ?rest)"
    using Suc.prems(7) next_txns_Cons [OF i] by simp
  obtain st1 uc where t: "following g (e \<noteq> ce_endian E) ls (cs_shm st1)"
      "cs_conns st1 = [c\<lparr>ch_rd := as, ch_in := command_stream e ?rest\<rparr>]"
      "uc_command uc = UPERF_CMD_NEXT_TXN" "uc_value uc = of_nat i"
      "\<forall>k < length ls. ls ! k \<longrightarrow> (\<forall>i < k. \<not> ls ! i) \<longrightarrow> barrier_notreached (sh_bar (cs_shm st1) ! k) = 0"
      "slave_turn E st2 = cbind (slave_command E uc st1) (\<lambda>(stop, st4).
       if stop \<noteq> None then Inr (stop, st4) else cbind (shm_process_callouts E st4) (\<lambda>(_, st5). Inr (None, st5)))"
    using slave_turn_ready [OF assms(1,2) s2(2,3) inp a] by blast
  obtain tm w where tm: "ce_clock E (cs_world st1) = (tm, w)" by fastforce
  let ?st1 = "set_shm ((cs_shm st1)\<lparr>sh_txn_begin := tm\<rparr>) (st1\<lparr>cs_world := w\<rparr>)"
  have f1: "following g (e \<noteq> ce_endian E) ls (cs_shm ?st1)"
      "barrier_notreached (sh_bar (cs_shm ?st1) ! i) = 0" "cs_conns ?st1 = cs_conns st1"
    using following_simps(8) [OF t(1)] t(5) Suc.prems(3-5) i by (simp_all add: set_shm_def)
  obtain st3 where r: "wait_unlock_barrier E (of_nat i) ?st1 = Inr (0, st3)"
      "following g (e \<noteq> ce_endian E) (ls[i := False]) (cs_shm st3)" "cs_conns st3 = cs_conns st1"
    using release_next [OF f1(1) _ _ _ f1(2)] i Suc.prems(3,5) assms(3) f1(3) by auto
  obtain st4 where c4: "shm_process_callouts E st3 = Inr (0, st4)" "cs_shm st4 = cs_shm st3" "cs_conns st4 = cs_conns st3"
    using following_no_callouts [OF r(2)] by blast
  have "slave_turn E st2 = Inr (None, st4)"
    using t(3,4,6) tm r(1) c4(1) by (simp add: slave_command_def cs_now_def set_shm_def)
  then have go: "slave_master_poll E st = slave_master_poll E st4" using s2(1) by simp
  have f4: "following g (e \<noteq> ce_endian E) (ls[i := False]) (cs_shm st4)" using r(2) c4(2) by simp
  have conn4: "cs_conns st4 = [c\<lparr>ch_rd := as, ch_in := command_stream e ?rest\<rparr>]" using c4(3) r(3) t(2) by simp
  have d: "d = n - Suc i" using Suc.hyps(2) by simp
  have lo: "\<forall>j < Suc i. \<not> ls[i := False] ! j" using Suc.prems(3,4) i by (simp add: nth_list_update less_Suc_eq)
  have hi: "\<forall>j. Suc i \<le> j \<and> j < n \<longrightarrow> ls[i := False] ! j" using Suc.prems(5) by simp
  have len: "n - Suc i < length as" using i Suc.prems(8) a(1) by auto
  from Suc.hyps(1) [OF d _ f4 _ lo hi conn4] i Suc.prems(3,8,9) a(1) len
  obtain st' c' ls' where "slave_master_poll E st4 = Some (Inr (0, st'))" "following g (e \<noteq> ce_endian E) ls' (cs_shm st')"
      "length ls' = length ls" "\<forall>j < n. \<not> ls' ! j" "\<forall>j. n \<le> j \<and> j < length ls \<longrightarrow> ls' ! j = ls[i := False] ! j"
      "cs_conns st' = [c']" "ch_in c' = []"
    by auto
  with go i show ?case by auto
qed


section \<open>Witnesses\<close>

definition lab_slave_strand :: "strand" where
  \<comment> \<open>a strand that executes\<close>
  "lab_slave_strand = zero_strand\<lparr>s_state := STRAND_STATE_EXECUTING, s_worklist := Some zero_group\<rparr>"

lemma lab_slave_strand:
  "\<not> is_process lab_slave_strand" "s_worklist lab_slave_strand = Some zero_group"
  by (simp_all add: lab_slave_strand_def zero_strand_def is_process_def)

definition lab_slave :: "nat \<Rightarrow> barrier list \<Rightarrow> shm" where
  \<comment> \<open>one strand, \<open>n\<close> transactions\<close>
  "lab_slave n bars = (lab_shm [lab_slave_strand])\<lparr>sh_worklist := Some (zero_group\<lparr>g_nthreads := 1, g_ntxn := of_nat n\<rparr>),
     sh_bar := bars, sh_callouts := [0], sh_global_error := 0, sh_bitswap := False\<rparr>"

lemma lab_slave_sel [simp]:
  "sh_worklist (lab_slave n bars) = Some (zero_group\<lparr>g_nthreads := 1, g_ntxn := of_nat n\<rparr>)"
  "sh_bar (lab_slave n bars) = bars" "sh_callouts (lab_slave n bars) = [0]" "sh_role (lab_slave n bars) = SLAVE"
  "sh_global_error (lab_slave n bars) = 0" "sh_bitswap (lab_slave n bars) = False"
  "sh_strands (lab_slave n bars) = [lab_slave_strand]" "sh_no_strands (lab_slave n bars) = 1"
  by (simp_all add: lab_slave_def)


lemma slave_barrier_off_by_one_witness:
  "wait_unlock_barrier (lab_ctl 0) 1
     (lab_cs (lab_slave 1 (init_barrier 1 # drop 1 (sh_bar zero_shm))) []) = Inl Undefined"
proof -
  let ?g = "zero_group\<lparr>g_nthreads := 1, g_ntxn := of_nat 1\<rparr>"
  have "shm_init_barriers_slave ?g = (0, [init_barrier 1])"
    by (simp add: shm_init_barriers_slave_def NUM_BARRIER_def)
  from slave_barrier_off_by_one [OF _ this, of "lab_cs (lab_slave 1 (init_barrier 1 # drop 1 (sh_bar zero_shm))) []" "lab_ctl 0"]
  show ?thesis by (simp add: NUM_BARRIER_def)
qed

definition coming :: "barrier \<Rightarrow> barrier" where
  "coming b = b\<lparr>b_count := b_limit b\<rparr>"

definition lab_busy :: "unit ctlenv" where
  \<comment> \<open>strands that all come to every barrier, and a master that always has something to say\<close>
  "lab_busy = (lab_ctl 0)\<lparr>ce_strands := (\<lambda>st. set_shm ((cs_shm st)\<lparr>sh_bar := map coming (sh_bar (cs_shm st))\<rparr>) st)\<rparr>"

lemma lab_busy_ok: "strands_come lab_busy" "master_talks lab_busy" "ce_endian lab_busy = LittleEndian"
  by (auto simp: strands_come_def master_talks_def lab_busy_def lab_ctl_def set_shm_def main_part_def comes_to_def
      coming_def barrier_notreached_def comp_def)


end
