(* ===== verification/Master.thy ===== *)
theory Master
  imports Slave
begin

text \<open>
  The master (\<open>src/master.c\<close>): its control connections, the loop that announces one transaction
  after the other to the slaves and to its own strands (\<open>master_poll\<close>), and the run as a whole
  (\<open>master_init\<close>, \<open>master\<close>). The connections \<open>slaves[0], slaves[1], \<dots>\<close> are \<open>cs_conns\<close>, with
  their hosts and ports in \<open>ce_peers\<close>. What is only printed is left out, but for the counters
  of a progress line.
\<close>

section \<open>Control connections\<close>

definition MAXSLAVES :: nat where "MAXSLAVES = 1024"

record ctl =
  ct_control :: "protocol list"   \<comment> \<open>\<open>g->control\<close>, the last one first\<close>
  ct_slaves :: "protocol list"    \<comment> \<open>\<open>slaves[0..no_slaves)\<close>\<close>

definition new_control_connection ::
  "'w ctlenv \<Rightarrow> build_config \<Rightarrow> u32 \<Rightarrow> int \<Rightarrow> (protocol \<Rightarrow> ('w, int \<times> protocol) io) \<Rightarrow> string \<Rightarrow>
     ctl \<times> 'w cs \<Rightarrow> c_stop + int \<times> ctl \<times> 'w cs" where
  \<comment> \<open>\<open>connect\<close> is the \<open>connect\<close> operation of the control protocol\<close>
  "new_control_connection E cfg proto port connect host x =
     (let ct = fst x; st = snd x in
      if host = [] then Inr (UPERF_FAILURE, ct, st)
      else if find (\<lambda>p. strncaseeq MAXHOSTNAME host (p_host p)) (ct_control ct) \<noteq> None then
        Inr (UPERF_SUCCESS, ct, st)
      else cbind (create_protocol cfg proto host port) (\<lambda>p.
        cbind (cs_io E (connect p) st) (\<lambda>((r, p1), st1).
          if r \<noteq> 0 then Inr (UPERF_FAILURE, ct, st1)
          else if length (ct_slaves ct) < MAXSLAVES then
            Inr (UPERF_SUCCESS, ct\<lparr>ct_control := p1 # ct_control ct, ct_slaves := ct_slaves ct @ [p1]\<rparr>, st1)
          else Inl Undefined)))"

fun control_flowops ::
  "'w ctlenv \<Rightarrow> build_config \<Rightarrow> u32 \<Rightarrow> int \<Rightarrow> (protocol \<Rightarrow> ('w, int \<times> protocol) io) \<Rightarrow> flowop list \<Rightarrow>
     int list \<Rightarrow> ctl \<times> 'w cs \<Rightarrow> c_stop + int \<times> int list \<times> ctl \<times> 'w cs" where
  \<comment> \<open>the loops over the transactions and flowops of a group; the list is \<open>g->protocols\<close>\<close>
  "control_flowops E cfg proto port connect [] ps x = Inr (UPERF_SUCCESS, ps, x)"
| "control_flowops E cfg proto port connect (f # fs) ps x =
     (if f_type f = FLOWOP_CONNECT \<or> f_type f = FLOWOP_ACCEPT then
        cbind (new_control_connection E cfg proto port connect (fo_remotehost (f_options f)) x) (\<lambda>(r, x1).
          if r \<noteq> 0 then Inr (UPERF_FAILURE, ps, x1)
          else let k = unat (fo_protocol (f_options f)) in
            if length ps \<le> k then Inl Undefined
            else control_flowops E cfg proto port connect fs (ps[k := 1]) x1)
      else control_flowops E cfg proto port connect fs ps x)"

fun create_control_connections ::
  "'w ctlenv \<Rightarrow> build_config \<Rightarrow> u32 \<Rightarrow> int \<Rightarrow> (protocol \<Rightarrow> ('w, int \<times> protocol) io) \<Rightarrow> group list \<Rightarrow>
     protocol list \<times> 'w cs \<Rightarrow> c_stop + int \<times> (group \<times> protocol list) list \<times> protocol list \<times> 'w cs" where
  \<comment> \<open>the groups with their control connections, and \<open>slaves\<close>\<close>
  "create_control_connections E cfg proto port connect [] x = Inr (UPERF_SUCCESS, [], x)"
| "create_control_connections E cfg proto port connect (g # gs) x =
     cbind (control_flowops E cfg proto port connect (concat (map t_flist (g_tlist g))) (g_protocols g)
              (\<lparr>ct_control = [], ct_slaves = fst x\<rparr>, snd x)) (\<lambda>(r, ps, ct, st).
       let g1 = (g\<lparr>g_protocols := ps\<rparr>, ct_control ct) in
       if r \<noteq> UPERF_SUCCESS then Inr (UPERF_FAILURE, g1 # map (\<lambda>g. (g, [])) gs, ct_slaves ct, st)
       else cbind (create_control_connections E cfg proto port connect gs (ct_slaves ct, st)) (\<lambda>(r', gs', x').
              Inr (r', g1 # gs', x')))"

section \<open>Talking to the slaves\<close>

definition MAX_POLL_SLAVES_TIMEOUT :: u64 where "MAX_POLL_SLAVES_TIMEOUT = 1000"

definition poll_slaves :: "'w ctlenv \<Rightarrow> 'w cs \<Rightarrow> int \<times> 'w cs" where
  "poll_slaves E st =
     (case ce_poll E (unat (min MAX_POLL_SLAVES_TIMEOUT (ce_interval E))) (cs_world st) of (r, w) \<Rightarrow>
        (r, ce_strands E (st\<lparr>cs_world := w\<rparr>)))"

fun send_commands :: "endian \<Rightarrow> u32 \<Rightarrow> u32 \<Rightarrow> chan list \<Rightarrow> int \<Rightarrow> int \<times> chan list \<times> nat option" where
  \<comment> \<open>the value of \<open>ret\<close>, the connections, and which one failed\<close>
  "send_commands e cmd v [] r0 = (r0, [], None)"
| "send_commands e cmd v (c # cs) r0 =
     (case uperf_send_command e cmd v c of (r, c1) \<Rightarrow>
        if r \<le> 0 then (r, c1 # cs, Some 0)
        else (case send_commands e cmd v cs r of (r', cs', failed) \<Rightarrow> (r', c1 # cs', map_option Suc failed)))"

definition send_command_to_slaves :: "'w ctlenv \<Rightarrow> u32 \<Rightarrow> int \<Rightarrow> 'w cs \<Rightarrow> c_stop + int \<times> 'w cs" where
  "send_command_to_slaves E cmd v st =
     (case send_commands (ce_endian E) cmd (to_u32 v) (cs_conns st) 0 of (r, cs, failed) \<Rightarrow>
        case failed of
          None \<Rightarrow> Inr (r, st\<lparr>cs_conns := cs\<rparr>)
        | Some i \<Rightarrow>
            if length (ce_peers E) \<le> i then Inl Undefined
            else cbind (cs_report E UPERF_LOG_WARN r
                   (strlcpy (MAXHOSTNAME + 64) (''Could not send command '' @ dec_int v @ '' to '' @
                      fst (ce_peers E ! i) @ '':'' @ dec_int (snd (ce_peers E ! i)) @ '' ''))
                   (st\<lparr>cs_conns := cs\<rparr>)) (\<lambda>st1. Inr (r, st1)))"

definition master_prepare_to_exit :: "'w ctlenv \<Rightarrow> nat \<times> 'w cs \<Rightarrow> c_stop + nat \<times> 'w cs" where
  \<comment> \<open>the number is the static \<open>cleaned_up\<close>\<close>
  "master_prepare_to_exit E x =
     (if 1 < fst x then Inl Aborted
      else cbind (strand_killall E (snd x)) (\<lambda>(_, st1).
        cbind (send_command_to_slaves E UPERF_CMD_ABORT 0 st1) (\<lambda>(_, st2). Inr (fst x + 1, st2))))"

section \<open>The main loop\<close>

definition stats_on :: "u32 \<Rightarrow> bool" where
  \<comment> \<open>\<open>ENABLED_STATS\<close>\<close>
  "stats_on copt = (\<not> enabled NO_STATS copt)"

definition cs_aggregate :: "'w cs \<Rightarrow> 'w cs" where
  \<comment> \<open>\<open>update_aggr_stat(shm)\<close>\<close>
  "cs_aggregate st =
     (let shm = cs_shm st in
      set_shm (shm\<lparr>sh_agg_stat := update_aggr_stat
        (map s_nstats (take (nat (sh_no_strands shm)) (sh_strands shm))) (sh_agg_stat shm)\<rparr>) st)"

definition print_progress :: "'w ctlenv \<Rightarrow> newstats \<Rightarrow> 'w cs \<Rightarrow> newstats option \<times> 'w cs" where
  \<comment> \<open>the counters printed, if any\<close>
  "print_progress E prev st =
     (if stats_on (ce_copt E) then
        (let st1 = cs_aggregate st; agg = sh_agg_stat (cs_shm st1) in
         case cs_now E st1 of (t, st2) \<Rightarrow>
           (Some (agg\<lparr>ns_start_time := ns_end_time prev, ns_size := ns_size agg - ns_size prev, ns_end_time := t,
                      ns_count := ns_count agg - ns_count prev, ns_name := strlcpy UPERF_NAME_LEN (ns_name prev)\<rparr>),
            st2))
      else (None, st))"

definition next_txn :: "'w ctlenv \<Rightarrow> nat \<Rightarrow> newstats \<Rightarrow> 'w cs \<Rightarrow> c_stop + newstats \<times> 'w cs" where
  \<comment> \<open>the branch \<open>BARRIER_REACHED\<close>: begin transaction \<open>k\<close> everywhere; the new \<open>prev_ns\<close>\<close>
  "next_txn E k prev st =
     (case (if stats_on (ce_copt E) then
              (let st1 = cs_aggregate (if k \<noteq> 0 then snd (print_progress E prev st) else st) in
               case cs_now E st1 of (t, st2) \<Rightarrow>
                 ((sh_agg_stat (cs_shm st1))\<lparr>ns_end_time := t,
                    ns_name := strlcpy UPERF_NAME_LEN (''Txn'' @ dec_nat (k + 1))\<rparr>, st2))
            else (prev, st)) of (prev1, st3) \<Rightarrow>
      cbind (send_command_to_slaves E UPERF_CMD_NEXT_TXN (int k) st3) (\<lambda>(_, st4).
      case cs_now E st4 of (t, st5) \<Rightarrow>
      cbind (release_barrier k (set_shm ((cs_shm st5)\<lparr>sh_txn_begin := t\<rparr>) st5)) (\<lambda>st6. Inr (prev1, st6))))"

record ml =
  \<comment> \<open>the local variables of the loop: \<open>curr_txn\<close>, \<open>time_to_print\<close>, \<open>prev_ns\<close>\<close>
  ml_curr :: nat
  ml_print :: nat
  ml_prev :: newstats

definition cs_clock :: "'w ctlenv \<Rightarrow> 'w cs \<Rightarrow> u64 \<times> 'w cs" where
  \<comment> \<open>\<open>shm->current_time = GETHRTIME()\<close>\<close>
  "cs_clock E st = (case cs_now E st of (t, st1) \<Rightarrow> (t, set_shm ((cs_shm st1)\<lparr>sh_current_time := t\<rparr>) st1))"

definition master_turn :: "'w ctlenv \<Rightarrow> ml \<Rightarrow> 'w cs \<Rightarrow> c_stop + ml option \<times> 'w cs" where
  \<comment> \<open>the body of the first loop; \<open>None\<close>: \<open>break\<close>\<close>
  "master_turn E m st =
     (if 0 < sh_global_error (cs_shm st) then Inr (None, st)
      else case poll_slaves E st of (error, st1) \<Rightarrow>
        if error \<noteq> 0 then Inr (None, set_shm (flag_error (cs_shm st1)) st1)
        else cbind (shm_process_callouts E (snd (cs_clock E st1))) (\<lambda>(_, st2).
          if length (sh_bar (cs_shm st2)) \<le> ml_curr m then Inl Undefined
          else cbind (if barrier_notreached (sh_bar (cs_shm st2) ! ml_curr m) = 0 then
                        cbind (next_txn E (ml_curr m) (ml_prev m) st2) (\<lambda>(prev, st3).
                          Inr (m\<lparr>ml_prev := prev, ml_curr := ml_curr m + 1\<rparr>, st3))
                      else Inr (m, st2)) (\<lambda>(m1, st3).
            case cs_clock E st3 of (t, st4) \<Rightarrow>
              Inr (if stats_on (ce_copt E) \<and> ml_print m1 \<le> dbl (unat t) then
                     (Some (m1\<lparr>ml_print := dbl (dbl (unat t) + dbl (dbl (unat (ce_interval E)) * 1000000))\<rparr>),
                      snd (print_progress E (ml_prev m1) st4))
                   else (Some m1, st4)))))"

partial_function (option) master_loop :: "'w ctlenv \<Rightarrow> int \<Rightarrow> ml \<Rightarrow> 'w cs \<Rightarrow> (c_stop + newstats \<times> 'w cs) option" where
  \<comment> \<open>the first loop, with \<open>no_txn\<close>; \<open>prev_ns\<close> at its end\<close>
  "master_loop E no_txn m st =
     (if int (ml_curr m) < no_txn then
        (case master_turn E m st of
           Inl e \<Rightarrow> Some (Inl e)
         | Inr x \<Rightarrow> (case fst x of None \<Rightarrow> Some (Inr (ml_prev m, snd x)) | Some m1 \<Rightarrow> master_loop E no_txn m1 (snd x)))
      else Some (Inr (ml_prev m, st)))"

partial_function (option) finish_loop :: "'w ctlenv \<Rightarrow> newstats \<Rightarrow> 'w cs \<Rightarrow> (c_stop + 'w cs) option" where
  \<comment> \<open>the second loop\<close>
  "finish_loop E prev st =
     (if sh_global_error (cs_shm st) = 0 \<and> sh_finished (cs_shm st) = 0 then
        (case shm_process_callouts E st of
           Inl e \<Rightarrow> Some (Inl e)
         | Inr x \<Rightarrow> finish_loop E prev (ce_strands E (snd (print_progress E prev (snd x)))))
      else Some (Inr st))"

definition master_end :: "'w ctlenv \<Rightarrow> 'w cs \<Rightarrow> c_stop + int \<times> 'w cs" where
  \<comment> \<open>\<open>master_poll\<close> after its loops\<close>
  "master_end E st =
     (if 0 < sh_global_error (cs_shm st) then
        cbind (master_prepare_to_exit E (0, st)) (\<lambda>(_, st1). Inr (1, st1))
      else if enabled ERROR_STATS (ce_copt E) then
        cbind (send_command_to_slaves E UPERF_CMD_SEND_STATS 0 st) (\<lambda>(r, st1). Inr (if r \<le> 0 then 1 else 0, st1))
      else Inr (0, st))"

definition master_poll :: "'w ctlenv \<Rightarrow> 'w cs \<Rightarrow> (c_stop + int \<times> 'w cs) option" where
  \<comment> \<open>\<open>None\<close> if it does not return\<close>
  "master_poll E st =
     (case sh_workorder (cs_shm st) of
        None \<Rightarrow> Some (Inl Undefined)
      | Some w \<Rightarrow>
          (case cs_clock E st of (t, st1) \<Rightarrow>
             case master_loop E (workorder_max_txn w) \<lparr>ml_curr = 0, ml_print = dbl (unat t), ml_prev = zero_stats\<rparr> st1 of
               None \<Rightarrow> None
             | Some (Inl e) \<Rightarrow> Some (Inl e)
             | Some (Inr (prev, st2)) \<Rightarrow>
                 (case finish_loop E prev st2 of
                    None \<Rightarrow> None
                  | Some (Inl e) \<Rightarrow> Some (Inl e)
                  | Some (Inr st3) \<Rightarrow> Some (master_end E st3))))"

section \<open>The run\<close>

definition master_init ::
  "'w ctlenv \<Rightarrow> build_config \<Rightarrow> (u32 \<Rightarrow> int) \<Rightarrow> (csignal \<Rightarrow> bool) \<Rightarrow> u32 \<Rightarrow> int \<Rightarrow>
     (protocol \<Rightarrow> ('w, int \<times> protocol) io) \<Rightarrow> workorder \<Rightarrow> uperf_log \<times> 'w \<Rightarrow>
     c_stop + (group \<times> protocol list) list \<times> protocol list \<times> 'w cs" where
  \<comment> \<open>\<open>master\<close> exits when it returns a null pointer\<close>
  "master_init E cfg init sigok proto port connect w x =
     (if protocol_init cfg init = UPERF_FAILURE then Inl (Exited 1)
      else if snd (master_setup_signal_handler sigok) \<noteq> UPERF_SUCCESS then Inl (Exited 1)
      else cbind (create_control_connections E cfg proto port connect (w_grp w)
                    ([], \<lparr>cs_shm = shm_init w, cs_errno = 0, cs_log = fst x, cs_conns = [], cs_world = snd x\<rparr>))
             (\<lambda>(r, gps, sl, st).
        if r \<noteq> UPERF_SUCCESS then Inl (Exited 1)
        else let w1 = w\<lparr>w_grp := map fst gps\<rparr> in
          cbind (strand_init_all ((cs_shm st)\<lparr>sh_global_error := 0, sh_role := MASTER, sh_workorder := Some w1\<rparr>) w1) (\<lambda>shm1.
          cbind (shm_init_barriers_master w1) (\<lambda>(b, bars).
            if b \<noteq> 0 then Inl (Exited 1)
            else Inr (gps, sl, set_shm (shm1\<lparr>sh_bar := bars @ drop (length bars) (sh_bar shm1)\<rparr>) st)))))"

fun slaves_order :: "nat list \<Rightarrow> 'a list \<Rightarrow> 'a list" where
  \<comment> \<open>from the order of the lists \<open>g->control\<close> to that of \<open>slaves\<close>\<close>
  "slaves_order [] xs = []"
| "slaves_order (n # ns) xs = rev (take n xs) @ slaves_order ns (drop n xs)"

definition master_start ::
  "'w ctlenv \<Rightarrow> build_config \<Rightarrow> listener \<Rightarrow> (nat \<Rightarrow> int) \<Rightarrow> (protocol \<Rightarrow> chan) \<Rightarrow> (group \<times> protocol list) list \<Rightarrow> 'w cs \<Rightarrow>
     c_stop + int \<times> 'w cs" where
  \<comment> \<open>handshake, strands and end of the handshake; \<open>dial\<close> is what comes over a connection\<close>
  "master_start E cfg lsn create dial gps st =
     (let order = slaves_order (map (length \<circ> snd) gps) in
      cbind (handshake (ce_endian E) cfg lsn (map (\<lambda>(g, ps). (g, map (\<lambda>p. (p_host p, dial p)) ps)) gps) (cs_shm st))
        (\<lambda>(r, shm1, gs1).
        if r \<noteq> UPERF_SUCCESS then Inl (Exited 1)
        else cbind (spawn_groups create (map fst gps) 0 0 shm1) (\<lambda>shm2.
          let cs = concat (map (map snd \<circ> snd) gs1); st2 = set_shm shm2 (st\<lparr>cs_conns := order cs\<rparr>) in
          if 0 < sh_global_error shm2 then
            cbind (master_prepare_to_exit E (0, st2)) (\<lambda>(_, st3). Inr (UPERF_FAILURE, st3))
          else case handshake_end_master cs of (r4, cs') \<Rightarrow>
            Inr (if r4 \<noteq> UPERF_SUCCESS then UPERF_FAILURE else UPERF_SUCCESS, st2\<lparr>cs_conns := order cs'\<rparr>))))"

definition UPERF_GOODBYE_TIMEOUT :: int where "UPERF_GOODBYE_TIMEOUT = 15000"

definition master_finish ::
  "'w ctlenv \<Rightarrow> ('w cs \<Rightarrow> slave_end list) \<Rightarrow> int \<Rightarrow> int \<Rightarrow> 'w cs \<Rightarrow> (c_stop + int \<times> goodbye_stat option \<times> 'w cs) option" where
  \<comment> \<open>\<open>master\<close> after \<open>master_poll\<close>: \<open>ends\<close> is what the slaves send at the end, \<open>junk\<close> the
     uninitialised \<open>rc\<close>; the totals of the slaves if they were asked for\<close>
  "master_finish E ends junk err st =
     (let err1 = (if err = 0 \<and> sh_global_error (cs_shm st) \<noteq> 0 then sh_global_error (cs_shm st) else err) in
      case wait_for_strands E err1 st of
        Inl e \<Rightarrow> Some (Inl e)
      | Inr st1 \<Rightarrow>
          (let st2 = snd (cs_clock E (agg_update E (\<lambda>clk. newstat_end (ce_copt E) clk 0 0) (ce_strands E st1)));
               tmo = (if 0 < sh_global_error (cs_shm st2) then 1000 else UPERF_GOODBYE_TIMEOUT);
               leave = (\<lambda>rc tot st3.
                 let st4 = cs_flush E st3 in
                 if sh_global_error (cs_shm st4) \<noteq> 0 then Inl (Exited 1) else Inr (rc, tot, st4))
           in if enabled ERROR_STATS (ce_copt E) then
                (case say_goodbyes_and_close (ce_endian E) (ce_strerror E) tmo (ends st2)
                        (\<lparr>gs_elapsed_time = 0, gs_error = 0, gs_bytes_xfer = 0, gs_count = 0\<rparr>, cs_log st2) of
                   None \<Rightarrow> None
                 | Some (Inl e) \<Rightarrow> Some (Inl e)
                 | Some (Inr (tot, l)) \<Rightarrow> Some (leave 0 (Some tot) (cs_aggregate (st2\<lparr>cs_log := l, cs_conns := []\<rparr>))))
              else Some (leave junk None st2)))"

definition master ::
  "'w ctlenv \<Rightarrow> build_config \<Rightarrow> (u32 \<Rightarrow> int) \<Rightarrow> (csignal \<Rightarrow> bool) \<Rightarrow> u32 \<Rightarrow> int \<Rightarrow>
     (protocol \<Rightarrow> ('w, int \<times> protocol) io) \<Rightarrow> listener \<Rightarrow> (nat \<Rightarrow> int) \<Rightarrow> (protocol \<Rightarrow> chan) \<Rightarrow>
     ('w cs \<Rightarrow> slave_end list) \<Rightarrow> int \<Rightarrow> workorder \<Rightarrow> uperf_log \<times> 'w \<Rightarrow>
     (c_stop + int \<times> goodbye_stat option \<times> 'w cs) option" where
  "master E cfg init sigok proto port connect lsn create dial ends junk w x =
     (case cbind (master_init E cfg init sigok proto port connect w x) (\<lambda>(gps, sl, st).
             master_start E cfg lsn create dial gps st) of
        Inl e \<Rightarrow> Some (Inl e)
      | Inr (r, st1) \<Rightarrow>
          if r \<noteq> UPERF_SUCCESS then Some (Inr (UPERF_FAILURE, None, st1))
          else (case master_poll E (agg_update E (newstat_begin (ce_copt E)) st1) of
                  None \<Rightarrow> None
                | Some (Inl e) \<Rightarrow> Some (Inl e)
                | Some (Inr (err, st2)) \<Rightarrow> master_finish E ends junk err st2))"

section \<open>Commands go out\<close>

definition can_send :: "nat \<Rightarrow> chan \<Rightarrow> bool" where
  \<comment> \<open>the next \<open>n\<close> commands are written whole\<close>
  "can_send n c = (n \<le> length (ch_wr c) \<and> (\<forall>a \<in> set (ch_wr c). int SIZEOF_COMMAND \<le> a))"

definition told_all :: "endian \<Rightarrow> (u32 \<times> u32) list \<Rightarrow> nat \<Rightarrow> chan list \<Rightarrow> chan list \<Rightarrow> bool" where
  \<comment> \<open>every slave was sent these commands, and \<open>n\<close> more can be\<close>
  "told_all e cmds n cs cs' =
     list_all2 (\<lambda>c c'. ch_out c' = ch_out c @ command_stream e cmds \<and> can_send n c') cs cs'"

lemma told_all_trans:
  "told_all e cmds n cs cs1 \<Longrightarrow> told_all e cmds' n' cs1 cs2 \<Longrightarrow> told_all e (cmds @ cmds') n' cs cs2"
  unfolding told_all_def by (rule list_all2_trans) auto

lemma told_all_none: "list_all (can_send n) cs \<Longrightarrow> told_all e [] n cs cs"
  by (simp add: told_all_def list_all2_same list_all_iff)

lemma told_all_can_send: "told_all e cmds n cs cs' \<Longrightarrow> list_all (can_send n) cs'"
  unfolding told_all_def by (induction rule: list_all2_induct) auto

lemma told_all_empty: "told_all e cmds n cs cs' \<Longrightarrow> cs' = [] \<longleftrightarrow> cs = []"
  by (auto simp: told_all_def)

lemma send_command_whole:
  assumes "can_send (Suc n) c"
  shows "\<exists>c'. uperf_send_command e cmd v c = (int SIZEOF_COMMAND, c') \<and>
    ch_out c' = ch_out c @ command_stream e [(cmd, v)] \<and> can_send n c'"
proof -
  let ?bs = "put_command e \<lparr>uc_magic = strlcpy 64 UPERF_COMMAND_MAGIC, uc_command = cmd, uc_value = v\<rparr>"
  have l: "length ?bs = SIZEOF_COMMAND" by (rule command_codec.length_put)
  obtain a as where a: "ch_wr c = a # as" using assms by (cases "ch_wr c") (auto simp: can_send_def)
  then have "int SIZEOF_COMMAND \<le> a" using assms by (simp add: can_send_def)
  then have "0 < a" "SIZEOF_COMMAND \<le> nat a" by (auto simp: SIZEOF_COMMAND_def)
  with a l have "uperf_send_command e cmd v c = (int SIZEOF_COMMAND, c\<lparr>ch_wr := as, ch_out := ch_out c @ ?bs\<rparr>)"
    by (simp add: uperf_send_command_def sys_write_def Let_def min_def)
  with a assms show ?thesis by (simp add: can_send_def)
qed

lemma send_commands_whole:
  assumes "list_all (can_send (Suc n)) cs"
  shows "\<exists>cs'. send_commands e cmd v cs r0 = (if cs = [] then r0 else int SIZEOF_COMMAND, cs', None) \<and>
    told_all e [(cmd, v)] n cs cs'"
  using assms
proof (induction cs arbitrary: r0)
  case (Cons c cs)
  obtain c' where c: "uperf_send_command e cmd v c = (int SIZEOF_COMMAND, c')"
      "ch_out c' = ch_out c @ command_stream e [(cmd, v)]" "can_send n c'"
    using send_command_whole [of n c e cmd v] Cons.prems by auto
  from Cons.IH [of "int SIZEOF_COMMAND"] Cons.prems obtain cs' where
    "send_commands e cmd v cs (int SIZEOF_COMMAND) = (int SIZEOF_COMMAND, cs', None)" "told_all e [(cmd, v)] n cs cs'"
    by (auto split: if_splits)
  with c show ?case by (simp add: told_all_def SIZEOF_COMMAND_def)
qed (simp add: told_all_def)

lemma send_to_slaves_whole:
  assumes "list_all (can_send (Suc n)) (cs_conns st)"
  shows "\<exists>cs'. send_command_to_slaves E cmd v st =
      Inr (if cs_conns st = [] then 0 else int SIZEOF_COMMAND, st\<lparr>cs_conns := cs'\<rparr>) \<and>
    told_all (ce_endian E) [(cmd, to_u32 v)] n (cs_conns st) cs'"
  using send_commands_whole [OF assms, of "ce_endian E" cmd "to_u32 v" 0]
  by (auto simp: send_command_to_slaves_def)

section \<open>What the loops leave alone\<close>

definition same_main :: "'w cs \<Rightarrow> 'w cs \<Rightarrow> bool" where
  "same_main st st' = (main_part (cs_shm st') = main_part (cs_shm st) \<and> cs_conns st' = cs_conns st \<and>
     sh_bar (cs_shm st') = sh_bar (cs_shm st))"

lemma same_main_refl: "same_main st st"
  by (simp add: same_main_def)

lemma same_main_trans: "same_main a b \<Longrightarrow> same_main b c \<Longrightarrow> same_main a c"
  by (simp add: same_main_def)

lemma same_main_ops:
  "same_main st (cs_aggregate st)" "same_main st (snd (cs_now E st))" "same_main st (snd (cs_clock E st))"
  "same_main st (st\<lparr>cs_world := w\<rparr>)"
  by (auto simp: same_main_def cs_aggregate_def cs_now_def cs_clock_def set_shm_def main_part_def Let_def split: prod.splits)

lemma same_main_progress: "same_main st (snd (print_progress E prev st))"
proof (cases "stats_on (ce_copt E)")
  case True
  have "snd (print_progress E prev st) = snd (cs_now E (cs_aggregate st))"
    using True by (simp add: print_progress_def Let_def split: prod.splits)
  then show ?thesis using same_main_trans [OF same_main_ops(1) same_main_ops(2)] by metis
qed (simp add: print_progress_def same_main_refl)

definition mastering :: "workorder \<Rightarrow> bool list \<Rightarrow> shm \<Rightarrow> bool" where
  \<comment> \<open>a master at work, with no error and no transaction that has a duration\<close>
  "mastering w ls shm = (\<exists>wl bs cs ns. main_part shm = (wl, Some w, MASTER, bs, 0, cs, ls, ns) \<and>
     length (w_grp w) \<le> length cs \<and> (\<forall>i < length (w_grp w). cs ! i = 0))"

lemma mastering_simps:
  assumes "mastering w ls shm"
  shows "sh_workorder shm = Some w" "sh_global_error shm = 0" "length (sh_bar shm) = length ls"
    "j < length ls \<Longrightarrow> b_locked (sh_bar shm ! j) = ls ! j" "callout_groups shm = length (w_grp w)"
    "length (w_grp w) \<le> length (sh_callouts shm)" "\<forall>i < length (w_grp w). sh_callouts shm ! i = 0"
    "mastering w ls (shm\<lparr>sh_txn_begin := t\<rparr>)"
    "mastering w (ls[k := False]) (shm\<lparr>sh_bar := (sh_bar shm)[k := unlock_barrier (sh_bar shm ! k)]\<rparr>)"
proof -
  have m: "map b_locked (sh_bar shm) = ls" using assms by (auto simp: mastering_def main_part_def)
  then show "length (sh_bar shm) = length ls" by auto
  show "j < length ls \<Longrightarrow> b_locked (sh_bar shm ! j) = ls ! j" using m by auto
  show "mastering w (ls[k := False]) (shm\<lparr>sh_bar := (sh_bar shm)[k := unlock_barrier (sh_bar shm ! k)]\<rparr>)"
    using assms m by (auto simp: mastering_def main_part_def map_update unlock_barrier_def)
qed (use assms in \<open>auto simp: mastering_def main_part_def callout_groups_def\<close>)

lemma mastering_same: "same_main st st' \<Longrightarrow> mastering w ls (cs_shm st') = mastering w ls (cs_shm st)"
  by (simp add: same_main_def mastering_def)

lemma callout_loop_idle:
  "\<forall>i \<in> set is. i < length (sh_callouts (cs_shm st)) \<and> sh_callouts (cs_shm st) ! i = 0 \<Longrightarrow>
   callout_loop E now is n st = Inr (n, st)"
  by (induction "is") auto

lemma mastering_no_callouts:
  assumes "mastering w ls (cs_shm st)"
  shows "\<exists>st'. shm_process_callouts E st = Inr (0, st') \<and> same_main st st'"
proof -
  obtain t wd where t: "ce_clock E (cs_world st) = (t, wd)" by fastforce
  have "callout_loop E (in_seconds t) [0..<length (w_grp w)] 0 (st\<lparr>cs_world := wd\<rparr>) = Inr (0, st\<lparr>cs_world := wd\<rparr>)"
    using mastering_simps(6,7) [OF assms] by (intro callout_loop_idle) auto
  with t mastering_simps(5) [OF assms] same_main_ops(4) [of st wd] show ?thesis
    by (simp add: shm_process_callouts_def cs_now_def)
qed

section \<open>The transactions are announced in order\<close>

definition slaves_silent :: "'w ctlenv \<Rightarrow> bool" where
  \<comment> \<open>no slave sends anything\<close>
  "slaves_silent E = (\<forall>t w. fst (ce_poll E t w) = 0)"

definition strands_finish :: "'w ctlenv \<Rightarrow> bool" where
  \<comment> \<open>once all barriers are released, some strand ends\<close>
  "strands_finish E = (\<forall>st. (\<forall>b \<in> set (sh_bar (cs_shm st)). \<not> b_locked b) \<longrightarrow> sh_finished (cs_shm (ce_strands E st)) \<noteq> 0)"

lemma next_txn_ok:
  assumes "mastering w ls (cs_shm st)" and "k < length ls" and "ls ! k" and "list_all (can_send (Suc n)) (cs_conns st)"
  shows "\<exists>prev' st'. next_txn E k prev st = Inr (prev', st') \<and> mastering w (ls[k := False]) (cs_shm st') \<and>
    told_all (ce_endian E) [(UPERF_CMD_NEXT_TXN, of_nat k)] n (cs_conns st) (cs_conns st')"
proof -
  obtain prev1 st3 where p: "(if stats_on (ce_copt E) then
              (let st1 = cs_aggregate (if k \<noteq> 0 then snd (print_progress E prev st) else st) in
               case cs_now E st1 of (t, st2) \<Rightarrow>
                 ((sh_agg_stat (cs_shm st1))\<lparr>ns_end_time := t,
                    ns_name := strlcpy UPERF_NAME_LEN (''Txn'' @ dec_nat (k + 1))\<rparr>, st2))
            else (prev, st)) = (prev1, st3)" by fastforce
  have "same_main st (if k \<noteq> 0 then snd (print_progress E prev st) else st)"
    by (simp add: same_main_progress same_main_refl)
  from same_main_trans [OF this same_main_ops(1)]
  have "same_main st (snd (cs_now E (cs_aggregate (if k \<noteq> 0 then snd (print_progress E prev st) else st))))"
    using same_main_ops(2) by (rule same_main_trans)
  then have s3: "same_main st st3"
    using p by (auto simp: Let_def same_main_refl split: if_splits prod.splits)
  then have conns: "cs_conns st3 = cs_conns st" by (simp add: same_main_def)
  obtain cs' where snd: "send_command_to_slaves E UPERF_CMD_NEXT_TXN (int k) st3 =
      Inr (if cs_conns st3 = [] then 0 else int SIZEOF_COMMAND, st3\<lparr>cs_conns := cs'\<rparr>)"
      "told_all (ce_endian E) [(UPERF_CMD_NEXT_TXN, to_u32 (int k))] n (cs_conns st3) cs'"
    using send_to_slaves_whole [of n st3 E UPERF_CMD_NEXT_TXN "int k"] assms(4) conns by auto
  let ?st4 = "st3\<lparr>cs_conns := cs'\<rparr>"
  obtain t wd where t: "ce_clock E (cs_world ?st4) = (t, wd)" by fastforce
  let ?st5 = "set_shm ((cs_shm st3)\<lparr>sh_txn_begin := t\<rparr>) (?st4\<lparr>cs_world := wd\<rparr>)"
  have m5: "mastering w ls (cs_shm ?st5)"
    using assms(1) mastering_same [OF s3] mastering_simps(8) by (simp add: set_shm_def)
  let ?st6 = "set_shm ((cs_shm ?st5)\<lparr>sh_bar := (sh_bar (cs_shm ?st5))[k := unlock_barrier (sh_bar (cs_shm ?st5) ! k)]\<rparr>) ?st5"
  have "release_barrier k ?st5 = Inr ?st6"
    using mastering_simps(3,4) [OF m5] assms(2,3) by (simp add: release_barrier_def)
  with p snd(1) t have "next_txn E k prev st = Inr (prev1, ?st6)"
    by (simp add: next_txn_def cs_now_def set_shm_def)
  moreover have "mastering w (ls[k := False]) (cs_shm ?st6)"
    using mastering_simps(9) [OF m5] by (simp add: set_shm_def)
  moreover have "cs_conns ?st6 = cs'" by (simp add: set_shm_def)
  ultimately show ?thesis using snd(2) conns by auto
qed

lemma master_turn_ok:
  assumes "strands_come E" and "slaves_silent E" and "mastering w ls (cs_shm st)"
    and "ml_curr m < length ls" and "ls ! ml_curr m" and "\<forall>i < ml_curr m. \<not> ls ! i"
    and "list_all (can_send (Suc n)) (cs_conns st)"
  shows "\<exists>m' st'. master_turn E m st = Inr (Some m', st') \<and> ml_curr m' = Suc (ml_curr m) \<and>
    mastering w (ls[ml_curr m := False]) (cs_shm st') \<and>
    told_all (ce_endian E) [(UPERF_CMD_NEXT_TXN, of_nat (ml_curr m))] n (cs_conns st) (cs_conns st')"
proof -
  let ?k = "ml_curr m"
  obtain r wd where r: "ce_poll E (unat (min MAX_POLL_SLAVES_TIMEOUT (ce_interval E))) (cs_world st) = (r, wd)" by fastforce
  have "r = 0" using assms(2) r unfolding slaves_silent_def by (metis fst_conv)
  let ?st0 = "st\<lparr>cs_world := wd\<rparr>"
  let ?st1 = "ce_strands E ?st0"
  have poll: "poll_slaves E st = (0, ?st1)" using r \<open>r = 0\<close> by (simp add: poll_slaves_def)
  have ge: "\<not> 0 < sh_global_error (cs_shm st)" using mastering_simps(2) [OF assms(3)] by simp
  have come: "cs_conns ?st1 = cs_conns ?st0" "main_part (cs_shm ?st1) = main_part (cs_shm ?st0)"
      "comes_to (sh_bar (cs_shm ?st0)) (sh_bar (cs_shm ?st1))"
    using assms(1) unfolding strands_come_def by blast+
  have m1: "mastering w ls (cs_shm ?st1)" using assms(3) come(2) by (simp add: mastering_def)
  have reached: "barrier_notreached (sh_bar (cs_shm ?st1) ! ?k) = 0"
    using come(3) mastering_simps(3,4) [OF assms(3)] assms(4-6) by (simp add: comes_to_def)
  let ?st2 = "snd (cs_clock E ?st1)"
  have s2: "same_main ?st1 ?st2" by (rule same_main_ops)
  then have m2: "mastering w ls (cs_shm ?st2)" using m1 mastering_same by blast
  obtain st3 where c3: "shm_process_callouts E ?st2 = Inr (0, st3)" "same_main ?st2 st3"
    using mastering_no_callouts [OF m2] by blast
  have s3: "same_main ?st1 st3" by (rule same_main_trans [OF s2 c3(2)])
  have m3: "mastering w ls (cs_shm st3)" using m2 mastering_same [OF c3(2)] by simp
  have bar3: "sh_bar (cs_shm st3) = sh_bar (cs_shm ?st1)" "cs_conns st3 = cs_conns st"
    using s3 come(1) by (simp_all add: same_main_def)
  obtain prev' st4 where n4: "next_txn E ?k (ml_prev m) st3 = Inr (prev', st4)" "mastering w (ls[?k := False]) (cs_shm st4)"
      "told_all (ce_endian E) [(UPERF_CMD_NEXT_TXN, of_nat ?k)] n (cs_conns st3) (cs_conns st4)"
    using next_txn_ok [OF m3 assms(4,5)] assms(7) bar3(2) by metis
  let ?m1 = "m\<lparr>ml_prev := prev', ml_curr := ?k + 1\<rparr>"
  obtain t st5 where c5: "cs_clock E st4 = (t, st5)" by fastforce
  have s5: "same_main st4 st5" using same_main_ops(3) [of st4 E] c5 by simp
  have in_bar: "\<not> length (sh_bar (cs_shm st3)) \<le> ?k" using mastering_simps(3) [OF m3] assms(4) by simp
  have reached3: "barrier_notreached (sh_bar (cs_shm st3) ! ?k) = 0" using reached bar3(1) by simp
  have turn: "master_turn E m st = Inr (if stats_on (ce_copt E) \<and> ml_print ?m1 \<le> dbl (unat t) then
                     (Some (?m1\<lparr>ml_print := dbl (dbl (unat t) + dbl (dbl (unat (ce_interval E)) * 1000000))\<rparr>),
                      snd (print_progress E (ml_prev ?m1) st5))
                   else (Some ?m1, st5))"
    unfolding master_turn_def poll using ge c3(1) in_bar reached3 n4(1) c5 by simp
  have p5: "same_main st4 (snd (print_progress E (ml_prev ?m1) st5))"
    by (rule same_main_trans [OF s5 same_main_progress])
  have done_: "mastering w (ls[?k := False]) (cs_shm x) \<and> cs_conns x = cs_conns st4" if "same_main st4 x" for x
    using n4(2) mastering_same [OF that] that by (simp add: same_main_def)
  show ?thesis
    using turn done_ [OF s5] done_ [OF p5] n4(3) bar3(2) by (auto split: if_splits)
qed

lemma master_loop_from:
  assumes "strands_come E" and "slaves_silent E"
  shows "ml_curr m \<le> n \<Longrightarrow> mastering w ls (cs_shm st) \<Longrightarrow> n \<le> length ls \<Longrightarrow> \<forall>j < ml_curr m. \<not> ls ! j \<Longrightarrow>
    \<forall>j. ml_curr m \<le> j \<and> j < n \<longrightarrow> ls ! j \<Longrightarrow> list_all (can_send (n - ml_curr m + q)) (cs_conns st) \<Longrightarrow>
    \<exists>prev st' ls'. master_loop E (int n) m st = Some (Inr (prev, st')) \<and> mastering w ls' (cs_shm st') \<and>
      length ls' = length ls \<and> (\<forall>j < n. \<not> ls' ! j) \<and> (\<forall>j. n \<le> j \<and> j < length ls \<longrightarrow> ls' ! j = ls ! j) \<and>
      told_all (ce_endian E) (next_txns (ml_curr m) n) q (cs_conns st) (cs_conns st')"
proof (induction "n - ml_curr m" arbitrary: m ls st)
  case 0
  then have k: "ml_curr m = n" by simp
  then have "master_loop E (int n) m st = Some (Inr (ml_prev m, st))" by (subst master_loop.simps) simp
  with 0 k show ?case by (auto simp: told_all_none)
next
  case (Suc d)
  let ?k = "ml_curr m"
  have k: "?k < n" using Suc.hyps(2) by simp
  have q: "n - ?k + q = Suc (n - Suc ?k + q)" using k by simp
  obtain m' st1 where t: "master_turn E m st = Inr (Some m', st1)" "ml_curr m' = Suc ?k"
      "mastering w (ls[?k := False]) (cs_shm st1)"
      "told_all (ce_endian E) [(UPERF_CMD_NEXT_TXN, of_nat ?k)] (n - Suc ?k + q) (cs_conns st) (cs_conns st1)"
    using master_turn_ok [OF assms Suc.prems(2), of m "n - Suc ?k + q"] k Suc.prems(3-6) q by auto
  have go: "master_loop E (int n) m st = master_loop E (int n) m' st1"
    using k t(1) by (subst master_loop.simps) simp
  have lo: "\<forall>j < ml_curr m'. \<not> ls[?k := False] ! j" using Suc.prems(3,4) k t(2) by (simp add: nth_list_update less_Suc_eq)
  have hi: "\<forall>j. ml_curr m' \<le> j \<and> j < n \<longrightarrow> ls[?k := False] ! j" using Suc.prems(5) t(2) by simp
  have send: "list_all (can_send (n - ml_curr m' + q)) (cs_conns st1)" using told_all_can_send [OF t(4)] t(2) by simp
  have d: "d = n - ml_curr m'" using Suc.hyps(2) t(2) by simp
  from Suc.hyps(1) [OF d _ t(3) _ lo hi send] k t(2) Suc.prems(3)
  obtain prev st' ls' where r: "master_loop E (int n) m' st1 = Some (Inr (prev, st'))" "mastering w ls' (cs_shm st')"
      "length ls' = length ls" "\<forall>j < n. \<not> ls' ! j" "\<forall>j. n \<le> j \<and> j < length ls \<longrightarrow> ls' ! j = ls[?k := False] ! j"
      "told_all (ce_endian E) (next_txns (Suc ?k) n) q (cs_conns st1) (cs_conns st')"
    by auto
  with go k told_all_trans [OF t(4) r(6)] next_txns_Cons [OF k] show ?case by auto
qed

lemma finish_loop_ok:
  assumes "strands_come E" and "strands_finish E" and "mastering w ls (cs_shm st)" and "\<forall>j < length ls. \<not> ls ! j"
  shows "\<exists>st'. finish_loop E prev st = Some (Inr st') \<and> mastering w ls (cs_shm st') \<and> cs_conns st' = cs_conns st"
proof (cases "sh_finished (cs_shm st) = 0")
  case False
  then show ?thesis using assms(3) by (subst finish_loop.simps) auto
next
  case True
  obtain st1 where c: "shm_process_callouts E st = Inr (0, st1)" "same_main st st1"
    using mastering_no_callouts [OF assms(3)] by blast
  let ?st2 = "snd (print_progress E prev st1)"
  have s2: "same_main st ?st2" by (rule same_main_trans [OF c(2) same_main_progress])
  then have m2: "mastering w ls (cs_shm ?st2)" using assms(3) mastering_same by blast
  have un: "\<forall>b \<in> set (sh_bar (cs_shm ?st2)). \<not> b_locked b"
    using mastering_simps(3,4) [OF m2] assms(4) by (metis in_set_conv_nth)
  let ?st3 = "ce_strands E ?st2"
  have come: "cs_conns ?st3 = cs_conns ?st2" "main_part (cs_shm ?st3) = main_part (cs_shm ?st2)"
    using assms(1) unfolding strands_come_def by blast+
  have fin: "sh_finished (cs_shm ?st3) \<noteq> 0" using assms(2) un unfolding strands_finish_def by blast
  have "finish_loop E prev st = finish_loop E prev ?st3"
    using True c(1) mastering_simps(2) [OF assms(3)] by (subst finish_loop.simps) simp
  also have "\<dots> = Some (Inr ?st3)" using fin by (subst finish_loop.simps) simp
  finally show ?thesis using m2 come s2 by (auto simp: mastering_def same_main_def)
qed

lemma master_poll_from:
  assumes "strands_come E" and "slaves_silent E" and "strands_finish E"
    and "mastering w ls (cs_shm st)" and "workorder_max_txn w = int n" and "n \<le> length ls" and "\<forall>j < length ls. ls ! j = (j < n)"
    and "list_all (can_send (Suc n)) (cs_conns st)"
  shows "\<exists>st'. master_poll E st = Some (master_end E st') \<and> mastering w (replicate (length ls) False) (cs_shm st') \<and>
    told_all (ce_endian E) (next_txns 0 n) 1 (cs_conns st) (cs_conns st')"
proof -
  obtain t st1 where c: "cs_clock E st = (t, st1)" by fastforce
  have s1: "same_main st st1" using same_main_ops(3) [of st E] c by simp
  have m1: "mastering w ls (cs_shm st1)" using assms(4) mastering_same [OF s1] by simp
  have conns: "cs_conns st1 = cs_conns st" using s1 by (simp add: same_main_def)
  let ?m = "\<lparr>ml_curr = 0, ml_print = dbl (unat t), ml_prev = zero_stats\<rparr>"
  from master_loop_from [OF assms(1,2) _ m1 assms(6), of ?m 1] assms(6-8) conns
  obtain prev st2 ls' where l: "master_loop E (int n) ?m st1 = Some (Inr (prev, st2))" "mastering w ls' (cs_shm st2)"
      "length ls' = length ls" "\<forall>j < n. \<not> ls' ! j" "\<forall>j. n \<le> j \<and> j < length ls \<longrightarrow> ls' ! j = ls ! j"
      "told_all (ce_endian E) (next_txns 0 n) 1 (cs_conns st) (cs_conns st2)"
    by auto
  have "ls' ! j = False" if "j < length ls" for j
    using that l(4,5) assms(7) by (cases "j < n") auto
  then have ls': "ls' = replicate (length ls) False" using l(3) by (intro nth_equalityI) auto
  then obtain st3 where f: "finish_loop E prev st2 = Some (Inr st3)" "mastering w ls' (cs_shm st3)" "cs_conns st3 = cs_conns st2"
    using finish_loop_ok [OF assms(1,3) l(2)] by auto
  have "sh_workorder (cs_shm st) = Some w" using mastering_simps(1) [OF assms(4)] .
  then have "master_poll E st = Some (master_end E st3)"
    unfolding master_poll_def using c assms(5) l(1) f(1) by simp
  then show ?thesis using f(2,3) ls' l(6) by auto
qed



section \<open>When a slave speaks up\<close>

lemma killall_ok:
  "\<forall>i \<in> set is. i < length (sh_strands (cs_shm st)) \<Longrightarrow>
   \<exists>st'. killall_loop E is st = Inr st' \<and> cs_shm st' = cs_shm st \<and> cs_conns st' = cs_conns st"
proof (induction "is" arbitrary: st)
  case (Cons i "is")
  let ?s = "sh_strands (cs_shm st) ! i"
  have get: "shm_get_strand (cs_shm st) i = Inr ?s" using Cons.prems by (simp add: shm_get_strand_def)
  obtain r w where k: "ce_kill E (s_pid ?s) SIGKILL (cs_world st) = (r, w)" by fastforce
  obtain r' w' where p: "ce_pthread_kill E i SIGUSR1 (cs_world st) = (r', w')" by fastforce
  obtain q st1 where "signal_strand E i SIGKILL st = Inr (q, st1)" "cs_shm st1 = cs_shm st" "cs_conns st1 = cs_conns st"
    using get k p by (cases "is_process ?s") (simp_all add: signal_strand_def)
  with Cons.IH [of st1] Cons.prems show ?case by auto
qed simp

lemma strand_killall_ok:
  assumes "nat (sh_no_strands (cs_shm st)) \<le> length (sh_strands (cs_shm st))"
  shows "\<exists>st'. strand_killall E st = Inr (0, st') \<and> cs_shm st' = cs_shm st \<and> cs_conns st' = cs_conns st"
proof -
  have "\<forall>i \<in> set (strand_indices (cs_shm st)). i < length (sh_strands (cs_shm st))"
    using assms by (simp add: strand_indices_def)
  from killall_ok [OF this, of E] obtain st' where
    "killall_loop E (strand_indices (cs_shm st)) st = Inr st'" "cs_shm st' = cs_shm st" "cs_conns st' = cs_conns st"
    by blast
  then show ?thesis by (simp add: strand_killall_def)
qed


section \<open>Control connections are shared\<close>

definition host_key :: "string \<Rightarrow> string" where
  "host_key host = map c_tolower (take MAXHOSTNAME host)"

definition one_per_host :: "ctl \<Rightarrow> bool" where
  "one_per_host ct = distinct (map (host_key \<circ> p_host) (ct_control ct))"

definition keeps_host :: "(protocol \<Rightarrow> ('w, int \<times> protocol) io) \<Rightarrow> bool" where
  \<comment> \<open>connecting does not rename the peer\<close>
  "keeps_host connect = (\<forall>p st. p_host (snd (fst (run_state (connect p) st))) = p_host p)"

lemma created_host:
  assumes "create_protocol cfg t host port = Inr p" and "t \<noteq> PROTOCOL_UDP" and "host \<noteq> []" and "length host < MAXHOSTNAME"
  shows "p_host p = host"
proof -
  from assms(1) obtain r where r: "find_protocol_by_type cfg t = Some r" "p = protocol_row_create r host port"
    by (auto simp: create_protocol_def split: option.splits)
  have "pr_type r = t" using find_Some_in_set [OF r(1) [unfolded find_protocol_by_type_def]] by simp
  with r(2) assms(2-4) show ?thesis
    by (simp add: protocol_row_create_def protocol_tcp_create_def protocol_rds_create_def protocol_sctp_create_def
        protocol_ssl_create_def protocol_vsock_create_def strlcpy_short)
qed

lemma new_control_connection_ok:
  assumes "new_control_connection E cfg t port connect host (ct, st) = Inr (0, ct', st')"
    and "keeps_host connect" and "t \<noteq> PROTOCOL_UDP" and "length host < MAXHOSTNAME" and "one_per_host ct"
  shows "one_per_host ct' \<and> set (map (host_key \<circ> p_host) (ct_control ct')) =
    insert (host_key host) (set (map (host_key \<circ> p_host) (ct_control ct)))"
proof -
  let ?found = "find (\<lambda>p. strncaseeq MAXHOSTNAME host (p_host p)) (ct_control ct)"
  have key: "strncaseeq MAXHOSTNAME host h \<longleftrightarrow> host_key h = host_key host" for h
    by (auto simp: strncaseeq_def host_key_def)
  have h: "host \<noteq> []" using assms(1) by (auto simp: new_control_connection_def)
  show ?thesis
  proof (cases "?found = None")
    case False
    then have "ct' = ct" using assms(1) h by (simp add: new_control_connection_def)
    moreover from False have "\<exists>p \<in> set (ct_control ct). host_key (p_host p) = host_key host"
      by (simp add: find_None key)
    ultimately show ?thesis using assms(5) by force
  next
    case True
    then have new: "host_key host \<notin> set (map (host_key \<circ> p_host) (ct_control ct))" by (auto simp: find_None key)
    obtain p r p1 st1 where c: "create_protocol cfg t host port = Inr p" "cs_io E (connect p) st = Inr ((r, p1), st1)"
        "ct' = ct\<lparr>ct_control := p1 # ct_control ct, ct_slaves := ct_slaves ct @ [p1]\<rparr>"
      using assms(1) h True by (auto simp: new_control_connection_def cbind_Inr split: if_splits)
    have "p_host p1 = p_host p"
      using c(2) assms(2) by (auto simp: cs_io_def cbind_Inr keeps_host_def split: prod.splits) (metis fst_conv snd_conv)
    also have "\<dots> = host" by (rule created_host [OF c(1) assms(3) h assms(4)])
    finally show ?thesis using c(3) new assms(5) by (simp add: one_per_host_def)
  qed
qed

definition wants_control :: "flowop \<Rightarrow> bool" where
  "wants_control f = (f_type f = FLOWOP_CONNECT \<or> f_type f = FLOWOP_ACCEPT)"

lemma control_flowops_ok:
  assumes "keeps_host connect" and "t \<noteq> PROTOCOL_UDP"
  shows "control_flowops E cfg t port connect fs ps (ct, st) = Inr (0, ps', ct', st') \<Longrightarrow>
    \<forall>f \<in> set fs. length (fo_remotehost (f_options f)) < MAXHOSTNAME \<Longrightarrow> one_per_host ct \<Longrightarrow>
    one_per_host ct' \<and> set (map (host_key \<circ> p_host) (ct_control ct')) =
      set (map (host_key \<circ> p_host) (ct_control ct)) \<union>
      host_key ` fo_remotehost ` f_options ` {f \<in> set fs. wants_control f}"
proof (induction fs arbitrary: ps ct st)
  case (Cons f fs)
  show ?case
  proof (cases "wants_control f")
    case False
    then have "control_flowops E cfg t port connect fs ps (ct, st) = Inr (0, ps', ct', st')"
      using Cons.prems(1) by (simp add: wants_control_def)
    from Cons.IH [OF this] Cons.prems(2,3) False show ?thesis by auto
  next
    case True
    then obtain ct1 st1 ps1 where n: "new_control_connection E cfg t port connect (fo_remotehost (f_options f)) (ct, st) = Inr (0, ct1, st1)"
        "control_flowops E cfg t port connect fs ps1 (ct1, st1) = Inr (0, ps', ct', st')"
      using Cons.prems(1) by (auto simp: wants_control_def cbind_Inr Let_def split: if_splits)
    have o: "one_per_host ct1 \<and> set (map (host_key \<circ> p_host) (ct_control ct1)) =
        insert (host_key (fo_remotehost (f_options f))) (set (map (host_key \<circ> p_host) (ct_control ct)))"
      using new_control_connection_ok [OF n(1) assms] Cons.prems(2,3) by simp
    have "{g \<in> set (f # fs). wants_control g} = insert f {g \<in> set fs. wants_control g}" using True by auto
    with Cons.IH [OF n(2)] o Cons.prems(2) show ?thesis by auto
  qed
qed simp

text \<open>
  C30. A group has exactly one control connection to every host its flowops connect to or accept
  from, hosts being compared without regard to case: connecting again to a host reuses the
  connection.
\<close>

theorem one_control_connection_per_host:
  assumes "keeps_host connect" and "t \<noteq> PROTOCOL_UDP"
    and "control_flowops E cfg t port connect fs ps (\<lparr>ct_control = [], ct_slaves = sl\<rparr>, st) = Inr (0, ps', ct', st')"
    and "\<forall>f \<in> set fs. length (fo_remotehost (f_options f)) < MAXHOSTNAME"
  shows "distinct (map (host_key \<circ> p_host) (ct_control ct')) \<and>
    host_key ` p_host ` set (ct_control ct') = host_key ` fo_remotehost ` f_options ` {f \<in> set fs. wants_control f}"
  using control_flowops_ok [OF assms(1,2,3,4)] by (auto simp: one_per_host_def image_comp)

section \<open>Witnesses\<close>

definition lab_run :: "u32 \<Rightarrow> int \<Rightarrow> unit ctlenv" where
  \<comment> \<open>strands that come to every barrier and end, and slaves that answer polls with \<open>r\<close>\<close>
  "lab_run copt r = (lab_ctl 0)\<lparr>ce_strands := (\<lambda>st. set_shm ((cs_shm st)\<lparr>sh_bar := map coming (sh_bar (cs_shm st)),
      sh_finished := 1\<rparr>) st), ce_poll := (\<lambda>_ w. (r, w)), ce_copt := copt\<rparr>"

lemma lab_run_ok:
  "strands_come (lab_run copt r)" "strands_finish (lab_run copt r)" "slaves_silent (lab_run copt 0)"
  "fst (ce_poll (lab_run copt r) t w) = r" "ce_endian (lab_run copt r) = LittleEndian" "ce_copt (lab_run copt r) = copt"
  by (auto simp: strands_come_def strands_finish_def slaves_silent_def lab_run_def lab_ctl_def set_shm_def main_part_def
      comes_to_def coming_def barrier_notreached_def comp_def)

definition lab_master :: "workorder \<Rightarrow> barrier list \<Rightarrow> chan list \<Rightarrow> unit cs" where
  "lab_master w bars cs = lab_cs ((lab_shm [])\<lparr>sh_workorder := Some w, sh_role := MASTER, sh_bar := bars,
     sh_callouts := replicate (length (w_grp w)) 0, sh_global_error := 0\<rparr>) cs"

lemma lab_master_ok: "mastering w (map b_locked bars) (cs_shm (lab_master w bars cs))" "cs_conns (lab_master w bars cs) = cs"
  by (simp_all add: mastering_def main_part_def lab_master_def)

definition lab_chan :: chan where
  "lab_chan = \<lparr>ch_rd = [100, 100, 100], ch_in = [], ch_wr = [100, 100, 100], ch_out = []\<rparr>"

lemma lab_chan_ok: "n \<le> 3 \<Longrightarrow> can_send n lab_chan"
  by (simp add: can_send_def lab_chan_def SIZEOF_COMMAND_def)

definition lab_bars :: "barrier list" where
  "lab_bars = [init_barrier 1, \<lparr>b_count = 0, b_limit = 0, b_locked = False\<rparr>]"

lemma lab_bars_ok: "\<forall>j < length (map b_locked lab_bars). map b_locked lab_bars ! j = (j < 1)" "1 \<le> length (map b_locked lab_bars)"
  by (auto simp: lab_bars_def init_barrier_def less_Suc_eq nth_Cons split: nat.splits)

definition lab_work :: workorder where
  "lab_work = \<lparr>w_name = [], w_grp = [zero_group\<lparr>g_nthreads := 1, g_ntxn := 1\<rparr>]\<rparr>"

lemma lab_max_txn: "workorder_max_txn lab_work = int 1"
  by (simp add: workorder_max_txn_def lab_work_def)




lemma one_control_connection_per_host_witness:
  "\<exists>ct' st'. control_flowops (lab_ctl 0) tcp_only PROTOCOL_TCP 20000 (\<lambda>p. ret (0, p))
      [zero_flowop\<lparr>f_type := FLOWOP_CONNECT, f_options := zero_options\<lparr>fo_remotehost := ''peer''\<rparr>\<rparr>,
       zero_flowop\<lparr>f_type := FLOWOP_ACCEPT, f_options := zero_options\<lparr>fo_remotehost := ''PEER''\<rparr>\<rparr>]
      [0, 0] (\<lparr>ct_control = [], ct_slaves = []\<rparr>, lab_cs (lab_shm []) []) = Inr (0, [1, 0], ct', st') \<and>
    distinct (map (host_key \<circ> p_host) (ct_control ct'))"
proof -
  let ?fs = "[zero_flowop\<lparr>f_type := FLOWOP_CONNECT, f_options := zero_options\<lparr>fo_remotehost := ''peer''\<rparr>\<rparr>,
       zero_flowop\<lparr>f_type := FLOWOP_ACCEPT, f_options := zero_options\<lparr>fo_remotehost := ''PEER''\<rparr>\<rparr>]"
  let ?p = "protocol_tcp_create ''peer'' 20000" and ?st = "lab_cs (lab_shm []) []"
  have c: "create_protocol tcp_only PROTOCOL_TCP ''peer'' 20000 = Inr ?p" by code_simp
  have same: "strncaseeq MAXHOSTNAME ''PEER'' (p_host ?p)" by code_simp
  have io: "cs_io (lab_ctl 0) (ret (0 :: int, ?p)) ?st = Inr ((0, ?p), ?st)" by (simp add: cs_io_def lab_cs_def)
  have z: "f_type (?fs ! 0) = FLOWOP_CONNECT" "f_type (?fs ! 1) = FLOWOP_ACCEPT" "fo_protocol (f_options (?fs ! 0)) = 0"
    "fo_protocol (f_options (?fs ! 1)) = 0"
    by (simp_all add: zero_options_def)
  have r: "control_flowops (lab_ctl 0) tcp_only PROTOCOL_TCP 20000 (\<lambda>p. ret (0, p)) ?fs [0, 0]
      (\<lparr>ct_control = [], ct_slaves = []\<rparr>, ?st) = Inr (0, [1, 0], \<lparr>ct_control = [?p], ct_slaves = [?p]\<rparr>, ?st)"
    using z c io same by (simp add: new_control_connection_def MAXSLAVES_def Let_def)
  have k: "keeps_host (\<lambda>p. ret (0, p))" by (simp add: keeps_host_def)
  have t: "PROTOCOL_TCP \<noteq> PROTOCOL_UDP" by (simp add: PROTOCOL_TCP_def PROTOCOL_UDP_def)
  from one_control_connection_per_host [OF k t r] r show ?thesis by (auto simp: MAXHOSTNAME_def)
qed

end
