(* ===== verification/Vsock.thy ===== *)
theory Vsock
  imports Udp
begin

text \<open>
  Sockets of virtual machines (\<open>src/vsock.c\<close>), compiled without \<open>VSOCK_OVER_UDS\<close> as in the
  source (\<open>Vsock_Uds\<close> has the build with it). An address is a context id and a port of 32 bits; reading and writing are the generic
  operations. The object of a connection is the \<open>protocol\<close> of the other protocols.
\<close>

section \<open>Addresses\<close>

definition VMADDR_CID_ANY :: u32 where "VMADDR_CID_ANY = 0xFFFFFFFF"
definition VMADDR_PORT_ANY :: u32 where "VMADDR_PORT_ANY = 0xFFFFFFFF"

definition strtol :: "string \<Rightarrow> int \<times> string" where
  \<comment> \<open>base 10: the value, and \<open>end\<close>, which is the argument itself when there is no digit\<close>
  "strtol s =
     (let s1 = dropWhile c_isspace s;
          neg = (s1 \<noteq> [] \<and> hd s1 = CHR ''-'');
          s2 = (if s1 \<noteq> [] \<and> (hd s1 = CHR ''-'' \<or> hd s1 = CHR ''+'') then tl s1 else s1);
          ds = takeWhile c_isdigit s2; v = int (dec_val ds)
      in if ds = [] then (0, s)
         else (if neg then max (- v) (- (2 ^ 63)) else min v (2 ^ 63 - 1), dropWhile c_isdigit s2))"

definition protocol_vsock_sockaddr :: "string option \<Rightarrow> u32 \<Rightarrow> (u32 \<times> u32) option" where
  "protocol_vsock_sockaddr cid port =
     (let p = (if port = 0 then VMADDR_PORT_ANY else port) in
      case cid of
        None \<Rightarrow> Some (VMADDR_CID_ANY, p)
      | Some s \<Rightarrow> (case strtol s of (c, end) \<Rightarrow> if s \<noteq> end \<and> end = [] then Some (to_u32 c, p) else None))"

section \<open>Operations\<close>

definition set_vsock_options :: "'w kernel \<Rightarrow> int \<Rightarrow> flowop_options option \<Rightarrow> ('w, flowop_options option) io" where
  \<comment> \<open>the options afterwards\<close>
  "set_vsock_options k fd fo =
     (case fo of
        None \<Rightarrow> ret None
      | Some f \<Rightarrow> do {
          (if 0 < fo_wndsz f then do {
             _ \<leftarrow> generic_set_socket_buffer k fd (wndsz_of fo);
             _ \<leftarrow> generic_verify_socket_buffer k fd (wndsz_of fo);
             ret () }
           else ret ());
          if fo_is O_NONBLOCKING f then do {
            r \<leftarrow> generic_setfd_nonblock k fd;
            if r \<noteq> 0 then do {
              report_errno UPERF_LOG_WARN ''non-blocking failed, falling back'';
              ret (Some (f\<lparr>fo_flag := fo_flag f AND NOT O_NONBLOCKING\<rparr>)) }
            else ret fo }
          else ret fo })"

definition vm_port_text :: "protocol \<Rightarrow> string" where
  \<comment> \<open>\<open>%u\<close> of the port\<close>
  "vm_port_text p = dec_nat (unat (to_u32 (p_port p)))"

definition protocol_vsock_listen ::
  "'w kernel \<Rightarrow> protocol \<Rightarrow> flowop_options option \<Rightarrow> ('w, int \<times> protocol \<times> flowop_options option) io" where
  "protocol_vsock_listen k p fo =
     (case protocol_vsock_sockaddr None (to_u32 (p_port p)) of
        None \<Rightarrow> ret (UPERF_FAILURE, p, fo)
      | Some (cid, port) \<Rightarrow> do {
          (e, p1) \<leftarrow> generic_socket k p AF_VSOCK 0;
          if e < 0 then ret (UPERF_FAILURE, p1, fo)
          else do {
            fo1 \<leftarrow> set_vsock_options k (p_fd p1) fo;
            r \<leftarrow> sysc k (Sys_setsockopt (p_fd p1) (So_reuseaddr 1));
            (if re_ret r < 0 then
               report_errno UPERF_LOG_ERROR (protocol_to_str (p_type p1) @ '': Cannot set SO_REUSEADDR'')
             else ret ());
            r \<leftarrow> sysc k (Sys_bind_vm (p_fd p1) cid port);
            if re_ret r < 0 then do {
              report_errno UPERF_LOG_ERROR
                (protocol_to_str (p_type p1) @ '': Cannot bind to port '' @ vm_port_text p1);
              ret (UPERF_FAILURE, p1, fo1) }
            else do {
              (e, p2) \<leftarrow>
                (if p_port p1 = ANY_PORT then do {
                   r \<leftarrow> sysc k (Sys_getsockname (p_fd p1));
                   if re_ret r < 0 then do {
                     report_errno UPERF_LOG_ERROR (protocol_to_str (p_type p1) @ '': Cannot getsockname'');
                     ret (UPERF_FAILURE, p1) }
                   else ret (UPERF_SUCCESS, p1\<lparr>p_port := sint (snd (re_vm r))\<rparr>) }
                 else ret (UPERF_SUCCESS, p1));
              if e = UPERF_FAILURE then ret (UPERF_FAILURE, p2, fo1)
              else do {
                _ \<leftarrow> sysc k (Sys_listen (p_fd p2) LISTENQ);
                ret (p_port p2, p2, fo1) }}}})"

definition protocol_vsock_connect ::
  "'w kernel \<Rightarrow> protocol \<Rightarrow> flowop_options option \<Rightarrow> ('w, int \<times> protocol \<times> flowop_options option) io" where
  "protocol_vsock_connect k p fo =
     (case protocol_vsock_sockaddr (Some (p_host p)) (to_u32 (p_port p)) of
        None \<Rightarrow> ret (UPERF_FAILURE, p, fo)
      | Some (cid, port) \<Rightarrow> do {
          (e, p1) \<leftarrow> generic_socket k p AF_VSOCK 0;
          if e < 0 then ret (UPERF_FAILURE, p1, fo)
          else do {
            fo1 \<leftarrow> set_vsock_options k (p_fd p1) fo;
            r \<leftarrow> sysc k (Sys_connect_vm (p_fd p1) cid port);
            if re_ret r < 0 then do {
              report_errno UPERF_LOG_ERROR
                (protocol_to_str (p_type p1) @ '': Cannot connect to '' @ p_host p1 @ '':'' @ vm_port_text p1);
              ret (UPERF_FAILURE, p1, fo1) }
            else ret (UPERF_SUCCESS, p1, fo1) }})"

definition protocol_vsock_new :: protocol where
  "protocol_vsock_new =
     \<lparr>p_type = PROTOCOL_VSOCK, p_port = - 1, p_conn = 0, p_fd = - 1, p_host = ''Init'', p_sendrecv = False\<rparr>"

definition protocol_vsock_accept :: "'w kernel \<Rightarrow> protocol \<Rightarrow> ('w, protocol option) io" where
  "protocol_vsock_accept k p = do {
     r \<leftarrow> generic_poll k (p_fd p) 10000 POLLIN;
     if r \<le> 0 then ret None
     else do {
       r \<leftarrow> sysc k (Sys_accept (p_fd p));
       if re_ret r < 0 then do {
         report_errno UPERF_LOG_ERROR ''accept:'';
         ret None }
       else case re_addrs r of
         a # _ \<Rightarrow>
           if sa_family a = AF_VSOCK then
             ret (Some (protocol_vsock_new\<lparr>p_fd := re_ret r, p_port := sint (snd (re_vm r)),
                          p_host := strlcpy MAXHOSTNAME (dec_nat (unat (fst (re_vm r))))\<rparr>))
           else do { _ \<leftarrow> sysc k (Sys_close (re_ret r)); ret None }
       | [] \<Rightarrow> do { _ \<leftarrow> sysc k (Sys_close (re_ret r)); ret None } }}"

section \<open>Addresses are read back\<close>

lemma strtol_dec_nat: "n < 2 ^ 63 \<Longrightarrow> strtol (dec_nat n) = (int n, [])"
proof -
  assume n: "n < 2 ^ 63"
  obtain c cs where c: "dec_nat n = c # cs" using dec_nat_nonempty [of n] by (cases "dec_nat n") auto
  have "c_isdigit c" by (rule dec_nat_digits [where n = n]) (simp add: c)
  with digit_no_space [of c] c have d: "dropWhile c_isspace (dec_nat n) = dec_nat n"
    and h: "hd (dec_nat n) \<noteq> CHR ''-''" "hd (dec_nat n) \<noteq> CHR ''+''" by simp_all
  have t: "takeWhile c_isdigit (dec_nat n) = dec_nat n" "dropWhile c_isdigit (dec_nat n) = []"
    using digits_split [of "[]" n] by (simp_all add: no_digit_first_def)
  show ?thesis using n h by (simp add: strtol_def d t Let_def)
qed

lemma unat_u32: "unat (c :: u32) < 4294967296"
  using unsigned_less [of c] by simp

lemma vsock_sockaddr_dec:
  "protocol_vsock_sockaddr (Some (dec_nat (unat c))) port = Some (c, if port = 0 then VMADDR_PORT_ANY else port)"
proof -
  have "unat c < 2 ^ 63" using unat_u32 [of c] by simp
  from strtol_dec_nat [OF this] show ?thesis
    by (simp add: protocol_vsock_sockaddr_def Let_def)
qed

section \<open>Descriptors\<close>

lemma keeps_set_vsock_options [kept]: "kernel_fds op k \<Longrightarrow> keeps op (set_vsock_options k fd fo)"
  unfolding set_vsock_options_def generic_set_socket_buffer_def generic_verify_socket_buffer_def generic_setfd_nonblock_def
  by (cases fo) (auto intro!: kept)

lemma vsock_connect_owns:
  assumes k: "kernel_fds op k" and "p_fd p < 0"
    and run: "run_state (protocol_vsock_connect k p fo) s = ((e, p', fo'), s')"
  shows "owns op p' s s' \<and> p' = p\<lparr>p_fd := p_fd p'\<rparr> \<and>
    (e = UPERF_SUCCESS \<and> 0 \<le> p_fd p' \<or> e = UPERF_FAILURE)"
proof (cases "protocol_vsock_sockaddr (Some (p_host p)) (to_u32 (p_port p))")
  case None
  with run assms(2) show ?thesis by (auto simp: protocol_vsock_connect_def owns_def)
next
  case (Some a)
  obtain cid port where a: "a = (cid, port)" by (cases a)
  obtain e2 p1 s2 where s2: "run_state (generic_socket k p AF_VSOCK 0) s = ((e2, p1), s2)" by (metis surj_pair)
  note so = socket_owns [OF k s2]
  show ?thesis
  proof (cases "e2 < 0")
    case True
    with run a Some s2 so show ?thesis by (auto simp: protocol_vsock_connect_def)
  next
    case False
    then have fd: "0 \<le> p_fd p1" using so by auto
    obtain fo1 s3 where s3: "run_state (set_vsock_options k (p_fd p1) fo) s2 = (fo1, s3)" by (metis surj_pair)
    obtain r s4 where s4: "run_state (sysc k (Sys_connect_vm (p_fd p1) cid port)) s3 = (r, s4)" by (metis surj_pair)
    have o4: "owns op p1 s s4"
      using owns_keeps [OF owns_keeps [OF conjunct1 [OF so] keeps_set_vsock_options [OF k] s3]
          keeps_sysc [OF k] s4] by simp
    obtain u s5 where s5: "run_state (report_errno UPERF_LOG_ERROR
        (protocol_to_str (p_type p1) @ '': Cannot connect to '' @ p_host p1 @ '':'' @ vm_port_text p1)) s4 = (u, s5)"
      by (metis surj_pair)
    have o5: "owns op p1 s s5" by (rule owns_keeps [OF o4 fds.on_report_errno s5])
    from run a Some s2 s3 s4 s5 False o4 o5 so fd show ?thesis
      by (auto simp: protocol_vsock_connect_def split: if_splits)
  qed
qed

interpretation vsock: stream_connect "\<lambda>k p fo. do { (e, p', _) \<leftarrow> protocol_vsock_connect k p fo; ret (e, p') }"
proof unfold_locales
  fix op :: "'a \<Rightarrow> int set" and k p fo s e p' s'
  assume k: "kernel_fds op k" "p_fd p < 0"
    and run: "run_state (do { (e, p', _) \<leftarrow> protocol_vsock_connect k p fo; ret (e, p') }) s = ((e, p'), s')"
  obtain e1 p1 fo1 s1 where c: "run_state (protocol_vsock_connect k p fo) s = ((e1, p1, fo1), s1)" by (metis surj_pair)
  from vsock_connect_owns [OF k c] run c
  show "owns op p' s s' \<and> (e = UPERF_SUCCESS \<and> 0 \<le> p_fd p' \<or> e = UPERF_FAILURE)" by simp
qed

lemma vsock_accept_exact:
  assumes k: "kernel_fds op k"
    and run: "run_state (protocol_vsock_accept k p) s = (x, s')"
  shows "case x of None \<Rightarrow> op (pc_world s') = op (pc_world s)
    | Some q \<Rightarrow> 0 \<le> p_fd q \<and> p_fd q \<notin> op (pc_world s) \<and> op (pc_world s') = insert (p_fd q) (op (pc_world s)) \<and>
        protocol_vsock_sockaddr (Some (p_host q)) (to_u32 (p_port q)) \<noteq> None"
proof -
  obtain n s1 where p: "run_state (generic_poll k (p_fd p) 10000 POLLIN) s = (n, s1)" by (metis surj_pair)
  have o1: "op (pc_world s1) = op (pc_world s)" by (rule keepsD [OF keeps_generic_poll [OF k] p])
  show ?thesis
  proof (cases "n \<le> 0")
    case True with run p o1 show ?thesis by (simp add: protocol_vsock_accept_def)
  next
    case n: False
    obtain r w where r: "k (Sys_accept (p_fd p)) (pc_world s1) = (r, w)" by fastforce
    have w: "if re_ret r < 0 then op w = op (pc_world s1)
        else re_ret r \<notin> op (pc_world s1) \<and> op w = insert (re_ret r) (op (pc_world s1))"
      using k r unfolding kernel_fds_def Let_def
      by (auto dest!: spec [where x = "Sys_accept (p_fd p)"] spec [where x = "pc_world s1"])
    show ?thesis
    proof (cases "re_ret r < 0")
      case True
      with run p n r o1 w show ?thesis
        by (auto simp: protocol_vsock_accept_def sysc_def split: prod.splits
            dest!: keepsD [OF fds.on_report_errno, where op = op])
    next
      case False
      obtain r2 w2 where r2: "k (Sys_close (re_ret r)) w = (r2, w2)" by fastforce
      have "op w2 = op w - {re_ret r}"
        using k r2 unfolding kernel_fds_def Let_def
        by (auto dest!: spec [where x = "Sys_close (re_ret r)"] spec [where x = w])
      with w False o1 have closed: "op w2 = op (pc_world s)" by simp
      have host: "strlcpy MAXHOSTNAME (dec_nat (unat c)) = dec_nat (unat c)" for c :: u32
      proof -
        have "unat c < 10 ^ 10" using unat_u32 [of c] by simp
        then show ?thesis using length_dec_nat [of "unat c" 10] by (intro strlcpy_short) (simp add: MAXHOSTNAME_def)
      qed
      from run p n r r2 False w closed o1 show ?thesis
        by (auto simp: protocol_vsock_accept_def sysc_def host vsock_sockaddr_dec split: list.splits if_splits)
    qed
  qed
qed

text \<open>
  Connecting to and accepting from a virtual machine leaks no descriptor, whatever the kernel
  answers: a failed attempt to connect, once its object is destroyed, leaves open what was open
  before, and so does a failed \<open>accept\<close>, also when the peer's address is of an unknown family.
  A successful \<open>accept\<close> opens the descriptor of the new object only, and the host it writes
  into the object is one that \<open>connect\<close> reads as an address.
\<close>

lemma vsock_leaks_nothing:
  assumes "kernel_fds op k" and "0 \<in> op (pc_world s)"
    and "run_state (protocol_vsock_connect k (protocol_vsock_create host port) fo) s = ((e, p, fo1), s1)"
    and "run_state (generic_fini k p) s1 = (u, s2)"
    and "run_state (protocol_vsock_accept k l) s = (x, s3)"
  shows "op (pc_world s2) = op (pc_world s) \<and>
    (case x of None \<Rightarrow> op (pc_world s3) = op (pc_world s)
     | Some q \<Rightarrow> p_fd q \<notin> op (pc_world s) \<and> op (pc_world s3) = insert (p_fd q) (op (pc_world s)) \<and>
         protocol_vsock_sockaddr (Some (p_host q)) (to_u32 (p_port q)) \<noteq> None)"
proof -
  have fresh: "p_fd (protocol_vsock_create host port) < 0" by (simp add: protocol_vsock_create_def)
  have "run_state (do { (e, p', _) \<leftarrow> protocol_vsock_connect k (protocol_vsock_create host port) fo; ret (e, p') }) s = ((e, p), s1)"
    using assms(3) by simp
  from vsock.leaks_nothing [OF assms(1,2) fresh this assms(4)] vsock_accept_exact [OF assms(1,5)]
  show ?thesis by (auto split: option.splits)
qed

lemma vsock_leaks_nothing_witness:
  "\<exists>e p fo1 s1 s2 x s3.
     run_state (protocol_vsock_connect lab_kernel (protocol_vsock_create ''3'' 20000) None) lab_proc = ((e, p, fo1), s1) \<and>
     run_state (generic_fini lab_kernel p) s1 = ((), s2) \<and> set (pc_world s2) = {0, 1, 2} \<and>
     run_state (protocol_vsock_accept lab_kernel (protocol_vsock_new\<lparr>p_fd := 2\<rparr>)) lab_proc = (x, s3) \<and>
     x = None \<and> set (pc_world s3) = {0, 1, 2}"
proof -
  let ?c = "protocol_vsock_connect lab_kernel (protocol_vsock_create ''3'' 20000) None"
  let ?a = "protocol_vsock_accept lab_kernel (protocol_vsock_new\<lparr>p_fd := 2\<rparr>)"
  obtain e p fo1 s1 where c: "run_state ?c lab_proc = ((e, p, fo1), s1)" by (metis surj_pair)
  obtain s2 where f: "run_state (generic_fini lab_kernel p) s1 = ((), s2)" by (metis surj_pair old.unit.exhaust)
  obtain x s3 where a: "run_state ?a lab_proc = (x, s3)" by (metis surj_pair)
  have "fst (run_state ?a lab_proc) = None"
    by (simp add: protocol_vsock_accept_def generic_poll_def sysc_def lab_kernel_def lab_proc_def lab_addr_def next_fd_def)
  moreover have "0 \<in> set (pc_world lab_proc)" by (simp add: lab_proc_def)
  ultimately show ?thesis
    using vsock_leaks_nothing [OF lab_kernel_fds _ c f a] c f a by (auto simp: lab_proc_def)
qed

end
