(* ===== verification/Server.thy ===== *)
theory Server
  imports Master Vsock
begin

text \<open>
  The slave as a server (\<open>slave\<close> in \<open>src/slave.c\<close>): it listens for masters, hands every
  connection to a child of its own, which runs \<^const>\<open>slave_master\<close>, and reaps the children that
  have ended. The parameters are the control protocol's operations, \<open>fork\<close>, \<open>wait\<close> and the
  signals that arrive. What is printed with \<open>uperf_info\<close> is left out.
\<close>

section \<open>State and parameters\<close>

record 'w server =
  sv_log :: uperf_log
  sv_errno :: int
  sv_reap :: nat                  \<comment> \<open>\<open>reap_children\<close>\<close>
  sv_children :: "protocol list"  \<comment> \<open>the connections handed to children\<close>
  sv_world :: 'w

record 'w svenv =
  se_strerror :: "int \<Rightarrow> string"
  se_listen :: "protocol \<Rightarrow> ('w, int \<times> protocol) io"
  se_accept :: "protocol \<Rightarrow> ('w, protocol option) io"
  se_fini :: "protocol \<Rightarrow> ('w, unit) io"
  se_signals :: "'w \<Rightarrow> csignal list \<times> 'w"  \<comment> \<open>those that came since it was last asked\<close>
  se_wait :: "'w \<Rightarrow> int \<times> 'w"
  se_fork :: "'w \<Rightarrow> int \<times> 'w"

definition sv_io :: "'w svenv \<Rightarrow> ('w, 'a) io \<Rightarrow> 'w server \<Rightarrow> c_stop + 'a \<times> 'w server" where
  \<comment> \<open>a program of the socket layer, its reports made to the log\<close>
  "sv_io E m st =
     (case run_state m \<lparr>pc_errno = sv_errno st, pc_log = [], pc_world = sv_world st\<rparr> of
        (x, p) \<Rightarrow> cbind (log_all (se_strerror E) (pc_log p) (sv_log st)) (\<lambda>l.
          Inr (x, st\<lparr>sv_log := l, sv_errno := pc_errno p, sv_world := pc_world p\<rparr>)))"

definition sv_flush :: "'w svenv \<Rightarrow> 'w server \<Rightarrow> 'w server" where
  "sv_flush E st = st\<lparr>sv_log := uperf_log_flush (se_strerror E) (sv_log st)\<rparr>"

definition sv_signals :: "'w svenv \<Rightarrow> 'w server \<Rightarrow> 'w server" where
  \<comment> \<open>the handler runs for each\<close>
  "sv_signals E st =
     (case se_signals E (sv_world st) of (ss, w) \<Rightarrow>
        st\<lparr>sv_reap := fold sigchld_signal ss (sv_reap st), sv_world := w\<rparr>)"

section \<open>The loop\<close>

fun reap :: "'w svenv \<Rightarrow> nat \<Rightarrow> 'w server \<Rightarrow> 'w server" where
  \<comment> \<open>\<open>while (reap_children > 0)\<close>, what \<open>wait\<close> returns being printed only\<close>
  "reap E 0 st = st"
| "reap E (Suc n) st =
     (case se_wait E (sv_world st) of (pid, w) \<Rightarrow> reap E n (st\<lparr>sv_reap := sv_reap st - 1, sv_world := w\<rparr>))"

definition server_turn :: "'w svenv \<Rightarrow> build_config \<Rightarrow> protocol \<Rightarrow> 'w server \<Rightarrow> c_stop + protocol option \<times> 'w server" where
  \<comment> \<open>one pass of the \<open>for\<close> loop; a connection is returned in the child\<close>
  "server_turn E cfg lsn st =
     cbind (sv_io E (se_accept E lsn) st) (\<lambda>(c, st1).
       let st2 = sv_signals E st1 in
       case c of
         None \<Rightarrow> let st3 = sv_flush E st2 in Inr (None, reap E (sv_reap st3) st3)
       | Some p \<Rightarrow>
           (case se_fork E (sv_world st2) of (status, w) \<Rightarrow>
              let st3 = st2\<lparr>sv_world := w\<rparr> in
              if status = 0 then Inr (Some p, st3)
              else cbind (destroy_protocol cfg (p_type p)) (\<lambda>_.
                   cbind (sv_io E (se_fini E p) st3) (\<lambda>(_, st4).
                     Inr (None, if 0 < status then st4\<lparr>sv_children := sv_children st4 @ [p]\<rparr> else st4)))))"

partial_function (option) server_loop ::
  "'w svenv \<Rightarrow> build_config \<Rightarrow> protocol \<Rightarrow> 'w server \<Rightarrow> (c_stop + protocol \<times> 'w server) option" where
  \<comment> \<open>only a child leaves the loop\<close>
  "server_loop E cfg lsn st =
     (case server_turn E cfg lsn st of
        Inl e \<Rightarrow> Some (Inl e)
      | Inr (Some p, st1) \<Rightarrow> Some (Inr (p, st1))
      | Inr (None, st1) \<Rightarrow> server_loop E cfg lsn st1)"

definition server_start ::
  "'w svenv \<Rightarrow> build_config \<Rightarrow> (u32 \<Rightarrow> int) \<Rightarrow> (csignal \<Rightarrow> bool) \<Rightarrow> u32 \<Rightarrow> int \<Rightarrow> 'w \<Rightarrow> c_stop + (int + protocol) \<times> 'w server" where
  \<comment> \<open>\<open>slave\<close> up to the loop: what it returns if it does not get there, or \<open>slave_conn\<close>\<close>
  "server_start E cfg init sigok proto port w =
     (let st = \<lparr>sv_log = uperf_log_init, sv_errno = 0, sv_reap = 0, sv_children = [], sv_world = w\<rparr> in
      if protocol_init cfg init = UPERF_FAILURE then Inr (Inl (- 1), st)
      else if setup_slave_signal sigok \<noteq> 0 then Inr (Inl 1, st)
      else cbind (create_protocol cfg proto [] port) (\<lambda>p.
           cbind (sv_io E (se_listen E p) st) (\<lambda>((r, p1), st1).
             if r = UPERF_FAILURE then Inr (Inl 1, sv_flush E st1) else Inr (Inr p1, st1))))"

definition slave ::
  "'w svenv \<Rightarrow> build_config \<Rightarrow> (u32 \<Rightarrow> int) \<Rightarrow> (csignal \<Rightarrow> bool) \<Rightarrow> u32 \<Rightarrow> int \<Rightarrow>
     (protocol \<Rightarrow> 'w server \<Rightarrow> (c_stop + int \<times> 'w cs) option) \<Rightarrow> 'w \<Rightarrow> (c_stop + int) option" where
  \<comment> \<open>\<open>child\<close> is \<^const>\<open>slave_master\<close> over the connection\<close>
  "slave E cfg init sigok proto port child w =
     (case server_start E cfg init sigok proto port w of
        Inl e \<Rightarrow> Some (Inl e)
      | Inr (Inl r, st) \<Rightarrow> Some (Inr r)
      | Inr (Inr lsn, st) \<Rightarrow>
          (case server_loop E cfg lsn st of
             None \<Rightarrow> None
           | Some (Inl e) \<Rightarrow> Some (Inl e)
           | Some (Inr (p, st1)) \<Rightarrow>
               (case child p st1 of
                  None \<Rightarrow> None
                | Some (Inl e) \<Rightarrow> Some (Inl e)
                | Some (Inr _) \<Rightarrow> Some (Inl (Exited 0)))))"

section \<open>What the parent goes through\<close>

inductive server_reaches :: "'w svenv \<Rightarrow> build_config \<Rightarrow> protocol \<Rightarrow> 'w server \<Rightarrow> 'w server \<Rightarrow> bool"
  for E cfg lsn st where
  start: "server_reaches E cfg lsn st st"
| turn: "server_reaches E cfg lsn st st1 \<Longrightarrow> server_turn E cfg lsn st1 = Inr (None, st2) \<Longrightarrow> server_reaches E cfg lsn st st2"

text \<open>Whoever leaves the loop leaves it from a state the parent reached.\<close>

lemma server_loop_leaves:
  assumes "server_loop E cfg lsn st1 = Some r" and "server_reaches E cfg lsn st st1"
  shows "\<exists>st2. server_reaches E cfg lsn st st2 \<and>
     (case r of Inl e \<Rightarrow> server_turn E cfg lsn st2 = Inl e
              | Inr (p, st3) \<Rightarrow> server_turn E cfg lsn st2 = Inr (Some p, st3))"
proof -
  let ?P = "\<lambda>E cfg lsn st1 r. \<forall>st. server_reaches E cfg lsn st st1 \<longrightarrow> (\<exists>st2. server_reaches E cfg lsn st st2 \<and>
     (case r of Inl e \<Rightarrow> server_turn E cfg lsn st2 = Inl e | Inr (p, st3) \<Rightarrow> server_turn E cfg lsn st2 = Inr (Some p, st3)))"
  have "?P E cfg lsn st1 r"
  proof (rule server_loop.raw_induct [of ?P, OF _ assms(1)], intro allI impI)
    fix f :: "'a svenv \<Rightarrow> build_config \<Rightarrow> protocol \<Rightarrow> 'a server \<Rightarrow> (c_stop + protocol \<times> 'a server) option"
    fix E cfg lsn st1 r st
    assume ih: "\<And>E cfg lsn st1 r. f E cfg lsn st1 = Some r \<Longrightarrow> ?P E cfg lsn st1 r"
      and step: "(case server_turn E cfg lsn st1 of Inl e \<Rightarrow> Some (Inl e)
        | Inr (Some p, st1) \<Rightarrow> Some (Inr (p, st1)) | Inr (None, st1) \<Rightarrow> f E cfg lsn st1) = Some r"
      and st: "server_reaches E cfg lsn st st1"
    show "\<exists>st2. server_reaches E cfg lsn st st2 \<and>
     (case r of Inl e \<Rightarrow> server_turn E cfg lsn st2 = Inl e | Inr (p, st3) \<Rightarrow> server_turn E cfg lsn st2 = Inr (Some p, st3))"
    proof (cases "\<exists>st2. server_turn E cfg lsn st1 = Inr (None, st2)")
      case True
      then obtain st2 where 2: "server_turn E cfg lsn st1 = Inr (None, st2)" by blast
      with step have "f E cfg lsn st2 = Some r" by simp
      from ih [OF this] server_reaches.turn [OF st 2] show ?thesis by blast
    next
      case False
      with step st show ?thesis by (auto split: sum.splits prod.splits option.splits)
    qed
  qed
  with assms(2) show ?thesis by blast
qed

lemma reap_keeps:
  assumes "\<And>w. op (snd (se_wait E w)) = op w"
  shows "op (sv_world (reap E n st)) = op (sv_world st) \<and> sv_children (reap E n st) = sv_children st"
proof (induction n arbitrary: st)
  case (Suc n)
  show ?case using assms [of "sv_world st"] Suc by (auto split: prod.split)
qed simp

section \<open>Accepting\<close>

definition accepts_family :: "family set \<Rightarrow> 'w kernel \<Rightarrow> bool" where
  \<comment> \<open>\<open>accept\<close> gives the address of the peer, of the family of the listening socket\<close>
  "accepts_family F k = (\<forall>fd w. 0 \<le> re_ret (fst (k (Sys_accept fd) w)) \<longrightarrow>
     (case re_addrs (fst (k (Sys_accept fd) w)) of [] \<Rightarrow> False | a # _ \<Rightarrow> sa_family a \<in> F))"

text \<open>
  What the server relies on: an operation that accepts opens the descriptor of the connection it
  returns and nothing else, and nothing if it returns none.
\<close>

locale stream_accept =
  fixes accept :: "'w kernel \<Rightarrow> protocol \<Rightarrow> ('w, protocol option) io"
    and F :: "family set"
  assumes accepted: "kernel_fds op k \<Longrightarrow> accepts_family F k \<Longrightarrow> run_state (accept k lsn) s = (c, s') \<Longrightarrow>
    (case c of None \<Rightarrow> op (pc_world s') = op (pc_world s) | Some p \<Rightarrow> 0 \<le> p_fd p \<and> owns op p s s')"
begin

lemma turn_keeps:
  assumes k: "kernel_fds op k" "accepts_family F k"
    and E: "se_accept E = accept k" "se_fini E = generic_fini k"
    and os: "\<And>w. op (snd (se_signals E w)) = op w" "\<And>w. op (snd (se_fork E w)) = op w"
      "\<And>w. op (snd (se_wait E w)) = op w"
    and z: "0 \<in> op (sv_world st)"
    and t: "server_turn E cfg lsn st = Inr (None, st')"
  shows "op (sv_world st') = op (sv_world st) \<and>
    (sv_children st' = sv_children st \<or>
     (\<exists>p. sv_children st' = sv_children st @ [p] \<and> 0 < p_fd p \<and> p_fd p \<notin> op (sv_world st)))"
proof -
  obtain c st1 where 1: "sv_io E (accept k lsn) st = Inr (c, st1)" using t E by (auto simp: server_turn_def cbind_Inr)
  obtain s1 where s1: "run_state (accept k lsn) \<lparr>pc_errno = sv_errno st, pc_log = [], pc_world = sv_world st\<rparr> = (c, s1)"
    and w1: "sv_world st1 = pc_world s1" "sv_children st1 = sv_children st" using 1 by (auto simp: sv_io_def cbind_Inr split: prod.splits)
  note acc = accepted [OF k s1]
  obtain ss w2 where s2: "se_signals E (sv_world st1) = (ss, w2)" by fastforce
  have o2: "op w2 = op (sv_world st1)" using os(1) [of "sv_world st1"] s2 by simp
  show ?thesis
  proof (cases c)
    case None
    with acc w1 o2 t 1 s2 E show ?thesis
      using reap_keeps [of op E, OF os(3)] by (auto simp: server_turn_def sv_signals_def sv_flush_def)
  next
    case (Some p)
    obtain status w3 where s3: "se_fork E w2 = (status, w3)" by fastforce
    have o3: "op w3 = op (sv_world st1)" using os(2) [of w2] s3 o2 by simp
    let ?st3 = "st1\<lparr>sv_reap := fold sigchld_signal ss (sv_reap st1), sv_world := w3\<rparr>"
    have "status \<noteq> 0" using t 1 s2 s3 Some E by (auto simp: server_turn_def sv_signals_def)
    then obtain st4 where 4: "sv_io E (generic_fini k p) ?st3 = Inr ((), st4)"
      and st': "st' = (if 0 < status then st4\<lparr>sv_children := sv_children st4 @ [p]\<rparr> else st4)"
      using t 1 s2 s3 Some E by (auto simp: server_turn_def sv_signals_def cbind_Inr)
    obtain s4 where s4: "run_state (generic_fini k p) \<lparr>pc_errno = sv_errno ?st3, pc_log = [], pc_world = w3\<rparr> = ((), s4)"
      and w4: "sv_world st4 = pc_world s4" "sv_children st4 = sv_children ?st3"
      using 4 by (auto simp: sv_io_def cbind_Inr split: prod.splits)
    have "owns op p \<lparr>pc_errno = sv_errno st, pc_log = [], pc_world = sv_world st\<rparr> \<lparr>pc_errno = sv_errno ?st3, pc_log = [], pc_world = w3\<rparr>"
      using acc Some o3 w1 by (simp add: owns_def)
    from fini_closes [OF k(1) this _ s4] z have "op (pc_world s4) = op (sv_world st)" by simp
    moreover have "0 < p_fd p \<and> p_fd p \<notin> op (sv_world st)" using acc Some z by (cases "p_fd p = 0") (auto simp: owns_def)
    ultimately show ?thesis using st' w4 w1 by auto
  qed
qed

lemma child_opens:
  assumes k: "kernel_fds op k" "accepts_family F k" and E: "se_accept E = accept k"
    and os: "\<And>w. op (snd (se_signals E w)) = op w" "\<And>w. op (snd (se_fork E w)) = op w"
    and z: "0 \<in> op (sv_world st)"
    and t: "server_turn E cfg lsn st = Inr (Some p, st')"
  shows "0 < p_fd p \<and> p_fd p \<notin> op (sv_world st) \<and> op (sv_world st') = insert (p_fd p) (op (sv_world st))"
proof -
  obtain c st1 where 1: "sv_io E (accept k lsn) st = Inr (c, st1)" using t E by (auto simp: server_turn_def cbind_Inr)
  obtain s1 where s1: "run_state (accept k lsn) \<lparr>pc_errno = sv_errno st, pc_log = [], pc_world = sv_world st\<rparr> = (c, s1)"
    and w1: "sv_world st1 = pc_world s1" using 1 by (auto simp: sv_io_def cbind_Inr split: prod.splits)
  obtain ss w2 where s2: "se_signals E (sv_world st1) = (ss, w2)" by fastforce
  obtain status w3 where s3: "se_fork E w2 = (status, w3)" by fastforce
  have o3: "op w3 = op (sv_world st1)" using os(1) [of "sv_world st1"] os(2) [of w2] s2 s3 by simp
  have "c = Some p \<and> sv_world st' = w3"
    using t 1 s2 s3 E by (cases c) (auto simp: server_turn_def sv_signals_def cbind_Inr Let_def split: if_splits)
  then have "0 \<le> p_fd p" "p_fd p \<notin> op (sv_world st)" "op (sv_world st') = insert (p_fd p) (op (sv_world st))"
    using accepted [OF k s1] o3 w1 by (auto simp: owns_def)
  moreover have "p_fd p \<noteq> 0" using z calculation by auto
  ultimately show ?thesis by simp
qed

lemma reached_keeps:
  assumes "server_reaches E cfg lsn st st'"
    and "kernel_fds op k" "accepts_family F k" "se_accept E = accept k" "se_fini E = generic_fini k"
    and os: "\<And>w. op (snd (se_signals E w)) = op w" "\<And>w. op (snd (se_fork E w)) = op w"
      "\<And>w. op (snd (se_wait E w)) = op w"
    and z: "0 \<in> op (sv_world st)"
  shows "op (sv_world st') = op (sv_world st) \<and> (\<exists>ps. sv_children st' = sv_children st @ ps \<and>
    list_all (\<lambda>p. 0 < p_fd p \<and> p_fd p \<notin> op (sv_world st)) ps)"
  using assms(1)
proof (induction rule: server_reaches.induct)
  case (turn st1 st2)
  have "op (sv_world st2) = op (sv_world st1) \<and> (sv_children st2 = sv_children st1 \<or>
     (\<exists>p. sv_children st2 = sv_children st1 @ [p] \<and> 0 < p_fd p \<and> p_fd p \<notin> op (sv_world st1)))"
    using turn z by (intro turn_keeps [OF assms(2-5) os]) auto
  with turn show ?case by auto
qed simp

end

lemma sys_accept:
  assumes "kernel_fds op k" and "accepts_family F k" and "run_state (sysc k (Sys_accept fd)) s = (r, s')"
  shows "if re_ret r < 0 then op (pc_world s') = op (pc_world s)
    else re_ret r \<notin> op (pc_world s) \<and> op (pc_world s') = insert (re_ret r) (op (pc_world s)) \<and>
      (\<exists>a as. re_addrs r = a # as \<and> sa_family a \<in> F)"
proof -
  obtain r1 w where r: "k (Sys_accept fd) (pc_world s) = (r1, w)" by fastforce
  then have s: "r1 = r" "pc_world s' = w" using assms(3) by (auto simp: sysc_def)
  have "if re_ret r < 0 then op w = op (pc_world s) else re_ret r \<notin> op (pc_world s) \<and> op w = insert (re_ret r) (op (pc_world s))"
    using assms(1) r s unfolding kernel_fds_def Let_def
    by (auto dest!: spec [where x = "Sys_accept fd"] spec [where x = "pc_world s"])
  moreover have "0 \<le> re_ret r \<Longrightarrow> case re_addrs r of [] \<Rightarrow> False | a # _ \<Rightarrow> sa_family a \<in> F"
    using assms(2) r s unfolding accepts_family_def by (metis fst_conv)
  ultimately show ?thesis using s by (auto split: list.splits)
qed

lemma generic_accept_owns:
  assumes k: "kernel_fds op k" "accepts_family {AF_INET, AF_INET6} k"
    and run: "run_state (generic_accept k lsn p) s = ((e, q), s')"
  shows "if e = 0 then 0 \<le> p_fd q \<and> owns op q s s' \<and> p_type q = p_type p else op (pc_world s') = op (pc_world s)"
proof -
  obtain n s1 where 1: "run_state (generic_poll k (p_fd lsn) 10000 POLLIN) s = (n, s1)" by (metis surj_pair)
  have o1: "op (pc_world s1) = op (pc_world s)" by (rule keepsD [OF keeps_generic_poll [OF k(1)] 1])
  obtain r s2 where 2: "run_state (sysc k (Sys_accept (p_fd lsn))) s1 = (r, s2)" by (metis surj_pair)
  note acc = sys_accept [OF k 2]
  show ?thesis
  proof (cases "n \<le> 0")
    case True
    with run 1 o1 show ?thesis by (auto simp: generic_accept_def)
  next
    case False
    show ?thesis
    proof (cases "re_ret r < 0")
      case True
      with run False 1 2 o1 acc show ?thesis
        by (auto simp: generic_accept_def split: prod.splits dest!: keepsD [OF fds.on_report_errno, where op = op])
    next
      case ok: False
      then obtain a as where "re_addrs r = a # as" "sa_family a \<in> {AF_INET, AF_INET6}" using acc by auto
      with run False 1 2 o1 acc ok show ?thesis by (auto simp: generic_accept_def owns_def)
    qed
  qed
qed

interpretation tcp_server: stream_accept "\<lambda>k lsn. protocol_tcp_accept k tc lsn None" "{AF_INET, AF_INET6}" for tc
proof
  fix op :: "'a \<Rightarrow> int set" and k :: "'a kernel" and lsn s c s'
  assume k: "kernel_fds op k" "accepts_family {AF_INET, AF_INET6} k"
    and run: "run_state (protocol_tcp_accept k tc lsn None) s = (c, s')"
  obtain e q s1 where 1: "run_state (generic_accept k lsn protocol_tcp_new) s = ((e, q), s1)" by (metis surj_pair)
  from generic_accept_owns [OF k 1] run 1
  show "case c of None \<Rightarrow> op (pc_world s') = op (pc_world s) | Some p \<Rightarrow> 0 \<le> p_fd p \<and> owns op p s s'"
    by (auto simp: protocol_tcp_accept_def split: if_splits)
qed

interpretation vsock_server: stream_accept protocol_vsock_accept "{AF_VSOCK}"
proof
  fix op :: "'a \<Rightarrow> int set" and k :: "'a kernel" and lsn s c s'
  assume k: "kernel_fds op k" "accepts_family {AF_VSOCK} k"
    and run: "run_state (protocol_vsock_accept k lsn) s = (c, s')"
  obtain n s1 where 1: "run_state (generic_poll k (p_fd lsn) 10000 POLLIN) s = (n, s1)" by (metis surj_pair)
  have o1: "op (pc_world s1) = op (pc_world s)" by (rule keepsD [OF keeps_generic_poll [OF k(1)] 1])
  obtain r s2 where 2: "run_state (sysc k (Sys_accept (p_fd lsn))) s1 = (r, s2)" by (metis surj_pair)
  note acc = sys_accept [OF k 2]
  show "case c of None \<Rightarrow> op (pc_world s') = op (pc_world s) | Some p \<Rightarrow> 0 \<le> p_fd p \<and> owns op p s s'"
  proof (cases "n \<le> 0")
    case True
    with run 1 o1 show ?thesis by (auto simp: protocol_vsock_accept_def)
  next
    case False
    show ?thesis
    proof (cases "re_ret r < 0")
      case True
      with run False 1 2 o1 acc show ?thesis
        by (auto simp: protocol_vsock_accept_def split: prod.splits dest!: keepsD [OF fds.on_report_errno, where op = op])
    next
      case ok: False
      then obtain a as where "re_addrs r = a # as" "sa_family a = AF_VSOCK" using acc by auto
      with run False 1 2 o1 acc ok show ?thesis by (auto simp: protocol_vsock_accept_def owns_def)
    qed
  qed
qed

section \<open>The server keeps its descriptors\<close>

text \<open>
  C15. The slave's server over TCP keeps nothing of the connections it hands over: whatever the
  kernel answers, however many masters have come and whichever of them got a child, the parent
  then has the descriptors open that it had at the start, every connection handed to a child was
  a descriptor of its own, and a child leaves the loop only from such a state, with just its
  connection more.
\<close>

theorem server_leaks_nothing:
  assumes "kernel_fds op k" and "accepts_family {AF_INET, AF_INET6} k"
    and "se_accept E = (\<lambda>lsn. protocol_tcp_accept k tc lsn None)" and "se_fini E = generic_fini k"
    and "\<And>w. op (snd (se_signals E w)) = op w" and "\<And>w. op (snd (se_fork E w)) = op w"
    and "\<And>w. op (snd (se_wait E w)) = op w" and "0 \<in> op (sv_world st)"
  shows "(server_reaches E cfg lsn st st' \<longrightarrow> op (sv_world st') = op (sv_world st) \<and>
      (\<exists>ps. sv_children st' = sv_children st @ ps \<and> list_all (\<lambda>p. 0 < p_fd p \<and> p_fd p \<notin> op (sv_world st)) ps)) \<and>
    (server_loop E cfg lsn st = Some (Inr (p, st')) \<longrightarrow>
      0 < p_fd p \<and> p_fd p \<notin> op (sv_world st) \<and> op (sv_world st') = insert (p_fd p) (op (sv_world st)))"
proof -
  note kept = tcp_server.reached_keeps [OF _ assms(1,2) _ assms(4-8)]
  have "0 < p_fd p \<and> p_fd p \<notin> op (sv_world st) \<and> op (sv_world st') = insert (p_fd p) (op (sv_world st))"
    if l: "server_loop E cfg lsn st = Some (Inr (p, st'))"
  proof -
    obtain st2 where r: "server_reaches E cfg lsn st st2" and t: "server_turn E cfg lsn st2 = Inr (Some p, st')"
      using server_loop_leaves [OF l server_reaches.start] by auto
    have same: "op (sv_world st2) = op (sv_world st)" using kept [OF r] assms(3) by auto
    show ?thesis using tcp_server.child_opens [OF assms(1,2) _ assms(5,6) _ t] same assms(3,8) by auto
  qed
  then show ?thesis using kept assms(3) by blast
qed

text \<open>A kernel of its own for the server's calls, on the descriptors only.\<close>

definition lab_server :: "int \<Rightarrow> int list svenv" where
  "lab_server pid = \<lparr>se_strerror = (\<lambda>_. []), se_listen = (\<lambda>p. ret (p_port p, p)),
     se_accept = (\<lambda>lsn. protocol_tcp_accept lab_kernel no_tcp_options lsn None), se_fini = generic_fini lab_kernel,
     se_signals = (\<lambda>w. ([SIGCHLD, SIGPIPE], w)), se_wait = (\<lambda>w. (100, w)), se_fork = (\<lambda>w. (pid, w))\<rparr>"

definition lab_listening :: "int list server" where
  "lab_listening = \<lparr>sv_log = uperf_log_init, sv_errno = 0, sv_reap = 0, sv_children = [], sv_world = [3, 2, 1, 0]\<rparr>"

definition lab_listener :: protocol where
  "lab_listener = (protocol_tcp_create [] 20000)\<lparr>p_fd := 3\<rparr>"

definition lab_conn :: protocol where
  "lab_conn = \<lparr>p_type = PROTOCOL_TCP, p_port = 5000, p_conn = 0, p_fd = 4, p_host = ''10.0.0.1'', p_sendrecv = True\<rparr>"

theorem server_leaks_nothing_witness:
  "(\<exists>st1 st2. server_turn (lab_server 100) tcp_only lab_listener lab_listening = Inr (None, st1) \<and>
      server_turn (lab_server 100) tcp_only lab_listener st1 = Inr (None, st2) \<and>
      set (sv_world st2) = {0, 1, 2, 3} \<and> length (sv_children st2) = 2) \<and>
   (\<exists>p st1. server_loop (lab_server 0) tcp_only lab_listener lab_listening = Some (Inr (p, st1)) \<and>
      p_fd p = 4 \<and> set (sv_world st1) = {0, 1, 2, 3, 4})"
proof
  let ?c = "lab_listening\<lparr>sv_reap := 1, sv_children := [lab_conn]\<rparr>"
  let ?d = "lab_listening\<lparr>sv_reap := 2, sv_children := [lab_conn, lab_conn]\<rparr>"
  let ?f = "lab_listening\<lparr>sv_reap := 1, sv_world := [4, 3, 2, 1, 0]\<rparr>"
  have fam: "accepts_family {AF_INET, AF_INET6} lab_kernel"
    by (simp add: accepts_family_def lab_kernel_def lab_addr_def Let_def)
  have E: "se_accept (lab_server n) = (\<lambda>lsn. protocol_tcp_accept lab_kernel no_tcp_options lsn None)"
    "se_fini (lab_server n) = generic_fini lab_kernel" "set (snd (se_signals (lab_server n) w)) = set w"
    "set (snd (se_fork (lab_server n) w)) = set w" "set (snd (se_wait (lab_server n) w)) = set w" for n w
    by (simp_all add: lab_server_def)
  have z: "0 \<in> set (sv_world lab_listening)" by (simp add: lab_listening_def)
  note kept = server_leaks_nothing [OF lab_kernel_fds fam E z]
  have t: "server_turn (lab_server 100) tcp_only lab_listener lab_listening = Inr (None, ?c)"
    "server_turn (lab_server 100) tcp_only lab_listener ?c = Inr (None, ?d)" by code_simp+
  then have "server_reaches (lab_server 100) tcp_only lab_listener lab_listening ?d"
    by (blast intro: server_reaches.intros)
  with kept have "set (sv_world ?d) = set (sv_world lab_listening)" by blast
  then show "\<exists>st1 st2. server_turn (lab_server 100) tcp_only lab_listener lab_listening = Inr (None, st1) \<and>
      server_turn (lab_server 100) tcp_only lab_listener st1 = Inr (None, st2) \<and>
      set (sv_world st2) = {0, 1, 2, 3} \<and> length (sv_children st2) = 2"
    using t by (auto simp: lab_listening_def)
  have "server_turn (lab_server 0) tcp_only lab_listener lab_listening = Inr (Some lab_conn, ?f)" by code_simp
  then have l: "server_loop (lab_server 0) tcp_only lab_listener lab_listening = Some (Inr (lab_conn, ?f))"
    by (subst server_loop.simps) simp
  with kept have "set (sv_world ?f) = insert (p_fd lab_conn) (set (sv_world lab_listening))" by blast
  with l show "\<exists>p st1. server_loop (lab_server 0) tcp_only lab_listener lab_listening = Some (Inr (p, st1)) \<and>
      p_fd p = 4 \<and> set (sv_world st1) = {0, 1, 2, 3, 4}"
    by (intro exI [of _ lab_conn] exI [of _ ?f]) (simp add: lab_conn_def lab_listening_def insert_commute)
qed

end
