(* ===== verification/Sctp.thy ===== *)
theory Sctp
  imports Sockets
begin

text \<open>
  SCTP (\<open>src/sctp.c\<close>): its socket options, and reading and writing \<open>repeat\<close> times a batch of
  messages with one system call. Which options the headers define and whether \<open>sendmmsg\<close>,
  \<open>recvmmsg\<close> exist is the parameter \<open>sctp_config\<close>, with the answers of the allocator.
  Received messages go to a buffer that is thrown away, so only their lengths matter.

  The loop that sends a batch goes on while there are messages left and may not end; it is an
  explicit function on the process, \<open>None\<close> if it does not return.
\<close>

record sctp_config =
  sc_sack :: bool
  sc_encaps :: bool
  sc_sendmmsg :: bool
  sc_recvmmsg :: bool
  sc_policies :: "string list"      \<comment> \<open>among \<open>ttl\<close>, \<open>rtx\<close>, \<open>buf\<close>\<close>
  sc_headers :: "u64 \<Rightarrow> bool"       \<comment> \<open>whether arrays for so many messages are allocated\<close>
  sc_buffer :: "u64 \<Rightarrow> bool"        \<comment> \<open>the same for a buffer of so many bytes\<close>

definition IPPROTO_SCTP :: int where "IPPROTO_SCTP = 132"
definition ENOPROTOOPT :: int where "ENOPROTOOPT = 92"
definition SCTP_MMSG_STACK_SIZE :: u64 where "SCTP_MMSG_STACK_SIZE = 16"

section \<open>Options\<close>

definition log_errno :: "msg_type \<Rightarrow> string \<Rightarrow> ('w, unit) io" where
  \<comment> \<open>\<open>uperf_log_msg(t, errno, x)\<close>\<close>
  "log_errno t x = do { e \<leftarrow> get_errno; report t e x }"

definition sctp_option :: "'w kernel \<Rightarrow> int \<Rightarrow> sockopt \<Rightarrow> string \<Rightarrow> ('w, unit) io" where
  "sctp_option k fd opt msg = do {
     r \<leftarrow> sysc k (Sys_setsockopt fd opt);
     if re_ret r < 0 then log_errno UPERF_LOG_WARN msg else ret () }"

definition set_sctp_options ::
  "'w kernel \<Rightarrow> sctp_config \<Rightarrow> int \<Rightarrow> family \<Rightarrow> flowop_options option \<Rightarrow> ('w, unit) io" where
  "set_sctp_options k sc fd family fo =
     (case fo of
        None \<Rightarrow> ret ()
      | Some f \<Rightarrow> do {
          (if 0 < fo_wndsz f then do {
             _ \<leftarrow> generic_set_socket_buffer k fd (wndsz_of fo);
             _ \<leftarrow> generic_verify_socket_buffer k fd (wndsz_of fo);
             ret () }
           else ret ());
          (if fo_is O_SCTP_NODELAY f
           then sctp_option k fd (Sctp_nodelay 1) ''Cannot disable Nagle Algorithm for SCTP'' else ret ());
          (if 0 < fo_sctp_in_streams f \<or> 0 < fo_sctp_out_streams f
           then sctp_option k fd (Sctp_initmsg (fo_sctp_in_streams f) (fo_sctp_out_streams f)) ''Cannot set SCTP streams''
           else ret ());
          (if 0 < fo_sctp_rto_min f \<or> 0 < fo_sctp_rto_max f \<or> 0 < fo_sctp_rto_initial f
           then sctp_option k fd (Sctp_rtoinfo (fo_sctp_rto_min f) (fo_sctp_rto_max f) (fo_sctp_rto_initial f))
                  ''Cannot set SCTP RTO parameters''
           else ret ());
          (if 0 < fo_sctp_sack_delay f \<or> 0 < fo_sctp_sack_frequency f then
             if sc_sack sc
             then sctp_option k fd (Sctp_delayed_sack (fo_sctp_sack_delay f) (fo_sctp_sack_frequency f))
                    ''Cannot set SCTP SACK parameters''
             else report UPERF_LOG_WARN ENOPROTOOPT ''Cannot set SCTP SACK parameters''
           else ret ());
          (if 0 < fo_sctp_max_burst_size f
           then sctp_option k fd (Sctp_max_burst (fo_sctp_max_burst_size f)) ''Cannot set max. burst parameter for SCTP''
           else ret ());
          (if 0 < fo_sctp_max_fragment_size f
           then sctp_option k fd (Sctp_maxseg (fo_sctp_max_fragment_size f)) ''Cannot set max. fragment size of SCTP''
           else ret ());
          if 0 < fo_sctp_hb_interval f \<or> 0 < fo_sctp_path_mtu f
          then sctp_option k fd
                 (Sctp_peer_addr_params family (fo_sctp_hb_interval f) (fo_sctp_path_mtu f)
                    (0 < fo_sctp_hb_interval f) (0 < fo_sctp_path_mtu f))
                 ''Cannot set path defaults for SCTP''
          else ret () })"

section \<open>Connections\<close>

definition protocol_sctp_listen ::
  "'w kernel \<Rightarrow> sctp_config \<Rightarrow> protocol \<Rightarrow> flowop_options option \<Rightarrow> ('w, int \<times> protocol) io" where
  "protocol_sctp_listen k sc p fo = do {
     (e, p1) \<leftarrow> generic_socket k p AF_INET6 IPPROTO_SCTP;
     if e \<noteq> UPERF_SUCCESS then do {
       (e, p2) \<leftarrow> generic_socket k p1 AF_INET IPPROTO_SCTP;
       if e \<noteq> UPERF_SUCCESS then do {
         log_errno UPERF_LOG_ERROR ''sctp: Cannot create socket'';
         ret (UPERF_FAILURE, p2) }
       else do {
         set_sctp_options k sc (p_fd p2) AF_INET fo;
         generic_listen k p2 }}
     else do {
       set_sctp_options k sc (p_fd p1) AF_INET6 fo;
       generic_listen k p1 }}"

definition sctp_encaps ::
  "'w kernel \<Rightarrow> sctp_config \<Rightarrow> int \<Rightarrow> family \<Rightarrow> flowop_options option \<Rightarrow> ('w, int) io" where
  "sctp_encaps k sc fd family fo =
     (case fo of
        None \<Rightarrow> ret UPERF_SUCCESS
      | Some f \<Rightarrow>
          if fo_encaps_port f = 0 then ret UPERF_SUCCESS
          else if sc_encaps sc then do {
            r \<leftarrow> sysc k (Sys_setsockopt fd (Sctp_remote_udp_encaps_port family (ucast (fo_encaps_port f))));
            if re_ret r < 0 then do {
              log_errno UPERF_LOG_ERROR (take 127 (encaps_text (fo_encaps_port f) @ '' failed''));
              ret UPERF_FAILURE }
            else ret UPERF_SUCCESS }
          else do {
            log_errno UPERF_LOG_ERROR (take 127 (encaps_text (fo_encaps_port f) @ '' not supported''));
            ret UPERF_FAILURE })"

definition protocol_sctp_connect ::
  "'w kernel \<Rightarrow> sctp_config \<Rightarrow> protocol \<Rightarrow> flowop_options option \<Rightarrow> ('w, int \<times> protocol) io" where
  "protocol_sctp_connect k sc p fo = do {
     (e, a) \<leftarrow> name_to_addr k (p_host p);
     (case a of
        None \<Rightarrow> ret (UPERF_FAILURE, p)
      | Some serv \<Rightarrow> do {
          (e, p1) \<leftarrow> generic_socket k p (sa_family serv) IPPROTO_SCTP;
          if e < 0 then ret (UPERF_FAILURE, p1)
          else do {
            set_sctp_options k sc (p_fd p1) (sa_family serv) fo;
            e \<leftarrow> sctp_encaps k sc (p_fd p1) (sa_family serv) fo;
            if e \<noteq> UPERF_SUCCESS then ret (UPERF_FAILURE, p1)
            else do {
              e \<leftarrow> generic_connect k p1 serv;
              ret (if e < 0 then UPERF_FAILURE else UPERF_SUCCESS, p1) }}}) }"

definition protocol_sctp_new :: protocol where
  "protocol_sctp_new =
     \<lparr>p_type = PROTOCOL_SCTP, p_port = - 1, p_conn = 0, p_fd = - 1, p_host = ''Init'', p_sendrecv = False\<rparr>"

definition protocol_sctp_accept :: "'w kernel \<Rightarrow> protocol \<Rightarrow> ('w, protocol option) io" where
  "protocol_sctp_accept k p = do {
     (e, newp) \<leftarrow> generic_accept k p protocol_sctp_new;
     ret (if e \<noteq> 0 then None else Some newp) }"

section \<open>Writing\<close>

definition sctp_repeat :: "flowop_options option \<Rightarrow> nat" where
  "sctp_repeat fo = (case fo of None \<Rightarrow> 1 | Some f \<Rightarrow> unat (fo_repeat f))"

definition sctp_batch :: "flowop_options option \<Rightarrow> u64" where
  "sctp_batch fo = (case fo of None \<Rightarrow> 1 | Some f \<Rightarrow> fo_batch_size f)"

definition sctp_policy :: "sctp_config \<Rightarrow> flowop_options \<Rightarrow> (string \<times> u32) option" where
  "sctp_policy sc f =
     (case find (\<lambda>x. x \<in> set (sc_policies sc) \<and> strcaseeq (fo_sctp_pr_policy f) x) [''ttl'', ''rtx'', ''buf''] of
        None \<Rightarrow> None
      | Some x \<Rightarrow> Some (x, fo_sctp_pr_value f))"

definition sctp_message :: "sctp_config \<Rightarrow> flowop_options option \<Rightarrow> sctp_info" where
  "sctp_message sc fo =
     (case fo of
        None \<Rightarrow> \<lparr>sn_unordered = False, sn_stream = 0, sn_policy = None\<rparr>
      | Some f \<Rightarrow> \<lparr>sn_unordered = fo_is O_SCTP_UNORDERED f, sn_stream = fo_sctp_stream_id f, sn_policy = sctp_policy sc f\<rparr>)"

partial_function (option) sctp_send_batch ::
  "'w kernel \<Rightarrow> int \<Rightarrow> buf \<Rightarrow> int \<Rightarrow> sctp_info \<Rightarrow> u64 \<Rightarrow> u64 \<Rightarrow> 'w proc \<Rightarrow> (c_stop + 'w proc) option" where
  \<comment> \<open>\<open>while (remaining > 0)\<close>; \<open>msgs_sent\<close> is unsigned, so \<open>msgs_sent < 0\<close> is false\<close>
  "sctp_send_batch k fd b sz info batch remaining p =
     (if remaining = 0 then Some (Inr p)
      else if batch < remaining then Some (Inl Undefined)
      else case run_state (sysc k (Sys_sendmmsg fd b sz info (unat (batch - remaining)) (unat (ucast remaining :: u32)))) p of
        (r, p1) \<Rightarrow> sctp_send_batch k fd b sz info batch (remaining - to_u64 (re_ret r)) p1)"

fun sctp_write_loop ::
  "'w kernel \<Rightarrow> sctp_config \<Rightarrow> int \<Rightarrow> buf \<Rightarrow> int \<Rightarrow> sctp_info \<Rightarrow> u64 \<Rightarrow> nat \<Rightarrow> int \<Rightarrow> 'w proc \<Rightarrow>
     (c_stop + int \<times> 'w proc) option" where
  \<comment> \<open>the number counts the repetitions left, then comes \<open>total\<close>\<close>
  "sctp_write_loop k sc fd b sz info batch 0 acc p = Some (Inr (wrap32 acc, p))"
| "sctp_write_loop k sc fd b sz info batch (Suc i) acc p =
     (if batch \<le> 1 then
        (case run_state (sysc k (Sys_sendmsg_sctp fd b sz info)) p of (r, p1) \<Rightarrow>
           if re_ret r < 0 then
             Some (Inr (- 1, snd (run_state (log_errno UPERF_LOG_WARN ''Cannot sendmsg '') p1)))
           else sctp_write_loop k sc fd b sz info batch i (acc + re_ret r) p1)
      else if sc_sendmmsg sc then
        (case sctp_send_batch k fd b sz info batch batch p of
           None \<Rightarrow> None
         | Some (Inl e) \<Rightarrow> Some (Inl e)
         | Some (Inr p1) \<Rightarrow> sctp_write_loop k sc fd b sz info batch i (acc + sz * int (unat batch)) p1)
      else sctp_write_loop k sc fd b sz info batch i acc
             (snd (run_state (log_errno UPERF_LOG_WARN ''sendmmsg not supported '') p)))"

definition protocol_sctp_write ::
  "'w kernel \<Rightarrow> sctp_config \<Rightarrow> protocol \<Rightarrow> buf \<Rightarrow> int \<Rightarrow> flowop_options option \<Rightarrow> 'w proc \<Rightarrow>
     (c_stop + int \<times> 'w proc) option" where
  "protocol_sctp_write k sc p b sz fo pr =
     (if sc_sendmmsg sc \<and> SCTP_MMSG_STACK_SIZE < sctp_batch fo \<and> \<not> sc_headers sc (sctp_batch fo) then
        Some (Inr (- 1, snd (run_state (log_errno UPERF_LOG_WARN ''Cannot allocate mmsghdr array'') pr)))
      else sctp_write_loop k sc (p_fd p) b sz (sctp_message sc fo) (sctp_batch fo) (sctp_repeat fo) 0 pr)"

section \<open>Reading\<close>

fun sctp_read_one_loop :: "'w kernel \<Rightarrow> int \<Rightarrow> buf \<Rightarrow> int \<Rightarrow> int \<Rightarrow> nat \<Rightarrow> int \<Rightarrow> ('w, int) io" where
  \<comment> \<open>\<open>batch_size <= 1\<close>; the first integer after the size is the timeout\<close>
  "sctp_read_one_loop k fd b sz timeout 0 acc = ret (wrap32 acc)"
| "sctp_read_one_loop k fd b sz timeout (Suc i) acc = do {
     e \<leftarrow> (if 0 < timeout then generic_poll k fd timeout POLLIN else ret 1);
     if e \<le> 0 then ret (- 1)
     else do {
       r \<leftarrow> sysc k (Sys_recvmsg fd b sz);
       if re_ret r < 0 then do { log_errno UPERF_LOG_WARN ''Cannot recvmsg ''; ret (- 1) }
       else sctp_read_one_loop k fd b sz timeout i (acc + re_ret r) }}"

fun sctp_read_batch_loop :: "'w kernel \<Rightarrow> int \<Rightarrow> int \<Rightarrow> u64 \<Rightarrow> int \<Rightarrow> nat \<Rightarrow> int \<Rightarrow> ('w, int) io" where
  "sctp_read_batch_loop k fd sz batch timeout 0 acc = ret (wrap32 acc)"
| "sctp_read_batch_loop k fd sz batch timeout (Suc i) acc = do {
     e \<leftarrow> (if 0 < timeout then generic_poll k fd timeout POLLIN else ret 1);
     if e \<le> 0 then ret (- 1)
     else do {
       r \<leftarrow> sysc k (Sys_recvmmsg fd sz (unat (ucast batch :: u32)));
       if re_ret r < 0 then do { log_errno UPERF_LOG_WARN ''Cannot recvmmsg ''; ret (- 1) }
       else sctp_read_batch_loop k fd sz batch timeout i (acc + int (sum_list (take (nat (re_ret r)) (re_lens r)))) }}"

definition protocol_sctp_read ::
  "'w kernel \<Rightarrow> sctp_config \<Rightarrow> protocol \<Rightarrow> buf \<Rightarrow> int \<Rightarrow> flowop_options option \<Rightarrow> ('w, c_stop + int) io" where
  "protocol_sctp_read k sc p b sz fo =
     (let timeout = (case fo of None \<Rightarrow> 0 | Some f \<Rightarrow> poll_ms (fo_poll_timeout f)); batch = sctp_batch fo in
      if 2 ^ 31 \<le> timeout then ret (Inl Undefined)
      else do {
        n \<leftarrow> (if batch \<le> 1 then sctp_read_one_loop k (p_fd p) b sz (int timeout) (sctp_repeat fo) 0
              else if \<not> sc_recvmmsg sc then do { log_errno UPERF_LOG_WARN ''recvmmsg not supported ''; ret 0 }
              else if SCTP_MMSG_STACK_SIZE < batch \<and> \<not> sc_headers sc batch then do {
                log_errno UPERF_LOG_WARN ''Cannot allocate recvmmsg structures''; ret (- 1) }
              else if \<not> sc_buffer sc (batch * to_u64 sz) then do {
                log_errno UPERF_LOG_WARN ''Cannot allocate receive buffer''; ret (- 1) }
              else sctp_read_batch_loop k (p_fd p) sz batch (int timeout) (sctp_repeat fo) 0);
        ret (Inr n) })"

section \<open>Connecting leaks nothing\<close>

lemma keeps_log_errno [kept]: "keeps op (log_errno t x)"
  unfolding log_errno_def by (intro fds.on_bind fds.on_get_errno fds.on_report)

lemma keeps_sctp_option [kept]: "kernel_fds op k \<Longrightarrow> keeps op (sctp_option k fd opt msg)"
  unfolding sctp_option_def by (intro kept) simp_all

lemma keeps_set_sctp_options [kept]: "kernel_fds op k \<Longrightarrow> keeps op (set_sctp_options k sc fd family fo)"
  unfolding set_sctp_options_def generic_set_socket_buffer_def generic_verify_socket_buffer_def
  by (cases fo)
    ((simp only: option.case, (intro kept keeps_sctp_option; assumption))+)

lemma keeps_sctp_encaps [kept]: "kernel_fds op k \<Longrightarrow> keeps op (sctp_encaps k sc fd family fo)"
  unfolding sctp_encaps_def by (cases fo) (auto intro!: kept)

interpretation sctp: stream_connect "\<lambda>k. protocol_sctp_connect k sc" for sc
proof unfold_locales
  fix op :: "'a \<Rightarrow> int set" and k p fo s e p' s'
  assume k: "kernel_fds op k" and p: "p_fd p < 0"
    and run: "run_state (protocol_sctp_connect k sc p fo) s = ((e, p'), s')"
  obtain e1 a s1 where a: "run_state (name_to_addr k (p_host p)) s = ((e1, a), s1)" by (metis surj_pair)
  have o1: "op (pc_world s1) = op (pc_world s)" by (rule keepsD [OF keeps_name_to_addr [OF k] a])
  show "owns op p' s s' \<and> (e = UPERF_SUCCESS \<and> 0 \<le> p_fd p' \<or> e = UPERF_FAILURE)"
  proof (cases a)
    case None
    with run a o1 p show ?thesis by (auto simp: protocol_sctp_connect_def owns_def)
  next
    case (Some serv)
    obtain e2 p1 s2 where s2: "run_state (generic_socket k p (sa_family serv) IPPROTO_SCTP) s1 = ((e2, p1), s2)"
      by (metis surj_pair)
    note so = socket_owns [OF k s2]
    have ow: "owns op p1 s s2" using so o1 by (simp add: owns_def)
    show ?thesis
    proof (cases "e2 < 0")
      case True
      with run a Some s2 so ow show ?thesis by (auto simp: protocol_sctp_connect_def)
    next
      case False
      then have fd: "0 \<le> p_fd p1" using so by auto
      obtain u s3 where s3: "run_state (set_sctp_options k sc (p_fd p1) (sa_family serv) fo) s2 = (u, s3)" by (metis surj_pair)
      obtain e4 s4 where s4: "run_state (sctp_encaps k sc (p_fd p1) (sa_family serv) fo) s3 = (e4, s4)" by (metis surj_pair)
      obtain e5 s5 where s5: "run_state (generic_connect k p1 serv) s4 = (e5, s5)" by (metis surj_pair)
      note o4 = owns_keeps [OF owns_keeps [OF ow keeps_set_sctp_options [OF k] s3] keeps_sctp_encaps [OF k] s4]
      note o5 = owns_keeps [OF o4 keeps_generic_connect [OF k] s5]
      from run a Some s2 s3 s4 s5 False o4 o5 fd show ?thesis
        by (auto simp: protocol_sctp_connect_def split: if_splits)
    qed
  qed
qed

section \<open>Batches\<close>

text \<open>
  A kernel that takes at least one of the messages it is given, from the first one on. \<open>sent\<close>
  reads off the world which entries of the arrays it has taken.
\<close>

definition takes_some :: "('w \<Rightarrow> nat list) \<Rightarrow> 'w kernel \<Rightarrow> bool" where
  "takes_some sent k =
     (\<forall>fd b sz info i n w. 0 < n \<longrightarrow>
        (case k (Sys_sendmmsg fd b sz info i n) w of (r, w') \<Rightarrow>
           \<exists>m. 0 < m \<and> m \<le> n \<and> re_ret r = int m \<and> sent w' = sent w @ [i..<i + m]))"

lemma takes_someD:
  "takes_some sent k \<Longrightarrow> 0 < n \<Longrightarrow> k (Sys_sendmmsg fd b sz info i n) w = (r, w') \<Longrightarrow>
    \<exists>m. 0 < m \<and> m \<le> n \<and> re_ret r = int m \<and> sent w' = sent w @ [i..<i + m]"
  unfolding takes_some_def
  by (drule spec [of _ fd], drule spec [of _ b], drule spec [of _ sz], drule spec [of _ info],
      drule spec [of _ i], drule spec [of _ n], drule spec [of _ w]) simp

lemma send_batch_all:
  assumes k: "takes_some sent k" and "remaining \<le> batch" and small: "unat batch < 4294967296"
  shows "\<exists>p'. sctp_send_batch k fd b sz info batch remaining p = Some (Inr p') \<and>
    sent (pc_world p') = sent (pc_world p) @ [unat batch - unat remaining..<unat batch]"
  using assms(2)
proof (induction "unat remaining" arbitrary: remaining p rule: less_induct)
  case less
  show ?case
  proof (cases "remaining = 0")
    case True
    then show ?thesis by (subst sctp_send_batch.simps) simp
  next
    case False
    let ?i = "unat (batch - remaining)" and ?n = "unat (ucast remaining :: u32)"
    let ?c = "Sys_sendmmsg fd b sz info ?i ?n"
    have le: "unat remaining \<le> unat batch" using less.prems by (simp add: word_le_nat_alt)
    have n: "?n = unat remaining" using le small by (simp add: unsigned_ucast_eq take_bit_nat_eq_self)
    have i: "?i = unat batch - unat remaining" using less.prems by (rule unat_sub)
    have pos: "0 < ?n" using False n by (simp add: unat_gt_0)
    obtain r w' where r: "k ?c (pc_world p) = (r, w')" by fastforce
    from takes_someD [OF k pos r] obtain m
      where m: "0 < m" "m \<le> ?n" "re_ret r = int m" "sent w' = sent (pc_world p) @ [?i..<?i + m]" by blast
    let ?rem = "remaining - to_u64 (int m)"
    have um: "unat (to_u64 (int m)) = m" using m(2) n le small by (simp add: unat_of_nat take_bit_nat_eq_self)
    then have ur: "unat ?rem = unat remaining - m" using m(2) n by (subst unat_sub) (simp_all add: word_le_nat_alt)
    have lt: "unat ?rem < unat remaining" and le': "?rem \<le> batch"
      using ur m(1,2) n le by (simp_all add: word_le_nat_alt)
    let ?p1 = "p\<lparr>pc_world := w'\<rparr>"
    obtain p' where p': "sctp_send_batch k fd b sz info batch ?rem ?p1 = Some (Inr p')"
      "sent (pc_world p') = sent w' @ [unat batch - unat ?rem..<unat batch]"
      using less.hyps [OF lt le', of ?p1] by auto
    have "unat batch - unat ?rem = ?i + m" using ur i m(2) n le by linarith
    moreover have "?i + m \<le> unat batch" using i m(2) n le by linarith
    ultimately have "sent (pc_world p') = sent (pc_world p) @ [unat batch - unat remaining..<unat batch]"
      using p'(2) m(4) i upt_add_eq_append [of ?i "?i + m" "unat batch - (?i + m)"] by simp
    moreover have "sctp_send_batch k fd b sz info batch remaining p = Some (Inr p')"
      using False less.prems r m(3) p'(1)
      by (subst sctp_send_batch.simps) (simp add: sysc_def not_less)
    ultimately show ?thesis by blast
  qed
qed

lemma write_loop_batches:
  assumes "takes_some sent k" and "1 < batch" and "unat batch < 4294967296" and "sc_sendmmsg sc"
  shows "\<exists>p'. sctp_write_loop k sc fd b sz info batch i acc p = Some (Inr (wrap32 (acc + int i * int (unat batch) * sz), p')) \<and>
    sent (pc_world p') = sent (pc_world p) @ concat (replicate i [0..<unat batch])"
proof (induction i arbitrary: acc p)
  case (Suc i)
  obtain p1 where p1: "sctp_send_batch k fd b sz info batch batch p = Some (Inr p1)"
    "sent (pc_world p1) = sent (pc_world p) @ [0..<unat batch]"
    using send_batch_all [OF assms(1) order_refl assms(3)] by fastforce
  obtain p' where p': "sctp_write_loop k sc fd b sz info batch i (acc + sz * int (unat batch)) p1 =
      Some (Inr (wrap32 (acc + sz * int (unat batch) + int i * int (unat batch) * sz), p'))"
    "sent (pc_world p') = sent (pc_world p1) @ concat (replicate i [0..<unat batch])"
    using Suc.IH by blast
  moreover have "\<not> batch \<le> 1" using assms(2) by (simp add: not_le)
  ultimately show ?case using p1 assms(4) by (simp add: algebra_simps)
qed simp

text \<open>
  C32. With a batch of more than one message, on a kernel that takes at least one message of
  every batch it is offered, a write returns, however the kernel splits the batches: every
  message of the batch was taken once, in order, as often as \<open>repeat\<close> says, and the result is
  the bytes of all of them (cut to an \<open>int\<close>).
\<close>

theorem sctp_batches_sent:
  assumes "takes_some sent k" and "1 < sctp_batch fo" and "unat (sctp_batch fo) < 4294967296"
    and "sc_sendmmsg sc" and "SCTP_MMSG_STACK_SIZE < sctp_batch fo \<longrightarrow> sc_headers sc (sctp_batch fo)"
  shows "\<exists>pr'. protocol_sctp_write k sc p b sz fo pr =
      Some (Inr (wrap32 (int (sctp_repeat fo) * int (unat (sctp_batch fo)) * sz), pr')) \<and>
    sent (pc_world pr') = sent (pc_world pr) @ concat (replicate (sctp_repeat fo) [0..<unat (sctp_batch fo)])"
proof -
  have "\<not> (sc_sendmmsg sc \<and> SCTP_MMSG_STACK_SIZE < sctp_batch fo \<and> \<not> sc_headers sc (sctp_batch fo))"
    using assms(5) by blast
  then show ?thesis
    unfolding protocol_sctp_write_def if_not_P
    using write_loop_batches [OF assms(1-4), of "p_fd p" b sz "sctp_message sc fo" "sctp_repeat fo" 0 pr]
    by (simp only: if_False simp_thms add_0)
qed

definition halving_kernel :: "nat list kernel" where
  \<comment> \<open>takes the larger half of what it is offered\<close>
  "halving_kernel c w =
     (let ok = \<lparr>re_ret = 0, re_errno = 0, re_addrs = [], re_val = 0, re_data = [], re_vm = (0, 0), re_lens = []\<rparr>
      in case c of Sys_sendmmsg fd b sz info i n \<Rightarrow> (let m = (n + 1) div 2 in (ok\<lparr>re_ret := int m\<rparr>, w @ [i..<i + m]))
         | _ \<Rightarrow> (ok, w))"

definition sctp_all :: sctp_config where
  "sctp_all = \<lparr>sc_sack = True, sc_encaps = True, sc_sendmmsg = True, sc_recvmmsg = True,
     sc_policies = [''ttl'', ''rtx'', ''buf''], sc_headers = (\<lambda>_. True), sc_buffer = (\<lambda>_. True)\<rparr>"

lemma sctp_batches_sent_witness:
  "\<exists>pr. protocol_sctp_write halving_kernel sctp_all protocol_sctp_new (Strand_buf 0) 100
        (Some (zero_options\<lparr>fo_repeat := 2, fo_batch_size := 3\<rparr>)) \<lparr>pc_errno = 0, pc_log = [], pc_world = []\<rparr> =
      Some (Inr (600, pr)) \<and> pc_world pr = [0, 1, 2, 0, 1, 2]"
proof -
  let ?fo = "Some (zero_options\<lparr>fo_repeat := 2, fo_batch_size := 3\<rparr>)"
  have "takes_some (\<lambda>w. w) halving_kernel"
    unfolding takes_some_def halving_kernel_def Let_def
    by (auto intro!: exI [of _ "(_ + 1) div 2"])
  moreover have "sctp_batch ?fo = 3" "sctp_repeat ?fo = 2" by (simp_all add: sctp_batch_def sctp_repeat_def)
  moreover have "concat (replicate 2 [0..<3]) = [0, 1, 2, 0, 1, 2 :: nat]" by (simp add: upt_rec numeral_2_eq_2)
  ultimately show ?thesis
    using sctp_batches_sent [of "\<lambda>w. w" halving_kernel ?fo sctp_all protocol_sctp_new "Strand_buf 0" 100
        "\<lparr>pc_errno = 0, pc_log = [], pc_world = []\<rparr>"]
    by (simp add: sctp_all_def wrap32_id)
qed

text \<open>
  C34. A batch whose first \<open>sendmmsg\<close> fails is not reported as an error: its result -1 is stored
  in an unsigned variable, the test for a negative value is never true, the number of messages
  left grows by one, and the next call would take its messages from before the array.
\<close>

theorem sctp_failed_batch_unnoticed:
  assumes "1 < sctp_batch fo" and "unat (sctp_batch fo) < 4294967296" and "sc_sendmmsg sc" and "0 < sctp_repeat fo"
    and "SCTP_MMSG_STACK_SIZE < sctp_batch fo \<longrightarrow> sc_headers sc (sctp_batch fo)"
    and "\<forall>n w. re_ret (fst (k (Sys_sendmmsg (p_fd p) b sz (sctp_message sc fo) 0 n) w)) = - 1"
  shows "protocol_sctp_write k sc p b sz fo pr = Some (Inl Undefined)"
proof -
  let ?batch = "sctp_batch fo"
  obtain i where i: "sctp_repeat fo = Suc i" using assms(4) gr0_conv_Suc by auto
  have "unat (?batch + 1) = unat ?batch + 1" using assms(2) by (simp add: unat_word_ariths)
  then have over: "?batch < ?batch + 1" "?batch + 1 \<noteq> 0" by (auto simp: word_less_nat_alt)
  let ?c = "Sys_sendmmsg (p_fd p) b sz (sctp_message sc fo) 0 (unat (ucast ?batch :: u32))"
  obtain r w where r: "k ?c (pc_world pr) = (r, w)" by fastforce
  with assms(6) have f: "re_ret r = - 1" by (metis fst_conv)
  let ?p = "pr\<lparr>pc_errno := re_errno r, pc_world := w\<rparr>"
  have two: "sctp_send_batch k (p_fd p) b sz (sctp_message sc fo) ?batch (?batch + 1) ?p = Some (Inl Undefined)"
    using over by (subst sctp_send_batch.simps) simp
  have "?batch \<noteq> 0" using assms(1) by auto
  then have "sctp_send_batch k (p_fd p) b sz (sctp_message sc fo) ?batch ?batch pr = Some (Inl Undefined)"
    using r f two by (subst sctp_send_batch.simps) (simp add: sysc_def)
  moreover have "\<not> ?batch \<le> 1" using assms(1) by (simp add: not_le)
  ultimately show ?thesis using i assms(3,5) by (simp add: protocol_sctp_write_def)
qed

definition full_kernel :: "nat kernel" where
  \<comment> \<open>every call fails; the world counts them\<close>
  "full_kernel c w =
     (\<lparr>re_ret = - 1, re_errno = EAGAIN, re_addrs = [], re_val = 0, re_data = [], re_vm = (0, 0), re_lens = []\<rparr>, w + 1)"

lemma sctp_failed_batch_unnoticed_witness:
  "protocol_sctp_write full_kernel sctp_all protocol_sctp_new (Strand_buf 0) 100
     (Some (zero_options\<lparr>fo_repeat := 1, fo_batch_size := 4\<rparr>)) \<lparr>pc_errno = 0, pc_log = [], pc_world = 0\<rparr> = Some (Inl Undefined)"
proof (rule sctp_failed_batch_unnoticed)
  show "\<forall>n w. re_ret (fst (full_kernel (Sys_sendmmsg (p_fd protocol_sctp_new) (Strand_buf 0) 100
      (sctp_message sctp_all (Some (zero_options\<lparr>fo_repeat := 1, fo_batch_size := 4\<rparr>))) 0 n) w)) = - 1"
    by (simp add: full_kernel_def)
qed (simp_all add: sctp_batch_def sctp_repeat_def sctp_all_def)

end
