(* ===== verification/Rds.thy ===== *)
theory Rds
  imports Udp
begin

text \<open>
  RDS (\<open>src/rds.c\<close>): reliable datagrams, after the pattern of UDP. The constructor does not
  store the host and the port in the private data, whose port stays 0. \<open>rc_linux\<close> is the
  compile-time choice of address family, \<open>rc_inet\<close> the library's \<open>inet_addr\<close>, as text.
\<close>

record rds_config =
  rc_linux :: bool
  rc_inet :: "string \<Rightarrow> string"

record rds_private =
  rd_sock :: int
  rd_rhost :: "string option"
  rd_port :: int
  rd_refcount :: int
  rd_from :: sockaddr
  rd_to :: sockaddr

definition RDS_HANDSHAKE :: string where "RDS_HANDSHAKE = ''uperf rds handshake''"
definition ENOBUFS :: int where "ENOBUFS = 105"

definition rds_create_private :: "string \<Rightarrow> int \<Rightarrow> rds_private" where
  "rds_create_private host port =
     \<lparr>rd_sock = 0, rd_rhost = None, rd_port = 0, rd_refcount = 0, rd_from = zero_addr, rd_to = zero_addr\<rparr>"

section \<open>Messages\<close>

definition rds_read_one :: "'w kernel \<Rightarrow> int \<Rightarrow> buf \<Rightarrow> int \<Rightarrow> ('w, int \<times> string) io" where
  \<comment> \<open>\<open>recvmsg\<close> with \<open>MSG_WAITALL\<close>; the sender's address goes to a copy that is thrown away\<close>
  "rds_read_one k fd b len = do {
     r \<leftarrow> sysc k (Sys_recvmsg fd b len);
     if re_ret r \<le> 0 then do {
       e \<leftarrow> get_errno;
       (if e \<noteq> EWOULDBLOCK then report UPERF_LOG_ERROR e ''recvfrom:'' else ret ());
       ret (- 1, []) }
     else ret (re_ret r, re_data r) }"

definition rds_write_one :: "'w kernel \<Rightarrow> int \<Rightarrow> buf \<Rightarrow> int \<Rightarrow> sockaddr \<Rightarrow> ('w, int) io" where
  "rds_write_one k fd b len dest = do { r \<leftarrow> sysc k (Sys_sendmsg fd b len dest); ret (re_ret r) }"

definition protocol_rds_read ::
  "'w kernel \<Rightarrow> buf \<Rightarrow> int \<Rightarrow> flowop_options option \<Rightarrow> rds_private \<Rightarrow> string \<Rightarrow> ('w, int \<times> string) io" where
  \<comment> \<open>the last argument and result: what the buffer holds\<close>
  "protocol_rds_read k b n fo pd old = do {
     (r, d) \<leftarrow> rds_read_one k (rd_sock pd) b n;
     let old1 = overlay d old;
     e \<leftarrow> get_errno;
     if r \<noteq> n \<and> e \<noteq> EWOULDBLOCK then do {
       report UPERF_LOG_ERROR e ''non-block write'';
       ret (r, old1) }
     else let nleft = n - r in
       if 0 < nleft \<and> 0 < fo_timeout fo then do {
         e \<leftarrow> generic_poll k (rd_sock pd) (fo_timeout fo) POLLIN;
         if 0 < e then do {
           (r, d) \<leftarrow> rds_read_one k (rd_sock pd) b nleft;
           ret (r, overlay d old1) }
         else ret (- 1, old1) }
       else if 0 < nleft then do {
         (r, d) \<leftarrow> rds_read_one k (rd_sock pd) b nleft;
         ret (r, overlay d old1) }
       else ret (r, old1) }"

definition rds_write_end :: "int \<Rightarrow> int \<Rightarrow> ('w, int) io" where
  \<comment> \<open>the last test of \<open>protocol_rds_write\<close>\<close>
  "rds_write_end n r =
     (if r \<noteq> n then do { e \<leftarrow> get_errno; report UPERF_LOG_ERROR e ''very bad error encountered''; ret r } else ret r)"

definition protocol_rds_write ::
  "'w kernel \<Rightarrow> buf \<Rightarrow> int \<Rightarrow> flowop_options option \<Rightarrow> rds_private \<Rightarrow> ('w, int) io" where
  \<comment> \<open>\<open>re_val\<close> of the reply to \<open>poll\<close> is not 0 if \<open>POLLOUT\<close> is among the events\<close>
  "protocol_rds_write k b n fo pd = do {
     r \<leftarrow> rds_write_one k (rd_sock pd) b n (rd_to pd);
     e \<leftarrow> get_errno;
     if r \<le> 0 \<and> e \<noteq> EWOULDBLOCK \<and> e \<noteq> ENOBUFS then do {
       report UPERF_LOG_ERROR e ''non-block write'';
       ret (- 1) }
     else let nleft = (if 0 < r then n - r else n) in
       if 0 < nleft \<and> 0 < fo_timeout fo then do {
         ev \<leftarrow> sysc k (Sys_poll (rd_sock pd) (fo_timeout fo) POLLOUT);
         if re_val ev \<noteq> 0 then do {
           _ \<leftarrow> rds_write_one k (rd_sock pd) b nleft (rd_to pd);
           rds_write_end n r }
         else ret (- 1) }
       else if 0 < nleft then rds_write_one k (rd_sock pd) b nleft (rd_to pd)
       else rds_write_end n r }"

section \<open>Connections\<close>

definition rds_socket :: "'w kernel \<Rightarrow> rds_config \<Rightarrow> ('w, reply) io" where
  "rds_socket k rc = sysc k
     (if rc_linux rc then Sys_socket PF_RDS SOCK_SEQPACKET 0 else Sys_socket AF_INET_OFFLOAD SOCK_DGRAM 0)"

definition rds_addr :: "rds_config \<Rightarrow> string \<Rightarrow> int \<Rightarrow> sockaddr" where
  "rds_addr rc host port =
     \<lparr>sa_family = (if rc_linux rc then AF_INET else AF_INET_OFFLOAD), sa_addr = rc_inet rc host, sa_port = to_u16 port\<rparr>"

definition protocol_rds_listen ::
  "'w kernel \<Rightarrow> rds_config \<Rightarrow> rds_private \<Rightarrow> flowop_options option \<Rightarrow> ('w, c_stop + int \<times> rds_private) io" where
  \<comment> \<open>the options are followed without a test\<close>
  "protocol_rds_listen k rc pd fo = do {
     r \<leftarrow> rds_socket k rc;
     let pd1 = pd\<lparr>rd_sock := re_ret r\<rparr>;
     if re_ret r < 0 then do {
       e \<leftarrow> get_errno; report UPERF_LOG_ERROR e ''socket''; ret (Inr (UPERF_FAILURE, pd1)) }
     else case fo of
       None \<Rightarrow> ret (Inl Undefined)
     | Some f \<Rightarrow> do {
         let a = rds_addr rc (fo_localhost f) (rd_port pd1);
         r \<leftarrow> sysc k (Sys_bind (rd_sock pd1) a);
         if re_ret r < 0 then do {
           e \<leftarrow> get_errno; report UPERF_LOG_ERROR e ''bind''; ret (Inr (UPERF_FAILURE, pd1\<lparr>rd_from := a\<rparr>)) }
         else do {
           (ok, a1) \<leftarrow>
             (if uint (sa_port a) = ANY_PORT then do {
                r \<leftarrow> sysc k (Sys_getsockname (rd_sock pd1));
                if re_ret r \<noteq> 0 then do {
                  e \<leftarrow> get_errno; report UPERF_LOG_ERROR e ''getsockname''; ret (False, a) }
                else ret (True, case re_addrs r of a # _ \<Rightarrow> a | [] \<Rightarrow> a) }
              else ret (True, a));
           if \<not> ok then ret (Inr (UPERF_FAILURE, pd1\<lparr>rd_from := a1\<rparr>))
           else let port = uint (sa_port a1) in
             ret (Inr (port, pd1\<lparr>rd_from := a1, rd_port := port, rd_to := rds_addr rc (fo_remotehost f) port\<rparr>)) }}}"

definition protocol_rds_accept :: "'w kernel \<Rightarrow> rds_private \<Rightarrow> ('w, bool \<times> rds_private) io" where
  \<comment> \<open>whether the object itself is returned, or a null pointer\<close>
  "protocol_rds_accept k pd = do {
     (r, msg) \<leftarrow> protocol_rds_read k Local_buf (int (length RDS_HANDSHAKE)) None pd (replicate 32 NUL);
     if r \<le> UPERF_SUCCESS then do {
       e \<leftarrow> get_errno; report UPERF_LOG_ERROR e ''Error in UDP Handshake''; ret (False, pd) }
     else if takeWhile (\<lambda>c. c \<noteq> NUL) msg \<noteq> RDS_HANDSHAKE then ret (False, pd)
     else ret (True, pd\<lparr>rd_refcount := rd_refcount pd + 1\<rparr>) }"

definition protocol_rds_connect ::
  "'w kernel \<Rightarrow> rds_config \<Rightarrow> rds_private \<Rightarrow> flowop_options option \<Rightarrow> ('w, c_stop + int \<times> rds_private) io" where
  "protocol_rds_connect k rc pd fo = do {
     r \<leftarrow> rds_socket k rc;
     let pd1 = pd\<lparr>rd_sock := re_ret r\<rparr>;
     if re_ret r < 0 then ret (Inl (Exited 1))
     else case fo of
       None \<Rightarrow> ret (Inl Undefined)
     | Some f \<Rightarrow> do {
         let a = rds_addr rc (fo_localhost f) (rd_port pd1);
         let pd2 = pd1\<lparr>rd_from := a\<rparr>;
         r \<leftarrow> sysc k (Sys_bind (rd_sock pd2) a);
         if re_ret r < 0 then do {
           e \<leftarrow> get_errno; report UPERF_LOG_ERROR e ''Error in RDS Bind Operation''; ret (Inr (UPERF_FAILURE, pd2)) }
         else do {
           let pd3 = pd2\<lparr>rd_to := rds_addr rc (fo_remotehost f) (rd_port pd2)\<rparr>;
           r \<leftarrow> protocol_rds_write k (Text RDS_HANDSHAKE) (int (length RDS_HANDSHAKE)) None pd3;
           if r \<le> 0 then do {
             e \<leftarrow> get_errno; report UPERF_LOG_ERROR e ''Error in RDS Handshake''; ret (Inr (UPERF_FAILURE, pd3)) }
           else ret (Inr (UPERF_SUCCESS, pd3)) }}}"

definition protocol_rds_disconnect :: "rds_private \<Rightarrow> int \<times> rds_private" where
  "protocol_rds_disconnect pd = (UPERF_SUCCESS, pd\<lparr>rd_refcount := rd_refcount pd - 1\<rparr>)"

definition rds_fini :: "'w kernel \<Rightarrow> rds_private \<Rightarrow> ('w, bool) io" where
  \<comment> \<open>whether the object was freed\<close>
  "rds_fini k pd =
     (if rd_refcount pd < - 1 then do {
        (if 0 < rd_sock pd then do { _ \<leftarrow> sysc k (Sys_close (rd_sock pd)); ret () } else ret ());
        ret True }
      else ret False)"

section \<open>The port that is lost\<close>

fun to_port_zero :: "syscall \<Rightarrow> bool" where
  "to_port_zero (Sys_bind fd a) = (sa_port a = 0)"
| "to_port_zero (Sys_sendmsg fd b n a) = (sa_port a = 0)"
| "to_port_zero _ = True"

lemma calls_rds_write_one:
  "sa_port a = 0 \<Longrightarrow> calls to_port_zero (rds_write_one (traced k) fd b n a)"
  unfolding rds_write_one_def by (intro calls_intro calls_sysc) simp

lemma calls_rds_write:
  "sa_port (rd_to pd) = 0 \<Longrightarrow> calls to_port_zero (protocol_rds_write (traced k) b n fo pd)"
  unfolding protocol_rds_write_def rds_write_end_def Let_def
  by (intro calls_intro calls_rds_write_one calls_sysc) simp_all

lemma calls_rds_connect:
  "rd_port pd = 0 \<Longrightarrow> calls to_port_zero (protocol_rds_connect (traced k) rc pd fo)"
  unfolding protocol_rds_connect_def rds_socket_def Let_def
  by (cases fo) (auto intro!: calls_intro calls_rds_write calls_sysc simp: rds_addr_def)

text \<open>
  Whatever the port RDS was created with, a connection goes to port 0 of the remote host:
  the constructor never stores the port where \<open>connect\<close> looks for it. Every address the process
  binds to or sends to has port 0.
\<close>

lemma rds_connects_to_port_zero:
  assumes "run_state (protocol_rds_connect (traced k) rc (rds_create_private host port) fo) s = (x, s')"
    and "pc_world s = (w, [])"
  shows "list_all to_port_zero (snd (pc_world s')) \<and>
    (\<forall>pd. x = Inr (UPERF_SUCCESS, pd) \<longrightarrow> sa_port (rd_to pd) = 0 \<and> rd_port pd = 0)"
proof -
  have "rd_port (rds_create_private host port) = 0" by (simp add: rds_create_private_def)
  from preservesD [OF calls_rds_connect [OF this] assms(1)] assms(2)
  have "list_all to_port_zero (snd (pc_world s'))" by (simp add: grows_def)
  moreover have "\<forall>pd. x = Inr (UPERF_SUCCESS, pd) \<longrightarrow> sa_port (rd_to pd) = 0 \<and> rd_port pd = 0"
    using assms(1)
    by (cases fo) (auto simp: protocol_rds_connect_def Let_def rds_create_private_def rds_addr_def
        UPERF_SUCCESS_def UPERF_FAILURE_def split: prod.splits if_splits)
  ultimately show ?thesis by blast
qed

lemma rds_connects_to_port_zero_witness:
  "\<exists>pd s. run_state (protocol_rds_connect (traced lab_kernel) \<lparr>rc_linux = True, rc_inet = (\<lambda>x. x)\<rparr>
        (rds_create_private ''10.0.0.2'' 20000) (Some zero_options)) \<lparr>pc_errno = 0, pc_log = [], pc_world = ([0, 1, 2], [])\<rparr>
      = (Inr (UPERF_SUCCESS, pd), s) \<and> sa_port (rd_to pd) = 0 \<and> length (snd (pc_world s)) = 3"
proof -
  let ?c = "protocol_rds_connect (traced lab_kernel) \<lparr>rc_linux = True, rc_inet = (\<lambda>x. x)\<rparr>
        (rds_create_private ''10.0.0.2'' 20000) (Some zero_options)"
  let ?s = "\<lparr>pc_errno = 0, pc_log = [], pc_world = ([0, 1, 2], [])\<rparr>"
  obtain x s where c: "run_state ?c ?s = (x, s)" by (metis surj_pair)
  have "(case fst (run_state ?c ?s) of Inr (e, pd) \<Rightarrow> e = UPERF_SUCCESS | Inl _ \<Rightarrow> False) \<and>
      length (snd (pc_world (snd (run_state ?c ?s)))) = 3"
    by code_simp
  with c rds_connects_to_port_zero [OF c] show ?thesis by (auto split: sum.splits)
qed

end
