(* ===== verification/Ssl.thy ===== *)
theory Ssl
  imports Sockets Bytes
begin

text \<open>
  SSL (\<open>src/ssl.c\<close>), on top of the TCP operations. OpenSSL is a parameter (\<open>ssl_lib\<close>): its calls
  are programs on the process, an \<open>SSL\<close> object is a number. The object of a connection is the
  \<open>protocol\<close> with the pointer of its private data. The locks that OpenSSL takes through
  \<open>locking_function\<close>, and \<open>ssl_cleanup\<close> at exit, belong to the library.
\<close>

datatype ssl_error =
  SSL_ERROR_NONE | SSL_ERROR_WANT_READ | SSL_ERROR_WANT_WRITE | SSL_ERROR_ZERO_RETURN | SSL_ERROR_SYSCALL
| SSL_ERROR_OTHER

record 'w ssl_lib =
  sl_regular :: "string \<Rightarrow> bool"              \<comment> \<open>\<open>stat\<close> finds a regular file\<close>
  sl_ctx_new :: "bool \<Rightarrow> bool"                \<comment> \<open>for \<open>TLS_method\<close>, or \<open>SSLv23_method\<close>\<close>
  sl_certificate :: "string \<Rightarrow> bool"
  sl_private_key :: "string \<Rightarrow> bool"
  sl_check_key :: bool
  sl_engine :: "string \<Rightarrow> ('w, bool) io"      \<comment> \<open>\<open>ENGINE_by_id\<close> and its registration\<close>
  sl_new :: "('w, nat option) io"
  sl_set_fd :: "nat \<Rightarrow> int \<Rightarrow> ('w, unit) io"
  sl_accept :: "nat \<Rightarrow> ('w, int) io"
  sl_connect :: "nat \<Rightarrow> ('w, int) io"
  sl_shutdown :: "nat \<Rightarrow> ('w, int) io"
  sl_read :: "nat \<Rightarrow> buf \<Rightarrow> int \<Rightarrow> ('w, int) io"
  sl_write :: "nat \<Rightarrow> buf \<Rightarrow> int \<Rightarrow> ('w, int) io"
  sl_get_error :: "nat \<Rightarrow> int \<Rightarrow> ('w, ssl_error) io"

type_synonym ssl_conn = "protocol \<times> nat option"

section \<open>Setting up\<close>

definition PASS :: string where "PASS = ''password''"

definition pwd_cb :: "int \<Rightarrow> string option" where
  \<comment> \<open>what is copied into a buffer of this size, if it fits; its length is returned\<close>
  "pwd_cb num = (if num < int (length PASS) + 1 then None else Some PASS)"

definition initialize_ctx :: "'w ssl_lib \<Rightarrow> string \<Rightarrow> string option \<Rightarrow> bool" where
  \<comment> \<open>whether a context is returned\<close>
  "initialize_ctx L keyfile mthd =
     (sl_ctx_new L (case mthd of None \<Rightarrow> False | Some m \<Rightarrow> strcaseeq m ''tls'') \<and>
      sl_certificate L keyfile \<and> sl_private_key L keyfile \<and> sl_check_key L)"

definition ssl_init :: "'w ssl_lib \<Rightarrow> bool \<Rightarrow> int" where
  \<comment> \<open>for the master, or a slave; the context is not null if the result is 0\<close>
  "ssl_init L master =
     (let file = (if master then ''server.pem'' else ''client.pem''); up = ''../'' @ file;
          ctx = (if sl_regular L file then initialize_ctx L file None
                 else if sl_regular L up then initialize_ctx L up None else False)
      in if ctx then 0 else 1)"

definition load_engine :: "'w ssl_lib \<Rightarrow> string \<Rightarrow> ('w, int) io" where
  "load_engine L name = do { found \<leftarrow> sl_engine L name; ret (if found then 0 else - 1) }"

section \<open>Transfers\<close>

definition my_ssl_error :: "'w ssl_lib \<Rightarrow> nat \<Rightarrow> int \<Rightarrow> ('w, int) io" where
  "my_ssl_error L ssl sz = do {
     e \<leftarrow> sl_get_error L ssl sz;
     (case e of
        SSL_ERROR_NONE \<Rightarrow> ret UPERF_SUCCESS
      | SSL_ERROR_WANT_READ \<Rightarrow> do { set_errno EINTR; ret (- 1) }
      | SSL_ERROR_WANT_WRITE \<Rightarrow> do { set_errno EINTR; ret (- 1) }
      | SSL_ERROR_ZERO_RETURN \<Rightarrow> do { set_errno EINTR; ret (- 1) }
      | SSL_ERROR_SYSCALL \<Rightarrow> ret (- 1)
      | SSL_ERROR_OTHER \<Rightarrow> ret (- 1)) }"

definition ssl_read :: "'w ssl_lib \<Rightarrow> nat \<Rightarrow> buf \<Rightarrow> int \<Rightarrow> ('w, int) io" where
  "ssl_read L ssl b n = do {
     r \<leftarrow> sl_read L ssl b n;
     e \<leftarrow> my_ssl_error L ssl r;
     ret (if e = 0 then r else - 1) }"

definition ssl_write :: "'w ssl_lib \<Rightarrow> nat \<Rightarrow> buf \<Rightarrow> int \<Rightarrow> ('w, int) io" where
  "ssl_write L ssl b n = do {
     r \<leftarrow> sl_write L ssl b n;
     e \<leftarrow> my_ssl_error L ssl r;
     ret (if e = 0 then r else - 1) }"

definition protocol_ssl_read :: "'w ssl_lib \<Rightarrow> ssl_conn \<Rightarrow> buf \<Rightarrow> int \<Rightarrow> ('w, c_stop + int) io" where
  "protocol_ssl_read L p b n =
     (case snd p of None \<Rightarrow> ret (Inl Undefined) | Some ssl \<Rightarrow> do { r \<leftarrow> ssl_read L ssl b n; ret (Inr r) })"

definition protocol_ssl_write :: "'w ssl_lib \<Rightarrow> ssl_conn \<Rightarrow> buf \<Rightarrow> int \<Rightarrow> ('w, c_stop + int) io" where
  "protocol_ssl_write L p b n =
     (case snd p of None \<Rightarrow> ret (Inl Undefined) | Some ssl \<Rightarrow> do { r \<leftarrow> ssl_write L ssl b n; ret (Inr r) })"

section \<open>Connections\<close>

definition protocol_ssl_new :: ssl_conn where
  "protocol_ssl_new =
     (\<lparr>p_type = PROTOCOL_SSL, p_port = 0, p_conn = 0, p_fd = 0, p_host = [], p_sendrecv = False\<rparr>, None)"

definition protocol_ssl_listen ::
  "'w kernel \<Rightarrow> tcp_config \<Rightarrow> protocol \<Rightarrow> flowop_options option \<Rightarrow> ('w, int \<times> protocol) io" where
  "protocol_ssl_listen k tc p fo = do {
     (e, p1) \<leftarrow> generic_socket k p AF_INET6 IPPROTO_TCP;
     (e, p2) \<leftarrow> (if e \<noteq> UPERF_SUCCESS then generic_socket k p1 AF_INET IPPROTO_TCP else ret (e, p1));
     if e \<noteq> UPERF_SUCCESS then do {
       n \<leftarrow> get_errno;
       report UPERF_LOG_ERROR n ''tcp: Cannot create socket'';
       ret (UPERF_FAILURE, p2) }
     else do {
       set_tcp_options k tc (p_fd p2) fo;
       generic_listen k p2 }}"

definition sock_port :: "endian \<Rightarrow> sockaddr \<Rightarrow> int" where
  \<comment> \<open>\<open>SOCK_PORT\<close>: the field in network order\<close>
  "sock_port e a = uint (case e of LittleEndian \<Rightarrow> BSWAP_16 (sa_port a) | BigEndian \<Rightarrow> sa_port a)"

definition protocol_ssl_accept ::
  "'w kernel \<Rightarrow> 'w ssl_lib \<Rightarrow> endian \<Rightarrow> ssl_conn \<Rightarrow> flowop_options option \<Rightarrow> ('w, ssl_conn option) io" where
  "protocol_ssl_accept k L en p fo = do {
     r \<leftarrow> sysc k (Sys_accept (p_fd (fst p)));
     if re_ret r < 0 then do {
       e \<leftarrow> get_errno; report UPERF_LOG_ERROR e ''accept''; ret None }
     else do {
       let remote = (case re_addrs r of a # _ \<Rightarrow> a | [] \<Rightarrow> \<lparr>sa_family = AF_UNSPEC, sa_addr = [], sa_port = 0\<rparr>);
       let newp = (fst protocol_ssl_new)\<lparr>p_fd := re_ret r\<rparr>;
       n \<leftarrow> sysc k (Sys_getnameinfo remote);
       let newp1 = (if re_ret n = 0 then newp\<lparr>p_host := strlcpy MAXHOSTNAME (re_data n), p_port := sock_port en remote\<rparr> else newp);
       (case fo of None \<Rightarrow> ret () | Some f \<Rightarrow> do { _ \<leftarrow> load_engine L (fo_engine f); ret () });
       ssl \<leftarrow> sl_new L;
       (case ssl of
          None \<Rightarrow> do { report UPERF_LOG_ERROR 0 ''SSL_new error''; ret None }
        | Some x \<Rightarrow> do {
            sl_set_fd L x (p_fd newp1);
            r \<leftarrow> sl_accept L x;
            e \<leftarrow> my_ssl_error L x r;
            ret (if e = 0 then Some (newp1, Some x) else None) }) }}"

definition protocol_ssl_connect ::
  "'w kernel \<Rightarrow> tcp_config \<Rightarrow> 'w ssl_lib \<Rightarrow> ssl_conn \<Rightarrow> flowop_options option \<Rightarrow> ('w, int \<times> ssl_conn) io" where
  "protocol_ssl_connect k tc L p fo = do {
     (e, a) \<leftarrow> name_to_addr k (p_host (fst p));
     (case a of
        None \<Rightarrow> ret (UPERF_FAILURE, p)
      | Some serv \<Rightarrow> do {
          (e, p1) \<leftarrow> generic_socket k (fst p) (sa_family serv) IPPROTO_TCP;
          if e < 0 then ret (UPERF_FAILURE, (p1, snd p))
          else do {
            set_tcp_options k tc (p_fd p1) fo;
            e \<leftarrow> generic_connect k p1 serv;
            if e < 0 then ret (UPERF_FAILURE, (p1, snd p))
            else do {
              (case fo of
                 None \<Rightarrow> ret ()
               | Some f \<Rightarrow> if fo_engine f \<noteq> [] then do { _ \<leftarrow> load_engine L (fo_engine f); ret () } else ret ());
              ssl \<leftarrow> sl_new L;
              (case ssl of
                 None \<Rightarrow> do { report_errno UPERF_LOG_ERROR ''Error initializng SSL''; ret (- 1, (p1, None)) }
               | Some x \<Rightarrow> do {
                   sl_set_fd L x (p_fd p1);
                   r \<leftarrow> sl_connect L x;
                   if r \<le> 0 then do {
                     report UPERF_LOG_ERROR 0 ''ssl connect error'';
                     ret (- 1, (p1, Some x)) }
                   else ret (0, (p1, Some x)) }) }}}) }"

definition protocol_ssl_disconnect :: "'w kernel \<Rightarrow> 'w ssl_lib \<Rightarrow> bool \<Rightarrow> ssl_conn \<Rightarrow> ('w, int) io" where
  \<comment> \<open>the flag: a slave; the object is left as it is\<close>
  "protocol_ssl_disconnect k L slave p = do {
     ok \<leftarrow> (case snd p of
        None \<Rightarrow> ret True
      | Some ssl \<Rightarrow> do {
          r \<leftarrow> sl_shutdown L ssl;
          r \<leftarrow> (if r = 0 \<and> slave then do { _ \<leftarrow> sysc k (Sys_shutdown (p_fd (fst p)) 1); sl_shutdown L ssl } else ret r);
          if r = 1 \<or> r = 0 \<or> r = - 1 then ret True
          else do { report UPERF_LOG_ERROR 0 ''ssl shutdown failed''; ret False } });
     if \<not> ok then ret (- 1)
     else do { r \<leftarrow> sysc k (Sys_close (p_fd (fst p))); ret (re_ret r) }}"

definition ssl_fini :: "'w kernel \<Rightarrow> 'w ssl_lib \<Rightarrow> bool \<Rightarrow> ssl_conn \<Rightarrow> ('w, unit) io" where
  \<comment> \<open>the object is gone afterwards\<close>
  "ssl_fini k L slave p = do { _ \<leftarrow> protocol_ssl_disconnect k L slave p; ret () }"

section \<open>Closing what it does not own\<close>

definition clean_shutdown :: "'w ssl_lib \<Rightarrow> nat \<Rightarrow> bool" where
  \<comment> \<open>\<open>SSL_shutdown\<close> reports success and leaves the world and the log alone\<close>
  "clean_shutdown L ssl = (\<forall>s. fst (run_state (sl_shutdown L ssl) s) = 1 \<and> snd (run_state (sl_shutdown L ssl) s) = s)"


definition lab_ssl :: "int list ssl_lib" where
  \<comment> \<open>a library where every call succeeds\<close>
  "lab_ssl = \<lparr>sl_regular = (\<lambda>_. True), sl_ctx_new = (\<lambda>_. True), sl_certificate = (\<lambda>_. True),
     sl_private_key = (\<lambda>_. True), sl_check_key = True, sl_engine = (\<lambda>_. ret True), sl_new = ret (Some 0),
     sl_set_fd = (\<lambda>_ _. ret ()), sl_accept = (\<lambda>_. ret 1), sl_connect = (\<lambda>_. ret 1), sl_shutdown = (\<lambda>_. ret 1),
     sl_read = (\<lambda>_ _ n. ret n), sl_write = (\<lambda>_ _ n. ret n), sl_get_error = (\<lambda>_ _. ret SSL_ERROR_NONE)\<rparr>"

definition no_names_kernel :: "int list kernel" where
  \<comment> \<open>the small kernel, on which no host is known\<close>
  "no_names_kernel c w = (case c of Sys_getaddrinfo _ \<Rightarrow> ((fst (lab_kernel c w))\<lparr>re_ret := - 2\<rparr>, w) | _ \<Rightarrow> lab_kernel c w)"

lemma no_names_kernel_fds: "kernel_fds set no_names_kernel"
  unfolding kernel_fds_def
proof (intro allI)
  fix c and w :: "int list"
  note lab = lab_kernel_fds [unfolded kernel_fds_def, THEN spec, THEN spec, of c w]
  have "no_names_kernel c w = lab_kernel c w" if "\<forall>x. c \<noteq> Sys_getaddrinfo x"
    using that by (cases c) (simp_all add: no_names_kernel_def)
  then show "let (r, w') = no_names_kernel c w in
       (case c of
          Sys_socket _ _ _ \<Rightarrow> if re_ret r < 0 then set w' = set w else re_ret r \<notin> set w \<and> set w' = insert (re_ret r) (set w)
        | Sys_accept _ \<Rightarrow> if re_ret r < 0 then set w' = set w else re_ret r \<notin> set w \<and> set w' = insert (re_ret r) (set w)
        | Sys_close fd \<Rightarrow> set w' = set w - {fd}
        | _ \<Rightarrow> set w' = set w)"
    using lab by (cases "\<forall>x. c \<noteq> Sys_getaddrinfo x") (auto simp only:, auto simp: no_names_kernel_def)
qed


end
