(* ===== verification/Report.thy ===== *)
theory Report
  imports Numbers Shm Goodbye
begin

text \<open>
  What the master prints (\<open>src/print.c\<close>, and the end of \<open>src/numbers.c\<close>): the rows of statistics it
  puts together from the counters, and their text. A \<open>double\<close> is a fraction, rounded to 53 bits
  after every operation, an infinity, or no number; the counters are far below the largest
  \<open>double\<close>. The text of a function is what it prints; the width of the window is a parameter.
\<close>

section \<open>Floating point\<close>

datatype double = Fin int nat | Inf bool | NaN

definition d_rnd :: "int \<Rightarrow> nat \<Rightarrow> double" where
  "d_rnd n d = (let (a, b) = rnd 53 (nat \<bar>n\<bar>, d) in Fin (sgn n * int a) b)"

definition d_int :: "int \<Rightarrow> double" where "d_int n = d_rnd n 1"

abbreviation d_u64 :: "u64 \<Rightarrow> double" where "d_u64 x \<equiv> d_int (uint x)"

fun d_neg :: "double \<Rightarrow> bool" where
  "d_neg (Fin n d) = (n < 0)" | "d_neg (Inf s) = s" | "d_neg NaN = False"

fun d_mul :: "double \<Rightarrow> double \<Rightarrow> double" where
  "d_mul (Fin a b) (Fin c d) = d_rnd (a * c) (b * d)"
| "d_mul (Inf s) (Fin c d) = (if c = 0 then NaN else Inf (s \<noteq> (c < 0)))"
| "d_mul (Fin a b) (Inf s) = (if a = 0 then NaN else Inf (s \<noteq> (a < 0)))"
| "d_mul (Inf s) (Inf t) = Inf (s \<noteq> t)"
| "d_mul x y = NaN"

fun d_div :: "double \<Rightarrow> double \<Rightarrow> double" where
  "d_div (Fin a b) (Fin c d) =
     (if c = 0 then (if a = 0 then NaN else Inf (a < 0)) else d_rnd (a * int d * sgn c) (b * nat \<bar>c\<bar>))"
| "d_div (Inf s) (Fin c d) = Inf (s \<noteq> (c < 0))"
| "d_div (Fin a b) (Inf s) = Fin 0 1"
| "d_div x y = NaN"

fun d_sub :: "double \<Rightarrow> double \<Rightarrow> double" where
  "d_sub (Fin a b) (Fin c d) = d_rnd (a * int d - c * int b) (b * d)"
| "d_sub (Inf s) (Fin c d) = Inf s"
| "d_sub (Fin a b) (Inf s) = Inf (\<not> s)"
| "d_sub (Inf s) (Inf t) = (if s = t then NaN else Inf s)"
| "d_sub x y = NaN"

fun d_less :: "double \<Rightarrow> double \<Rightarrow> bool" where
  "d_less (Fin a b) (Fin c d) = (a * int d < c * int b)"
| "d_less (Inf s) (Fin c d) = s"
| "d_less (Fin a b) (Inf s) = (\<not> s)"
| "d_less (Inf s) (Inf t) = (s \<and> \<not> t)"
| "d_less x y = False"

definition d_le :: "double \<Rightarrow> double \<Rightarrow> bool" where
  "d_le x y = (x \<noteq> NaN \<and> y \<noteq> NaN \<and> \<not> d_less y x)"

fun d_zero :: "double \<Rightarrow> bool" where
  "d_zero (Fin n d) = (n = 0)" | "d_zero x = False"

section \<open>Text\<close>

definition pad_left :: "nat \<Rightarrow> string \<Rightarrow> string" where
  "pad_left w s = replicate (w - length s) CHR '' '' @ s"

definition pad_right :: "nat \<Rightarrow> string \<Rightarrow> string" where
  "pad_right w s = s @ replicate (w - length s) CHR '' ''"

definition fixed :: "nat \<Rightarrow> nat \<Rightarrow> nat \<Rightarrow> string" where
  \<comment> \<open>the fraction with \<open>p\<close> decimals, ties to even\<close>
  "fixed p n d =
     (let q = 10 ^ p * n div d; r = 10 ^ p * n mod d;
          h = (if 2 * r < d \<or> 2 * r = d \<and> even q then q else q + 1);
          frac = dec_nat (h mod 10 ^ p)
      in dec_nat (h div 10 ^ p) @
         (if p = 0 then [] else ''.'' @ replicate (p - length frac) CHR ''0'' @ frac))"

fun fmt_f :: "nat \<Rightarrow> double \<Rightarrow> string" where
  \<comment> \<open>\<open>%.pf\<close>; \<open>0.0 / 0.0\<close> has its sign bit set on x86\<close>
  "fmt_f p (Fin n d) = (if n < 0 then ''-'' else []) @ fixed p (nat \<bar>n\<bar>) d"
| "fmt_f p (Inf s) = (if s then ''-inf'' else ''inf'')"
| "fmt_f p NaN = ''-nan''"

definition fmt_u64 :: "nat \<Rightarrow> u64 \<Rightarrow> string" where
  "fmt_u64 w x = pad_left w (dec_nat (unat x))"

text \<open>
  The array of suffixes has 9 elements, the last is the terminating zero; the loop may leave
  \<open>pos\<close> at 9, one past its end.
\<close>

definition SUFFIX :: string where "SUFFIX = '' KMGTPEZ''"

function scale_down :: "double \<Rightarrow> double \<Rightarrow> nat \<Rightarrow> double \<times> nat" where
  "scale_down step value pos =
     (if d_less step value \<and> pos < 9 then scale_down step (d_div value step) (pos + 1) else (value, pos))"
  by pat_completeness auto
termination by (relation "measure (\<lambda>(step, value, pos). 9 - pos)") auto

declare scale_down.simps [simp del]

definition decimal_to_string :: "double \<Rightarrow> nat \<Rightarrow> bool \<Rightarrow> c_stop + string" where
  "decimal_to_string value sz is_bit =
     (if d_zero value then Inr ''0''
      else case scale_down (d_int (if is_bit then 1000 else 1024)) value 0 of (v, pos) \<Rightarrow>
        let unit = (if is_bit then ''b/s'' else ''B'') in
        if pos = 0 then Inr (take (sz - 1) (fmt_f 2 v @ unit))
        else if pos < 8 then Inr (take (sz - 1) (fmt_f 2 v @ [SUFFIX ! pos] @ unit))
        else if pos = 8 then Inr (take (sz - 1) (fmt_f 2 v))
        else Inl Undefined)"

definition print_decimal :: "double \<Rightarrow> nat \<Rightarrow> bool \<Rightarrow> c_stop + string" where
  "print_decimal value sz is_bit = cbind (decimal_to_string value sz is_bit) (\<lambda>s. Inr (pad_left sz s @ '' ''))"

function time_unit :: "double \<Rightarrow> nat \<Rightarrow> double \<times> nat" where
  "time_unit value index =
     (if d_le (d_int 1000) value \<and> index < 3 then time_unit (d_div value (d_int 1000)) (index + 1) else (value, index))"
  by pat_completeness auto
termination by (relation "measure (\<lambda>(value, index). 3 - index)") auto

declare time_unit.simps [simp del]

definition adaptive_print_time :: "double \<Rightarrow> nat \<Rightarrow> string" where
  "adaptive_print_time value width0 =
     (let width = min width0 127 in
      case time_unit value 0 of (v, index) \<Rightarrow>
        pad_left width (take width
          (if index = 3 then pad_left (width - 1) (fmt_f 2 v) @ ''s''
           else pad_left (width - 2) (fmt_f 2 v) @ [''num'' ! index] @ ''s'')) @ '' '')"

section \<open>Lines\<close>

definition window_width :: "nat option \<Rightarrow> nat" where
  \<comment> \<open>the columns \<open>ioctl\<close> reports, if it succeeds\<close>
  "window_width cols = (case cols of None \<Rightarrow> 80 | Some c \<Rightarrow> min 128 (if c = 0 then 80 else c))"

definition uperf_line :: "nat option \<Rightarrow> string" where
  "uperf_line cols = replicate (window_width cols - 1) CHR ''-'' @ ''\<newline>''"

definition AVG_HDR :: string where
  "AVG_HDR = ''   Count         avg         cpu         max         min ''"

definition print_avg_header :: "nat option \<Rightarrow> string \<Rightarrow> string" where
  "print_avg_header cols label = ''\<newline>'' @ pad_right 15 label @ '' '' @ AVG_HDR @ ''\<newline>'' @ uperf_line cols"

definition RAW_STATS :: u32 where "RAW_STATS = 8192"

definition print_summary :: "u32 \<Rightarrow> nat option \<Rightarrow> newstats \<Rightarrow> bool \<Rightarrow> c_stop + string" where
  "print_summary copt cols ns same_line =
     (let time = d_u64 (ns_end_time ns - ns_start_time ns) in
      if d_zero time then Inr []
      else if enabled RAW_STATS copt then
        Inr (''timestamp_ms:'' @ fmt_f 4 (d_div (d_u64 (ns_end_time ns)) (d_int 1000000)) @ '' name:'' @ ns_name ns @
             '' nr_bytes:'' @ dec_nat (unat (ns_size ns)) @ '' nr_ops:'' @ dec_nat (unat (ns_count ns)) @ ''\<newline>'')
      else
        let time_s = d_div time (d_int 1000000000);
            throughput = d_div (d_mul (d_u64 (ns_size ns)) (d_int 8)) time_s;
            ops = d_div (d_u64 (ns_count ns)) time_s;
            clear = (if same_line then [CHR 0x0D] @ replicate (window_width cols - 1) CHR '' '' @ [CHR 0x0D] else [])
        in cbind (print_decimal (d_u64 (ns_size ns)) 8 False) (\<lambda>size_text.
           cbind (print_decimal throughput 12 True) (\<lambda>thr_text.
             Inr (clear @ pad_right 8 (take 8 (ns_name ns)) @ '' '' @ size_text @
                  ''/'' @ pad_left 7 (fmt_f 2 time_s) @ ''(s) = '' @ thr_text @
                  '' '' @ pad_left 10 (fmt_f 0 ops) @ ''op/s '' @ (if same_line then [] else ''\<newline>'')))))"

definition print_average :: "newstats \<Rightarrow> string" where
  "print_average ns =
     (if ns_count ns = 0 then []
      else pad_right 15 (ns_name ns) @ '' '' @ fmt_u64 8 (ns_count ns) @ '' '' @
        adaptive_print_time (d_u64 (ns_time_used ns div ns_count ns)) 11 @
        adaptive_print_time (d_u64 (ns_cpu_time ns div ns_count ns)) 11 @
        adaptive_print_time (d_u64 (ns_max ns)) 11 @ adaptive_print_time (d_u64 (ns_min ns)) 11 @
        (if 0 < ns_pic0 ns then
           pad_right 12 (fmt_f 0 (d_div (d_u64 (ns_pic0 ns)) (d_u64 (ns_count ns)))) @ '' '' @
           pad_right 12 (fmt_f 0 (d_div (d_u64 (ns_pic1 ns)) (d_u64 (ns_count ns))))
         else []) @ ''\<newline>'')"

section \<open>Rows\<close>

definition empty_row :: "string \<Rightarrow> newstats" where
  \<comment> \<open>\<open>ULONG_MAX\<close> is that of a 64-bit \<open>long\<close>\<close>
  "empty_row name = zero_stats\<lparr>ns_min := - 1, ns_start_time := - 1, ns_name := name\<rparr>"

definition add_matching :: "(newstats \<Rightarrow> bool) \<Rightarrow> shm \<Rightarrow> newstats \<Rightarrow> newstats" where
  \<comment> \<open>the loop over \<open>shm->nstats\<close>\<close>
  "add_matching P shm ns =
     fold (\<lambda>p ns. if P p then add_stats ns p else ns) (take (sh_nstat_count shm) (sh_nstats shm)) ns"

definition txn_row :: "shm \<Rightarrow> group \<Rightarrow> txn \<Rightarrow> newstats" where
  "txn_row shm g t =
     (add_matching (\<lambda>p. ns_type p = NSTAT_TXN \<and> ns_gid p = g_groupid g \<and> ns_tid p = t_txnid t) shm (empty_row []))
       \<lparr>ns_name := take 31 (''Txn'' @ dec_int (sint (t_txnid t)))\<rparr>"

definition flowop_row :: "shm \<Rightarrow> nat \<Rightarrow> txn \<Rightarrow> flowop \<Rightarrow> newstats" where
  \<comment> \<open>the number is the index of the group\<close>
  "flowop_row shm i t f =
     add_matching (\<lambda>p. ns_type p = NSTAT_FLOWOP \<and> ns_gid p = of_nat i \<and> ns_tid p = t_txnid t \<and> ns_fid p = f_id f) shm
       (empty_row (strlcpy UPERF_NAME_LEN (f_name f)))"

definition group_row :: "shm \<Rightarrow> group \<Rightarrow> newstats" where
  \<comment> \<open>one pass over the counters for every flowop of every transaction\<close>
  "group_row shm g =
     fold (\<lambda>t ns. fold (\<lambda>f ns.
        add_matching (\<lambda>p. ns_type p = NSTAT_FLOWOP \<and> ns_gid p = g_groupid g \<and> ns_tid p = t_txnid t) shm ns) (t_flist t) ns)
       (g_tlist g) (empty_row (strlcpy UPERF_NAME_LEN (g_name g)))"

definition flowop_rows :: "shm \<Rightarrow> workorder \<Rightarrow> newstats list" where
  "flowop_rows shm w =
     concat (map (\<lambda>(i, g). concat (map (\<lambda>t. map (flowop_row shm i t) (t_flist t)) (g_tlist g))) (enumerate 0 (w_grp w)))"

definition print_txn_averages :: "nat option \<Rightarrow> shm \<Rightarrow> workorder \<Rightarrow> string" where
  "print_txn_averages cols shm w =
     print_avg_header cols ''Txn'' @
     concat (map (\<lambda>g. concat (map (\<lambda>t. print_average (txn_row shm g t)) (g_tlist g))) (w_grp w)) @ ''\<newline>''"

definition print_flowop_averages :: "nat option \<Rightarrow> shm \<Rightarrow> workorder \<Rightarrow> string" where
  "print_flowop_averages cols shm w =
     print_avg_header cols ''Flowop'' @ concat (map print_average (flowop_rows shm w)) @ ''\<newline>''"

fun print_summaries :: "u32 \<Rightarrow> nat option \<Rightarrow> newstats list \<Rightarrow> c_stop + string" where
  "print_summaries copt cols [] = Inr []"
| "print_summaries copt cols (ns # nss) =
     cbind (print_summary copt cols ns False) (\<lambda>a. cbind (print_summaries copt cols nss) (\<lambda>b. Inr (a @ b)))"

definition print_group_details :: "u32 \<Rightarrow> nat option \<Rightarrow> shm \<Rightarrow> workorder \<Rightarrow> c_stop + string" where
  "print_group_details copt cols shm w =
     cbind (print_summaries copt cols (map (group_row shm) (w_grp w))) (\<lambda>s.
       Inr (''\<newline>Group Details\<newline>'' @ uperf_line cols @ s @ ''\<newline>''))"

definition print_strand_details :: "u32 \<Rightarrow> nat option \<Rightarrow> shm \<Rightarrow> c_stop + string" where
  "print_strand_details copt cols shm =
     cbind (print_summaries copt cols (map s_nstats (take (nat (sh_no_strands shm)) (sh_strands shm)))) (\<lambda>s.
       Inr (''\<newline>Strand Details\<newline>'' @ uperf_line cols @ s @ ''\<newline>''))"

section \<open>Goodbyes\<close>

definition print_goodbye_stat_header :: "nat option \<Rightarrow> string" where
  "print_goodbye_stat_header cols =
     ''\<newline>Run Statistics\<newline>Hostname            Time       Data   Throughput   Operations      Errors\<newline>'' @ uperf_line cols"

definition percent :: "u64 \<Rightarrow> u64 \<Rightarrow> double" where
  "percent a b = d_div (d_mul (d_int 100) (d_u64 a)) (d_u64 b)"

definition bits_per_second :: "goodbye_stat \<Rightarrow> double" where
  \<comment> \<open>the product is of 64 bits\<close>
  "bits_per_second s = d_div (d_u64 (gs_bytes_xfer s * 8)) (d_div (d_u64 (gs_elapsed_time s)) (d_int 1000000000))"

definition print_goodbye_stat :: "string \<Rightarrow> goodbye_stat \<Rightarrow> c_stop + string" where
  "print_goodbye_stat host s =
     (let thro = (if 0 < gs_elapsed_time s then bits_per_second s else d_int 1);
          err = percent (gs_error s) (gs_count s)
      in cbind (print_decimal (d_u64 (gs_bytes_xfer s)) 10 False) (\<lambda>a.
         cbind (print_decimal thro 12 True) (\<lambda>b.
           Inr (pad_right 15 (take 15 host) @ '' '' @ adaptive_print_time (d_u64 (gs_elapsed_time s)) 8 @ a @ b @
                fmt_u64 12 (gs_count s) @ '' '' @ pad_left 11 (fmt_f 2 err) @ ''\<newline>''))))"

definition err_per :: "double \<Rightarrow> double \<Rightarrow> double" where
  "err_per a b = (if d_zero b then d_int 0 else d_sub (d_int 100) (d_div (d_mul (d_int 100) b) a))"

definition print_difference :: "nat option \<Rightarrow> goodbye_stat \<Rightarrow> goodbye_stat \<Rightarrow> string" where
  "print_difference cols l r =
     (let em = percent (gs_error l) (gs_count l); es = percent (gs_error r) (gs_count r);
          col = (\<lambda>w x. pad_left w (fmt_f 2 x) @ ''%'')
      in uperf_line cols @ pad_right 15 ''Difference(%)'' @ '' '' @
         col 7 (err_per (d_u64 (gs_elapsed_time l)) (d_u64 (gs_elapsed_time r))) @ '' '' @
         col 9 (err_per (d_u64 (gs_bytes_xfer l)) (d_u64 (gs_bytes_xfer r))) @ '' '' @
         col 11 (err_per (bits_per_second l) (bits_per_second r)) @ '' '' @
         col 11 (err_per (d_u64 (gs_count l)) (d_u64 (gs_count r))) @ '' '' @
         col 10 (if d_less es em then em else es) @ ''\<newline>\<newline>'')"

section \<open>What the rows add up to\<close>

text \<open>The counters a row adds up, for any of the counters that are summed.\<close>

definition entries :: "shm \<Rightarrow> newstats list" where
  "entries shm = take (sh_nstat_count shm) (sh_nstats shm)"

definition summed :: "(newstats \<Rightarrow> u64) \<Rightarrow> bool" where
  "summed c = (\<forall>a b. c (add_stats a b) = c a + c b)"

lemma summed_counters: "summed ns_count" "summed ns_size" "summed ns_time_used" "summed ns_cpu_time"
  by (simp_all add: summed_def add_stats_def)

lemma add_matching_sum:
  "summed c \<Longrightarrow> c (add_matching P shm ns) = c ns + sum_list (map c (filter P (entries shm)))"
proof -
  assume c: "summed c"
  have "c (fold (\<lambda>p ns. if P p then add_stats ns p else ns) xs ns) = c ns + sum_list (map c (filter P xs))" for xs
    using c by (induction xs arbitrary: ns) (auto simp: summed_def add.assoc)
  then show ?thesis by (simp add: add_matching_def entries_def)
qed

definition stat_key :: "newstats \<Rightarrow> u32 \<times> u32 \<times> u32" where
  "stat_key p = (ns_gid p, ns_tid p, ns_fid p)"

definition flowop_keys :: "workorder \<Rightarrow> (u32 \<times> u32 \<times> u32) list" where
  "flowop_keys w =
     concat (map (\<lambda>(i, g). concat (map (\<lambda>t. map (\<lambda>f. (of_nat i, t_txnid t, f_id f)) (t_flist t)) (g_tlist g)))
       (enumerate 0 (w_grp w)))"

lemma flowop_row_sum:
  assumes "summed c" and "c (empty_row (strlcpy UPERF_NAME_LEN (f_name f))) = 0"
  shows "c (flowop_row shm i t f) = sum_list (map c
    (filter (\<lambda>p. ns_type p = NSTAT_FLOWOP \<and> stat_key p = (of_nat i, t_txnid t, f_id f)) (entries shm)))"
  using assms by (simp add: flowop_row_def add_matching_sum stat_key_def)

lemma flowop_rows_by_key:
  assumes "summed c" and "\<And>x. c (empty_row x) = 0"
  shows "map c (flowop_rows shm w) = map (\<lambda>k. sum_list (map c
    (filter (\<lambda>p. ns_type p = NSTAT_FLOWOP \<and> stat_key p = k) (entries shm)))) (flowop_keys w)"
  unfolding flowop_rows_def flowop_keys_def
  by (simp add: map_concat comp_def split_beta flowop_row_sum [OF assms(1,2)])

lemma sum_by_key:
  assumes "distinct ks"
  shows "sum_list (map (\<lambda>k. sum_list (map c (filter (\<lambda>p. Q p \<and> key p = k) xs))) ks) =
    sum_list (map c (filter (\<lambda>p. Q p \<and> key p \<in> set ks) xs) :: u64 list)"
  using assms
proof (induction xs)
  case (Cons x xs)
  have "sum_list (map (\<lambda>k. (if Q x \<and> key x = k then c x else 0)) ks) = (if Q x \<and> key x \<in> set ks then c x else 0)"
    using Cons.prems
  proof (induction ks)
    case (Cons k ks)
    then show ?case by (cases "Q x \<and> key x = k") auto
  qed simp
  moreover have "sum_list (map (\<lambda>k. sum_list (map c (filter (\<lambda>p. Q p \<and> key p = k) (x # xs)))) ks) =
      sum_list (map (\<lambda>k. (if Q x \<and> key x = k then c x else 0)) ks) +
      sum_list (map (\<lambda>k. sum_list (map c (filter (\<lambda>p. Q p \<and> key p = k) xs))) ks)"
    by (simp add: sum_list_addf [symmetric] if_distrib cong: if_cong) (rule arg_cong [where f = sum_list], auto)
  ultimately show ?case using Cons by auto
qed (induction ks, simp_all)

text \<open>
  C33. The table of flowop averages accounts for everything that was counted: if no two flowops
  of the work order have the same group, transaction and flowop number, and every flowop counter
  carries the numbers of one of them, then the operations, bytes and time of its rows add up to
  those of all the flowop counters of all the strands.
\<close>

theorem flowop_rows_complete:
  assumes "distinct (flowop_keys w)"
    and "\<forall>p \<in> set (entries shm). ns_type p = NSTAT_FLOWOP \<longrightarrow> stat_key p \<in> set (flowop_keys w)"
    and "c \<in> {ns_count, ns_size, ns_time_used, ns_cpu_time}"
  shows "sum_list (map c (flowop_rows shm w)) =
    sum_list (map c (filter (\<lambda>p. ns_type p = NSTAT_FLOWOP) (entries shm)))"
proof -
  have c: "summed c" and z: "\<And>x. c (empty_row x) = 0"
    using assms(3) summed_counters by (auto simp: empty_row_def zero_stats_def)
  have "filter (\<lambda>p. ns_type p = NSTAT_FLOWOP \<and> stat_key p \<in> set (flowop_keys w)) (entries shm) =
      filter (\<lambda>p. ns_type p = NSTAT_FLOWOP) (entries shm)"
    using assms(2) by (intro filter_cong) auto
  then show ?thesis
    unfolding flowop_rows_by_key [OF c z] sum_by_key [OF assms(1)] by simp
qed

lemma group_row_flowops:
  assumes "summed c"
  shows "c (fold (\<lambda>f ns. add_matching P shm ns) fs ns) = c ns + of_nat (length fs) * sum_list (map c (filter P (entries shm)))"
proof (induction fs arbitrary: ns)
  case (Cons f fs)
  then show ?case by (simp add: add_matching_sum [OF assms] algebra_simps)
qed simp

text \<open>
  The group details count too much: the row of a group adds the flowop counters of a
  transaction once for every flowop the transaction has, so that its bytes and operations are
  those of each transaction multiplied by the number of its flowops.
\<close>

lemma group_details_overcount:
  assumes "c \<in> {ns_count, ns_size, ns_time_used, ns_cpu_time}"
  shows "c (group_row shm g) = sum_list (map (\<lambda>t. of_nat (length (t_flist t)) *
    sum_list (map c (filter (\<lambda>p. ns_type p = NSTAT_FLOWOP \<and> ns_gid p = g_groupid g \<and> ns_tid p = t_txnid t) (entries shm))))
      (g_tlist g))"
proof -
  have c: "summed c" and z: "\<And>x. c (empty_row x) = 0"
    using assms summed_counters by (auto simp: empty_row_def zero_stats_def)
  have rows: "c (fold (\<lambda>t ns. fold (\<lambda>f ns. add_matching (P t) shm ns) (t_flist t) ns) ts ns) =
      c ns + sum_list (map (\<lambda>t. of_nat (length (t_flist t)) * sum_list (map c (filter (P t) (entries shm)))) ts)" for P ts ns
    by (induction ts arbitrary: ns) (simp_all add: group_row_flowops [OF c] add.assoc)
  show ?thesis unfolding group_row_def
    by (subst rows) (simp add: z)
qed

section \<open>A run with two flowops\<close>

definition two_flowops :: workorder where
  "two_flowops = \<lparr>w_name = ''p'', w_grp = [zero_group\<lparr>g_tlist := [zero_txn\<lparr>t_txnid := 1,
     t_flist := [zero_flowop\<lparr>f_id := 0\<rparr>, zero_flowop\<lparr>f_id := 1\<rparr>]\<rparr>]\<rparr>]\<rparr>"

definition two_counters :: shm where
  "two_counters = (shm_init two_flowops)\<lparr>sh_nstat_count := 2,
     sh_nstats := [zero_stats\<lparr>ns_type := NSTAT_FLOWOP, ns_tid := 1, ns_size := 100\<rparr>,
                   zero_stats\<lparr>ns_type := NSTAT_FLOWOP, ns_tid := 1, ns_fid := 1, ns_size := 20\<rparr>]\<rparr>"

lemma two_entries:
  "entries two_counters = [zero_stats\<lparr>ns_type := NSTAT_FLOWOP, ns_tid := 1, ns_size := 100\<rparr>,
     zero_stats\<lparr>ns_type := NSTAT_FLOWOP, ns_tid := 1, ns_fid := 1, ns_size := 20\<rparr>]"
  by (simp add: entries_def two_counters_def)

lemma flowop_rows_complete_witness: "sum_list (map ns_size (flowop_rows two_counters two_flowops)) = 120"
proof -
  have k: "flowop_keys two_flowops = [(0, 1, 0), (0, 1, 1)]"
    by (simp add: flowop_keys_def two_flowops_def)
  have "sum_list (map ns_size (flowop_rows two_counters two_flowops)) =
      sum_list (map ns_size (filter (\<lambda>p. ns_type p = NSTAT_FLOWOP) (entries two_counters)))"
    by (rule flowop_rows_complete) (simp_all add: k two_entries stat_key_def zero_stats_def)
  then show ?thesis by (simp add: two_entries)
qed

lemma group_details_overcount_witness: "ns_size (group_row two_counters (hd (w_grp two_flowops))) = 240"
proof -
  have "ns_size \<in> {ns_count, ns_size, ns_time_used, ns_cpu_time}" by simp
  from group_details_overcount [OF this, of two_counters "hd (w_grp two_flowops)"]
  show ?thesis by (simp add: two_entries two_flowops_def zero_stats_def zero_group_def)
qed

end
