(* ===== verification/Netstat.thy ===== *)
theory Netstat
  imports Report
begin

text \<open>
  The traffic of the network interfaces during a run (\<open>src/netstat.c\<close>, as compiled for Linux):
  \<open>/proc/net/dev\<close> is read at the beginning and at the end, and the differences are printed. The
  text of the file is a parameter, \<open>None\<close> if it cannot be opened. The versions for other
  platforms are in \<open>Netstat_Bsd\<close>.
\<close>

section \<open>State\<close>

definition MAX_NETS :: nat where "MAX_NETS = 256"
definition INTERFACE_LEN :: nat where "INTERFACE_LEN = 32"
definition NETSTAT_SEP :: string where "NETSTAT_SEP = '' |:''"

record packet_stats =
  ps_tx_pkts :: u64
  ps_rx_pkts :: u64
  ps_tx_bytes :: u64
  ps_rx_bytes :: u64
  ps_stamp :: u64

record nic =
  nic_s0 :: packet_stats
  nic_s1 :: packet_stats
  nic_interface :: string

record columns =
  i_rbytes :: nat
  i_rpkts :: nat
  i_tbytes :: nat
  i_tpkts :: nat

definition zero_packets :: packet_stats where
  "zero_packets = \<lparr>ps_tx_pkts = 0, ps_rx_pkts = 0, ps_tx_bytes = 0, ps_rx_bytes = 0, ps_stamp = 0\<rparr>"

definition zero_columns :: columns where
  "zero_columns = \<lparr>i_rbytes = 0, i_rpkts = 0, i_tbytes = 0, i_tpkts = 0\<rparr>"

section \<open>Reading the file\<close>

definition fgets :: "nat \<Rightarrow> string \<Rightarrow> (string \<times> string) option" where
  \<comment> \<open>the line, or its first \<open>n - 1\<close> characters, and what is left of the file\<close>
  "fgets n s =
     (if s = [] then None
      else let a = takeWhile (\<lambda>c. c \<noteq> CHR 0x0A) s;
               line = take (n - 1) (if length a < length s then a @ [CHR 0x0A] else a)
           in Some (line, drop (length line) s))"

lemma fgets_less: "fgets n s = Some (l, r) \<Longrightarrow> 1 < n \<Longrightarrow> length r < length s"
proof -
  assume f: "fgets n s = Some (l, r)" and n: "1 < n"
  from f have s: "s \<noteq> []" by (auto simp: fgets_def)
  with f have l: "l = take (n - 1) (let a = takeWhile (\<lambda>c. c \<noteq> CHR 0x0A) s in if length a < length s then a @ [CHR 0x0A] else a)"
    and r: "r = drop (length l) s" by (auto simp: fgets_def Let_def)
  have "l \<noteq> []" using n s unfolding l by (cases s) (auto simp: Let_def)
  with s have "0 < length l" "0 < length s" by simp_all
  then show ?thesis unfolding r by simp
qed

function read_lines :: "string \<Rightarrow> string list" where
  \<comment> \<open>what a loop over \<open>fgets(buffer, 1024, f)\<close> sees\<close>
  "read_lines s = (case fgets 1024 s of None \<Rightarrow> [] | Some (l, r) \<Rightarrow> l # read_lines r)"
  by pat_completeness auto
termination by (relation "measure length") (auto dest: fgets_less)

declare read_lines.simps [simp del]

definition strtoull :: "string \<Rightarrow> u64" where
  \<comment> \<open>base 10, clamped; a minus sign negates the result\<close>
  "strtoull s =
     (let s1 = dropWhile c_isspace s;
          neg = (s1 \<noteq> [] \<and> hd s1 = CHR ''-'');
          s2 = (if s1 \<noteq> [] \<and> (hd s1 = CHR ''-'' \<or> hd s1 = CHR ''+'') then tl s1 else s1);
          v = dec_val (takeWhile c_isdigit s2)
      in if 2 ^ 64 \<le> v then - 1 else if neg then - of_nat v else of_nat v)"

section \<open>The header\<close>

fun header_columns :: "string list \<Rightarrow> nat \<Rightarrow> columns \<Rightarrow> columns" where
  "header_columns [] index c = c"
| "header_columns (t # ts) index c =
     header_columns ts (index + 1)
       (if t = ''packets'' then
          (if i_rpkts c = 0 then c\<lparr>i_rpkts := index\<rparr> else c\<lparr>i_tpkts := index\<rparr>)
        else if t = ''bytes'' then
          (if i_rbytes c = 0 then c\<lparr>i_rbytes := index\<rparr> else c\<lparr>i_tbytes := index\<rparr>)
        else c)"

definition netstat_init :: "string option \<Rightarrow> columns \<Rightarrow> int \<times> columns" where
  "netstat_init file c =
     (case file of
        None \<Rightarrow> (UPERF_FAILURE, c)
      | Some s \<Rightarrow>
          (case fgets 1024 s of
             None \<Rightarrow> (UPERF_FAILURE, zero_columns)
           | Some (_, s1) \<Rightarrow>
               (case fgets 1024 s1 of
                  None \<Rightarrow> (UPERF_FAILURE, zero_columns)
                | Some (line, _) \<Rightarrow>
                    let c1 = header_columns (strtok_all NETSTAT_SEP line) 0 zero_columns in
                    (if i_rpkts c1 = i_tpkts c1 \<or> i_rbytes c1 = i_tbytes c1 then UPERF_FAILURE else UPERF_SUCCESS, c1))))"

section \<open>A line per interface\<close>

fun parse_columns :: "columns \<Rightarrow> string list \<Rightarrow> nat \<Rightarrow> packet_stats \<Rightarrow> packet_stats" where
  "parse_columns c [] index ps = ps"
| "parse_columns c (t # ts) index ps =
     parse_columns c ts (index + 1)
       (if index = i_rbytes c then ps\<lparr>ps_rx_bytes := strtoull t\<rparr>
        else if index = i_tbytes c then ps\<lparr>ps_tx_bytes := strtoull t\<rparr>
        else if index = i_tpkts c then ps\<lparr>ps_tx_pkts := strtoull t\<rparr>
        else if index = i_rpkts c then ps\<lparr>ps_rx_pkts := strtoull t\<rparr>
        else ps)"

definition netstat_parse :: "columns \<Rightarrow> ('w \<Rightarrow> u64 \<times> 'w) \<Rightarrow> string \<Rightarrow> packet_stats \<Rightarrow> 'w \<Rightarrow> packet_stats \<times> 'w" where
  "netstat_parse c clk line ps w =
     (case clk w of (t, w1) \<Rightarrow>
        ((parse_columns c (strtok_all NETSTAT_SEP line) 0
            (ps\<lparr>ps_tx_pkts := 0, ps_rx_pkts := 0, ps_tx_bytes := 0, ps_rx_bytes := 0\<rparr>))\<lparr>ps_stamp := t\<rparr>, w1))"

definition find_nic :: "string \<Rightarrow> nic list \<Rightarrow> nat option" where
  \<comment> \<open>among the \<open>no_nics\<close> first; \<open>None\<close> is -1\<close>
  "find_nic name nics =
     (let i = length (takeWhile (\<lambda>n. \<not> strneq0 INTERFACE_LEN (nic_interface n) name) nics)
      in if i < length nics then Some i else None)"

text \<open>The list holds the \<open>no_nics\<close> entries of the array in use.\<close>

definition snap_line ::
  "columns \<Rightarrow> ('w \<Rightarrow> u64 \<times> 'w) \<Rightarrow> bool \<Rightarrow> string \<Rightarrow> nic list \<times> 'w \<Rightarrow> c_stop + nic list \<times> 'w" where
  \<comment> \<open>the flag: \<open>SNAP_BEGIN\<close>\<close>
  "snap_line c clk first line x =
     (case strtok_all NETSTAT_SEP line of
        [] \<Rightarrow> Inl Undefined
      | interface # _ \<Rightarrow>
          if first then
            (if MAX_NETS \<le> length (fst x) then Inl Undefined
             else case netstat_parse c clk line zero_packets (snd x) of (ps, w) \<Rightarrow>
               Inr (fst x @ [\<lparr>nic_s0 = ps, nic_s1 = zero_packets, nic_interface = take INTERFACE_LEN interface\<rparr>], w))
          else (case find_nic interface (fst x) of
                  None \<Rightarrow> Inr x
                | Some i \<Rightarrow>
                    (case netstat_parse c clk line (nic_s1 (fst x ! i)) (snd x) of (ps, w) \<Rightarrow>
                       Inr ((fst x)[i := (fst x ! i)\<lparr>nic_s1 := ps\<rparr>], w))))"

fun snap_lines ::
  "columns \<Rightarrow> ('w \<Rightarrow> u64 \<times> 'w) \<Rightarrow> bool \<Rightarrow> string list \<Rightarrow> nic list \<times> 'w \<Rightarrow> c_stop + nic list \<times> 'w" where
  "snap_lines c clk first [] x = Inr x"
| "snap_lines c clk first (l # ls) x = cbind (snap_line c clk first l x) (snap_lines c clk first ls)"

definition netstat_snap ::
  "string option \<Rightarrow> columns \<Rightarrow> ('w \<Rightarrow> u64 \<times> 'w) \<Rightarrow> bool \<Rightarrow> nic list \<times> 'w \<Rightarrow> c_stop + int \<times> nic list \<times> 'w" where
  "netstat_snap file c clk first x =
     (case file of
        None \<Rightarrow> Inr (UPERF_FAILURE, x)
      | Some s \<Rightarrow>
          (case fgets 1024 s of
             None \<Rightarrow> Inr (UPERF_FAILURE, x)
           | Some (_, s1) \<Rightarrow>
               (case fgets 1024 s1 of
                  None \<Rightarrow> Inr (UPERF_FAILURE, x)
                | Some (_, s2) \<Rightarrow> cbind (snap_lines c clk first (read_lines s2) x) (\<lambda>y. Inr (UPERF_SUCCESS, y)))))"

section \<open>Printing\<close>

definition print_nic :: "nic \<Rightarrow> c_stop + string" where
  "print_nic n =
     (let op = ps_tx_pkts (nic_s1 n) - ps_tx_pkts (nic_s0 n);
          ip = ps_rx_pkts (nic_s1 n) - ps_rx_pkts (nic_s0 n);
          ib = ps_rx_bytes (nic_s1 n) - ps_rx_bytes (nic_s0 n);
          ob = ps_tx_bytes (nic_s1 n) - ps_tx_bytes (nic_s0 n);
          t = d_div (d_u64 (ps_stamp (nic_s1 n) - ps_stamp (nic_s0 n))) (d_int 1000000000)
      in if ip = 0 \<and> op = 0 then Inr []
         else cbind (print_decimal (d_div (d_u64 (ob * 8)) t) 11 True) (\<lambda>a.
              cbind (print_decimal (d_div (d_u64 (ib * 8)) t) 11 True) (\<lambda>b.
                Inr (pad_right 5 (nic_interface n) @ ''  '' @ pad_left 10 (fmt_f 0 (d_div (d_u64 op) t)) @ ''  '' @
                     pad_left 10 (fmt_f 0 (d_div (d_u64 ip) t)) @ ''  '' @ a @ '' '' @ b @ ''\<newline>''))))"

fun print_nics :: "nic list \<Rightarrow> c_stop + string" where
  "print_nics [] = Inr []"
| "print_nics (n # ns) = cbind (print_nic n) (\<lambda>a. cbind (print_nics ns) (\<lambda>b. Inr (a @ b)))"

definition print_netstat :: "nat option \<Rightarrow> nic list \<Rightarrow> c_stop + string" where
  "print_netstat cols nics =
     cbind (print_nics nics) (\<lambda>s.
       Inr (''\<newline>Netstat statistics for this run\<newline>'' @ uperf_line cols @
            pad_right 5 ''Nic'' @ ''  '' @ pad_left 10 ''opkts/s'' @ ''  '' @ pad_left 10 ''ipkts/s'' @ ''  '' @
            pad_left 11 ''obits/s'' @ ''  '' @ pad_left 11 ''ibits/s'' @ ''\<newline>'' @ s @ uperf_line cols))"

section \<open>What a device file says\<close>

definition dev_header2 :: string where
  "dev_header2 = '' face |bytes    packets errs drop fifo frame compressed multicast|'' @
     ''bytes    packets errs drop fifo colls carrier compressed'' @ [CHR 0x0A]"

definition dev_header :: string where
  "dev_header = ''Inter-|   Receive                                                |  Transmit'' @ [CHR 0x0A] @ dev_header2"

definition dev_line :: "string \<times> nat list \<Rightarrow> string" where
  "dev_line d = pad_left 6 (fst d) @ '':'' @ concat (map (\<lambda>n. '' '' @ pad_left 7 (dec_nat n)) (snd d)) @ [CHR 0x0A]"

definition dev_file :: "(string \<times> nat list) list \<Rightarrow> string" where
  "dev_file ds = dev_header @ concat (map dev_line ds)"

definition dev_ok :: "string \<times> nat list \<Rightarrow> bool" where
  "dev_ok d = (fst d \<noteq> [] \<and> length (fst d) < INTERFACE_LEN \<and> list_all (\<lambda>c. c \<notin> set NETSTAT_SEP \<and> c \<noteq> CHR 0x0A) (fst d) \<and>
     length (snd d) = 16 \<and> list_all (\<lambda>n. n < 2 ^ 64) (snd d))"

definition dev_columns :: columns where
  "dev_columns = \<lparr>i_rbytes = 1, i_rpkts = 2, i_tbytes = 9, i_tpkts = 10\<rparr>"

definition packets :: "packet_stats \<Rightarrow> nat \<times> nat \<times> nat \<times> nat" where
  "packets ps = (unat (ps_rx_bytes ps), unat (ps_rx_pkts ps), unat (ps_tx_bytes ps), unat (ps_tx_pkts ps))"

definition dev_packets :: "nat list \<Rightarrow> nat \<times> nat \<times> nat \<times> nat" where
  "dev_packets fs = (fs ! 0, fs ! 1, fs ! 8, fs ! 9)"

lemma fgets_line:
  "CHR 0x0A \<notin> set l \<Longrightarrow> length l + 1 < n \<Longrightarrow> fgets n (l @ CHR 0x0A # r) = Some (l @ [CHR 0x0A], r)"
proof -
  assume l: "CHR 0x0A \<notin> set l" and n: "length l + 1 < n"
  have "takeWhile (\<lambda>c. c \<noteq> CHR 0x0A) (l @ CHR 0x0A # r) = l" using l by (induction l) auto
  with n show ?thesis by (simp add: fgets_def)
qed

lemma dec_nat_no_sep: "set (dec_nat n) \<inter> set NETSTAT_SEP = {}" "CHR 0x0A \<notin> set (dec_nat n)"
  by (auto simp: NETSTAT_SEP_def c_isdigit_def c_code_def dest!: dec_nat_digits)

lemma strtoull_dec_nat: "n < 2 ^ 64 \<Longrightarrow> no_digit_first t \<Longrightarrow> strtoull (dec_nat n @ t) = of_nat n"
proof -
  assume n: "n < 2 ^ 64" and t: "no_digit_first t"
  obtain c cs where c: "dec_nat n = c # cs" using dec_nat_nonempty [of n] by (cases "dec_nat n") auto
  have "c_isdigit c" by (rule dec_nat_digits [where n = n]) (simp add: c)
  with digit_no_space [of c] c have d: "dropWhile c_isspace (dec_nat n @ t) = dec_nat n @ t"
    and h: "hd (dec_nat n @ t) \<noteq> CHR ''-''" "hd (dec_nat n @ t) \<noteq> CHR ''+''" by simp_all
  from n h digits_split [OF t, of n] show ?thesis by (simp add: strtoull_def d Let_def)
qed

section \<open>One line\<close>

fun field_tokens :: "nat list \<Rightarrow> string list" where
  "field_tokens [] = []"
| "field_tokens [n] = [dec_nat n @ [CHR 0x0A]]"
| "field_tokens (n # m # ns) = dec_nat n # field_tokens (m # ns)"

definition fields_text :: "nat list \<Rightarrow> string" where
  "fields_text fs = concat (map (\<lambda>n. '' '' @ pad_left 7 (dec_nat n)) fs) @ [CHR 0x0A]"

lemma blanks_in_sep: "set (replicate k CHR '' '') \<subseteq> set NETSTAT_SEP" "CHR '' '' \<in> set NETSTAT_SEP"
  "CHR '':'' \<in> set NETSTAT_SEP" "CHR 0x0A \<notin> set NETSTAT_SEP"
  by (auto simp: NETSTAT_SEP_def)

lemma fields_tokens: "fs \<noteq> [] \<Longrightarrow> strtok_all NETSTAT_SEP (fields_text fs) = field_tokens fs"
proof (induction fs rule: field_tokens.induct)
  case (2 n)
  have "strtok_all NETSTAT_SEP (fields_text [n]) = strtok_all NETSTAT_SEP (dec_nat n @ [CHR 0x0A])"
    using strtok_all_skip [of "'' '' @ replicate (7 - length (dec_nat n)) CHR '' ''" NETSTAT_SEP "dec_nat n @ [CHR 0x0A]"] blanks_in_sep
    by (simp add: fields_text_def pad_left_def)
  also have "\<dots> = [dec_nat n @ [CHR 0x0A]]"
    using dec_nat_no_sep [of n] blanks_in_sep by (intro strtok_all_last) auto
  finally show ?case by simp
next
  case (3 n m ns)
  have "strtok_all NETSTAT_SEP (fields_text (n # m # ns)) = strtok_all NETSTAT_SEP (dec_nat n @ fields_text (m # ns))"
    using strtok_all_skip [of "'' '' @ replicate (7 - length (dec_nat n)) CHR '' ''" NETSTAT_SEP "dec_nat n @ fields_text (m # ns)"] blanks_in_sep
    by (simp add: fields_text_def pad_left_def)
  also have "fields_text (m # ns) = CHR '' '' # tl (fields_text (m # ns))" by (simp add: fields_text_def)
  also have "strtok_all NETSTAT_SEP (dec_nat n @ CHR '' '' # tl (fields_text (m # ns))) = dec_nat n # strtok_all NETSTAT_SEP (tl (fields_text (m # ns)))"
    using dec_nat_no_sep [of n] blanks_in_sep by (intro strtok_all_word) auto
  also have "strtok_all NETSTAT_SEP (tl (fields_text (m # ns))) = strtok_all NETSTAT_SEP (fields_text (m # ns))"
    using strtok_all_skip [of "'' ''" NETSTAT_SEP "tl (fields_text (m # ns))"] blanks_in_sep by (simp add: fields_text_def)
  finally show ?case using 3 by simp
qed simp

lemma dev_okD:
  assumes "dev_ok d"
  shows "fst d \<noteq> []" "set (fst d) \<inter> set NETSTAT_SEP = {}" "length (snd d) = 16" "list_all (\<lambda>n. n < 2 ^ 64) (snd d)"
    "length (fst d) < INTERFACE_LEN" "CHR 0x0A \<notin> set (fst d)"
proof -
  have a: "fst d \<noteq> []" "length (snd d) = 16" "list_all (\<lambda>n. n < 2 ^ 64) (snd d)" "length (fst d) < INTERFACE_LEN"
    and b: "\<forall>c \<in> set (fst d). c \<notin> set NETSTAT_SEP \<and> c \<noteq> CHR 0x0A"
    using assms unfolding dev_ok_def list_all_iff by blast+
  show "fst d \<noteq> []" "length (snd d) = 16" "list_all (\<lambda>n. n < 2 ^ 64) (snd d)" "length (fst d) < INTERFACE_LEN" by (rule a)+
  show "set (fst d) \<inter> set NETSTAT_SEP = {}" "CHR 0x0A \<notin> set (fst d)" using b by (simp_all only: disjoint_iff) blast+
qed

lemma line_tokens:
  assumes "dev_ok d"
  shows "strtok_all NETSTAT_SEP (dev_line d) = fst d # field_tokens (snd d)"
proof -
  note f = dev_okD [OF assms]
  have "strtok_all NETSTAT_SEP (dev_line d) = strtok_all NETSTAT_SEP (fst d @ CHR '':'' # fields_text (snd d))"
    using strtok_all_skip [OF blanks_in_sep(1), of "6 - length (fst d)" "fst d @ CHR '':'' # fields_text (snd d)"]
    by (simp add: dev_line_def pad_left_def fields_text_def)
  also have "\<dots> = fst d # strtok_all NETSTAT_SEP (fields_text (snd d))"
    using f(1,2) blanks_in_sep(3) by (rule strtok_all_word)
  finally show ?thesis using fields_tokens [of "snd d"] f(3) by fastforce
qed

lemma length_16: "length fs = 16 \<Longrightarrow>
  \<exists>a b c d e f g h i j k l m n p q. fs = [a, b, c, d, e, f, g, h, i, j, k, l, m, n, p, q]"
  by (simp add: numeral_eq_Suc length_Suc_conv) blast

lemma parse_fields:
  assumes "dev_ok d"
  shows "packets (parse_columns dev_columns (fst d # field_tokens (snd d)) 0 ps) = dev_packets (snd d)"
proof -
  note l = dev_okD(3) [OF assms] and s = dev_okD(4) [OF assms]
  then obtain a b c e f g h i j k l m n p q r where d: "snd d = [a, b, c, e, f, g, h, i, j, k, l, m, n, p, q, r]"
    using length_16 [OF l] by (elim exE) (rule that)
  have v: "x < 2 ^ 64 \<Longrightarrow> strtoull (dec_nat x) = of_nat x" for x
    using strtoull_dec_nat [of x "[]"] by (simp add: no_digit_first_def)
  show ?thesis using s unfolding d
    by (simp add: dev_columns_def packets_def dev_packets_def v unat_of_nat)
qed

lemma file_after_headers:
  "\<exists>l1 s1. fgets 1024 (dev_file ds) = Some (l1, s1) \<and>
     fgets 1024 s1 = Some (dev_header2, concat (map dev_line ds))"
proof -
  let ?h1 = "''Inter-|   Receive                                                |  Transmit''"
  let ?h2 = "'' face |bytes    packets errs drop fifo frame compressed multicast|'' @
     ''bytes    packets errs drop fifo colls carrier compressed''"
  let ?r = "concat (map dev_line ds)"
  have "fgets 1024 (?h1 @ CHR 0x0A # ?h2 @ CHR 0x0A # ?r) = Some (?h1 @ [CHR 0x0A], ?h2 @ CHR 0x0A # ?r)"
    by (rule fgets_line) simp_all
  moreover have "fgets 1024 (?h2 @ CHR 0x0A # ?r) = Some (?h2 @ [CHR 0x0A], ?r)" by (rule fgets_line) simp_all
  moreover have "dev_file ds = ?h1 @ CHR 0x0A # ?h2 @ CHR 0x0A # ?r" "dev_header2 = ?h2 @ [CHR 0x0A]"
    by (simp_all only: dev_file_def dev_header_def dev_header2_def append_assoc append_Cons append_Nil)
  ultimately show ?thesis by metis
qed

lemma header_read: "netstat_init (Some (dev_file ds)) c = (UPERF_SUCCESS, dev_columns)"
proof -
  have "header_columns (strtok_all NETSTAT_SEP dev_header2) 0 zero_columns = dev_columns" by code_simp
  then show ?thesis using file_after_headers [of ds]
    by (auto simp: netstat_init_def dev_columns_def)
qed

lemma fields_length: "list_all (\<lambda>n. n < 2 ^ 64) fs \<Longrightarrow> length (fields_text fs) \<le> 21 * length fs + 1 \<and>
    CHR 0x0A \<notin> set (butlast (fields_text fs))"
proof (induction fs)
  case (Cons n fs)
  then have "n < 10 ^ 20" by simp
  then have "length (dec_nat n) \<le> 20" by (rule length_dec_nat) simp
  with Cons show ?case using dec_nat_no_sep(2) [of n] by (auto simp: fields_text_def pad_left_def butlast_append)
qed (simp add: fields_text_def)

lemma dev_line_read:
  assumes "dev_ok d"
  shows "fgets 1024 (dev_line d @ r) = Some (dev_line d, r)"
proof -
  let ?l = "pad_left 6 (fst d) @ '':'' @ butlast (fields_text (snd d))"
  have l: "dev_line d = ?l @ [CHR 0x0A]" by (simp add: dev_line_def fields_text_def butlast_append)
  note ok = dev_okD [OF assms] and f = fields_length [OF dev_okD(4) [OF assms]]
  have "length (pad_left 6 (fst d)) \<le> 37" using ok(5) by (simp add: pad_left_def INTERFACE_LEN_def)
  moreover have "length (fields_text (snd d)) \<le> 337" using f ok(3) by simp
  ultimately have "length ?l + 1 < 1024" by simp
  moreover have "CHR 0x0A \<notin> set ?l" using ok(6) f by (auto simp: pad_left_def)
  ultimately show ?thesis unfolding l using fgets_line [of ?l 1024 r] by simp
qed

lemma dev_lines_read: "list_all dev_ok ds \<Longrightarrow> read_lines (concat (map dev_line ds)) = map dev_line ds"
proof (induction ds)
  case Nil
  show ?case by (subst read_lines.simps) (simp add: fgets_def)
next
  case (Cons d ds)
  then show ?case by (subst read_lines.simps) (simp add: dev_line_read)
qed

section \<open>Snapshots\<close>

definition view :: "nic \<Rightarrow> string \<times> (nat \<times> nat \<times> nat \<times> nat) \<times> (nat \<times> nat \<times> nat \<times> nat)" where
  "view n = (nic_interface n, packets (nic_s0 n), packets (nic_s1 n))"

lemma packets_stamp [simp]: "packets (ps\<lparr>ps_stamp := u\<rparr>) = packets ps"
  by (simp add: packets_def)

lemma line_parsed:
  assumes "dev_ok d"
  obtains ps' w' where "netstat_parse dev_columns clk (dev_line d) ps w = (ps', w')" "packets ps' = dev_packets (snd d)"
proof -
  obtain u w' where c: "clk w = (u, w')" by (cases "clk w")
  have "netstat_parse dev_columns clk (dev_line d) ps w =
    ((parse_columns dev_columns (fst d # field_tokens (snd d)) 0
       (ps\<lparr>ps_tx_pkts := 0, ps_rx_pkts := 0, ps_tx_bytes := 0, ps_rx_bytes := 0\<rparr>))\<lparr>ps_stamp := u\<rparr>, w')"
    by (simp only: netstat_parse_def c prod.case line_tokens [OF assms])
  then show thesis by (rule that) (simp only: packets_stamp parse_fields [OF assms])
qed

lemma snap_begin_lines:
  "list_all dev_ok ds \<Longrightarrow> length nics + length ds \<le> MAX_NETS \<Longrightarrow>
   \<exists>ns w'. snap_lines dev_columns clk True (map dev_line ds) (nics, w) = Inr (nics @ ns, w') \<and>
     map view ns = map (\<lambda>d. (fst d, dev_packets (snd d), packets zero_packets)) ds"
proof (induction ds arbitrary: nics w)
  case (Cons d ds)
  then have d: "dev_ok d" by simp
  obtain ps w1 where p: "netstat_parse dev_columns clk (dev_line d) zero_packets w = (ps, w1)"
    and v: "packets ps = dev_packets (snd d)" by (rule line_parsed [OF d])
  let ?n = "\<lparr>nic_s0 = ps, nic_s1 = zero_packets, nic_interface = take INTERFACE_LEN (fst d)\<rparr>"
  have "snap_line dev_columns clk True (dev_line d) (nics, w) = Inr (nics @ [?n], w1)"
    using Cons.prems by (simp add: snap_line_def line_tokens [OF d] p)
  moreover obtain ns w2 where "snap_lines dev_columns clk True (map dev_line ds) (nics @ [?n], w1) = Inr ((nics @ [?n]) @ ns, w2)"
    and "map view ns = map (\<lambda>d. (fst d, dev_packets (snd d), packets zero_packets)) ds"
    using Cons.IH [of "nics @ [?n]" w1] Cons.prems by auto
  moreover have "view ?n = (fst d, dev_packets (snd d), packets zero_packets)"
    using v dev_okD(5) [OF d] by (simp add: view_def)
  ultimately show ?case by (intro exI [of _ "?n # ns"] exI [of _ w2]) simp
qed simp

definition seen_after :: "(string \<times> nat list) list \<Rightarrow> string \<times> 'a \<times> (nat \<times> nat \<times> nat \<times> nat) \<Rightarrow> string \<times> 'a \<times> (nat \<times> nat \<times> nat \<times> nat)" where
  "seen_after ds = (\<lambda>(name, a, b). (name, a, case map_of ds name of None \<Rightarrow> b | Some fs \<Rightarrow> dev_packets fs))"

definition short_names :: "nic list \<Rightarrow> bool" where
  "short_names nics = (distinct (map nic_interface nics) \<and> list_all (\<lambda>s. length s < INTERFACE_LEN) (map nic_interface nics))"

lemma find_nic_None:
  assumes "short_names nics" and "length name < INTERFACE_LEN" and "find_nic name nics = None"
  shows "\<forall>n \<in> set nics. nic_interface n \<noteq> name"
proof -
  let ?P = "\<lambda>n. \<not> strneq0 INTERFACE_LEN (nic_interface n) name"
  have "\<not> length (takeWhile ?P nics) < length nics" using assms(3) by (simp add: find_nic_def Let_def split: if_splits)
  then have "\<forall>n \<in> set nics. ?P n" using takeWhile_short [of nics ?P] by blast
  then show ?thesis by (auto simp: strneq0_def)
qed

lemma find_nic_Some:
  assumes "short_names nics" and "length name < INTERFACE_LEN" and "find_nic name nics = Some i"
  shows "i < length nics" and "nic_interface (nics ! i) = name"
proof -
  let ?P = "\<lambda>n. \<not> strneq0 INTERFACE_LEN (nic_interface n) name"
  from assms(3) have i: "i = length (takeWhile ?P nics)" and l: "i < length nics"
    by (auto simp: find_nic_def Let_def split: if_splits)
  have "\<not> ?P (nics ! i)" using nth_length_takeWhile [of ?P nics] i l by simp
  moreover have "length (nic_interface (nics ! i)) < INTERFACE_LEN" using assms(1) l by (simp add: short_names_def list_all_length)
  ultimately show "i < length nics" "nic_interface (nics ! i) = name" using l assms(2) by (simp_all add: strneq0_def)
qed

lemma snap_end_line:
  assumes d: "dev_ok d" and n: "short_names nics"
  obtains ns w' where "snap_line dev_columns clk False (dev_line d) (nics, w) = Inr (ns, w')"
    and "map view ns = map (seen_after [d]) (map view nics)"
proof (cases "find_nic (fst d) nics")
  case None
  then have "\<forall>n \<in> set nics. nic_interface n \<noteq> fst d" by (rule find_nic_None [OF n dev_okD(5) [OF d]])
  then have "\<forall>n \<in> set nics. seen_after [d] (view n) = view n" by (simp add: seen_after_def view_def)
  then have "map view nics = map (seen_after [d]) (map view nics)" by simp
  moreover have "snap_line dev_columns clk False (dev_line d) (nics, w) = Inr (nics, w)"
    using None by (simp add: snap_line_def line_tokens [OF d])
  ultimately show thesis using that by blast
next
  case (Some i)
  note i = find_nic_Some [OF n dev_okD(5) [OF d] Some]
  obtain ps w1 where p: "netstat_parse dev_columns clk (dev_line d) (nic_s1 (nics ! i)) w = (ps, w1)"
    and v: "packets ps = dev_packets (snd d)" by (rule line_parsed [OF d])
  let ?ns = "nics[i := (nics ! i)\<lparr>nic_s1 := ps\<rparr>]"
  have "snap_line dev_columns clk False (dev_line d) (nics, w) = Inr (?ns, w1)"
    using Some by (simp add: snap_line_def line_tokens [OF d] p)
  moreover have "map view ?ns = map (seen_after [d]) (map view nics)"
  proof (rule nth_equalityI)
    fix j assume "j < length (map view ?ns)"
    then have j: "j < length nics" by simp
    have "j \<noteq> i \<Longrightarrow> nic_interface (nics ! j) \<noteq> fst d"
      using n i j nth_eq_iff_index_eq [of "map nic_interface nics" j i] by (simp add: short_names_def)
    then show "map view ?ns ! j = map (seen_after [d]) (map view nics) ! j"
      using i j v by (cases "j = i") (simp_all add: view_def seen_after_def)
  qed simp
  ultimately show thesis by (rule that)
qed

lemma seen_after_Cons: "fst d \<notin> fst ` set ds \<Longrightarrow> seen_after (d # ds) x = seen_after ds (seen_after [d] x)"
proof -
  assume "fst d \<notin> fst ` set ds"
  then have "map_of ds (fst d) = None" by (simp add: map_of_eq_None_iff)
  then show ?thesis by (cases x) (auto simp: seen_after_def split: option.split)
qed

lemma view_names: "map view ns = map (seen_after ds) (map view ms) \<Longrightarrow> map nic_interface ns = map nic_interface ms"
proof -
  assume "map view ns = map (seen_after ds) (map view ms)"
  then have "map (fst \<circ> view) ns = map (fst \<circ> (seen_after ds \<circ> view)) ms" by (metis map_map)
  moreover have "fst \<circ> view = nic_interface" "fst \<circ> (seen_after ds \<circ> view) = nic_interface"
    by (auto simp: view_def seen_after_def)
  ultimately show ?thesis by simp
qed

lemma short_names_map: "map nic_interface ns = map nic_interface ms \<Longrightarrow> short_names ns = short_names ms"
  by (simp add: short_names_def)

lemma snap_end_lines:
  "list_all dev_ok ds \<Longrightarrow> distinct (map fst ds) \<Longrightarrow> short_names nics \<Longrightarrow>
   \<exists>ns w'. snap_lines dev_columns clk False (map dev_line ds) (nics, w) = Inr (ns, w') \<and>
     map view ns = map (seen_after ds) (map view nics)"
proof (induction ds arbitrary: nics w)
  case Nil
  show ?case by (simp add: seen_after_def)
next
  case (Cons d ds)
  then have d: "dev_ok d" by simp
  obtain ms w1 where m: "snap_line dev_columns clk False (dev_line d) (nics, w) = Inr (ms, w1)"
    and v: "map view ms = map (seen_after [d]) (map view nics)" by (rule snap_end_line [OF d Cons.prems(3)])
  have "short_names ms" using Cons.prems(3) short_names_map [OF view_names [OF v]] by simp
  then obtain ns w2 where "snap_lines dev_columns clk False (map dev_line ds) (ms, w1) = Inr (ns, w2)"
    and "map view ns = map (seen_after ds) (map view ms)" using Cons.IH [of ms w1] Cons.prems by auto
  moreover have "seen_after (d # ds) x = seen_after ds (seen_after [d] x)" for x :: "string \<times> (nat \<times> nat \<times> nat \<times> nat) \<times> (nat \<times> nat \<times> nat \<times> nat)"
    using Cons.prems(2) by (intro seen_after_Cons) simp
  ultimately show ?case using m v by (intro exI [of _ ns] exI [of _ w2]) simp
qed

lemma snap_file:
  assumes "list_all dev_ok ds" and "snap_lines c clk first (map dev_line ds) x = Inr (ns, w')"
  shows "netstat_snap (Some (dev_file ds)) c clk first x = Inr (UPERF_SUCCESS, ns, w')"
proof -
  obtain l1 s1 where "fgets 1024 (dev_file ds) = Some (l1, s1)"
    and "fgets 1024 s1 = Some (dev_header2, concat (map dev_line ds))" using file_after_headers [of ds] by blast
  then show ?thesis by (simp add: netstat_snap_def dev_lines_read [OF assms(1)] assms(2))
qed


definition lab_devs :: "(string \<times> nat list) list" where
  "lab_devs = [(''lo'', [5, 5, 0, 0, 0, 0, 0, 0, 5, 5, 0, 0, 0, 0, 0, 0]), (''eth0'', [1000, 10, 0, 0, 0, 0, 0, 0, 2000, 20, 0, 0, 0, 0, 0, 0])]"

definition lab_devs_later :: "(string \<times> nat list) list" where
  "lab_devs_later = [(''wlan0'', [7, 7, 0, 0, 0, 0, 0, 0, 7, 7, 0, 0, 0, 0, 0, 0]), (''eth0'', [1500, 15, 0, 0, 0, 0, 0, 0, 2900, 29, 0, 0, 0, 0, 0, 0])]"


end
