(* ===== verification/Startup.thy ===== *)
theory Startup
  imports Netstat
begin

text \<open>
  The start of the program (\<open>src/main.c\<close>, \<open>src/main.h\<close>): the command line is turned into
  \<open>options\<close>, a master's profile is read, and the slave or the master is run. \<open>getopt\<close> is the
  C library's, which takes options wherever they stand. The parameters are how the program was
  built, the environment, whether a file can be opened for writing, what the hardware
  counters say of two events, and what \<open>netstat_init\<close> reads. Usage, version and messages
  are printed only and left out, as are Android's alarm and its wake lock.
\<close>

section \<open>\<open>getopt\<close>\<close>

record optch =
  oc_ch :: char
  oc_arg :: "string option"   \<comment> \<open>\<open>optarg\<close>\<close>
  oc_opt :: char              \<comment> \<open>\<open>optopt\<close>\<close>

fun takes_arg :: "string \<Rightarrow> char \<Rightarrow> bool option" where
  \<comment> \<open>whether an option has an argument; \<open>None\<close>: there is no such option\<close>
  "takes_arg [] c = None"
| "takes_arg (x # xs) c =
     (if x = c \<and> c \<noteq> CHR '':'' then Some (xs \<noteq> [] \<and> hd xs = CHR '':'') else takes_arg xs c)"

fun word_opts :: "string \<Rightarrow> string \<Rightarrow> string option \<Rightarrow> optch list \<times> bool" where
  \<comment> \<open>the options in one word, and whether the next word is the last one's argument\<close>
  "word_opts spec [] nxt = ([], False)"
| "word_opts spec (c # cs) nxt =
     (case takes_arg spec c of
        Some True \<Rightarrow>
          if cs \<noteq> [] then ([\<lparr>oc_ch = c, oc_arg = Some cs, oc_opt = c\<rparr>], False)
          else (case nxt of
                  Some a \<Rightarrow> ([\<lparr>oc_ch = c, oc_arg = Some a, oc_opt = c\<rparr>], True)
                | None \<Rightarrow> ([\<lparr>oc_ch = CHR ''?'', oc_arg = None, oc_opt = c\<rparr>], False))
      | k \<Rightarrow> (case word_opts spec cs nxt of (os, used) \<Rightarrow>
                (\<lparr>oc_ch = (if k = None then CHR ''?'' else c), oc_arg = None, oc_opt = c\<rparr> # os, used)))"

definition is_option_word :: "string \<Rightarrow> bool" where
  "is_option_word w = (1 < length w \<and> hd w = CHR ''-'')"

fun getopt_all :: "string \<Rightarrow> string list \<Rightarrow> optch list" where
  \<comment> \<open>what a loop over \<open>getopt(argc, argv, spec)\<close> sees\<close>
  "getopt_all spec [] = []"
| "getopt_all spec [w] =
     (if w \<noteq> ''--'' \<and> is_option_word w then fst (word_opts spec (tl w) None) else [])"
| "getopt_all spec (w # v # ws) =
     (if w = ''--'' then []
      else if is_option_word w then
        (case word_opts spec (tl w) (Some v) of (os, used) \<Rightarrow>
           os @ (if used then getopt_all spec ws else getopt_all spec (v # ws)))
      else getopt_all spec (v # ws))"

section \<open>\<open>options\<close>\<close>

definition UPERF_MASTER :: u32 where "UPERF_MASTER = 1"
definition UPERF_SLAVE :: u32 where "UPERF_SLAVE = 2"
definition CPUCOUNTER_STATS :: u32 where "CPUCOUNTER_STATS = 4"
definition MASTER_PORT :: int where "MASTER_PORT = 20000"
definition PATH_MAX :: nat where "PATH_MAX = 4096"

record options =
  op_master_port :: int
  op_run_choice :: u32
  op_app_profile_name :: string
  op_history_fd :: "string option"   \<comment> \<open>the file that is open\<close>
  op_xfile :: string
  op_ev1 :: "string option"
  op_ev2 :: "string option"
  op_copt :: u32
  op_interval :: u64
  op_control_proto :: u32
  op_level :: log_level              \<comment> \<open>\<open>log_level\<close> of the log\<close>

record startcfg =
  sc_build :: build_config
  sc_cpc :: bool          \<comment> \<open>\<open>USE_CPC\<close>\<close>
  sc_slave_only :: bool   \<comment> \<open>\<open>UPERF_SLAVE_ONLY\<close>\<close>
  sc_netstat :: bool      \<comment> \<open>\<open>ENABLE_NETSTAT\<close>\<close>
  sc_env :: "string \<Rightarrow> string option"
  sc_fopen :: "string \<Rightarrow> bool"
  sc_events :: "string \<Rightarrow> string \<Rightarrow> int"

definition GETOPT :: string where "GETOPT = ''E:epTgtfknasm:X:i:P:S:RvVh''"

definition initial_options :: options where
  "initial_options = \<lparr>op_master_port = MASTER_PORT, op_run_choice = 0, op_app_profile_name = [],
     op_history_fd = None, op_xfile = [], op_ev1 = None, op_ev2 = None,
     op_copt = 0 OR ERROR_STATS OR PACKET_STATS, op_interval = 1000, op_control_proto = PROTOCOL_TCP,
     op_level = snd (uperf_set_log_level UPERF_NONVERBOSE UPERF_NONVERBOSE)\<rparr>"

definition or_copt :: "u32 list \<Rightarrow> options \<Rightarrow> options" where
  "or_copt fs o' = o'\<lparr>op_copt := fold (\<lambda>f c. c OR f) fs (op_copt o')\<rparr>"

text \<open>The counters \<open>oserver\<close>, \<open>oclient\<close> and \<open>ofile\<close> go along with the options.\<close>

type_synonym parsing = "options \<times> nat \<times> nat \<times> nat"

definition event_option :: "startcfg \<Rightarrow> string \<Rightarrow> options \<Rightarrow> c_stop + options" where
  \<comment> \<open>\<open>-E\<close>\<close>
  "event_option sc a o' =
     (case strtok '','' a of
        None \<Rightarrow> Inl (Exited 1)
      | Some (ev1, r) \<Rightarrow>
          (case strtok '','' r of
             None \<Rightarrow> Inl (Exited 1)
           | Some (ev2, _) \<Rightarrow>
               if sc_events sc ev1 ev2 \<noteq> 0 then Inl (Exited 1)
               else Inr (or_copt [CPUCOUNTER_STATS, FLOWOP_STATS] (o'\<lparr>op_ev1 := Some ev1, op_ev2 := Some ev2\<rparr>))))"

definition history_option :: "startcfg \<Rightarrow> string \<Rightarrow> options \<Rightarrow> c_stop + options" where
  \<comment> \<open>\<open>-X\<close>\<close>
  "history_option sc a o' =
     (let o1 = (or_copt [HISTORY_STATS] o')\<lparr>op_xfile := strlcpy PATH_MAX a\<rparr> in
      if sc_fopen sc a then Inr (o1\<lparr>op_history_fd := Some a\<rparr>) else Inl (Exited 1))"

definition interval_option :: "startcfg \<Rightarrow> string \<Rightarrow> options \<Rightarrow> c_stop + options" where
  \<comment> \<open>\<open>-i\<close>: the \<open>double\<close> is cut to an integer\<close>
  "interval_option sc a o' =
     cbind (string_to_nsec (sc_env sc) a) (\<lambda>t.
       let o1 = o'\<lparr>op_interval := of_nat (fl_div (dbl (unat t)) 1000000)\<rparr> in
       if op_interval o1 = 0 then Inl (Exited 1) else Inr o1)"

definition protocol_option :: "startcfg \<Rightarrow> string \<Rightarrow> options \<Rightarrow> c_stop + options" where
  \<comment> \<open>\<open>-S\<close>\<close>
  "protocol_option sc a o' =
     (let o1 = o'\<lparr>op_control_proto := protocol_type (sc_build sc) a\<rparr> in
      if op_control_proto o1 = PROTOCOL_UNSUPPORTED then Inl (Exited 1) else Inr o1)"

definition on_options :: "(options \<Rightarrow> c_stop + options) \<Rightarrow> parsing \<Rightarrow> c_stop + parsing" where
  "on_options f x = cbind (f (fst x)) (\<lambda>o'. Inr (o', snd x))"

definition set_flags :: "u32 list \<Rightarrow> parsing \<Rightarrow> c_stop + parsing" where
  "set_flags fs x = Inr (or_copt fs (fst x), snd x)"

definition one_option :: "startcfg \<Rightarrow> optch \<Rightarrow> parsing \<Rightarrow> c_stop + parsing" where
  \<comment> \<open>the \<open>switch\<close>; \<open>getopt\<close> has an argument for every option that takes one\<close>
  "one_option sc oc x =
     (let ch = oc_ch oc; arg = (case oc_arg oc of None \<Rightarrow> [] | Some a \<Rightarrow> a) in
      if ch = CHR ''E'' then (if sc_cpc sc then on_options (event_option sc arg) x else Inr x)
      else if ch = CHR ''e'' then (if sc_cpc sc then set_flags [CPUCOUNTER_STATS, FLOWOP_STATS] x else Inr x)
      else if ch = CHR ''p'' then set_flags [UTILIZATION_STATS, FLOWOP_STATS] x
      else if ch = CHR ''T'' then set_flags [THREAD_STATS] x
      else if ch = CHR ''g'' then set_flags [GROUP_STATS] x
      else if ch = CHR ''t'' then set_flags [TXN_STATS] x
      else if ch = CHR ''f'' then set_flags [FLOWOP_STATS] x
      else if ch = CHR ''k'' then set_flags [PACKET_STATS] x
      else if ch = CHR ''n'' then set_flags [NO_STATS] ((fst x)\<lparr>op_copt := 0\<rparr>, snd x)
      else if ch = CHR ''a'' then
        set_flags [FLOWOP_STATS, TXN_STATS, PACKET_STATS, THREAD_STATS, ERROR_STATS, GROUP_STATS] x
      else if ch = CHR ''s'' then
        (case x of (o', oserver, oclient, ofile) \<Rightarrow>
           Inr (o'\<lparr>op_run_choice := op_run_choice o' OR UPERF_SLAVE\<rparr>, oserver + 1, oclient, ofile))
      else if ch = CHR ''m'' then
        (if sc_slave_only sc then Inr x
         else case x of (o', oserver, oclient, ofile) \<Rightarrow>
           Inr (o'\<lparr>op_run_choice := op_run_choice o' OR UPERF_MASTER, op_app_profile_name := strlcpy PATH_MAX arg\<rparr>,
                oserver, oclient + 1, ofile + 1))
      else if ch = CHR ''X'' then on_options (history_option sc arg) x
      else if ch = CHR ''i'' then on_options (interval_option sc arg) x
      else if ch = CHR ''P'' then
        on_options (\<lambda>o'. cbind (string_to_int (sc_env sc) arg) (\<lambda>n. Inr (o'\<lparr>op_master_port := n\<rparr>))) x
      else if ch = CHR ''S'' then on_options (protocol_option sc arg) x
      else if ch = CHR ''R'' then set_flags [RAW_STATS] x
      else if ch = CHR ''v'' then 
        Inr ((fst x)\<lparr>op_level := snd (uperf_set_log_level UPERF_VERBOSE (op_level (fst x)))\<rparr>, snd x)
      else if ch = CHR ''V'' then Inl (Exited 0)
      else if ch = CHR ''h'' then Inl (Exited 0)
      else if ch = CHR ''?'' then Inl (Exited 0)
      else Inr x)"

fun all_options :: "startcfg \<Rightarrow> optch list \<Rightarrow> parsing \<Rightarrow> c_stop + parsing" where
  "all_options sc [] x = Inr x"
| "all_options sc (oc # ocs) x = cbind (one_option sc oc x) (all_options sc ocs)"

definition init_options :: "startcfg \<Rightarrow> string option \<Rightarrow> string list \<Rightarrow> c_stop + options option" where
  \<comment> \<open>\<open>argv\<close> without the program's name, and the device file \<open>netstat_init\<close> finds\<close>
  "init_options sc dev args =
     (if args = [] then Inl (Exited 1)
      else cbind (all_options sc (getopt_all GETOPT args) (initial_options, 0, 0, 0)) (\<lambda>(o', oserver, oclient, ofile).
        if 0 < oserver \<and> 0 < oclient then Inr None
        else if oserver = 0 \<and> oclient = 0 then Inr None
        else if 0 < oclient \<and> ofile = 0 then Inr None
        else if sc_netstat sc \<and> 0 < oclient \<and> enabled PACKET_STATS (op_copt o') \<and>
                fst (netstat_init dev zero_columns) \<noteq> 0 then
          Inr (Some (o'\<lparr>op_copt := op_copt o' AND NOT PACKET_STATS\<rparr>))
        else Inr (Some o')))"

definition uperf_main ::
  "startcfg \<Rightarrow> string option \<Rightarrow> (string \<Rightarrow> c_stop + workorder option) \<Rightarrow> (options \<Rightarrow> (c_stop + int) option) \<Rightarrow>
     (options \<Rightarrow> workorder \<Rightarrow> (c_stop + int) option) \<Rightarrow> string list \<Rightarrow> (c_stop + int) option" where
  \<comment> \<open>\<open>profile\<close>, \<open>slave\<close> and \<open>master\<close> are what \<open>parse_app_profile\<close>, \<open>slave\<close> and \<open>master\<close> do in the
     program's environment; \<open>setrlimit\<close> only warns\<close>
  "uperf_main sc dev profile slave master args =
     (case init_options sc dev args of
        Inl e \<Rightarrow> Some (Inl e)
      | Inr None \<Rightarrow> Some (Inl (Exited 1))
      | Inr (Some o') \<Rightarrow>
          (case (if enabled UPERF_MASTER (op_run_choice o') then profile (op_app_profile_name o') else Inr None) of
             Inl e \<Rightarrow> Some (Inl e)
           | Inr w \<Rightarrow>
               if enabled UPERF_MASTER (op_run_choice o') \<and> w = None then Some (Inr 1)
               else if enabled UPERF_SLAVE (op_run_choice o') then slave o'
               else (case w of None \<Rightarrow> Some (Inl Undefined) | Some work \<Rightarrow> master o' work)))"

section \<open>What is accepted\<close>

definition options_ok :: "startcfg \<Rightarrow> options \<Rightarrow> bool" where
  "options_ok sc o' =
     (length (op_app_profile_name o') < PATH_MAX \<and> length (op_xfile o') < PATH_MAX \<and>
      op_interval o' \<noteq> 0 \<and> valid_protocol (sc_build sc) (op_control_proto o') = 1 \<and>
      (enabled HISTORY_STATS (op_copt o') \<longrightarrow> op_history_fd o' \<noteq> None) \<and>
      (\<forall>f. op_history_fd o' = Some f \<longrightarrow> sc_fopen sc f))"

definition roles_ok :: "startcfg \<Rightarrow> parsing \<Rightarrow> bool" where
  "roles_ok sc x =
     (case x of (o', oserver, oclient, ofile) \<Rightarrow>
        op_run_choice o' = (if 0 < oclient then UPERF_MASTER else 0) OR (if 0 < oserver then UPERF_SLAVE else 0) \<and>
        (sc_slave_only sc \<longrightarrow> oclient = 0) \<and> ofile = oclient)"

definition parsing_ok :: "startcfg \<Rightarrow> parsing \<Rightarrow> bool" where
  "parsing_ok sc x = (options_ok sc (fst x) \<and> roles_ok sc x)"

lemma enabled_OR: "enabled f (a OR b) = (enabled f a \<or> enabled f b)"
  by (simp add: enabled_def bit.conj_disj_distrib2 or_eq_0_iff)

lemma enabled_fold: "enabled f (fold (\<lambda>f c. c OR f) fs c) = (enabled f c \<or> (\<exists>g \<in> set fs. enabled f g))"
  by (induction fs arbitrary: c) (auto simp: enabled_OR)

lemma or_copt_ok:
  "options_ok sc o' \<Longrightarrow> \<forall>g \<in> set fs. \<not> enabled HISTORY_STATS g \<Longrightarrow> options_ok sc (or_copt fs o')"
  by (simp add: options_ok_def or_copt_def enabled_fold)

lemma roles_keep: "roles_ok sc (o1, c) \<Longrightarrow> op_run_choice o2 = op_run_choice o1 \<Longrightarrow> roles_ok sc (o2, c)"
  by (simp add: roles_ok_def split: prod.splits)

lemma set_flags_ok:
  "parsing_ok sc x \<Longrightarrow> \<forall>g \<in> set fs. \<not> enabled HISTORY_STATS g \<Longrightarrow> set_flags fs x = Inr y \<Longrightarrow> parsing_ok sc y"
proof -
  assume x: "parsing_ok sc x" and fs: "\<forall>g \<in> set fs. \<not> enabled HISTORY_STATS g" and y: "set_flags fs x = Inr y"
  obtain o1 c where o1: "x = (o1, c)" by (cases x)
  then have "options_ok sc (or_copt fs o1)" "roles_ok sc (or_copt fs o1, c)"
    using x fs roles_keep [of sc o1 c "or_copt fs o1"] by (simp_all add: parsing_ok_def or_copt_ok) (simp add: or_copt_def)
  with o1 y show ?thesis by (auto simp: parsing_ok_def set_flags_def)
qed

lemma on_options_ok:
  assumes "parsing_ok sc x" and "on_options f x = Inr y"
    and "\<And>o1 o2. options_ok sc o1 \<Longrightarrow> f o1 = Inr o2 \<Longrightarrow> options_ok sc o2 \<and> op_run_choice o2 = op_run_choice o1"
  shows "parsing_ok sc y"
proof -
  obtain o1 c where x: "x = (o1, c)" by (cases x)
  obtain o2 where y: "f o1 = Inr o2" "y = (o2, c)" using assms(2) x by (auto simp: on_options_def cbind_Inr)
  from assms(1) x have "options_ok sc o1" "roles_ok sc (o1, c)" by (simp_all add: parsing_ok_def)
  with assms(3) [of o1 o2] y roles_keep [of sc o1 c o2] show ?thesis by (simp add: parsing_ok_def)
qed

lemmas stat_bits = enabled_def HISTORY_STATS_def CPUCOUNTER_STATS_def FLOWOP_STATS_def UTILIZATION_STATS_def
  THREAD_STATS_def GROUP_STATS_def TXN_STATS_def PACKET_STATS_def NO_STATS_def ERROR_STATS_def RAW_STATS_def

lemma event_option_ok:
  "options_ok sc o1 \<Longrightarrow> event_option sc a o1 = Inr o2 \<Longrightarrow> options_ok sc o2 \<and> op_run_choice o2 = op_run_choice o1"
proof -
  assume o1: "options_ok sc o1" and e: "event_option sc a o1 = Inr o2"
  then obtain u v where o2: "o2 = or_copt [CPUCOUNTER_STATS, FLOWOP_STATS] (o1\<lparr>op_ev1 := Some u, op_ev2 := Some v\<rparr>)"
    by (auto simp: event_option_def split: option.splits prod.splits if_splits)
  have "options_ok sc (o1\<lparr>op_ev1 := Some u, op_ev2 := Some v\<rparr>)" using o1 by (simp add: options_ok_def)
  then show ?thesis unfolding o2 by (auto intro!: or_copt_ok simp: stat_bits) (simp add: or_copt_def)
qed

lemma history_option_ok:
  "options_ok sc o1 \<Longrightarrow> history_option sc a o1 = Inr o2 \<Longrightarrow> options_ok sc o2 \<and> op_run_choice o2 = op_run_choice o1"
  using length_strlcpy [of PATH_MAX a]
  by (auto simp: history_option_def options_ok_def or_copt_def Let_def PATH_MAX_def split: if_splits)

lemma interval_option_ok:
  "options_ok sc o1 \<Longrightarrow> interval_option sc a o1 = Inr o2 \<Longrightarrow> options_ok sc o2 \<and> op_run_choice o2 = op_run_choice o1"
  by (auto simp: interval_option_def options_ok_def cbind_Inr Let_def split: if_splits)

lemma protocol_option_ok:
  "options_ok sc o1 \<Longrightarrow> protocol_option sc a o1 = Inr o2 \<Longrightarrow> options_ok sc o2 \<and> op_run_choice o2 = op_run_choice o1"
proof -
  assume o1: "options_ok sc o1" and e: "protocol_option sc a o1 = Inr o2"
  then have o2: "o2 = o1\<lparr>op_control_proto := protocol_type (sc_build sc) a\<rparr>"
    and n: "protocol_type (sc_build sc) a \<noteq> PROTOCOL_UNSUPPORTED"
    by (auto simp: protocol_option_def Let_def split: if_splits)
  have "valid_protocol (sc_build sc) (protocol_type (sc_build sc) a) = 1"
    using n by (auto simp: valid_protocol_iff protocol_type_def find_protocol_by_name_def split: option.splits dest: find_Some_in_set)
  with o1 o2 show ?thesis by (simp add: options_ok_def)
qed

lemma port_option_ok:
  "options_ok sc o1 \<Longrightarrow> cbind m (\<lambda>n. Inr (o1\<lparr>op_master_port := n\<rparr>)) = Inr o2 \<Longrightarrow>
   options_ok sc o2 \<and> op_run_choice o2 = op_run_choice o1"
  by (auto simp: options_ok_def cbind_Inr)

lemma role_bits: "UPERF_MASTER OR UPERF_SLAVE OR UPERF_SLAVE = UPERF_MASTER OR UPERF_SLAVE"
  "UPERF_SLAVE OR UPERF_SLAVE = UPERF_SLAVE" "UPERF_MASTER OR UPERF_MASTER = UPERF_MASTER"
  "UPERF_SLAVE OR UPERF_MASTER = UPERF_MASTER OR UPERF_SLAVE"
  "(UPERF_MASTER OR UPERF_SLAVE) OR UPERF_SLAVE = UPERF_MASTER OR UPERF_SLAVE"
  "(UPERF_MASTER OR UPERF_SLAVE) OR UPERF_MASTER = UPERF_MASTER OR UPERF_SLAVE"
  by (simp_all add: UPERF_MASTER_def UPERF_SLAVE_def)

lemma slave_option_ok:
  "parsing_ok sc x \<Longrightarrow> (case x of (o', oserver, oclient, ofile) \<Rightarrow>
     Inr (o'\<lparr>op_run_choice := op_run_choice o' OR UPERF_SLAVE\<rparr>, oserver + 1, oclient, ofile)) = Inr y \<Longrightarrow> parsing_ok sc y"
  by (cases x) (auto simp: parsing_ok_def options_ok_def roles_ok_def role_bits)

lemma master_option_ok:
  "parsing_ok sc x \<Longrightarrow> \<not> sc_slave_only sc \<Longrightarrow> (case x of (o', oserver, oclient, ofile) \<Rightarrow>
     Inr (o'\<lparr>op_run_choice := op_run_choice o' OR UPERF_MASTER, op_app_profile_name := strlcpy PATH_MAX arg\<rparr>,
          oserver, oclient + 1, ofile + 1)) = Inr y \<Longrightarrow> parsing_ok sc y"
  using length_strlcpy [of PATH_MAX arg]
  by (cases x) (auto simp: parsing_ok_def options_ok_def roles_ok_def role_bits PATH_MAX_def)

lemma if_Inr: "(if b then m else n) = Inr y \<Longrightarrow> (b \<Longrightarrow> m = Inr y \<Longrightarrow> Q) \<Longrightarrow> (\<not> b \<Longrightarrow> n = Inr y \<Longrightarrow> Q) \<Longrightarrow> Q"
  by (cases b) simp_all

lemma no_history:
  "\<not> enabled HISTORY_STATS CPUCOUNTER_STATS" "\<not> enabled HISTORY_STATS FLOWOP_STATS" "\<not> enabled HISTORY_STATS UTILIZATION_STATS"
  "\<not> enabled HISTORY_STATS THREAD_STATS" "\<not> enabled HISTORY_STATS GROUP_STATS" "\<not> enabled HISTORY_STATS TXN_STATS"
  "\<not> enabled HISTORY_STATS PACKET_STATS" "\<not> enabled HISTORY_STATS NO_STATS" "\<not> enabled HISTORY_STATS ERROR_STATS"
  "\<not> enabled HISTORY_STATS RAW_STATS" "\<not> enabled HISTORY_STATS 0"
  by (simp_all add: stat_bits)

lemma cleared_ok: "parsing_ok sc x \<Longrightarrow> parsing_ok sc ((fst x)\<lparr>op_copt := 0\<rparr>, snd x)"
  by (cases x) (simp add: parsing_ok_def options_ok_def no_history roles_ok_def)

lemma verbose_ok: "parsing_ok sc x \<Longrightarrow> parsing_ok sc ((fst x)\<lparr>op_level := v\<rparr>, snd x)"
  by (cases x) (simp add: parsing_ok_def options_ok_def roles_ok_def)

lemma one_option_ok:
  assumes x: "parsing_ok sc x" and y: "one_option sc oc x = Inr y"
  shows "parsing_ok sc y"
proof -
  note opts = on_options_ok [OF x] and flags = set_flags_ok [OF x, rotated] set_flags_ok [OF cleared_ok [OF x], rotated]
  show ?thesis
    using y unfolding one_option_def Let_def
    by (elim if_Inr)
       (((erule opts, erule (1) event_option_ok history_option_ok interval_option_ok port_option_ok protocol_option_ok)
         | (erule flags, simp add: no_history; fail) | erule slave_option_ok [OF x] | erule (1) master_option_ok [OF x]
         | (insert x verbose_ok [OF x, of "snd (uperf_set_log_level UPERF_VERBOSE (op_level (fst x)))"], force))+)
qed

lemma all_options_ok: "parsing_ok sc x \<Longrightarrow> all_options sc ocs x = Inr y \<Longrightarrow> parsing_ok sc y"
  by (induction ocs arbitrary: x) (auto simp: cbind_Inr dest: one_option_ok)

lemma initial_ok: "parsing_ok sc (initial_options, 0, 0, 0)"
  by (simp add: parsing_ok_def options_ok_def roles_ok_def initial_options_def PATH_MAX_def enabled_OR no_history
      valid_protocol_iff plist_def)

lemma without_packets:
  "options_ok sc o' \<Longrightarrow> options_ok sc (o'\<lparr>op_copt := op_copt o' AND NOT PACKET_STATS\<rparr>)"
  "\<not> enabled PACKET_STATS (c AND NOT PACKET_STATS)"
proof -
  have "(a AND b) AND f = (a AND f) AND b" for a b f :: u32 by (simp add: and.assoc and.commute [of b f])
  then have "enabled f (a AND b) \<Longrightarrow> enabled f a" for f a b by (metis enabled_def and_zero_eq and.commute)
  then show "options_ok sc o' \<Longrightarrow> options_ok sc (o'\<lparr>op_copt := op_copt o' AND NOT PACKET_STATS\<rparr>)"
    by (auto simp: options_ok_def)
qed (simp add: enabled_def and.assoc)

text \<open>
  C20. A command line that is accepted gives exactly one role, the slave's if that is all that was
  built; a profile name and a file name that fit their arrays; an interval that is not zero; a
  control protocol that was built in; a history file that is open if histories are collected;
  and packets counted on a master only if the device file could be read. \<open>main\<close> then runs the
  slave or, once its profile has been read, the master, and nothing else.
\<close>

theorem options_accepted:
  assumes "init_options sc dev args = Inr (Some o')"
  shows "options_ok sc o' \<and> (op_run_choice o' = UPERF_MASTER \<and> \<not> sc_slave_only sc \<or> op_run_choice o' = UPERF_SLAVE) \<and>
    (op_run_choice o' = UPERF_MASTER \<and> sc_netstat sc \<and> enabled PACKET_STATS (op_copt o') \<longrightarrow>
       fst (netstat_init dev zero_columns) = UPERF_SUCCESS) \<and>
    uperf_main sc dev profile slave master args =
      (if op_run_choice o' = UPERF_SLAVE then slave o'
       else case profile (op_app_profile_name o') of
              Inl e \<Rightarrow> Some (Inl e) | Inr None \<Rightarrow> Some (Inr 1) | Inr (Some w) \<Rightarrow> master o' w)"
proof -
  obtain o1 n m k where a: "all_options sc (getopt_all GETOPT args) (initial_options, 0, 0, 0) = Inr (o1, n, m, k)"
    using assms by (auto simp: init_options_def cbind_Inr split: if_splits)
  have "parsing_ok sc (o1, n, m, k)" by (rule all_options_ok [OF initial_ok a])
  then have o1: "options_ok sc o1" and r: "roles_ok sc (o1, n, m, k)" by (simp_all add: parsing_ok_def)
  have i: "(0 < n) \<noteq> (0 < m)" "o' = (if sc_netstat sc \<and> 0 < m \<and> enabled PACKET_STATS (op_copt o1) \<and>
      fst (netstat_init dev zero_columns) \<noteq> 0 then o1\<lparr>op_copt := op_copt o1 AND NOT PACKET_STATS\<rparr> else o1)"
    using assms a by (auto simp: init_options_def split: if_splits)
  have c: "op_run_choice o' = (if 0 < m then UPERF_MASTER else UPERF_SLAVE)" "sc_slave_only sc \<longrightarrow> m = 0"
    using r i by (auto simp: roles_ok_def)
  have ne: "UPERF_MASTER \<noteq> UPERF_SLAVE" "enabled UPERF_MASTER UPERF_MASTER" "enabled UPERF_SLAVE UPERF_SLAVE"
    "\<not> enabled UPERF_SLAVE UPERF_MASTER" "\<not> enabled UPERF_MASTER UPERF_SLAVE"
    by (simp_all add: UPERF_MASTER_def UPERF_SLAVE_def enabled_def)
  have "options_ok sc o'" using o1 i(2) without_packets(1) [of sc o1] by simp
  moreover have "0 < m \<and> sc_netstat sc \<and> enabled PACKET_STATS (op_copt o') \<longrightarrow> fst (netstat_init dev zero_columns) = UPERF_SUCCESS"
    using i(2) without_packets(2) [of "op_copt o1"] by (auto simp: UPERF_SUCCESS_def)
  moreover have "uperf_main sc dev profile slave master args =
      (if op_run_choice o' = UPERF_SLAVE then slave o'
       else case profile (op_app_profile_name o') of
              Inl e \<Rightarrow> Some (Inl e) | Inr None \<Rightarrow> Some (Inr 1) | Inr (Some w) \<Rightarrow> master o' w)"
    using assms c(1) ne by (auto simp: uperf_main_def split: sum.split option.split)
  ultimately show ?thesis using c ne by auto
qed

definition lab_start :: startcfg where
  "lab_start = \<lparr>sc_build = \<lparr>have_rds = False, have_sctp = False, have_ssl = False, have_vsock = False\<rparr>, sc_cpc = False,
     sc_slave_only = False, sc_netstat = True, sc_env = (\<lambda>_. None), sc_fopen = (\<lambda>_. True), sc_events = (\<lambda>_ _. 0)\<rparr>"

theorem options_accepted_witness:
  "\<exists>o'. init_options lab_start None [''-tm'', ''p.xml'', ''-S'', ''UDP''] = Inr (Some o') \<and>
     op_run_choice o' = UPERF_MASTER \<and> op_app_profile_name o' = ''p.xml'' \<and> op_master_port o' = 20000 \<and>
     op_control_proto o' = PROTOCOL_UDP \<and> op_copt o' = 34 \<and>
     uperf_main lab_start None (\<lambda>f. Inr None) (\<lambda>_. None) (\<lambda>_ _. None)
       [''-tm'', ''p.xml'', ''-S'', ''UDP''] = Some (Inr 1)"
proof -
  let ?o = "initial_options\<lparr>op_run_choice := 1, op_app_profile_name := ''p.xml'',
    op_control_proto := PROTOCOL_UDP, op_copt := 34\<rparr>"
  have i: "init_options lab_start None [''-tm'', ''p.xml'', ''-S'', ''UDP''] = Inr (Some ?o)" by code_simp
  have "op_run_choice ?o = UPERF_MASTER" "op_run_choice ?o \<noteq> UPERF_SLAVE"
    by (simp_all add: UPERF_MASTER_def UPERF_SLAVE_def)
  with options_accepted [OF i, of "\<lambda>f. Inr None" "\<lambda>_. None" "\<lambda>_ _. None"] i show ?thesis
    by (intro exI [of _ ?o]) (simp add: initial_options_def MASTER_PORT_def)
qed

section \<open>Every spelling is read\<close>

datatype spelling =
  Flags string               \<comment> \<open>\<open>-abc\<close>\<close>
| Joined string char string  \<comment> \<open>\<open>-abXarg\<close>\<close>
| Apart string char string   \<comment> \<open>\<open>-abX arg\<close>\<close>
| Other_word string

fun words_of :: "spelling \<Rightarrow> string list" where
  "words_of (Flags cs) = [CHR ''-'' # cs]"
| "words_of (Joined cs c a) = [CHR ''-'' # cs @ c # a]"
| "words_of (Apart cs c a) = [CHR ''-'' # cs @ [c], a]"
| "words_of (Other_word w) = [w]"

abbreviation flag :: "char \<Rightarrow> optch" where "flag c \<equiv> \<lparr>oc_ch = c, oc_arg = None, oc_opt = c\<rparr>"

fun opts_of :: "spelling \<Rightarrow> optch list" where
  "opts_of (Flags cs) = map flag cs"
| "opts_of (Joined cs c a) = map flag cs @ [\<lparr>oc_ch = c, oc_arg = Some a, oc_opt = c\<rparr>]"
| "opts_of (Apart cs c a) = map flag cs @ [\<lparr>oc_ch = c, oc_arg = Some a, oc_opt = c\<rparr>]"
| "opts_of (Other_word w) = []"

definition all_flags :: "string \<Rightarrow> bool" where
  "all_flags = list_all (\<lambda>c. takes_arg GETOPT c = Some False)"

fun spelled_ok :: "spelling \<Rightarrow> bool" where
  "spelled_ok (Flags cs) = (cs \<noteq> [] \<and> all_flags cs)"
| "spelled_ok (Joined cs c a) = (all_flags cs \<and> takes_arg GETOPT c = Some True \<and> a \<noteq> [])"
| "spelled_ok (Apart cs c a) = (all_flags cs \<and> takes_arg GETOPT c = Some True)"
| "spelled_ok (Other_word w) = (\<not> is_option_word w)"

fun_cases spelled_okE: "spelled_ok (Flags cs)" "spelled_ok (Joined cs c a)" "spelled_ok (Apart cs c a)" "spelled_ok (Other_word w)"

lemma getopt_all_Cons:
  "getopt_all spec (w # ws) =
     (if w = ''--'' then []
      else if is_option_word w then
        (case word_opts spec (tl w) (case ws of [] \<Rightarrow> None | v # _ \<Rightarrow> Some v) of (os, used) \<Rightarrow>
           os @ getopt_all spec (if used then tl ws else ws))
      else getopt_all spec ws)"
  by (cases ws) (auto split: prod.splits)

lemma word_opts_flags:
  "all_flags cs \<Longrightarrow> word_opts GETOPT (cs @ r) nxt = (case word_opts GETOPT r nxt of (os, u) \<Rightarrow> (map flag cs @ os, u))"
  by (induction cs) (auto simp: all_flags_def split: prod.splits)

lemma no_dash: "takes_arg GETOPT CHR ''-'' = None"
  by (simp add: GETOPT_def)

lemma spelling_read: "spelled_ok s \<Longrightarrow> getopt_all GETOPT (words_of s @ ws) = opts_of s @ getopt_all GETOPT ws"
proof (cases s)
  case (Flags cs)
  assume ok: "spelled_ok s"
  then have "CHR ''-'' # cs \<noteq> ''--''" using Flags no_dash by (auto simp: all_flags_def elim!: spelled_okE)
  then show ?thesis using ok Flags word_opts_flags [of cs "[]"] by (simp add: getopt_all_Cons is_option_word_def)
next
  case (Joined cs c a)
  assume ok: "spelled_ok s"
  have "CHR ''-'' # cs @ c # a \<noteq> ''--''" using ok Joined by (cases cs) auto
  then show ?thesis using ok Joined by (simp add: getopt_all_Cons is_option_word_def word_opts_flags)
next
  case (Apart cs c a)
  assume ok: "spelled_ok s"
  have "CHR ''-'' # cs @ [c] \<noteq> ''--''" using ok Apart no_dash by (cases cs) auto
  then show ?thesis using ok Apart by (simp add: getopt_all_Cons [of _ _ "a # ws"] is_option_word_def word_opts_flags)
next
  case (Other_word w)
  assume ok: "spelled_ok s"
  then show ?thesis using Other_word by (auto simp: getopt_all_Cons is_option_word_def)
qed

text \<open>
  However a command line is spelled - flags clustered in a word or apart, an argument joined to
  its option or in the next word, even if that begins with a dash, other words in between - the
  options are read in the order they stand in, each with its argument.
\<close>

lemma command_line_read:
  assumes "list_all spelled_ok ss"
  shows "getopt_all GETOPT (concat (map words_of ss)) = concat (map opts_of ss)"
  using assms by (induction ss) (simp_all add: spelling_read)

theorem command_line_read_witness:
  "getopt_all GETOPT [''-tv'', ''-fmprofile.xml'', ''more'', ''-P'', ''-1''] =
     [flag CHR ''t'', flag CHR ''v'', flag CHR ''f'', \<lparr>oc_ch = CHR ''m'', oc_arg = Some ''profile.xml'', oc_opt = CHR ''m''\<rparr>,
      \<lparr>oc_ch = CHR ''P'', oc_arg = Some ''-1'', oc_opt = CHR ''P''\<rparr>]"
proof -
  have "list_all spelled_ok [Flags ''tv'', Joined ''f'' CHR ''m'' ''profile.xml'', Other_word ''more'', Apart [] CHR ''P'' ''-1'']"
    by (simp add: all_flags_def GETOPT_def is_option_word_def)
  from command_line_read [OF this] show ?thesis by simp
qed

end
