(* ===== verification/Group_Heap.thy ===== *)
theory Group_Heap
  imports Flowlib
begin

text \<open>
  Groups as they lie in memory: \<open>group_clone\<close> and \<open>group_free\<close> of \<open>src/workorder.c\<close> over a
  store of cells. A cell holds what \<open>memcpy\<close> copies, the pointers apart; 0 is the null
  pointer. The allocator is a parameter, and \<open>malloc\<close> succeeds, as the code assumes.
  Following a pointer to no cell, or freeing what is not there, is undefined.
\<close>

section \<open>Cells\<close>

type_synonym ptr = nat

datatype cell =
  Group_cell group ptr      \<comment> \<open>\<open>tlist\<close>\<close>
| Txn_cell txn ptr ptr      \<comment> \<open>\<open>flist\<close>, \<open>next\<close>\<close>
| Flowop_cell flowop ptr    \<comment> \<open>\<open>next\<close>\<close>

type_synonym heap = "ptr \<Rightarrow> cell option"

definition set_tlist :: "ptr \<Rightarrow> ptr \<Rightarrow> heap \<Rightarrow> c_stop + heap" where
  "set_tlist p v h = (case h p of Some (Group_cell g _) \<Rightarrow> Inr (h(p \<mapsto> Group_cell g v)) | _ \<Rightarrow> Inl Undefined)"

definition set_flist :: "ptr \<Rightarrow> ptr \<Rightarrow> heap \<Rightarrow> c_stop + heap" where
  "set_flist p v h = (case h p of Some (Txn_cell t _ n) \<Rightarrow> Inr (h(p \<mapsto> Txn_cell t v n)) | _ \<Rightarrow> Inl Undefined)"

definition set_tnext :: "ptr \<Rightarrow> ptr \<Rightarrow> heap \<Rightarrow> c_stop + heap" where
  "set_tnext p v h = (case h p of Some (Txn_cell t f _) \<Rightarrow> Inr (h(p \<mapsto> Txn_cell t f v)) | _ \<Rightarrow> Inl Undefined)"

definition set_fnext :: "ptr \<Rightarrow> ptr \<Rightarrow> heap \<Rightarrow> c_stop + heap" where
  "set_fnext p v h = (case h p of Some (Flowop_cell f _) \<Rightarrow> Inr (h(p \<mapsto> Flowop_cell f v)) | _ \<Rightarrow> Inl Undefined)"

definition c_free :: "ptr \<Rightarrow> heap \<Rightarrow> c_stop + heap" where
  "c_free p h = (if p = 0 then Inr h else if h p = None then Inl Undefined else Inr (h(p := None)))"

section \<open>\<open>group_clone\<close>\<close>

partial_function (option) clone_flowops :: "(heap \<Rightarrow> ptr) \<Rightarrow> ptr \<Rightarrow> ptr \<Rightarrow> ptr \<Rightarrow> heap \<Rightarrow> (c_stop + heap) option" where
  \<comment> \<open>the inner loop: \<open>t2\<close>, \<open>f1\<close>, \<open>pf\<close>\<close>
  "clone_flowops malloc t2 f1 pf h =
     (if f1 = 0 then Some (Inr h)
      else case h f1 of
        Some (Flowop_cell f nxt) \<Rightarrow>
          (let f2 = malloc h; h1 = h(f2 \<mapsto> Flowop_cell f nxt) in
           case (if pf = 0 then set_flist t2 f2 h1 else set_fnext pf f2 h1) of
             Inl e \<Rightarrow> Some (Inl e)
           | Inr h2 \<Rightarrow> (case h2 f1 of
                           Some (Flowop_cell _ nxt) \<Rightarrow> clone_flowops malloc t2 nxt f2 h2
                         | _ \<Rightarrow> Some (Inl Undefined)))
      | _ \<Rightarrow> Some (Inl Undefined))"

partial_function (option) clone_txns :: "(heap \<Rightarrow> ptr) \<Rightarrow> ptr \<Rightarrow> ptr \<Rightarrow> ptr \<Rightarrow> heap \<Rightarrow> (c_stop + heap) option" where
  \<comment> \<open>the outer loop: \<open>g2\<close>, \<open>t1\<close>, \<open>pt\<close>\<close>
  "clone_txns malloc g2 t1 pt h =
     (if t1 = 0 then Some (Inr h)
      else case h t1 of
        Some (Txn_cell t fl nxt) \<Rightarrow>
          (let t2 = malloc h; h1 = h(t2 \<mapsto> Txn_cell t fl nxt) in
           case (if pt = 0 then set_tlist g2 t2 h1 else set_tnext pt t2 h1) of
             Inl e \<Rightarrow> Some (Inl e)
           | Inr h2 \<Rightarrow> (case h2 t1 of
               Some (Txn_cell _ fl _) \<Rightarrow>
                 (case clone_flowops malloc t2 fl 0 h2 of
                    None \<Rightarrow> None
                  | Some (Inl e) \<Rightarrow> Some (Inl e)
                  | Some (Inr h3) \<Rightarrow>
                      (case h3 t1 of
                         Some (Txn_cell _ _ nxt) \<Rightarrow> clone_txns malloc g2 nxt t2 h3
                       | _ \<Rightarrow> Some (Inl Undefined)))
             | _ \<Rightarrow> Some (Inl Undefined)))
      | _ \<Rightarrow> Some (Inl Undefined))"

definition group_clone :: "(heap \<Rightarrow> ptr) \<Rightarrow> ptr \<Rightarrow> heap \<Rightarrow> (c_stop + ptr \<times> heap) option" where
  "group_clone malloc g1 h =
     (if g1 = 0 then Some (Inr (0, h))
      else case h g1 of
        Some (Group_cell g tlist) \<Rightarrow>
          (let g2 = malloc h; h1 = h(g2 \<mapsto> Group_cell g tlist) in
           obind (clone_txns malloc g2 tlist 0 h1) (\<lambda>h2. Some (Inr (g2, h2))))
      | _ \<Rightarrow> Some (Inl Undefined))"

section \<open>\<open>group_free\<close>\<close>

partial_function (option) free_flowops :: "ptr \<Rightarrow> heap \<Rightarrow> (c_stop + heap) option" where
  "free_flowops f1 h =
     (if f1 = 0 then Some (Inr h)
      else case h f1 of
        Some (Flowop_cell _ nxt) \<Rightarrow>
          (case c_free f1 h of Inl e \<Rightarrow> Some (Inl e) | Inr h1 \<Rightarrow> free_flowops nxt h1)
      | _ \<Rightarrow> Some (Inl Undefined))"

partial_function (option) free_txns :: "ptr \<Rightarrow> heap \<Rightarrow> (c_stop + heap) option" where
  "free_txns t1 h =
     (if t1 = 0 then Some (Inr h)
      else case h t1 of
        Some (Txn_cell _ fl _) \<Rightarrow>
          (case free_flowops fl h of
             None \<Rightarrow> None
           | Some (Inl e) \<Rightarrow> Some (Inl e)
           | Some (Inr h1) \<Rightarrow>
               (case h1 t1 of
                  Some (Txn_cell _ _ nxt) \<Rightarrow>
                    (case c_free t1 h1 of Inl e \<Rightarrow> Some (Inl e) | Inr h2 \<Rightarrow> free_txns nxt h2)
                | _ \<Rightarrow> Some (Inl Undefined)))
      | _ \<Rightarrow> Some (Inl Undefined))"

definition group_free :: "ptr \<Rightarrow> heap \<Rightarrow> (c_stop + heap) option" where
  "group_free g1 h =
     (if g1 = 0 then Some (Inr h)
      else case h g1 of
        Some (Group_cell _ tlist) \<Rightarrow> obind (free_txns tlist h) (\<lambda>h1. Some (c_free g1 h1))
      | _ \<Rightarrow> Some (Inl Undefined))"

section \<open>A group in memory\<close>

fun flowops_at :: "heap \<Rightarrow> ptr \<Rightarrow> ptr list \<Rightarrow> flowop list \<Rightarrow> bool" where
  "flowops_at h p [] fs = (p = 0 \<and> fs = [])"
| "flowops_at h p (a # as) fs =
     (p = a \<and> a \<noteq> 0 \<and> (case (h a, fs) of
        (Some (Flowop_cell f nxt), g # gs) \<Rightarrow> f = g \<and> flowops_at h nxt as gs | _ \<Rightarrow> False))"

fun txns_at :: "heap \<Rightarrow> ptr \<Rightarrow> (ptr \<times> ptr list) list \<Rightarrow> txn list \<Rightarrow> bool" where
  "txns_at h p [] ts = (p = 0 \<and> ts = [])"
| "txns_at h p ((a, as) # xs) ts =
     (p = a \<and> a \<noteq> 0 \<and> (case (h a, ts) of
        (Some (Txn_cell t fl nxt), u # us) \<Rightarrow>
          t = u\<lparr>t_flist := []\<rparr> \<and> flowops_at h fl as (t_flist u) \<and> txns_at h nxt xs us | _ \<Rightarrow> False))"

definition group_at :: "heap \<Rightarrow> ptr \<Rightarrow> (ptr \<times> ptr list) list \<Rightarrow> group \<Rightarrow> bool" where
  "group_at h p xs g =
     (p \<noteq> 0 \<and> (case h p of Some (Group_cell g' tlist) \<Rightarrow> g' = g\<lparr>g_tlist := []\<rparr> \<and> txns_at h tlist xs (g_tlist g) | _ \<Rightarrow> False))"

definition txn_cells :: "(ptr \<times> ptr list) list \<Rightarrow> ptr list" where
  "txn_cells xs = concat (map (\<lambda>(a, as). a # as) xs)"

definition fresh :: "(heap \<Rightarrow> ptr) \<Rightarrow> bool" where
  \<comment> \<open>what \<open>malloc\<close> promises, as long as a heap is finite\<close>
  "fresh malloc = (\<forall>h. finite (dom h) \<longrightarrow> malloc h \<noteq> 0 \<and> h (malloc h) = None)"

lemma flowops_at_dom: "flowops_at h p as fs \<Longrightarrow> set as \<subseteq> dom h \<and> length as = length fs \<and> 0 \<notin> set as"
  by (induction as arbitrary: p fs) (auto split: option.splits cell.splits list.splits)

lemma flowops_at_frame: "flowops_at h p as fs \<Longrightarrow> \<forall>x \<in> set as. h' x = h x \<Longrightarrow> flowops_at h' p as fs"
  by (induction as arbitrary: p fs) (auto split: option.splits cell.splits list.splits)

lemma flowops_atE:
  assumes "flowops_at h p (a # as) fs"
  obtains f nxt gs where "p = a" "a \<noteq> 0" "h a = Some (Flowop_cell f nxt)" "fs = f # gs" "flowops_at h nxt as gs"
  using assms by (auto split: option.splits cell.splits list.splits)

lemma txns_atE:
  assumes "txns_at h p ((a, as) # xs) ts"
  obtains u fl nxt us where "p = a" "a \<noteq> 0" "h a = Some (Txn_cell (u\<lparr>t_flist := []\<rparr>) fl nxt)" "ts = u # us"
    "flowops_at h fl as (t_flist u)" "txns_at h nxt xs us"
  using assms by (auto split: option.splits cell.splits list.splits)

lemma txn_cells_simps [simp]: "txn_cells [] = []" "txn_cells ((a, as) # xs) = a # as @ txn_cells xs"
  by (simp_all add: txn_cells_def)

lemma txns_at_dom: "txns_at h p xs ts \<Longrightarrow> set (txn_cells xs) \<subseteq> dom h \<and> 0 \<notin> set (txn_cells xs)"
proof (induction xs arbitrary: p ts)
  case (Cons x xs)
  obtain a as where x: "x = (a, as)" by (cases x)
  from Cons.prems obtain u fl nxt us where "p = a" "a \<noteq> 0" "h a = Some (Txn_cell (u\<lparr>t_flist := []\<rparr>) fl nxt)" "ts = u # us"
    "flowops_at h fl as (t_flist u)" "txns_at h nxt xs us" unfolding x by (rule txns_atE)
  with Cons.IH [of nxt us] flowops_at_dom [of h fl as "t_flist u"] x show ?case by auto
qed simp

lemma txns_at_frame: "txns_at h p xs ts \<Longrightarrow> \<forall>x \<in> set (txn_cells xs). h' x = h x \<Longrightarrow> txns_at h' p xs ts"
proof (induction xs arbitrary: p ts)
  case (Cons x xs)
  obtain a as where x: "x = (a, as)" by (cases x)
  from Cons.prems(1) obtain u fl nxt us where p: "p = a" "a \<noteq> 0" and a: "h a = Some (Txn_cell (u\<lparr>t_flist := []\<rparr>) fl nxt)" "ts = u # us"
    and f: "flowops_at h fl as (t_flist u)" and t: "txns_at h nxt xs us" unfolding x by (rule txns_atE)
  have "txns_at h' nxt xs us" using Cons.IH [OF t] Cons.prems(2) x by simp
  moreover have "flowops_at h' fl as (t_flist u)" using flowops_at_frame [OF f] Cons.prems(2) x by simp
  moreover have "h' a = h a" using Cons.prems(2) x by simp
  ultimately show ?case using p a x by simp
qed simp

section \<open>Cloning\<close>

text \<open>
  The cell and field that get the address of the next copy: \<open>pf\<close>'s \<open>next\<close>, or \<open>t2\<close>'s \<open>flist\<close>
  at the start; \<open>pt\<close>'s \<open>next\<close>, or \<open>g2\<close>'s \<open>tlist\<close>.
\<close>

fun flink :: "cell \<Rightarrow> ptr \<Rightarrow> cell" where
  "flink (Flowop_cell f _) v = Flowop_cell f v"
| "flink (Txn_cell t _ n) v = Txn_cell t v n"
| "flink c v = c"

fun tlink :: "cell \<Rightarrow> ptr \<Rightarrow> cell" where
  "tlink (Txn_cell t f _) v = Txn_cell t f v"
| "tlink (Group_cell g _) v = Group_cell g v"
| "tlink c v = c"

definition fkind :: "ptr \<Rightarrow> cell \<Rightarrow> bool" where
  "fkind pf c = (if pf = 0 then \<exists>t fl n. c = Txn_cell t fl n else \<exists>f n. c = Flowop_cell f n)"

definition tkind :: "ptr \<Rightarrow> cell \<Rightarrow> bool" where
  "tkind pt c = (if pt = 0 then \<exists>g tp. c = Group_cell g tp else \<exists>t f n. c = Txn_cell t f n)"

definition at :: "ptr \<Rightarrow> ptr \<Rightarrow> ptr" where "at p q = (if q = 0 then p else q)"

lemma set_flink:
  "h (at t2 pf) = Some c \<Longrightarrow> fkind pf c \<Longrightarrow>
   (if pf = 0 then set_flist t2 v h else set_fnext pf v h) = Inr (h(at t2 pf \<mapsto> flink c v))"
  by (auto simp: at_def fkind_def set_flist_def set_fnext_def)

lemma set_tlink:
  "h (at g2 pt) = Some c \<Longrightarrow> tkind pt c \<Longrightarrow>
   (if pt = 0 then set_tlist g2 v h else set_tnext pt v h) = Inr (h(at g2 pt \<mapsto> tlink c v))"
  by (auto simp: at_def tkind_def set_tlist_def set_tnext_def)

definition extends :: "ptr \<Rightarrow> ptr list \<Rightarrow> heap \<Rightarrow> heap \<Rightarrow> bool" where
  \<comment> \<open>new cells at \<open>as\<close>, and of the old ones only \<open>l\<close> changed\<close>
  "extends l as h h' =
     (distinct as \<and> set as \<inter> dom h = {} \<and> dom h' = dom h \<union> set as \<and> (\<forall>x \<in> dom h - {l}. h' x = h x))"

lemma extends_keep: "extends l as h h' \<Longrightarrow> y \<in> dom h \<Longrightarrow> y \<noteq> l \<Longrightarrow> h' y = h y"
  by (simp add: extends_def)

lemma clone_flowops_ok:
  assumes m: "fresh malloc"
  shows "flowops_at h f1 as fs \<Longrightarrow> finite (dom h) \<Longrightarrow> at t2 pf \<notin> set as \<Longrightarrow> h (at t2 pf) = Some c \<Longrightarrow> fkind pf c \<Longrightarrow>
    flink c f1 = c \<Longrightarrow>
    \<exists>as' q h'. clone_flowops malloc t2 f1 pf h = Some (Inr h') \<and> extends (at t2 pf) as' h h' \<and>
      h' (at t2 pf) = Some (flink c q) \<and> flowops_at h' q as' fs"
proof (induction as arbitrary: f1 pf h fs c)
  case Nil
  then show ?case
    by (intro exI [of _ "[]"] exI [of _ 0] exI [of _ h]) (simp add: clone_flowops.simps extends_def)
next
  case (Cons a as)
  from Cons.prems(1) obtain f nxt gs where a: "f1 = a" "a \<noteq> 0" "h a = Some (Flowop_cell f nxt)" "fs = f # gs"
    and n: "flowops_at h nxt as gs" by (rule flowops_atE)
  obtain f2 where f2: "f2 = malloc h" by simp
  have new: "f2 \<noteq> 0" "h f2 = None" using m Cons.prems(2) by (simp_all add: fresh_def f2)
  obtain l where l: "l = at t2 pf" by simp
  note as = flowops_at_dom [OF n]
  have ne: "l \<noteq> f2" "l \<noteq> a" "a \<noteq> f2" "f2 \<notin> set as" "l \<notin> set as"
    using new a Cons.prems(3,4) as unfolding l by auto
  obtain h2 where h2: "h2 = h(f2 \<mapsto> Flowop_cell f nxt, l \<mapsto> flink c f2)" by simp
  have h2s: "h2 f2 = Some (Flowop_cell f nxt)" "h2 l = Some (flink c f2)" "h2 a = h a" "dom h2 = insert f2 (dom h)"
    "finite (dom h2)" "\<forall>x. x \<noteq> l \<longrightarrow> x \<noteq> f2 \<longrightarrow> h2 x = h x"
    using ne Cons.prems(2,4) by (auto simp: h2 l)
  have s: "(if pf = 0 then set_flist t2 f2 (h(f2 \<mapsto> Flowop_cell f nxt)) else set_fnext pf f2 (h(f2 \<mapsto> Flowop_cell f nxt))) = Inr h2"
    using set_flink [of "h(f2 \<mapsto> Flowop_cell f nxt)" t2 pf c f2] Cons.prems(4,5) ne by (simp add: l h2)
  have step: "clone_flowops malloc t2 f1 pf h = clone_flowops malloc t2 nxt f2 h2"
    using a by (subst clone_flowops.simps) (simp add: s Let_def f2 [symmetric] h2s(3))
  have n2: "flowops_at h2 nxt as gs" using ne h2s(6) by (intro flowops_at_frame [OF n]) auto
  have at2: "at t2 f2 = f2" using new by (simp add: at_def)
  obtain as' q h' where r: "clone_flowops malloc t2 nxt f2 h2 = Some (Inr h')" "extends f2 as' h2 h'"
    "h' f2 = Some (Flowop_cell f q)" "flowops_at h' q as' gs"
    using Cons.IH [OF n2 h2s(5), of f2 "Flowop_cell f nxt"] ne(4) new h2s(1) by (auto simp: at2 fkind_def)
  have same: "h' y = h y" if "y \<in> dom h" "y \<noteq> l" for y
  proof -
    have "y \<noteq> f2" using that new by auto
    then show ?thesis using extends_keep [OF r(2), of y] that h2s(4,6) by simp
  qed
  have "extends l (f2 # as') h h'" unfolding extends_def
    using r(2) new h2s(4) same by (simp add: extends_def) blast
  moreover have "h' l = Some (flink c f2)"
    using extends_keep [OF r(2), of l] ne h2s(2) by (simp add: domIff)
  moreover have "flowops_at h' f2 (f2 # as') (f # gs)" using r(3,4) new by simp
  ultimately show ?case using step r(1) a(4) by (intro exI [of _ "f2 # as'"] exI [of _ f2] exI [of _ h']) (simp add: l)
qed

lemma clone_txns_ok:
  assumes m: "fresh malloc"
  shows "txns_at h t1 xs ts \<Longrightarrow> finite (dom h) \<Longrightarrow> at g2 pt \<notin> set (txn_cells xs) \<Longrightarrow> h (at g2 pt) = Some c \<Longrightarrow>
    tkind pt c \<Longrightarrow> tlink c t1 = c \<Longrightarrow>
    \<exists>ys q h'. clone_txns malloc g2 t1 pt h = Some (Inr h') \<and> extends (at g2 pt) (txn_cells ys) h h' \<and>
      h' (at g2 pt) = Some (tlink c q) \<and> txns_at h' q ys ts"
proof (induction xs arbitrary: t1 pt h ts c)
  case Nil
  then show ?case
    by (intro exI [of _ "[]"] exI [of _ 0] exI [of _ h]) (simp add: clone_txns.simps extends_def)
next
  case (Cons x xs)
  obtain a as where x: "x = (a, as)" by (cases x)
  from Cons.prems(1) obtain u fl nxt us where a: "t1 = a" "a \<noteq> 0" "h a = Some (Txn_cell (u\<lparr>t_flist := []\<rparr>) fl nxt)" "ts = u # us"
    and f: "flowops_at h fl as (t_flist u)" and n: "txns_at h nxt xs us" unfolding x by (rule txns_atE)
  let ?t = "u\<lparr>t_flist := []\<rparr>"
  obtain t2 where t2: "t2 = malloc h" by simp
  have new: "t2 \<noteq> 0" "h t2 = None" using m Cons.prems(2) by (simp_all add: fresh_def t2)
  obtain l where l: "l = at g2 pt" by simp
  note das = flowops_at_dom [OF f] and dxs = txns_at_dom [OF n]
  have ne: "l \<noteq> t2" "l \<noteq> a" "a \<noteq> t2" "t2 \<notin> set as" "l \<notin> set as" "t2 \<notin> set (txn_cells xs)" "l \<notin> set (txn_cells xs)"
    using new a Cons.prems(3,4) das dxs x unfolding l by auto
  obtain h2 where h2: "h2 = h(t2 \<mapsto> Txn_cell ?t fl nxt, l \<mapsto> tlink c t2)" by simp
  have h2s: "h2 t2 = Some (Txn_cell ?t fl nxt)" "h2 l = Some (tlink c t2)" "h2 a = h a" "dom h2 = insert t2 (dom h)"
    "finite (dom h2)" "\<forall>x. x \<noteq> l \<longrightarrow> x \<noteq> t2 \<longrightarrow> h2 x = h x"
    using ne Cons.prems(2,4) by (auto simp: h2 l)
  have s: "(if pt = 0 then set_tlist g2 t2 (h(t2 \<mapsto> Txn_cell ?t fl nxt)) else set_tnext pt t2 (h(t2 \<mapsto> Txn_cell ?t fl nxt))) = Inr h2"
    using set_tlink [of "h(t2 \<mapsto> Txn_cell ?t fl nxt)" g2 pt c t2] Cons.prems(4,5) ne by (simp add: l h2)
  have f2: "flowops_at h2 fl as (t_flist u)" using ne h2s(6) by (intro flowops_at_frame [OF f]) auto
  have at2: "at t2 0 = t2" "at g2 t2 = t2" using new by (simp_all add: at_def)
  obtain as' q h3 where r: "clone_flowops malloc t2 fl 0 h2 = Some (Inr h3)" "extends t2 as' h2 h3"
    "h3 t2 = Some (Txn_cell ?t q nxt)" "flowops_at h3 q as' (t_flist u)"
    using clone_flowops_ok [OF m f2 h2s(5), of t2 0 "Txn_cell ?t fl nxt"] ne(4) h2s(1) by (auto simp: at2 fkind_def)
  have same: "h3 y = h y" if "y \<in> dom h" "y \<noteq> l" for y
  proof -
    have "y \<noteq> t2" using that new by auto
    then show ?thesis using extends_keep [OF r(2), of y] that h2s(4,6) by simp
  qed
  have l3: "h3 l = Some (tlink c t2)" using extends_keep [OF r(2), of l] ne h2s(2) by (simp add: domIff)
  have a3: "h3 a = Some (Txn_cell ?t fl nxt)" using same [of a] a ne by auto
  have step: "clone_txns malloc g2 t1 pt h = clone_txns malloc g2 nxt t2 h3"
    using a r(1) a3 by (subst clone_txns.simps) (simp add: s Let_def t2 [symmetric] h2s(3))
  have n3: "txns_at h3 nxt xs us" using same dxs ne(7) by (intro txns_at_frame [OF n]) blast
  have d3: "dom h3 = insert t2 (dom h) \<union> set as'" "distinct as'" "set as' \<inter> insert t2 (dom h) = {}"
    using r(2) h2s(4) by (auto simp: extends_def)
  have fin: "finite (dom h3)" using d3(1) Cons.prems(2) by simp
  obtain ys q' h' where r': "clone_txns malloc g2 nxt t2 h3 = Some (Inr h')" "extends t2 (txn_cells ys) h3 h'"
    "h' t2 = Some (Txn_cell ?t q q')" "txns_at h' q' ys us"
    using Cons.IH [OF n3 fin, of t2 "Txn_cell ?t q nxt"] r(3) new ne(6) by (auto simp: at2 tkind_def)
  have keep: "h' y = h3 y" if "y \<in> dom h3" "y \<noteq> t2" for y using r'(2) that by (simp add: extends_def)
  have "\<forall>y \<in> set as'. h' y = h3 y" using keep d3 by auto
  then have "flowops_at h' q as' (t_flist u)" by (rule flowops_at_frame [OF r(4)])
  then have "txns_at h' t2 ((t2, as') # ys) (u # us)" using r'(3,4) new by simp
  moreover have "extends l (t2 # as' @ txn_cells ys) h h'"
  proof -
    have e: "distinct (txn_cells ys)" "set (txn_cells ys) \<inter> dom h3 = {}" "dom h' = dom h3 \<union> set (txn_cells ys)"
      using r'(2) by (simp_all add: extends_def)
    have "h' y = h y" if "y \<in> dom h" "y \<noteq> l" for y
    proof -
      have "y \<noteq> t2" using that new by auto
      then show ?thesis using keep [of y] same [OF that] that d3(1) by simp
    qed
    moreover have "distinct (t2 # as' @ txn_cells ys)" using e d3 new by auto
    moreover have "set (t2 # as' @ txn_cells ys) \<inter> dom h = {}" using e d3 new by auto
    ultimately show ?thesis using e(3) d3(1) by (auto simp: extends_def)
  qed
  moreover have "h' l = Some (tlink c t2)"
    using keep [of l] l3 ne by auto
  ultimately show ?case using step r'(1) a(4)
    by (intro exI [of _ "(t2, as') # ys"] exI [of _ t2] exI [of _ h']) (simp add: l)
qed

section \<open>Freeing\<close>

lemma c_free_ok: "h p \<noteq> None \<Longrightarrow> p \<noteq> 0 \<Longrightarrow> c_free p h = Inr (h(p := None))"
  by (simp add: c_free_def)

lemma free_flowops_ok:
  "flowops_at h f1 as fs \<Longrightarrow> distinct as \<Longrightarrow> free_flowops f1 h = Some (Inr (h |` (- set as)))"
proof (induction as arbitrary: f1 h fs)
  case Nil
  then show ?case by (simp add: free_flowops.simps)
next
  case (Cons a as)
  from Cons.prems(1) obtain f nxt gs where a: "f1 = a" "a \<noteq> 0" "h a = Some (Flowop_cell f nxt)" "fs = f # gs"
    and n: "flowops_at h nxt as gs" by (rule flowops_atE)
  have "flowops_at (h(a := None)) nxt as gs" using Cons.prems(2) by (intro flowops_at_frame [OF n]) auto
  then have "free_flowops nxt (h(a := None)) = Some (Inr ((h(a := None)) |` (- set as)))"
    using Cons.IH Cons.prems(2) by (metis distinct.simps(2))
  moreover have "(h(a := None)) |` (- set as) = h |` (- set (a # as))" by (auto simp: restrict_map_def)
  ultimately show ?case using a by (subst free_flowops.simps) (simp add: c_free_ok)
qed

lemma free_txns_ok:
  "txns_at h t1 xs ts \<Longrightarrow> distinct (txn_cells xs) \<Longrightarrow> free_txns t1 h = Some (Inr (h |` (- set (txn_cells xs))))"
proof (induction xs arbitrary: t1 h ts)
  case Nil
  then show ?case by (simp add: free_txns.simps)
next
  case (Cons x xs)
  obtain a as where x: "x = (a, as)" by (cases x)
  from Cons.prems(1) obtain u fl nxt us where a: "t1 = a" "a \<noteq> 0" "h a = Some (Txn_cell (u\<lparr>t_flist := []\<rparr>) fl nxt)" "ts = u # us"
    and f: "flowops_at h fl as (t_flist u)" and n: "txns_at h nxt xs us" unfolding x by (rule txns_atE)
  have dist: "a \<notin> set as" "distinct as" "a \<notin> set (txn_cells xs)" "set as \<inter> set (txn_cells xs) = {}" "distinct (txn_cells xs)"
    using Cons.prems(2) x by auto
  let ?h1 = "h |` (- set as)"
  have f1: "free_flowops fl h = Some (Inr ?h1)" by (rule free_flowops_ok [OF f dist(2)])
  have a1: "?h1 a = Some (Txn_cell (u\<lparr>t_flist := []\<rparr>) fl nxt)" using a(3) dist(1) by simp
  have "\<forall>y \<in> set (txn_cells xs). (?h1(a := None)) y = h y" using dist by (auto simp: restrict_map_def)
  then have "txns_at (?h1(a := None)) nxt xs us" by (rule txns_at_frame [OF n])
  then have "free_txns nxt (?h1(a := None)) = Some (Inr (?h1(a := None) |` (- set (txn_cells xs))))" using Cons.IH dist by blast
  moreover have "?h1(a := None) |` (- set (txn_cells xs)) = h |` (- set (txn_cells (x # xs)))" using x by (auto simp: restrict_map_def)
  ultimately show ?case using a f1 a1 by (subst free_txns.simps) (simp add: c_free_ok)
qed

lemma group_free_ok:
  assumes "group_at h p xs g" and "distinct (p # txn_cells xs)"
  shows "group_free p h = Some (Inr (h |` (- set (p # txn_cells xs))))"
proof -
  from assms(1) obtain tp where p: "p \<noteq> 0" "h p = Some (Group_cell (g\<lparr>g_tlist := []\<rparr>) tp)" and t: "txns_at h tp xs (g_tlist g)"
    by (auto simp: group_at_def split: option.splits cell.splits)
  have "free_txns tp h = Some (Inr (h |` (- set (txn_cells xs))))" using free_txns_ok [OF t] assms(2) by simp
  moreover have "(h |` (- set (txn_cells xs)))(p := None) = h |` (- set (p # txn_cells xs))" by (auto simp: restrict_map_def)
  ultimately show ?thesis using p assms(2) by (simp add: group_free_def obind_def c_free_ok)
qed

text \<open>
  C24. Cloning a group makes a group of its own: in any finite store that holds a group, whatever
  fresh addresses \<open>malloc\<close> gives, \<open>group_clone\<close> returns a group that says the same as the
  original, in cells that are all new and differ from one another, and leaves the original and
  every other cell as they were; and \<open>group_free\<close> on the clone then frees each of its cells
  exactly once and nothing else, so that the store is what it was.
\<close>

theorem clone_then_free:
  assumes "fresh malloc" and "finite (dom h)" and "group_at h p xs g"
  shows "\<exists>q ys h'. group_clone malloc p h = Some (Inr (q, h')) \<and> group_at h' q ys g \<and> group_at h' p xs g \<and>
    distinct (q # txn_cells ys) \<and> set (q # txn_cells ys) \<inter> dom h = {} \<and> (\<forall>x \<in> dom h. h' x = h x) \<and>
    group_free q h' = Some (Inr h)"
proof -
  from assms(3) obtain tp where p: "p \<noteq> 0" "h p = Some (Group_cell (g\<lparr>g_tlist := []\<rparr>) tp)" and t: "txns_at h tp xs (g_tlist g)"
    by (auto simp: group_at_def split: option.splits cell.splits)
  obtain q where q: "q = malloc h" by simp
  have new: "q \<noteq> 0" "h q = None" using assms(1,2) by (simp_all add: fresh_def q)
  let ?h1 = "h(q \<mapsto> Group_cell (g\<lparr>g_tlist := []\<rparr>) tp)"
  note dx = txns_at_dom [OF t]
  have "txns_at ?h1 tp xs (g_tlist g)" using new dx by (intro txns_at_frame [OF t]) (auto simp: subset_iff)
  then obtain ys v h' where r: "clone_txns malloc q tp 0 ?h1 = Some (Inr h')" "extends q (txn_cells ys) ?h1 h'"
    "h' q = Some (Group_cell (g\<lparr>g_tlist := []\<rparr>) v)" "txns_at h' v ys (g_tlist g)"
    using clone_txns_ok [OF assms(1), of ?h1 tp xs "g_tlist g" q 0 "Group_cell (g\<lparr>g_tlist := []\<rparr>) tp"] assms(2) new dx
    by (auto simp: at_def tkind_def)
  have same: "\<forall>x \<in> dom h. h' x = h x" using r(2) new by (auto simp: extends_def)
  have gq: "group_at h' q ys g" using r(3,4) new by (simp add: group_at_def)
  have d: "distinct (q # txn_cells ys)" "set (q # txn_cells ys) \<inter> dom h = {}" "dom h' = dom h \<union> set (q # txn_cells ys)"
    using r(2) new by (auto simp: extends_def)
  have "h' |` (- set (q # txn_cells ys)) = h"
  proof
    fix x
    show "(h' |` (- set (q # txn_cells ys))) x = h x"
      using d(2,3) same by (cases "x \<in> dom h") (auto simp: restrict_map_def dest: domIff [THEN iffD2])
  qed
  then have "group_free q h' = Some (Inr h)" using group_free_ok [OF gq d(1)] by simp
  moreover have tx: "txns_at h' tp xs (g_tlist g)" using same dx by (intro txns_at_frame [OF t]) (auto simp: subset_iff)
  moreover have "h' p = Some (Group_cell (g\<lparr>g_tlist := []\<rparr>) tp)" using bspec [OF same, of p] p(2) by (simp add: domI)
  then have "group_at h' p xs g" using p(1) tx by (simp add: group_at_def)
  moreover have "group_clone malloc p h = Some (Inr (q, h'))"
    using p r(1) by (simp add: group_clone_def q [symmetric] obind_def)
  ultimately show ?thesis using gq d(1,2) same by blast
qed

text \<open>A group of one transaction with two flowops, in cells 1 to 4.\<close>

definition next_cell :: "heap \<Rightarrow> ptr" where
  "next_cell h = Suc (Max (insert 0 (dom h)))"

lemma next_cell_fresh: "fresh next_cell"
  unfolding fresh_def
proof (intro allI impI conjI)
  fix h :: heap
  assume f: "finite (dom h)"
  show "next_cell h \<noteq> 0" by (simp add: next_cell_def)
  have "next_cell h \<notin> dom h"
  proof
    assume "next_cell h \<in> dom h"
    then have "next_cell h \<le> Max (insert 0 (dom h))" using f by (intro Max_ge) auto
    then show False by (simp add: next_cell_def)
  qed
  then show "h (next_cell h) = None" by auto
qed

definition lab_group_mem :: "flowop \<Rightarrow> txn \<Rightarrow> group \<Rightarrow> heap" where
  "lab_group_mem f t g = [1 \<mapsto> Group_cell (g\<lparr>g_tlist := []\<rparr>) 2, 2 \<mapsto> Txn_cell (t\<lparr>t_flist := []\<rparr>) 3 0,
     3 \<mapsto> Flowop_cell f 4, 4 \<mapsto> Flowop_cell (f\<lparr>f_id := 1\<rparr>) 0]"

theorem clone_then_free_witness:
  "\<forall>f t g. let h = lab_group_mem f t g; two = g\<lparr>g_tlist := [t\<lparr>t_flist := [f, f\<lparr>f_id := 1\<rparr>]\<rparr>]\<rparr> in
     \<exists>ys h'. group_clone next_cell 1 h = Some (Inr (5, h')) \<and> group_at h' 5 ys two \<and> group_at h' 1 [(2, [3, 4])] two \<and>
       group_free 5 h' = Some (Inr h)"
proof (intro allI)
  fix f t g
  let ?h = "lab_group_mem f t g" and ?two = "g\<lparr>g_tlist := [t\<lparr>t_flist := [f, f\<lparr>f_id := 1\<rparr>]\<rparr>]\<rparr>"
  have d: "dom ?h = {1, 2, 3, 4}" by (auto simp: lab_group_mem_def)
  have "group_at ?h 1 [(2, [3, 4])] ?two" by (simp add: lab_group_mem_def group_at_def)
  then obtain q ys h' where r: "group_clone next_cell 1 ?h = Some (Inr (q, h'))" "group_at h' q ys ?two"
    "group_at h' 1 [(2, [3, 4])] ?two" "group_free q h' = Some (Inr ?h)"
    using clone_then_free [OF next_cell_fresh, of ?h 1 "[(2, [3, 4])]" ?two] d by auto
  have "next_cell ?h = 5" by (simp add: next_cell_def d)
  then have "q = 5" using r(1) by (auto simp: group_clone_def obind_def Let_def split: if_splits option.splits cell.splits sum.splits)
  then show "let h = ?h; two = ?two in \<exists>ys h'. group_clone next_cell 1 h = Some (Inr (5, h')) \<and> group_at h' 5 ys two \<and>
      group_at h' 1 [(2, [3, 4])] two \<and> group_free 5 h' = Some (Inr h)"
    using r unfolding Let_def by blast
qed

end
