(* ===== verification/Netstat_Bsd.thy ===== *)
theory Netstat_Bsd
  imports Netstat
begin

text \<open>
  The traffic of the interfaces on the other platforms (\<open>src/netstat.c\<close>). On FreeBSD and macOS the
  output of \<open>netstat -bi\<close> is read, whose text is a parameter, \<open>None\<close> if it cannot be started. The
  column \<open>Address\<close> may be empty, so it is blanked out where the header has it, and not counted.
  The line is kept as the array of 1024 characters it is read into, because the blanks are
  written at a fixed place, be the line as long or not. On Solaris the counters come from libkstat,
  which is a parameter.
\<close>

section \<open>The line buffer\<close>

definition NETSTAT_BLANK :: string where "NETSTAT_BLANK = '' ''"
definition NETSTAT_ADDRLEN :: nat where "NETSTAT_ADDRLEN = 17"

fun strstr :: "string \<Rightarrow> string \<Rightarrow> nat option" where
  \<comment> \<open>how far into \<open>s\<close> the first occurrence of the word is; \<open>None\<close>: the null pointer\<close>
  "strstr word [] = (if word = [] then Some 0 else None)"
| "strstr word (c # s) = (if take (length word) (c # s) = word then Some 0 else map_option Suc (strstr word s))"

definition fill :: "string \<Rightarrow> string \<Rightarrow> string" where
  \<comment> \<open>\<open>fgets\<close> writes the line and a NUL over the start of the array\<close>
  "fill line buf = line @ NUL # drop (length line + 1) buf"

definition c_str :: "string \<Rightarrow> string option" where
  "c_str buf = (if NUL \<in> set buf then Some (takeWhile (\<lambda>c. c \<noteq> NUL) buf) else None)"

definition blank_address :: "int \<Rightarrow> string \<Rightarrow> c_stop + string" where
  \<comment> \<open>\<open>memset(buffer + o_address, ' ', NETSTAT_ADDRLEN)\<close>\<close>
  "blank_address off buf =
     (if off < 0 \<or> int (length buf) < off + int NETSTAT_ADDRLEN then Inl Undefined
      else Inr (take (nat off) buf @ replicate NETSTAT_ADDRLEN CHR '' '' @ drop (nat off + NETSTAT_ADDRLEN) buf))"

fun strtok_scars :: "string \<Rightarrow> bool \<Rightarrow> string \<Rightarrow> string" where
  \<comment> \<open>what \<open>strtok\<close> leaves of a string once it is used up: each token's end is a NUL\<close>
  "strtok_scars d inside [] = []"
| "strtok_scars d inside (c # s) =
     (if c \<in> set d then (if inside then NUL else c) # strtok_scars d False s else c # strtok_scars d True s)"

definition used_up :: "string \<Rightarrow> string" where
  "used_up buf = (let s = takeWhile (\<lambda>c. c \<noteq> NUL) buf in strtok_scars NETSTAT_BLANK False s @ drop (length s) buf)"

section \<open>The header of netstat\<close>

record bsd_columns = columns +
  o_address :: int

fun bsd_header :: "string list \<Rightarrow> nat \<Rightarrow> bsd_columns \<Rightarrow> bsd_columns" where
  "bsd_header [] index c = c"
| "bsd_header (t # ts) index c =
     bsd_header ts (if t \<noteq> ''Address'' then index + 1 else index)
       (if t = ''Ipkts'' then c\<lparr>i_rpkts := index\<rparr>
        else if t = ''Ibytes'' then c\<lparr>i_rbytes := index\<rparr>
        else if t = ''Opkts'' then c\<lparr>i_tpkts := index\<rparr>
        else if t = ''Obytes'' then c\<lparr>i_tbytes := index\<rparr>
        else c)"

definition netstat_init_bsd :: "bool \<Rightarrow> string option \<Rightarrow> bsd_columns \<Rightarrow> c_stop + int \<times> bsd_columns" where
  \<comment> \<open>the flag: \<open>UPERF_DARWIN\<close>\<close>
  "netstat_init_bsd darwin output c =
     (case output of
        None \<Rightarrow> Inr (UPERF_FAILURE, c)
      | Some s \<Rightarrow>
          let c1 = c\<lparr>i_rbytes := 0, i_rpkts := 0, i_tbytes := 0, i_tpkts := 0\<rparr> in
          (case fgets 1024 s of
             None \<Rightarrow> Inr (UPERF_FAILURE, c1)
           | Some (line, _) \<Rightarrow>
               let text = takeWhile (\<lambda>x. x \<noteq> NUL) line in
               (case strstr ''Address'' text of
                  None \<Rightarrow> Inl Undefined
                | Some k \<Rightarrow>
                    let c2 = bsd_header (strtok_all NETSTAT_BLANK text) 0
                               (c1\<lparr>o_address := (if darwin then int k - 2 else int k)\<rparr>)
                    in Inr (if i_rpkts c2 = i_tpkts c2 \<or> i_rbytes c2 = i_tbytes c2 then UPERF_FAILURE else UPERF_SUCCESS, c2))))"

section \<open>A line per interface\<close>

definition netstat_parse_bsd :: "bsd_columns \<Rightarrow> ('w \<Rightarrow> u64 \<times> 'w) \<Rightarrow> string \<Rightarrow> packet_stats \<Rightarrow> 'w \<Rightarrow> packet_stats \<times> 'w" where
  "netstat_parse_bsd c clk text ps w =
     (case clk w of (t, w1) \<Rightarrow>
        ((parse_columns (columns.truncate c) (strtok_all NETSTAT_BLANK text) 0
            (ps\<lparr>ps_tx_pkts := 0, ps_rx_pkts := 0, ps_tx_bytes := 0, ps_rx_bytes := 0\<rparr>))\<lparr>ps_stamp := t\<rparr>, w1))"

definition snap_line_bsd ::
  "bsd_columns \<Rightarrow> ('w \<Rightarrow> u64 \<times> 'w) \<Rightarrow> bool \<Rightarrow> string \<Rightarrow> nic list \<times> string \<times> 'w \<Rightarrow> c_stop + nic list \<times> string \<times> 'w" where
  \<comment> \<open>one turn of the loop of \<open>netstat_snap\<close>; the flag: \<open>SNAP_BEGIN\<close>\<close>
  "snap_line_bsd c clk first line x =
     (case x of (nics, buf, w) \<Rightarrow>
        cbind (blank_address (o_address c) (fill line buf)) (\<lambda>buf1.
          case c_str buf1 of
            None \<Rightarrow> Inl Undefined
          | Some text \<Rightarrow>
              (case strtok_all NETSTAT_BLANK text of
                 [] \<Rightarrow> Inl Undefined
               | interface # _ \<Rightarrow>
                   if first then
                     (if MAX_NETS \<le> length nics then Inl Undefined
                      else case netstat_parse_bsd c clk text zero_packets w of (ps, w1) \<Rightarrow>
                        Inr (nics @ [\<lparr>nic_s0 = ps, nic_s1 = zero_packets, nic_interface = take INTERFACE_LEN interface\<rparr>],
                             used_up buf1, w1))
                   else (case find_nic interface nics of
                           None \<Rightarrow> Inr (nics, buf1, w)
                         | Some i \<Rightarrow>
                             (case netstat_parse_bsd c clk text (nic_s1 (nics ! i)) w of (ps, w1) \<Rightarrow>
                                Inr (nics[i := (nics ! i)\<lparr>nic_s1 := ps\<rparr>], used_up buf1, w1))))))"

fun snap_lines_bsd ::
  "bsd_columns \<Rightarrow> ('w \<Rightarrow> u64 \<times> 'w) \<Rightarrow> bool \<Rightarrow> string list \<Rightarrow> nic list \<times> string \<times> 'w \<Rightarrow> c_stop + nic list \<times> string \<times> 'w" where
  "snap_lines_bsd c clk first [] x = Inr x"
| "snap_lines_bsd c clk first (l # ls) x = cbind (snap_line_bsd c clk first l x) (snap_lines_bsd c clk first ls)"

definition netstat_snap_bsd ::
  "string option \<Rightarrow> bsd_columns \<Rightarrow> ('w \<Rightarrow> u64 \<times> 'w) \<Rightarrow> string \<Rightarrow> bool \<Rightarrow> nic list \<times> 'w \<Rightarrow> c_stop + int \<times> nic list \<times> 'w" where
  \<comment> \<open>\<open>junk\<close>: what the array holds at first\<close>
  "netstat_snap_bsd output c clk junk first x =
     (case output of
        None \<Rightarrow> Inr (UPERF_FAILURE, x)
      | Some s \<Rightarrow>
          cbind (snap_lines_bsd c clk first (read_lines s) (fst x, junk, snd x)) (\<lambda>(nics, _, w).
            Inr (UPERF_SUCCESS, nics, w)))"

section \<open>Solaris\<close>

datatype kstat_value = Kstat_32 u32 | Kstat_64 u64 | Kstat_other

text \<open>libkstat, over the state of the world; an entry of the chain is a number.\<close>

record 'w kstat_lib =
  ks_open :: "'w \<Rightarrow> bool \<times> 'w"
  ks_update :: "'w \<Rightarrow> int \<times> 'w"
  ks_chain :: "'w \<Rightarrow> nat list"
  ks_named :: "nat \<Rightarrow> bool"
  ks_class :: "nat \<Rightarrow> string"
  ks_name :: "nat \<Rightarrow> string"
  ks_read :: "nat \<Rightarrow> 'w \<Rightarrow> int \<times> 'w"
  ks_lookup :: "'w \<Rightarrow> nat \<Rightarrow> string \<Rightarrow> kstat_value option"

record knic = nic +
  k_ksp :: nat

definition kstat_named_value :: "'w kstat_lib \<Rightarrow> 'w \<Rightarrow> nat \<Rightarrow> string \<Rightarrow> u64" where
  "kstat_named_value L w ksp name =
     (case ks_lookup L w ksp name of
        None \<Rightarrow> 0
      | Some (Kstat_32 v) \<Rightarrow> ucast v
      | Some (Kstat_64 v) \<Rightarrow> v
      | Some Kstat_other \<Rightarrow> 0)"

definition kstat_wanted :: "'w kstat_lib \<Rightarrow> nat \<Rightarrow> 'w \<Rightarrow> bool \<times> 'w" where
  \<comment> \<open>the condition of the \<open>continue\<close>, negated; \<open>kstat_read\<close> is called behind two tests\<close>
  "kstat_wanted L ksp w =
     (if \<not> ks_named L ksp then (False, w)
      else if ks_class L ksp \<noteq> ''net'' then (False, w)
      else case ks_read L ksp w of (r, w1) \<Rightarrow>
        (r \<noteq> - 1 \<and> ks_lookup L w1 ksp ''ipackets64'' \<noteq> None \<and> ks_lookup L w1 ksp ''opackets64'' \<noteq> None, w1))"

fun kstat_nics :: "'w kstat_lib \<Rightarrow> nat list \<Rightarrow> knic list \<times> 'w \<Rightarrow> c_stop + int \<times> knic list \<times> 'w" where
  "kstat_nics L [] (nics, w) = Inr (0, nics, w)"
| "kstat_nics L (k # ks) (nics, w) =
     (case kstat_wanted L k w of (b, w1) \<Rightarrow>
        if \<not> b then kstat_nics L ks (nics, w1)
        else if MAX_NETS \<le> length nics then Inl Undefined
        else let nics1 = nics @ [\<lparr>nic_s0 = zero_packets, nic_s1 = zero_packets,
                                  nic_interface = strlcpy INTERFACE_LEN (ks_name L k), k_ksp = k\<rparr>]
             in if MAX_NETS \<le> length nics1 then Inr (- 1, nics1, w1) else kstat_nics L ks (nics1, w1))"

definition netstat_init_kstat :: "'w kstat_lib \<Rightarrow> knic list \<times> 'w \<Rightarrow> c_stop + int \<times> knic list \<times> 'w" where
  "netstat_init_kstat L x =
     (case ks_open L (snd x) of (ok, w1) \<Rightarrow>
        if \<not> ok then Inl Undefined
        else case ks_update L w1 of (_, w2) \<Rightarrow> kstat_nics L (ks_chain L w2) (fst x, w2))"

definition kstat_packets :: "'w kstat_lib \<Rightarrow> ('w \<Rightarrow> u64 \<times> 'w) \<Rightarrow> nat \<Rightarrow> 'w \<Rightarrow> packet_stats \<times> 'w" where
  "kstat_packets L clk ksp w =
     (case ks_read L ksp w of (_, w1) \<Rightarrow>
        case clk w1 of (t, w2) \<Rightarrow>
          (\<lparr>ps_tx_pkts = kstat_named_value L w1 ksp ''opackets64'', ps_rx_pkts = kstat_named_value L w1 ksp ''ipackets64'',
            ps_tx_bytes = kstat_named_value L w1 ksp ''obytes64'', ps_rx_bytes = kstat_named_value L w1 ksp ''rbytes64'',
            ps_stamp = t\<rparr>, w2))"

fun kstat_snaps :: "'w kstat_lib \<Rightarrow> ('w \<Rightarrow> u64 \<times> 'w) \<Rightarrow> bool \<Rightarrow> knic list \<Rightarrow> 'w \<Rightarrow> knic list \<times> 'w" where
  "kstat_snaps L clk first [] w = ([], w)"
| "kstat_snaps L clk first (n # ns) w =
     (case kstat_packets L clk (k_ksp n) w of (ps, w1) \<Rightarrow>
      case kstat_snaps L clk first ns w1 of (ns1, w2) \<Rightarrow>
        ((if first then n\<lparr>nic_s0 := ps\<rparr> else n\<lparr>nic_s1 := ps\<rparr>) # ns1, w2))"

definition netstat_snap_kstat ::
  "'w kstat_lib \<Rightarrow> ('w \<Rightarrow> u64 \<times> 'w) \<Rightarrow> bool \<Rightarrow> bool \<times> knic list \<times> 'w \<Rightarrow> bool \<times> knic list \<times> 'w" where
  \<comment> \<open>\<open>state_changed\<close> is set if the chain has changed\<close>
  "netstat_snap_kstat L clk first x =
     (case x of (changed, nics, w) \<Rightarrow>
      case ks_update L w of (u, w1) \<Rightarrow>
      case kstat_snaps L clk first nics w1 of (nics1, w2) \<Rightarrow> (changed \<or> u \<noteq> 0, nics1, w2))"

definition WARNSTR :: string where
  "WARNSTR = ''WARNING: kstat state changed. kstat numbers may be wrong\<newline>''"

definition print_netstat_kstat :: "bool \<Rightarrow> nat option \<Rightarrow> knic list \<Rightarrow> c_stop + string" where
  "print_netstat_kstat changed cols nics =
     cbind (print_nics (map nic.truncate nics)) (\<lambda>s.
       Inr (''\<newline>Netstat statistics for this run\<newline>'' @ (if changed then WARNSTR else []) @ uperf_line cols @
            pad_right 5 ''Nic'' @ ''  '' @ pad_left 10 ''opkts/s'' @ ''  '' @ pad_left 10 ''ipkts/s'' @ ''  '' @
            pad_left 11 ''obits/s'' @ ''  '' @ pad_left 11 ''ibits/s'' @ ''\<newline>'' @ s @ uperf_line cols))"


text \<open>The chain is cut off when the array is full, and nothing is written past its end.\<close>

lemma kstat_nics_bounded:
  "kstat_nics L ks (nics, w) = Inr (r, nics', w') \<Longrightarrow> length nics < MAX_NETS \<Longrightarrow>
   length nics' \<le> MAX_NETS \<and> (r = - 1 \<longleftrightarrow> length nics' = MAX_NETS)"
  by (induction ks arbitrary: nics w) (auto simp: Let_def not_le split: prod.splits if_splits)

text \<open>Interfaces keep their entries: the two snapshots write nothing but the counters.\<close>

lemma kstat_snaps_keep:
  "map k_ksp (fst (kstat_snaps L clk first ns w)) = map k_ksp ns"
  "map nic_interface (fst (kstat_snaps L clk first ns w)) = map nic_interface ns"
  by (induction ns arbitrary: w) (simp_all add: case_prod_beta)

section \<open>Words and their places\<close>

lemma strtok_all_none: "set a \<subseteq> set d \<Longrightarrow> strtok_all d a = []"
  using strtok_all_skip [of a d "[]"] by (subst strtok_all.simps) (simp add: strtok_def subset_iff)

lemma first_word:
  assumes "s \<noteq> []" and "hd s \<notin> D"
  shows "\<exists>w r. s = w @ r \<and> w \<noteq> [] \<and> set w \<inter> D = {} \<and> (r = [] \<or> (\<exists>e r'. r = e # r' \<and> e \<in> D))"
proof (intro exI conjI)
  show "s = takeWhile (\<lambda>x. x \<notin> D) s @ dropWhile (\<lambda>x. x \<notin> D) s" by simp
  show "takeWhile (\<lambda>x. x \<notin> D) s \<noteq> []" using assms by (cases s) auto
  show "set (takeWhile (\<lambda>x. x \<notin> D) s) \<inter> D = {}" by (auto dest: set_takeWhileD)
  show "dropWhile (\<lambda>x. x \<notin> D) s = [] \<or> (\<exists>e r'. dropWhile (\<lambda>x. x \<notin> D) s = e # r' \<and> e \<in> D)"
    using hd_dropWhile [of "\<lambda>x. x \<notin> D" s] by (cases "dropWhile (\<lambda>x. x \<notin> D) s") auto
qed

lemma strtok_all_append: "c \<in> set d \<Longrightarrow> strtok_all d (a @ c # b) = strtok_all d a @ strtok_all d b"
proof (induction a rule: measure_induct_rule [of length])
  case (less a)
  let ?l = "takeWhile (\<lambda>x. x \<in> set d) a" and ?s = "dropWhile (\<lambda>x. x \<in> set d) a"
  have a: "a = ?l @ ?s" and l: "set ?l \<subseteq> set d" by (auto dest: set_takeWhileD)
  have skip: "strtok_all d (a @ c # b) = strtok_all d (?s @ c # b)" "strtok_all d a = strtok_all d ?s"
    using strtok_all_skip [OF l, of "?s @ c # b"] strtok_all_skip [OF l, of ?s]
    by (simp_all only: append_assoc [symmetric] takeWhile_dropWhile_id)
  show ?case
  proof (cases "?s = []")
    case True
    then show ?thesis unfolding skip using strtok_all_skip [of "[c]" d b] less.prems strtok_all_none [of "[]" d]
      by (simp del: dropWhile_eq_Nil_conv)
  next
    case False
    obtain w r where s: "?s = w @ r" and w: "w \<noteq> []" "set w \<inter> set d = {}"
      and r: "r = [] \<or> (\<exists>e r'. r = e # r' \<and> e \<in> set d)"
      using first_word [OF False hd_dropWhile [OF False]] by metis
    from r show ?thesis
    proof (elim disjE exE conjE)
      assume "r = []"
      with s show ?thesis unfolding skip using strtok_all_word [OF w less.prems, of b] strtok_all_last [OF w] by simp
    next
      fix e r' assume e: "r = e # r'" "e \<in> set d"
      have "length r' < length a" using s e(1) length_dropWhile_le [of "\<lambda>x. x \<in> set d" a] by simp
      from less.IH [OF this less.prems] strtok_all_word [OF w e(2)] show ?thesis
        unfolding skip s e(1) by simp
    qed
  qed
qed

definition place :: "string \<Rightarrow> string list \<Rightarrow> nat" where
  "place n ns = length (takeWhile (\<lambda>x. x \<noteq> n) ns)"

lemma place_Cons [simp]: "place n (x # xs) = (if x = n then 0 else Suc (place n xs))"
  by (simp add: place_def)

lemma place_less: "n \<in> set ns \<Longrightarrow> place n ns < length ns"
  by (induction ns) auto

lemma place_eq: "n \<in> set ns \<Longrightarrow> m \<in> set ns \<Longrightarrow> place n ns = place m ns \<Longrightarrow> n = m"
  by (induction ns) (auto split: if_splits)

lemma map_of_zip_place:
  "n \<in> set ns \<Longrightarrow> map_of (zip ns ws) n = (if place n ns < length ws then Some (ws ! place n ns) else None)"
proof (induction ns arbitrary: ws)
  case (Cons m ns)
  then show ?case by (cases ws) auto
qed simp

abbreviation no_address :: "string list \<Rightarrow> string list" where
  "no_address ts \<equiv> filter (\<lambda>t. t \<noteq> ''Address'') ts"

fun last_place :: "string \<Rightarrow> string list \<Rightarrow> nat \<Rightarrow> nat \<Rightarrow> nat" where
  \<comment> \<open>one of the columns that \<^const>\<open>bsd_header\<close> keeps\<close>
  "last_place n [] k v = v"
| "last_place n (t # ts) k v = last_place n ts (if t \<noteq> ''Address'' then k + 1 else k) (if t = n then k else v)"

lemma bsd_header_places:
  "i_rpkts (bsd_header ts k c) = last_place ''Ipkts'' ts k (i_rpkts c)"
  "i_rbytes (bsd_header ts k c) = last_place ''Ibytes'' ts k (i_rbytes c)"
  "i_tpkts (bsd_header ts k c) = last_place ''Opkts'' ts k (i_tpkts c)"
  "i_tbytes (bsd_header ts k c) = last_place ''Obytes'' ts k (i_tbytes c)"
  "o_address (bsd_header ts k c) = o_address c"
  by (induction ts arbitrary: k c) auto

lemma last_place_eq:
  assumes "n \<noteq> ''Address''" and "distinct (no_address ts)"
  shows "last_place n ts k v = (if n \<in> set ts then k + place n (no_address ts) else v)"
  using assms(2)
proof (induction ts arbitrary: k v)
  case (Cons t ts)
  then show ?case using assms(1) by (cases "t = ''Address''"; cases "t = n") auto
qed simp

lemma parse_columns_at:
  assumes "distinct [i_rbytes c, i_tbytes c, i_tpkts c, i_rpkts c]"
  shows "ps_rx_bytes (parse_columns c ts k ps) =
      (if k \<le> i_rbytes c \<and> i_rbytes c < k + length ts then strtoull (ts ! (i_rbytes c - k)) else ps_rx_bytes ps)"
    and "ps_tx_bytes (parse_columns c ts k ps) =
      (if k \<le> i_tbytes c \<and> i_tbytes c < k + length ts then strtoull (ts ! (i_tbytes c - k)) else ps_tx_bytes ps)"
    and "ps_tx_pkts (parse_columns c ts k ps) =
      (if k \<le> i_tpkts c \<and> i_tpkts c < k + length ts then strtoull (ts ! (i_tpkts c - k)) else ps_tx_pkts ps)"
    and "ps_rx_pkts (parse_columns c ts k ps) =
      (if k \<le> i_rpkts c \<and> i_rpkts c < k + length ts then strtoull (ts ! (i_rpkts c - k)) else ps_rx_pkts ps)"
  using assms
  by (induction ts arbitrary: k ps; auto simp: nth_Cons' not_less le_Suc_eq)+


section \<open>What the table says\<close>

text \<open>
  The table as it is printed: a header with the text \<open>a\<close> before \<open>Address\<close> and \<open>b\<close> behind it, and rows
  whose middle is the field of the address, filled or blank. A number is found by the name of its
  column, among the columns other than the address.
\<close>

definition bsd_head :: "string \<Rightarrow> string \<Rightarrow> string" where
  "bsd_head a b = a @ '' '' @ ''Address'' @ '' '' @ b @ [CHR 0x0A]"

definition bsd_names :: "string \<Rightarrow> string \<Rightarrow> string list" where
  "bsd_names a b = strtok_all NETSTAT_BLANK a @ strtok_all NETSTAT_BLANK (b @ [CHR 0x0A])"

definition bsd_head_ok :: "string \<Rightarrow> string \<Rightarrow> bool" where
  "bsd_head_ok a b =
     (a \<noteq> [] \<and> list_all (\<lambda>c. c \<noteq> CHR 0x0A \<and> c \<noteq> NUL) (a @ b) \<and> length (bsd_head a b) < 1024 \<and>
      strstr ''Address'' (bsd_head a b) = Some (Suc (length a)) \<and>
      distinct (bsd_names a b) \<and> ''Address'' \<notin> set (bsd_names a b) \<and>
      {''Ipkts'', ''Ibytes'', ''Opkts'', ''Obytes''} \<subseteq> set (bsd_names a b))"

definition address_at :: "bool \<Rightarrow> string \<Rightarrow> nat" where
  "address_at darwin a = (if darwin then length a - 1 else length a + 1)"

record bsd_row =
  br_left :: string
  br_addr :: string
  br_right :: string

definition row_text :: "bsd_row \<Rightarrow> string" where
  "row_text r = br_left r @ br_addr r @ br_right r @ [CHR 0x0A]"

definition row_words :: "bsd_row \<Rightarrow> string list" where
  "row_words r = strtok_all NETSTAT_BLANK (br_left r) @ strtok_all NETSTAT_BLANK (br_right r @ [CHR 0x0A])"

definition row_ok :: "nat \<Rightarrow> bsd_row \<Rightarrow> bool" where
  "row_ok off r =
     (length (br_left r) = off \<and> length (br_addr r) = NETSTAT_ADDRLEN \<and>
      list_all (\<lambda>c. c \<noteq> CHR 0x0A \<and> c \<noteq> NUL) (br_left r @ br_addr r @ br_right r) \<and>
      length (row_text r) < 1023 \<and> row_words r \<noteq> [])"

definition under :: "string list \<Rightarrow> string list \<Rightarrow> string \<Rightarrow> nat" where
  "under names ws n = (case map_of (zip names ws) n of None \<Rightarrow> 0 | Some t \<Rightarrow> unat (strtoull t))"

definition row_packets :: "string list \<Rightarrow> bsd_row \<Rightarrow> nat \<times> nat \<times> nat \<times> nat" where
  "row_packets names r =
     (under names (row_words r) ''Ibytes'', under names (row_words r) ''Ipkts'',
      under names (row_words r) ''Obytes'', under names (row_words r) ''Opkts'')"

definition names_found :: "string list \<Rightarrow> bsd_columns \<Rightarrow> bool" where
  "names_found names c =
     (i_rpkts c = place ''Ipkts'' names \<and> i_rbytes c = place ''Ibytes'' names \<and>
      i_tpkts c = place ''Opkts'' names \<and> i_tbytes c = place ''Obytes'' names)"

lemma no_address_same: "''Address'' \<notin> set ts \<Longrightarrow> no_address ts = ts"
  by (induction ts) auto

lemma bsd_header_read:
  assumes "bsd_head_ok a b"
  shows "\<exists>c'. netstat_init_bsd darwin (Some (bsd_head a b @ others)) c = Inr (UPERF_SUCCESS, c') \<and>
    names_found (bsd_names a b) c' \<and> o_address c' = int (address_at darwin a)"
proof -
  let ?h = "bsd_head a b" and ?ns = "bsd_names a b"
  let ?ts = "strtok_all NETSTAT_BLANK ?h"
  let ?c1 = "c\<lparr>i_rbytes := 0, i_rpkts := 0, i_tbytes := 0, i_tpkts := 0, o_address := (if darwin then int (Suc (length a)) - 2 else int (Suc (length a)))\<rparr>"
  let ?c2 = "bsd_header ?ts 0 ?c1"
  from assms have a: "a \<noteq> []" and len: "length ?h < 1024" and str: "strstr ''Address'' ?h = Some (Suc (length a))"
    and d: "distinct ?ns" "''Address'' \<notin> set ?ns" and n: "{''Ipkts'', ''Ibytes'', ''Opkts'', ''Obytes''} \<subseteq> set ?ns"
    and nl: "CHR 0x0A \<notin> set (a @ b)" and nul: "NUL \<notin> set ?h"
    by (auto simp: bsd_head_ok_def list_all_iff bsd_head_def)
  have bl: "CHR '' '' \<in> set NETSTAT_BLANK" "set NETSTAT_BLANK = {CHR '' ''}" by (simp_all add: NETSTAT_BLANK_def)
  have "?ts = strtok_all NETSTAT_BLANK a @ strtok_all NETSTAT_BLANK (''Address'' @ CHR '' '' # b @ [CHR 0x0A])"
    using strtok_all_append [OF bl(1), of a "''Address'' @ CHR '' '' # b @ [CHR 0x0A]"] by (simp add: bsd_head_def)
  also have "strtok_all NETSTAT_BLANK (''Address'' @ CHR '' '' # b @ [CHR 0x0A]) = ''Address'' # strtok_all NETSTAT_BLANK (b @ [CHR 0x0A])"
    by (rule strtok_all_word [OF _ _ bl(1)]) (simp_all add: bl(2))
  finally have ts: "no_address ?ts = ?ns" using d(2) by (simp add: bsd_names_def no_address_same)
  then have "n \<in> set ?ts" if "n \<in> set ?ns" for n using that by (metis filter_is_subset subsetD)
  then have f: "names_found ?ns ?c2" using n d(1) by (simp add: names_found_def bsd_header_places last_place_eq ts)
  then have ne: "i_rpkts ?c2 \<noteq> i_tpkts ?c2" "i_rbytes ?c2 \<noteq> i_tbytes ?c2"
    using n place_eq [of "''Ipkts''" ?ns "''Opkts''"] place_eq [of "''Ibytes''" ?ns "''Obytes''"] by (auto simp: names_found_def)
  have o': "o_address ?c2 = int (address_at darwin a)" using a by (cases a) (simp_all add: bsd_header_places(5) address_at_def)
  have "?h @ others = (a @ '' '' @ ''Address'' @ '' '' @ b) @ CHR 0x0A # others" by (simp add: bsd_head_def)
  moreover have "fgets 1024 ((a @ '' '' @ ''Address'' @ '' '' @ b) @ CHR 0x0A # others) = Some ((a @ '' '' @ ''Address'' @ '' '' @ b) @ [CHR 0x0A], others)"
    using nl len by (intro fgets_line) (auto simp: bsd_head_def)
  ultimately have g: "fgets 1024 (?h @ others) = Some (?h, others)" by (simp add: bsd_head_def)
  have t: "takeWhile (\<lambda>x. x \<noteq> NUL) ?h = ?h" using nul by (auto simp: takeWhile_eq_all_conv)
  have "netstat_init_bsd darwin (Some (?h @ others)) c = Inr (UPERF_SUCCESS, ?c2)"
    unfolding netstat_init_bsd_def option.case Let_def g prod.case t str using ne by simp
  with f o' show ?thesis by blast
qed

lemma read_lines_rows:
  "list_all (row_ok off) rows \<Longrightarrow> read_lines (concat (map row_text rows)) = map row_text rows"
proof (induction rows)
  case Nil
  show ?case by (simp add: read_lines.simps fgets_def)
next
  case (Cons r rows)
  then have "CHR 0x0A \<notin> set (br_left r @ br_addr r @ br_right r)" "length (br_left r @ br_addr r @ br_right r) + 1 < 1024"
    by (auto simp: row_ok_def list_all_iff row_text_def)
  from fgets_line [OF this, of "concat (map row_text rows)"]
  have "fgets 1024 (concat (map row_text (r # rows))) = Some (row_text r, concat (map row_text rows))" by (simp add: row_text_def)
  with Cons show ?case by (subst read_lines.simps) simp
qed

lemma row_blanked:
  assumes "row_ok off r" and "length buf = 1024"
  obtains rest where "blank_address (int off) (fill (row_text r) buf) = Inr ((br_left r @ replicate NETSTAT_ADDRLEN CHR '' '' @ br_right r @ [CHR 0x0A]) @ NUL # rest)"
    and "length ((br_left r @ replicate NETSTAT_ADDRLEN CHR '' '' @ br_right r @ [CHR 0x0A]) @ NUL # rest) = 1024"
proof -
  let ?rest = "drop (length (row_text r) + 1) buf"
  from assms(1) have l: "length (br_left r) = off" "length (br_addr r) = NETSTAT_ADDRLEN" "length (row_text r) < 1023"
    by (simp_all add: row_ok_def)
  have f: "fill (row_text r) buf = br_left r @ br_addr r @ (br_right r @ [CHR 0x0A]) @ NUL # ?rest" by (simp add: fill_def row_text_def)
  have len: "length (fill (row_text r) buf) = 1024" using l(3) assms(2) by (simp add: fill_def)
  then have b: "\<not> int (length (fill (row_text r) buf)) < int off + int NETSTAT_ADDRLEN"
    using l by (simp add: f)
  have "blank_address (int off) (fill (row_text r) buf) = Inr ((br_left r @ replicate NETSTAT_ADDRLEN CHR '' '' @ br_right r @ [CHR 0x0A]) @ NUL # ?rest)"
    using b l(1,2) by (simp add: blank_address_def f)
  moreover have "length ((br_left r @ replicate NETSTAT_ADDRLEN CHR '' '' @ br_right r @ [CHR 0x0A]) @ NUL # ?rest) = 1024"
    using len l(2) by (simp add: f)
  ultimately show thesis by (rule that)
qed

lemma length_scars [simp]: "length (strtok_scars d i s) = length s"
  by (induction d i s rule: strtok_scars.induct) auto

lemma length_used_up [simp]: "length (used_up buf) = length buf"
proof -
  have "length (takeWhile (\<lambda>c. c \<noteq> NUL) buf) \<le> length buf" by (rule length_takeWhile_le)
  then show ?thesis by (simp add: used_up_def Let_def)
qed

lemma row_parsed:
  assumes "names_found names c" and "distinct names" and "{''Ipkts'', ''Ibytes'', ''Opkts'', ''Obytes''} \<subseteq> set names"
    and "strtok_all NETSTAT_BLANK text = row_words r"
  obtains ps w' where "netstat_parse_bsd c clk text zero_packets w = (ps, w')" and "packets ps = row_packets names r"
proof -
  let ?c = "columns.truncate c"
  let ?ps = "parse_columns ?c (row_words r) 0 (zero_packets\<lparr>ps_tx_pkts := 0, ps_rx_pkts := 0, ps_tx_bytes := 0, ps_rx_bytes := 0\<rparr>)"
  have c: "i_rpkts ?c = place ''Ipkts'' names" "i_rbytes ?c = place ''Ibytes'' names"
    "i_tpkts ?c = place ''Opkts'' names" "i_tbytes ?c = place ''Obytes'' names"
    using assms(1) by (simp_all add: names_found_def columns.truncate_def)
  have d: "distinct [i_rbytes ?c, i_tbytes ?c, i_tpkts ?c, i_rpkts ?c]"
    unfolding c using assms(3) by (auto dest!: place_eq [rotated 2])
  obtain t w1 where k: "clk w = (t, w1)" by fastforce
  have u: "under names ws n = (if place n names < length ws then unat (strtoull (ws ! place n names)) else 0)" if "n \<in> set names" for n ws
    by (simp add: under_def map_of_zip_place [OF that])
  have "packets ?ps = row_packets names r"
    unfolding packets_def row_packets_def parse_columns_at [OF d]
    using assms(3) by (simp add: c u zero_packets_def)
  then have "packets (?ps\<lparr>ps_stamp := t\<rparr>) = row_packets names r" by simp
  moreover have "netstat_parse_bsd c clk text zero_packets w = (?ps\<lparr>ps_stamp := t\<rparr>, w1)"
    by (simp add: netstat_parse_bsd_def k assms(4))
  ultimately show thesis using that by blast
qed

text \<open>
  A line that ends inside the column of the address loses its end to the blanks: the text goes on
  with what an earlier line left in the buffer.
\<close>

lemma short_line_goes_on:
  assumes "NUL \<notin> set line" and "off \<le> length line" and "length line < off + NETSTAT_ADDRLEN"
    and "off + NETSTAT_ADDRLEN \<le> length buf" and "NUL \<in> set (drop (off + NETSTAT_ADDRLEN) buf)"
  shows "\<exists>buf1. blank_address (int off) (fill line buf) = Inr buf1 \<and>
    c_str buf1 = Some (take off line @ replicate NETSTAT_ADDRLEN CHR '' '' @
      takeWhile (\<lambda>c. c \<noteq> NUL) (drop (off + NETSTAT_ADDRLEN) buf))"
proof -
  let ?a = "take off line @ replicate NETSTAT_ADDRLEN CHR '' ''" and ?b = "drop (off + NETSTAT_ADDRLEN) buf"
  have "drop (off + NETSTAT_ADDRLEN) (fill line buf) = ?b" using assms(3,4) by (simp add: fill_def drop_Cons' NETSTAT_ADDRLEN_def add.commute)
  moreover have "take off (fill line buf) = take off line" using assms(2) by (simp add: fill_def)
  ultimately have "blank_address (int off) (fill line buf) = Inr (?a @ ?b)" using assms(3,4)
    by (simp add: blank_address_def fill_def)
  moreover have "NUL \<notin> set ?a" using assms(1) by (auto dest: in_set_takeD)
  then have "c_str (?a @ ?b) = Some (?a @ takeWhile (\<lambda>c. c \<noteq> NUL) ?b)" using assms(5)
    by (simp add: c_str_def takeWhile_append del: append_assoc)
  ultimately show ?thesis by simp
qed

definition first_seen :: "nic \<Rightarrow> string \<times> (nat \<times> nat \<times> nat \<times> nat)" where
  "first_seen n = (nic_interface n, packets (nic_s0 n))"

definition row_seen :: "string list \<Rightarrow> bsd_row \<Rightarrow> string \<times> (nat \<times> nat \<times> nat \<times> nat)" where
  "row_seen names r = (take INTERFACE_LEN (hd (row_words r)), row_packets names r)"

lemma snap_row:
  assumes "names_found names c" and "distinct names" and "{''Ipkts'', ''Ibytes'', ''Opkts'', ''Obytes''} \<subseteq> set names"
    and "o_address c = int off" and "row_ok off r" and "length buf = 1024" and "length nics < MAX_NETS"
  obtains n buf' w' where "snap_line_bsd c clk True (row_text r) (nics, buf, w) = Inr (nics @ [n], buf', w')"
    and "length buf' = 1024" and "first_seen n = row_seen names r"
proof -
  let ?text = "br_left r @ replicate NETSTAT_ADDRLEN CHR '' '' @ br_right r @ [CHR 0x0A]"
  obtain rest where b: "blank_address (int off) (fill (row_text r) buf) = Inr (?text @ NUL # rest)" and len: "length (?text @ NUL # rest) = 1024"
    by (rule row_blanked [OF assms(5,6)])
  have "NUL \<notin> set ?text" using assms(5) by (auto simp: row_ok_def list_all_iff)
  then have t: "c_str (?text @ NUL # rest) = Some ?text"
    by (simp add: c_str_def takeWhile_append del: append_assoc)
  have bl: "CHR '' '' \<in> set NETSTAT_BLANK" "set (replicate k CHR '' '') \<subseteq> set NETSTAT_BLANK" for k by (auto simp: NETSTAT_BLANK_def)
  have "?text = br_left r @ CHR '' '' # replicate 16 CHR '' '' @ (br_right r @ [CHR 0x0A])" by (simp add: NETSTAT_ADDRLEN_def numeral_eq_Suc)
  then have ws: "strtok_all NETSTAT_BLANK ?text = row_words r"
    by (simp only: strtok_all_append [OF bl(1)] strtok_all_skip [OF bl(2)] row_words_def)
  obtain i ws where i: "row_words r = i # ws" using assms(5) by (cases "row_words r") (auto simp: row_ok_def)
  obtain ps w' where p: "netstat_parse_bsd c clk ?text zero_packets w = (ps, w')" and pk: "packets ps = row_packets names r"
    by (rule row_parsed [OF assms(1-3) ws])
  let ?n = "\<lparr>nic_s0 = ps, nic_s1 = zero_packets, nic_interface = take INTERFACE_LEN i\<rparr>"
  have "snap_line_bsd c clk True (row_text r) (nics, buf, w) = Inr (nics @ [?n], used_up (?text @ NUL # rest), w')"
    using assms(7) unfolding snap_line_bsd_def prod.case assms(4) b cbind_simps t option.case ws i list.case p by simp
  from that [OF this] show thesis using len pk i by (simp add: first_seen_def row_seen_def del: append_assoc)
qed

lemma snap_rows:
  assumes "names_found names c" and "distinct names" and "{''Ipkts'', ''Ibytes'', ''Opkts'', ''Obytes''} \<subseteq> set names"
    and "o_address c = int off"
  shows "list_all (row_ok off) rows \<Longrightarrow> length buf = 1024 \<Longrightarrow> length nics + length rows \<le> MAX_NETS \<Longrightarrow>
    \<exists>ns buf' w'. snap_lines_bsd c clk True (map row_text rows) (nics, buf, w) = Inr (nics @ ns, buf', w') \<and>
      map first_seen ns = map (row_seen names) rows"
proof (induction rows arbitrary: nics buf w)
  case (Cons r rows)
  then have r: "row_ok off r" "length nics < MAX_NETS" by simp_all
  obtain n buf1 w1 where s: "snap_line_bsd c clk True (row_text r) (nics, buf, w) = Inr (nics @ [n], buf1, w1)"
    and l: "length buf1 = 1024" and n: "first_seen n = row_seen names r"
    by (rule snap_row [OF assms r(1) Cons.prems(2) r(2)])
  have "\<exists>ns buf' w'. snap_lines_bsd c clk True (map row_text rows) (nics @ [n], buf1, w1) = Inr ((nics @ [n]) @ ns, buf', w') \<and>
      map first_seen ns = map (row_seen names) rows"
    using Cons.prems l by (intro Cons.IH) simp_all
  then obtain ns buf' w' where "snap_lines_bsd c clk True (map row_text rows) (nics @ [n], buf1, w1) = Inr ((nics @ [n]) @ ns, buf', w')"
    and "map first_seen ns = map (row_seen names) rows" by blast
  with s n show ?case by (intro exI [of _ "n # ns"] exI [of _ buf'] exI [of _ w']) simp
qed simp

text \<open>
  C23. On FreeBSD and macOS, counting columns gives what looking their names up gives: for every
  header that names the four counters once, in any order and with any other columns, and rows
  whose address field, filled or blank, stands where the header has it, the start-up succeeds,
  and the first snapshot holds for every row the number under \<open>Ibytes\<close>, \<open>Ipkts\<close>, \<open>Obytes\<close> and \<open>Opkts\<close>, whatever
  was in the buffer before.
\<close>

theorem bsd_counters_by_name:
  assumes "bsd_head_ok a b" and "list_all (row_ok (address_at darwin a)) rows" and "length rows \<le> MAX_NETS"
    and "length junk = 1024"
  shows "\<exists>c' ns w'. netstat_init_bsd darwin (Some (bsd_head a b @ others)) c = Inr (UPERF_SUCCESS, c') \<and>
    netstat_snap_bsd (Some (concat (map row_text rows))) c' clk junk True ([], w) = Inr (UPERF_SUCCESS, ns, w') \<and>
    map first_seen ns = map (row_seen (bsd_names a b)) rows"
proof -
  obtain c' where c': "netstat_init_bsd darwin (Some (bsd_head a b @ others)) c = Inr (UPERF_SUCCESS, c')"
    and f: "names_found (bsd_names a b) c'" "o_address c' = int (address_at darwin a)"
    using bsd_header_read [OF assms(1)] by blast
  from assms(1) have n: "distinct (bsd_names a b)" "{''Ipkts'', ''Ibytes'', ''Opkts'', ''Obytes''} \<subseteq> set (bsd_names a b)"
    by (simp_all add: bsd_head_ok_def)
  obtain ns buf' w' where "snap_lines_bsd c' clk True (map row_text rows) ([], junk, w) = Inr (ns, buf', w')"
    and "map first_seen ns = map (row_seen (bsd_names a b)) rows"
    using snap_rows [OF f(1) n f(2) assms(2,4), of "[]" clk w] assms(3) by auto
  then show ?thesis using c'
    by (intro exI [of _ c'] exI [of _ ns] exI [of _ w']) (simp add: netstat_snap_bsd_def read_lines_rows [OF assms(2)])
qed


text \<open>A table with an interface that has an address and one that has none.\<close>

definition lab_left :: string where "lab_left = ''Name  Mtu   Network      ''"
definition lab_right :: string where "lab_right = ''           Ipkts Ierrs     Ibytes    Opkts Oerrs     Obytes  Coll''"

definition lab_rows :: "bsd_row list" where
  "lab_rows =
     [\<lparr>br_left = ''em0    1500 <Link#1>      '', br_addr = ''00:0c:29:aa:bb:cc'', br_right = ''   15     0       1500       29     0       2900     0''\<rparr>,
      \<lparr>br_left = ''lo0   16384 <Link#2>      '', br_addr = ''                 '', br_right = ''    7     0        700        7     0        700     0''\<rparr>]"

lemma lab_words:
  "bsd_names lab_left lab_right = [''Name'', ''Mtu'', ''Network'', ''Ipkts'', ''Ierrs'', ''Ibytes'', ''Opkts'', ''Oerrs'', ''Obytes'', ''Coll\<newline>'']"
  "map row_words lab_rows =
     [[''em0'', ''1500'', ''<Link#1>'', ''15'', ''0'', ''1500'', ''29'', ''0'', ''2900'', ''0\<newline>''],
      [''lo0'', ''16384'', ''<Link#2>'', ''7'', ''0'', ''700'', ''7'', ''0'', ''700'', ''0\<newline>'']]"
  by code_simp+

theorem bsd_counters_by_name_witness:
  "\<exists>c' ns w'. netstat_init_bsd False (Some (bsd_head lab_left lab_right))
      \<lparr>i_rbytes = 0, i_rpkts = 0, i_tbytes = 0, i_tpkts = 0, o_address = 0\<rparr> = Inr (UPERF_SUCCESS, c') \<and>
    netstat_snap_bsd (Some (concat (map row_text lab_rows))) c' (\<lambda>n. (of_nat n, Suc n)) (replicate 1024 CHR ''x'') True ([], 1) =
      Inr (UPERF_SUCCESS, ns, w') \<and>
    map first_seen ns = [(''em0'', (1500, 15, 2900, 29)), (''lo0'', (700, 7, 700, 7))]"
proof -
  have h: "bsd_head_ok lab_left lab_right"
    unfolding bsd_head_ok_def lab_words by (simp add: bsd_head_def lab_left_def lab_right_def)
  have w: "\<forall>r \<in> set lab_rows. row_words r \<noteq> []" using lab_words(2) by (simp add: lab_rows_def)
  have r: "list_all (row_ok (address_at False lab_left)) lab_rows" "length lab_rows \<le> MAX_NETS"
    using w by (simp_all add: lab_rows_def row_ok_def row_text_def address_at_def lab_left_def NETSTAT_ADDRLEN_def MAX_NETS_def)
  have "map (row_seen (bsd_names lab_left lab_right)) lab_rows = [(''em0'', (1500, 15, 2900, 29)), (''lo0'', (700, 7, 700, 7))]"
    using lab_words(2) by (simp add: lab_rows_def row_seen_def row_packets_def under_def lab_words(1) INTERFACE_LEN_def
        strtoull_def dec_val_def c_isdigit_def c_isspace_def c_code_def)
  with bsd_counters_by_name [OF h r, of "replicate 1024 CHR ''x''" "[]"
      "\<lparr>i_rbytes = 0, i_rpkts = 0, i_tbytes = 0, i_tpkts = 0, o_address = 0\<rparr>" "\<lambda>n. (of_nat n, Suc n)" 1] show ?thesis by auto
qed

end
