(* ===== verification/Hwcounter.thy ===== *)
theory Hwcounter
  imports Startup
begin

text \<open>
  Hardware counters (\<open>src/hwcounter.c\<close>, \<open>src/hwcounter.h\<close>, and what \<open>src/stats.c\<close> and \<open>src/strand.c\<close>
  do with them when \<open>USE_CPC\<close> is defined). The library libcpc, in its two versions, is the
  parameter \<open>cpc_lib\<close>; handles, sets and buffers are numbers. Which version the code is
  compiled for is \<open>cpc_api\<close>: the header defines neither, because the lines that would are behind
  \<open>#if 0\<close> (\<open>No_api\<close>). Messages to \<open>stderr\<close> are left out, and \<open>calloc\<close> succeeds.
\<close>

section \<open>State\<close>

definition COUNTER_MAXLEN :: nat where "COUNTER_MAXLEN = 64"

datatype cpc_api = No_api | Cpc_v1 | Cpc_v2

text \<open>The sample of version 1 is its two counters \<open>ce_pic\<close>.\<close>

record 'w cpc_lib =
  cl_version_ok :: bool
  cl_getcpuver :: "'w \<Rightarrow> int \<times> 'w"
  cl_strtoevent :: "int \<Rightarrow> string \<Rightarrow> 'w \<Rightarrow> int \<times> 'w"
  cl_access :: "'w \<Rightarrow> int \<times> 'w"
  cl_bind_event :: "'w \<Rightarrow> int \<times> 'w"
  cl_take_sample :: "'w \<Rightarrow> (int \<times> u64 \<times> u64) \<times> 'w"
  cl_open :: "'w \<Rightarrow> nat option \<times> 'w"
  cl_close :: "nat \<Rightarrow> 'w \<Rightarrow> 'w"
  cl_events :: "nat \<Rightarrow> nat \<Rightarrow> string list"
  cl_set_create :: "nat \<Rightarrow> 'w \<Rightarrow> nat \<times> 'w"
  cl_set_destroy :: "nat \<Rightarrow> nat \<Rightarrow> 'w \<Rightarrow> 'w"
  cl_add_request :: "nat \<Rightarrow> nat \<Rightarrow> string \<Rightarrow> 'w \<Rightarrow> int \<times> 'w"
  cl_bind_curlwp :: "nat \<Rightarrow> nat \<Rightarrow> 'w \<Rightarrow> int \<times> 'w"
  cl_unbind :: "nat \<Rightarrow> nat \<Rightarrow> 'w \<Rightarrow> int \<times> 'w"
  cl_buf_create :: "nat \<Rightarrow> nat \<Rightarrow> 'w \<Rightarrow> nat option \<times> 'w"
  cl_set_sample :: "nat \<Rightarrow> nat \<Rightarrow> nat \<Rightarrow> 'w \<Rightarrow> int \<times> 'w"
  cl_buf_sub :: "nat \<Rightarrow> nat \<Rightarrow> nat \<Rightarrow> nat \<Rightarrow> 'w \<Rightarrow> 'w"
  cl_buf_get :: "nat \<Rightarrow> nat \<Rightarrow> nat \<Rightarrow> 'w \<Rightarrow> u64 \<times> 'w"

text \<open>A pointer that was not assigned yet is \<open>None\<close>, as a null pointer is.\<close>

record hwcounter =
  hw_start1 :: "u64 \<times> u64"
  hw_end1 :: "u64 \<times> u64"
  hw_cpc :: "nat option"
  hw_set :: "nat option"
  hw_start :: "nat option"
  hw_end :: "nat option"
  hw_diff :: "nat option"
  hw_counter1 :: string
  hw_counter2 :: string
  hw_init_status :: int

text \<open>
  The calls of the library in \<open>hwcounter_init\<close> and \<open>hwcounter_fini\<close> are compiled for
  \<open>USE_CPCv11\<close> and \<open>USE_CPCv21\<close>, names that nothing defines.
\<close>

definition hwcounter_init :: int where "hwcounter_init = 0"
definition hwcounter_fini :: "hwcounter \<Rightarrow> int" where "hwcounter_fini hw = 0"

section \<open>Which events\<close>

definition check_event :: "string \<Rightarrow> string \<Rightarrow> bool \<Rightarrow> bool" where
  \<comment> \<open>the state: whether \<open>valid_event\<close> is \<open>VALID\<close>\<close>
  "check_event ev event valid = (if \<not> valid \<and> strcaseeq ev event then True else valid)"

definition hwcounter_validate_events ::
  "cpc_api \<Rightarrow> 'w cpc_lib \<Rightarrow> string option \<Rightarrow> string option \<Rightarrow> bool \<times> 'w \<Rightarrow> int \<times> bool \<times> 'w" where
  "hwcounter_validate_events api L ev1 ev2 x =
     (case x of (valid, w) \<Rightarrow>
        if api = Cpc_v2 then
          (case (ev1, ev2) of
             (Some a, Some b) \<Rightarrow>
               (case cl_open L w of
                  (None, w1) \<Rightarrow> (1, valid, w1)
                | (Some cpc, w1) \<Rightarrow>
                    let valid1 = fold (check_event a) (cl_events L cpc 0) valid;
                        valid2 = (if valid1 then fold (check_event b) (cl_events L cpc 1) valid1 else valid1)
                    in (if valid2 then 0 else 1, valid2, cl_close L cpc w1))
           | _ \<Rightarrow> (0, valid, w))
        else (if valid then 0 else 1, valid, w))"

definition strtok_leaves :: "string \<Rightarrow> string \<Rightarrow> string" where
  \<comment> \<open>the text up to the NUL that the first \<open>strtok\<close> puts behind its token\<close>
  "strtok_leaves d s =
     takeWhile (\<lambda>c. c \<in> set d) s @ takeWhile (\<lambda>c. c \<notin> set d) (dropWhile (\<lambda>c. c \<in> set d) s)"

definition arch_events :: "string \<Rightarrow> string \<times> string" where
  "arch_events arch =
     (if arch = ''i386'' then (''BU_cpu_clk_unhalted'', ''FR_retired_x86_instr_w_excp_intr'')
      else if arch = ''sparc'' then (''Cycle_cnt'', ''Instr_cnt'')
      else (''Error'', ''Error''))"

definition default_counters :: "string \<Rightarrow> string option \<Rightarrow> hwcounter \<Rightarrow> hwcounter \<times> string option" where
  \<comment> \<open>\<open>arch\<close>: what \<open>sysinfo\<close> says; the value of \<open>UPERFHWEVENTS\<close> before and after\<close>
  "default_counters arch events hw =
     (let (ev, events1) =
            (case events of
               None \<Rightarrow> (None, None)
             | Some s \<Rightarrow>
                 (case strtok '','' s of
                    None \<Rightarrow> (None, Some s)
                  | Some (ev1, r) \<Rightarrow> (map_option (\<lambda>x. (ev1, fst x)) (strtok '','' r), Some (strtok_leaves '','' s))));
          (ev1, ev2) = (case ev of None \<Rightarrow> arch_events arch | Some e \<Rightarrow> e)
      in (hw\<lparr>hw_counter1 := strlcpy COUNTER_MAXLEN ev1, hw_counter2 := strlcpy COUNTER_MAXLEN ev2\<rparr>, events1))"

definition counter_names ::
  "string \<Rightarrow> string option \<Rightarrow> string option \<Rightarrow> string option \<Rightarrow> hwcounter \<Rightarrow> hwcounter \<times> string option" where
  "counter_names arch c1 c2 events hw =
     (case (c1, c2) of
        (Some a, Some b) \<Rightarrow> (hw\<lparr>hw_counter1 := strlcpy COUNTER_MAXLEN a, hw_counter2 := strlcpy COUNTER_MAXLEN b\<rparr>, events)
      | _ \<Rightarrow> default_counters arch events hw)"

section \<open>A strand's counters\<close>

definition event_string :: "hwcounter \<Rightarrow> string" where
  "event_string hw = take 511 (''pic0='' @ hw_counter1 hw @ '',pic1='' @ hw_counter2 hw)"

definition init_v1 :: "'w cpc_lib \<Rightarrow> hwcounter \<Rightarrow> 'w \<Rightarrow> int \<times> 'w" where
  "init_v1 L hw w =
     (if \<not> cl_version_ok L then (- 1, w)
      else case cl_getcpuver L w of (ver, w1) \<Rightarrow>
        if ver = - 1 then (- 1, w1)
        else case cl_strtoevent L ver (event_string hw) w1 of (r, w2) \<Rightarrow>
          if r \<noteq> 0 then (- 1, w2)
          else case cl_access L w2 of (r, w3) \<Rightarrow>
            if r = - 1 then (- 1, w3)
            else case cl_bind_event L w3 of (r, w4) \<Rightarrow> (if r = - 1 then - 1 else 0, w4))"

definition init_buffers :: "'w cpc_lib \<Rightarrow> nat \<Rightarrow> nat \<Rightarrow> hwcounter \<Rightarrow> 'w \<Rightarrow> c_stop + int \<times> hwcounter \<times> 'w" where
  "init_buffers L cpc s hw w =
     (case cl_buf_create L cpc s w of (b1, w1) \<Rightarrow>
      case cl_buf_create L cpc s w1 of (b2, w2) \<Rightarrow>
      case cl_buf_create L cpc s w2 of (b3, w3) \<Rightarrow>
      let hw1 = hw\<lparr>hw_start := b1, hw_end := b2, hw_diff := b3\<rparr> in
      if b1 = None \<or> b2 = None \<or> b3 = None then
        (case cl_unbind L cpc s w3 of (r, w4) \<Rightarrow>
           if r \<noteq> 0 then Inl Aborted else Inr (- 1, hw1, cl_set_destroy L cpc s w4))
      else Inr (0, hw1, w3))"

definition init_v2 :: "'w cpc_lib \<Rightarrow> hwcounter \<Rightarrow> 'w \<Rightarrow> c_stop + int \<times> hwcounter \<times> 'w" where
  "init_v2 L hw w =
     (case cl_open L w of
        (None, w1) \<Rightarrow> Inr (- 1, hw\<lparr>hw_cpc := None\<rparr>, w1)
      | (Some cpc, w1) \<Rightarrow>
          (case cl_set_create L cpc w1 of (s, w2) \<Rightarrow>
           let hw1 = hw\<lparr>hw_cpc := Some cpc, hw_set := Some s\<rparr> in
           case cl_add_request L cpc s (hw_counter1 hw1) w2 of (r, w3) \<Rightarrow>
             if r = - 1 then Inr (- 1, hw1, cl_set_destroy L cpc s w3)
             else case cl_add_request L cpc s (hw_counter2 hw1) w3 of (r, w4) \<Rightarrow>
               if r = - 1 then Inr (- 1, hw1, cl_set_destroy L cpc s w4)
               else case cl_bind_curlwp L cpc s w4 of (r, w5) \<Rightarrow>
                 if r \<noteq> 0 then Inr (- 1, hw1, cl_set_destroy L cpc s w5)
                 else init_buffers L cpc s hw1 w5))"

definition hwcounter_initlwp ::
  "cpc_api \<Rightarrow> 'w cpc_lib \<Rightarrow> string \<Rightarrow> string option \<Rightarrow> string option \<Rightarrow> hwcounter \<times> string option \<times> 'w \<Rightarrow>
     c_stop + int \<times> hwcounter \<times> string option \<times> 'w" where
  \<comment> \<open>with the value of \<open>UPERFHWEVENTS\<close>\<close>
  "hwcounter_initlwp api L arch c1 c2 x =
     (case x of (hw, events, w) \<Rightarrow>
      let (hw1, events1) = counter_names arch c1 c2 events (hw\<lparr>hw_init_status := - 1\<rparr>)
      in cbind (case api of
                  No_api \<Rightarrow> Inr (0, hw1, w)
                | Cpc_v1 \<Rightarrow> (case init_v1 L hw1 w of (r, w1) \<Rightarrow> Inr (r, hw1, w1))
                | Cpc_v2 \<Rightarrow> init_v2 L hw1 w) (\<lambda>(r, hw2, w1).
           if r = - 1 then Inr (- 1, hw2, events1, w1)
           else Inr (0, hw2\<lparr>hw_init_status := 1\<rparr>, events1, w1)))"

definition hwcounter_finilwp :: "cpc_api \<Rightarrow> 'w cpc_lib \<Rightarrow> hwcounter \<Rightarrow> 'w \<Rightarrow> c_stop + 'w" where
  "hwcounter_finilwp api L hw w =
     (if api = Cpc_v2 \<and> hw_init_status hw = 1 then
        (case (hw_cpc hw, hw_set hw) of
           (Some cpc, Some s) \<Rightarrow> Inr (cl_set_destroy L cpc s (snd (cl_unbind L cpc s w)))
         | _ \<Rightarrow> Inl Undefined)
      else Inr w)"

section \<open>Reading them\<close>

definition hwcounter_snap :: "cpc_api \<Rightarrow> 'w cpc_lib \<Rightarrow> bool \<Rightarrow> hwcounter \<times> 'w \<Rightarrow> c_stop + hwcounter \<times> 'w" where
  \<comment> \<open>the flag: \<open>SNAP_BEGIN\<close>; an error is only printed\<close>
  "hwcounter_snap api L first x =
     (case x of (hw, w) \<Rightarrow>
      if hw_init_status hw = 0 then Inl Aborted
      else case api of
        No_api \<Rightarrow> Inr (hw, w)
      | Cpc_v1 \<Rightarrow>
          (case cl_take_sample L w of ((_, p0, p1), w1) \<Rightarrow>
             Inr (if first then hw\<lparr>hw_start1 := (p0, p1)\<rparr> else hw\<lparr>hw_end1 := (p0, p1)\<rparr>, w1))
      | Cpc_v2 \<Rightarrow>
          (case (hw_cpc hw, hw_set hw, if first then hw_start hw else hw_end hw) of
             (Some cpc, Some s, Some b) \<Rightarrow> Inr (hw, snd (cl_set_sample L cpc s b w))
           | _ \<Rightarrow> Inl Undefined))"

definition hwcounter_get :: "cpc_api \<Rightarrow> 'w cpc_lib \<Rightarrow> nat \<Rightarrow> hwcounter \<times> 'w \<Rightarrow> c_stop + u64 \<times> 'w" where
  \<comment> \<open>version 1: no \<open>break\<close> between the cases; an index of no case leaves \<open>val\<close> unset\<close>
  "hwcounter_get api L index x =
     (case x of (hw, w) \<Rightarrow>
      case api of
        No_api \<Rightarrow> Inl Undefined
      | Cpc_v1 \<Rightarrow>
          (let val0 = (if index = 0 then Some (fst (hw_end1 hw) - fst (hw_start1 hw)) else None);
               val1 = (if index \<le> 1 then Some (snd (hw_end1 hw) - snd (hw_start1 hw)) else val0)
           in case val1 of None \<Rightarrow> Inl Undefined | Some v \<Rightarrow> Inr (v, w))
      | Cpc_v2 \<Rightarrow>
          (case (hw_cpc hw, hw_diff hw, hw_end hw, hw_start hw) of
             (Some cpc, Some d, Some e, Some s) \<Rightarrow> Inr (cl_buf_get L cpc d index (cl_buf_sub L cpc d e s w))
           | _ \<Rightarrow> Inl Undefined))"

definition newstat_begin_cpc ::
  "cpc_api \<Rightarrow> 'w cpc_lib \<Rightarrow> u32 \<Rightarrow> (nat \<Rightarrow> u64) \<Rightarrow> hwcounter option \<Rightarrow> newstats option \<times> nat \<Rightarrow> 'w \<Rightarrow>
     c_stop + (newstats option \<times> nat) \<times> hwcounter option \<times> 'w" where
  \<comment> \<open>\<open>newstat_begin\<close> compiled with \<open>USE_CPC\<close>; without a strand there are no counters\<close>
  "newstat_begin_cpc api L copt clk s x w =
     (let y = newstat_begin copt clk x in
      case s of
        Some hw \<Rightarrow>
          if fst x \<noteq> None \<and> enabled CPUCOUNTER_STATS copt
          then cbind (hwcounter_snap api L True (hw, w)) (\<lambda>(hw1, w1). Inr (y, Some hw1, w1))
          else Inr (y, s, w)
      | None \<Rightarrow> Inr (y, s, w))"

definition newstat_end_cpc ::
  "cpc_api \<Rightarrow> 'w cpc_lib \<Rightarrow> u32 \<Rightarrow> (nat \<Rightarrow> u64) \<Rightarrow> u64 \<Rightarrow> u64 \<Rightarrow> hwcounter option \<Rightarrow> newstats option \<times> nat \<Rightarrow> 'w \<Rightarrow>
     c_stop + (newstats option \<times> nat) \<times> hwcounter option \<times> 'w" where
  "newstat_end_cpc api L copt clk sz cnt s x w =
     (case (s, newstat_end copt clk sz cnt x) of
        (Some hw, Some ns, t) \<Rightarrow>
          if enabled CPUCOUNTER_STATS copt then
            cbind (hwcounter_snap api L False (hw, w)) (\<lambda>(hw1, w1).
            cbind (hwcounter_get api L 0 (hw1, w1)) (\<lambda>(v0, w2).
            cbind (hwcounter_get api L 1 (hw1, w2)) (\<lambda>(v1, w3).
              Inr ((Some (ns\<lparr>ns_pic0 := ns_pic0 ns + v0, ns_pic1 := ns_pic1 ns + v1\<rparr>), t), Some hw1, w3))))
          else Inr ((Some ns, t), s, w)
      | (_, y) \<Rightarrow> Inr (y, s, w))"

definition strand_counters ::
  "cpc_api \<Rightarrow> 'w cpc_lib \<Rightarrow> string \<Rightarrow> options \<Rightarrow> hwcounter \<times> string option \<times> 'w \<Rightarrow>
     c_stop + options \<times> hwcounter \<times> string option \<times> 'w" where
  \<comment> \<open>what \<open>strand_run\<close> does with \<open>USE_CPC\<close> before the transactions\<close>
  "strand_counters api L arch o' x =
     (if \<not> enabled NO_STATS (op_copt o') \<and> enabled CPUCOUNTER_STATS (op_copt o') then
        cbind (hwcounter_initlwp api L arch (op_ev1 o') (op_ev2 o') x) (\<lambda>(r, y).
          Inr (if r = - 1 then o'\<lparr>op_copt := op_copt o' AND NOT CPUCOUNTER_STATS\<rparr> else o', y))
      else Inr (o', x))"

section \<open>The sets of a strand\<close>

definition cpc_tracks :: "('w \<Rightarrow> (nat \<times> nat) set) \<Rightarrow> ('w \<Rightarrow> nat set) \<Rightarrow> 'w cpc_lib \<Rightarrow> bool" where
  \<comment> \<open>which sets and which handles the library has: opening and creating give new ones\<close>
  "cpc_tracks sets hs L =
     ((\<forall>w w1. cl_open L w = (None, w1) \<longrightarrow> sets w1 = sets w \<and> hs w1 = hs w) \<and>
      (\<forall>w c w1. cl_open L w = (Some c, w1) \<longrightarrow> c \<notin> hs w \<and> hs w1 = insert c (hs w) \<and> sets w1 = sets w) \<and>
      (\<forall>c w s w1. cl_set_create L c w = (s, w1) \<longrightarrow> (c, s) \<notin> sets w \<and> sets w1 = insert (c, s) (sets w) \<and> hs w1 = hs w) \<and>
      (\<forall>c s w. sets (cl_set_destroy L c s w) = sets w - {(c, s)} \<and> hs (cl_set_destroy L c s w) = hs w) \<and>
      (\<forall>c s e w. sets (snd (cl_add_request L c s e w)) = sets w \<and> hs (snd (cl_add_request L c s e w)) = hs w) \<and>
      (\<forall>c s w. sets (snd (cl_bind_curlwp L c s w)) = sets w \<and> hs (snd (cl_bind_curlwp L c s w)) = hs w) \<and>
      (\<forall>c s w. sets (snd (cl_unbind L c s w)) = sets w \<and> hs (snd (cl_unbind L c s w)) = hs w) \<and>
      (\<forall>c s w. sets (snd (cl_buf_create L c s w)) = sets w \<and> hs (snd (cl_buf_create L c s w)) = hs w))"

lemma cpc_tracksD:
  assumes "cpc_tracks sets hs L"
  shows "cl_open L w = (None, w1) \<Longrightarrow> sets w1 = sets w \<and> hs w1 = hs w"
    and "cl_open L w = (Some c, w1) \<Longrightarrow> c \<notin> hs w \<and> hs w1 = insert c (hs w) \<and> sets w1 = sets w"
    and "cl_set_create L c w = (s, w1) \<Longrightarrow> (c, s) \<notin> sets w \<and> sets w1 = insert (c, s) (sets w) \<and> hs w1 = hs w"
proof -
  note t = assms [unfolded cpc_tracks_def]
  show "cl_open L w = (None, w1) \<Longrightarrow> sets w1 = sets w \<and> hs w1 = hs w" using t [THEN conjunct1] by simp
  show "cl_open L w = (Some c, w1) \<Longrightarrow> c \<notin> hs w \<and> hs w1 = insert c (hs w) \<and> sets w1 = sets w"
    using t [THEN conjunct2, THEN conjunct1] by simp
  show "cl_set_create L c w = (s, w1) \<Longrightarrow> (c, s) \<notin> sets w \<and> sets w1 = insert (c, s) (sets w) \<and> hs w1 = hs w"
    using t [THEN conjunct2, THEN conjunct2, THEN conjunct1] by simp
qed

lemma cpc_tracks_simps:
  assumes "cpc_tracks sets hs L"
  shows "sets (cl_set_destroy L c s w) = sets w - {(c, s)}" "hs (cl_set_destroy L c s w) = hs w"
    and "sets (snd (cl_add_request L c s e w)) = sets w" "hs (snd (cl_add_request L c s e w)) = hs w"
    and "sets (snd (cl_bind_curlwp L c s w)) = sets w" "hs (snd (cl_bind_curlwp L c s w)) = hs w"
    and "sets (snd (cl_unbind L c s w)) = sets w" "hs (snd (cl_unbind L c s w)) = hs w"
    and "sets (snd (cl_buf_create L c s w)) = sets w" "hs (snd (cl_buf_create L c s w)) = hs w"
  using assms by (simp_all add: cpc_tracks_def)

lemma init_buffers_keeps:
  assumes "cpc_tracks sets hs L" and "init_buffers L c s hw w = Inr (r, hw1, w1)"
  shows "hs w1 = hs w \<and> hw_cpc hw1 = hw_cpc hw \<and> hw_set hw1 = hw_set hw \<and> hw_init_status hw1 = hw_init_status hw \<and>
    (r = 0 \<and> sets w1 = sets w \<or> r = - 1 \<and> sets w1 = sets w - {(c, s)})"
proof -
  note k = cpc_tracks_simps [OF assms(1)]
  obtain b1 u1 where b1: "cl_buf_create L c s w = (b1, u1)" by fastforce
  obtain b2 u2 where b2: "cl_buf_create L c s u1 = (b2, u2)" by fastforce
  obtain b3 u3 where b3: "cl_buf_create L c s u2 = (b3, u3)" by fastforce
  obtain r4 u4 where b4: "cl_unbind L c s u3 = (r4, u4)" by fastforce
  note b = b1 b2 b3 b4
  from k(9,10) [of c s w] k(9,10) [of c s u1] k(9,10) [of c s u2] k(7,8) [of c s u3]
  have "sets u3 = sets w" "hs u3 = hs w" "sets u4 = sets w" "hs u4 = hs w" by (simp_all add: b)
  then show ?thesis using assms(2) k(1,2) [of c s u4] by (auto simp: init_buffers_def b Let_def split: if_splits)
qed

lemma init_v2_keeps:
  assumes "cpc_tracks sets hs L" and "init_v2 L hw w = Inr (r, hw1, w1)"
  shows "hw_init_status hw1 = hw_init_status hw \<and>
    hs w1 = (case fst (cl_open L w) of None \<Rightarrow> hs w | Some c \<Rightarrow> insert c (hs w)) \<and>
    (r = - 1 \<and> sets w1 = sets w \<or>
     r = 0 \<and> (\<exists>c s. hw_cpc hw1 = Some c \<and> hw_set hw1 = Some s \<and> (c, s) \<notin> sets w \<and> sets w1 = insert (c, s) (sets w)))"
proof -
  note k = cpc_tracks_simps [OF assms(1)]
  obtain o1 u1 where o1: "cl_open L w = (o1, u1)" by fastforce
  show ?thesis
  proof (cases o1)
    case None
    with o1 cpc_tracksD(1) [OF assms(1)] assms(2) show ?thesis by (auto simp: init_v2_def)
  next
    case (Some c)
    obtain s u2 where s: "cl_set_create L c u1 = (s, u2)" by fastforce
    obtain r3 u3 where a: "cl_add_request L c s (hw_counter1 hw) u2 = (r3, u3)" by fastforce
    obtain r4 u4 where b: "cl_add_request L c s (hw_counter2 hw) u3 = (r4, u4)" by fastforce
    obtain r5 u5 where d: "cl_bind_curlwp L c s u4 = (r5, u5)" by fastforce
    have u1: "hs u1 = insert c (hs w)" "sets u1 = sets w" using cpc_tracksD(2) [OF assms(1) o1 [unfolded Some]] by simp_all
    have u2: "(c, s) \<notin> sets u1" "sets u2 = insert (c, s) (sets u1)" "hs u2 = hs u1"
      using cpc_tracksD(3) [OF assms(1) s] by simp_all
    from k(3,4) [of c s "hw_counter1 hw" u2] k(3,4) [of c s "hw_counter2 hw" u3] k(5,6) [of c s u4] u1 u2
    have u: "sets u3 = insert (c, s) (sets w)" "hs u3 = insert c (hs w)" "sets u4 = insert (c, s) (sets w)" "hs u4 = insert c (hs w)"
      "sets u5 = insert (c, s) (sets w)" "hs u5 = insert c (hs w)" "(c, s) \<notin> sets w" by (simp_all add: a b d)
    show ?thesis
    proof (cases "r3 \<noteq> - 1 \<and> r4 \<noteq> - 1 \<and> r5 = 0")
      case True
      with assms(2) o1 Some have "init_buffers L c s (hw\<lparr>hw_cpc := Some c, hw_set := Some s\<rparr>) u5 = Inr (r, hw1, w1)"
        by (simp add: init_v2_def s a b d Let_def)
      from init_buffers_keeps [OF assms(1) this] u show ?thesis by (auto simp: o1 Some)
    next
      case False
      then have "r = - 1 \<and> hw1 = hw\<lparr>hw_cpc := Some c, hw_set := Some s\<rparr> \<and> w1 \<in> cl_set_destroy L c s ` {u3, u4, u5}"
        using assms(2) o1 Some by (auto simp: init_v2_def s a b d Let_def split: if_splits)
      with k(1,2) u show ?thesis by (auto simp: o1 Some)
    qed
  qed
qed

lemma counter_names_status: "hw_init_status (fst (counter_names arch c1 c2 ev hw)) = hw_init_status hw"
  by (simp add: counter_names_def default_counters_def Let_def split: prod.split option.split)

lemma initlwp_v2:
  assumes "hwcounter_initlwp Cpc_v2 L arch c1 c2 (hw, ev, w) = Inr (r, hw1, ev1, w1)" and "cpc_tracks sets hs L"
  obtains hw0 hw2 where "hw_init_status hw0 = - 1" and "init_v2 L hw0 w = Inr (r, hw2, w1)"
    and "hw1 = (if r = - 1 then hw2 else hw2\<lparr>hw_init_status := 1\<rparr>)"
proof -
  obtain hw0 ev0 where h: "counter_names arch c1 c2 ev (hw\<lparr>hw_init_status := - 1\<rparr>) = (hw0, ev0)" by fastforce
  then have "hw_init_status hw0 = - 1" using counter_names_status [of arch c1 c2 ev "hw\<lparr>hw_init_status := - 1\<rparr>"] by simp
  moreover obtain s hw2 u where i: "init_v2 L hw0 w = Inr (s, hw2, u)"
    using assms(1) by (auto simp: hwcounter_initlwp_def Let_def h cbind_Inr)
  moreover have "s = - 1 \<or> s = 0" using init_v2_keeps [OF assms(2) i] by auto
  then have "s = r \<and> u = w1 \<and> hw1 = (if r = - 1 then hw2 else hw2\<lparr>hw_init_status := 1\<rparr>)"
    using assms(1) by (auto simp: hwcounter_initlwp_def Let_def h i split: if_splits)
  ultimately show thesis using that by blast
qed

text \<open>
  A strand's counter set is given back, its handle is not: with version 2 of the library,
  whatever it answers, a strand that cannot set its counters up leaves no set behind, one that can
  has exactly one more, which \<open>hwcounter_finilwp\<close> destroys; but the handle that was opened
  stays open in every case.
\<close>

lemma counter_sets_returned:
  assumes "cpc_tracks sets hs L"
    and "hwcounter_initlwp Cpc_v2 L arch c1 c2 (hw, ev, w) = Inr (r, hw1, ev1, w1)"
    and "hwcounter_finilwp Cpc_v2 L hw1 w1 = Inr w2"
  shows "(r = - 1 \<and> sets w1 = sets w \<or> r = 0 \<and> (\<exists>x. x \<notin> sets w \<and> sets w1 = insert x (sets w))) \<and>
    sets w2 = sets w \<and> hs w2 = (case fst (cl_open L w) of None \<Rightarrow> hs w | Some c \<Rightarrow> insert c (hs w))"
proof -
  obtain hw0 hw2 where h: "hw_init_status hw0 = - 1" "init_v2 L hw0 w = Inr (r, hw2, w1)"
    and hw1: "hw1 = (if r = - 1 then hw2 else hw2\<lparr>hw_init_status := 1\<rparr>)" by (rule initlwp_v2 [OF assms(2,1)])
  note i = init_v2_keeps [OF assms(1) h(2)] and k = cpc_tracks_simps [OF assms(1)]
  show ?thesis
  proof (cases "r = - 1")
    case True
    with i h(1) assms(3) show ?thesis by (auto simp: hw1 hwcounter_finilwp_def)
  next
    case False
    with i obtain c s where c: "r = 0" "hw_cpc hw2 = Some c" "hw_set hw2 = Some s" "(c, s) \<notin> sets w" "sets w1 = insert (c, s) (sets w)" by auto
    with assms(3) have "w2 = cl_set_destroy L c s (snd (cl_unbind L c s w1))" by (simp add: hw1 hwcounter_finilwp_def)
    with i k c show ?thesis by auto
  qed
qed

text \<open>A library with numbers for everything: the next number, the sets and the handles.\<close>

definition lab_cpc :: "(nat \<times> (nat \<times> nat) list \<times> nat list) cpc_lib" where
  "lab_cpc = \<lparr>cl_version_ok = True, cl_getcpuver = (\<lambda>w. (1, w)), cl_strtoevent = (\<lambda>_ _ w. (0, w)), cl_access = (\<lambda>w. (0, w)),
     cl_bind_event = (\<lambda>w. (0, w)), cl_take_sample = (\<lambda>w. ((0, 0, 0), w)),
     cl_open = (\<lambda>(n, ss, hs). (Some (Suc (fold max hs n)), (n, ss, Suc (fold max hs n) # hs))),
     cl_close = (\<lambda>c (n, ss, hs). (n, ss, filter (\<lambda>x. x \<noteq> c) hs)), cl_events = (\<lambda>_ _. [''Cycle_cnt'', ''Instr_cnt'']),
     cl_set_create = (\<lambda>c (n, ss, hs). (Suc (fold max (map snd ss) n), (n, (c, Suc (fold max (map snd ss) n)) # ss, hs))),
     cl_set_destroy = (\<lambda>c s (n, ss, hs). (n, filter (\<lambda>x. x \<noteq> (c, s)) ss, hs)),
     cl_add_request = (\<lambda>_ _ e w. (if e = ''Error'' then - 1 else 0, w)), cl_bind_curlwp = (\<lambda>_ _ w. (0, w)),
     cl_unbind = (\<lambda>_ _ w. (0, w)), cl_buf_create = (\<lambda>_ _ w. (Some 0, w)), cl_set_sample = (\<lambda>_ _ _ w. (0, w)),
     cl_buf_sub = (\<lambda>_ _ _ _ w. w), cl_buf_get = (\<lambda>_ _ i w. (of_nat i, w))\<rparr>"

lemma fold_max_ge: "x \<in> set xs \<Longrightarrow> x \<le> fold max xs (n :: nat)"
proof -
  have "m \<le> fold max xs m" for m :: nat and xs by (induction xs arbitrary: m) (auto intro: order.trans [OF max.cobounded2])
  then show "x \<in> set xs \<Longrightarrow> x \<le> fold max xs n"
    by (induction xs arbitrary: n) (auto intro: order.trans [OF max.cobounded1])
qed

lemma lab_cpc_tracks: "cpc_tracks (\<lambda>(n, ss, hs). set ss) (\<lambda>(n, ss, hs). set hs) lab_cpc"
proof -
  have "Suc (fold max hs n) \<notin> set hs" for hs and n :: nat using fold_max_ge [of _ hs n] by fastforce
  moreover have "(c, Suc (fold max (map snd ss) n)) \<notin> set ss" for ss and c n :: nat
    using fold_max_ge [of _ "map snd ss" n] by force
  ultimately show ?thesis by (auto simp: cpc_tracks_def lab_cpc_def)
qed

definition lab_hw :: hwcounter where
  "lab_hw = \<lparr>hw_start1 = (0, 0), hw_end1 = (0, 0), hw_cpc = None, hw_set = None, hw_start = None, hw_end = None, hw_diff = None,
     hw_counter1 = [], hw_counter2 = [], hw_init_status = 0\<rparr>"

lemma lab_cpc_simps:
  "cl_open lab_cpc (n, ss, hs) = (Some (Suc (fold max hs n)), (n, ss, Suc (fold max hs n) # hs))"
  "cl_set_create lab_cpc c (n, ss, hs) = (Suc (fold max (map snd ss) n), (n, (c, Suc (fold max (map snd ss) n)) # ss, hs))"
  "cl_add_request lab_cpc c s e w = (if e = ''Error'' then - 1 else 0, w)"
  "cl_bind_curlwp lab_cpc c s w = (0, w)" "cl_buf_create lab_cpc c s w = (Some 0, w)" "cl_unbind lab_cpc c s w = (0, w)"
  "cl_set_destroy lab_cpc c s (n, ss, hs) = (n, filter (\<lambda>x. x \<noteq> (c, s)) ss, hs)"
  by (simp_all add: lab_cpc_def)

theorem counter_sets_returned_witness:
  "\<exists>hw1 w1 w2. hwcounter_initlwp Cpc_v2 lab_cpc ''sparc'' None None (lab_hw, None, (0, [], [])) = Inr (0, hw1, None, w1) \<and>
     hwcounter_finilwp Cpc_v2 lab_cpc hw1 w1 = Inr w2 \<and> fst (snd w1) = [(1, 1)] \<and> set (fst (snd w2)) = {} \<and> set (snd (snd w2)) = {1}"
proof -
  obtain hw1 w1 where i: "hwcounter_initlwp Cpc_v2 lab_cpc ''sparc'' None None (lab_hw, None, (0, [], [])) = Inr (0, hw1, None, w1)"
    and s: "fst (snd w1) = [(1, 1)]" "hw_cpc hw1 = Some 1" "hw_set hw1 = Some 1"
  proof -
    let ?hw = "lab_hw\<lparr>hw_init_status := - 1, hw_counter1 := ''Cycle_cnt'', hw_counter2 := ''Instr_cnt''\<rparr>"
    have "counter_names ''sparc'' None None None (lab_hw\<lparr>hw_init_status := - 1\<rparr>) = (?hw, None)"
      by (simp add: counter_names_def default_counters_def arch_events_def strlcpy_def COUNTER_MAXLEN_def)
    moreover obtain hw1 where "init_v2 lab_cpc ?hw (0, [], []) = Inr (0, hw1, (0, [(1, 1)], [1]))"
      and "hw_cpc hw1 = Some 1" "hw_set hw1 = Some 1"
      by (simp add: init_v2_def init_buffers_def lab_cpc_simps Let_def)
    ultimately show thesis
      by (intro that [of "hw1\<lparr>hw_init_status := 1\<rparr>" "(0, [(1, 1)], [1])"]) (simp_all add: hwcounter_initlwp_def)
  qed
  from s(2,3) obtain w2 where f: "hwcounter_finilwp Cpc_v2 lab_cpc hw1 w1 = Inr w2"
    by (cases "hw_init_status hw1 = 1") (simp_all add: hwcounter_finilwp_def)
  obtain a ss hs where w2: "w2 = (a, ss, hs)" by (cases w2)
  then have "set ss = {} \<and> set hs = {1}"
    using counter_sets_returned [OF lab_cpc_tracks i f] by (simp add: lab_cpc_simps)
  with i f s(1) w2 show ?thesis by (intro exI [of _ hw1] exI [of _ w1] exI [of _ w2] conjI) simp_all
qed

section \<open>As the header stands\<close>

lemma first_event_decides:
  \<comment> \<open>the second event is never looked at with effect\<close>
  assumes "cl_open L w = (Some cpc, w1)"
  shows "fst (hwcounter_validate_events Cpc_v2 L (Some a) (Some b) (False, w)) =
    (if \<exists>e \<in> set (cl_events L cpc 0). strcaseeq a e then 0 else 1)"
proof -
  have t: "fold (check_event x) es True = True" for x es by (induction es) (simp_all add: check_event_def)
  then have "fold (check_event a) es False = (\<exists>e \<in> set es. strcaseeq a e)" for es
    by (induction es) (simp_all add: check_event_def)
  with t assms show ?thesis by (simp add: hwcounter_validate_events_def Let_def)
qed

lemma default_counters_two:
  "strtok '','' s = Some (a, r) \<Longrightarrow> strtok '','' r = Some (b, t) \<Longrightarrow>
   default_counters arch (Some s) hw =
     (hw\<lparr>hw_counter1 := strlcpy COUNTER_MAXLEN a, hw_counter2 := strlcpy COUNTER_MAXLEN b\<rparr>, Some (strtok_leaves '','' s))"
  by (simp add: default_counters_def Let_def)

lemma default_counters_one:
  "strtok '','' s = Some (a, r) \<Longrightarrow> strtok '','' r = None \<Longrightarrow>
   default_counters arch (Some s) hw =
     (hw\<lparr>hw_counter1 := strlcpy COUNTER_MAXLEN (fst (arch_events arch)),
         hw_counter2 := strlcpy COUNTER_MAXLEN (snd (arch_events arch))\<rparr>, Some (strtok_leaves '','' s))"
  by (simp add: default_counters_def Let_def split: prod.split)

lemma events_cut_once:
  \<comment> \<open>the first strand takes its events from the environment, the second one finds half of them\<close>
  assumes "ev1 \<noteq> []" and "ev2 \<noteq> []" and "CHR '','' \<notin> set ev1" and "CHR '','' \<notin> set ev2"
    and "default_counters arch (Some (ev1 @ '','' @ ev2)) hw = (hw1, events)"
    and "default_counters arch events hw' = (hw2, events')"
  shows "hw_counter1 hw1 = strlcpy COUNTER_MAXLEN ev1 \<and> hw_counter2 hw1 = strlcpy COUNTER_MAXLEN ev2 \<and>
    hw_counter1 hw2 = strlcpy COUNTER_MAXLEN (fst (arch_events arch)) \<and>
    hw_counter2 hw2 = strlcpy COUNTER_MAXLEN (snd (arch_events arch))"
proof -
  have s: "strtok '','' (ev1 @ '','' @ ev2) = Some (ev1, ev2)" "strtok '','' ev2 = Some (ev2, [])" "strtok '','' ev1 = Some (ev1, [])"
    "strtok '','' [] = None"
    using assms(1-4) strtok_split [of ev1 "'',''" "CHR '',''" ev2] strtok_last [of ev2 "'',''"] strtok_last [of ev1 "'',''"]
    by (simp_all add: strtok_def)
  have d: "dropWhile (\<lambda>c. c = CHR '','') (ev1 @ CHR '','' # ev2) = ev1 @ CHR '','' # ev2"
    "takeWhile (\<lambda>c. c = CHR '','') (ev1 @ CHR '','' # ev2) = []"
    using assms(1,3) by (cases ev1; auto)+
  have t: "takeWhile (\<lambda>c. c \<noteq> CHR '','') (ev1 @ CHR '','' # ev2) = ev1"
    using assms(3) by (simp add: takeWhile_append)
  have "strtok_leaves '','' (ev1 @ '','' @ ev2) = ev1" using d t by (simp add: strtok_leaves_def)
  with s default_counters_two [of "ev1 @ '','' @ ev2" ev1 ev2 ev2 "[]" arch hw] assms(5)
  have hw1: "hw1 = hw\<lparr>hw_counter1 := strlcpy COUNTER_MAXLEN ev1, hw_counter2 := strlcpy COUNTER_MAXLEN ev2\<rparr>" "events = Some ev1" by simp_all
  have "default_counters arch (Some ev1) hw' = (hw'\<lparr>hw_counter1 := strlcpy COUNTER_MAXLEN (fst (arch_events arch)),
      hw_counter2 := strlcpy COUNTER_MAXLEN (snd (arch_events arch))\<rparr>, Some (strtok_leaves '','' ev1))"
    using s by (intro default_counters_one)
  with assms(6) hw1 show ?thesis by auto
qed

text \<open>
  C39. As the header stands, no counters can be used: both versions of the library are switched
  off, so every pair of events on the command line (\<open>-E\<close>) is refused and ends the program, and with
  the default ones (\<open>-e\<close>) every strand believes that its counters are set up, and the end of its first
  timed flowop adds a value that was never assigned.
\<close>

theorem counters_switched_off:
  assumes "sc_events sc = (\<lambda>e1 e2. fst (hwcounter_validate_events No_api L (Some e1) (Some e2) (False, w)))"
    and "enabled CPUCOUNTER_STATS (op_copt o1)" and "\<not> enabled NO_STATS (op_copt o1)"
  shows "event_option sc a o' = Inl (Exited 1) \<and>
    (\<exists>hw1 events1. strand_counters No_api L arch o1 (hw, events, w) = Inr (o1, hw1, events1, w) \<and> hw_init_status hw1 = 1 \<and>
       newstat_end_cpc No_api L (op_copt o1) clk sz cnt (Some hw1) (Some ns, t) w = Inl Undefined)"
proof -
  have "event_option sc a o' = Inl (Exited 1)"
    by (auto simp: event_option_def assms(1) hwcounter_validate_events_def split: option.split)
  moreover obtain hw1 events1 where "hwcounter_initlwp No_api L arch (op_ev1 o1) (op_ev2 o1) (hw, events, w) = Inr (0, hw1, events1, w)"
    and "hw_init_status hw1 = 1"
  proof -
    obtain hw0 ev0 where "counter_names arch (op_ev1 o1) (op_ev2 o1) events (hw\<lparr>hw_init_status := - 1\<rparr>) = (hw0, ev0)" by fastforce
    then show thesis by (intro that [of "hw0\<lparr>hw_init_status := 1\<rparr>" ev0]) (simp_all add: hwcounter_initlwp_def Let_def)
  qed
  moreover from this(2) have "newstat_end_cpc No_api L (op_copt o1) clk sz cnt (Some hw1) (Some ns, t) w = Inl Undefined"
    using assms(2) by (simp add: newstat_end_cpc_def newstat_end_def hwcounter_snap_def hwcounter_get_def Let_def cbind_def)
  ultimately show ?thesis using assms(2,3)
    by (intro conjI exI [of _ hw1] exI [of _ events1]) (simp_all add: strand_counters_def cbind_def)
qed

theorem counters_switched_off_witness:
  "\<exists>sc. event_option sc ''Cycle_cnt,Instr_cnt'' initial_options = Inl (Exited 1) \<and>
     (\<exists>hw1 events1. newstat_end_cpc No_api lab_cpc (CPUCOUNTER_STATS OR FLOWOP_STATS) of_nat 64 1 (Some hw1) (Some zero_stats, 5)
        (0, [], []) = Inl Undefined)"
proof -
  let ?o = "initial_options\<lparr>op_copt := CPUCOUNTER_STATS OR FLOWOP_STATS\<rparr>"
  obtain sc :: startcfg where sc: "sc_events sc =
      (\<lambda>e1 e2. fst (hwcounter_validate_events No_api lab_cpc (Some e1) (Some e2) (False, (0, [], []))))"
    by (metis startcfg.select_convs(7))
  have o1: "enabled CPUCOUNTER_STATS (op_copt ?o)" "\<not> enabled NO_STATS (op_copt ?o)"
    by (simp_all add: enabled_def CPUCOUNTER_STATS_def FLOWOP_STATS_def NO_STATS_def)
  from counters_switched_off [OF sc o1, of "''Cycle_cnt,Instr_cnt''" initial_options "''sparc''" lab_hw None of_nat 64 1 zero_stats 5]
  show ?thesis by (intro exI [of _ sc]) auto
qed

end
