(* ===== verification/Platforms.thy ===== *)
theory Platforms
  imports Flowlib
begin

text \<open>
  What is compiled on other platforms only: sending files with \<open>sendfilev\<close>, and with the \<open>sendfile\<close> of
  FreeBSD and macOS (\<open>src/sendfilev.c\<close>, \<open>src/flowops_library.c\<close>); the clocks behind \<open>GETHRTIME\<close>
  (\<open>src/stats.c\<close>); and the calls that sleep (\<open>src/delay.c\<close>). The system calls are parameters.
\<close>

section \<open>\<open>sendfilev\<close>\<close>

text \<open>
  An element of the vector is a descriptor, an offset and a length; \<open>sv\<close> is \<open>sendfilev\<close>. The chunked
  transfer passes it the address of an \<open>int\<close> as that of a \<open>size_t\<close>, which is only defined where
  both have the same size (\<open>ilp32\<close>).
\<close>

type_synonym 's sendvec = "int \<Rightarrow> (int \<times> int \<times> u64) list \<Rightarrow> 's \<Rightarrow> int \<times> 's"

function sendfilev_chunks :: "'s sendvec \<Rightarrow> int \<Rightarrow> file_list \<Rightarrow> int \<Rightarrow> int \<Rightarrow> 's \<Rightarrow> c_stop + int \<times> 's" where
  "sendfilev_chunks sv sock fl csize sz st =
     (if sz < fl_size fl then
        (case sv sock [(fl_fd fl, sz, to_u64 (min csize (fl_size fl - sz)))] st of (r, st1) \<Rightarrow>
           let n = wrap32 r in
           if n \<le> 0 then Inr (n, st1)
           else if 2 ^ 31 \<le> sz + n then Inl Undefined
           else sendfilev_chunks sv sock fl csize (sz + n) st1)
      else Inr (sz, st))"
  by pat_completeness auto
termination by (relation "measure (\<lambda>(_, _, fl, _, sz, _). nat (fl_size fl - sz))") auto

declare sendfilev_chunks.simps [simp del]

definition do_sendfilev_chunked :: "bool \<Rightarrow> 's sendvec \<Rightarrow> nat \<Rightarrow> sfv_list \<Rightarrow> int \<Rightarrow> int \<Rightarrow> 's \<Rightarrow> c_stop + int \<times> 's" where
  "do_sendfilev_chunked ilp32 sv r s sock csize st =
     (let fl = sv_flist s ! select_file r s in
      if 0 < fl_size fl \<and> \<not> ilp32 then Inl Undefined else sendfilev_chunks sv sock fl csize 0 st)"

definition do_sendfilev ::
  "bool \<Rightarrow> 's sendvec \<Rightarrow> (nat \<Rightarrow> nat) \<Rightarrow> sfv_list list \<Rightarrow> int \<Rightarrow> string \<Rightarrow> int \<Rightarrow> int \<Rightarrow> 's \<Rightarrow> c_stop + int \<times> 's" where
  \<comment> \<open>\<open>rands i\<close>: what the \<open>i\<close>th \<open>rand\<close> returns; a vector of a negative length has no room\<close>
  "do_sendfilev ilp32 sv rands l sock dir nfiles chunk_size st =
     (case find_sfv_list l dir of
        None \<Rightarrow> Inl Aborted
      | Some s \<Rightarrow>
          if chunk_size \<noteq> 0 then do_sendfilev_chunked ilp32 sv (rands 0) s sock chunk_size st
          else if nfiles < 0 then Inl Undefined
          else Inr (sv sock (map (\<lambda>i. let fl = sv_flist s ! select_file (rands i) s in (fl_fd fl, 0, to_u64 (fl_size fl)))
                      [0..<nat nfiles]) st))"

definition flowop_sendfilev_solaris ::
  "bool \<Rightarrow> 'w proc sendvec \<Rightarrow> (nat \<Rightarrow> nat) \<Rightarrow> 'w libenv \<Rightarrow> nat \<Rightarrow> 'w lib \<Rightarrow> (c_stop + int \<times> 'w lib) option" where
  \<comment> \<open>\<open>flowop_sendfilev\<close> with \<open>HAVE_SENDFILEV\<close>: the \<open>uint32_t\<close> arguments become \<open>int\<close>\<close>
  "flowop_sendfilev_solaris ilp32 sv rands E i st =
     (if f_type (li_flist st ! i) \<noteq> FLOWOP_SENDFILEV then flowop_sendfilev E i st
      else obind (flowop_connection i st) (\<lambda>(c, st1).
        let f = li_flist st1 ! i in
        case c of
          None \<Rightarrow> Some (Inr (- 1, st1))
        | Some a \<Rightarrow>
            (case po_store (lib_pool st1) a of
               None \<Rightarrow> Some (Inl Undefined)
             | Some n \<Rightarrow>
                 Some (cbind (do_sendfilev ilp32 sv rands (le_sfv E) (p_fd n) (fo_dir (f_options f))
                          (sint (fo_nfiles (f_options f))) (sint (fo_size (f_options f))) (li_proc st1))
                    (\<lambda>(r, pr). Inr (wrap32 r, st1\<lparr>li_proc := pr\<rparr>))))))"

lemma chunks_send_all:
  \<comment> \<open>each request starts where the last one ended, none is longer than a chunk or than what is left\<close>
  assumes "\<And>v st. \<exists>k st'. sv sock v st = (k, st') \<and> 0 < k \<and> (\<forall>fd off n. v = [(fd, off, n)] \<longrightarrow> k \<le> int (unat n))"
    and "0 < csize" and "fl_size fl < 2 ^ 31"
  shows "0 \<le> sz \<Longrightarrow> sz \<le> fl_size fl \<Longrightarrow> \<exists>st'. sendfilev_chunks sv sock fl csize sz st = Inr (fl_size fl, st')"
proof (induction "nat (fl_size fl - sz)" arbitrary: sz st rule: less_induct)
  case less
  show ?case
  proof (cases "sz < fl_size fl")
    case True
    let ?n = "min csize (fl_size fl - sz)"
    have n: "0 < ?n" "?n \<le> fl_size fl - sz" "?n < 2 ^ 31" using True assms(2,3) less.prems by auto
    have "unat (to_u64 ?n) = nat ?n" using n
      by (simp add: unat_eq_nat_uint uint_word_of_int take_bit_int_eq_self)
    with assms(1) [of "[(fl_fd fl, sz, to_u64 ?n)]" st] n obtain k st1
      where k: "sv sock [(fl_fd fl, sz, to_u64 ?n)] st = (k, st1)" "0 < k" "k \<le> ?n" by fastforce
    then have w: "wrap32 k = k" "\<not> 2 ^ 31 \<le> sz + k" using n assms(3) by (auto intro: wrap32_id)
    from less.hyps [of "sz + k" st1] k n less.prems True obtain st'
      where "sendfilev_chunks sv sock fl csize (sz + k) st1 = Inr (fl_size fl, st')" by auto
    with True k w show ?thesis by (subst sendfilev_chunks.simps) (simp add: Let_def not_le)
  next
    case False
    with less.prems show ?thesis by (subst sendfilev_chunks.simps) simp
  qed
qed

section \<open>\<open>sendfile\<close> on FreeBSD and macOS\<close>

text \<open>\<open>bsf fd sock off count\<close>: the result, and what is stored in \<open>len\<close>.\<close>

partial_function (option) bsd_chunks ::
  "(int \<Rightarrow> int \<Rightarrow> int \<Rightarrow> int \<Rightarrow> 's \<Rightarrow> (int \<times> int) \<times> 's) \<Rightarrow> int \<Rightarrow> file_list \<Rightarrow> int \<Rightarrow> int \<Rightarrow> 's \<Rightarrow> (int \<times> 's) option" where
  "bsd_chunks bsf sock fl chunk_size off st =
     (if off < fl_size fl then
        (case bsf (fl_fd fl) sock off chunk_size st of ((r, len), st1) \<Rightarrow>
           if r < 0 then Some (- 1, st1) else bsd_chunks bsf sock fl chunk_size (off + len) st1)
      else Some (fl_size fl, st))"

definition do_sendfile_bsd ::
  "(int \<Rightarrow> int \<Rightarrow> int \<Rightarrow> int \<Rightarrow> 's \<Rightarrow> (int \<times> int) \<times> 's) \<Rightarrow> nat \<Rightarrow> sfv_list list \<Rightarrow> int \<Rightarrow> string \<Rightarrow> int \<Rightarrow> 's \<Rightarrow>
     (c_stop + int \<times> 's) option" where
  "do_sendfile_bsd bsf r l sock dir chunk_size st =
     (case find_sfv_list l dir of
        None \<Rightarrow> Some (Inl Aborted)
      | Some s \<Rightarrow>
          let fl = sv_flist s ! select_file r s in
          if chunk_size = 0 then
            (case bsf (fl_fd fl) sock 0 (fl_size fl) st of ((e, len), st1) \<Rightarrow>
               Some (Inr (if e < 0 then - 1 else len, st1)))
          else map_option Inr (bsd_chunks bsf sock fl chunk_size 0 st))"

section \<open>Clocks\<close>

definition SEC2NANOSEC :: int where "SEC2NANOSEC = 1000000000"

definition gethrtime_clock :: "int \<Rightarrow> int \<Rightarrow> u64" where
  \<comment> \<open>with \<open>clock_gettime\<close>: seconds and nanoseconds\<close>
  "gethrtime_clock tv_sec tv_nsec = to_u64 (tv_sec * SEC2NANOSEC + tv_nsec)"

definition gethrtime_mach :: "u64 \<Rightarrow> u32 \<Rightarrow> u32 \<Rightarrow> u64" where
  \<comment> \<open>with \<open>mach_absolute_time\<close>: ticks, and the fraction of its time base\<close>
  "gethrtime_mach ticks numer denom = ticks * ucast numer div ucast denom"

lemma clock_nanoseconds:
  "0 \<le> s \<Longrightarrow> 0 \<le> n \<Longrightarrow> s * SEC2NANOSEC + n < 2 ^ 63 \<Longrightarrow> uint (gethrtime_clock s n) = s * SEC2NANOSEC + n"
  unfolding gethrtime_clock_def uint_word_of_int by (rule mod_pos_pos_trivial) (simp_all add: SEC2NANOSEC_def)

section \<open>Sleeping\<close>

definition NSEC_PER_SEC :: u64 where "NSEC_PER_SEC = 1000000000"
definition USEC_PER_SEC :: u64 where "USEC_PER_SEC = 1000000"

definition nsecs_to_timespec :: "u64 \<Rightarrow> int \<times> int" where
  "nsecs_to_timespec d = (sint (d div NSEC_PER_SEC), sint (d mod NSEC_PER_SEC))"

definition nanosleep_sleep :: "(int \<times> int \<Rightarrow> 'w \<Rightarrow> reply \<times> 'w) \<Rightarrow> u64 \<Rightarrow> 'w \<Rightarrow> reply \<times> 'w" where
  \<comment> \<open>\<open>__uperf_sleep\<close> with \<open>HAVE_NANOSLEEP\<close>\<close>
  "nanosleep_sleep nanosleep d = nanosleep (nsecs_to_timespec d)"

definition poll_sleep :: "(int \<Rightarrow> 'w \<Rightarrow> reply \<times> 'w) \<Rightarrow> u64 \<Rightarrow> 'w \<Rightarrow> reply \<times> 'w" where
  \<comment> \<open>\<open>__uperf_sleep\<close> where there is nothing better: the timeout is an \<open>int\<close>, negative for ever\<close>
  "poll_sleep poll d = poll (wrap32 (uint (d div USEC_PER_SEC)))"

definition android_sleep ::
  "(int \<times> int \<Rightarrow> 'w \<Rightarrow> int \<times> 'w) \<Rightarrow> ('w \<Rightarrow> 'w) \<Rightarrow> ('w \<Rightarrow> 'w) \<Rightarrow> (int \<Rightarrow> 'w \<Rightarrow> reply \<times> 'w) \<Rightarrow> u64 \<Rightarrow> 'w \<Rightarrow> (int + reply) \<times> 'w" where
  \<comment> \<open>\<open>__uperf_sleep\<close> on Android: \<open>settime\<close> sets the alarm, the wake lock is let go of while polling\<close>
  "android_sleep settime release acquire poll d w =
     (case settime (nsecs_to_timespec d) w of (e, w1) \<Rightarrow>
        if e = - 1 then (Inl (- 1), w1)
        else case poll (wrap32 (uint (d div USEC_PER_SEC))) (release w1) of (r, w2) \<Rightarrow> (Inr r, acquire w2))"

lemma sint_small64: "unat (n :: u64) < 2 ^ 63 \<Longrightarrow> sint n = int (unat n)"
proof -
  assume "unat n < 2 ^ 63"
  then have "int (unat n) < int (2 ^ 63)" by (simp only: of_nat_less_iff)
  then have "uint n < 2 ^ 63" by simp
  moreover have "- (2 ^ 63) \<le> uint n" by (rule order_trans [of _ 0]) simp_all
  ultimately show ?thesis by (simp add: sint_uint signed_take_bit_int_eq_self)
qed

lemma timespec_exact:
  assumes "unat d < 2 ^ 63"
  shows "fst (nsecs_to_timespec d) * 1000000000 + snd (nsecs_to_timespec d) = int (unat d)"
    and "0 \<le> snd (nsecs_to_timespec d) \<and> snd (nsecs_to_timespec d) < 1000000000 \<and> 0 \<le> fst (nsecs_to_timespec d)"
proof -
  have "unat d div 1000000000 < 2 ^ 63" "unat d mod 1000000000 < 2 ^ 63" using assms by (auto intro: le_less_trans [OF div_le_dividend] le_less_trans [OF mod_less_eq_dividend])
  then have q: "sint (d div NSEC_PER_SEC) = int (unat d div 1000000000)" and r: "sint (d mod NSEC_PER_SEC) = int (unat d mod 1000000000)"
    by (simp_all add: sint_small64 NSEC_PER_SEC_def unat_div unat_mod)
  show "fst (nsecs_to_timespec d) * 1000000000 + snd (nsecs_to_timespec d) = int (unat d)"
    unfolding nsecs_to_timespec_def q r fst_conv snd_conv using arg_cong [OF div_mult_mod_eq [of "unat d" 1000000000], of int]
    by (simp only: of_nat_add of_nat_mult of_nat_numeral)
  show "0 \<le> snd (nsecs_to_timespec d) \<and> snd (nsecs_to_timespec d) < 1000000000 \<and> 0 \<le> fst (nsecs_to_timespec d)"
    unfolding nsecs_to_timespec_def q r fst_conv snd_conv by auto
qed

end
