(* ===== verification/Vsock_Uds.thy ===== *)
theory Vsock_Uds
  imports Vsock
begin

text \<open>
  VSOCK over sockets of the file system (\<open>src/vsock.c\<close> compiled with \<open>VSOCK_OVER_UDS\<close>): a host
  that is not a number is the path of a socket, on which the port is asked for in a line of text.
  The listener passes no host, so it is as without. The wait for the end of the answer may last
  for ever, so the value of connecting is \<open>None\<close> if it does not return.
\<close>

section \<open>Addresses\<close>

definition SUN_PATH :: nat where "SUN_PATH = 108"   \<comment> \<open>\<open>sizeof(sun->sun_path)\<close>\<close>
definition NI_MAXHOST :: nat where "NI_MAXHOST = 1025"

datatype vsock_addr = Vm_addr u32 u32 | Un_addr string

definition protocol_vsock_sockaddr_uds :: "'w kernel \<Rightarrow> string option \<Rightarrow> u32 \<Rightarrow> bool \<Rightarrow> ('w, vsock_addr) io" where
  \<comment> \<open>the flag: \<open>listen\<close>\<close>
  "protocol_vsock_sockaddr_uds k cid port lsn =
     (case cid of
        None \<Rightarrow> ret (Vm_addr VMADDR_CID_ANY (if port = 0 then VMADDR_PORT_ANY else port))
      | Some s \<Rightarrow>
          (case protocol_vsock_sockaddr cid port of
             Some (c, p) \<Rightarrow> ret (Vm_addr c p)
           | None \<Rightarrow>
               let path = take (SUN_PATH - 1) (if lsn then s @ ''_'' @ dec_nat (unat port) else s) in
               if lsn then do { _ \<leftarrow> sysc k (Sys_unlink path); ret (Un_addr path) }
               else ret (Un_addr path)))"

section \<open>Connecting\<close>

definition uds_request :: "protocol \<Rightarrow> string" where
  "uds_request p = ''CONNECT '' @ vm_port_text p @ ''\<newline>''"

partial_function (option) uds_answer :: "'w kernel \<Rightarrow> protocol \<Rightarrow> char \<Rightarrow> 'w proc \<Rightarrow> (bool \<times> 'w proc) option" where
  \<comment> \<open>\<open>p->read\<close> is \<open>generic_read\<close>, which without options only reads; the character is \<open>buf[0]\<close>\<close>
  "uds_answer k p c s =
     (if c = CHR 0x0A then Some (True, s)
      else case run_state (sysc k (Sys_read (p_fd p) Local_buf 1)) s of (r, s1) \<Rightarrow>
        if re_ret r \<le> 0 then Some (False, s1)
        else uds_answer k p (case re_data r of x # _ \<Rightarrow> x | [] \<Rightarrow> c) s1)"

definition uds_handshake :: "'w kernel \<Rightarrow> protocol \<Rightarrow> 'w proc \<Rightarrow> (int \<times> 'w proc) option" where
  \<comment> \<open>\<open>p->write\<close> is \<open>generic_write\<close>\<close>
  "uds_handshake k p s =
     (case run_state (sysc k (Sys_write (p_fd p) (Text (uds_request p)) (int (length (uds_request p))))) s of (r, s1) \<Rightarrow>
        if re_ret r < 0 then Some (UPERF_FAILURE, s1)
        else case uds_answer k p CHR 0x00 s1 of
          None \<Rightarrow> None
        | Some (ok, s2) \<Rightarrow> Some (if ok then UPERF_SUCCESS else UPERF_FAILURE, s2))"

definition uds_socket ::
  "'w kernel \<Rightarrow> protocol \<Rightarrow> flowop_options option \<Rightarrow> ('w, vsock_addr \<times> int \<times> protocol \<times> flowop_options option) io" where
  \<comment> \<open>up to and with \<open>connect\<close>\<close>
  "uds_socket k p fo = do {
     a \<leftarrow> protocol_vsock_sockaddr_uds k (Some (p_host p)) (to_u32 (p_port p)) False;
     (e, p1) \<leftarrow> generic_socket k p (case a of Vm_addr _ _ \<Rightarrow> AF_VSOCK | Un_addr _ \<Rightarrow> AF_UNIX) 0;
     if e < 0 then ret (a, UPERF_FAILURE, p1, fo)
     else do {
       fo1 \<leftarrow> set_vsock_options k (p_fd p1) fo;
       r \<leftarrow> sysc k (case a of Vm_addr c q \<Rightarrow> Sys_connect_vm (p_fd p1) c q | Un_addr path \<Rightarrow> Sys_connect_un (p_fd p1) path);
       if re_ret r < 0 then do {
         report_errno UPERF_LOG_ERROR
           (protocol_to_str (p_type p1) @ '': Cannot connect to '' @ p_host p1 @ '':'' @ vm_port_text p1);
         ret (a, UPERF_FAILURE, p1, fo1) }
       else ret (a, UPERF_SUCCESS, p1, fo1) }}"

definition protocol_vsock_connect_uds ::
  "'w kernel \<Rightarrow> protocol \<Rightarrow> flowop_options option \<Rightarrow> 'w proc \<Rightarrow> ((int \<times> protocol \<times> flowop_options option) \<times> 'w proc) option" where
  "protocol_vsock_connect_uds k p fo s =
     (case run_state (uds_socket k p fo) s of ((a, e, p1, fo1), s1) \<Rightarrow>
        if e = UPERF_SUCCESS then
          (case a of
             Vm_addr _ _ \<Rightarrow> Some ((e, p1, fo1), s1)
           | Un_addr _ \<Rightarrow> map_option (\<lambda>(e2, s2). ((e2, p1, fo1), s2)) (uds_handshake k p1 s1))
        else Some ((e, p1, fo1), s1))"

definition protocol_vsock_accept_uds :: "'w kernel \<Rightarrow> protocol \<Rightarrow> ('w, protocol option) io" where
  "protocol_vsock_accept_uds k p = do {
     r \<leftarrow> generic_poll k (p_fd p) 10000 POLLIN;
     if r \<le> 0 then ret None
     else do {
       r \<leftarrow> sysc k (Sys_accept (p_fd p));
       if re_ret r < 0 then do {
         report_errno UPERF_LOG_ERROR ''accept:'';
         ret None }
       else case re_addrs r of
         a # _ \<Rightarrow>
           if sa_family a = AF_VSOCK then
             ret (Some (protocol_vsock_new\<lparr>p_fd := re_ret r, p_port := sint (snd (re_vm r)),
                          p_host := strlcpy MAXHOSTNAME (dec_nat (unat (fst (re_vm r))))\<rparr>))
           else if sa_family a = AF_UNIX then
             ret (Some (protocol_vsock_new\<lparr>p_fd := re_ret r, p_port := 0,
                          p_host := strlcpy MAXHOSTNAME (take (NI_MAXHOST - 1) (sa_addr a))\<rparr>))
           else do { _ \<leftarrow> sysc k (Sys_close (re_ret r)); ret None }
       | [] \<Rightarrow> do { _ \<leftarrow> sysc k (Sys_close (re_ret r)); ret None } }}"

section \<open>The same where there is no path\<close>

lemma uds_same_for_numbers:
  assumes "protocol_vsock_sockaddr (Some (p_host p)) (to_u32 (p_port p)) = Some a"
  shows "protocol_vsock_connect_uds k p fo s = Some (run_state (protocol_vsock_connect k p fo) s)"
proof -
  obtain c q where a: "a = (c, q)" by (cases a)
  obtain e1 p1 s1 where 1: "run_state (generic_socket k p AF_VSOCK 0) s = ((e1, p1), s1)" by (metis surj_pair)
  obtain fo1 s2 where 2: "run_state (set_vsock_options k (p_fd p1) fo) s1 = (fo1, s2)" by (metis surj_pair)
  obtain r s3 where 3: "run_state (sysc k (Sys_connect_vm (p_fd p1) c q)) s2 = (r, s3)" by (metis surj_pair)
  from assms 1 2 3 show ?thesis
    by (simp add: a protocol_vsock_connect_uds_def uds_socket_def protocol_vsock_sockaddr_uds_def protocol_vsock_connect_def
        UPERF_SUCCESS_def UPERF_FAILURE_def split: prod.split)
qed

section \<open>The line of the answer\<close>

text \<open>
  A kernel that delivers the bytes of a peer one by one: \<open>inp\<close> reads off the world what is still to
  come; at the end a read returns 0.
\<close>

definition delivers_bytes :: "('w \<Rightarrow> string) \<Rightarrow> 'w kernel \<Rightarrow> bool" where
  "delivers_bytes inp k =
     (\<forall>fd w. let (r, w') = k (Sys_read fd Local_buf 1) w in
        (case inp w of
           [] \<Rightarrow> re_ret r = 0 \<and> inp w' = []
         | x # xs \<Rightarrow> re_ret r = 1 \<and> re_data r = [x] \<and> inp w' = xs))"

lemma uds_answer_end: "uds_answer k p (CHR 0x0A) s = Some (True, s)"
  by (subst uds_answer.simps) simp

lemma uds_answer_read:
  assumes "k (Sys_read (p_fd p) Local_buf 1) (pc_world s) = (r, w)" and "0 \<le> re_ret r" and "CHR 0x0A \<noteq> c"
  shows "uds_answer k p c s =
    (if re_ret r = 0 then Some (False, s\<lparr>pc_world := w\<rparr>)
     else uds_answer k p (case re_data r of x # _ \<Rightarrow> x | [] \<Rightarrow> c) (s\<lparr>pc_world := w\<rparr>))"
  by (subst uds_answer.simps) (use assms in \<open>auto simp: sysc_def\<close>)

lemma delivers_byte:
  assumes "delivers_bytes inp k"
  obtains r w where "k (Sys_read fd Local_buf 1) v = (r, w)"
    and "case inp v of [] \<Rightarrow> re_ret r = 0 \<and> inp w = [] | x # xs \<Rightarrow> re_ret r = 1 \<and> re_data r = [x] \<and> inp w = xs"
  using assms unfolding delivers_bytes_def by (cases "k (Sys_read fd Local_buf 1) v") (metis (lifting) case_prod_conv)

lemma uds_answer_reads_line:
  assumes "delivers_bytes inp k" and "CHR 0x0A \<notin> set (c # a)" and "inp (pc_world s) = a @ CHR 0x0A # b"
  shows "\<exists>s'. uds_answer k p c s = Some (True, s') \<and> inp (pc_world s') = b"
  using assms(2,3)
proof (induction a arbitrary: c s)
  case Nil
  obtain r w where r: "k (Sys_read (p_fd p) Local_buf 1) (pc_world s) = (r, w)"
    and "re_ret r = 1" "re_data r = [CHR 0x0A]" "inp w = b"
    by (rule delivers_byte [OF assms(1), of "p_fd p" "pc_world s"]) (auto simp: Nil(2))
  with uds_answer_read [of k p s r w c, OF r] Nil(1) show ?case by (simp add: uds_answer_end)
next
  case (Cons x a)
  obtain r w where r: "k (Sys_read (p_fd p) Local_buf 1) (pc_world s) = (r, w)"
    and "re_ret r = 1" "re_data r = [x]" "inp w = a @ CHR 0x0A # b"
    by (rule delivers_byte [OF assms(1), of "p_fd p" "pc_world s"]) (auto simp: Cons.prems(2))
  with Cons.IH [of x "s\<lparr>pc_world := w\<rparr>"] uds_answer_read [of k p s r w c, OF r] Cons.prems(1) show ?case by simp
qed

text \<open>A peer that closes before the end of its line makes the handshake fail, and it returns.\<close>

lemma uds_answer_cut_off:
  assumes "delivers_bytes inp k" and "CHR 0x0A \<notin> set (c # inp (pc_world s))"
  shows "\<exists>s'. uds_answer k p c s = Some (False, s') \<and> inp (pc_world s') = []"
  using assms(2)
proof (induction "inp (pc_world s)" arbitrary: c s)
  case Nil
  obtain r w where r: "k (Sys_read (p_fd p) Local_buf 1) (pc_world s) = (r, w)" and "re_ret r = 0" "inp w = []"
    by (rule delivers_byte [OF assms(1), of "p_fd p" "pc_world s"]) (auto simp: Nil(1) [symmetric])
  with uds_answer_read [of k p s r w c, OF r] Nil(2) show ?case by simp
next
  case (Cons x a)
  obtain r w where r: "k (Sys_read (p_fd p) Local_buf 1) (pc_world s) = (r, w)"
    and "re_ret r = 1" "re_data r = [x]" "inp w = a"
    by (rule delivers_byte [OF assms(1), of "p_fd p" "pc_world s"]) (auto simp: Cons(2) [symmetric])
  with Cons(1) [of "s\<lparr>pc_world := w\<rparr>" x] Cons(2) [symmetric] Cons.prems uds_answer_read [of k p s r w c, OF r] show ?case by simp
qed

section \<open>Descriptors\<close>

lemma uds_answer_keeps:
  assumes k: "kernel_fds op k" and "uds_answer k p c s = Some (x, s')"
  shows "op (pc_world s') = op (pc_world s)"
proof -
  let ?P = "\<lambda>k' p c s y. k' = k \<longrightarrow> op (pc_world (snd y)) = op (pc_world s)"
  have "?P k p c s (x, s')"
  proof (rule uds_answer.raw_induct [of ?P, OF _ assms(2)])
    fix f and k' :: "'a kernel" and p c s y
    assume ih: "\<And>k p c s y. f k p c s = Some y \<Longrightarrow> ?P k p c s y"
      and step: "(if c = CHR 0x0A then Some (True, s)
        else case run_state (sysc k' (Sys_read (p_fd p) Local_buf 1)) s of (r, s1) \<Rightarrow>
          if re_ret r \<le> 0 then Some (False, s1) else f k' p (case re_data r of x # _ \<Rightarrow> x | [] \<Rightarrow> c) s1) = Some y"
    show "?P k' p c s y"
    proof
      assume kk: "k' = k"
      obtain r s1 where r: "run_state (sysc k (Sys_read (p_fd p) Local_buf 1)) s = (r, s1)" by (metis surj_pair)
      have o1: "op (pc_world s1) = op (pc_world s)" by (rule keepsD [OF keeps_sysc [OF k] r]) simp
      show "op (pc_world (snd y)) = op (pc_world s)"
      proof (cases "c = CHR 0x0A \<or> re_ret r \<le> 0")
        case True
        have "y = (True, s) \<or> y = (False, s1)"
          using step True by (simp only: kk r prod.case split: if_splits) simp_all
        with o1 show ?thesis by (elim disjE) simp_all
      next
        case False
        then have "f k p (case re_data r of x # _ \<Rightarrow> x | [] \<Rightarrow> c) s1 = Some y"
          using step by (simp only: kk r prod.case de_Morgan_disj if_False)
        from ih [OF this] o1 show ?thesis by simp
      qed
    qed
  qed
  then show ?thesis by simp
qed

lemma uds_handshake_keeps:
  assumes k: "kernel_fds op k" and "uds_handshake k p s = Some (e, s')"
  shows "op (pc_world s') = op (pc_world s) \<and> (e = UPERF_SUCCESS \<or> e = UPERF_FAILURE)"
proof -
  obtain r s1 where r: "run_state (sysc k (Sys_write (p_fd p) (Text (uds_request p)) (int (length (uds_request p))))) s = (r, s1)"
    by (metis surj_pair)
  have "op (pc_world s1) = op (pc_world s)" by (rule keepsD [OF keeps_sysc [OF k] r]) simp
  with assms(2) r show ?thesis
    by (auto simp: uds_handshake_def split: if_splits option.splits dest: uds_answer_keeps [OF k])
qed

lemma keeps_sockaddr_uds: "kernel_fds op k \<Longrightarrow> keeps op (protocol_vsock_sockaddr_uds k cid port lsn)"
  unfolding protocol_vsock_sockaddr_uds_def Let_def by (auto intro!: kept split: option.split)

lemma uds_socket_owns:
  assumes k: "kernel_fds op k" and run: "run_state (uds_socket k p fo) s = ((a, e, p1, fo1), s1)"
  shows "owns op p1 s s1 \<and> (e = UPERF_SUCCESS \<and> 0 \<le> p_fd p1 \<or> e = UPERF_FAILURE)"
proof -
  obtain a0 t0 where 0: "run_state (protocol_vsock_sockaddr_uds k (Some (p_host p)) (to_u32 (p_port p)) False) s = (a0, t0)"
    by (metis surj_pair)
  let ?f = "case a0 of Vm_addr _ _ \<Rightarrow> AF_VSOCK | Un_addr _ \<Rightarrow> AF_UNIX"
  obtain e1 q t1 where 1: "run_state (generic_socket k p ?f 0) t0 = ((e1, q), t1)" by (metis surj_pair)
  have "op (pc_world t0) = op (pc_world s)" by (rule keepsD [OF keeps_sockaddr_uds [OF k] 0])
  with socket_owns [OF k 1] have so: "owns op q s t1" "e1 = UPERF_SUCCESS \<and> 0 \<le> p_fd q \<or> e1 = UPERF_FAILURE \<and> p_fd q < 0"
    by (auto simp: owns_def)
  let ?c = "case a0 of Vm_addr c d \<Rightarrow> Sys_connect_vm (p_fd q) c d | Un_addr path \<Rightarrow> Sys_connect_un (p_fd q) path"
  let ?m = "protocol_to_str (p_type q) @ '': Cannot connect to '' @ p_host q @ '':'' @ vm_port_text q"
  obtain fo2 t2 where 2: "run_state (set_vsock_options k (p_fd q) fo) t1 = (fo2, t2)" by (metis surj_pair)
  obtain r t3 where 3: "run_state (sysc k ?c) t2 = (r, t3)" by (metis surj_pair)
  obtain u t4 where 4: "run_state (report_errno UPERF_LOG_ERROR ?m) t3 = (u, t4)" by (metis surj_pair)
  have o2: "owns op q s t2" by (rule owns_keeps [OF so(1) keeps_set_vsock_options [OF k] 2])
  have "\<not> opens_or_closes ?c" by (cases a0) simp_all
  then have o3: "owns op q s t3" by (rule owns_keeps [OF o2 keeps_sysc [OF k] 3])
  have o4: "owns op q s t4" by (rule owns_keeps [OF o3 fds.on_report_errno 4])
  show ?thesis
  proof (cases "e1 < 0")
    case True
    with run 0 1 so show ?thesis by (auto simp: uds_socket_def)
  next
    case False
    with so(2) have "0 \<le> p_fd q" by (auto simp: UPERF_FAILURE_def)
    with run 0 1 2 3 4 False o3 o4 show ?thesis
      by (cases "re_ret r < 0") (auto simp: uds_socket_def)
  qed
qed

text \<open>
  Whatever the kernel answers, an attempt to connect that returns without success leaves no descriptor open
  once its object is destroyed, and a connection has exactly one.
\<close>

lemma uds_leaks_nothing:
  assumes "kernel_fds op k" and "0 \<in> op (pc_world s)"
    and c: "protocol_vsock_connect_uds k p fo s = Some ((e, p1, fo1), s1)"
    and f: "run_state (generic_fini k p1) s1 = (u, s2)"
  shows "op (pc_world s2) = op (pc_world s) \<and>
    (e = UPERF_SUCCESS \<longrightarrow> op (pc_world s1) = insert (p_fd p1) (op (pc_world s))) \<and> (e = UPERF_SUCCESS \<or> e = UPERF_FAILURE)"
proof -
  obtain a e0 q fo0 t where t: "run_state (uds_socket k p fo) s = ((a, e0, q, fo0), t)" by (metis surj_pair)
  note o1 = uds_socket_owns [OF assms(1) t]
  have "p1 = q \<and> op (pc_world s1) = op (pc_world t) \<and> (e = UPERF_SUCCESS \<longrightarrow> e0 = UPERF_SUCCESS) \<and> (e = UPERF_SUCCESS \<or> e = UPERF_FAILURE)"
    using c t o1 by (auto simp: protocol_vsock_connect_uds_def split: if_splits vsock_addr.splits
        dest: uds_handshake_keeps [OF assms(1)])
  then have "owns op p1 s s1" "e = UPERF_SUCCESS \<longrightarrow> 0 \<le> p_fd p1" "e = UPERF_SUCCESS \<or> e = UPERF_FAILURE"
    using o1 by (auto simp: owns_def UPERF_SUCCESS_def UPERF_FAILURE_def)
  with fini_closes [OF assms(1) _ assms(2) f] show ?thesis by (auto simp: owns_def)
qed

section \<open>The handshake\<close>

text \<open>
  Once the port was asked for, the whole line of the answer is read, and nothing behind it: what
  the peer sends next is the data of the connection. What the line says is not looked at.
\<close>

lemma uds_handshake_reads_line:
  assumes "delivers_bytes inp k"
    and "k (Sys_write (p_fd p) (Text (uds_request p)) (int (length (uds_request p)))) (pc_world s) = (r, w)" and "0 \<le> re_ret r"
    and "inp w = line @ CHR 0x0A # data" and "CHR 0x0A \<notin> set line"
  shows "\<exists>s'. uds_handshake k p s = Some (UPERF_SUCCESS, s') \<and> inp (pc_world s') = data"
proof -
  from uds_answer_reads_line [OF assms(1), of "CHR 0x00" line "s\<lparr>pc_world := w\<rparr>" data p] assms(4,5)
  obtain s' where "uds_answer k p CHR 0x00 (s\<lparr>pc_world := w\<rparr>) = Some (True, s')" "inp (pc_world s') = data" by auto
  with assms(2,3) show ?thesis by (auto simp: uds_handshake_def sysc_def)
qed

text \<open>A peer that says what is expected, and then sends.\<close>

definition lab_peer :: "string kernel" where
  "lab_peer c w =
     (let ok = \<lparr>re_ret = 0, re_errno = 0, re_addrs = [], re_val = 0, re_data = [], re_vm = (0, 0), re_lens = []\<rparr>
      in case c of
           Sys_read _ _ _ \<Rightarrow> (case w of [] \<Rightarrow> (ok, []) | x # xs \<Rightarrow> (ok\<lparr>re_ret := 1, re_data := [x]\<rparr>, xs))
         | Sys_write _ _ n \<Rightarrow> (ok\<lparr>re_ret := n\<rparr>, w)
         | _ \<Rightarrow> (ok, w))"

lemma lab_peer_delivers: "delivers_bytes id lab_peer"
  by (auto simp: delivers_bytes_def lab_peer_def split: list.split)

lemma uds_handshake_reads_line_witness:
  "\<exists>s'. uds_handshake lab_peer ((protocol_vsock_create ''/run/vm'' 20000)\<lparr>p_fd := 3\<rparr>)
      \<lparr>pc_errno = 0, pc_log = [], pc_world = ''OK 1073741824\<newline>data''\<rparr> = Some (UPERF_SUCCESS, s') \<and> pc_world s' = ''data''"
proof -
  let ?p = "(protocol_vsock_create ''/run/vm'' 20000)\<lparr>p_fd := 3\<rparr>"
  let ?s = "\<lparr>pc_errno = 0, pc_log = [], pc_world = ''OK 1073741824\<newline>data''\<rparr>"
  obtain r w where r: "lab_peer (Sys_write (p_fd ?p) (Text (uds_request ?p)) (int (length (uds_request ?p)))) (pc_world ?s) = (r, w)"
    and "0 \<le> re_ret r" "w = ''OK 1073741824\<newline>data''"
    by (simp add: lab_peer_def)
  with uds_handshake_reads_line [OF lab_peer_delivers r, of "''OK 1073741824''" "''data''"] show ?thesis by simp
qed

end
