(* ===== verification/Spec2Isabelle.thy ===== *)
theory Spec2Isabelle
  imports Lockstep Execute Profile_Text Flowlib_Correct Server Sctp Rds Ssl Startup Group_Heap
    Netstat_Bsd Hwcounter Platforms Vsock_Uds
begin

text \<open>
  uperf, the network performance tool (\<open>src/\<close>; every file named below is under \<open>src/src/\<close>).
  A \<^emph>\<open>profile\<close> describes groups of strands (threads or processes), each executing
  transactions of flowops (connect, write, read, think, ...) at a rate, a number of times or for
  a duration. One process, the \<^emph>\<open>master\<close>, reads the profile. It shakes hands with a
  \<^emph>\<open>slave\<close> on every host that is named in it, sends each the mirror image of the groups that
  concern it, starts its own strands, and then announces one transaction after the other. The
  strands of both sides meet at a barrier before each transaction, execute its flowops over the
  protocols, and count what they did in an array of counters in shared memory; at the end the
  slaves send their totals and the master prints the report.

  \<^bold>\<open>The parts and the theories that model them.\<close> A definition has the name of its C function
  wherever it stands for a whole one; the parts a long function is split into are named after
  what they do and are composed in the order of the code.

  \<^item> Vocabulary. \<open>Prelude\<close>: constants and machine integers of \<open>uperf.h\<close>, the C string functions
    in use, the result type \<open>c_stop + 'a\<close> of what can exit, abort or be undefined.
    \<open>Bytes\<close>: integers in memory for both byte orders and the \<open>BSWAP\<close> macros. \<open>Numbers\<close>:
    sizes and times with units (\<open>numbers.c\<close>), with the rounding of \<open>double\<close> and \<open>float\<close>.
    \<open>Logging\<close>: the table of error messages and the levels of what is printed (\<open>logging.c\<close>).
    \<open>Stats\<close>: the counters of a flowop, transaction, group and strand (\<open>stats.c\<close>).
  \<^item> The profile, from text to work order (\<open>parse.c\<close>). \<open>Flowops\<close> and \<open>Protocols\<close>: the tables of
    \<open>flowops.c\<close> and \<open>protocol.c\<close>. \<open>Workorder\<close>: the records and the operations of
    \<open>workorder.c\<close>; \<open>Group_Heap\<close>: its \<open>group_clone\<close> and \<open>group_free\<close> over a heap with
    pointers. \<open>Lexer\<close>: text to symbols. \<open>Options\<close>: the options of a flowop. \<open>Profile\<close>: symbols
    to a work order. \<open>Profile_Text\<close>: a profile as data, its text and its meaning, independent of
    the parser. \<open>Sendfile\<close>: the directories a \<open>sendfile\<close> flowop reads from.
  \<^item> The control protocol. \<open>Netio\<close>: complete transfers over a stream (\<open>ensure_read\<close>,
    \<open>ensure_write\<close> of \<open>common.c\<close>). \<open>Layout\<close>, \<open>Headers\<close>: every struct that is sent, byte for
    byte. \<open>Workxfer\<close>: sending a group and rebuilding it; \<open>Handshake\<close>: both sides of
    \<open>handshake.c\<close>. \<open>Goodbye\<close>: commands, \<open>safe_read\<close> and \<open>goodbye.c\<close>.
  \<^item> The strands. \<open>Shm\<close>: the shared region of \<open>shm.c\<close>, the setup of \<open>strand.c\<close>, who gets which
    counters. \<open>Barriers\<close>: \<open>sync.c\<close>. \<open>Pool\<close>: a strand's connections, their list and cache
    (\<open>strand.c\<close>). \<open>Rate\<close>: \<open>rate.c\<close>. \<open>Execute\<close>: \<open>execute.c\<close> and \<open>strand_run\<close>. \<open>Lockstep\<close>:
    all strands and the main thread at the barriers, as a step relation.
  \<^item> Protocols and flowops. \<open>Sockets\<close>: \<open>generic.c\<close> and \<open>tcp.c\<close>; \<open>Udp\<close>, \<open>Vsock\<close>, \<open>Sctp\<close>, \<open>Rds\<close>,
    \<open>Ssl\<close>: the file of that name. \<open>Flowlib\<close>, \<open>Flowlib_Correct\<close>: \<open>flowops_library.c\<close> and
    \<open>delay.c\<close> over any protocol, and over TCP and UDP.
  \<^item> The processes. \<open>Signals\<close>: \<open>signals.c\<close>, the signalling of strands and the callouts that end a
    transaction. \<open>Slave\<close>: the process that serves one master; \<open>Server\<close>: the loop that accepts
    masters, forks and reaps (both \<open>slave.c\<close>). \<open>Master\<close>: \<open>master.c\<close>. \<open>Startup\<close>: the command
    line and \<open>main\<close> (\<open>main.c\<close>). \<open>Report\<close>: the rows and the text of \<open>print.c\<close>; \<open>Netstat\<close>: the
    traffic of the interfaces on Linux (\<open>netstat.c\<close>).
  \<^item> What other builds have instead. \<open>Netstat_Bsd\<close>: \<open>netstat.c\<close> over the output of \<open>netstat -bi\<close> (FreeBSD,
    macOS) and over libkstat (Solaris). \<open>Platforms\<close>: \<open>sendfilev\<close> and the \<open>sendfile\<close> of FreeBSD and macOS
    (\<open>sendfilev.c\<close>, \<open>flowops_library.c\<close>), the clocks (\<open>stats.c\<close>) and the sleeping calls (\<open>delay.c\<close>).
    \<open>Vsock_Uds\<close>: \<open>vsock.c\<close> with \<open>VSOCK_OVER_UDS\<close>.
    \<open>Hwcounter\<close>: hardware counters (\<open>hwcounter.c\<close>, and what \<open>USE_CPC\<close> adds to \<open>stats.c\<close> and
    \<open>strand.c\<close>).
  \<^item> This theory: what connects the first part with the third, the profile of the master with the
    group of the slave.

  \<^bold>\<open>How state and effects are kept.\<close>
  \<^item> A struct is a record with the fields the program reads, a linked list is a list, except where
    the pointers are the point: the pool of connections (\<open>Pool\<close>) and the groups of \<open>Group_Heap\<close> lie
    in a store of cells, and following a pointer to no cell is \<open>Undefined\<close>.
  \<^item> An integer that wraps, overflows or travels is a word of its width. The C \<open>int\<close>s that only
    count are \<open>int\<close>, with the conversion to 32 bits written out where there is one.
  \<^item> What the code cannot see is an argument: the kernel (a function from a system call and the
    state of the world to a reply, for the programs of the state monad in \<open>Sockets\<close>), the bytes a
    peer sends (\<open>chan\<close>), the clock, the other threads (\<open>e_async\<close>, \<open>ce_strands\<close>), \<open>fork\<close>, OpenSSL,
    libcpc, libkstat, the contents of \<open>/proc/net/dev\<close> and the output of \<open>netstat\<close>, the environment, and the choices of the build
    (\<open>build_config\<close>, \<open>tcp_config\<close>, \<open>sctp_config\<close>, \<open>rds_config\<close>).
  \<^item> A loop that need not end is a partial function with the value \<open>None\<close> if it does not return
    (the walk of a list of pointers, \<open>safe_read\<close>, the wait for a line, the loops of the master, the slave and the
    server, waiting busily, sending a batch), and that it returns is proved where it is
    claimed: \<open>run_completes\<close>, \<open>duration_ends\<close>, \<open>pool_refines_list\<close>, \<open>clone_then_free\<close>,
    \<open>slave_follows_commands\<close>. The other loops are total, by a measure where the recursion is not
    structural. Nothing runs on fuel.

  \<^bold>\<open>Interfaces.\<close>
  \<^item> \<open>codec\<close> (\<open>Bytes\<close>): what one host puts, another gets, up to the view of its byte order. Every
    struct of the wire is an interpretation; the transfers are proved over it.
  \<^item> \<open>transfer\<close> (\<open>Netio\<close>): a complete read or write, provided by \<open>ensure_read\<close> and \<open>ensure_write\<close>.
  \<^item> \<open>conn_store\<close> (\<open>Pool\<close>): a list of connections with their ids, provided by the doubly-linked list
    with its cache; what the flowops need to know of the pool.
  \<^item> \<open>world_rel\<close> (\<open>Sockets\<close>): a relation that every system call respects, and with it every
    program; used for the calls made and for the descriptors that stay open. \<open>stream_connect\<close>: connecting
    opens no descriptor unless it succeeds (TCP, VSOCK, SCTP). \<open>stream_accept\<close> (\<open>Server\<close>):
    the same of accepting, for the listeners of the server (TCP, VSOCK).
  \<^item> \<open>aggregation\<close> (\<open>Stats\<close>): summing counters; \<open>invariant_system\<close> (\<open>Prelude\<close>): invariants of a
    step relation, used by \<open>Lockstep\<close>.

  \<^bold>\<open>What is shown.\<close>
  \<^item> The profile: its documented form parses to its meaning and only to well-typed work orders
    (\<open>profile_round_trip\<close>, \<open>profile_well_typed\<close>); sizes with units mean what they say or are
    rejected (\<open>sizes_are_read\<close>); the command line likewise (\<open>options_accepted\<close>;
    \<open>command_line_read\<close> in \<open>Startup\<close>). Mirroring a group twice gives it back, where
    it has no sendfile flowop (\<open>group_opposite_mirror\<close>); a clone is a copy that shares no cell with its original
    and freeing it gives everything back (\<open>clone_then_free\<close>).
  \<^item> The control protocol: the work order arrives whatever the byte orders and the pieces the
    kernel delivers (\<open>work_order_delivered\<close>), the slave does the counterpart of what the text of the
    profile makes the master do (\<open>slave_mirrors_profile\<close>), the two sides of the handshake understand one
    another (\<open>handshake_understood\<close>), a slave runs only for a master of its version
    (\<open>slave_handshake_checks\<close>), the ports (\<open>ports_arrive\<close>) and totals (\<open>goodbye_totals\<close>) arrive.
  \<^item> The run: strands never drift apart and the barriers do not deadlock
    (\<open>strands_in_lockstep\<close>, \<open>barriers_do_not_deadlock\<close>); the master announces in order
    (\<open>master_announces_in_order\<close>), stops at a message (\<open>master_aborts_on_message\<close>), keeps one
    connection per host (\<open>one_control_connection_per_host\<close>), and completes when its slaves do
    (\<open>run_completes\<close>); the slave follows the commands (\<open>slave_follows_commands\<close>) and gives up on
    strands that do not come (\<open>slave_gives_up\<close>); the server keeps no descriptor of
    the connections it hands over (\<open>server_leaks_nothing\<close>).
  \<^item> A strand executes its group as often as the profile says (\<open>strand_executes_profile\<close>), and a
    duration ends (\<open>duration_ends\<close>, \<open>callouts_served\<close>); the counters it is given exist
    (\<open>region_suffices\<close>) and sum up (\<open>strand_totals\<close>, \<open>flowop_rows_complete\<close>,
    \<open>netstat_reads_back\<close>, \<open>bsd_counters_by_name\<close>).
  \<^item> Flowops: a transfer moves its whole size (\<open>flowop_rw_complete\<close>, \<open>sctp_batches_sent\<close>),
    connecting is all or nothing (\<open>connect_all_or_nothing\<close>, \<open>tcp_connect_leaks_nothing\<close>), the pool
    is the list it stands for (\<open>pool_refines_list\<close>).
  \<^item> Where the code departs from its intent, the theorem states what it does:
    \<open>udp_second_accept_loops\<close>, \<open>freed_connection_used\<close>, \<open>sctp_failed_batch_unnoticed\<close>,
    \<open>ssl_closes_foreign_descriptors\<close>, \<open>counters_switched_off\<close>; and so do the lemmas
    \<open>group_details_overcount\<close> (\<open>Report\<close>), \<open>udp_read_requests\<close> (\<open>Udp\<close>), \<open>counter_sets_returned\<close> and
    \<open>events_cut_once\<close> (\<open>Hwcounter\<close>).

  \<^bold>\<open>Bounds.\<close> The constants are the code's: \<open>NUM_BARRIER\<close> (100) barriers of a region, \<open>NUM_ERR_STR\<close> messages,
  \<open>NAMELEN\<close>, eight entries of the connection cache, the retries of signals. \<open>malloc\<close> and
  \<open>calloc\<close> succeed unless the code looks at the answer; a \<open>pthread\<close> call succeeds.

  \<^bold>\<open>Not modelled.\<close>
  \<^item> Platforms: the creation of Android's alarm, and its wake lock. The flowop and
    strand theories take the sleeping call and the clock as parameters; \<open>Platforms\<close> has the choices.
  \<^item> Text that is only printed: usage, version, info and debug messages, \<open>print_stacks\<close> and the
    printing functions of \<open>DEBUG\<close> builds, and the \<open>main\<close>s that test a single file.
  \<^item> The end of the process: \<open>shm_fini\<close>, \<open>munmap\<close>, and the locks and clean-up of OpenSSL.
\<close>

section \<open>Both sides of a profile\<close>

text \<open>
  What the strand of a slave does where the master's strand executes \<open>f\<close>: the opposite, or nothing
  when the flowop is for another host, with the same options but for the hosts (and a field
  that nobody reads), the streams of SCTP exchanged.
\<close>

definition hostless :: "flowop_options \<Rightarrow> flowop_options" where
  "hostless fo = fo\<lparr>fo_remotehost := [], fo_localhost := [], fo_bblog := 0\<rparr>"

definition counterpart :: "string \<Rightarrow> flowop \<Rightarrow> flowop \<Rightarrow> bool" where
  "counterpart host f f' =
     (f_type f' = (if fo_remotehost (f_options f) \<in> {[], host} then flowop_opposite (f_type f) else FLOWOP_NOP) \<and>
      hostless (f_options f') = hostless (option_oposite (f_options f)) \<and>
      f_execute f' = Some (flowop_get_execute_func (f_type f')))"

definition txn_counterpart :: "string \<Rightarrow> txn \<Rightarrow> txn \<Rightarrow> bool" where
  "txn_counterpart host t t' =
     (t_txnid t' = t_txnid t \<and> t_duration t' = t_duration t \<and> t_rate_count t' = t_rate_count t \<and>
      list_all2 (counterpart host) (txn_trace t) (txn_trace t'))"

lemma slave_flowop_counterpart:
  assumes "mirrorable f"
  shows "counterpart host f (slave_flowop e e' phost (nop_flowop host (fst (optimize_flowop (flowop_opp f) 0))))"
proof -
  have "fst (optimize_flowop (flowop_opp f) 0) = flowop_opp f"
    using assms by (intro optimize_mirrorable flowop_opp_mirrorable)
  moreover have "f_options (flowop_opp f) = option_oposite (f_options f)" "f_type (flowop_opp f) = flowop_opposite (f_type f)"
    using assms by (simp_all add: flowop_opp_def mirrorable_def Let_def)
  ultimately show ?thesis
    by (auto simp: counterpart_def slave_flowop_def nop_flowop_def swap_hosts_def hostless_def option_oposite_def Let_def)
qed

declare optimize_flowop.simps [simp del]

lemma counterpart_count: "counterpart host f f' \<Longrightarrow> fo_count (f_options f') = fo_count (f_options f)"
proof -
  assume "counterpart host f f'"
  then have "fo_count (hostless (f_options f')) = fo_count (hostless (option_oposite (f_options f)))" by (simp add: counterpart_def)
  then show ?thesis by (simp add: hostless_def option_oposite_def)
qed

lemma list_all2_replicate: "R x y \<Longrightarrow> list_all2 R (replicate n x) (replicate n y)"
  by (induction n) auto

lemma list_all2_concat: "list_all2 (list_all2 R) xss yss \<Longrightarrow> list_all2 R (concat xss) (concat yss)"
  by (induction xss yss rule: list_all2_induct) (auto intro: list_all2_appendI)

lemma slave_txn_counterpart:
  assumes "\<forall>f \<in> set (t_flist t). mirrorable f"
  shows "txn_counterpart host t (slave_txn e e' phost (t\<lparr>t_flist := map (nop_flowop host \<circ> (\<lambda>f. fst (optimize_flowop (flowop_opp f) 0))) (t_flist t)\<rparr>))"
proof -
  let ?s = "\<lambda>f. slave_flowop e e' phost (nop_flowop host (fst (optimize_flowop (flowop_opp f) 0)))"
  have c: "counterpart host f (?s f)" if "f \<in> set (t_flist t)" for f using assms that slave_flowop_counterpart by blast
  then have "fo_count (f_options (?s f)) = fo_count (f_options f)" if "f \<in> set (t_flist t)" for f
    using that counterpart_count by blast
  with c have "list_all2 (list_all2 (counterpart host)) (map flowop_trace (t_flist t)) (map (flowop_trace \<circ> ?s) (t_flist t))"
    by (auto simp: list_all2_map1 list_all2_map2 list_all2_same flowop_trace_def intro!: list_all2_replicate)
  from list_all2_concat [OF this] show ?thesis
    by (auto simp: txn_counterpart_def slave_txn_def txn_trace_def once_trace_def comp_def intro!: list_all2_concat list_all2_replicate)
qed

lemma slave_group_counterpart:
  assumes "\<forall>t \<in> set (g_tlist g). \<forall>f \<in> set (t_flist t). mirrorable f"
  shows "list_all2 (txn_counterpart host) (g_tlist g) (g_tlist (slave_group e e' phost (group_for_slave host g)))"
  using assms by (auto simp: slave_group_def group_for_slave_def group_opposite_eq Let_def comp_def list_all2_map2 list_all2_same
      intro!: slave_txn_counterpart [unfolded comp_def])



text \<open>The group of a small profile, and the master's channel to a slave that answers.\<close>

definition lab_write_group :: group where
  "lab_write_group = group_of tcp_only no_env 0 (hd (ps_groups small_profile))"

lemma lab_write_group_is:
  "g_tlist lab_write_group = [txn_of tcp_only no_env 0 (hd (gs_txns (hd (ps_groups small_profile))))]"
  "t_flist (hd (g_tlist lab_write_group)) = [flowop_of tcp_only 0 \<lparr>fs_type = ''write'', fs_opts = [Opt_size 8192, Opt_canfail]\<rparr>]"
  "f_type (hd (t_flist (hd (g_tlist lab_write_group)))) = FLOWOP_WRITE"
  "fo_remotehost (f_options (hd (t_flist (hd (g_tlist lab_write_group))))) = []"
  "mirrorable (hd (t_flist (hd (g_tlist lab_write_group))))"
  "txn_trace (hd (g_tlist lab_write_group)) = replicate 10 (hd (t_flist (hd (g_tlist lab_write_group))))"
proof -
  have w: "flowop_type_of_name ''write'' = FLOWOP_WRITE" by code_simp
  note d = lab_write_group_def group_of_def small_profile_def txn_of_def rated_def enumerate_eq_zip flowop_of_def w Let_def upd_def
  show "g_tlist lab_write_group = [txn_of tcp_only no_env 0 (hd (gs_txns (hd (ps_groups small_profile))))]"
    by (simp add: lab_write_group_def group_of_def small_profile_def)
  show t: "t_flist (hd (g_tlist lab_write_group)) = [flowop_of tcp_only 0 \<lparr>fs_type = ''write'', fs_opts = [Opt_size 8192, Opt_canfail]\<rparr>]"
    by (simp add: lab_write_group_def group_of_def small_profile_def txn_of_def rated_def)
  show "f_type (hd (t_flist (hd (g_tlist lab_write_group)))) = FLOWOP_WRITE"
    "fo_remotehost (f_options (hd (t_flist (hd (g_tlist lab_write_group))))) = []"
    "mirrorable (hd (t_flist (hd (g_tlist lab_write_group))))"
    unfolding t by (simp_all add: d zero_options_def mirrorable_def)
  show "txn_trace (hd (g_tlist lab_write_group)) = replicate 10 (hd (t_flist (hd (g_tlist lab_write_group))))"
  proof -
    have c: "concat (replicate n [x]) = replicate n x" for n and x :: flowop by (induction n) auto
    have "t_iter (hd (g_tlist lab_write_group)) = 10" by (simp add: d)
    then have n: "unat (t_iter (hd (g_tlist lab_write_group))) = 10" by simp
    have "fo_count (f_options (hd (t_flist (hd (g_tlist lab_write_group))))) = 1" unfolding t by (simp add: d zero_options_def)
    then have "flowop_trace (hd (t_flist (hd (g_tlist lab_write_group)))) = [hd (t_flist (hd (g_tlist lab_write_group)))]"
      by (simp add: flowop_trace_def)
    then show ?thesis unfolding txn_trace_def once_trace_def n by (simp add: t c)
  qed
qed


definition lab_answers :: "byte list" where
  "lab_answers = put_hs_ack \<lparr>ha_status = ''OK'', ha_message = []\<rparr> @
     put_hs_ack2 BigEndian \<lparr>ha_status = ''OK'', ha_message = [], ha_no_slave_info = 0\<rparr>"

definition lab_master_chan :: "byte list \<Rightarrow> nat \<Rightarrow> nat \<Rightarrow> nat \<Rightarrow> chan" where
  \<comment> \<open>having sent some bytes, with so many writes and reads to come, and read up to a place\<close>
  "lab_master_chan out m n k =
     \<lparr>ch_rd = replicate n 1000, ch_in = drop k lab_answers, ch_wr = replicate m 1000, ch_out = out\<rparr>"

lemma lab_acks:
  "length lab_answers = SIZEOF_HS_ACK + SIZEOF_HS_ACK2"
  "fst (get_hs_ack (take SIZEOF_HS_ACK lab_answers)) = \<lparr>ha_status = ''OK'', ha_message = []\<rparr>"
  "fst (get_hs_ack2 LittleEndian (take SIZEOF_HS_ACK2 (drop SIZEOF_HS_ACK lab_answers))) = \<lparr>ha_status = ''OK'', ha_message = [], ha_no_slave_info = 0\<rparr>"
proof -
  let ?a = "put_hs_ack \<lparr>ha_status = ''OK'', ha_message = []\<rparr>"
  let ?a2 = "put_hs_ack2 BigEndian \<lparr>ha_status = ''OK'', ha_message = [], ha_no_slave_info = 0\<rparr>"
  have l: "length ?a = SIZEOF_HS_ACK" "length ?a2 = SIZEOF_HS_ACK2" by (simp, rule hs_ack2_codec.length_put)
  then show "length lab_answers = SIZEOF_HS_ACK + SIZEOF_HS_ACK2" by (simp add: lab_answers_def)
  have "fst (get_hs_ack ?a) = \<lparr>ha_status = ''OK'', ha_message = []\<rparr>"
    by (rule hs_ack_codec.get_put_exact) (simp add: hs_ack_wf_def c_string_def)
  with l show "fst (get_hs_ack (take SIZEOF_HS_ACK lab_answers)) = \<lparr>ha_status = ''OK'', ha_message = []\<rparr>" by (simp add: lab_answers_def)
  have "fst (get_hs_ack2 LittleEndian ?a2) = \<lparr>ha_status = ''OK'', ha_message = [], ha_no_slave_info = 0\<rparr>
      \<lparr>ha_no_slave_info := wview BigEndian LittleEndian (ha_no_slave_info \<lparr>ha_status = ''OK'', ha_message = [], ha_no_slave_info = 0\<rparr>)\<rparr>"
    by (rule hs_ack2_codec.get_put_exact) (simp add: c_string_def)
  with l show "fst (get_hs_ack2 LittleEndian (take SIZEOF_HS_ACK2 (drop SIZEOF_HS_ACK lab_answers))) =
      \<lparr>ha_status = ''OK'', ha_message = [], ha_no_slave_info = 0\<rparr>" by (simp add: lab_answers_def wview_cross)
qed

lemma lab_write:
  "bs \<noteq> [] \<Longrightarrow> length bs \<le> 1000 \<Longrightarrow> 0 < m \<Longrightarrow>
   ensure_write bs (lab_master_chan out m n k) = (int (length bs), lab_master_chan (out @ bs) (m - 1) n k)"
  using ensure_write_once [of bs 1000] by (cases m) (simp_all add: lab_master_chan_def)

lemma lab_read:
  "0 < j \<Longrightarrow> j \<le> 1000 \<Longrightarrow> 0 < n \<Longrightarrow> k + j \<le> length lab_answers \<Longrightarrow>
   ensure_read j (lab_master_chan out m n k) = (int j, take j (drop k lab_answers), lab_master_chan out m (n - 1) (k + j))"
  using ensure_read_once [of j 1000 "drop k lab_answers"] by (cases n) (simp_all add: lab_master_chan_def add.commute)

lemma lab_handshake:
  fixes lsn :: listener
  obtains ps cm1 out where "ps = replicate NUM_PROTOCOLS (0 :: int)"
    and "handshake_p1_with_slave LittleEndian ps (lab_master_chan [] 5 2 0) = (0, cm1)"
    and "handshake_p2_with_slave LittleEndian tcp_only lsn ''slave'' lab_write_group 0 (shm_init two_groups, cm1) =
      Inr (UPERF_SUCCESS, shm_init two_groups, lab_master_chan out 0 0 (SIZEOF_HS_ACK + SIZEOF_HS_ACK2))"
    and "length out \<le> 3000"
proof -
  let ?ps = "replicate NUM_PROTOCOLS (0 :: int)" and ?e = LittleEndian
  let ?P1 = "put_hs_phase1 ?e (phase1_header ?ps)" and ?P2 = "put_hs_phase1 ?e (phase2_header 0)"
  let ?g = "group_for_slave ''slave'' lab_write_group"
  obtain t f where g: "g_tlist ?g = [t]" "t_flist t = [f]"
    using lab_write_group_is(1,2) by (auto simp: group_for_slave_def group_opposite_eq Let_def)
  let ?G = "put_group ?e ?g" and ?T = "put_txn ?e t" and ?F = "put_flowop ?e f"
  have l: "length ?G = 24" "length ?T = 168" "length ?F = 944" "length ?P1 = SIZEOF_HS_PHASE1" "length ?P2 = SIZEOF_HS_PHASE1"
    using group_codec.length_put [of ?e ?g] txn_codec.length_put [of ?e t] flowop_codec.length_put [of ?e f]
    by (simp_all add: SIZEOF_GROUP_T_def SIZEOF_TXN_T_def SIZEOF_FLOWOP_T_def)
  have s: "SIZEOF_HS_PHASE1 \<le> 900" "0 < SIZEOF_HS_PHASE1" "SIZEOF_HS_ACK \<le> 1000" "SIZEOF_HS_ACK2 \<le> 1000" "0 < SIZEOF_HS_ACK" "0 < SIZEOF_HS_ACK2"
    by (simp_all add: SIZEOF_HS_PHASE1_def SIZEOF_HS_ACK_def SIZEOF_HS_ACK2_def)
  have w: "ensure_write ?P1 (lab_master_chan [] 5 2 0) = (int SIZEOF_HS_PHASE1, lab_master_chan ?P1 4 2 0)"
    "ensure_write ?P2 (lab_master_chan ?P1 4 1 SIZEOF_HS_ACK) = (int SIZEOF_HS_PHASE1, lab_master_chan (?P1 @ ?P2) 3 1 SIZEOF_HS_ACK)"
    "ensure_write ?G (lab_master_chan (?P1 @ ?P2) 3 1 SIZEOF_HS_ACK) = (24, lab_master_chan ((?P1 @ ?P2) @ ?G) 2 1 SIZEOF_HS_ACK)"
    "ensure_write ?T (lab_master_chan ((?P1 @ ?P2) @ ?G) 2 1 SIZEOF_HS_ACK) = (168, lab_master_chan (((?P1 @ ?P2) @ ?G) @ ?T) 1 1 SIZEOF_HS_ACK)"
    "ensure_write ?F (lab_master_chan (((?P1 @ ?P2) @ ?G) @ ?T) 1 1 SIZEOF_HS_ACK) =
       (944, lab_master_chan ((((?P1 @ ?P2) @ ?G) @ ?T) @ ?F) 0 1 SIZEOF_HS_ACK)"
    using lab_write [OF ack_bytes(2) [of ?e "phase1_header ?ps"], of 5 "[]" 2 0] lab_write [OF ack_bytes(2) [of ?e "phase2_header 0"], of 4 ?P1 1]
      lab_write [OF put_nonempty(3) [of ?e ?g], of 3 _ 1] lab_write [OF put_nonempty(2) [of ?e t], of 2 _ 1] lab_write [OF put_nonempty(1) [of ?e f], of 1 _ 1] l s
    by (simp_all del: append_assoc)
  have r: "ensure_read SIZEOF_HS_ACK (lab_master_chan ?P1 4 2 0) =
      (int SIZEOF_HS_ACK, take SIZEOF_HS_ACK lab_answers, lab_master_chan ?P1 4 1 SIZEOF_HS_ACK)"
    "ensure_read SIZEOF_HS_ACK2 (lab_master_chan out 0 1 SIZEOF_HS_ACK) = (int SIZEOF_HS_ACK2,
      take SIZEOF_HS_ACK2 (drop SIZEOF_HS_ACK lab_answers), lab_master_chan out 0 0 (SIZEOF_HS_ACK + SIZEOF_HS_ACK2))" for out
    using lab_read [of SIZEOF_HS_ACK 2 0 ?P1 4] lab_read [of SIZEOF_HS_ACK2 1 SIZEOF_HS_ACK out 0] s lab_acks(1) by simp_all
  let ?out = "(((?P1 @ ?P2) @ ?G) @ ?T) @ ?F"
  have "handshake_p1_with_slave ?e ?ps (lab_master_chan [] 5 2 0) = (0, lab_master_chan ?P1 4 1 SIZEOF_HS_ACK)"
    unfolding handshake_p1_with_slave_def w(1) r(1) Let_def prod.case lab_acks(2) using s by (simp add: UPERF_OK_def)
  moreover have tx: "tx_group_t ?e lab_write_group ''slave'' (lab_master_chan (?P1 @ ?P2) 3 1 SIZEOF_HS_ACK) =
      (UPERF_SUCCESS, lab_master_chan ?out 0 1 SIZEOF_HS_ACK)"
    unfolding tx_group_t_def Let_def w(3) prod.case g(1) tx_txns.simps w(4) g(2) tx_flowops.simps w(5) by simp
  have pre: "preprocess_accepts tcp_only lsn lab_write_group 0 (shm_init two_groups) = Inr (UPERF_SUCCESS, None, shm_init two_groups)"
    using lab_write_group_is(1-3) by (simp add: preprocess_accepts_def UPERF_SUCCESS_def UPERF_FAILURE_def)
  have "handshake_p2_with_slave ?e tcp_only lsn ''slave'' lab_write_group 0 (shm_init two_groups, lab_master_chan ?P1 4 1 SIZEOF_HS_ACK) =
      Inr (UPERF_SUCCESS, shm_init two_groups, lab_master_chan ?out 0 0 (SIZEOF_HS_ACK + SIZEOF_HS_ACK2))"
    unfolding handshake_p2_with_slave_def Let_def prod.case pre cbind_simps using s
    by (simp add: w(2) [unfolded One_nat_def] tx [unfolded One_nat_def] r(2) [unfolded One_nat_def] lab_acks(3)
        tx_slave_infos_def rx_phase2_ack_def UPERF_OK_def UPERF_SUCCESS_def UPERF_FAILURE_def del: append_assoc)
  ultimately show thesis using l s by (intro that [OF refl]) auto
qed


end
